(* ===== verification/Prelude.thy ===== *)
theory Prelude
  imports Main "HOL-Library.AList" "HOL-Library.Sublist"
begin

text \<open>
  What every component of the development shares.

  \<^item> Rust \<open>str\<close> and byte slices are HOL strings: a HOL \<open>char\<close> is one byte, so a
    \<open>string\<close> is the UTF-8 byte sequence that the Rust value holds. The string functions of the
    Rust standard library which the sources call (\<open>trim\<close>, \<open>lines\<close>, \<open>strip_prefix\<close>, \<open>split\<close>,
    \<open>rsplit_once\<close>, \<open>eq_ignore_ascii_case\<close>, ...) are defined here on that representation.
  \<^item> A Rust \<open>HashMap\<close> is an association list whose order is one iteration order of the map;
    insertion is \<open>AList.update\<close>, removal \<open>AList.delete\<close>. Results never depend on the order
    unless the property quantifies over it.
  \<^item> \<open>Result<T, E>\<close> is the sum type \<open>E + T\<close>.
  \<^item> The locale \<open>machine\<close> turns a labelled step relation with an initial predicate and an
    inductive invariant into the invariance of all reachable states.
\<close>

section \<open>Collections of facts\<close>

named_theorems str_simps "evaluation of the string functions of the standard library"
named_theorems map_simps "look-up after update of association lists"

type_synonym ('k, 'v) hashmap = "('k \<times> 'v) list"

section \<open>Strings as byte sequences\<close>

definition strip_prefix :: "string \<Rightarrow> string \<Rightarrow> string option" where
  "strip_prefix p s = (if prefix p s then Some (drop (length p) s) else None)"

definition strip_suffix :: "string \<Rightarrow> string \<Rightarrow> string option" where
  "strip_suffix p s = (if suffix p s then Some (take (length s - length p) s) else None)"

text \<open>The UTF-8 encodings of the characters with the Unicode property \<open>White_Space\<close>, which
  is what \<open>str::trim\<close> removes. On well-formed UTF-8 an encoding occurs as a prefix or a suffix
  of the bytes exactly when the character is the first or the last one of the text.\<close>

definition white_space :: "string list" where
  "white_space =
     map (\<lambda>b. [char_of (b :: nat)]) [9, 10, 11, 12, 13, 32] @
     map (\<lambda>bs. map char_of (bs :: nat list))
       [[0xC2, 0x85], [0xC2, 0xA0], [0xE1, 0x9A, 0x80],
        [0xE2, 0x80, 0x80], [0xE2, 0x80, 0x81], [0xE2, 0x80, 0x82], [0xE2, 0x80, 0x83],
        [0xE2, 0x80, 0x84], [0xE2, 0x80, 0x85], [0xE2, 0x80, 0x86], [0xE2, 0x80, 0x87],
        [0xE2, 0x80, 0x88], [0xE2, 0x80, 0x89], [0xE2, 0x80, 0x8A],
        [0xE2, 0x80, 0xA8], [0xE2, 0x80, 0xA9], [0xE2, 0x80, 0xAF], [0xE2, 0x81, 0x9F],
        [0xE3, 0x80, 0x80]]"

lemma white_space_nonempty: "w \<in> set white_space \<Longrightarrow> w \<noteq> []"
  by (auto simp: white_space_def)

lemma find_prefix_less:
  "List.find (\<lambda>w. prefix w s) white_space = Some w \<Longrightarrow> length (drop (length w) s) < length s"
  by (auto simp: find_Some_iff dest!: white_space_nonempty[OF nth_mem] prefix_length_le
        intro!: diff_less)

lemma find_suffix_less:
  "List.find (\<lambda>w. suffix w s) white_space = Some w \<Longrightarrow>
     length (take (length s - length w) s) < length s"
  by (auto simp: find_Some_iff dest!: white_space_nonempty[OF nth_mem] suffix_length_le
        intro!: diff_less)

function trim_start :: "string \<Rightarrow> string" where
  "trim_start s = (case List.find (\<lambda>w. prefix w s) white_space of
                     None \<Rightarrow> s | Some w \<Rightarrow> trim_start (drop (length w) s))"
  by pat_completeness auto
termination
  by (relation "measure length") (use find_prefix_less in auto)

function trim_end :: "string \<Rightarrow> string" where
  "trim_end s = (case List.find (\<lambda>w. suffix w s) white_space of
                     None \<Rightarrow> s | Some w \<Rightarrow> trim_end (take (length s - length w) s))"
  by pat_completeness auto
termination
  by (relation "measure length") (use find_suffix_less in auto)

declare trim_start.simps [simp del] trim_end.simps [simp del]

definition trim :: "string \<Rightarrow> string" where
  "trim s = trim_end (trim_start s)"

text \<open>\<open>trim_end_matches\<close> and \<open>trim_start_matches\<close> with a set of one-byte characters.\<close>

definition trim_end_matches :: "char list \<Rightarrow> string \<Rightarrow> string" where
  "trim_end_matches cs s = rev (dropWhile (\<lambda>c. c \<in> set cs) (rev s))"

definition trim_start_matches :: "char list \<Rightarrow> string \<Rightarrow> string" where
  "trim_start_matches cs s = dropWhile (\<lambda>c. c \<in> set cs) s"

text \<open>\<open>str::split\<close> on a one-byte character: always at least one piece.\<close>

fun split_on :: "char \<Rightarrow> string \<Rightarrow> string list" where
  "split_on c [] = [[]]"
| "split_on c (x # xs) =
     (if x = c then [] # split_on c xs
      else (x # hd (split_on c xs)) # tl (split_on c xs))"

lemma split_on_nonempty [simp]: "split_on c s \<noteq> []"
  by (cases s) auto

lemma split_on_code [code]:
  "split_on c [] = [[]]"
  "split_on c (x # xs) = (case split_on c xs of p # ps \<Rightarrow> if x = c then [] # p # ps else (x # p) # ps | [] \<Rightarrow> [])"
  by (simp_all split: list.split)

text \<open>\<open>str::rsplit_once\<close>: the parts before and after the last occurrence.\<close>

definition rsplit_once :: "char \<Rightarrow> string \<Rightarrow> (string \<times> string) option" where
  "rsplit_once c s =
     (if c \<in> set s
      then Some (rev (tl (dropWhile (\<lambda>x. x \<noteq> c) (rev s))), rev (takeWhile (\<lambda>x. x \<noteq> c) (rev s)))
      else None)"

definition nl :: char where "nl = CHR 10"
definition cr :: char where "cr = CHR 13"

lemma nl_cr_simps [simp]: "nl \<noteq> cr" "cr \<noteq> nl"
  by (simp_all add: nl_def cr_def)

text \<open>\<open>str::lines\<close>: the pieces ended by a line feed, each without the line feed and without a
  carriage return directly before it, then the rest if it is not empty.\<close>

definition chomp_cr :: "string \<Rightarrow> string" where
  "chomp_cr l = (if l \<noteq> [] \<and> last l = cr then butlast l else l)"

fun lines_aux :: "string \<Rightarrow> string \<Rightarrow> string list" where
  "lines_aux acc [] = (if acc = [] then [] else [rev acc])"
| "lines_aux acc (x # xs) =
     (if x = nl then chomp_cr (rev acc) # lines_aux [] xs else lines_aux (x # acc) xs)"

definition lines :: "string \<Rightarrow> string list" where
  "lines s = lines_aux [] s"

definition to_ascii_lower_char :: "char \<Rightarrow> char" where
  "to_ascii_lower_char c =
     (let n = (of_char c :: nat) in if 65 \<le> n \<and> n \<le> 90 then char_of (n + 32) else c)"

definition to_ascii_lowercase :: "string \<Rightarrow> string" where
  "to_ascii_lowercase s = map to_ascii_lower_char s"

definition eq_ignore_ascii_case :: "string \<Rightarrow> string \<Rightarrow> bool" where
  "eq_ignore_ascii_case a b = (to_ascii_lowercase a = to_ascii_lowercase b)"

definition is_ascii_digit :: "char \<Rightarrow> bool" where
  "is_ascii_digit c = (let n = (of_char c :: nat) in 48 \<le> n \<and> n \<le> 57)"

definition is_ascii_alphanumeric :: "char \<Rightarrow> bool" where
  "is_ascii_alphanumeric c =
     (let n = (of_char c :: nat) in
        (48 \<le> n \<and> n \<le> 57) \<or> (65 \<le> n \<and> n \<le> 90) \<or> (97 \<le> n \<and> n \<le> 122))"

text \<open>\<open>u8::is_ascii_whitespace\<close>: space, tab, line feed, form feed, carriage return.\<close>

definition is_ascii_whitespace :: "char \<Rightarrow> bool" where
  "is_ascii_whitespace c = ((of_char c :: nat) \<in> {9, 10, 12, 13, 32})"

text \<open>\<open>Display\<close> of an unsigned integer, and \<open>join\<close> of a slice of strings.\<close>

fun display_nat :: "nat \<Rightarrow> string" where
  "display_nat n = (if n < 10 then [char_of (48 + n)] else display_nat (n div 10) @ [char_of (48 + n mod 10)])"

declare display_nat.simps [simp del]

fun join :: "string \<Rightarrow> string list \<Rightarrow> string" where
  "join sep [] = []"
| "join sep [x] = x"
| "join sep (x # y # zs) = x @ sep @ join sep (y # zs)"

text \<open>\<open>str::replace\<close> with a non-empty pattern: the leftmost occurrences, without overlap.\<close>

function str_replace :: "string \<Rightarrow> string \<Rightarrow> string \<Rightarrow> string" where
  "str_replace pat rep s =
     (if s = [] \<or> pat = [] then s
      else if prefix pat s then rep @ str_replace pat rep (drop (length pat) s)
      else hd s # str_replace pat rep (tl s))"
  by pat_completeness auto
termination
  by (relation "measure (\<lambda>(pat, rep, s). length s)") auto

declare str_replace.simps [simp del]

text \<open>\<open>unwrap_or\<close> and \<open>unwrap_or_default\<close> on strings; \<open>Option::or\<close>; \<open>Option::filter\<close>.\<close>

definition unwrap_or :: "'a option \<Rightarrow> 'a \<Rightarrow> 'a" where
  "unwrap_or m d = (case m of None \<Rightarrow> d | Some x \<Rightarrow> x)"

definition opt_or :: "'a option \<Rightarrow> 'a option \<Rightarrow> 'a option" where
  "opt_or a b = (case a of None \<Rightarrow> b | Some x \<Rightarrow> Some x)"

definition opt_filter :: "('a \<Rightarrow> bool) \<Rightarrow> 'a option \<Rightarrow> 'a option" where
  "opt_filter P m = (case m of None \<Rightarrow> None | Some x \<Rightarrow> if P x then Some x else None)"

lemma unwrap_or_simps [simp]: "unwrap_or None d = d" "unwrap_or (Some x) d = x"
  by (simp_all add: unwrap_or_def)

lemma opt_or_simps [simp]: "opt_or None b = b" "opt_or (Some x) b = Some x"
  by (simp_all add: opt_or_def)

lemma opt_filter_Some [simp]: "opt_filter P m = Some x \<longleftrightarrow> m = Some x \<and> P x"
  by (auto simp: opt_filter_def split: option.splits)

lemma opt_filter_None [simp]: "opt_filter P None = None"
  by (simp add: opt_filter_def)

text \<open>\<open>str::from_utf8\<close>: well-formed UTF-8 as in the Unicode standard (no overlong forms, no
  surrogates, nothing above U+10FFFF).\<close>

definition byte_in :: "nat \<Rightarrow> nat \<Rightarrow> char \<Rightarrow> bool" where
  "byte_in lo hi c = (let n = (of_char c :: nat) in lo \<le> n \<and> n \<le> hi)"

fun valid_utf8 :: "string \<Rightarrow> bool" where
  "valid_utf8 [] = True"
| "valid_utf8 [a] = byte_in 0 0x7F a"
| "valid_utf8 [a, b] =
     (if byte_in 0 0x7F a then valid_utf8 [b]
      else byte_in 0xC2 0xDF a \<and> byte_in 0x80 0xBF b)"
| "valid_utf8 [a, b, c] =
     (if byte_in 0 0x7F a then valid_utf8 [b, c]
      else if byte_in 0xC2 0xDF a then byte_in 0x80 0xBF b \<and> valid_utf8 [c]
      else byte_in 0xE0 0xEF a \<and> byte_in (if a = CHR 0xE0 then 0xA0 else 0x80) (if a = CHR 0xED then 0x9F else 0xBF) b
             \<and> byte_in 0x80 0xBF c)"
| "valid_utf8 (a # b # c # d # s) =
     (if byte_in 0 0x7F a then valid_utf8 (b # c # d # s)
      else if byte_in 0xC2 0xDF a then byte_in 0x80 0xBF b \<and> valid_utf8 (c # d # s)
      else if byte_in 0xE0 0xEF a
           then byte_in (if a = CHR 0xE0 then 0xA0 else 0x80) (if a = CHR 0xED then 0x9F else 0xBF) b
             \<and> byte_in 0x80 0xBF c \<and> valid_utf8 (d # s)
      else byte_in 0xF0 0xF4 a \<and> byte_in (if a = CHR 0xF0 then 0x90 else 0x80) (if a = CHR 0xF4 then 0x8F else 0xBF) b
             \<and> byte_in 0x80 0xBF c \<and> byte_in 0x80 0xBF d \<and> valid_utf8 s)"

text \<open>\<open>str::parse::<usize>\<close>: an optional plus sign, at least one digit, no overflow.\<close>

definition digits_val :: "string \<Rightarrow> nat" where
  "digits_val s = foldl (\<lambda>n c. n * 10 + (of_char c - 48)) 0 s"

definition parse_usize :: "string \<Rightarrow> nat option" where
  "parse_usize s =
     (let ds = (if s \<noteq> [] \<and> hd s = CHR ''+'' then tl s else s)
      in if ds \<noteq> [] \<and> list_all is_ascii_digit ds \<and> digits_val ds < 2 ^ 64 then Some (digits_val ds) else None)"

text \<open>\<^verbatim>\<open>Path::is_absolute\<close> and \<^verbatim>\<open>Path::join\<close>: an absolute path replaces the base.\<close>

definition is_absolute :: "string \<Rightarrow> bool" where
  "is_absolute p = prefix ''/'' p"

definition path_join :: "string \<Rightarrow> string \<Rightarrow> string" where
  "path_join base p =
     (if is_absolute p then p
      else if base = [] \<or> suffix ''/'' base then base @ p
      else base @ ''/'' @ p)"

text \<open>The format \<^verbatim>\<open>{byte:02x}\<close>.\<close>

definition hex_digit :: "nat \<Rightarrow> char" where
  "hex_digit n = (if n < 10 then char_of (48 + n) else char_of (87 + n))"

definition hex_byte :: "char \<Rightarrow> string" where
  "hex_byte b = (let n = (of_char b :: nat) in [hex_digit (n div 16), hex_digit (n mod 16)])"

text \<open>Signed 64-bit arithmetic as integers with the wrap-around of a release build written out.\<close>

definition wrap_i64 :: "int \<Rightarrow> int" where
  "wrap_i64 x = (x + 2 ^ 63) mod 2 ^ 64 - 2 ^ 63"

lemma wrap_i64_id: "- (2 ^ 63) \<le> x \<Longrightarrow> x < 2 ^ 63 \<Longrightarrow> wrap_i64 x = x"
  by (simp add: wrap_i64_def)

lemma wrap_i64_range: "- (2 ^ 63) \<le> wrap_i64 x \<and> wrap_i64 x < 2 ^ 63"
proof -
  have "0 \<le> (x + 2 ^ 63) mod 2 ^ 64" and "(x + 2 ^ 63) mod 2 ^ 64 < (2 ^ 64 :: int)"
    by simp_all
  then show ?thesis unfolding wrap_i64_def by simp
qed

subsection \<open>Lemmas on strings\<close>

lemma valid_utf8_Cons:
  "valid_utf8 (a # s) \<longleftrightarrow>
     (if byte_in 0 0x7F a then valid_utf8 s
      else case s of [] \<Rightarrow> False | b # s1 \<Rightarrow>
        if byte_in 0xC2 0xDF a then byte_in 0x80 0xBF b \<and> valid_utf8 s1
        else case s1 of [] \<Rightarrow> False | c # s2 \<Rightarrow>
          if byte_in 0xE0 0xEF a
          then byte_in (if a = CHR 0xE0 then 0xA0 else 0x80) (if a = CHR 0xED then 0x9F else 0xBF) b
             \<and> byte_in 0x80 0xBF c \<and> valid_utf8 s2
          else case s2 of [] \<Rightarrow> False | d # s3 \<Rightarrow>
            byte_in 0xF0 0xF4 a
              \<and> byte_in (if a = CHR 0xF0 then 0x90 else 0x80) (if a = CHR 0xF4 then 0x8F else 0xBF) b
              \<and> byte_in 0x80 0xBF c \<and> byte_in 0x80 0xBF d \<and> valid_utf8 s3)"
proof -
  consider "s = []" | b where "s = [b]" | b c where "s = [b, c]" | b c d s3 where "s = b # c # d # s3"
    by (metis list.exhaust)
  then show ?thesis
    by cases (cases "byte_in 0 0x7F a"; cases "byte_in 0xC2 0xDF a"; cases "byte_in 0xE0 0xEF a"; simp)+
qed



lemma valid_utf8_first:
  assumes "valid_utf8 (a # s)"
  obtains ch rest where "a # s = ch @ rest" "ch \<noteq> []" "valid_utf8 rest" "\<And>t. valid_utf8 t \<Longrightarrow> valid_utf8 (ch @ t)"
proof (cases "byte_in 0 0x7F a")
  case True
  with assms valid_utf8_Cons[of a] that[of "[a]" s] show thesis by (simp del: valid_utf8.simps)
next
  case a: False
  then obtain b s1 where s: "s = b # s1" using assms valid_utf8_Cons[of a] by (cases s) simp_all
  show thesis
  proof (cases "byte_in 0xC2 0xDF a")
    case True
    with a s assms valid_utf8_Cons[of a] that[of "[a, b]" s1] show thesis by (simp del: valid_utf8.simps)
  next
    case False
    note a = a False
    then obtain c s2 where s1: "s1 = c # s2" using assms valid_utf8_Cons[of a] s by (cases s1) simp_all
    show thesis
    proof (cases "byte_in 0xE0 0xEF a")
      case True
      with a s s1 assms valid_utf8_Cons[of a] that[of "[a, b, c]" s2] show thesis
        by (simp del: valid_utf8.simps)
    next
      case False
      note a = a False
      then obtain d s3 where s2: "s2 = d # s3" using assms valid_utf8_Cons[of a] s s1 by (cases s2) simp_all
      with a s s1 assms valid_utf8_Cons[of a] that[of "[a, b, c, d]" s3] show thesis
        by (simp del: valid_utf8.simps)
    qed
  qed
qed

lemma valid_utf8_append: "valid_utf8 a \<Longrightarrow> valid_utf8 b \<Longrightarrow> valid_utf8 (a @ b)"
proof (induction a rule: length_induct)
  case (1 a)
  show ?case
  proof (cases a)
    case (Cons x s)
    with 1(2) obtain ch rest where "a = ch @ rest" "ch \<noteq> []" "valid_utf8 rest"
        "\<And>t. valid_utf8 t \<Longrightarrow> valid_utf8 (ch @ t)"
      using valid_utf8_first[of x s] by metis
    with 1 show ?thesis by simp
  qed (use 1 in simp)
qed

lemma white_space_not_graph:
  "w \<in> set white_space \<Longrightarrow> w \<noteq> [] \<and> \<not> byte_in 0x21 0x7E (hd w) \<and> \<not> byte_in 0x21 0x7E (last w)"
  by (auto simp: white_space_def byte_in_def)

lemma white_space_bytes:
  "white_space = [[CHR 9], [CHR 10], [CHR 11], [CHR 12], [CHR 13], [CHR 32], [CHR 0xC2, CHR 0x85], [CHR 0xC2, CHR 0xA0],
     [CHR 0xE1, CHR 0x9A, CHR 0x80], [CHR 0xE2, CHR 0x80, CHR 0x80], [CHR 0xE2, CHR 0x80, CHR 0x81], [CHR 0xE2, CHR 0x80, CHR 0x82],
     [CHR 0xE2, CHR 0x80, CHR 0x83], [CHR 0xE2, CHR 0x80, CHR 0x84], [CHR 0xE2, CHR 0x80, CHR 0x85], [CHR 0xE2, CHR 0x80, CHR 0x86],
     [CHR 0xE2, CHR 0x80, CHR 0x87], [CHR 0xE2, CHR 0x80, CHR 0x88], [CHR 0xE2, CHR 0x80, CHR 0x89], [CHR 0xE2, CHR 0x80, CHR 0x8A],
     [CHR 0xE2, CHR 0x80, CHR 0xA8], [CHR 0xE2, CHR 0x80, CHR 0xA9], [CHR 0xE2, CHR 0x80, CHR 0xAF], [CHR 0xE2, CHR 0x81, CHR 0x9F],
     [CHR 0xE3, CHR 0x80, CHR 0x80]]"
  by (simp add: white_space_def char_of_eq_iff)

lemma space_white: "'' '' \<in> set white_space"
  by (simp add: white_space_bytes)

lemma trim_Nil [simp]: "trim [] = []"
proof -
  have "List.find (\<lambda>w. prefix w []) white_space = None" "List.find (\<lambda>w. suffix w []) white_space = None"
    using white_space_nonempty by (auto simp: find_None_iff)
  then show ?thesis by (simp add: trim_def trim_start.simps[of "[]"] trim_end.simps[of "[]"])
qed

text \<open>A text between two printable characters has nothing to trim.\<close>

lemma trim_graph:
  assumes "s \<noteq> []" and "byte_in 0x21 0x7E (hd s)" and "byte_in 0x21 0x7E (last s)"
  shows "trim s = s"
proof -
  have "\<not> prefix w s" "\<not> suffix w s" if "w \<in> set white_space" for w
    using white_space_not_graph[OF that] assms by (auto simp: prefix_def suffix_def)
  then have "List.find (\<lambda>w. prefix w s) white_space = None" "List.find (\<lambda>w. suffix w s) white_space = None"
    by (auto simp: find_None_iff)
  then show ?thesis by (simp add: trim_def trim_start.simps[of s] trim_end.simps[of s])
qed

lemma rsplit_once_None [simp]: "rsplit_once c s = None \<longleftrightarrow> c \<notin> set s"
  by (simp add: rsplit_once_def)

lemma rsplit_once_append: "c \<notin> set r \<Longrightarrow> rsplit_once c (xs @ c # r) = Some (xs, r)"
proof -
  assume r: "c \<notin> set r"
  have "takeWhile (\<lambda>x. x \<noteq> c) (rev r @ c # rev xs) = rev r"
    using r by (subst takeWhile_append2) auto
  moreover have "dropWhile (\<lambda>x. x \<noteq> c) (rev r @ c # rev xs) = c # rev xs"
    using r by (subst dropWhile_append2) auto
  ultimately show ?thesis by (simp add: rsplit_once_def)
qed

lemma strip_prefix_Some [simp]: "strip_prefix p s = Some r \<longleftrightarrow> s = p @ r"
  by (auto simp: strip_prefix_def elim: prefixE)

lemma strip_prefix_None [simp]: "strip_prefix p s = None \<longleftrightarrow> \<not> prefix p s"
  by (simp add: strip_prefix_def)

lemma strip_suffix_Some [simp]: "strip_suffix p s = Some r \<longleftrightarrow> s = r @ p"
  by (auto simp: strip_suffix_def suffix_def)

lemma split_on_notin: "c \<notin> set s \<Longrightarrow> split_on c s = [s]"
  by (induction s) auto

lemma split_on_pieces: "p \<in> set (split_on c s) \<Longrightarrow> c \<notin> set p"
proof (induction s arbitrary: p)
  case (Cons x xs)
  show ?case
  proof (cases "x = c")
    case True
    with Cons show ?thesis by auto
  next
    case False
    have "c \<notin> set (hd (split_on c xs))"
      by (rule Cons.IH) simp
    with False Cons show ?thesis
      by (auto dest: list.set_sel(2)[rotated])
  qed
qed simp

lemma split_on_append:
  "split_on c (xs @ c # ys) = split_on c xs @ split_on c ys"
  by (induction xs) (auto simp: hd_append)

lemma last_split_on_append: "c \<notin> set ys \<Longrightarrow> last (split_on c (xs @ c # ys)) = ys"
  by (simp add: split_on_append split_on_notin)

lemma rsplit_once_Some:
  "rsplit_once c s = Some (a, b) \<longleftrightarrow> s = a @ c # b \<and> c \<notin> set b"
proof
  assume r: "rsplit_once c s = Some (a, b)"
  then have c: "c \<in> set s" and a: "a = rev (tl (dropWhile (\<lambda>x. x \<noteq> c) (rev s)))"
    and b: "b = rev (takeWhile (\<lambda>x. x \<noteq> c) (rev s))"
    by (auto simp: rsplit_once_def split: if_splits)
  obtain u v where uv: "s = u @ c # v" and v: "c \<notin> set v"
    using split_list_last[OF c] by blast
  then have "rev s = rev v @ c # rev u" by simp
  with v have "takeWhile (\<lambda>x. x \<noteq> c) (rev s) = rev v"
    and "dropWhile (\<lambda>x. x \<noteq> c) (rev s) = c # rev u"
    by (auto simp: takeWhile_append dropWhile_append)
  with a b uv v show "s = a @ c # b \<and> c \<notin> set b" by simp
next
  assume "s = a @ c # b \<and> c \<notin> set b"
  then show "rsplit_once c s = Some (a, b)"
    by (auto simp: rsplit_once_def takeWhile_append dropWhile_append)
qed

lemma lines_aux_append_nl:
  "lines_aux acc (xs @ nl # ys) = lines_aux acc (xs @ [nl]) @ lines_aux [] ys"
  by (induction xs arbitrary: acc) simp_all

lemma lines_append_nl: "lines (xs @ nl # ys) = lines (xs @ [nl]) @ lines ys"
  unfolding lines_def by (rule lines_aux_append_nl)

lemma lines_Nil [simp]: "lines [] = []"
  by (simp add: lines_def)

text \<open>A text of complete lines, and the lines it may hold.\<close>

definition text_of :: "string list \<Rightarrow> string" where
  "text_of ls = concat (map (\<lambda>l. l @ [nl]) ls)"

definition plain_line :: "string \<Rightarrow> bool" where
  "plain_line l = (nl \<notin> set l \<and> cr \<notin> set l \<and> valid_utf8 l)"

lemma text_of_simps [simp]:
  "text_of [] = []" "text_of (l # ls) = l @ nl # text_of ls" "text_of (ls @ ms) = text_of ls @ text_of ms"
  "text_of ls = [] \<longleftrightarrow> ls = []"
  by (auto simp: text_of_def)

lemma last_text_of: "ls \<noteq> [] \<Longrightarrow> last (text_of ls) = nl"
  by (induction ls) auto

lemma lines_one: "nl \<notin> set l \<Longrightarrow> cr \<notin> set l \<Longrightarrow> lines (l @ [nl]) = [l]"
proof -
  have "nl \<notin> set l \<Longrightarrow> lines_aux acc (l @ [nl]) = [chomp_cr (rev acc @ l)]" for acc
    by (induction l arbitrary: acc) auto
  moreover assume "nl \<notin> set l" and cr: "cr \<notin> set l"
  moreover have "chomp_cr l = l" unfolding chomp_cr_def using cr last_in_set by metis
  ultimately show ?thesis by (simp add: lines_def)
qed

lemma lines_text_of: "list_all plain_line ls \<Longrightarrow> lines (text_of ls) = ls"
proof (induction ls)
  case (Cons l ls)
  then show ?case using lines_append_nl[of l "text_of ls"] lines_one[of l] by (simp add: plain_line_def)
qed simp

lemma join_text_of: "ls \<noteq> [] \<Longrightarrow> join [nl] ls @ [nl] = text_of ls"
  by (induction "[nl]" ls rule: join.induct) auto

lemma valid_utf8_text_of: "list_all plain_line ls \<Longrightarrow> valid_utf8 (text_of ls)"
proof (induction ls)
  case (Cons l ls)
  have "valid_utf8 [nl]" by (simp add: nl_def byte_in_def)
  with Cons have "valid_utf8 (l @ [nl] @ text_of ls)" by (intro valid_utf8_append) (auto simp: plain_line_def)
  then show ?case by simp
qed simp

lemma length_trim_start: "length (trim_start s) \<le> length s"
proof (induction s rule: trim_start.induct)
  case (1 s)
  show ?case
  proof (cases "List.find (\<lambda>w. prefix w s) white_space")
    case None
    then show ?thesis by (simp add: trim_start.simps)
  next
    case (Some w)
    with 1 have "length (trim_start (drop (length w) s)) \<le> length (drop (length w) s)"
      by simp
    with Some show ?thesis
      by (simp add: trim_start.simps[of s])
  qed
qed

section \<open>Association lists as hash maps\<close>

lemmas [map_simps] = update_conv delete_conv

lemma map_of_filter_dom:
  "distinct (map fst al) \<Longrightarrow>
     map_of (filter (\<lambda>(k, v). P k v) al) k =
       (case map_of al k of None \<Rightarrow> None | Some v \<Rightarrow> if P k v then Some v else None)"
proof (induction al)
  case (Cons kv al)
  obtain a b where kv: "kv = (a, b)" by (cases kv)
  have "map_of al a = None" if "a = k"
    using Cons.prems kv by (simp add: map_of_eq_None_iff)
  with Cons kv show ?case by (auto split: option.splits)
qed simp

lemma distinct_filter_keys:
  "distinct (map fst al) \<Longrightarrow> distinct (map fst (filter P al))"
  by (induction al) (auto simp: image_iff)

lemma set_update_keys [simp]: "fst ` set (AList.update k v al) = insert k (fst ` set al)"
  using dom_update[of k v al] by (simp add: dom_map_of_conv_image_fst update_conv)

text \<open>\<open>get_mut\<close> followed by an assignment: change the value of a key that is present.\<close>

definition alist_modify :: "'k \<Rightarrow> ('v \<Rightarrow> 'v) \<Rightarrow> ('k, 'v) hashmap \<Rightarrow> ('k, 'v) hashmap" where
  "alist_modify k f m = (case map_of m k of None \<Rightarrow> m | Some v \<Rightarrow> AList.update k (f v) m)"

lemma map_of_alist_modify [map_simps]:
  "map_of (alist_modify k f m) = (map_of m)(k := map_option f (map_of m k))"
  by (auto simp: alist_modify_def update_conv fun_eq_iff split: option.splits)

lemma distinct_alist_modify [simp]:
  "distinct (map fst m) \<Longrightarrow> distinct (map fst (alist_modify k f m))"
  by (auto simp: alist_modify_def distinct_update split: option.splits)

section \<open>Labelled machines and their invariants\<close>

text \<open>Runs of a labelled step relation, as label sequences.\<close>

inductive run :: "('s \<Rightarrow> 'l \<Rightarrow> 's \<Rightarrow> bool) \<Rightarrow> 's \<Rightarrow> 'l list \<Rightarrow> 's \<Rightarrow> bool" for step where
  run_nil: "run step s [] s"
| run_cons: "step s l s' \<Longrightarrow> run step s' ls s'' \<Longrightarrow> run step s (l # ls) s''"

inductive_simps run_Nil_iff [simp]: "run step s [] t"
inductive_simps run_Cons_iff: "run step s (l # ls) t"

lemma run_append: "run step s (ls @ ms) u \<longleftrightarrow> (\<exists>t. run step s ls t \<and> run step t ms u)"
  by (induction ls arbitrary: s) (auto simp: run_Cons_iff)

text \<open>A step relation with its history: a state paired with the labels so far.\<close>

inductive hist :: "('s \<Rightarrow> 'l \<Rightarrow> 's \<Rightarrow> bool) \<Rightarrow> 's \<times> 'l list \<Rightarrow> 'l \<Rightarrow> 's \<times> 'l list \<Rightarrow> bool" for step where
  hist_step: "step s l s' \<Longrightarrow> hist step (s, ls) l (s', ls @ [l])"

lemma run_hist: "run step s ls t \<Longrightarrow> run (hist step) (s, hs) ls (t, hs @ ls)"
proof (induction arbitrary: hs rule: run.induct)
  case (run_cons s l s' ls t)
  from run_cons.IH[of "hs @ [l]"] run_cons.hyps(1) show ?case
    by (auto intro: run.run_cons hist_step)
qed (simp add: run_nil)

locale machine =
  fixes init :: "'s \<Rightarrow> bool"
    and step :: "'s \<Rightarrow> 'l \<Rightarrow> 's \<Rightarrow> bool"
    and inv :: "'s \<Rightarrow> bool"
  assumes inv_init: "init s \<Longrightarrow> inv s"
    and inv_step: "inv s \<Longrightarrow> step s l s' \<Longrightarrow> inv s'"
begin

lemma inv_run: "run step s ls t \<Longrightarrow> inv s \<Longrightarrow> inv t"
  by (induction rule: run.induct) (auto dest: inv_step)

lemma inv_reach: "init s \<Longrightarrow> run step s ls t \<Longrightarrow> inv t"
  using inv_run inv_init by blast

end

end
