(* ===== verification/Json.thy ===== *)
theory Json
  imports Complex_Main Prelude
begin

text \<open>
  JSON values as the sources handle them (\<^verbatim>\<open>serde_json::Value\<close>): the data type, the
  documented accessors which the components call, and the two ways they build objects
  (\<^verbatim>\<open>json!\<close> and assignment through an index). Parsing and printing belong to the crate and
  are parameters of the components that use them.
\<close>

datatype json =
    JNull
  | JBool bool
  | JInt int
  | JFloat rat
  | JStr string
  | JArr "json list"
  | JObj "(string \<times> json) list"

text \<open>\<open>Value::get\<close> with a string key: defined on objects only.\<close>

fun get :: "string \<Rightarrow> json \<Rightarrow> json option" where
  "get k (JObj kvs) = map_of kvs k"
| "get k _ = None"

fun as_str :: "json \<Rightarrow> string option" where
  "as_str (JStr s) = Some s"
| "as_str _ = None"

fun as_bool :: "json \<Rightarrow> bool option" where
  "as_bool (JBool b) = Some b"
| "as_bool _ = None"

fun as_array :: "json \<Rightarrow> json list option" where
  "as_array (JArr vs) = Some vs"
| "as_array _ = None"

fun as_object :: "json \<Rightarrow> (string \<times> json) list option" where
  "as_object (JObj kvs) = Some kvs"
| "as_object _ = None"

fun as_u64 :: "json \<Rightarrow> nat option" where
  "as_u64 (JInt i) = (if 0 \<le> i \<and> i < 2 ^ 64 then Some (nat i) else None)"
| "as_u64 _ = None"

fun as_i64 :: "json \<Rightarrow> int option" where
  "as_i64 (JInt i) = (if - (2 ^ 63) \<le> i \<and> i < 2 ^ 63 then Some i else None)"
| "as_i64 _ = None"

fun is_array :: "json \<Rightarrow> bool" where
  "is_array (JArr _) = True"
| "is_array _ = False"

fun is_null :: "json \<Rightarrow> bool" where
  "is_null JNull = True"
| "is_null _ = False"

text \<open>\<open>v[k]\<close> as an expression: \<open>Null\<close> where \<open>get\<close> has nothing.\<close>

definition idx :: "json \<Rightarrow> string \<Rightarrow> json" where
  "idx v k = unwrap_or (get k v) JNull"

text \<open>The common shape \<open>v.get(k).and_then(Value::as_str)\<close> and its siblings.\<close>

definition get_str :: "string \<Rightarrow> json \<Rightarrow> string option" where
  "get_str k v = Option.bind (get k v) as_str"

definition get_bool :: "string \<Rightarrow> json \<Rightarrow> bool option" where
  "get_bool k v = Option.bind (get k v) as_bool"

definition get_u64 :: "string \<Rightarrow> json \<Rightarrow> nat option" where
  "get_u64 k v = Option.bind (get k v) as_u64"

text \<open>\<open>v[k] = x\<close> on an object (every use in the sources is on one built by \<^verbatim>\<open>json!\<close>).\<close>

fun set_key :: "string \<Rightarrow> json \<Rightarrow> json \<Rightarrow> json" where
  "set_key k x (JObj kvs) = JObj (AList.update k x kvs)"
| "set_key k x v = v"

definition set_opt :: "string \<Rightarrow> ('a \<Rightarrow> json) \<Rightarrow> 'a option \<Rightarrow> json \<Rightarrow> json" where
  "set_opt k f m v = (case m of None \<Rightarrow> v | Some x \<Rightarrow> set_key k (f x) v)"

fun is_obj :: "json \<Rightarrow> bool" where
  "is_obj (JObj _) = True"
| "is_obj _ = False"

lemma get_set_key [simp]:
  "is_obj v \<Longrightarrow> get k' (set_key k x v) = (if k' = k then Some x else get k' v)"
  by (cases v) (auto simp: update_conv')

lemma is_obj_set_key [simp]: "is_obj (set_key k x v) = is_obj v"
  by (cases v) auto

lemma is_obj_set_opt [simp]: "is_obj (set_opt k f m v) = is_obj v"
  by (simp add: set_opt_def split: option.split)

lemma get_set_opt [simp]:
  "is_obj v \<Longrightarrow>
     get k' (set_opt k f m v) =
       (if k' = k \<and> m \<noteq> None then map_option f m else get k' v)"
  by (auto simp: set_opt_def split: option.split)

end
