(* ===== verification/Records.thy ===== *)
theory Records
  imports Json
begin

text \<open>
  The data that kyrisd keeps and ships: governance events (\<^verbatim>\<open>types/src/event.rs\<close>), gateway records
  (\<^verbatim>\<open>types/src/record.rs\<close>), rows and entries of the timeline (\<^verbatim>\<open>types/src/timeline.rs\<close>,
  \<^verbatim>\<open>daemon/src/timeline.rs\<close>), and the coverage derived from an event (\<^verbatim>\<open>core/src/coverage.rs\<close>).
\<close>

section \<open>Events and records\<close>

text \<open>\<open>Action\<close> and \<open>AttributionMethod\<close> come from \<^verbatim>\<open>agentpact-types\<close>; \<open>derive\<close> matches them
  exhaustively. The fields of \<open>Event\<close> which no function below reads travel only in the raw line.\<close>

datatype Action = Think | Execute | Call | Read | Write | UnknownAction

datatype AttributionMethod = Boundary | Lineage | Declared | UnknownMethod

datatype Decision = DAuto | DAsk | DDeny | DUnknown

fun decision_str :: "Decision \<Rightarrow> string" where
  "decision_str DAuto = ''auto''"
| "decision_str DAsk = ''ask''"
| "decision_str DDeny = ''deny''"
| "decision_str DUnknown = ''unknown''"

datatype CoverageState = Enforced | Observed | VendorReported | UnknownCoverage

fun coverage_str :: "CoverageState \<Rightarrow> string" where
  "coverage_str Enforced = ''enforced''"
| "coverage_str Observed = ''observed''"
| "coverage_str VendorReported = ''vendor_reported''"
| "coverage_str UnknownCoverage = ''unknown''"

record Segment =
  sg_command :: string
  sg_decision :: Decision
  sg_rule_kind :: "string option"
  sg_rule_id :: "string option"

record Event =
  ev_id :: string
  ev_timestamp :: string
  ev_agent :: string
  ev_action :: Action
  ev_detail :: string
  ev_decision :: Decision
  ev_rule_kind :: "string option"
  ev_rule_id :: "string option"
  ev_working_dir :: "string option"
  ev_trace_id :: "string option"
  ev_git_remote_origin :: "string option"
  ev_session :: "string option"
  ev_attribution_method :: AttributionMethod
  ev_coverage_state :: CoverageState
  ev_mode :: string
  ev_resource_class :: "string option"
  ev_grantable :: "bool option"
  ev_segments :: "Segment list"

datatype RecordStatus = Success | Error | CircuitBreaker | CacheHit | UnknownStatus

fun status_str :: "RecordStatus \<Rightarrow> string" where
  "status_str Success = ''success''"
| "status_str Error = ''error''"
| "status_str CircuitBreaker = ''circuit_breaker''"
| "status_str CacheHit = ''cache_hit''"
| "status_str UnknownStatus = ''unknown''"

definition status_from_str :: "string \<Rightarrow> RecordStatus" where
  "status_from_str s =
     (if s = ''success'' then Success
      else if s = ''error'' then Error
      else if s = ''circuit_breaker'' then CircuitBreaker
      else if s = ''cache_hit'' then CacheHit
      else UnknownStatus)"

datatype Metering = Unavailable_metering | Available_metering

fun metering_str :: "Metering \<Rightarrow> string" where
  "metering_str Available_metering = ''available''"
| "metering_str Unavailable_metering = ''unavailable''"

text \<open>\<open>PlanStatus\<close> (\<^verbatim>\<open>agentpact-types\<close>) is its wire string.\<close>

record GatewayRecord =
  gr_id :: string
  gr_trace_id :: string
  gr_timestamp :: string
  gr_provider :: string
  gr_model :: string
  gr_tokens_in :: "int option"
  gr_tokens_out :: "int option"
  gr_tokens_cache_create :: "int option"
  gr_tokens_cache_read :: "int option"
  gr_cost_usd :: "rat option"
  gr_latency_ms :: int
  gr_status :: RecordStatus
  gr_session_id :: "string option"
  gr_synced :: bool
  gr_mcp_server :: "string option"
  gr_mcp_tool :: "string option"
  gr_metering :: Metering
  gr_plan_status :: string
  gr_working_dir :: "string option"
  gr_agent :: "string option"

record TimelineEventRow =
  tr_id :: string
  tr_timestamp :: string
  tr_agent :: "string option"
  tr_action :: string
  tr_detail :: "string option"
  tr_decision :: "string option"
  tr_coverage_state :: string
  tr_working_dir :: "string option"
  tr_git_remote_origin :: "string option"
  tr_session :: "string option"
  tr_mode :: "string option"
  tr_rule_kind :: "string option"
  tr_rule_id :: "string option"
  tr_resource_class :: "string option"
  tr_grantable :: "bool option"
  tr_trace_id :: "string option"
  tr_segments :: "Segment list"

record TimelineEntry =
  te_id :: string
  te_timestamp :: string
  te_trace_id :: "string option"
  te_agent :: "string option"
  te_action :: string
  te_detail :: "string option"
  te_decision :: "string option"
  te_coverage_state :: string
  te_source :: string
  te_working_dir :: "string option"
  te_git_remote_origin :: "string option"
  te_session :: "string option"
  te_mode :: "string option"
  te_rule_kind :: "string option"
  te_rule_id :: "string option"
  te_resource_class :: "string option"
  te_grantable :: "bool option"
  te_sync_state :: "string option"
  te_hostname :: "string option"
  te_provider :: "string option"
  te_model :: "string option"
  te_tokens_in :: "int option"
  te_tokens_out :: "int option"
  te_tokens_cache_create :: "int option"
  te_tokens_cache_read :: "int option"
  te_cost_usd :: "rat option"
  te_latency_ms :: "int option"
  te_status :: "string option"
  te_metering :: "string option"
  te_plan_status :: "string option"
  te_mcp_server :: "string option"
  te_mcp_tool :: "string option"
  te_segments :: "Segment list"

section \<open>Coverage\<close>

definition derive :: "Action \<Rightarrow> AttributionMethod \<Rightarrow> string \<Rightarrow> CoverageState" where
  "derive action attribution_method mode =
     (case action of
        Think \<Rightarrow> Observed
      | UnknownAction \<Rightarrow> UnknownCoverage
      | _ \<Rightarrow>
          (case attribution_method of
             UnknownMethod \<Rightarrow> UnknownCoverage
           | _ \<Rightarrow> if mode = ''enforce'' then Enforced else Observed))"

definition derive_for_event :: "Event \<Rightarrow> Event" where
  "derive_for_event e =
     e\<lparr>ev_coverage_state := derive (ev_action e) (ev_attribution_method e) (ev_mode e)\<rparr>"

text \<open>The same derivation as an SQL expression over the columns of the log, where every value is a
  string.\<close>

definition sql_expr :: "string \<Rightarrow> string \<Rightarrow> string \<Rightarrow> string" where
  "sql_expr action attribution_method mode =
     (if action = ''think'' then ''observed''
      else if attribution_method \<in> {''boundary'', ''lineage'', ''declared''} \<and> mode = ''enforce'' then ''enforced''
      else if attribution_method \<in> {''boundary'', ''lineage'', ''declared''} then ''observed''
      else ''unknown'')"

end
