(* ===== verification/Streaming.thy ===== *)
theory Streaming
  imports Records
begin

text \<open>
  Metering of streamed model responses: the line splitter and the server-sent-event parser of
  \<^verbatim>\<open>daemon/src/streaming.rs\<close>, the token and tool-call extraction of the three providers
  (\<^verbatim>\<open>daemon/src/adapter/*/usage.rs\<close>, \<^verbatim>\<open>breaker.rs\<close>), and the chunk handlers of the four relays
  (\<^verbatim>\<open>daemon/src/adapter/*/stream.rs\<close>). \<open>parse\<close> stands for \<^verbatim>\<open>serde_json::from_str\<close>.

  The locale \<open>line_relay\<close> is the contract between a relay and its line splitter; its lemmas say that
  what a relay has counted depends on the text of the stream only, not on how the network cut it
  into chunks. It is interpreted for the four relays.
\<close>

section \<open>Counts\<close>

record TokenCounts =
  tk_input :: int
  tk_output :: int

definition no_tokens :: TokenCounts where
  "no_tokens = \<lparr>tk_input = 0, tk_output = 0\<rparr>"

record StreamTokenCounts =
  st_tokens :: TokenCounts
  st_cache_creation_input :: int
  st_cache_read_input :: int

definition no_stream_tokens :: StreamTokenCounts where
  "no_stream_tokens = \<lparr>st_tokens = no_tokens, st_cache_creation_input = 0, st_cache_read_input = 0\<rparr>"

definition add_tokens :: "TokenCounts \<Rightarrow> TokenCounts \<Rightarrow> TokenCounts" where
  "add_tokens acc t =
     \<lparr>tk_input = wrap_i64 (tk_input acc + tk_input t), tk_output = wrap_i64 (tk_output acc + tk_output t)\<rparr>"

definition accumulate :: "StreamTokenCounts \<Rightarrow> StreamTokenCounts \<Rightarrow> StreamTokenCounts" where
  "accumulate self other =
     \<lparr>st_tokens = add_tokens (st_tokens self) (st_tokens other),
      st_cache_creation_input = wrap_i64 (st_cache_creation_input self + st_cache_creation_input other),
      st_cache_read_input = wrap_i64 (st_cache_read_input self + st_cache_read_input other)\<rparr>"

section \<open>Lines\<close>

definition parse_sse_line :: "string \<Rightarrow> string option" where
  "parse_sse_line line =
     (case strip_prefix ''data: '' (trim_end_matches [cr, nl] line) of
        None \<Rightarrow> None
      | Some data \<Rightarrow> if data = ''[DONE]'' then None else if data = [] then None else Some data)"

definition split_sse_lines :: "string \<Rightarrow> string list \<times> string" where
  "split_sse_lines buf =
     (case rsplit_once nl buf of
        Some (before, remainder) \<Rightarrow> (lines (before @ [nl]), remainder)
      | None \<Rightarrow> ([], buf))"

definition split_ndjson_lines :: "string \<Rightarrow> string list \<times> string" where
  "split_ndjson_lines buf =
     (case rsplit_once nl buf of
        Some (before, remainder) \<Rightarrow> (filter (\<lambda>l. trim l \<noteq> []) (lines (before @ [nl])), remainder)
      | None \<Rightarrow> ([], buf))"

section \<open>Usage\<close>

definition i64_or_0 :: "json \<Rightarrow> string \<Rightarrow> int" where
  "i64_or_0 v k = unwrap_or (as_i64 (idx v k)) 0"

record BodyUsage =
  bu_tokens :: TokenCounts
  bu_cache_create :: int
  bu_cache_read :: int

definition non_null :: "json option \<Rightarrow> json option" where
  "non_null m = opt_filter (\<lambda>v. \<not> is_null v) m"

definition extract_usage_from_body :: "(string \<Rightarrow> json option) \<Rightarrow> string \<Rightarrow> BodyUsage option" where
  "extract_usage_from_body parse body =
     map_option
       (\<lambda>usage. \<lparr>bu_tokens = \<lparr>tk_input = i64_or_0 usage ''input_tokens'', tk_output = i64_or_0 usage ''output_tokens''\<rparr>,
                 bu_cache_create = i64_or_0 usage ''cache_creation_input_tokens'',
                 bu_cache_read = i64_or_0 usage ''cache_read_input_tokens''\<rparr>)
       (non_null (Option.bind (parse body) (get ''usage'')))"

definition extract_tokens_from_sse_json_anthropic ::
  "(string \<Rightarrow> json option) \<Rightarrow> string \<Rightarrow> StreamTokenCounts option" where
  "extract_tokens_from_sse_json_anthropic parse json =
     (case parse json of
        None \<Rightarrow> None
      | Some v \<Rightarrow>
          (case get_str ''type'' v of
             None \<Rightarrow> None
           | Some event_type \<Rightarrow>
               if event_type = ''message_start'' then
                 let usage = idx (idx v ''message'') ''usage''
                 in Some \<lparr>st_tokens = \<lparr>tk_input = i64_or_0 usage ''input_tokens'', tk_output = 0\<rparr>,
                          st_cache_creation_input = i64_or_0 usage ''cache_creation_input_tokens'',
                          st_cache_read_input = i64_or_0 usage ''cache_read_input_tokens''\<rparr>
               else if event_type = ''message_delta'' then
                 Some \<lparr>st_tokens = \<lparr>tk_input = 0, tk_output = i64_or_0 (idx v ''usage'') ''output_tokens''\<rparr>,
                       st_cache_creation_input = 0, st_cache_read_input = 0\<rparr>
               else None))"

definition chat_usage :: "json \<Rightarrow> TokenCounts" where
  "chat_usage usage =
     \<lparr>tk_input = i64_or_0 usage ''prompt_tokens'', tk_output = i64_or_0 usage ''completion_tokens''\<rparr>"

definition responses_usage :: "json \<Rightarrow> TokenCounts" where
  "responses_usage usage =
     \<lparr>tk_input = i64_or_0 usage ''input_tokens'', tk_output = i64_or_0 usage ''output_tokens''\<rparr>"

definition google_usage :: "json \<Rightarrow> TokenCounts" where
  "google_usage usage =
     \<lparr>tk_input = i64_or_0 usage ''promptTokenCount'', tk_output = i64_or_0 usage ''candidatesTokenCount''\<rparr>"

definition extract_tokens_from_body_openai :: "(string \<Rightarrow> json option) \<Rightarrow> string \<Rightarrow> TokenCounts option" where
  "extract_tokens_from_body_openai parse body =
     map_option chat_usage (non_null (Option.bind (parse body) (get ''usage'')))"

definition extract_tokens_from_sse_json_openai :: "(string \<Rightarrow> json option) \<Rightarrow> string \<Rightarrow> TokenCounts option" where
  "extract_tokens_from_sse_json_openai parse json =
     map_option chat_usage (non_null (Option.bind (parse json) (get ''usage'')))"

definition extract_responses_tokens_from_body :: "(string \<Rightarrow> json option) \<Rightarrow> string \<Rightarrow> TokenCounts option" where
  "extract_responses_tokens_from_body parse body =
     map_option responses_usage (non_null (Option.bind (parse body) (get ''usage'')))"

definition extract_responses_tokens_from_sse_json ::
  "(string \<Rightarrow> json option) \<Rightarrow> string \<Rightarrow> TokenCounts option" where
  "extract_responses_tokens_from_sse_json parse json =
     (case parse json of
        None \<Rightarrow> None
      | Some v \<Rightarrow>
          map_option responses_usage
            (non_null (opt_or (Option.bind (get ''response'' v) (get ''usage'')) (get ''usage'' v))))"

definition extract_tokens_from_body_google :: "(string \<Rightarrow> json option) \<Rightarrow> string \<Rightarrow> TokenCounts option" where
  "extract_tokens_from_body_google parse body =
     map_option google_usage (non_null (Option.bind (parse body) (get ''usageMetadata'')))"

definition extract_tokens_from_ndjson_line :: "(string \<Rightarrow> json option) \<Rightarrow> string \<Rightarrow> TokenCounts option" where
  "extract_tokens_from_ndjson_line parse json =
     map_option google_usage (non_null (Option.bind (parse json) (get ''usageMetadata'')))"

section \<open>Tool calls\<close>

definition any_of :: "(json \<Rightarrow> bool) \<Rightarrow> json option \<Rightarrow> bool" where
  "any_of P m = (case Option.bind m as_array of None \<Rightarrow> False | Some vs \<Rightarrow> list_ex P vs)"

definition anthropic_body_has_tool_call :: "(string \<Rightarrow> json option) \<Rightarrow> string \<Rightarrow> bool" where
  "anthropic_body_has_tool_call parse body =
     (case parse body of
        None \<Rightarrow> False
      | Some v \<Rightarrow>
          if get_str ''stop_reason'' v = Some ''tool_use'' then True
          else any_of (\<lambda>b. get_str ''type'' b = Some ''tool_use'') (get ''content'' v))"

definition anthropic_sse_has_tool_call :: "(string \<Rightarrow> json option) \<Rightarrow> string \<Rightarrow> bool" where
  "anthropic_sse_has_tool_call parse json =
     (case parse json of
        None \<Rightarrow> False
      | Some v \<Rightarrow>
          if Option.bind (get ''content_block'' v) (get_str ''type'') = Some ''tool_use'' then True
          else Option.bind (get ''delta'' v) (get_str ''stop_reason'') = Some ''tool_use'')"

definition chat_value_has_tool_call :: "json \<Rightarrow> bool" where
  "chat_value_has_tool_call v =
     any_of (\<lambda>choice.
        if get_str ''finish_reason'' choice \<in> {Some ''tool_calls'', Some ''function_call''} then True
        else case opt_or (get ''message'' choice) (get ''delta'' choice) of
               None \<Rightarrow> False
             | Some m \<Rightarrow>
                 (case Option.bind (get ''tool_calls'' m) as_array of None \<Rightarrow> False | Some a \<Rightarrow> a \<noteq> []) \<or>
                 (case get ''function_call'' m of None \<Rightarrow> False | Some f \<Rightarrow> \<not> is_null f))
       (get ''choices'' v)"

definition chat_body_has_tool_call :: "(string \<Rightarrow> json option) \<Rightarrow> string \<Rightarrow> bool" where
  "chat_body_has_tool_call parse body =
     (case parse body of None \<Rightarrow> False | Some v \<Rightarrow> chat_value_has_tool_call v)"

definition chat_sse_has_tool_call :: "(string \<Rightarrow> json option) \<Rightarrow> string \<Rightarrow> bool" where
  "chat_sse_has_tool_call parse json =
     (case parse json of None \<Rightarrow> False | Some v \<Rightarrow> chat_value_has_tool_call v)"

definition is_responses_call_type :: "string \<Rightarrow> bool" where
  "is_responses_call_type t \<longleftrightarrow> t = ''function_call'' \<or> suffix ''_call'' t"

definition responses_output_has_tool_call :: "json \<Rightarrow> bool" where
  "responses_output_has_tool_call out =
     any_of (\<lambda>item. case get_str ''type'' item of None \<Rightarrow> False | Some t \<Rightarrow> is_responses_call_type t) (Some out)"

definition responses_body_has_tool_call :: "(string \<Rightarrow> json option) \<Rightarrow> string \<Rightarrow> bool" where
  "responses_body_has_tool_call parse body =
     unwrap_or (map_option responses_output_has_tool_call (Option.bind (parse body) (get ''output''))) False"

definition responses_sse_has_tool_call :: "(string \<Rightarrow> json option) \<Rightarrow> string \<Rightarrow> bool" where
  "responses_sse_has_tool_call parse json =
     (case parse json of
        None \<Rightarrow> False
      | Some v \<Rightarrow>
          if (case Option.bind (get ''response'' v) (get ''output'') of
                None \<Rightarrow> False | Some out \<Rightarrow> responses_output_has_tool_call out) then True
          else if (case Option.bind (get ''item'' v) (get_str ''type'') of
                     None \<Rightarrow> False | Some t \<Rightarrow> is_responses_call_type t) then True
          else case get_str ''type'' v of None \<Rightarrow> False | Some t \<Rightarrow> sublist ''function_call'' t)"

definition google_value_has_tool_call :: "json \<Rightarrow> bool" where
  "google_value_has_tool_call v =
     any_of (\<lambda>c. any_of (\<lambda>p. case get ''functionCall'' p of None \<Rightarrow> False | Some f \<Rightarrow> \<not> is_null f)
                   (Option.bind (get ''content'' c) (get ''parts'')))
       (get ''candidates'' v)"

definition google_body_has_tool_call :: "(string \<Rightarrow> json option) \<Rightarrow> string \<Rightarrow> bool" where
  "google_body_has_tool_call parse body =
     (case parse body of None \<Rightarrow> False | Some v \<Rightarrow> google_value_has_tool_call v)"

definition google_json_has_tool_call :: "(string \<Rightarrow> json option) \<Rightarrow> string \<Rightarrow> bool" where
  "google_json_has_tool_call parse json =
     (case parse json of None \<Rightarrow> False | Some v \<Rightarrow> google_value_has_tool_call v)"

section \<open>Relays\<close>

text \<open>What a relay keeps between chunks: its counts, the text after the last line feed, and whether a
  tool call was seen. A chunk that is not UTF-8 on its own is passed on but not looked at.\<close>

record 'a stream_state =
  rs_acc :: 'a
  rs_line_buf :: string
  rs_had_tool_call :: bool

definition relay_chunk ::
  "(string \<Rightarrow> string list \<times> string) \<Rightarrow> (string \<Rightarrow> 'a \<times> bool \<Rightarrow> 'a \<times> bool) \<Rightarrow>
   string \<Rightarrow> 'a stream_state \<Rightarrow> 'a stream_state" where
  "relay_chunk split feed chunk s =
     (if valid_utf8 chunk then
        let (ls, remainder) = split (rs_line_buf s @ chunk);
            (acc, tool) = fold feed ls (rs_acc s, rs_had_tool_call s)
        in \<lparr>rs_acc = acc, rs_line_buf = remainder, rs_had_tool_call = tool\<rparr>
      else s)"

text \<open>The end of a stream: what is left in the buffer is taken line by line.\<close>

definition relay_drain :: "(string \<Rightarrow> 'a \<times> bool \<Rightarrow> 'a \<times> bool) \<Rightarrow> 'a stream_state \<Rightarrow> 'a stream_state" where
  "relay_drain feed s =
     (let (acc, tool) = (if rs_line_buf s \<noteq> [] then fold feed (lines (rs_line_buf s)) (rs_acc s, rs_had_tool_call s)
                         else (rs_acc s, rs_had_tool_call s))
      in \<lparr>rs_acc = acc, rs_line_buf = [], rs_had_tool_call = tool\<rparr>)"

definition relay_start :: "'a \<Rightarrow> 'a stream_state" where
  "relay_start zero = \<lparr>rs_acc = zero, rs_line_buf = [], rs_had_tool_call = False\<rparr>"

text \<open>One line, for each of the four relays.\<close>

definition anthropic_line ::
  "(string \<Rightarrow> json option) \<Rightarrow> string \<Rightarrow> StreamTokenCounts \<times> bool \<Rightarrow> StreamTokenCounts \<times> bool" where
  "anthropic_line parse line = (\<lambda>(acc, tool).
     case parse_sse_line line of
       None \<Rightarrow> (acc, tool)
     | Some json \<Rightarrow>
         (case extract_tokens_from_sse_json_anthropic parse json of None \<Rightarrow> acc | Some delta \<Rightarrow> accumulate acc delta,
          tool \<or> anthropic_sse_has_tool_call parse json))"

definition chat_line ::
  "(string \<Rightarrow> json option) \<Rightarrow> string \<Rightarrow> TokenCounts \<times> bool \<Rightarrow> TokenCounts \<times> bool" where
  "chat_line parse line = (\<lambda>(acc, tool).
     case parse_sse_line line of
       None \<Rightarrow> (acc, tool)
     | Some json \<Rightarrow>
         (case extract_tokens_from_sse_json_openai parse json of None \<Rightarrow> acc | Some t \<Rightarrow> add_tokens acc t,
          tool \<or> chat_sse_has_tool_call parse json))"

definition responses_line ::
  "(string \<Rightarrow> json option) \<Rightarrow> string \<Rightarrow> TokenCounts \<times> bool \<Rightarrow> TokenCounts \<times> bool" where
  "responses_line parse line = (\<lambda>(acc, tool).
     case parse_sse_line line of
       None \<Rightarrow> (acc, tool)
     | Some json \<Rightarrow>
         (case extract_responses_tokens_from_sse_json parse json of None \<Rightarrow> acc | Some t \<Rightarrow> add_tokens acc t,
          tool \<or> responses_sse_has_tool_call parse json))"

definition max_tokens_of :: "TokenCounts \<Rightarrow> TokenCounts \<Rightarrow> TokenCounts" where
  "max_tokens_of acc t =
     \<lparr>tk_input = (if tk_input t > tk_input acc then tk_input t else tk_input acc),
      tk_output = (if tk_output t > tk_output acc then tk_output t else tk_output acc)\<rparr>"

definition google_line ::
  "(string \<Rightarrow> json option) \<Rightarrow> string \<Rightarrow> TokenCounts \<times> bool \<Rightarrow> TokenCounts \<times> bool" where
  "google_line parse line = (\<lambda>(acc, tool).
     let json_str = unwrap_or (strip_prefix ''data: '' line) line
     in (case extract_tokens_from_ndjson_line parse json_str of None \<Rightarrow> acc | Some t \<Rightarrow> max_tokens_of acc t,
         tool \<or> google_json_has_tool_call parse json_str))"

definition anthropic_chunk where
  "anthropic_chunk parse = relay_chunk split_sse_lines (anthropic_line parse)"

definition chat_chunk where
  "chat_chunk parse = relay_chunk split_sse_lines (chat_line parse)"

definition responses_chunk where
  "responses_chunk parse = relay_chunk split_sse_lines (responses_line parse)"

definition google_chunk where
  "google_chunk parse = relay_chunk split_ndjson_lines (google_line parse)"

section \<open>Chunking does not matter\<close>

locale line_relay =
  fixes split :: "string \<Rightarrow> string list \<times> string"
    and keep :: "string \<Rightarrow> bool"
    and feed :: "string \<Rightarrow> 'a \<times> bool \<Rightarrow> 'a \<times> bool"
  assumes split_partial: "nl \<notin> set buf \<Longrightarrow> split buf = ([], buf)"
    and split_complete: "nl \<notin> set rest \<Longrightarrow> split (xs @ nl # rest) = (filter keep (lines (xs @ [nl])), rest)"
begin

text \<open>The specification: the lines of the whole text in order, the last one only if it is not ended.\<close>

definition counted :: "string \<Rightarrow> 'a \<times> bool \<Rightarrow> 'a \<times> bool" where
  "counted text = fold feed (fst (split text) @ lines (snd (split text)))"

lemma split_cases:
  obtains (partial) "nl \<notin> set buf" "split buf = ([], buf)"
  | (complete) xs rest where "buf = xs @ nl # rest" "nl \<notin> set rest"
      "split buf = (filter keep (lines (xs @ [nl])), rest)"
proof (cases "nl \<in> set buf")
  case True
  then obtain xs rest where "buf = xs @ nl # rest" "nl \<notin> set rest" by (meson split_list_last)
  with complete split_complete show thesis by blast
qed (use partial split_partial in blast)

lemma split_append:
  "split (a @ b) = (fst (split a) @ fst (split (snd (split a) @ b)), snd (split (snd (split a) @ b)))"
proof (cases rule: split_cases[of a])
  case (complete xs r)
  show ?thesis
  proof (cases rule: split_cases[of "r @ b"])
    case partial
    have "a @ b = xs @ nl # (r @ b)" using complete by simp
    with complete partial split_complete[of "r @ b" xs] show ?thesis by simp
  next
    case (complete ys q)
    have "a @ b = (xs @ nl # ys) @ nl # q" using \<open>a = _\<close> complete(1) by simp
    moreover have "lines ((xs @ nl # ys) @ [nl]) = lines (xs @ [nl]) @ lines (ys @ [nl])"
      using lines_append_nl[of xs "ys @ [nl]"] by simp
    ultimately show ?thesis
      using split_complete[of q "xs @ nl # ys"] complete \<open>split a = _\<close> by simp
  qed
qed simp

lemma snd_split_snd [simp]: "split (snd (split a)) = ([], snd (split a))"
  by (cases rule: split_cases[of a]) (simp_all add: split_partial)

lemma relay_chunk_append:
  assumes "valid_utf8 a" and "valid_utf8 b"
  shows "relay_chunk split feed b (relay_chunk split feed a s) = relay_chunk split feed (a @ b) s"
  using split_append[of "rs_line_buf s @ a" b] valid_utf8_append[OF assms] assms
  by (simp add: relay_chunk_def split_beta)

lemma relay_chunks:
  assumes "list_all valid_utf8 chunks" and "snd (split (rs_line_buf s)) = rs_line_buf s"
  shows "fold (relay_chunk split feed) chunks s = relay_chunk split feed (concat chunks) s"
  using assms
proof (induction chunks arbitrary: s)
  case Nil
  have "split (rs_line_buf s) = ([], rs_line_buf s)" using Nil(2) snd_split_snd by metis
  then show ?case by (simp add: relay_chunk_def)
next
  case (Cons c cs)
  have v: "valid_utf8 (concat cs)"
    using Cons.prems(1) by (induction cs) (auto intro: valid_utf8_append)
  have "snd (split (rs_line_buf (relay_chunk split feed c s))) = rs_line_buf (relay_chunk split feed c s)"
    using Cons.prems by (simp add: relay_chunk_def split_beta)
  with Cons v show ?case by (simp add: relay_chunk_append)
qed

lemma relay_counts:
  assumes "list_all valid_utf8 chunks"
  shows "relay_drain feed (fold (relay_chunk split feed) chunks (relay_start z))
           = (let (acc, tool) = counted (concat chunks) (z, False)
              in \<lparr>rs_acc = acc, rs_line_buf = [], rs_had_tool_call = tool\<rparr>)"
proof -
  have v: "valid_utf8 (concat chunks)"
    using assms by (induction chunks) (auto intro: valid_utf8_append)
  have "snd (split []) = []" by (simp add: split_partial)
  with assms have "fold (relay_chunk split feed) chunks (relay_start z)
      = relay_chunk split feed (concat chunks) (relay_start z)"
    by (intro relay_chunks) (simp_all add: relay_start_def)
  with v show ?thesis
    by (simp add: relay_chunk_def relay_start_def relay_drain_def counted_def split_beta)
qed

end

lemma split_sse_laws:
  "nl \<notin> set buf \<Longrightarrow> split_sse_lines buf = ([], buf)"
  "nl \<notin> set rest \<Longrightarrow> split_sse_lines (xs @ nl # rest) = (filter (\<lambda>l. True) (lines (xs @ [nl])), rest)"
  by (simp_all add: split_sse_lines_def rsplit_once_append option.case_eq_if)

lemma split_ndjson_laws:
  "nl \<notin> set buf \<Longrightarrow> split_ndjson_lines buf = ([], buf)"
  "nl \<notin> set rest \<Longrightarrow> split_ndjson_lines (xs @ nl # rest) = (filter (\<lambda>l. trim l \<noteq> []) (lines (xs @ [nl])), rest)"
  by (simp_all add: split_ndjson_lines_def rsplit_once_append option.case_eq_if)

interpretation anthropic_relay: line_relay split_sse_lines "\<lambda>l. True" "anthropic_line parse" for parse
  by unfold_locales (simp_all add: split_sse_laws)

interpretation chat_relay: line_relay split_sse_lines "\<lambda>l. True" "chat_line parse" for parse
  by unfold_locales (simp_all add: split_sse_laws)

interpretation responses_relay: line_relay split_sse_lines "\<lambda>l. True" "responses_line parse" for parse
  by unfold_locales (simp_all add: split_sse_laws)

interpretation google_relay: line_relay split_ndjson_lines "\<lambda>l. trim l \<noteq> []" "google_line parse" for parse
  by unfold_locales (simp_all add: split_ndjson_laws)

lemma split_sse_lines_all: "fst (split_sse_lines text) @ lines (snd (split_sse_lines text)) = lines text"
proof (cases "nl \<in> set text")
  case True
  then obtain xs rest where "text = xs @ nl # rest" "nl \<notin> set rest" by (meson split_list_last)
  then show ?thesis using lines_append_nl[of xs rest] by (simp add: split_sse_laws)
qed (simp add: split_sse_laws)

text \<open>What a stream has counted when it ends.\<close>

definition relay_tally :: "(string \<Rightarrow> 'a \<times> bool \<Rightarrow> 'a \<times> bool) \<Rightarrow> 'a stream_state \<Rightarrow> 'a \<times> bool" where
  "relay_tally feed s = (let s' = relay_drain feed s in (rs_acc s', rs_had_tool_call s'))"

lemma tally_counted:
  assumes "list_all valid_utf8 chunks"
  shows "relay_tally (anthropic_line parse) (fold (anthropic_chunk parse) chunks (relay_start sz))
           = fold (anthropic_line parse) (lines (concat chunks)) (sz, False)"
    and "relay_tally (chat_line parse) (fold (chat_chunk parse) chunks (relay_start z))
           = fold (chat_line parse) (lines (concat chunks)) (z, False)"
    and "relay_tally (responses_line parse) (fold (responses_chunk parse) chunks (relay_start z))
           = fold (responses_line parse) (lines (concat chunks)) (z, False)"
    and "relay_tally (google_line parse) (fold (google_chunk parse) chunks (relay_start z))
           = fold (google_line parse) (fst (split_ndjson_lines (concat chunks)) @
                lines (snd (split_ndjson_lines (concat chunks)))) (z, False)"
  using anthropic_relay.relay_counts[OF assms, of parse sz] chat_relay.relay_counts[OF assms, of parse z]
    responses_relay.relay_counts[OF assms, of parse z] google_relay.relay_counts[OF assms, of parse z]
  by (simp_all add: relay_tally_def anthropic_chunk_def chat_chunk_def responses_chunk_def google_chunk_def
      split_beta anthropic_relay.counted_def chat_relay.counted_def responses_relay.counted_def
      google_relay.counted_def split_sse_lines_all Let_def)

section \<open>Properties\<close>

text \<open>
  C26. Metering does not depend on the network: whenever every chunk is UTF-8 on its own, each of the
  four relays ends with exactly the counts and the tool-call flag that the lines of the whole text
  give, in order, however the text was cut into chunks (also in the middle of a line or between a
  carriage return and its line feed).
\<close>
theorem stream_counts_are_chunk_independent:
  assumes "list_all valid_utf8 chunks"
  shows "relay_tally (anthropic_line parse) (fold (anthropic_chunk parse) chunks (relay_start no_stream_tokens))
           = fold (anthropic_line parse) (lines (concat chunks)) (no_stream_tokens, False) \<and>
         relay_tally (chat_line parse) (fold (chat_chunk parse) chunks (relay_start no_tokens))
           = fold (chat_line parse) (lines (concat chunks)) (no_tokens, False) \<and>
         relay_tally (responses_line parse) (fold (responses_chunk parse) chunks (relay_start no_tokens))
           = fold (responses_line parse) (lines (concat chunks)) (no_tokens, False) \<and>
         relay_tally (google_line parse) (fold (google_chunk parse) chunks (relay_start no_tokens))
           = fold (google_line parse) (fst (split_ndjson_lines (concat chunks)) @
                lines (snd (split_ndjson_lines (concat chunks)))) (no_tokens, False)"
  using tally_counted[OF assms] by blast

definition demo_usage :: json where
  "demo_usage = JObj [(''usage'', JObj [(''prompt_tokens'', JInt 5), (''completion_tokens'', JInt 7)])]"

lemma demo_chat_lines:
  "fold (chat_line (\<lambda>t. Some demo_usage)) (lines (''data: {}'' @ [cr, nl])) (no_tokens, False)
     = (\<lparr>tk_input = 5, tk_output = 7\<rparr>, False)"
  by (simp add: lines_def chomp_cr_def chat_line_def parse_sse_line_def trim_end_matches_def nl_def cr_def
      strip_prefix_def demo_usage_def extract_tokens_from_sse_json_openai_def chat_usage_def non_null_def
      opt_filter_def i64_or_0_def idx_def chat_sse_has_tool_call_def chat_value_has_tool_call_def any_of_def
      add_tokens_def no_tokens_def wrap_i64_def)

theorem stream_counts_are_chunk_independent_witness:
  "relay_tally (chat_line (\<lambda>t. Some demo_usage))
     (fold (chat_chunk (\<lambda>t. Some demo_usage)) [''da'', ''ta: {}'' @ [cr], [nl]] (relay_start no_tokens))
     = (\<lparr>tk_input = 5, tk_output = 7\<rparr>, False)"
  using stream_counts_are_chunk_independent[of "[''da'', ''ta: {}'' @ [cr], [nl]]" "\<lambda>t. Some demo_usage"]
    demo_chat_lines
  by (simp add: byte_in_def cr_def nl_def)

text \<open>
  A chunk that ends inside a character is not looked at: the same text, cut inside a two-byte
  character, loses the usage on the line, and the bytes after the cut start a line of their own.
\<close>
theorem split_character_is_not_counted:
  "\<exists>chunks. valid_utf8 (concat chunks) \<and>
     relay_tally (chat_line (\<lambda>t. Some demo_usage))
       (fold (chat_chunk (\<lambda>t. Some demo_usage)) [concat chunks] (relay_start no_tokens))
       = (\<lparr>tk_input = 5, tk_output = 7\<rparr>, False) \<and>
     relay_tally (chat_line (\<lambda>t. Some demo_usage))
       (fold (chat_chunk (\<lambda>t. Some demo_usage)) chunks (relay_start no_tokens)) = (no_tokens, False)"
  apply (rule exI[of _ "[''data: '' @ [CHR 0xC3], [CHR 0xA9, nl]]"])
  by (simp add: relay_tally_def relay_drain_def chat_chunk_def relay_chunk_def relay_start_def split_sse_lines_def
      rsplit_once_def byte_in_def Let_def
      lines_def chomp_cr_def chat_line_def parse_sse_line_def trim_end_matches_def nl_def cr_def
      strip_prefix_def demo_usage_def extract_tokens_from_sse_json_openai_def chat_usage_def non_null_def
      opt_filter_def i64_or_0_def idx_def chat_sse_has_tool_call_def chat_value_has_tool_call_def any_of_def
      add_tokens_def no_tokens_def wrap_i64_def)

end
