(* ===== verification/Pricing.thy ===== *)
theory Pricing
  imports Json
begin

text \<open>
  Prices of model calls, \<^verbatim>\<open>types/src/pricing.rs\<close>, and the calculator of \<^verbatim>\<open>daemon/src/cost.rs\<close> that
  holds the current table. A table is the hash map of the source: an association list whose order
  is one iteration order. A finite \<open>f64\<close> is the rational it denotes; every arithmetic operation is
  the exact one followed by the rounding \<open>fl\<close>, of which the properties assume what IEEE 754 says of
  every rounding mode in use: it is monotone and keeps zero. Overflow to infinity is not modelled.
\<close>

section \<open>The table\<close>

record ModelPricing =
  mp_provider :: string
  mp_input_per_million :: rat
  mp_output_per_million :: rat
  mp_cache_create_per_million :: "rat option"
  mp_cache_read_per_million :: "rat option"

record PricingTable =
  pt_version :: string
  pt_models :: "(string, ModelPricing) hashmap"

definition canonical_model_id :: "string \<Rightarrow> string" where
  "canonical_model_id model =
     (let no_prefix = last (split_on CHR ''/'' model)
      in case rsplit_once CHR ''-'' no_prefix of
           Some (base, tail) \<Rightarrow> if length tail = 8 \<and> list_all is_ascii_digit tail then base else no_prefix
         | None \<Rightarrow> no_prefix)"

definition lookup_pricing :: "PricingTable \<Rightarrow> string \<Rightarrow> ModelPricing option" where
  "lookup_pricing t model =
     (case map_of (pt_models t) model of
        Some pricing \<Rightarrow> Some pricing
      | None \<Rightarrow>
          (let target = canonical_model_id model
           in map_option snd (List.find (\<lambda>(key, _). canonical_model_id key = target) (pt_models t))))"

definition charge :: "(rat \<Rightarrow> rat) \<Rightarrow> int \<Rightarrow> rat \<Rightarrow> rat" where
  "charge fl tokens rate = fl (fl (fl (of_int tokens) / 1000000) * rate)"

definition add_charge :: "(rat \<Rightarrow> rat) \<Rightarrow> int option \<Rightarrow> rat option \<Rightarrow> rat \<Rightarrow> rat" where
  "add_charge fl tokens rate amount =
     (case (tokens, rate) of (Some n, Some r) \<Rightarrow> fl (amount + charge fl n r) | _ \<Rightarrow> amount)"

definition cost ::
  "(rat \<Rightarrow> rat) \<Rightarrow> PricingTable \<Rightarrow> string \<Rightarrow> int \<Rightarrow> int \<Rightarrow> int option \<Rightarrow> int option \<Rightarrow> rat option" where
  "cost fl t model tokens_in tokens_out cache_create cache_read =
     (case lookup_pricing t model of
        None \<Rightarrow> None
      | Some pricing \<Rightarrow>
          (let amount = fl (charge fl tokens_in (mp_input_per_million pricing)
                           + charge fl tokens_out (mp_output_per_million pricing));
               amount = add_charge fl cache_create (mp_cache_create_per_million pricing) amount;
               amount = add_charge fl cache_read (mp_cache_read_per_million pricing) amount
           in Some amount))"

section \<open>Import of the LiteLLM catalogue\<close>

fun as_f64 :: "(rat \<Rightarrow> rat) \<Rightarrow> json \<Rightarrow> rat option" where
  "as_f64 fl (JInt i) = Some (fl (of_int i))"
| "as_f64 fl (JFloat x) = Some x"
| "as_f64 fl _ = None"

definition get_f64 :: "(rat \<Rightarrow> rat) \<Rightarrow> string \<Rightarrow> json \<Rightarrow> rat option" where
  "get_f64 fl k v = Option.bind (get k v) (as_f64 fl)"

definition per_million :: "(rat \<Rightarrow> rat) \<Rightarrow> rat \<Rightarrow> rat" where
  "per_million fl v = fl (v * 1000000)"

text \<open>One entry of the catalogue: \<open>None\<close> where the loop continues.\<close>

definition pricing_of :: "(rat \<Rightarrow> rat) \<Rightarrow> string \<Rightarrow> json \<Rightarrow> ModelPricing option" where
  "pricing_of fl key value =
     (if prefix ''sample_spec'' key \<or> \<not> is_obj value then None
      else case (get_f64 fl ''input_cost_per_token'' value, get_f64 fl ''output_cost_per_token'' value) of
             (Some inp, Some out) \<Rightarrow>
               Some \<lparr>mp_provider = unwrap_or (get_str ''litellm_provider'' value) ''unknown'',
                     mp_input_per_million = per_million fl inp,
                     mp_output_per_million = per_million fl out,
                     mp_cache_create_per_million =
                       map_option (per_million fl) (get_f64 fl ''cache_creation_input_token_cost'' value),
                     mp_cache_read_per_million =
                       map_option (per_million fl) (get_f64 fl ''cache_read_input_token_cost'' value)\<rparr>
           | _ \<Rightarrow> None)"

text \<open>\<open>key.split('/').nth(1)\<close>\<close>

definition unprefixed :: "string \<Rightarrow> string option" where
  "unprefixed key = (let ps = split_on CHR ''/'' key in if 1 < length ps then Some (ps ! 1) else None)"

definition add_model ::
  "(rat \<Rightarrow> rat) \<Rightarrow> string \<times> json \<Rightarrow> (string, ModelPricing) hashmap \<Rightarrow> (string, ModelPricing) hashmap" where
  "add_model fl = (\<lambda>(key, value) models.
     case pricing_of fl key value of
       None \<Rightarrow> models
     | Some pricing \<Rightarrow>
         (let models = AList.update key pricing models
          in case unprefixed key of
               Some short \<Rightarrow> if map_of models short = None then AList.update short pricing models else models
             | None \<Rightarrow> models))"

definition transform_litellm ::
  "(rat \<Rightarrow> rat) \<Rightarrow> (string \<Rightarrow> string + (string \<times> json) list) \<Rightarrow> string \<Rightarrow> string \<Rightarrow> string + PricingTable" where
  "transform_litellm fl parse now raw_json =
     (case parse raw_json of
        Inl e \<Rightarrow> Inl (''pricing JSON parse failed: '' @ e)
      | Inr raw \<Rightarrow>
          (let models = fold (add_model fl) raw []
           in if models = [] then Inl ''no models with pricing found in source''
              else Inr \<lparr>pt_version = now, pt_models = models\<rparr>))"

section \<open>The calculator\<close>

text \<open>The seed is the cached table if there is one, otherwise the bundled one; a fetched table replaces
  the current one as a whole.\<close>

record CostCalculator =
  cc_pricing :: PricingTable

definition from_table :: "PricingTable \<Rightarrow> CostCalculator" where
  "from_table t = \<lparr>cc_pricing = t\<rparr>"

definition CostCalculator_new :: "PricingTable option \<Rightarrow> PricingTable \<Rightarrow> CostCalculator" where
  "CostCalculator_new cached bundled = from_table (unwrap_or cached bundled)"

definition calculate ::
  "(rat \<Rightarrow> rat) \<Rightarrow> string \<Rightarrow> int \<Rightarrow> int \<Rightarrow> int option \<Rightarrow> int option \<Rightarrow> CostCalculator \<Rightarrow> rat option" where
  "calculate fl model tokens_in tokens_out cache_create cache_read c =
     cost fl (cc_pricing c) model tokens_in tokens_out cache_create cache_read"

definition update_pricing :: "PricingTable \<Rightarrow> CostCalculator \<Rightarrow> CostCalculator" where
  "update_pricing t c = c\<lparr>cc_pricing := t\<rparr>"

section \<open>Look-up\<close>

lemma lookup_pricing_Some:
  assumes "lookup_pricing t model = Some p"
  shows "\<exists>key. (key, p) \<in> set (pt_models t) \<and> canonical_model_id key = canonical_model_id model"
  using assms
  by (auto simp: lookup_pricing_def Let_def find_Some_iff split: option.splits dest: map_of_SomeD)
     (metis nth_mem)

lemma lookup_pricing_None:
  "lookup_pricing t model = None \<longleftrightarrow>
     (\<forall>key \<in> fst ` set (pt_models t). canonical_model_id key \<noteq> canonical_model_id model)"
proof
  assume n: "lookup_pricing t model = None"
  then have "List.find (\<lambda>(key, _). canonical_model_id key = canonical_model_id model) (pt_models t) = None"
    by (simp add: lookup_pricing_def Let_def split: option.splits)
  then show "\<forall>key \<in> fst ` set (pt_models t). canonical_model_id key \<noteq> canonical_model_id model"
    by (auto simp: find_None_iff)
next
  assume "\<forall>key \<in> fst ` set (pt_models t). canonical_model_id key \<noteq> canonical_model_id model"
  then show "lookup_pricing t model = None"
    using lookup_pricing_Some[of t model] by (cases "lookup_pricing t model") force+
qed

section \<open>The import keeps every catalogued price\<close>

lemma add_model_own:
  "pricing_of fl key value = Some p \<Longrightarrow> map_of (add_model fl (key, value) models) key = Some p"
  by (auto simp: add_model_def Let_def update_conv' split: option.splits)

lemma add_model_other:
  "key \<noteq> k \<Longrightarrow> map_of models k = Some p \<Longrightarrow> map_of (add_model fl (key, value) models) k = Some p"
  by (auto simp: add_model_def Let_def update_conv' split: option.splits)

lemma fold_add_model_keep:
  "k \<notin> fst ` set raw \<Longrightarrow> map_of models k = Some p \<Longrightarrow> map_of (fold (add_model fl) raw models) k = Some p"
  by (induction raw arbitrary: models) (auto simp: add_model_other)

lemma fold_add_model_own:
  assumes "distinct (map fst raw)" and "(key, value) \<in> set raw" and "pricing_of fl key value = Some p"
  shows "map_of (fold (add_model fl) raw models) key = Some p"
  using assms
proof (induction raw arbitrary: models)
  case (Cons kv raw)
  show ?case
  proof (cases "kv = (key, value)")
    case True
    have "map_of (fold (add_model fl) raw (add_model fl (key, value) models)) key = Some p"
      using Cons.prems True by (intro fold_add_model_keep add_model_own) auto
    with True show ?thesis by simp
  next
    case False
    with Cons show ?thesis by auto
  qed
qed simp

section \<open>Cost\<close>

lemma charge_mono:
  assumes "mono fl" and "fl 0 = 0" and "0 \<le> rate" and "n \<le> m"
  shows "charge fl n rate \<le> charge fl m rate"
proof -
  have "fl (of_int n) \<le> fl (of_int m)" using assms by (simp add: monoD)
  then have "fl (fl (of_int n) / 1000000) \<le> fl (fl (of_int m) / 1000000)"
    using assms(1) by (simp add: monoD divide_right_mono)
  then show ?thesis
    using assms by (simp add: charge_def monoD mult_right_mono)
qed

lemma charge_nonneg: "mono fl \<Longrightarrow> fl 0 = 0 \<Longrightarrow> 0 \<le> rate \<Longrightarrow> 0 \<le> n \<Longrightarrow> 0 \<le> charge fl n rate"
  using charge_mono[of fl rate 0 n] by (simp add: charge_def)

lemma add_charge_mono:
  assumes "mono fl" and "fl 0 = 0" and "\<forall>r. rate = Some r \<longrightarrow> 0 \<le> r" and "rel_option (\<le>) n m"
    and "x \<le> y"
  shows "add_charge fl n rate x \<le> add_charge fl m rate y"
  using assms charge_mono[OF assms(1,2)]
  by (auto simp: add_charge_def rel_option_iff intro!: monoD[of fl] add_mono split: option.splits)

section \<open>Properties\<close>

text \<open>
  The import keeps every catalogued price, whatever the order in which the hash map is walked: a
  catalogue entry that names both costs is priced at exactly its own rates under its own id. The
  short alias that a provider-prefixed entry adds never replaces or outlives the price of an entry
  catalogued under that short id.
\<close>
theorem import_keeps_catalogued_price:
  assumes "transform_litellm fl parse now raw_json = Inr t" and "parse raw_json = Inr raw"
    and "distinct (map fst raw)" and "(key, value) \<in> set raw" and "pricing_of fl key value = Some p"
  shows "lookup_pricing t key = Some p"
  using fold_add_model_own[OF assms(3-5), of "[]"] assms(1,2)
  by (auto simp: transform_litellm_def lookup_pricing_def Let_def split: if_splits)

text \<open>
  More tokens never cost less: for a table without negative rates and any monotone rounding that
  keeps zero, the cost of a call is monotone in each of its four counts.
\<close>
theorem cost_is_monotone:
  assumes "mono fl" and "fl 0 = 0"
    and "\<forall>p \<in> snd ` set (pt_models t). 0 \<le> mp_input_per_million p \<and> 0 \<le> mp_output_per_million p \<and>
           (\<forall>r. mp_cache_create_per_million p = Some r \<longrightarrow> 0 \<le> r) \<and>
           (\<forall>r. mp_cache_read_per_million p = Some r \<longrightarrow> 0 \<le> r)"
    and "i \<le> i'" and "out \<le> out'" and "rel_option (\<le>) mk mk'" and "rel_option (\<le>) rd rd'"
    and "cost fl t model i out mk rd = Some x" and "cost fl t model i' out' mk' rd' = Some y"
  shows "x \<le> y"
proof -
  obtain p where p: "lookup_pricing t model = Some p"
    using assms(8) by (auto simp: cost_def split: option.splits)
  then obtain key where "(key, p) \<in> set (pt_models t)" using lookup_pricing_Some by blast
  with assms(3) have r: "0 \<le> mp_input_per_million p" "0 \<le> mp_output_per_million p"
      "\<forall>r. mp_cache_create_per_million p = Some r \<longrightarrow> 0 \<le> r" "\<forall>r. mp_cache_read_per_million p = Some r \<longrightarrow> 0 \<le> r"
    by (force simp: image_iff)+
  have "fl (charge fl i (mp_input_per_million p) + charge fl out (mp_output_per_million p))
          \<le> fl (charge fl i' (mp_input_per_million p) + charge fl out' (mp_output_per_million p))"
    using charge_mono[OF assms(1,2)] r assms(4,5) by (intro monoD[OF assms(1)] add_mono) auto
  then have "add_charge fl rd (mp_cache_read_per_million p) (add_charge fl mk (mp_cache_create_per_million p)
       (fl (charge fl i (mp_input_per_million p) + charge fl out (mp_output_per_million p))))
     \<le> add_charge fl rd' (mp_cache_read_per_million p) (add_charge fl mk' (mp_cache_create_per_million p)
       (fl (charge fl i' (mp_input_per_million p) + charge fl out' (mp_output_per_million p))))"
    using assms(6,7) r by (intro add_charge_mono[OF assms(1,2)])
  with assms(8,9) p show ?thesis by (simp add: cost_def Let_def)
qed

definition demo_price :: "rat \<Rightarrow> json" where
  "demo_price x = JObj [(''input_cost_per_token'', JFloat x), (''output_cost_per_token'', JFloat (2 * x))]"

definition demo_pricing :: "rat \<Rightarrow> ModelPricing" where
  "demo_pricing x = \<lparr>mp_provider = ''unknown'', mp_input_per_million = x * 1000000,
     mp_output_per_million = 2 * x * 1000000, mp_cache_create_per_million = None,
     mp_cache_read_per_million = None\<rparr>"

lemma demo_pricing_of:
  "pricing_of (\<lambda>x. x) ''azure/m'' (demo_price x) = Some (demo_pricing x)"
  "pricing_of (\<lambda>x. x) ''xai/m'' (demo_price x) = Some (demo_pricing x)"
  "pricing_of (\<lambda>x. x) ''m'' (demo_price x) = Some (demo_pricing x)"
  by (simp_all add: pricing_of_def demo_price_def demo_pricing_def get_f64_def get_str_def per_million_def)

lemma demo_unprefixed:
  "unprefixed ''azure/m'' = Some ''m''" "unprefixed ''xai/m'' = Some ''m''" "unprefixed ''m'' = None"
  by (simp_all add: unprefixed_def Let_def)

theorem import_keeps_catalogued_price_witness:
  "lookup_pricing \<lparr>pt_version = ''now'',
      pt_models = fold (add_model (\<lambda>x. x)) [(''azure/m'', demo_price 2), (''m'', demo_price 3)] []\<rparr> ''m''
     = Some (demo_pricing 3)"
proof (rule import_keeps_catalogued_price)
  show "transform_litellm (\<lambda>x. x) (\<lambda>j. Inr [(''azure/m'', demo_price 2), (''m'', demo_price 3)]) ''now'' [] =
      Inr \<lparr>pt_version = ''now'',
           pt_models = fold (add_model (\<lambda>x. x)) [(''azure/m'', demo_price 2), (''m'', demo_price 3)] []\<rparr>"
    by (simp add: transform_litellm_def add_model_def demo_pricing_of demo_unprefixed Let_def)
  show "(''m'', demo_price 3) \<in> set [(''azure/m'', demo_price 2), (''m'', demo_price 3)]" by simp
qed (simp_all add: demo_pricing_of)

definition demo_table :: PricingTable where
  "demo_table = \<lparr>pt_version = ''v'', pt_models = [(''m'', demo_pricing 2)]\<rparr>"

theorem cost_is_monotone_witness:
  "the (cost (\<lambda>x. x) demo_table ''m'' 2 4 None None) \<le> the (cost (\<lambda>x. x) demo_table ''m'' 3 4 None None)"
proof (rule cost_is_monotone)
  show "mono (\<lambda>x :: rat. x)" by (simp add: mono_def)
  show "cost (\<lambda>x. x) demo_table ''m'' 2 4 None None = Some (the (cost (\<lambda>x. x) demo_table ''m'' 2 4 None None))"
    and "cost (\<lambda>x. x) demo_table ''m'' 3 4 None None = Some (the (cost (\<lambda>x. x) demo_table ''m'' 3 4 None None))"
    by (simp_all add: demo_table_def cost_def lookup_pricing_def)
qed (simp_all add: demo_table_def demo_pricing_def)

text \<open>
  The price of a bare id that is not catalogued itself is not determined: two provider-prefixed
  entries of the same model compete for the alias, and the one that the hash map yields first wins.
\<close>
theorem alias_price_depends_on_order:
  "\<exists>raw raw'. set raw = set raw' \<and> distinct (map fst raw) \<and>
     map_of (fold (add_model (\<lambda>x. x)) raw []) ''m'' = Some (demo_pricing 2) \<and>
     map_of (fold (add_model (\<lambda>x. x)) raw' []) ''m'' = Some (demo_pricing 3)"
  by (intro exI[of _ "[(''azure/m'', demo_price 2), (''xai/m'', demo_price 3)]"]
      exI[of _ "[(''xai/m'', demo_price 3), (''azure/m'', demo_price 2)]"])
    (auto simp: add_model_def demo_pricing_of demo_unprefixed Let_def)

end
