(* ===== verification/Breaker.thy ===== *)
theory Breaker
  imports Prelude
begin

text \<open>
  The runaway guard, \<^verbatim>\<open>daemon/src/circuit_breaker.rs\<close>: per session, the output tokens since the
  last response with a tool call. Token counts are signed 64-bit integers (\<open>wrap_i64\<close>); times are
  milliseconds. The locale \<open>session_meter\<close> is what the adapters rely on: one response changes one
  session's counter, a tool call zeroes it. Inside it the counter is shown to be the sum of the
  outputs after the last tool call.
\<close>

section \<open>State and operations\<close>

record SessionState =
  ss_idle_output_tokens :: int
  ss_max_tokens :: int
  ss_last_activity :: nat

type_synonym CircuitBreaker = "(string, SessionState) hashmap"

definition CircuitBreaker_new :: CircuitBreaker where
  "CircuitBreaker_new = []"

definition at_cap :: "SessionState \<Rightarrow> bool" where
  "at_cap s \<longleftrightarrow> ss_idle_output_tokens s \<ge> ss_max_tokens s"

definition record_response ::
  "nat \<Rightarrow> string \<Rightarrow> int \<Rightarrow> bool \<Rightarrow> int \<Rightarrow> CircuitBreaker \<Rightarrow> bool \<times> CircuitBreaker" where
  "record_response now session_id output_tokens had_tool_call max_tokens cb =
     (let entry = (case map_of cb session_id of
                     Some e \<Rightarrow> e
                   | None \<Rightarrow> \<lparr>ss_idle_output_tokens = 0, ss_max_tokens = max_tokens, ss_last_activity = now\<rparr>);
          entry = (if had_tool_call then entry\<lparr>ss_idle_output_tokens := 0\<rparr>
                   else entry\<lparr>ss_idle_output_tokens :=
                          wrap_i64 (ss_idle_output_tokens entry + output_tokens)\<rparr>);
          entry = entry\<lparr>ss_max_tokens := max_tokens, ss_last_activity := now\<rparr>
      in (at_cap entry, AList.update session_id entry cb))"

definition record_tokens :: "nat \<Rightarrow> string \<Rightarrow> int \<Rightarrow> int \<Rightarrow> CircuitBreaker \<Rightarrow> CircuitBreaker" where
  "record_tokens now session_id output_tokens max_tokens cb =
     snd (record_response now session_id output_tokens False max_tokens cb)"

definition is_tripped :: "string \<Rightarrow> CircuitBreaker \<Rightarrow> bool" where
  "is_tripped session_id cb = (case map_of cb session_id of None \<Rightarrow> False | Some s \<Rightarrow> at_cap s)"

definition reset :: "nat \<Rightarrow> string \<Rightarrow> CircuitBreaker \<Rightarrow> bool \<times> CircuitBreaker" where
  "reset now session_id cb =
     (case map_of cb session_id of
        Some state \<Rightarrow>
          (True, AList.update session_id
                   (state\<lparr>ss_idle_output_tokens := 0, ss_last_activity := now\<rparr>) cb)
      | None \<Rightarrow> (False, cb))"

definition reset_all_tripped :: "nat \<Rightarrow> CircuitBreaker \<Rightarrow> string list \<times> CircuitBreaker" where
  "reset_all_tripped now cb =
     (map fst (filter (\<lambda>(sid, s). at_cap s) cb),
      map (\<lambda>(sid, s). (sid, if at_cap s then s\<lparr>ss_idle_output_tokens := 0, ss_last_activity := now\<rparr> else s)) cb)"

definition prune_idle :: "nat \<Rightarrow> nat \<Rightarrow> CircuitBreaker \<Rightarrow> CircuitBreaker" where
  "prune_idle now idle_timeout cb = filter (\<lambda>(sid, s). now - ss_last_activity s < idle_timeout) cb"

definition get_token_count :: "string \<Rightarrow> CircuitBreaker \<Rightarrow> int" where
  "get_token_count session_id cb =
     (case map_of cb session_id of None \<Rightarrow> 0 | Some s \<Rightarrow> ss_idle_output_tokens s)"

definition rebuild_from :: "nat \<Rightarrow> (string \<times> int \<times> nat) list \<Rightarrow> int \<Rightarrow> CircuitBreaker \<Rightarrow> CircuitBreaker" where
  "rebuild_from now stored max_tokens cb =
     fold (\<lambda>(sid, idle, elapsed) m.
             AList.update sid
               \<lparr>ss_idle_output_tokens = idle, ss_max_tokens = max_tokens,
                ss_last_activity = (if elapsed \<le> now then now - elapsed else now)\<rparr> m) stored cb"

definition session_totals :: "CircuitBreaker \<Rightarrow> (string \<times> int) list" where
  "session_totals cb = map (\<lambda>(sid, s). (sid, ss_idle_output_tokens s)) cb"

section \<open>What the adapters rely on\<close>

locale session_meter =
  fixes step :: "'e \<Rightarrow> 'st \<Rightarrow> 'st"
    and count :: "string \<Rightarrow> 'st \<Rightarrow> int"
    and session :: "'e \<Rightarrow> string"
    and out_of :: "'e \<Rightarrow> int"
    and tool_call :: "'e \<Rightarrow> bool"
  assumes count_step:
    "count sid (step e st) =
       (if sid = session e then if tool_call e then 0 else wrap_i64 (count sid st + out_of e)
        else count sid st)"
begin

text \<open>The reference: the outputs after the last tool call, newest first.\<close>

definition burned :: "string \<Rightarrow> 'e list \<Rightarrow> int" where
  "burned sid es =
     sum_list (map out_of (takeWhile (\<lambda>e. \<not> tool_call e) (rev (filter (\<lambda>e. session e = sid) es))))"

lemma burned_snoc:
  "burned sid (es @ [e]) =
     (if session e = sid then if tool_call e then 0 else burned sid es + out_of e else burned sid es)"
  by (simp add: burned_def)

lemma burned_bounds:
  assumes "\<And>e. e \<in> set es \<Longrightarrow> 0 \<le> out_of e"
  shows "0 \<le> burned sid es \<and> burned sid es \<le> sum_list (map out_of es)"
  using assms
proof (induction es rule: rev_induct)
  case (snoc e es)
  have "0 \<le> sum_list (map out_of es)" and "0 \<le> out_of e"
    using snoc.prems by (auto intro!: sum_list_nonneg)
  moreover have "0 \<le> burned sid es \<and> burned sid es \<le> sum_list (map out_of es)"
    using snoc by simp
  ultimately show ?case by (auto simp: burned_snoc)
qed (simp add: burned_def)

lemma count_fold:
  assumes "\<And>e. e \<in> set es \<Longrightarrow> 0 \<le> out_of e" and "sum_list (map out_of es) < 2 ^ 63"
    and "count sid st = 0"
  shows "count sid (fold step es st) = burned sid es"
  using assms
proof (induction es rule: rev_induct)
  case (snoc e es)
  have e: "0 \<le> out_of e" and nn: "\<And>x. x \<in> set es \<Longrightarrow> 0 \<le> out_of x"
    using snoc.prems(1) by auto
  have "sum_list (map out_of es) < 2 ^ 63" using snoc.prems(2) e by simp
  then have IH: "count sid (fold step es st) = burned sid es"
    using snoc nn by simp
  have "0 \<le> burned sid es + out_of e" and "burned sid es + out_of e < 2 ^ 63"
    using burned_bounds[of es sid, OF nn] e snoc.prems(2) by auto
  then show ?case
    by (simp add: count_step IH burned_snoc wrap_i64_id)
qed (simp add: burned_def)

end

record response_event =
  rv_session :: string
  rv_output :: int
  rv_tool_call :: bool
  rv_max_tokens :: int
  rv_now :: nat

definition meter :: "response_event \<Rightarrow> CircuitBreaker \<Rightarrow> CircuitBreaker" where
  "meter e cb = snd (record_response (rv_now e) (rv_session e) (rv_output e) (rv_tool_call e) (rv_max_tokens e) cb)"

lemma get_token_count_record:
  "get_token_count sid (snd (record_response now s out tool mx cb)) =
     (if sid = s then if tool then 0 else wrap_i64 (get_token_count s cb + out)
      else get_token_count sid cb)"
  by (auto simp: get_token_count_def record_response_def Let_def update_conv' split: option.split)

interpretation cb: session_meter meter get_token_count rv_session rv_output rv_tool_call
  by unfold_locales (simp add: meter_def get_token_count_record)

lemma is_tripped_record:
  "is_tripped s (snd (record_response now s out tool mx cb)) =
     (get_token_count s (snd (record_response now s out tool mx cb)) \<ge> mx)"
  "fst (record_response now s out tool mx cb) = is_tripped s (snd (record_response now s out tool mx cb))"
  by (auto simp: is_tripped_def get_token_count_def record_response_def at_cap_def Let_def update_conv')

lemma map_of_map_val: "map_of (map (\<lambda>(k, v). (k, f v)) al) k = map_option f (map_of al k)"
  by (induction al) auto

lemma is_tripped_iff:
  "distinct (map fst cb) \<Longrightarrow> is_tripped sid cb \<longleftrightarrow> (\<exists>s. (sid, s) \<in> set cb \<and> at_cap s)"
  by (auto simp: is_tripped_def map_of_eq_Some_iff split: option.splits dest: map_of_SomeD)
    (metis map_of_eq_Some_iff option.distinct(1) option.inject)+

lemma rebuild_count:
  assumes "distinct (map fst stored)"
  shows "get_token_count sid (rebuild_from now stored mx cb) =
     (case map_of stored sid of None \<Rightarrow> get_token_count sid cb | Some (idle, el) \<Rightarrow> idle)"
  using assms
proof (induction stored arbitrary: cb)
  case (Cons t stored)
  obtain k i el where t: "t = (k, i, el)" by (cases t)
  with Cons show ?case
    by (auto simp: rebuild_from_def get_token_count_def update_conv' dest: map_of_SomeD
        split: option.splits) (force dest!: map_of_SomeD)+
qed (simp add: rebuild_from_def)

section \<open>Properties\<close>

text \<open>
  C29. The meter counts what it says: after any sequence of responses of any sessions, a session's
  counter is the sum of its output tokens since its last response with a tool call, as long as
  all tokens ever recorded fit a signed 64-bit integer.
\<close>
theorem breaker_counts_burn_since_tool_call:
  assumes "\<And>e. e \<in> set es \<Longrightarrow> 0 \<le> rv_output e" and "sum_list (map rv_output es) < 2 ^ 63"
  shows "get_token_count sid (fold meter es CircuitBreaker_new) =
     sum_list (map rv_output (takeWhile (\<lambda>e. \<not> rv_tool_call e) (rev (filter (\<lambda>e. rv_session e = sid) es))))"
  using cb.count_fold[OF assms, of sid CircuitBreaker_new]
  by (simp add: get_token_count_def CircuitBreaker_new_def cb.burned_def)

theorem breaker_counts_burn_since_tool_call_witness:
  "get_token_count ''s'' (fold meter
     [\<lparr>rv_session = ''s'', rv_output = 500, rv_tool_call = True, rv_max_tokens = 9, rv_now = 0\<rparr>,
      \<lparr>rv_session = ''s'', rv_output = 7, rv_tool_call = False, rv_max_tokens = 9, rv_now = 1\<rparr>,
      \<lparr>rv_session = ''t'', rv_output = 90, rv_tool_call = False, rv_max_tokens = 9, rv_now = 2\<rparr>]
     CircuitBreaker_new) = 7"
  by (subst breaker_counts_burn_since_tool_call) auto

text \<open>
  A session trips exactly when its counter reaches the cap of its latest response, and a
  response with a tool call never trips it under a positive cap.
\<close>
theorem breaker_trips_at_cap:
  "fst (record_response now sid out tool mx cb) =
     (if tool then mx \<le> 0 else mx \<le> wrap_i64 (get_token_count sid cb + out)) \<and>
   is_tripped sid (snd (record_response now sid out tool mx cb)) = fst (record_response now sid out tool mx cb)"
  by (simp add: is_tripped_record get_token_count_record)

text \<open>
  Reset-all clears exactly the tripped sessions: the reported ids are those that were
  tripped, no session with a positive cap is tripped afterwards, and every other session keeps
  its counter.
\<close>
theorem reset_all_clears_exactly_tripped:
  assumes "distinct (map fst cb)"
  shows "set (fst (reset_all_tripped now cb)) = {sid. is_tripped sid cb} \<and>
     (\<forall>sid. get_token_count sid (snd (reset_all_tripped now cb)) =
              (if is_tripped sid cb then 0 else get_token_count sid cb)) \<and>
     (\<forall>sid. is_tripped sid (snd (reset_all_tripped now cb)) =
              (\<exists>s. map_of cb sid = Some s \<and> at_cap s \<and> ss_max_tokens s \<le> 0))"
proof -
  have "set (fst (reset_all_tripped now cb)) = {sid. is_tripped sid cb}"
    using is_tripped_iff[OF assms] by (force simp: reset_all_tripped_def)
  moreover have "map_of (snd (reset_all_tripped now cb)) sid =
      map_option (\<lambda>s. if at_cap s then s\<lparr>ss_idle_output_tokens := 0, ss_last_activity := now\<rparr> else s)
        (map_of cb sid)" for sid
    by (simp add: reset_all_tripped_def map_of_map_val)
  ultimately show ?thesis
    by (auto simp: get_token_count_def is_tripped_def at_cap_def split: option.splits)
qed

theorem reset_all_clears_exactly_tripped_witness:
  "set (fst (reset_all_tripped 5 (record_tokens 0 ''s'' 9 8 CircuitBreaker_new))) =
     {sid. is_tripped sid (record_tokens 0 ''s'' 9 8 CircuitBreaker_new)}"
  using reset_all_clears_exactly_tripped[of "record_tokens 0 ''s'' 9 8 CircuitBreaker_new" 5]
  by (simp add: record_tokens_def record_response_def CircuitBreaker_new_def Let_def)

text \<open>
  A restart keeps the counters: rebuilding the breaker from its own totals, with whatever
  ages, gives every session the count it had.
\<close>
theorem rebuild_round_trip:
  assumes "distinct (map fst cb)"
  shows "get_token_count sid (rebuild_from now (map (\<lambda>(s, n). (s, n, age s)) (session_totals cb)) mx CircuitBreaker_new)
     = get_token_count sid cb"
proof -
  let ?stored = "map (\<lambda>(s, n). (s, n, age s)) (session_totals cb)"
  have keys: "map fst ?stored = map fst cb"
    by (simp add: session_totals_def case_prod_unfold)
  have "map_of ?stored sid = map_option (\<lambda>s. (ss_idle_output_tokens s, age sid)) (map_of cb sid)"
    by (induction cb) (auto simp: session_totals_def)
  then show ?thesis
    using assms keys rebuild_count[of ?stored sid now mx CircuitBreaker_new]
    by (auto simp: get_token_count_def CircuitBreaker_new_def split: option.splits)
qed

theorem rebuild_round_trip_witness:
  "get_token_count ''s'' (rebuild_from 9 (map (\<lambda>(s, n). (s, n, 3))
     (session_totals (record_tokens 0 ''s'' 9 8 CircuitBreaker_new))) 8 CircuitBreaker_new) = 9"
  by (subst rebuild_round_trip)
    (simp_all add: record_tokens_def record_response_def CircuitBreaker_new_def Let_def
       get_token_count_def wrap_i64_def)

end
