(* ===== verification/Pending.thy ===== *)
theory Pending
  imports Prelude
begin

text \<open>
  The pending-approval store of \<^verbatim>\<open>daemon/src/pending.rs\<close>.

  A held request owns the sender of a oneshot channel on whose receiver an HTTP handler may wait.
  The sender is a linear resource: it is in the entry's \<open>resolver\<close>, in a \<open>Claim\<close> that somebody
  took, or gone; dropping it closes the channel. The model makes the channels explicit (the list
  \<open>chans\<close>, indexed by channel number) and the timer tasks that were aborted (\<open>aborted\<close>). Each
  method body is one definition; \<open>pstep\<close> is their interleaving, with the claims in flight.
  The last section has the ownership invariant, that decisions are final, and a race of a timer with
  a claim that the interleaving shows.
\<close>

section \<open>Data\<close>

datatype PendingState = Held | Approved | Denied | TimedOut | Cancelled

record PendingEntry =
  pe_approval_token :: string
  pe_server :: string
  pe_tool :: "string option"
  pe_code :: "string option"
  pe_agent :: string
  pe_state :: PendingState
  pe_created :: nat
  pe_allow_always :: bool
  pe_detail :: "string option"
  pe_resolver :: "nat option"
  pe_timeout_handle :: "nat option"

record PendingInfo =
  pi_id :: string
  pi_server :: string
  pi_tool :: "string option"
  pi_code :: "string option"
  pi_agent :: string
  pi_state :: PendingState
  pi_held_since_ms :: nat
  pi_allow_always :: bool
  pi_detail :: "string option"

text \<open>A oneshot channel as its receiver sees it: nothing yet, a \<open>Resolution\<close> whose field
  \<open>approved\<close> is the boolean, or closed without a value.\<close>

datatype chan = Open | Sent bool | Closed

record PendingStore =
  entries :: "(string, PendingEntry) hashmap"
  chans :: "chan list"
  aborted :: "nat list"

record Claim =
  cl_id :: string
  cl_approval_token :: string
  cl_resolver :: "nat option"
  cl_completed :: bool

datatype ResolveError =
    NotFound
  | AlreadyResolved PendingState
  | NoLongerResolvable PendingState

section \<open>Channels and timer handles\<close>

text \<open>Writing to a channel is a plain update. That a sender is used once, as its type in Rust
  demands, is not built in here: it follows from where the methods keep and take the senders.\<close>

definition set_chan :: "nat \<Rightarrow> chan \<Rightarrow> chan list \<Rightarrow> chan list" where
  "set_chan c v cs = cs[c := v]"

definition send_chan :: "nat option \<Rightarrow> bool \<Rightarrow> PendingStore \<Rightarrow> PendingStore" where
  "send_chan r b st =
     (case r of None \<Rightarrow> st | Some c \<Rightarrow> st\<lparr>chans := set_chan c (Sent b) (chans st)\<rparr>)"

definition drop_sender :: "nat option \<Rightarrow> PendingStore \<Rightarrow> PendingStore" where
  "drop_sender r st =
     (case r of None \<Rightarrow> st | Some c \<Rightarrow> st\<lparr>chans := set_chan c Closed (chans st)\<rparr>)"

definition abort_handle :: "nat option \<Rightarrow> PendingStore \<Rightarrow> PendingStore" where
  "abort_handle h st = (case h of None \<Rightarrow> st | Some t \<Rightarrow> st\<lparr>aborted := t # aborted st\<rparr>)"

section \<open>The methods of the store\<close>

definition PendingStore_new :: PendingStore where
  "PendingStore_new = \<lparr>entries = [], chans = [], aborted = []\<rparr>"

definition hold ::
  "nat \<Rightarrow> string \<Rightarrow> string \<Rightarrow> string \<Rightarrow> string option \<Rightarrow> string option \<Rightarrow> string \<Rightarrow> bool \<Rightarrow>
     string option \<Rightarrow> PendingStore \<Rightarrow> PendingStore \<times> nat" where
  "hold now rid approval_token server tool code agent allow_always detail st =
     (let c = length (chans st);
          entry = \<lparr>pe_approval_token = approval_token, pe_server = server, pe_tool = tool,
                   pe_code = code, pe_agent = agent, pe_state = Held, pe_created = now,
                   pe_allow_always = allow_always, pe_detail = detail,
                   pe_resolver = Some c, pe_timeout_handle = None\<rparr>;
          st1 = st\<lparr>chans := chans st @ [Open]\<rparr>;
          st2 = (case map_of (entries st1) rid of
                   None \<Rightarrow> st1
                 | Some old \<Rightarrow>
                     drop_sender (pe_resolver old)
                       (abort_handle (pe_timeout_handle old)
                         (st1\<lparr>entries := AList.delete rid (entries st1)\<rparr>)))
      in (st2\<lparr>entries := AList.update rid entry (entries st2)\<rparr>, c))"

definition set_timeout_handle :: "string \<Rightarrow> nat \<Rightarrow> PendingStore \<Rightarrow> PendingStore" where
  "set_timeout_handle rid handle st =
     st\<lparr>entries := alist_modify rid (\<lambda>e. e\<lparr>pe_timeout_handle := Some handle\<rparr>) (entries st)\<rparr>"

definition claim :: "string \<Rightarrow> PendingStore \<Rightarrow> (ResolveError + Claim) \<times> PendingStore" where
  "claim rid st =
     (case map_of (entries st) rid of
        None \<Rightarrow> (Inl NotFound, st)
      | Some entry \<Rightarrow>
          if pe_state entry \<noteq> Held
          then (case pe_state entry of
                  TimedOut \<Rightarrow> (Inl (NoLongerResolvable (pe_state entry)), st)
                | Cancelled \<Rightarrow> (Inl (NoLongerResolvable (pe_state entry)), st)
                | _ \<Rightarrow> (Inl (AlreadyResolved (pe_state entry)), st))
          else if pe_resolver entry = None then (Inl (AlreadyResolved Held), st)
          else (Inr \<lparr>cl_id = rid, cl_approval_token = pe_approval_token entry,
                     cl_resolver = pe_resolver entry, cl_completed = False\<rparr>,
                abort_handle (pe_timeout_handle entry)
                  (st\<lparr>entries := AList.update rid
                        (entry\<lparr>pe_timeout_handle := None, pe_resolver := None\<rparr>) (entries st)\<rparr>)))"

definition complete_claim :: "Claim \<Rightarrow> bool \<Rightarrow> PendingStore \<Rightarrow> PendingStore" where
  "complete_claim cl approved st =
     (let st1 = send_chan (cl_resolver cl) approved st
      in case map_of (entries st1) (cl_id cl) of
           None \<Rightarrow> st1
         | Some entry \<Rightarrow>
             if pe_state entry = Held
             then abort_handle (pe_timeout_handle entry)
                    (st1\<lparr>entries := AList.update (cl_id cl)
                       (entry\<lparr>pe_state := (if approved then Approved else Denied),
                              pe_timeout_handle := None\<rparr>) (entries st1)\<rparr>)
             else st1)"

text \<open>The assignment to \<open>entry.resolver\<close> drops the sender that was there; when the entry is gone
  the claim's own sender is dropped with the claim.\<close>

definition abandon_claim :: "Claim \<Rightarrow> PendingStore \<Rightarrow> PendingStore" where
  "abandon_claim cl st =
     (case map_of (entries st) (cl_id cl) of
        None \<Rightarrow> drop_sender (cl_resolver cl) st
      | Some entry \<Rightarrow>
          drop_sender (pe_resolver entry)
            (st\<lparr>entries := AList.update (cl_id cl) (entry\<lparr>pe_resolver := cl_resolver cl\<rparr>)
                  (entries st)\<rparr>))"

text \<open>\<open>Drop for Claim\<close>: a claim that was neither completed nor abandoned denies.\<close>

definition drop_claim :: "Claim \<Rightarrow> PendingStore \<Rightarrow> PendingStore" where
  "drop_claim cl st = (if \<not> cl_completed cl then send_chan (cl_resolver cl) False st else st)"

definition timeout :: "string \<Rightarrow> PendingStore \<Rightarrow> PendingStore" where
  "timeout rid st =
     (case map_of (entries st) rid of
        None \<Rightarrow> st
      | Some entry \<Rightarrow>
          if pe_state entry = Held
          then drop_sender (pe_resolver entry)
                 (st\<lparr>entries := AList.update rid
                    (entry\<lparr>pe_state := TimedOut, pe_resolver := None, pe_timeout_handle := None\<rparr>)
                    (entries st)\<rparr>)
          else st)"

definition cancel :: "string \<Rightarrow> PendingStore \<Rightarrow> string option \<times> PendingStore" where
  "cancel rid st =
     (case map_of (entries st) rid of
        None \<Rightarrow> (None, st)
      | Some entry \<Rightarrow>
          if pe_state entry = Held
          then (Some (pe_approval_token entry),
                abort_handle (pe_timeout_handle entry)
                  (drop_sender (pe_resolver entry)
                    (st\<lparr>entries := AList.update rid
                       (entry\<lparr>pe_state := Cancelled, pe_resolver := None,
                              pe_timeout_handle := None\<rparr>) (entries st)\<rparr>)))
          else (None, st))"

definition list_info :: "nat \<Rightarrow> PendingStore \<Rightarrow> PendingInfo list" where
  "list_info now st =
     map (\<lambda>(rid, e). \<lparr>pi_id = rid, pi_server = pe_server e, pi_tool = pe_tool e,
                     pi_code = pe_code e, pi_agent = pe_agent e, pi_state = pe_state e,
                     pi_held_since_ms = (now - pe_created e) mod 2 ^ 64,
                     pi_allow_always = pe_allow_always e, pi_detail = pe_detail e\<rparr>)
         (entries st)"

definition get_state :: "string \<Rightarrow> PendingStore \<Rightarrow> PendingState option" where
  "get_state rid st = map_option pe_state (map_of (entries st) rid)"

definition list_held :: "nat \<Rightarrow> PendingStore \<Rightarrow> PendingInfo list" where
  "list_held now st = filter (\<lambda>p. pi_state p = Held) (list_info now st)"

text \<open>\<open>retain\<close> drops the removed entries, their senders included.\<close>

definition drop_entries :: "(string \<times> PendingEntry) list \<Rightarrow> PendingStore \<Rightarrow> PendingStore" where
  "drop_entries es st = fold (\<lambda>(rid, e). drop_sender (pe_resolver e)) es st"

definition prune_resolved :: "PendingStore \<Rightarrow> PendingStore" where
  "prune_resolved st =
     drop_entries (filter (\<lambda>(rid, e). pe_state e \<noteq> Held) (entries st))
       (st\<lparr>entries := filter (\<lambda>(rid, e). pe_state e = Held) (entries st)\<rparr>)"

section \<open>Interleaving of the callers\<close>

text \<open>The claims that callers hold: \<open>None\<close> once a claim was completed, abandoned or dropped.\<close>

record psys =
  store :: PendingStore
  claims :: "Claim option list"

datatype plabel =
    LHold string nat
  | LSetTimeout string nat
  | LClaim string
  | LClaimFail string ResolveError
  | LComplete nat bool
  | LAbandon nat
  | LDropClaim nat
  | LTimeout string
  | LCancel string
  | LPrune

inductive pstep :: "psys \<Rightarrow> plabel \<Rightarrow> psys \<Rightarrow> bool" where
  ps_hold: "hold now rid tok srv tool code agent aa det (store s) = (st', c) \<Longrightarrow>
     pstep s (LHold rid c) (s\<lparr>store := st'\<rparr>)"
| ps_set_timeout: "pstep s (LSetTimeout rid h) (s\<lparr>store := set_timeout_handle rid h (store s)\<rparr>)"
| ps_claim: "claim rid (store s) = (Inr cl, st') \<Longrightarrow>
     pstep s (LClaim rid) (s\<lparr>store := st', claims := claims s @ [Some cl]\<rparr>)"
| ps_claim_fail: "claim rid (store s) = (Inl e, st') \<Longrightarrow>
     pstep s (LClaimFail rid e) (s\<lparr>store := st'\<rparr>)"
| ps_complete: "k < length (claims s) \<Longrightarrow> claims s ! k = Some cl \<Longrightarrow>
     pstep s (LComplete k b)
       (s\<lparr>store := complete_claim cl b (store s), claims := (claims s)[k := None]\<rparr>)"
| ps_abandon: "k < length (claims s) \<Longrightarrow> claims s ! k = Some cl \<Longrightarrow>
     pstep s (LAbandon k)
       (s\<lparr>store := abandon_claim cl (store s), claims := (claims s)[k := None]\<rparr>)"
| ps_drop: "k < length (claims s) \<Longrightarrow> claims s ! k = Some cl \<Longrightarrow>
     pstep s (LDropClaim k)
       (s\<lparr>store := drop_claim cl (store s), claims := (claims s)[k := None]\<rparr>)"
| ps_timeout: "pstep s (LTimeout rid) (s\<lparr>store := timeout rid (store s)\<rparr>)"
| ps_cancel: "cancel rid (store s) = (r, st') \<Longrightarrow> pstep s (LCancel rid) (s\<lparr>store := st'\<rparr>)"
| ps_prune: "pstep s LPrune (s\<lparr>store := prune_resolved (store s)\<rparr>)"

definition pinit :: "psys \<Rightarrow> bool" where
  "pinit s \<longleftrightarrow> s = \<lparr>store = PendingStore_new, claims = []\<rparr>"


section \<open>Who owns a channel\<close>

text \<open>The abstract view of the store: a partial map from owners (an entry, a claim in flight) to
  the channel whose sender they hold.\<close>

datatype owner = OEntry string | OClaim nat

definition holds :: "psys \<Rightarrow> owner \<Rightarrow> nat option" where
  "holds s w = (case w of
       OEntry i \<Rightarrow> Option.bind (map_of (entries (store s)) i) pe_resolver
     | OClaim k \<Rightarrow> if k < length (claims s) then Option.bind (claims s ! k) cl_resolver else None)"

definition is_open :: "chan list \<Rightarrow> nat \<Rightarrow> bool" where
  "is_open cs c \<longleftrightarrow> c < length cs \<and> cs ! c = Open"

definition own_ok :: "(owner \<Rightarrow> nat option) \<Rightarrow> chan list \<Rightarrow> bool" where
  "own_ok h cs \<longleftrightarrow>
     (\<forall>w w' c. h w = Some c \<longrightarrow> h w' = Some c \<longrightarrow> w = w') \<and>
     (\<forall>c. is_open cs c \<longleftrightarrow> (\<exists>w. h w = Some c))"

definition own_inv :: "psys \<Rightarrow> bool" where
  "own_inv s \<longleftrightarrow>
     distinct (map fst (entries (store s))) \<and>
     own_ok (holds s) (chans (store s)) \<and>
     (\<forall>k cl. k < length (claims s) \<longrightarrow> claims s ! k = Some cl \<longrightarrow> \<not> cl_completed cl)"

subsection \<open>Ownership under release, creation and transfer\<close>

lemma own_ok_open: "own_ok h cs \<Longrightarrow> h w = Some c \<Longrightarrow> c < length cs \<and> cs ! c = Open"
  unfolding own_ok_def is_open_def by blast

lemma own_ok_inj: "own_ok h cs \<Longrightarrow> h w = Some c \<Longrightarrow> h w' = Some c \<Longrightarrow> w = w'"
  unfolding own_ok_def by blast

lemma own_ok_drop:
  assumes ok: "own_ok h cs" and len: "length cs' = length cs"
    and cs': "\<And>c. c < length cs \<Longrightarrow>
                cs' ! c = Open \<longleftrightarrow> cs ! c = Open \<and> \<not> (\<exists>w. P w \<and> h w = Some c)"
  shows "own_ok (\<lambda>w. if P w then None else h w) cs'"
proof -
  have "is_open cs' c \<longleftrightarrow> (\<exists>w. \<not> P w \<and> h w = Some c)" for c
    using ok len cs' unfolding own_ok_def is_open_def by metis
  with ok show ?thesis
    by (auto simp: own_ok_def split: if_splits)
qed

lemma length_set_chan [simp]: "length (set_chan c v cs) = length cs"
  by (simp add: set_chan_def)

lemma set_chan_nth:
  "i < length cs \<Longrightarrow> set_chan c v cs ! i = (if i = c then v else cs ! i)"
  by (simp add: set_chan_def nth_list_update)

definition settle :: "chan \<Rightarrow> nat option \<Rightarrow> chan list \<Rightarrow> chan list" where
  "settle v r cs = (case r of None \<Rightarrow> cs | Some c \<Rightarrow> set_chan c v cs)"

lemma settle_simps [simp]:
  "settle v None cs = cs" "settle v (Some c) cs = set_chan c v cs"
  "length (settle v r cs) = length cs"
  by (simp_all add: settle_def split: option.split)

lemma chan_ops [simp]:
  "chans (send_chan r b st) = settle (Sent b) r (chans st)"
  "entries (send_chan r b st) = entries st"
  "chans (drop_sender r st) = settle Closed r (chans st)"
  "entries (drop_sender r st) = entries st"
  "chans (abort_handle h st) = chans st"
  "entries (abort_handle h st) = entries st"
  by (simp_all add: send_chan_def drop_sender_def abort_handle_def settle_def split: option.splits)

lemma own_ok_release:
  assumes ok: "own_ok h cs" and v: "v \<noteq> Open"
  shows "own_ok (h(w := None)) (settle v (h w) cs)"
proof -
  have "own_ok (\<lambda>x. if x = w then None else h x) (settle v (h w) cs)"
  proof (rule own_ok_drop[OF ok])
    fix c
    assume c: "c < length cs"
    show "settle v (h w) cs ! c = Open \<longleftrightarrow> cs ! c = Open \<and> \<not> (\<exists>x. x = w \<and> h x = Some c)"
    proof (cases "h w")
      case (Some d)
      with c v show ?thesis by (auto simp: set_chan_nth)
    qed simp
  qed simp
  moreover have "(\<lambda>x. if x = w then None else h x) = h(w := None)"
    by auto
  ultimately show ?thesis by simp
qed

lemma own_ok_new:
  assumes "own_ok h cs" and "h w = None"
  shows "own_ok (h(w := Some (length cs))) (cs @ [Open])"
proof -
  have "h x \<noteq> Some (length cs)" for x
    using assms(1) own_ok_open by fastforce
  moreover have "is_open (cs @ [Open]) c \<longleftrightarrow> is_open cs c \<or> c = length cs" for c
    by (auto simp: is_open_def nth_append)
  ultimately show ?thesis
    using assms unfolding own_ok_def by (auto split: if_splits) (metis option.distinct(1))
qed

lemma own_ok_move:
  assumes "own_ok h cs" and "h w' = None" and "w \<noteq> w'"
  shows "own_ok (h(w := None, w' := h w)) cs"
  using assms unfolding own_ok_def by (auto split: if_splits) (metis option.distinct(1))+

lemma settle_append:
  "own_ok h cs \<Longrightarrow> settle v (h w) (cs @ [Open]) = settle v (h w) cs @ [Open]"
  by (cases "h w") (auto simp: set_chan_def nth_append list_update_append dest: own_ok_open)

section \<open>Every step keeps the ownership invariant\<close>

lemma holds_entry: "holds s (OEntry i) = Option.bind (map_of (entries (store s)) i) pe_resolver"
  and holds_claim: "holds s (OClaim k) =
    (if k < length (claims s) then Option.bind (claims s ! k) cl_resolver else None)"
  by (simp_all add: holds_def)

lemma holds_cong:
  assumes "\<And>i. holds s' (OEntry i) = h (OEntry i)" and "\<And>k. holds s' (OClaim k) = h (OClaim k)"
  shows "holds s' = h"
proof
  fix w show "holds s' w = h w" using assms by (cases w) auto
qed

lemmas pending_map_simps = update_conv' delete_conv' map_of_alist_modify

lemma own_inv_hold:
  assumes inv: "own_inv s"
    and h: "hold now rid tok srv tool code agent aa det (store s) = (st', c)"
  shows "own_inv (s\<lparr>store := st'\<rparr>)" and "c = length (chans (store s))"
proof -
  let ?st = "store s" and ?h = "holds s"
  from inv have ok: "own_ok ?h (chans ?st)" and d: "distinct (map fst (entries ?st))"
    by (auto simp: own_inv_def)
  show c: "c = length (chans ?st)"
    using h by (simp add: hold_def Let_def)
  have st': "chans st' = settle Closed (?h (OEntry rid)) (chans ?st) @ [Open]"
    using h settle_append[OF ok, of Closed "OEntry rid"]
    by (auto simp: hold_def Let_def holds_entry split: option.splits)
  have "holds (s\<lparr>store := st'\<rparr>) = ?h(OEntry rid := Some (length (chans ?st)))"
    using h by (intro holds_cong)
      (auto simp: hold_def Let_def holds_def pending_map_simps split: option.splits)
  moreover have "own_ok (?h(OEntry rid := Some (length (chans ?st)))) (chans st')"
    using own_ok_new[OF own_ok_release[OF ok, of Closed "OEntry rid"], of "OEntry rid"] st'
    by simp
  moreover have "distinct (map fst (entries st'))"
    using h d by (auto simp: hold_def Let_def distinct_update distinct_delete split: option.splits)
  ultimately show "own_inv (s\<lparr>store := st'\<rparr>)"
    using inv by (simp add: own_inv_def)
qed

lemma own_inv_set_timeout:
  "own_inv s \<Longrightarrow> own_inv (s\<lparr>store := set_timeout_handle rid h (store s)\<rparr>)"
proof -
  assume inv: "own_inv s"
  have "holds (s\<lparr>store := set_timeout_handle rid h (store s)\<rparr>) = holds s"
    by (rule holds_cong)
      (auto simp: holds_def set_timeout_handle_def map_of_alist_modify split: option.splits
        Option.bind_split)
  with inv show ?thesis
    by (simp add: own_inv_def set_timeout_handle_def)
qed

lemma claim_Inr:
  assumes "claim rid st = (Inr cl, st')"
  obtains e where "map_of (entries st) rid = Some e" "pe_state e = Held" "pe_resolver e \<noteq> None"
    "cl = \<lparr>cl_id = rid, cl_approval_token = pe_approval_token e,
           cl_resolver = pe_resolver e, cl_completed = False\<rparr>"
    "st' = abort_handle (pe_timeout_handle e)
       (st\<lparr>entries := AList.update rid (e\<lparr>pe_timeout_handle := None, pe_resolver := None\<rparr>)
             (entries st)\<rparr>)"
  using assms by (auto simp: claim_def split: option.splits if_splits PendingState.splits)

lemma claim_Inl: "claim rid st = (Inl e, st') \<Longrightarrow> st' = st"
  by (auto simp: claim_def split: option.splits if_splits PendingState.splits)

lemma own_inv_claim:
  assumes inv: "own_inv s" and c: "claim rid (store s) = (Inr cl, st')"
  shows "own_inv (s\<lparr>store := st', claims := claims s @ [Some cl]\<rparr>)"
proof -
  let ?n = "length (claims s)"
  obtain e where e: "map_of (entries (store s)) rid = Some e"
    and cl: "cl_resolver cl = pe_resolver e" "\<not> cl_completed cl"
    and st': "st' = abort_handle (pe_timeout_handle e)
       (store s\<lparr>entries := AList.update rid (e\<lparr>pe_timeout_handle := None, pe_resolver := None\<rparr>)
             (entries (store s))\<rparr>)"
    using claim_Inr[OF c] by (metis Claim.select_convs(3,4))
  let ?s' = "s\<lparr>store := st', claims := claims s @ [Some cl]\<rparr>"
  have "holds ?s' = (holds s)(OEntry rid := None, OClaim ?n := holds s (OEntry rid))"
    by (rule holds_cong) (auto simp: holds_def st' e cl pending_map_simps nth_append)
  moreover have "own_ok ((holds s)(OEntry rid := None, OClaim ?n := holds s (OEntry rid)))
      (chans (store s))"
    using inv by (intro own_ok_move) (auto simp: own_inv_def holds_claim)
  ultimately show ?thesis
    using inv cl by (auto simp: own_inv_def st' distinct_update nth_append less_Suc_eq)
qed

text \<open>Completing and dropping a claim both settle its channel and leave every resolver alone.\<close>

lemma own_inv_settle_claim:
  assumes inv: "own_inv s" and k: "k < length (claims s)" "claims s ! k = Some cl" and v: "v \<noteq> Open"
    and ch: "chans st' = settle v (cl_resolver cl) (chans (store s))"
    and res: "\<And>i. Option.bind (map_of (entries st') i) pe_resolver
                  = Option.bind (map_of (entries (store s)) i) pe_resolver"
    and d: "distinct (map fst (entries st'))"
  shows "own_inv (s\<lparr>store := st', claims := (claims s)[k := None]\<rparr>)"
proof -
  let ?s' = "s\<lparr>store := st', claims := (claims s)[k := None]\<rparr>"
  have r: "holds s (OClaim k) = cl_resolver cl"
    using k by (simp add: holds_claim)
  have "holds ?s' = (holds s)(OClaim k := None)"
    by (rule holds_cong) (auto simp: holds_def res nth_list_update k)
  moreover have "own_ok ((holds s)(OClaim k := None)) (chans st')"
    using own_ok_release[OF _ v, of "holds s" "chans (store s)" "OClaim k"] inv
    by (simp add: own_inv_def r ch)
  ultimately show ?thesis
    using inv d k by (auto simp: own_inv_def nth_list_update split: if_splits)
qed

lemma complete_claim_chans [simp]:
  "chans (complete_claim cl b st) = settle (Sent b) (cl_resolver cl) (chans st)"
  by (simp add: complete_claim_def Let_def split: option.split)

lemma complete_claim_entries:
  "map_of (entries (complete_claim cl b st)) i =
     (case map_of (entries st) i of
        None \<Rightarrow> None
      | Some e \<Rightarrow> Some (if i = cl_id cl \<and> pe_state e = Held
                       then e\<lparr>pe_state := (if b then Approved else Denied), pe_timeout_handle := None\<rparr>
                       else e))"
  by (auto simp: complete_claim_def Let_def update_conv' split: option.splits)

lemma complete_claim_distinct:
  "distinct (map fst (entries st)) \<Longrightarrow> distinct (map fst (entries (complete_claim cl b st)))"
  by (auto simp: complete_claim_def Let_def distinct_update split: option.splits)

lemma own_inv_complete:
  assumes "own_inv s" and "k < length (claims s)" "claims s ! k = Some cl"
  shows "own_inv (s\<lparr>store := complete_claim cl b (store s), claims := (claims s)[k := None]\<rparr>)"
  by (rule own_inv_settle_claim[OF assms, of "Sent b"])
    (use assms in \<open>auto simp: complete_claim_entries own_inv_def split: option.splits
       intro: complete_claim_distinct\<close>)

lemma own_inv_drop:
  assumes "own_inv s" and "k < length (claims s)" "claims s ! k = Some cl"
  shows "own_inv (s\<lparr>store := drop_claim cl (store s), claims := (claims s)[k := None]\<rparr>)"
  by (rule own_inv_settle_claim[OF assms, of "Sent False"])
    (use assms in \<open>auto simp: drop_claim_def own_inv_def\<close>)

lemma own_inv_abandon:
  assumes inv: "own_inv s" and k: "k < length (claims s)" "claims s ! k = Some cl"
  shows "own_inv (s\<lparr>store := abandon_claim cl (store s), claims := (claims s)[k := None]\<rparr>)"
proof (cases "map_of (entries (store s)) (cl_id cl)")
  case None
  show ?thesis
    by (rule own_inv_settle_claim[OF assms, of Closed])
      (use inv None in \<open>auto simp: abandon_claim_def own_inv_def\<close>)
next
  case (Some e)
  let ?h = "holds s" and ?w = "OEntry (cl_id cl)"
  let ?st' = "abandon_claim cl (store s)"
  let ?s' = "s\<lparr>store := ?st', claims := (claims s)[k := None]\<rparr>"
  have ch: "chans ?st' = settle Closed (?h ?w) (chans (store s))"
    using Some by (simp add: abandon_claim_def holds_entry)
  have "holds ?s' = (?h(?w := None))(OClaim k := None, ?w := ?h (OClaim k))"
    using Some k by (intro holds_cong)
      (auto simp: abandon_claim_def holds_def pending_map_simps nth_list_update)
  moreover have "own_ok ((?h(?w := None))(OClaim k := None, ?w := ?h (OClaim k))) (chans ?st')"
    using own_ok_move[OF own_ok_release[of ?h "chans (store s)" Closed ?w], of ?w "OClaim k"] inv
    by (simp add: own_inv_def ch)
  moreover have "distinct (map fst (entries ?st'))"
    using inv Some by (simp add: own_inv_def abandon_claim_def distinct_update)
  ultimately show ?thesis
    using inv k by (auto simp: own_inv_def nth_list_update split: if_splits)
qed

text \<open>A timeout and a cancellation release the sender of one entry.\<close>

lemma own_inv_release_entry:
  assumes inv: "own_inv s" and e: "map_of (entries (store s)) rid = Some e"
    and e': "pe_resolver e' = None"
    and ent: "entries st' = AList.update rid e' (entries (store s))"
    and ch: "chans st' = settle Closed (pe_resolver e) (chans (store s))"
  shows "own_inv (s\<lparr>store := st'\<rparr>)"
proof -
  have "holds (s\<lparr>store := st'\<rparr>) = (holds s)(OEntry rid := None)"
    by (rule holds_cong) (auto simp: holds_def ent e' pending_map_simps)
  moreover have "own_ok ((holds s)(OEntry rid := None)) (chans st')"
    using own_ok_release[of "holds s" "chans (store s)" Closed "OEntry rid"] inv e
    by (simp add: own_inv_def ch holds_entry)
  ultimately show ?thesis
    using inv by (simp add: own_inv_def ent distinct_update)
qed

lemma own_inv_timeout: "own_inv s \<Longrightarrow> own_inv (s\<lparr>store := timeout rid (store s)\<rparr>)"
proof -
  assume inv: "own_inv s"
  show ?thesis
  proof (cases "\<exists>e. map_of (entries (store s)) rid = Some e \<and> pe_state e = Held")
    case True
    then obtain e where e: "map_of (entries (store s)) rid = Some e" "pe_state e = Held" by blast
    show ?thesis
      by (rule own_inv_release_entry[OF inv e(1), where e' =
            "e\<lparr>pe_state := TimedOut, pe_resolver := None, pe_timeout_handle := None\<rparr>"])
        (simp_all add: timeout_def e)
  next
    case False
    then have "timeout rid (store s) = store s"
      by (auto simp: timeout_def split: option.splits)
    with inv show ?thesis by simp
  qed
qed

lemma own_inv_cancel:
  assumes inv: "own_inv s" and c: "cancel rid (store s) = (r, st')"
  shows "own_inv (s\<lparr>store := st'\<rparr>)"
proof (cases "\<exists>e. map_of (entries (store s)) rid = Some e \<and> pe_state e = Held")
  case True
  then obtain e where e: "map_of (entries (store s)) rid = Some e" "pe_state e = Held" by blast
  show ?thesis
    by (rule own_inv_release_entry[OF inv e(1), where e' =
          "e\<lparr>pe_state := Cancelled, pe_resolver := None, pe_timeout_handle := None\<rparr>"])
      (use c in \<open>auto simp: cancel_def e\<close>)
next
  case False
  with c have "st' = store s"
    by (auto simp: cancel_def split: option.splits)
  with inv show ?thesis by simp
qed

lemma drop_entries_entries [simp]: "entries (drop_entries es st) = entries st"
  unfolding drop_entries_def by (induction es arbitrary: st) auto

lemma drop_entries_chans:
  "length (chans (drop_entries es st)) = length (chans st) \<and>
   (c < length (chans st) \<longrightarrow>
     chans (drop_entries es st) ! c =
       (if \<exists>(i, e) \<in> set es. pe_resolver e = Some c then Closed else chans st ! c))"
  unfolding drop_entries_def
proof (induction es arbitrary: st)
  case (Cons x es)
  obtain i e where x: "x = (i, e)" by (cases x)
  have "fold (\<lambda>(i, e). drop_sender (pe_resolver e)) (x # es) st
      = fold (\<lambda>(i, e). drop_sender (pe_resolver e)) es (drop_sender (pe_resolver e) st)"
    by (simp add: x)
  moreover have "c < length (chans st) \<Longrightarrow> chans (drop_sender (pe_resolver e) st) ! c =
      (if pe_resolver e = Some c then Closed else chans st ! c)"
    by (cases "pe_resolver e") (auto simp: set_chan_nth)
  ultimately show ?case
    using Cons.IH[of "drop_sender (pe_resolver e) st"] by (auto simp: x)
qed simp

lemma prune_resolved_lookup:
  "distinct (map fst (entries st)) \<Longrightarrow>
   map_of (entries (prune_resolved st)) i =
     (case map_of (entries st) i of None \<Rightarrow> None
      | Some e \<Rightarrow> if pe_state e = Held then Some e else None)"
  by (simp add: prune_resolved_def map_of_filter_dom)

lemma own_inv_prune: "own_inv s \<Longrightarrow> own_inv (s\<lparr>store := prune_resolved (store s)\<rparr>)"
proof -
  assume inv: "own_inv s"
  let ?st = "store s" and ?s' = "s\<lparr>store := prune_resolved (store s)\<rparr>"
  let ?P = "\<lambda>w. \<exists>i e. w = OEntry i \<and> map_of (entries ?st) i = Some e \<and> pe_state e \<noteq> Held"
  from inv have d: "distinct (map fst (entries ?st))" and ok: "own_ok (holds s) (chans ?st)"
    by (auto simp: own_inv_def)
  have dropped: "(\<exists>(i, e) \<in> set (filter (\<lambda>(i, e). pe_state e \<noteq> Held) (entries ?st)).
      pe_resolver e = Some c) \<longleftrightarrow> (\<exists>w. ?P w \<and> holds s w = Some c)" for c
  proof -
    have "(\<exists>(i, e) \<in> set (filter (\<lambda>(i, e). pe_state e \<noteq> Held) (entries ?st)). pe_resolver e = Some c)
       \<longleftrightarrow> (\<exists>i e. map_of (entries ?st) i = Some e \<and> pe_state e \<noteq> Held \<and> pe_resolver e = Some c)"
      using d by (auto intro: map_of_is_SomeI dest: map_of_SomeD)
    also have "\<dots> \<longleftrightarrow> (\<exists>i. ?P (OEntry i) \<and> holds s (OEntry i) = Some c)"
      by (force simp: holds_entry)
    also have "\<dots> \<longleftrightarrow> (\<exists>w. ?P w \<and> holds s w = Some c)"
      by blast
    finally show ?thesis .
  qed
  have "own_ok (\<lambda>w. if ?P w then None else holds s w) (chans (prune_resolved ?st))"
  proof (rule own_ok_drop[OF ok])
    show "length (chans (prune_resolved ?st)) = length (chans ?st)"
      by (simp add: prune_resolved_def drop_entries_chans)
  next
    fix c assume "c < length (chans ?st)"
    then show "chans (prune_resolved ?st) ! c = Open \<longleftrightarrow>
        chans ?st ! c = Open \<and> \<not> (\<exists>w. ?P w \<and> holds s w = Some c)"
      unfolding dropped[symmetric]
      by (simp add: prune_resolved_def drop_entries_chans del: set_filter)
  qed
  moreover have "holds ?s' = (\<lambda>w. if ?P w then None else holds s w)"
    by (rule holds_cong) (auto simp: holds_def prune_resolved_lookup[OF d] split: option.splits)
  ultimately show ?thesis
    using inv by (simp add: own_inv_def prune_resolved_def distinct_filter_keys)
qed

lemma own_inv_step: "own_inv s \<Longrightarrow> pstep s l s' \<Longrightarrow> own_inv s'"
  by (erule pstep.cases)
    (auto intro: own_inv_hold own_inv_set_timeout own_inv_claim own_inv_complete own_inv_abandon
      own_inv_drop own_inv_timeout own_inv_cancel own_inv_prune dest: claim_Inl)

lemma own_inv_pinit: "pinit s \<Longrightarrow> own_inv s"
  by (auto simp: pinit_def own_inv_def own_ok_def is_open_def holds_def PendingStore_new_def
      split: owner.splits)

interpretation pend: machine pinit pstep own_inv
  by unfold_locales (auto intro: own_inv_pinit own_inv_step)

section \<open>A settled channel stays settled\<close>

lemma settle_nth:
  "c < length cs \<Longrightarrow> settle v r cs ! c = (if r = Some c then v else cs ! c)"
  by (cases r) (auto simp: set_chan_nth)

lemma hold_chans:
  "hold now rid tok srv tool code agent aa det (store s) = (st', c) \<Longrightarrow>
     c = length (chans (store s)) \<and>
     chans st' = settle Closed (holds s (OEntry rid)) (chans (store s) @ [Open])"
  by (cases "map_of (entries (store s)) rid") (auto simp: hold_def Let_def holds_entry)

lemma claim_chans: "claim rid st = (r, st') \<Longrightarrow> chans st' = chans st"
  by (auto simp: claim_def split: option.splits if_splits PendingState.splits)

lemma timeout_chans:
  "chans (timeout rid (store s)) = chans (store s) \<or>
   chans (timeout rid (store s)) = settle Closed (holds s (OEntry rid)) (chans (store s))"
  by (auto simp: timeout_def holds_entry split: option.splits)

lemma cancel_chans:
  "cancel rid (store s) = (t, st') \<Longrightarrow>
     chans st' = chans (store s) \<or>
     chans st' = settle Closed (holds s (OEntry rid)) (chans (store s))"
  by (auto simp: cancel_def holds_entry split: option.splits if_splits)

lemma abandon_chans:
  assumes "k < length (claims s)" and "claims s ! k = Some cl"
  shows "\<exists>w. chans (abandon_claim cl (store s)) = settle Closed (holds s w) (chans (store s))"
proof (cases "map_of (entries (store s)) (cl_id cl)")
  case None
  with assms show ?thesis by (intro exI[of _ "OClaim k"]) (simp add: abandon_claim_def holds_claim)
next
  case (Some e)
  then show ?thesis
    by (intro exI[of _ "OEntry (cl_id cl)"]) (simp add: abandon_claim_def holds_entry)
qed

lemma abandon_settles: "\<exists>r. chans (abandon_claim cl st) = settle Closed r (chans st)"
  by (auto simp: abandon_claim_def split: option.splits)

lemma drop_claim_chans:
  assumes "k < length (claims s)" and "claims s ! k = Some cl"
  shows "chans (drop_claim cl (store s)) = chans (store s) \<or>
    chans (drop_claim cl (store s)) = settle (Sent False) (holds s (OClaim k)) (chans (store s))"
  using assms by (simp add: drop_claim_def holds_claim)

text \<open>What one step can do to a channel that exists before it.\<close>

definition chan_step :: "plabel \<Rightarrow> chan \<Rightarrow> chan \<Rightarrow> bool" where
  "chan_step l v v' \<longleftrightarrow>
     v' = v \<or> (v = Open \<and> (v' = Closed \<or> v' = Sent False \<or> (v' = Sent True \<and> (\<exists>k. l = LComplete k True))))"

lemma chan_step_same [simp]: "chan_step l v v"
  by (simp add: chan_step_def)

text \<open>A sender that somebody owns belongs to a channel that is still open.\<close>

lemma chan_step_settle:
  assumes "own_inv s" and "c < length (chans (store s))"
    and "v = Closed \<or> v = Sent False \<or> (v = Sent True \<and> (\<exists>k. l = LComplete k True))"
  shows "chan_step l (chans (store s) ! c) (settle v (holds s w) (chans (store s)) ! c)"
  using assms own_ok_open[of "holds s" "chans (store s)" w c]
  by (auto simp: chan_step_def settle_nth own_inv_def)

lemma prune_chans:
  "c < length (chans st) \<Longrightarrow> chans (prune_resolved st) ! c =
     (if \<exists>i e. (i, e) \<in> set (entries st) \<and> pe_state e \<noteq> Held \<and> pe_resolver e = Some c
      then Closed else chans st ! c)"
  by (simp add: prune_resolved_def drop_entries_chans) blast

lemma chan_step_prune:
  assumes "own_inv s" and "c < length (chans (store s))"
  shows "chan_step l (chans (store s) ! c) (chans (prune_resolved (store s)) ! c)"
proof (cases "chans (prune_resolved (store s)) ! c = chans (store s) ! c")
  case False
  with assms(2) obtain i e where "(i, e) \<in> set (entries (store s))" and r: "pe_resolver e = Some c"
      and closed: "chans (prune_resolved (store s)) ! c = Closed"
    by (metis prune_chans)
  then have "holds s (OEntry i) = Some c"
    using assms(1) by (auto simp: own_inv_def holds_entry)
  with assms(1) closed show ?thesis
    by (auto simp: own_inv_def chan_step_def dest: own_ok_open)
qed simp

lemma pstep_chan:
  assumes inv: "own_inv s" and step: "pstep s l s'" and c: "c < length (chans (store s))"
  shows "c < length (chans (store s')) \<and> chan_step l (chans (store s) ! c) (chans (store s') ! c)"
  using step
proof cases
  case (ps_hold now rid tok srv tool code agent aa det st' c')
  then have "chans (store s') = settle Closed (holds s (OEntry rid)) (chans (store s)) @ [Open]"
    using hold_chans[OF ps_hold(3)] settle_append[of "holds s" "chans (store s)"] inv
    by (simp add: own_inv_def)
  with c show ?thesis
    by (simp add: nth_append chan_step_settle[OF inv])
next
  case (ps_complete k cl b)
  then have "chans (store s') = settle (Sent b) (holds s (OClaim k)) (chans (store s))"
    by (simp add: holds_claim)
  with c show ?thesis
    by (cases b) (simp_all add: chan_step_settle[OF inv] ps_complete(1))
next
  case (ps_abandon k cl)
  with c show ?thesis
    using abandon_chans[OF ps_abandon(3,4)] by (auto simp: chan_step_settle[OF inv])
next
  case (ps_drop k cl)
  with c show ?thesis
    using drop_claim_chans[OF ps_drop(3,4)] by (auto simp: chan_step_settle[OF inv])
next
  case (ps_timeout rid)
  with c show ?thesis
    using timeout_chans[of rid s] by (auto simp: chan_step_settle[OF inv])
next
  case (ps_cancel rid r st')
  with c show ?thesis
    using cancel_chans[OF ps_cancel(3)] by (auto simp: chan_step_settle[OF inv])
next
  case ps_prune
  with c show ?thesis
    using chan_step_prune[OF inv c] by (simp add: prune_resolved_def drop_entries_chans)
qed (use c in \<open>auto simp: set_timeout_handle_def dest: claim_chans\<close>)

lemma pstep_length:
  assumes "pstep s l s'" and "\<not> c < length (chans (store s))" and "c < length (chans (store s'))"
  shows "\<exists>rid. l = LHold rid c"
  using assms(1)
proof cases
  case (ps_abandon k cl)
  with assms show ?thesis using abandon_chans[OF ps_abandon(3,4)] by auto
next
  case (ps_drop k cl)
  with assms show ?thesis using drop_claim_chans[OF ps_drop(3,4)] by auto
next
  case (ps_timeout rid)
  with assms show ?thesis using timeout_chans[of rid s] by auto
next
  case (ps_cancel rid r st')
  with assms show ?thesis using cancel_chans[OF ps_cancel(3)] by auto
next
  case (ps_hold now rid tok srv tool code agent aa det st' c')
  with assms show ?thesis
    using hold_chans[OF ps_hold(3)] by auto
qed (use assms in \<open>auto simp: set_timeout_handle_def prune_resolved_def drop_entries_chans
       dest: claim_chans\<close>)

lemma pstep_hold_open:
  assumes inv: "own_inv s" and step: "pstep s (LHold rid c) s'"
  shows "c < length (chans (store s')) \<and> chans (store s') ! c = Open"
  using step
proof cases
  case (ps_hold now tok srv tool code agent aa det st')
  have inv': "own_inv s'" and c: "c = length (chans (store s))"
    using own_inv_hold[OF inv ps_hold(2)] ps_hold(1) by auto
  have "holds s' (OEntry rid) = Some c"
    using ps_hold c by (auto simp: hold_def Let_def holds_def pending_map_simps)
  with inv' show ?thesis
    by (auto simp: own_inv_def dest: own_ok_open)
qed

section \<open>Where an approval comes from\<close>

lemma run_settled:
  assumes "run pstep s ls t" and "own_inv s"
    and "c < length (chans (store s))" and "chans (store s) ! c \<noteq> Open"
  shows "c < length (chans (store t)) \<and> chans (store t) ! c = chans (store s) ! c"
  using assms
proof (induction rule: run.induct)
  case (run_cons s l s' ls s'')
  then have "c < length (chans (store s'))" and "chans (store s') ! c = chans (store s) ! c"
    using pstep_chan[of s l s' c] by (auto simp: chan_step_def)
  moreover have "own_inv s'"
    using run_cons own_inv_step by blast
  ultimately show ?case using run_cons by simp
qed simp

text \<open>The state that pollers read: a step moves an entry out of \<open>Held\<close> or removes it, and only a
  new hold under the same id puts another state there.\<close>

lemma pstep_state_final:
  assumes inv: "own_inv s" and step: "pstep s l s'"
    and v: "get_state rid (store s) \<in> {None, Some v}" "v \<noteq> Held" and l: "\<And>c. l \<noteq> LHold rid c"
  shows "get_state rid (store s') \<in> {None, Some v}"
  using step
proof cases
  case (ps_hold now rid' tok srv tool code agent aa det st' c')
  with l have "rid' \<noteq> rid" by metis
  with ps_hold v show ?thesis
    by (auto simp: hold_def Let_def get_state_def pending_map_simps split: option.splits)
next
  case (ps_claim rid' cl st')
  have "get_state rid st' = get_state rid (store s)"
    using ps_claim(3) by (rule claim_Inr) (simp add: get_state_def pending_map_simps)
  with ps_claim v show ?thesis by simp
next
  case (ps_claim_fail rid' e st')
  with v claim_Inl show ?thesis by fastforce
next
  case (ps_complete k cl b)
  with v show ?thesis
    by (auto simp: get_state_def complete_claim_entries split: option.splits)
next
  case ps_prune
  have "map_of (entries (prune_resolved (store s))) rid \<in> {None, map_of (entries (store s)) rid}"
    using inv by (simp add: prune_resolved_lookup own_inv_def split: option.split)
  with v ps_prune show ?thesis by (auto simp: get_state_def)
qed (use v in \<open>auto simp: get_state_def set_timeout_handle_def abandon_claim_def drop_claim_def
       timeout_def cancel_def pending_map_simps send_chan_def split: option.splits if_splits\<close>)

lemma run_state_final:
  assumes "run pstep s ls t" and "own_inv s" and "get_state rid (store s) \<in> {None, Some v}"
    and "v \<noteq> Held" and "\<And>c. LHold rid c \<notin> set ls"
  shows "get_state rid (store t) \<in> {None, Some v}"
  using assms
proof (induction rule: run.induct)
  case (run_cons s l s' ls s'')
  have "get_state rid (store s') \<in> {None, Some v}"
    using pstep_state_final[OF run_cons.prems(1) run_cons.hyps(1) run_cons.prems(2,3)]
      run_cons.prems(4) by auto
  moreover have "own_inv s'"
    using run_cons own_inv_step by blast
  ultimately show ?case using run_cons by simp
qed simp

lemma pstep_approves:
  assumes step: "pstep s l s'" and inv: "own_inv s" and c: "c < length (chans (store s))"
    and "chans (store s) ! c \<noteq> Sent True" and "chans (store s') ! c = Sent True"
  shows "\<exists>k cl. l = LComplete k True \<and> k < length (claims s) \<and> claims s ! k = Some cl
           \<and> cl_resolver cl = Some c"
proof -
  obtain k where k: "l = LComplete k True"
    using pstep_chan[OF inv step c] assms(4,5) by (auto simp: chan_step_def)
  from step obtain cl where "k < length (claims s)" "claims s ! k = Some cl"
      "s' = s\<lparr>store := complete_claim cl True (store s), claims := (claims s)[k := None]\<rparr>"
    unfolding k by cases
  with assms k show ?thesis by (auto simp: settle_nth split: if_splits)
qed

lemma run_approves:
  assumes "run pstep s ls t" and "own_inv s"
    and "c < length (chans (store s)) \<longrightarrow> chans (store s) ! c \<noteq> Sent True"
    and "c < length (chans (store t))" and "chans (store t) ! c = Sent True"
  shows "\<exists>as k bs u cl. ls = as @ LComplete k True # bs \<and> run pstep s as u \<and>
           k < length (claims u) \<and> claims u ! k = Some cl \<and> cl_resolver cl = Some c"
  using assms
proof (induction rule: run.induct)
  case (run_cons s l s' ls t)
  have inv': "own_inv s'" using run_cons own_inv_step by blast
  show ?case
  proof (cases "c < length (chans (store s')) \<and> chans (store s') ! c = Sent True")
    case True
    have len: "c < length (chans (store s))"
    proof (rule ccontr)
      assume n: "\<not> c < length (chans (store s))"
      with True run_cons.hyps(1) obtain rid where "l = LHold rid c"
        using pstep_length by blast
      with True run_cons pstep_hold_open show False by fastforce
    qed
    then obtain k cl where "l = LComplete k True" "k < length (claims s)" "claims s ! k = Some cl"
        "cl_resolver cl = Some c"
      using pstep_approves[OF run_cons.hyps(1) run_cons.prems(1) len] run_cons.prems True by blast
    then show ?thesis
      by (intro exI[of _ "[]"]) (auto intro: run_nil)
  next
    case False
    then obtain as k bs u cl where "ls = as @ LComplete k True # bs" "run pstep s' as u"
        "k < length (claims u)" "claims u ! k = Some cl" "cl_resolver cl = Some c"
      using run_cons.IH[OF inv'] run_cons.prems by blast
    then show ?thesis
      using run_cons.hyps(1) by (intro exI[of _ "l # as"]) (auto intro: run.run_cons)
  qed
qed simp

section \<open>Properties\<close>

text \<open>
  C1. No waiter is orphaned: in every state that the store's callers can reach by any interleaving
  of holds, claims, completions, abandonments, drops, timeouts, cancellations and prunings, a
  channel on which a request still waits has exactly one owner, an entry of the store or a claim
  in flight.
\<close>
theorem pending_waiter_has_one_owner:
  assumes "pinit s0" and "run pstep s0 ls s"
    and "c < length (chans (store s))" and "chans (store s) ! c = Open"
  shows "\<exists>!w. holds s w = Some c"
proof -
  have ok: "own_ok (holds s) (chans (store s))"
    using pend.inv_reach[OF assms(1,2)] by (simp add: own_inv_def)
  with assms(3,4) obtain w where "holds s w = Some c"
    unfolding own_ok_def is_open_def by blast
  with ok show ?thesis by (metis own_ok_inj)
qed

lemma pinit_new: "pinit \<lparr>store = PendingStore_new, claims = []\<rparr>"
  by (simp add: pinit_def)

definition demo_hold :: "PendingStore \<times> nat" where
  "demo_hold = hold 0 ''req-1'' ''tok-1'' ''github'' None None ''agent'' True None PendingStore_new"

lemma run_demo_hold:
  "run pstep \<lparr>store = PendingStore_new, claims = []\<rparr> [LHold ''req-1'' 0]
     \<lparr>store = fst demo_hold, claims = []\<rparr>"
proof -
  let ?s = "\<lparr>store = PendingStore_new, claims = []\<rparr>"
  have "hold 0 ''req-1'' ''tok-1'' ''github'' None None ''agent'' True None (store ?s) = (fst demo_hold, 0)"
    by (simp add: demo_hold_def hold_def PendingStore_new_def Let_def)
  from ps_hold[OF this] show ?thesis by (auto intro: run_cons run_nil)
qed

lemma demo_hold_chans: "chans (fst demo_hold) = [Open]"
  by (simp add: demo_hold_def hold_def PendingStore_new_def Let_def)

theorem pending_waiter_has_one_owner_witness:
  "\<exists>!w. holds \<lparr>store = fst demo_hold, claims = []\<rparr> w = Some 0"
  by (rule pending_waiter_has_one_owner[OF pinit_new run_demo_hold]) (simp_all add: demo_hold_chans)

definition demo_claimed :: "(ResolveError + Claim) \<times> PendingStore" where
  "demo_claimed = claim ''req-1'' (fst demo_hold)"

definition demo_claim :: Claim where
  "demo_claim = \<lparr>cl_id = ''req-1'', cl_approval_token = ''tok-1'', cl_resolver = Some 0, cl_completed = False\<rparr>"

lemmas demo_defs = demo_claimed_def demo_claim_def demo_hold_def hold_def claim_def
  PendingStore_new_def Let_def abort_handle_def

lemma demo_claimed_eq: "claim ''req-1'' (fst demo_hold) = (Inr demo_claim, snd demo_claimed)"
  by (simp add: demo_defs)

lemma run_demo_claim:
  "run pstep \<lparr>store = PendingStore_new, claims = []\<rparr> [LHold ''req-1'' 0, LClaim ''req-1'']
     \<lparr>store = snd demo_claimed, claims = [Some demo_claim]\<rparr>"
proof -
  have "pstep \<lparr>store = fst demo_hold, claims = []\<rparr> (LClaim ''req-1'')
      \<lparr>store = snd demo_claimed, claims = [Some demo_claim]\<rparr>"
    using ps_claim[of "''req-1''" "\<lparr>store = fst demo_hold, claims = []\<rparr>" demo_claim "snd demo_claimed"]
    by (simp add: demo_claimed_eq)
  then show ?thesis
    using run_demo_hold run_append[of pstep _ "[_]" "[_]"] by (auto intro: run_cons run_nil)
qed

definition demo_late :: PendingStore where
  "demo_late = complete_claim demo_claim True (timeout ''req-1'' (snd demo_claimed))"

lemma run_demo_late:
  "run pstep \<lparr>store = PendingStore_new, claims = []\<rparr>
     [LHold ''req-1'' 0, LClaim ''req-1'', LTimeout ''req-1'', LComplete 0 True]
     \<lparr>store = demo_late, claims = [None]\<rparr>"
proof -
  let ?s = "\<lparr>store = snd demo_claimed, claims = [Some demo_claim]\<rparr>"
  let ?u = "\<lparr>store = timeout ''req-1'' (snd demo_claimed), claims = [Some demo_claim]\<rparr>"
  have "pstep ?s (LTimeout ''req-1'') ?u" and "pstep ?u (LComplete 0 True) \<lparr>store = demo_late, claims = [None]\<rparr>"
    using ps_timeout[of ?s "''req-1''"] ps_complete[of 0 ?u demo_claim True]
    by (simp_all add: demo_late_def)
  then have "run pstep ?s [LTimeout ''req-1'', LComplete 0 True] \<lparr>store = demo_late, claims = [None]\<rparr>"
    by (auto intro: run_cons run_nil)
  then show ?thesis
    using run_demo_claim run_append[of pstep _ "[_, _]" "[_, _]"] by auto
qed

lemma demo_late_state:
  "get_state ''req-1'' demo_late = Some TimedOut" "chans demo_late = [Sent True]"
  by (simp_all add: demo_late_def demo_defs complete_claim_def timeout_def send_chan_def
      drop_sender_def set_chan_def get_state_def)

text \<open>
  C2. A decision is final. In every reachable state, (1) a channel that has delivered a decision or
  was closed is never written again, by whatever the callers do afterwards, and (2) an entry that
  is no longer held (approved, denied, timed out, cancelled) keeps this state until it is pruned or
  a new hold replaces it under the same id. The first half rests on the ownership of the senders
  (nobody still holds the sender of a settled channel), the second on the guards on \<open>Held\<close>.
\<close>
theorem pending_decision_is_final:
  assumes "pinit s0" and "run pstep s0 ls s" and "run pstep s ms t"
  shows "(c < length (chans (store s)) \<and> chans (store s) ! c \<noteq> Open \<longrightarrow>
            c < length (chans (store t)) \<and> chans (store t) ! c = chans (store s) ! c) \<and>
         (get_state rid (store s) = Some v \<and> v \<noteq> Held \<and> (\<forall>d. LHold rid d \<notin> set ms) \<longrightarrow>
            get_state rid (store t) = Some v \<or> get_state rid (store t) = None)"
proof -
  have inv: "own_inv s"
    using pend.inv_reach[OF assms(1,2)] .
  show ?thesis
    using run_settled[OF assms(3) inv, of c] run_state_final[OF assms(3) inv, of rid v] by auto
qed

theorem pending_decision_is_final_witness:
  "chans (timeout ''req-1'' (snd (cancel ''req-1'' demo_late))) ! 0 = Sent True \<and>
   get_state ''req-1'' (timeout ''req-1'' (snd (cancel ''req-1'' demo_late))) \<in> {Some TimedOut, None}"
proof -
  let ?s = "\<lparr>store = demo_late, claims = [None]\<rparr>"
  let ?u = "\<lparr>store = snd (cancel ''req-1'' demo_late), claims = [None]\<rparr>"
  let ?t = "\<lparr>store = timeout ''req-1'' (snd (cancel ''req-1'' demo_late)), claims = [None]\<rparr>"
  have "pstep ?s (LCancel ''req-1'') ?u" and "pstep ?u (LTimeout ''req-1'') ?t"
    using ps_cancel[of "''req-1''" ?s] ps_timeout[of ?u "''req-1''"] by (auto simp: prod_eq_iff)
  then have "run pstep ?s [LCancel ''req-1'', LTimeout ''req-1''] ?t"
    by (auto intro: run_cons run_nil)
  from pending_decision_is_final[OF pinit_new run_demo_late this, of 0 "''req-1''" TimedOut]
  show ?thesis by (simp add: demo_late_state)
qed

text \<open>
  C3. A waiter is told "approved" only by a caller that completes, with \<open>approved = true\<close>, a
  claim that holds this very channel: no timeout, cancellation, replacement, abandonment, dropped
  claim or pruning ever approves a request.
\<close>
theorem pending_approval_needs_completion:
  assumes "pinit s0" and "run pstep s0 ls s"
    and "c < length (chans (store s))" and "chans (store s) ! c = Sent True"
  shows "\<exists>as k bs u cl. ls = as @ LComplete k True # bs \<and> run pstep s0 as u \<and>
           k < length (claims u) \<and> claims u ! k = Some cl \<and> cl_resolver cl = Some c"
proof (rule run_approves[OF assms(2) _ _ assms(3,4)])
  show "own_inv s0" using assms(1) by (rule own_inv_pinit)
  show "c < length (chans (store s0)) \<longrightarrow> chans (store s0) ! c \<noteq> Sent True"
    using assms(1) by (simp add: pinit_def PendingStore_new_def)
qed

theorem pending_approval_needs_completion_witness:
  "\<exists>as k bs u cl. [LHold ''req-1'' 0, LClaim ''req-1'', LComplete 0 True] = as @ LComplete k True # bs \<and>
     run pstep \<lparr>store = PendingStore_new, claims = []\<rparr> as u \<and>
     k < length (claims u) \<and> claims u ! k = Some cl \<and> cl_resolver cl = Some 0"
proof (rule pending_approval_needs_completion[OF pinit_new])
  let ?s = "\<lparr>store = snd demo_claimed, claims = [Some demo_claim]\<rparr>"
  let ?t = "\<lparr>store = complete_claim demo_claim True (snd demo_claimed), claims = [None]\<rparr>"
  have "pstep ?s (LComplete 0 True) ?t"
    using ps_complete[of 0 ?s demo_claim True] by simp
  then show "run pstep \<lparr>store = PendingStore_new, claims = []\<rparr>
      [LHold ''req-1'' 0, LClaim ''req-1'', LComplete 0 True] ?t"
    using run_demo_claim run_append[of pstep _ "[_, _]" "[_]"] by (auto intro: run_cons run_nil)
  show "0 < length (chans (store ?t))" and "chans (store ?t) ! 0 = Sent True"
    by (simp_all add: demo_defs complete_claim_def send_chan_def set_chan_def)
qed

text \<open>
  A claim is exclusive and can be handed back: while it is out, a second claim of the same
  request is refused as already being resolved; after \<open>abandon_claim\<close> the request is held again
  and the next claim gets the same token and the same waiter. The timer of the request is not
  restored: the claim aborted it and the entry that is held again has no timeout handle.
\<close>
theorem claim_exclusive_and_retryable:
  assumes "claim rid st = (Inr cl, st1)"
  shows "claim rid st1 = (Inl (AlreadyResolved Held), st1) \<and>
    fst (claim rid (abandon_claim cl st1)) = Inr cl \<and>
    get_state rid (abandon_claim cl st1) = Some Held \<and>
    map_option pe_timeout_handle (map_of (entries (abandon_claim cl st1)) rid) = Some None"
proof -
  obtain e where e: "map_of (entries st) rid = Some e" "pe_state e = Held" "pe_resolver e \<noteq> None"
    "cl = \<lparr>cl_id = rid, cl_approval_token = pe_approval_token e,
           cl_resolver = pe_resolver e, cl_completed = False\<rparr>"
    "st1 = abort_handle (pe_timeout_handle e)
       (st\<lparr>entries := AList.update rid (e\<lparr>pe_timeout_handle := None, pe_resolver := None\<rparr>)
             (entries st)\<rparr>)"
    by (rule claim_Inr[OF assms])
  have m: "map_of (entries st1) rid = Some (e\<lparr>pe_timeout_handle := None, pe_resolver := None\<rparr>)"
    by (simp add: e update_conv')
  have refused: "claim rid st1 = (Inl (AlreadyResolved Held), st1)"
    using m e(2) by (simp add: claim_def)
  have m2: "map_of (entries (abandon_claim cl st1)) rid
      = Some (e\<lparr>pe_timeout_handle := None, pe_resolver := pe_resolver e\<rparr>)"
    using m by (simp add: abandon_claim_def e(4) update_conv')
  then have "fst (claim rid (abandon_claim cl st1)) = Inr cl"
    using e(2-4) by (simp add: claim_def)
  with refused m2 e(2) show ?thesis by (simp add: get_state_def)
qed

theorem claim_exclusive_and_retryable_witness:
  "claim ''req-1'' (snd demo_claimed) = (Inl (AlreadyResolved Held), snd demo_claimed) \<and>
   fst (claim ''req-1'' (abandon_claim demo_claim (snd demo_claimed))) = Inr demo_claim"
  using claim_exclusive_and_retryable[OF demo_claimed_eq] by simp

text \<open>
  The state that pollers read and the decision that the waiter gets can disagree: a timer
  that fires between a claim and its completion (the HTTP MCP route never registers its timer
  with the entry, so the claim cannot abort it) leaves the entry \<open>TimedOut\<close> although the waiter
  is then told that the request was approved.
\<close>
theorem pending_timeout_race:
  "\<exists>ls s. run pstep \<lparr>store = PendingStore_new, claims = []\<rparr> ls s \<and>
     get_state ''req-1'' (store s) = Some TimedOut \<and> chans (store s) ! 0 = Sent True"
  using run_demo_late by (intro exI conjI) (auto simp: demo_late_state)

end
