(* ===== verification/AgentpactClient.thy ===== *)
theory AgentpactClient
  imports Json
begin

text \<open>
  The client of the policy daemon \<^verbatim>\<open>agentpactd\<close>: the wire values of
  \<^verbatim>\<open>core/src/agentpact.rs\<close> and the request builders, response parsers and the retry loop of
  \<^verbatim>\<open>agentpact-client/src/lib.rs\<close>.

  What lies outside the repository is the argument \<open>env\<close>: the daemon behind the socket
  (\<open>ce_send i req\<close> is the outcome of the \<open>i\<close>-th exchange of this call), fresh UUIDs, and the crate
  \<^verbatim>\<open>agentpact-types\<close> (\<open>Mode::from_wire\<close>, deserialisation of \<open>AskContext\<close>, the command-length
  ceiling).
\<close>

section \<open>Wire values\<close>

datatype Mode = Enforce | Log

datatype DenyCode = PolicyDenied | CapExceeded | PolicyError | DaemonUnreachable

datatype McpPermissionDecision =
    Allow Mode
  | Deny DenyCode string "string option"
  | Ask string string bool "string option"

datatype ApprovalResponse = Approved | Denied | Always

fun as_agentpact_response :: "ApprovalResponse \<Rightarrow> string" where
  "as_agentpact_response Approved = ''approved''"
| "as_agentpact_response Denied = ''denied''"
| "as_agentpact_response Always = ''always''"

fun allows_execution :: "ApprovalResponse \<Rightarrow> bool" where
  "allows_execution Approved = True"
| "allows_execution Always = True"
| "allows_execution Denied = False"

record ToolAnnotations =
  ta_read_only_hint :: "bool option"
  ta_destructive_hint :: "bool option"

record McpContext =
  mc_working_dir :: "string option"
  mc_mcp_operation :: "string option"
  mc_annotations :: ToolAnnotations
  mc_declared_agent :: "string option"

definition daemon_unavailable_message :: string where
  "daemon_unavailable_message = ''AgentPact daemon is unreachable.''"

text \<open>The fields of \<open>AskContext\<close> which the renderer reads.\<close>

record AskEffect =
  ef_action :: string
  ef_resource :: "string option"
  ef_note :: "string option"

datatype SandboxBackend = MacosSeatbelt | NoBackend
datatype SandboxNetwork = Full | Off | Allowlisted "string list"

record SandboxFact =
  sb_backend :: SandboxBackend
  sb_writable_roots :: "string list"
  sb_network :: SandboxNetwork
  sb_verified :: bool

datatype RememberInfo = Session string | NotRemembered string

record AskContext =
  ac_effects :: "AskEffect list"
  ac_unresolved :: "string list"
  ac_sandbox :: "SandboxFact option"
  ac_remember :: "RememberInfo option"

record client_env =
  ce_send :: "nat \<Rightarrow> json \<Rightarrow> string + json"
  ce_uuid :: string
  ce_mode_from_wire :: "string \<Rightarrow> Mode option"
  ce_ask_context :: "json \<Rightarrow> AskContext option"
  ce_max_command_length :: nat

section \<open>Rendering of the ask context\<close>

definition bullet :: string where "bullet = map char_of [0xE2, 0x80, 0xA2 :: nat]"
definition em_dash :: string where "em_dash = map char_of [0xE2, 0x80, 0x94 :: nat]"
definition ldquo :: string where "ldquo = map char_of [0xE2, 0x80, 0x9C :: nat]"
definition rdquo :: string where "rdquo = map char_of [0xE2, 0x80, 0x9D :: nat]"
definition rsquo :: string where "rsquo = map char_of [0xE2, 0x80, 0x99 :: nat]"

definition format_sandbox :: "SandboxFact \<Rightarrow> string" where
  "format_sandbox sandbox =
     (let backend = (case sb_backend sandbox of MacosSeatbelt \<Rightarrow> ''macOS Seatbelt''
                                              | NoBackend \<Rightarrow> ''OS jail'');
          status = (if sb_verified sandbox then ''verified''
                    else ''unverified '' @ em_dash @ '' protection not confirmed'');
          line = ''Sandboxed ('' @ backend @ '', '' @ status @ '')'';
          line = (if sb_writable_roots sandbox \<noteq> []
                  then line @ '' '' @ em_dash @ '' writes bounded to ''
                         @ join '', '' (sb_writable_roots sandbox)
                  else line)
      in case sb_network sandbox of
           Full \<Rightarrow> line
         | Off \<Rightarrow> line @ ''; network off''
         | Allowlisted _ \<Rightarrow> line @ ''; network allowlisted'')"

definition format_effect :: "AskEffect \<Rightarrow> string list" where
  "format_effect effect =
     (case ef_note effect of
        None \<Rightarrow> []
      | Some note \<Rightarrow>
          [case ef_resource effect of
             Some resource \<Rightarrow> bullet @ '' '' @ ef_action effect @ '' '' @ resource @ '' '' @ em_dash @ '' '' @ note
           | None \<Rightarrow> bullet @ '' '' @ ef_action effect @ '' '' @ em_dash @ '' '' @ note])"

definition format_ask_context :: "AskContext \<Rightarrow> string" where
  "format_ask_context ctx =
     join [nl]
       (concat (map format_effect (ac_effects ctx))
        @ (if ac_unresolved ctx \<noteq> [] then [bullet @ '' unresolved: '' @ join '', '' (ac_unresolved ctx)] else [])
        @ (case ac_sandbox ctx of None \<Rightarrow> [] | Some sandbox \<Rightarrow> [format_sandbox sandbox])
        @ (case ac_remember ctx of
             Some (Session scope) \<Rightarrow>
               [ldquo @ ''For session'' @ rdquo @ '' remembers '' @ scope @ '' for the rest of the session.'']
           | Some (NotRemembered reason) \<Rightarrow> [''Won'' @ rsquo @ ''t be remembered: '' @ reason]
           | None \<Rightarrow> []))"

section \<open>Request builders\<close>

definition request_id :: "string \<Rightarrow> string \<Rightarrow> string" where
  "request_id id_prefix uuid = id_prefix @ ''-'' @ uuid"

definition build_hook_permission_request ::
  "string \<Rightarrow> string \<Rightarrow> string \<Rightarrow> string \<Rightarrow> string option \<Rightarrow> nat option \<Rightarrow> string option \<Rightarrow>
     nat option \<Rightarrow> nat list option \<Rightarrow> json" where
  "build_hook_permission_request uuid id_prefix action detail working_dir seed_boundary_pid
       declared_agent anchor_pid ppid_chain =
     (let context = set_opt ''working_dir'' JStr working_dir (JObj []);
          request = JObj [(''id'', JStr (request_id id_prefix uuid)),
                          (''method'', JStr ''permission.request''),
                          (''action'', JStr action), (''detail'', JStr detail),
                          (''context'', context)];
          request = set_opt ''seed_boundary_pid'' (JInt \<circ> int) seed_boundary_pid request;
          request = set_opt ''agent'' JStr declared_agent request;
          request = set_opt ''anchor_pid'' (JInt \<circ> int) anchor_pid request
      in set_opt ''ppid_chain'' (\<lambda>chain. JArr (map (JInt \<circ> int) chain))
           (opt_filter (\<lambda>chain. chain \<noteq> []) ppid_chain) request)"

definition build_mcp_permission_request ::
  "string \<Rightarrow> string \<Rightarrow> string \<Rightarrow> string \<Rightarrow> McpContext \<Rightarrow> json" where
  "build_mcp_permission_request uuid id_prefix server_name tool_name mcp_ctx =
     (let context = JObj [(''mcp_server'', JStr server_name)];
          context = set_opt ''working_dir'' JStr (mc_working_dir mcp_ctx) context;
          context = set_opt ''mcp_operation'' JStr (mc_mcp_operation mcp_ctx) context;
          context = set_opt ''read_only_hint'' JBool (ta_read_only_hint (mc_annotations mcp_ctx)) context;
          context = set_opt ''destructive_hint'' JBool (ta_destructive_hint (mc_annotations mcp_ctx)) context;
          request = JObj [(''id'', JStr (request_id id_prefix uuid)),
                          (''method'', JStr ''permission.request''),
                          (''action'', JStr ''call''), (''detail'', JStr tool_name),
                          (''context'', context)]
      in set_opt ''agent'' JStr (mc_declared_agent mcp_ctx) request)"

definition build_permission_respond_request :: "string \<Rightarrow> string \<Rightarrow> string \<Rightarrow> ApprovalResponse \<Rightarrow> json" where
  "build_permission_respond_request uuid id_prefix approval_token response =
     JObj [(''id'', JStr (request_id id_prefix uuid)),
           (''method'', JStr ''permission.respond''),
           (''approval_token'', JStr approval_token),
           (''response'', JStr (as_agentpact_response response))]"

section \<open>Response parsers\<close>

definition parse_ask_context_detail :: "client_env \<Rightarrow> json \<Rightarrow> string option" where
  "parse_ask_context_detail env response =
     Option.bind (get ''ask_context'' response)
       (\<lambda>v. map_option format_ask_context (ce_ask_context env v))"

definition parse_deny_with_hint :: "DenyCode \<Rightarrow> json \<Rightarrow> McpPermissionDecision" where
  "parse_deny_with_hint code response =
     Deny code (unwrap_or (get_str ''error'' response) ''unknown error'')
       (get_str ''recovery_hint'' response)"

definition parse_mcp_permission_response :: "client_env \<Rightarrow> json \<Rightarrow> McpPermissionDecision" where
  "parse_mcp_permission_response env response =
     (case get_str ''code'' response of
        None \<Rightarrow> Deny PolicyError ''invalid response from agentpactd'' None
      | Some code \<Rightarrow>
          if code = ''PACT_OK'' then
            Allow (unwrap_or (Option.bind (get_str ''mode'' response) (ce_mode_from_wire env)) Enforce)
          else if code = ''PACT_DENIED'' then
            Deny PolicyDenied
              (unwrap_or (Option.bind (opt_or (get ''reason'' response) (get ''error'' response)) as_str)
                 ''denied by policy'') None
          else if code = ''PACT_ASK'' then
            (let approval_id = unwrap_or (get_str ''approval_id'' response) [];
                 approval_token = unwrap_or (get_str ''approval_token'' response) []
             in if approval_id = [] \<or> approval_token = []
                then Deny PolicyError ''invalid approval response from agentpactd'' None
                else Ask approval_id approval_token
                       (unwrap_or (get_bool ''allow_always'' response) False)
                       (parse_ask_context_detail env response))
          else if code = ''PACT_POLICY_ERROR'' \<or> code = ''PACT_PROTOCOL_ERROR'' then
            parse_deny_with_hint PolicyError response
          else if code = ''PACT_CAP_EXCEEDED'' then parse_deny_with_hint CapExceeded response
          else Deny PolicyError ''invalid response from agentpactd'' None)"

text \<open>\<open>collect\<close> into an \<open>Option<Vec<_>>\<close>: one element that is not a string makes the whole \<open>None\<close>.\<close>

fun collect_opt :: "'a option list \<Rightarrow> 'a list option" where
  "collect_opt [] = Some []"
| "collect_opt (m # ms) =
     (case m of None \<Rightarrow> None | Some x \<Rightarrow> map_option (Cons x) (collect_opt ms))"

definition parse_response_segments :: "json \<Rightarrow> string list option" where
  "parse_response_segments response =
     Option.bind (Option.bind (get ''segments'' response) as_array) (\<lambda>vs. collect_opt (map as_str vs))"

record CommandCheck =
  cc_decision :: string
  cc_matched_rule :: "string option"
  cc_reason :: "string option"

definition parse_command_check :: "json \<Rightarrow> CommandCheck" where
  "parse_command_check response =
     \<lparr>cc_decision = unwrap_or (get_str ''decision'' response) ''unknown'',
      cc_matched_rule = opt_or (get_str ''matched_rule'' response) (get_str ''rule_id'' response),
      cc_reason = opt_or (get_str ''reason'' response) (get_str ''error'' response)\<rparr>"

definition PROTOCOL_VERSION :: nat where
  "PROTOCOL_VERSION = 1"

definition check_daemon_protocol_version :: "json \<Rightarrow> string + unit" where
  "check_daemon_protocol_version state =
     (case get_u64 ''protocol_version'' state of
        None \<Rightarrow> Inr ()
      | Some version \<Rightarrow>
          if version = PROTOCOL_VERSION then Inr ()
          else if version > PROTOCOL_VERSION then
            Inl (''agentpactd protocol version '' @ display_nat version
                 @ '' is newer than kyris expects ('' @ display_nat PROTOCOL_VERSION
                 @ ''). Upgrade kyris: brew upgrade kyris'')
          else
            Inl (''agentpactd protocol version '' @ display_nat version
                 @ '' is older than kyris expects ('' @ display_nat PROTOCOL_VERSION
                 @ ''). Upgrade agentpact: brew upgrade agentpact''))"

definition trim_socket_message :: "string \<Rightarrow> string" where
  "trim_socket_message bytes = rev (dropWhile (\<lambda>b. b = nl \<or> b = cr) (rev bytes))"

section \<open>Exchanges with the daemon\<close>

text \<open>\<open>drive_retry\<close>: the loop over the back-offs. \<open>attempt i\<close> is the outcome of the \<open>i\<close>-th call of
  the closure; the second component collects the back-offs passed to \<open>recover\<close>, in order.\<close>

fun drive_retry_from :: "nat \<Rightarrow> nat list \<Rightarrow> (nat \<Rightarrow> 'e + 'r) \<Rightarrow> ('e + 'r) \<times> nat list" where
  "drive_retry_from i [] attempt = (attempt i, [])"
| "drive_retry_from i (backoff_ms # backoffs) attempt =
     (case attempt i of
        Inr response \<Rightarrow> (Inr response, [])
      | Inl error \<Rightarrow>
          (let (r, rec) = drive_retry_from (i + 1) backoffs attempt in (r, backoff_ms # rec)))"

definition drive_retry :: "nat list \<Rightarrow> (nat \<Rightarrow> 'e + 'r) \<Rightarrow> ('e + 'r) \<times> nat list" where
  "drive_retry backoffs attempt = drive_retry_from 0 backoffs attempt"

definition RETRY_BACKOFFS :: "nat list" where
  "RETRY_BACKOFFS = [50, 100, 250]"

definition send_daemon_request_with_retry :: "client_env \<Rightarrow> json \<Rightarrow> string + json" where
  "send_daemon_request_with_retry env request =
     fst (drive_retry RETRY_BACKOFFS (\<lambda>i. ce_send env i request))"

definition oversized_execute_deny :: "client_env \<Rightarrow> string \<Rightarrow> string \<Rightarrow> McpPermissionDecision option" where
  "oversized_execute_deny env action detail =
     (if action = ''execute'' \<and> length detail > ce_max_command_length env
      then Some (Deny PolicyDenied
             (''command exceeds the '' @ display_nat (ce_max_command_length env)
              @ ''-byte governance ceiling (length '' @ display_nat (length detail)
              @ ''); split it into smaller commands'') None)
      else None)"

definition request_mcp_tool_permission_with_id ::
  "client_env \<Rightarrow> string \<Rightarrow> string \<Rightarrow> string \<Rightarrow> McpContext \<Rightarrow> string + McpPermissionDecision \<times> string" where
  "request_mcp_tool_permission_with_id env id_prefix server_name tool_name mcp_ctx =
     (let request = build_mcp_permission_request (ce_uuid env) id_prefix server_name tool_name mcp_ctx;
          rid = unwrap_or (get_str ''id'' request) []
      in map_sum (\<lambda>e. e) (\<lambda>response. (parse_mcp_permission_response env response, rid))
           (send_daemon_request_with_retry env request))"

definition request_mcp_tool_permission ::
  "client_env \<Rightarrow> string \<Rightarrow> string \<Rightarrow> string \<Rightarrow> McpContext \<Rightarrow> string + McpPermissionDecision" where
  "request_mcp_tool_permission env id_prefix server_name tool_name mcp_ctx =
     map_sum (\<lambda>e. e) fst (request_mcp_tool_permission_with_id env id_prefix server_name tool_name mcp_ctx)"

definition request_hook_permission ::
  "client_env \<Rightarrow> string \<Rightarrow> string \<Rightarrow> string \<Rightarrow> string option \<Rightarrow> nat option \<Rightarrow> string option \<Rightarrow> nat option \<Rightarrow>
     nat list option \<Rightarrow> (string \<times> string) option \<Rightarrow> nat option \<Rightarrow>
     string + McpPermissionDecision \<times> string list option" where
  "request_hook_permission env id_prefix action detail working_dir seed_boundary_pid declared_agent
       anchor_pid ppid_chain command_group approval_ttl_secs =
     (case oversized_execute_deny env action detail of
        Some deny \<Rightarrow> Inr (deny, None)
      | None \<Rightarrow>
          (let request = build_hook_permission_request (ce_uuid env) id_prefix action detail working_dir
                           seed_boundary_pid declared_agent anchor_pid ppid_chain;
               request = (case command_group of
                            None \<Rightarrow> request
                          | Some (grp, original) \<Rightarrow>
                              set_key ''original_command'' (JStr original)
                                (set_key ''command_group'' (JStr grp) request));
               request = set_opt ''approval_ttl_secs'' (JInt \<circ> int) approval_ttl_secs request
           in map_sum (\<lambda>e. e)
                (\<lambda>response. (parse_mcp_permission_response env response, parse_response_segments response))
                (send_daemon_request_with_retry env request)))"

definition new_command_group :: "client_env \<Rightarrow> string" where
  "new_command_group env = request_id ''cg'' (ce_uuid env)"

definition build_command_commit :: "client_env \<Rightarrow> string \<Rightarrow> json" where
  "build_command_commit env command_group =
     JObj [(''id'', JStr (request_id ''commit'' (ce_uuid env))),
           (''method'', JStr ''command.commit''),
           (''command_group'', JStr command_group)]"

definition request_hook_permission_preview ::
  "client_env \<Rightarrow> string \<Rightarrow> string \<Rightarrow> string \<Rightarrow> string option \<Rightarrow> nat option \<Rightarrow> string option \<Rightarrow>
     string + McpPermissionDecision \<times> string list option" where
  "request_hook_permission_preview env id_prefix action detail working_dir seed_boundary_pid declared_agent =
     (case oversized_execute_deny env action detail of
        Some deny \<Rightarrow> Inr (deny, None)
      | None \<Rightarrow>
          (let request = set_key ''preview'' (JBool True)
                 (build_hook_permission_request (ce_uuid env) id_prefix action detail working_dir
                    seed_boundary_pid declared_agent None None)
           in map_sum (\<lambda>e. e)
                (\<lambda>response.
                   (if get_str ''code'' response = Some ''PACT_ASK''
                    then Ask [] [] (unwrap_or (get_bool ''allow_always'' response) False) None
                    else parse_mcp_permission_response env response,
                    parse_response_segments response))
                (send_daemon_request_with_retry env request)))"

definition check_command :: "client_env \<Rightarrow> string \<Rightarrow> string option \<Rightarrow> string + CommandCheck" where
  "check_command env command working_dir =
     map_sum (\<lambda>e. e) parse_command_check
       (ce_send env 0 (set_key ''preview'' (JBool True)
          (build_hook_permission_request (ce_uuid env) ''kyris-check'' ''execute'' command working_dir
             None None None None)))"

definition send_trace_attach :: "client_env \<Rightarrow> string \<Rightarrow> string \<Rightarrow> string + string option" where
  "send_trace_attach env trace_token trace_id =
     (case ce_send env 0 (JObj [(''id'', JStr (request_id ''kyrisd-trace'' (ce_uuid env))),
                               (''method'', JStr ''trace.attach''),
                               (''trace_token'', JStr trace_token), (''trace_id'', JStr trace_id)]) of
        Inl e \<Rightarrow> Inl e
      | Inr response \<Rightarrow>
          (case get_str ''code'' response of
             Some code \<Rightarrow>
               if code = ''PACT_OK''
               then Inr (opt_filter (\<lambda>s. s \<noteq> []) (get_str ''working_dir'' response))
               else Inl (''trace.attach rejected: '' @ code @ '': ''
                         @ unwrap_or (get_str ''error'' response) ''unknown'')
           | None \<Rightarrow> Inl ''trace.attach returned malformed response''))"

definition resolve_agent :: "client_env \<Rightarrow> nat \<Rightarrow> string option" where
  "resolve_agent env pid =
     (case ce_send env 0 (JObj [(''id'', JStr (request_id ''kyrisd-attr'' (ce_uuid env))),
                               (''method'', JStr ''attribution.resolve''), (''pid'', JInt (int pid))]) of
        Inl e \<Rightarrow> None
      | Inr response \<Rightarrow>
          if get_str ''code'' response \<noteq> Some ''PACT_OK'' then None
          else opt_filter (\<lambda>s. s \<noteq> [] \<and> s \<noteq> ''unknown'') (get_str ''agent'' response))"

definition register_jailed_session :: "client_env \<Rightarrow> string \<Rightarrow> json \<Rightarrow> bool" where
  "register_jailed_session env profile_summary capability =
     (case ce_send env 0 (JObj [(''id'', JStr (request_id ''kyris-exec'' (ce_uuid env))),
                               (''method'', JStr ''session.register''),
                               (''profile_summary'', JStr profile_summary), (''capability'', capability)]) of
        Inr response \<Rightarrow> get_str ''code'' response = Some ''PACT_OK''
      | Inl e \<Rightarrow> False)"

definition send_permission_response ::
  "client_env \<Rightarrow> string \<Rightarrow> string \<Rightarrow> ApprovalResponse \<Rightarrow> string + string option" where
  "send_permission_response env id_prefix approval_token response =
     (case ce_send env 0 (build_permission_respond_request (ce_uuid env) id_prefix approval_token response) of
        Inl e \<Rightarrow> Inl e
      | Inr response_value \<Rightarrow>
          (let warning = opt_filter (\<lambda>reason. reason \<noteq> []) (get_str ''reason'' response_value)
           in case parse_mcp_permission_response env response_value of
                Allow _ \<Rightarrow> Inr warning
              | Deny _ reason _ \<Rightarrow>
                  if response = Denied then Inr warning
                  else Inl (''agentpactd rejected approval response: '' @ reason)
              | Ask _ _ _ _ \<Rightarrow> Inl ''agentpactd returned an unexpected ask response''))"

definition probe_daemon_health :: "client_env \<Rightarrow> bool" where
  "probe_daemon_health env =
     (case ce_send env 0 (JObj [(''id'', JStr ''kyrisd-health''), (''method'', JStr ''daemon.health'')]) of
        Inr response \<Rightarrow> get_str ''code'' response = Some ''PACT_OK''
      | Inl e \<Rightarrow> False)"

section \<open>Lemmas\<close>

lemmas get_defs = get_str_def get_bool_def get_u64_def

lemma parse_AllowD:
  "parse_mcp_permission_response env r = Allow m \<Longrightarrow>
     get_str ''code'' r = Some ''PACT_OK'' \<and>
     m = unwrap_or (Option.bind (get_str ''mode'' r) (ce_mode_from_wire env)) Enforce"
  by (auto simp: parse_mcp_permission_response_def parse_deny_with_hint_def Let_def
        split: option.splits if_splits)

lemma parse_AskD:
  "parse_mcp_permission_response env r = Ask i t aa d \<Longrightarrow>
     get_str ''code'' r = Some ''PACT_ASK'' \<and> i \<noteq> [] \<and> t \<noteq> [] \<and>
     get_str ''approval_id'' r = Some i \<and> get_str ''approval_token'' r = Some t \<and>
     aa = unwrap_or (get_bool ''allow_always'' r) False"
  by (auto simp: parse_mcp_permission_response_def parse_deny_with_hint_def Let_def unwrap_or_def
        split: option.splits if_splits)

lemma parse_DenyD:
  "parse_mcp_permission_response env r = Deny c s h \<Longrightarrow> get_str ''code'' r \<noteq> Some ''PACT_OK''"
  by (auto simp: parse_mcp_permission_response_def)

lemma drive_retry_from_eq:
  "drive_retry_from i bs a =
     (let k = length (takeWhile (\<lambda>j. isl (a j)) [i ..< i + length bs]) in (a (i + k), take k bs))"
proof (induction bs arbitrary: i)
  case (Cons b bs)
  have "[i ..< i + length (b # bs)] = i # [Suc i ..< Suc i + length bs]"
    using upt_conv_Cons[of i "i + length (b # bs)"] by (simp del: upt_Suc)
  with Cons show ?case
    by (cases "a i") (simp_all add: Let_def)
qed simp

lemma send_permission_response_InrD:
  assumes "send_permission_response env p t r = Inr w" and "allows_execution r"
  shows "\<exists>v. ce_send env 0 (build_permission_respond_request (ce_uuid env) p t r) = Inr v \<and>
             get_str ''code'' v = Some ''PACT_OK''"
proof (cases "ce_send env 0 (build_permission_respond_request (ce_uuid env) p t r)")
  case (Inr v)
  with assms obtain m where "parse_mcp_permission_response env v = Allow m"
    by (cases "parse_mcp_permission_response env v")
      (auto simp: send_permission_response_def Let_def split: if_splits)
  with Inr show ?thesis by (auto dest: parse_AllowD)
qed (use assms in \<open>simp add: send_permission_response_def\<close>)

section \<open>Properties\<close>

text \<open>
  C6. The parser of permission responses fails closed: \<open>Allow\<close> comes only from the code
  \<open>PACT_OK\<close>, and its mode is \<open>Log\<close> only if the daemon said so; \<open>Ask\<close> comes only from \<open>PACT_ASK\<close>
  with a non-empty approval id and token; everything else, a malformed response included, is a denial.
\<close>
theorem permission_response_fails_closed:
  "case parse_mcp_permission_response env response of
     Allow m \<Rightarrow> get_str ''code'' response = Some ''PACT_OK'' \<and>
       (m = Log) = (Option.bind (get_str ''mode'' response) (ce_mode_from_wire env) = Some Log)
   | Ask approval_id approval_token allow_always detail \<Rightarrow>
       get_str ''code'' response = Some ''PACT_ASK'' \<and>
       get_str ''approval_id'' response = Some approval_id \<and> approval_id \<noteq> [] \<and>
       get_str ''approval_token'' response = Some approval_token \<and> approval_token \<noteq> [] \<and>
       allow_always = (get_bool ''allow_always'' response = Some True)
   | Deny code reason hint \<Rightarrow> get_str ''code'' response \<noteq> Some ''PACT_OK''"
proof (cases "parse_mcp_permission_response env response")
  case (Allow m)
  then show ?thesis by (auto dest!: parse_AllowD simp: unwrap_or_def split: option.splits)
next
  case (Ask i t aa d)
  then show ?thesis by (auto dest!: parse_AskD simp: unwrap_or_def split: option.splits)
next
  case (Deny c s h)
  then show ?thesis by (auto dest!: parse_DenyD)
qed

text \<open>
  The retry loop ends after at most one attempt more than there are back-offs, returns the
  first success or the last error, and recovers once, in order, for each failed attempt before it.
\<close>
theorem drive_retry_first_success:
  "drive_retry backoffs attempt =
     (let k = length (takeWhile (\<lambda>i. isl (attempt i)) [0 ..< length backoffs])
      in (attempt k, take k backoffs))"
  by (simp add: drive_retry_def drive_retry_from_eq)

text \<open>
  A command longer than the governance ceiling is denied by policy whatever the socket
  does: neither a dead daemon nor a permissive answer can turn it into an error or an allow.
\<close>
theorem oversized_command_denied_without_daemon:
  assumes "ce_max_command_length env < length detail"
  shows "\<exists>msg. \<forall>send.
     request_hook_permission (env\<lparr>ce_send := send\<rparr>) p ''execute'' detail wd seed da anc ppid grp ttl
       = Inr (Deny PolicyDenied msg None, None) \<and>
     request_hook_permission_preview (env\<lparr>ce_send := send\<rparr>) p ''execute'' detail wd seed da
       = Inr (Deny PolicyDenied msg None, None)"
  using assms
  by (simp add: request_hook_permission_def request_hook_permission_preview_def oversized_execute_deny_def)

definition demo_env :: client_env where
  "demo_env = \<lparr>ce_send = (\<lambda>i r. Inr (JObj [(''code'', JStr ''PACT_OK'')])), ce_uuid = ''u'',
     ce_mode_from_wire = (\<lambda>s. if s = ''log'' then Some Log else if s = ''enforce'' then Some Enforce else None),
     ce_ask_context = (\<lambda>v. None), ce_max_command_length = 3\<rparr>"

theorem oversized_command_denied_without_daemon_witness:
  "\<exists>msg. \<forall>send.
     request_hook_permission (demo_env\<lparr>ce_send := send\<rparr>) ''kyris'' ''execute'' ''rm -rf'' None None None None None None None
       = Inr (Deny PolicyDenied msg None, None) \<and>
     request_hook_permission_preview (demo_env\<lparr>ce_send := send\<rparr>) ''kyris'' ''execute'' ''rm -rf'' None None None
       = Inr (Deny PolicyDenied msg None, None)"
  by (rule oversized_command_denied_without_daemon) (simp add: demo_env_def)

text \<open>
  An approval counts as delivered only if the daemon accepted it: when
  \<open>send_permission_response\<close> returns \<open>Ok\<close> for an approving answer, the daemon replied to exactly
  this token and answer with \<open>PACT_OK\<close>.
\<close>
theorem approval_delivery_needs_pact_ok:
  assumes "send_permission_response env p token response = Inr warning"
    and "allows_execution response"
  shows "\<exists>reply. ce_send env 0 (JObj [(''id'', JStr (request_id p (ce_uuid env))),
                  (''method'', JStr ''permission.respond''), (''approval_token'', JStr token),
                  (''response'', JStr (as_agentpact_response response))]) = Inr reply \<and>
           get_str ''code'' reply = Some ''PACT_OK''"
  using send_permission_response_InrD[OF assms] by (simp add: build_permission_respond_request_def)

theorem approval_delivery_needs_pact_ok_witness:
  "\<exists>reply. ce_send demo_env 0 (JObj [(''id'', JStr (request_id ''kyris'' (ce_uuid demo_env))),
                  (''method'', JStr ''permission.respond''), (''approval_token'', JStr ''tok''),
                  (''response'', JStr (as_agentpact_response Always))]) = Inr reply \<and>
           get_str ''code'' reply = Some ''PACT_OK''"
  by (rule approval_delivery_needs_pact_ok[where warning = None])
    (simp_all add: send_permission_response_def demo_env_def parse_mcp_permission_response_def get_defs)

end
