(* ===== verification/PendingRoutes.thy ===== *)
theory PendingRoutes
  imports Pending AgentpactClient
begin

text \<open>
  The HTTP routes of the pending store, \<^verbatim>\<open>daemon/src/server/pending_routes.rs\<close>, and the
  hold-and-poll client of \<^verbatim>\<open>core/src/pending.rs\<close> which the hooks and the MCP wrapper use.

  A handler that awaits agentpactd gives other tasks the store in between. The whole handler is
  one definition with the argument \<open>re_others\<close>, what those tasks do to the store while it is
  suspended; everything before and after the await is the handler's own. The logs which it
  appends are part of its result.
\<close>

section \<open>Data of the routes\<close>

datatype ResolveDecision = RApproved | RDenied | RAlways

datatype ApprovalOutcome = Yes | No | OAlways | CouldNotShow

text \<open>HTTP status codes: 200, 400, 404, 409, 410 and 502.\<close>

datatype StatusCode = OK | BAD_REQUEST | NOT_FOUND | CONFLICT | GONE | BAD_GATEWAY

record HoldRequest =
  hr_id :: string
  hr_approval_token :: string
  hr_server :: string
  hr_tool :: "string option"
  hr_code :: "string option"
  hr_agent :: string
  hr_allow_always :: bool
  hr_detail :: "string option"
  hr_ttl_seconds :: "nat option"

record PromptRecord =
  pr_pending_id :: string
  pr_surface :: string
  pr_event :: string
  pr_server :: string
  pr_tool :: "string option"
  pr_command :: "string option"
  pr_agent :: string
  pr_allow_always :: bool
  pr_outcome :: "string option"

record ApprovalRecord =
  ar_ts :: string
  ar_pending_id :: string
  ar_server :: string
  ar_command :: "string option"
  ar_agent :: string
  ar_decision :: string

text \<open>What a handler meets from outside: the policy daemon, a failure of the blocking task, the
  clock, the configured time-out, the handle of the timer task it spawns, and the other tasks.\<close>

record route_env =
  re_client :: client_env
  re_join_error :: "string option"
  re_now :: nat
  re_ts :: string
  re_pending_timeout_seconds :: nat
  re_timer :: nat
  re_others :: "PendingStore \<Rightarrow> PendingStore"

record route_logs =
  rl_prompts :: "PromptRecord list"
  rl_approvals :: "ApprovalRecord list"

definition no_logs :: route_logs where
  "no_logs = \<lparr>rl_prompts = [], rl_approvals = []\<rparr>"

section \<open>Decisions\<close>

fun as_approval_response :: "ResolveDecision \<Rightarrow> ApprovalResponse" where
  "as_approval_response RApproved = ApprovalResponse.Approved"
| "as_approval_response RDenied = ApprovalResponse.Denied"
| "as_approval_response RAlways = ApprovalResponse.Always"

fun decision_allows_execution :: "ResolveDecision \<Rightarrow> bool" where
  "decision_allows_execution RApproved = True"
| "decision_allows_execution RAlways = True"
| "decision_allows_execution RDenied = False"

fun decision_label :: "ResolveDecision \<Rightarrow> string" where
  "decision_label RApproved = ''approved''"
| "decision_label RAlways = ''always''"
| "decision_label RDenied = ''denied''"

fun decision_for_approval_outcome :: "ApprovalOutcome \<Rightarrow> ResolveDecision option" where
  "decision_for_approval_outcome Yes = Some RApproved"
| "decision_for_approval_outcome OAlways = Some RAlways"
| "decision_for_approval_outcome No = Some RDenied"
| "decision_for_approval_outcome CouldNotShow = None"

definition parse_resolve_decision :: "string \<Rightarrow> ResolveDecision option" where
  "parse_resolve_decision value =
     (if value = ''approved'' then Some RApproved
      else if value = ''denied'' then Some RDenied
      else if value = ''always'' then Some RAlways
      else None)"

fun outcome_label :: "ApprovalOutcome \<Rightarrow> string" where
  "outcome_label Yes = ''approved''"
| "outcome_label No = ''denied''"
| "outcome_label OAlways = ''always''"
| "outcome_label CouldNotShow = ''could_not_show''"

text \<open>The error text, which the routes only log, is rewritten by \<open>str::replace\<close>.\<close>

definition send_resolution :: "route_env \<Rightarrow> string \<Rightarrow> ResolveDecision \<Rightarrow> string + unit" where
  "send_resolution env approval_token decision =
     (case re_join_error env of
        Some e \<Rightarrow> Inl (''permission.respond task failed: '' @ e)
      | None \<Rightarrow>
          map_sum (str_replace ''approval response'' ''resolution'') (\<lambda>_. ())
            (send_permission_response (re_client env) ''kyrisd-resolve'' approval_token
               (as_approval_response decision)))"

section \<open>Handlers\<close>

definition prompt_record ::
  "string \<Rightarrow> string \<Rightarrow> string \<Rightarrow> string \<Rightarrow> string option \<Rightarrow> string option \<Rightarrow> string \<Rightarrow> bool \<Rightarrow>
     string option \<Rightarrow> PromptRecord" where
  "prompt_record rid surface event server tool command agent allow_always outcome =
     \<lparr>pr_pending_id = rid, pr_surface = surface, pr_event = event, pr_server = server,
      pr_tool = tool, pr_command = command, pr_agent = agent, pr_allow_always = allow_always,
      pr_outcome = outcome\<rparr>"

definition list_pending :: "nat \<Rightarrow> PendingStore \<Rightarrow> PendingInfo list" where
  "list_pending now st = list_held now st"

definition resolve_pending ::
  "route_env \<Rightarrow> string \<Rightarrow> string \<Rightarrow> PendingStore \<Rightarrow> StatusCode \<times> route_logs \<times> PendingStore" where
  "resolve_pending env rid body_decision st =
     (case parse_resolve_decision body_decision of
        None \<Rightarrow> (BAD_REQUEST, no_logs, st)
      | Some decision \<Rightarrow>
          (let pending_info = List.find (\<lambda>p. pi_id p = rid) (list_info (re_now env) st)
           in case claim rid st of
                (Inl NotFound, st1) \<Rightarrow> (GONE, no_logs, st1)
              | (Inl (NoLongerResolvable _), st1) \<Rightarrow> (GONE, no_logs, st1)
              | (Inl (AlreadyResolved _), st1) \<Rightarrow> (CONFLICT, no_logs, st1)
              | (Inr cl, st1) \<Rightarrow>
                  (let st2 = re_others env st1
                   in case send_resolution env (cl_approval_token cl) decision of
                        Inl error \<Rightarrow> (BAD_GATEWAY, no_logs, abandon_claim cl st2)
                      | Inr _ \<Rightarrow>
                          (OK,
                           (case pending_info of
                              None \<Rightarrow> no_logs
                            | Some info \<Rightarrow>
                                (let command = opt_or (pi_code info) (pi_tool info)
                                 in \<lparr>rl_prompts =
                                       [prompt_record rid ''api'' ''resolved'' (pi_server info)
                                          (pi_tool info) command (pi_agent info)
                                          (pi_allow_always info) (Some (decision_label decision))],
                                     rl_approvals =
                                       [\<lparr>ar_ts = re_ts env, ar_pending_id = rid,
                                         ar_server = pi_server info, ar_command = command,
                                         ar_agent = pi_agent info,
                                         ar_decision = decision_label decision\<rparr>]\<rparr>)),
                           complete_claim cl (decision_allows_execution decision) st2))))"

text \<open>The synchronous part of \<open>hold_pending\<close>: the result has the timer task it spawned, as the pair
  of the seconds it sleeps and the id it then passes to \<open>timeout\<close>.\<close>

definition hold_pending ::
  "route_env \<Rightarrow> HoldRequest \<Rightarrow> PendingStore \<Rightarrow>
     StatusCode \<times> route_logs \<times> (nat \<times> string) \<times> PendingStore" where
  "hold_pending env body st =
     (let pending_timeout = unwrap_or (hr_ttl_seconds body) (re_pending_timeout_seconds env);
          (st1, rx) = hold (re_now env) (hr_id body) (hr_approval_token body) (hr_server body)
                        (hr_tool body) (hr_code body) (hr_agent body) (hr_allow_always body)
                        (hr_detail body) st;
          command = opt_or (hr_code body) (hr_tool body);
          log = (\<lambda>surface event. prompt_record (hr_id body) surface event (hr_server body)
                   (hr_tool body) command (hr_agent body) (hr_allow_always body) None)
      in (OK, no_logs\<lparr>rl_prompts := [log ''api'' ''held'', log ''tray'' ''dispatch'']\<rparr>,
          (pending_timeout, hr_id body),
          set_timeout_handle (hr_id body) (re_timer env) st1))"

definition dialog_body_line :: "HoldRequest \<Rightarrow> string" where
  "dialog_body_line body =
     (let tool_label = unwrap_or (hr_tool body) ''unknown tool''
      in case opt_filter (\<lambda>d. d \<noteq> []) (hr_detail body) of
           Some detail \<Rightarrow> detail
         | None \<Rightarrow> if hr_code body \<noteq> None then []
                   else ''Agent wants to run '' @ tool_label @ ''. Allow?'')"

text \<open>The task which \<open>hold_pending\<close> spawns to show the dialog, from the dialog's outcome on.\<close>

definition dialog_task ::
  "route_env \<Rightarrow> HoldRequest \<Rightarrow> ApprovalOutcome \<Rightarrow> PendingStore \<Rightarrow> route_logs \<times> PendingStore" where
  "dialog_task env body outcome st =
     (let command = opt_or (hr_code body) (hr_tool body);
          log = (\<lambda>event. prompt_record (hr_id body) ''tray'' event (hr_server body)
                   (hr_tool body) command (hr_agent body) (hr_allow_always body)
                   (Some (outcome_label outcome)))
      in case decision_for_approval_outcome outcome of
           None \<Rightarrow> (no_logs\<lparr>rl_prompts := [log ''not_shown'']\<rparr>, st)
         | Some decision \<Rightarrow>
             (\<lparr>rl_prompts = [log ''resolved''],
               rl_approvals = [\<lparr>ar_ts = re_ts env, ar_pending_id = hr_id body,
                                ar_server = hr_server body, ar_command = command,
                                ar_agent = hr_agent body, ar_decision = decision_label decision\<rparr>]\<rparr>,
              (case claim (hr_id body) st of
                 (Inl _, st1) \<Rightarrow> st1
               | (Inr cl, st1) \<Rightarrow>
                   (let st2 = re_others env st1
                    in case send_resolution env (cl_approval_token cl) decision of
                         Inl e \<Rightarrow> abandon_claim cl st2
                       | Inr _ \<Rightarrow> complete_claim cl (decision_allows_execution decision) st2))))"

definition cancel_pending ::
  "route_env \<Rightarrow> string \<Rightarrow> PendingStore \<Rightarrow> StatusCode \<times> (string \<times> ResolveDecision) option \<times> PendingStore" where
  "cancel_pending env rid st =
     (case cancel rid st of
        (Some token, st1) \<Rightarrow> (OK, Some (token, RDenied), st1)
      | (None, st1) \<Rightarrow> (OK, None, st1))"

fun state_label :: "PendingState \<Rightarrow> string" where
  "state_label PendingState.Held = ''held''"
| "state_label PendingState.Approved = ''approved''"
| "state_label PendingState.Denied = ''denied''"
| "state_label PendingState.TimedOut = ''timed_out''"
| "state_label PendingState.Cancelled = ''cancelled''"

definition pending_status :: "string \<Rightarrow> PendingStore \<Rightarrow> StatusCode \<times> json" where
  "pending_status rid st =
     (case get_state rid st of
        Some s \<Rightarrow> (OK, JObj [(''state'', JStr (state_label s))])
      | None \<Rightarrow> (NOT_FOUND, JObj [(''error'', JStr ''not found'')]))"

section \<open>Hold and poll\<close>

datatype Resolution = Approved | Denied | Unreachable | Failed string

record PendingApproval =
  pa_approval_id :: string
  pa_approval_token :: string
  pa_server :: string
  pa_tool :: string
  pa_code :: "string option"
  pa_agent :: string
  pa_allow_always :: bool
  pa_detail :: "string option"

text \<open>The daemon as the poller sees it, times in milliseconds: the answer to the hold, the clock
  when the deadline is computed, and for round \<open>i\<close> the clock after its sleep and the answer to
  the status request (\<open>None\<close> when the request failed or the body is not JSON). The client has no
  time limit on a request, so that an exchange may also never end: \<open>pl_hold_ends\<close>,
  \<open>pl_status_ends\<close> and \<open>pl_cancel_ends\<close> say whether the hold, the status request of a round and the
  cancel request come back at all, with an answer or with an error.\<close>

record poll_env =
  pl_hold :: "json \<Rightarrow> string + nat"
  pl_start :: nat
  pl_clock :: "nat \<Rightarrow> nat"
  pl_status :: "nat \<Rightarrow> json option"
  pl_hold_ends :: bool
  pl_status_ends :: "nat \<Rightarrow> bool"
  pl_cancel_ends :: bool

definition POLL_INTERVAL :: nat where "POLL_INTERVAL = 1000"
definition NATIVE_HOOK_POLL_TIMEOUT :: nat where "NATIVE_HOOK_POLL_TIMEOUT = 590000"
definition POLL_TIMEOUT :: nat where "POLL_TIMEOUT = NATIVE_HOOK_POLL_TIMEOUT"

fun opt_str :: "string option \<Rightarrow> json" where
  "opt_str None = JNull"
| "opt_str (Some s) = JStr s"

definition hold_body :: "PendingApproval \<Rightarrow> nat \<Rightarrow> json" where
  "hold_body approval max_wait =
     JObj [(''id'', JStr (pa_approval_id approval)),
           (''approval_token'', JStr (pa_approval_token approval)),
           (''server'', JStr (pa_server approval)), (''tool'', JStr (pa_tool approval)),
           (''code'', opt_str (pa_code approval)), (''agent'', JStr (pa_agent approval)),
           (''allow_always'', JBool (pa_allow_always approval)),
           (''detail'', opt_str (pa_detail approval)),
           (''ttl_seconds'', JInt (int (min (2 ^ 64 - 1) (max_wait div 1000 + 60))))]"

text \<open>The loop: the result and whether a cancel request was sent. The loop may run for ever, or wait
  for an exchange that does not end, which is the value \<open>None\<close>.\<close>

definition after_cancel :: "poll_env \<Rightarrow> string \<Rightarrow> (Resolution \<times> bool) option" where
  "after_cancel env reason = (if pl_cancel_ends env then Some (Failed reason, True) else None)"

partial_function (option) poll_loop :: "poll_env \<Rightarrow> nat \<Rightarrow> nat \<Rightarrow> (Resolution \<times> bool) option" where
  "poll_loop env deadline i =
     (if pl_clock env i \<ge> deadline then after_cancel env ''approval timed out''
      else if \<not> pl_status_ends env i then None
      else case pl_status env i of
             None \<Rightarrow> poll_loop env deadline (i + 1)
           | Some body \<Rightarrow>
               (let s = get_str ''state'' body
                in if s = Some ''held'' then poll_loop env deadline (i + 1)
                   else if s = Some ''approved'' then Some (Approved, False)
                   else if s = Some ''denied'' then Some (Denied, False)
                   else after_cancel env ''unexpected pending state''))"

definition is_success :: "nat \<Rightarrow> bool" where
  "is_success status \<longleftrightarrow> 200 \<le> status \<and> status < 300"

definition hold_poll_resolve_with_timeout ::
  "poll_env \<Rightarrow> PendingApproval \<Rightarrow> nat \<Rightarrow> (Resolution \<times> bool) option" where
  "hold_poll_resolve_with_timeout env approval max_wait =
     (if \<not> pl_hold_ends env then None
      else case pl_hold env (hold_body approval max_wait) of
             Inr status \<Rightarrow> if is_success status then poll_loop env (pl_start env + max_wait) 0
                           else Some (Unreachable, False)
           | Inl _ \<Rightarrow> Some (Unreachable, False))"

definition hold_poll_resolve :: "poll_env \<Rightarrow> PendingApproval \<Rightarrow> (Resolution \<times> bool) option" where
  "hold_poll_resolve env approval = hold_poll_resolve_with_timeout env approval POLL_TIMEOUT"

section \<open>Lemmas on the routes\<close>

lemma parse_resolve_decision_label:
  "parse_resolve_decision d = Some dec \<Longrightarrow> as_agentpact_response (as_approval_response dec) = d"
  by (auto simp: parse_resolve_decision_def split: if_splits)

lemma allows_as_approval [simp]:
  "allows_execution (as_approval_response dec) = decision_allows_execution dec"
  by (cases dec) auto

text \<open>What the policy daemon answered when a resolution was delivered.\<close>

definition daemon_accepted :: "route_env \<Rightarrow> string \<Rightarrow> ResolveDecision \<Rightarrow> bool" where
  "daemon_accepted env token dec \<longleftrightarrow>
     (case ce_send (re_client env) 0
             (build_permission_respond_request (ce_uuid (re_client env)) ''kyrisd-resolve'' token
                (as_approval_response dec)) of
        Inl _ \<Rightarrow> False
      | Inr reply \<Rightarrow> get_str ''code'' reply = Some ''PACT_OK'')"

lemma send_resolution_Inr:
  assumes "send_resolution env token dec = Inr u" and "decision_allows_execution dec"
  shows "daemon_accepted env token dec"
proof -
  have "re_join_error env = None"
    using assms(1) by (auto simp: send_resolution_def split: option.splits)
  then obtain w where "send_permission_response (re_client env) ''kyrisd-resolve'' token
      (as_approval_response dec) = Inr w"
    using assms(1) by (cases "send_permission_response (re_client env) ''kyrisd-resolve'' token
      (as_approval_response dec)") (auto simp: send_resolution_def)
  from send_permission_response_InrD[OF this] assms(2) show ?thesis
    by (auto simp: daemon_accepted_def)
qed

lemma resolve_pending_cases:
  assumes "resolve_pending env rid d st = (status, logs, st')"
  obtains
    (refused) "status \<in> {BAD_REQUEST, GONE, CONFLICT}" "st' = st" "logs = no_logs"
  | (undelivered) cl st1 where "status = BAD_GATEWAY" "claim rid st = (Inr cl, st1)"
      "st' = abandon_claim cl (re_others env st1)" "logs = no_logs"
  | (resolved) dec cl st1 u where "status = OK" "claim rid st = (Inr cl, st1)"
      "parse_resolve_decision d = Some dec"
      "send_resolution env (cl_approval_token cl) dec = Inr u"
      "st' = complete_claim cl (decision_allows_execution dec) (re_others env st1)"
proof (cases "parse_resolve_decision d")
  case None
  with assms refused show thesis by (auto simp: resolve_pending_def)
next
  case dec: (Some dec)
  obtain r st1 where c: "claim rid st = (r, st1)" by fastforce
  show thesis
  proof (cases r)
    case (Inl e)
    with c have "st1 = st" by (auto simp: claim_def split: option.splits if_splits PendingState.splits)
    with assms dec c Inl refused show thesis
      by (cases e) (auto simp: resolve_pending_def)
  next
    case (Inr cl)
    show thesis
    proof (cases "send_resolution env (cl_approval_token cl) dec")
      case (Inl e)
      with assms dec c Inr undelivered show thesis by (auto simp: resolve_pending_def Let_def)
    next
      case (Inr u)
      with assms dec c \<open>r = Inr cl\<close> resolved show thesis
        by (auto simp: resolve_pending_def Let_def)
    qed
  qed
qed

lemma claim_abandon_same:
  assumes "claim rid st = (Inr cl, st1)"
  shows "fst (claim rid (abandon_claim cl st1)) = Inr cl"
proof -
  obtain e where e: "map_of (entries st) rid = Some e" "pe_state e = PendingState.Held" "pe_resolver e \<noteq> None"
    "cl = \<lparr>cl_id = rid, cl_approval_token = pe_approval_token e,
           cl_resolver = pe_resolver e, cl_completed = False\<rparr>"
    "st1 = abort_handle (pe_timeout_handle e)
       (st\<lparr>entries := AList.update rid (e\<lparr>pe_timeout_handle := None, pe_resolver := None\<rparr>)
             (entries st)\<rparr>)"
    by (rule claim_Inr[OF assms])
  then have "map_of (entries st1) rid = Some (e\<lparr>pe_timeout_handle := None, pe_resolver := None\<rparr>)"
    by (simp add: update_conv')
  with e show ?thesis by (simp add: abandon_claim_def claim_def update_conv')
qed

section \<open>Lemmas on the poll loop\<close>

text \<open>The answer of round \<open>j\<close> carried the state \<open>s\<close>.\<close>

definition said :: "poll_env \<Rightarrow> nat \<Rightarrow> string \<Rightarrow> bool" where
  "said env j s \<longleftrightarrow> (case pl_status env j of None \<Rightarrow> False | Some b \<Rightarrow> get_str ''state'' b = Some s)"

lemma poll_loop_result:
  assumes "poll_loop env deadline i = Some y"
  shows "(fst y = Approved \<longrightarrow> (\<exists>j\<ge>i. pl_clock env j < deadline \<and> said env j ''approved'')) \<and>
     (fst y = Denied \<longrightarrow> (\<exists>j\<ge>i. pl_clock env j < deadline \<and> said env j ''denied'')) \<and>
     fst y \<noteq> Unreachable \<and> (snd y \<longleftrightarrow> (\<exists>m. fst y = Failed m))"
proof (rule poll_loop.raw_induct[OF _ assms], goal_cases)
  case (1 loop env deadline i y)
  have next_round: "loop env deadline (i + 1) = Some y \<Longrightarrow> ?case"
    using 1(1)[of env deadline "i + 1" y] by (meson add_leD1)
  show ?case
  proof (cases "pl_clock env i \<ge> deadline \<or> pl_status env i = None")
    case True
    with 1(2) next_round show ?thesis by (auto simp: after_cancel_def split: if_splits)
  next
    case False
    then obtain b where "pl_status env i = Some b" "pl_clock env i < deadline" by auto
    with 1(2) next_round show ?thesis
      by (auto simp: said_def Let_def after_cancel_def split: if_splits intro!: exI[of _ i])
  qed
qed

lemma poll_loop_returns:
  assumes sleep: "\<And>j. start + (j + 1) * POLL_INTERVAL \<le> pl_clock env j"
    and ends: "\<And>j. pl_status_ends env j" "pl_cancel_ends env"
  shows "\<exists>y. poll_loop env deadline i = Some y"
proof (induction "deadline - (start + (i + 1) * POLL_INTERVAL)" arbitrary: i rule: less_induct)
  case less
  show ?case
  proof (cases "pl_clock env i \<ge> deadline")
    case True
    then have "poll_loop env deadline i = Some (Failed ''approval timed out'', True)"
      by (simp add: poll_loop.simps[of env deadline i] after_cancel_def ends)
    then show ?thesis by blast
  next
    case False
    with sleep[of i] have "start + (i + 1) * POLL_INTERVAL < deadline" by simp
    then have "deadline - (start + (i + 1 + 1) * POLL_INTERVAL) < deadline - (start + (i + 1) * POLL_INTERVAL)"
      by (simp add: POLL_INTERVAL_def)
    from less[OF this] False show ?thesis
      by (auto simp: poll_loop.simps[of env deadline i] Let_def after_cancel_def ends split: option.split)
  qed
qed

lemma poll_resolve_result:
  assumes "hold_poll_resolve_with_timeout env approval max_wait = Some (r, cancelled)"
  shows "(r = Unreachable) = (case pl_hold env (hold_body approval max_wait) of
             Inl _ \<Rightarrow> True | Inr status \<Rightarrow> \<not> is_success status) \<and>
     (r = Approved \<longrightarrow> (\<exists>j. pl_clock env j < pl_start env + max_wait \<and> said env j ''approved'')) \<and>
     (r = Denied \<longrightarrow> (\<exists>j. pl_clock env j < pl_start env + max_wait \<and> said env j ''denied'')) \<and>
     cancelled = (\<exists>m. r = Failed m)"
proof (cases "\<exists>status. pl_hold env (hold_body approval max_wait) = Inr status \<and> is_success status")
  case True
  then have "poll_loop env (pl_start env + max_wait) 0 = Some (r, cancelled)"
    using assms by (auto simp: hold_poll_resolve_with_timeout_def split: if_splits)
  from poll_loop_result[OF this] True show ?thesis by auto
next
  case False
  with assms have "r = Unreachable \<and> \<not> cancelled"
    by (auto simp: hold_poll_resolve_with_timeout_def split: sum.splits if_splits)
  with False show ?thesis by (auto split: sum.split)
qed

lemma poll_resolve_approved:
  "hold_poll_resolve_with_timeout env approval max_wait = Some (Approved, cancelled) \<Longrightarrow>
     \<exists>j. pl_clock env j < pl_start env + max_wait \<and> said env j ''approved''"
  using poll_resolve_result by blast

section \<open>Properties\<close>

text \<open>
  C7. The API resolves a request positively only with the policy daemon's consent: when
  \<open>resolve_pending\<close> answers 200 to an approving decision, the entry was held, the daemon accepted
  exactly this decision for the entry's own token, and the claim was completed with
  \<open>approved = true\<close>, whatever other tasks did to the store meanwhile.
\<close>
theorem resolve_pending_approval_needs_daemon:
  assumes "resolve_pending env rid d st = (OK, logs, st')" and "d \<noteq> ''denied''"
  shows "\<exists>dec cl st1. parse_resolve_decision d = Some dec \<and> claim rid st = (Inr cl, st1) \<and>
     get_state rid st = Some PendingState.Held \<and>
     daemon_accepted env (cl_approval_token cl) dec \<and>
     st' = complete_claim cl True (re_others env st1)"
  using assms(1)
proof (cases rule: resolve_pending_cases)
  case (resolved dec cl st1 u)
  have dec: "decision_allows_execution dec"
    using resolved(3) assms(2) by (auto simp: parse_resolve_decision_def split: if_splits)
  moreover have "get_state rid st = Some PendingState.Held"
    using claim_Inr[OF resolved(2)] by (auto simp: get_state_def)
  ultimately show ?thesis
    using resolved send_resolution_Inr[OF resolved(4) dec] by simp
qed simp_all

definition demo_route :: route_env where
  "demo_route = \<lparr>re_client = demo_env, re_join_error = None, re_now = 0, re_ts = ''t'',
     re_pending_timeout_seconds = 300, re_timer = 7, re_others = (\<lambda>st. st)\<rparr>"

lemma demo_resolve_ok:
  "\<exists>logs st'. resolve_pending demo_route ''req-1'' ''always'' (fst demo_hold) = (OK, logs, st')"
  by (simp add: resolve_pending_def parse_resolve_decision_def demo_claimed_eq demo_claim_def
      send_resolution_def demo_route_def demo_env_def send_permission_response_def
      parse_mcp_permission_response_def get_defs)

theorem resolve_pending_approval_needs_daemon_witness:
  "\<exists>dec cl st1. parse_resolve_decision ''always'' = Some dec \<and>
     claim ''req-1'' (fst demo_hold) = (Inr cl, st1) \<and> daemon_accepted demo_route (cl_approval_token cl) dec"
proof -
  obtain logs st' where "resolve_pending demo_route ''req-1'' ''always'' (fst demo_hold) = (OK, logs, st')"
    using demo_resolve_ok by blast
  from resolve_pending_approval_needs_daemon[OF this] show ?thesis by auto
qed

text \<open>
  A resolution that does not succeed costs nothing: unless \<open>resolve_pending\<close> answers 200 no
  approval is logged, and the next claim of the request gives what a claim gave before, the same
  token and waiter included (here no other task runs during the await).
\<close>
theorem resolve_pending_failure_is_retryable:
  assumes "resolve_pending env rid d st = (status, logs, st')" and "status \<noteq> OK"
    and "re_others env = (\<lambda>st. st)"
  shows "fst (claim rid st') = fst (claim rid st) \<and> rl_approvals logs = []"
  using assms(1)
proof (cases rule: resolve_pending_cases)
  case refused
  then show ?thesis by (simp add: no_logs_def)
next
  case (undelivered cl st1)
  then show ?thesis using claim_abandon_same[OF undelivered(2)] assms(3) by (simp add: no_logs_def)
qed (use assms(2) in simp)

theorem resolve_pending_failure_is_retryable_witness:
  "fst (claim ''req-1'' (snd (snd (resolve_pending (demo_route\<lparr>re_join_error := Some ''panic''\<rparr>) ''req-1'' ''always''
     (fst demo_hold))))) = Inr demo_claim"
proof -
  let ?env = "demo_route\<lparr>re_join_error := Some ''panic''\<rparr>"
  have r: "resolve_pending ?env ''req-1'' ''always'' (fst demo_hold)
      = (BAD_GATEWAY, no_logs, abandon_claim demo_claim (snd demo_claimed))"
    by (simp add: resolve_pending_def parse_resolve_decision_def demo_claimed_eq send_resolution_def
        demo_route_def Let_def)
  from resolve_pending_failure_is_retryable[OF r] show ?thesis
    by (simp add: r demo_claimed_eq) (simp add: demo_route_def)
qed

text \<open>
  The dialog approves only what the user approved and the policy daemon accepted: when the
  dialog task delivers \<open>approved\<close> to a waiter which nobody else resolved by then, the user
  answered yes or for-session, the claim owns this waiter and the daemon accepted the answer for
  its token; a panel that could not be shown approves nothing.
\<close>
theorem dialog_approval_needs_click_and_daemon:
  fixes env body st
  defines "st2 \<equiv> re_others env (snd (claim (hr_id body) st))"
  assumes "c < length (chans st)" and "chans st ! c \<noteq> Sent True"
    and "c < length (chans st2)" and "chans st2 ! c \<noteq> Sent True"
    and "chans (snd (dialog_task env body outcome st)) ! c = Sent True"
  shows "outcome \<in> {Yes, OAlways} \<and>
     (\<exists>dec cl. decision_for_approval_outcome outcome = Some dec \<and>
        fst (claim (hr_id body) st) = Inr cl \<and> cl_resolver cl = Some c \<and>
        daemon_accepted env (cl_approval_token cl) dec)"
proof (cases "decision_for_approval_outcome outcome")
  case None
  with assms show ?thesis by (simp add: dialog_task_def Let_def)
next
  case dec: (Some dec)
  obtain r st1 where c: "claim (hr_id body) st = (r, st1)" by fastforce
  then have st2: "st2 = re_others env st1" by (simp add: st2_def)
  show ?thesis
  proof (cases r)
    case (Inl e)
    with dec c assms(2-) claim_chans[OF c] show ?thesis by (simp add: dialog_task_def Let_def)
  next
    case (Inr cl)
    show ?thesis
    proof (cases "send_resolution env (cl_approval_token cl) dec")
      case (Inl e)
      with dec c st2 assms(2-) \<open>r = Inr cl\<close> show ?thesis
        using abandon_settles[of cl st2]
        by (auto simp: dialog_task_def Let_def settle_nth split: if_splits)
    next
      case (Inr u)
      with dec c st2 assms(2-) \<open>r = Inr cl\<close>
      have "chans (complete_claim cl (decision_allows_execution dec) st2) ! c = Sent True"
        by (simp add: dialog_task_def Let_def)
      then have "decision_allows_execution dec \<and> cl_resolver cl = Some c"
        using assms(4,5) by (auto simp: settle_nth split: if_splits)
      with dec c \<open>r = Inr cl\<close> send_resolution_Inr[OF Inr] show ?thesis
        by (cases outcome) auto
    qed
  qed
qed

definition demo_body :: HoldRequest where
  "demo_body = \<lparr>hr_id = ''req-1'', hr_approval_token = ''tok-1'', hr_server = ''github'', hr_tool = None,
     hr_code = None, hr_agent = ''agent'', hr_allow_always = True, hr_detail = None, hr_ttl_seconds = None\<rparr>"

theorem dialog_approval_needs_click_and_daemon_witness:
  "\<exists>dec cl. decision_for_approval_outcome Yes = Some dec \<and>
     fst (claim (hr_id demo_body) (fst demo_hold)) = Inr cl \<and> cl_resolver cl = Some 0 \<and>
     daemon_accepted demo_route (cl_approval_token cl) dec"
proof -
  have ch: "chans (snd demo_claimed) = [Open]"
    using claim_chans[OF demo_claimed_eq] by (simp add: demo_hold_chans)
  have "send_resolution demo_route ''tok-1'' RApproved = Inr ()"
    by (simp add: send_resolution_def demo_route_def demo_env_def send_permission_response_def
        parse_mcp_permission_response_def get_defs)
  then have "chans (snd (dialog_task demo_route demo_body Yes (fst demo_hold))) ! 0 = Sent True"
    using ch by (simp add: dialog_task_def Let_def demo_body_def demo_claimed_eq demo_claim_def
        demo_route_def set_chan_def)
  with ch show ?thesis
    using dialog_approval_needs_click_and_daemon[where c = 0 and env = demo_route and body = demo_body
        and st = "fst demo_hold" and outcome = Yes]
    by (simp add: demo_hold_chans demo_body_def demo_claimed_eq demo_route_def)
qed

text \<open>
  C27. The poller returns, provided that each of its requests to kyrisd comes back, with an answer
  or an error (the client sets no time limit on a request): since each round sleeps at least one
  second, the loop then ends at the latest when the clock reaches the deadline, whatever kyrisd
  answers.
\<close>
theorem hold_poll_resolve_returns:
  assumes sleep: "\<And>i. pl_start env + (i + 1) * POLL_INTERVAL \<le> pl_clock env i"
    and ends: "pl_hold_ends env" "\<And>i. pl_status_ends env i" "pl_cancel_ends env"
  shows "\<exists>r. hold_poll_resolve_with_timeout env approval max_wait = Some r"
  using poll_loop_returns[OF sleep ends(2,3)] ends(1)
  by (auto simp: hold_poll_resolve_with_timeout_def split: sum.split)

definition demo_poll :: poll_env where
  "demo_poll = \<lparr>pl_hold = (\<lambda>b. Inr 200), pl_start = 0, pl_clock = (\<lambda>i. (i + 1) * 1000),
     pl_status = (\<lambda>i. if i = 0 then None else Some (JObj [(''state'', JStr ''approved'')])),
     pl_hold_ends = True, pl_status_ends = (\<lambda>i. True), pl_cancel_ends = True\<rparr>"

definition demo_approval :: PendingApproval where
  "demo_approval = \<lparr>pa_approval_id = ''req-1'', pa_approval_token = ''tok-1'', pa_server = ''github'',
     pa_tool = ''Bash'', pa_code = None, pa_agent = ''agent'', pa_allow_always = False, pa_detail = None\<rparr>"

theorem hold_poll_resolve_returns_witness:
  "\<exists>r. hold_poll_resolve_with_timeout demo_poll demo_approval 590000 = Some r"
  by (rule hold_poll_resolve_returns) (simp_all add: demo_poll_def POLL_INTERVAL_def)

text \<open>
  That the requests come back is needed: a kyrisd that accepts the hold and never answers a status
  request keeps the caller waiting past every deadline, because the deadline is looked at only
  between requests.
\<close>
lemma unanswered_status_request_hangs:
  assumes "pl_hold env (hold_body approval max_wait) = Inr 200"
    and "pl_clock env 0 < pl_start env + max_wait" and "\<not> pl_status_ends env 0"
  shows "hold_poll_resolve_with_timeout env approval max_wait = None"
  using assms by (simp add: hold_poll_resolve_with_timeout_def is_success_def poll_loop.simps)

text \<open>
  What the poller reports is what happened: it is \<open>Approved\<close> (\<open>Denied\<close>) only if the hold was
  accepted and a status answer before the deadline said so; it is \<open>Unreachable\<close>, the one result on
  which callers may fall open, exactly when the hold was not accepted; and the pending entry is
  cancelled exactly when the result is a failure after the hold.
\<close>
theorem hold_poll_resolve_outcome:
  assumes "hold_poll_resolve_with_timeout env approval max_wait = Some (r, cancelled)"
  shows "(r = Unreachable) = (case pl_hold env (hold_body approval max_wait) of
             Inl _ \<Rightarrow> True | Inr status \<Rightarrow> \<not> is_success status) \<and>
     (r = Approved \<longrightarrow> (\<exists>j. pl_clock env j < pl_start env + max_wait \<and> said env j ''approved'')) \<and>
     (r = Denied \<longrightarrow> (\<exists>j. pl_clock env j < pl_start env + max_wait \<and> said env j ''denied'')) \<and>
     cancelled = (\<exists>m. r = Failed m)"
  using assms by (rule poll_resolve_result)

theorem hold_poll_resolve_outcome_witness:
  "\<exists>j. pl_clock demo_poll j < 590000 \<and> said demo_poll j ''approved''"
proof -
  have "hold_poll_resolve_with_timeout demo_poll demo_approval 590000 = Some (Approved, False)"
    by (simp add: hold_poll_resolve_with_timeout_def poll_loop.simps demo_poll_def is_success_def
        get_str_def Let_def)
  from hold_poll_resolve_outcome[OF this] show ?thesis by (simp add: demo_poll_def)
qed

end
