(* ===== verification/Gate.thy ===== *)
theory Gate
  imports Breaker PendingRoutes
begin

text \<open>
  The continue-or-stop gate of runaway sessions: the registry of \<^verbatim>\<open>daemon/src/gate.rs\<close>, the
  waiting request \<open>await_token_gate\<close> of \<^verbatim>\<open>daemon/src/adapter/mod.rs\<close>, and the routes of
  \<^verbatim>\<open>daemon/src/server/breaker_routes.rs\<close> by which the human answers.

  A \<open>watch\<close> channel has its last value, whether its sender is alive, and the number of its
  receivers; as the library documents, sending fails when there is none. A request first finds
  its session tripped and only then enters the gate, and it leaves on its own schedule, so the
  step relation \<open>gstep\<close> interleaves these moments for any number of requests.
\<close>

section \<open>The registry\<close>

datatype GateDecision = Continue | Stop

record gate_chan =
  gc_value :: "GateDecision option"
  gc_alive :: bool
  gc_receivers :: nat

record GateRegistry =
  gr_waiters :: "(string, nat) hashmap"
  gr_chans :: "gate_chan list"

definition GateRegistry_new :: GateRegistry where
  "GateRegistry_new = \<lparr>gr_waiters = [], gr_chans = []\<rparr>"

definition upd_chan :: "nat \<Rightarrow> (gate_chan \<Rightarrow> gate_chan) \<Rightarrow> GateRegistry \<Rightarrow> GateRegistry" where
  "upd_chan c f g = (if c < length (gr_chans g) then g\<lparr>gr_chans := (gr_chans g)[c := f (gr_chans g ! c)]\<rparr> else g)"

definition send_decision :: "GateDecision \<Rightarrow> gate_chan \<Rightarrow> gate_chan" where
  "send_decision d ch = (if gc_receivers ch > 0 then ch\<lparr>gc_value := Some d\<rparr> else ch)"

definition subscribe :: "string \<Rightarrow> GateRegistry \<Rightarrow> nat \<times> bool \<times> GateRegistry" where
  "subscribe session_id g =
     (case map_of (gr_waiters g) session_id of
        Some tx \<Rightarrow> (tx, False, upd_chan tx (\<lambda>ch. ch\<lparr>gc_receivers := gc_receivers ch + 1\<rparr>) g)
      | None \<Rightarrow>
          (let c = length (gr_chans g)
           in (c, True,
               \<lparr>gr_waiters = AList.update session_id c (gr_waiters g),
                gr_chans = gr_chans g @ [\<lparr>gc_value = None, gc_alive = True, gc_receivers = 1\<rparr>]\<rparr>)))"

definition resolve :: "string \<Rightarrow> GateDecision \<Rightarrow> GateRegistry \<Rightarrow> GateRegistry" where
  "resolve session_id decision g =
     (case map_of (gr_waiters g) session_id of
        None \<Rightarrow> g
      | Some tx \<Rightarrow> upd_chan tx (send_decision decision) g)"

definition resolve_all :: "GateDecision \<Rightarrow> GateRegistry \<Rightarrow> string list \<times> GateRegistry" where
  "resolve_all decision g =
     (map fst (gr_waiters g),
      fold (\<lambda>(sid, tx). upd_chan tx (send_decision decision)) (gr_waiters g) g)"

definition clear :: "string \<Rightarrow> GateRegistry \<Rightarrow> GateRegistry" where
  "clear session_id g =
     (case map_of (gr_waiters g) session_id of
        None \<Rightarrow> g
      | Some tx \<Rightarrow> (upd_chan tx (\<lambda>ch. ch\<lparr>gc_alive := False\<rparr>) g)
                      \<lparr>gr_waiters := AList.delete session_id (gr_waiters g)\<rparr>)"

definition is_pending :: "string \<Rightarrow> GateRegistry \<Rightarrow> bool" where
  "is_pending session_id g = (map_of (gr_waiters g) session_id \<noteq> None)"

section \<open>Requests at the gate\<close>

text \<open>A request at the gate: its session, its receiver and, once it has left, the decision that
  \<open>await_token_gate\<close> returned.\<close>

record gate_req =
  gq_session :: string
  gq_chan :: nat
  gq_decision :: "GateDecision option"

record gsys =
  gs_gate :: GateRegistry
  gs_breaker :: CircuitBreaker
  gs_checked :: "string list"
  gs_reqs :: "gate_req list"
  gs_dialogs :: "string list"

text \<open>\<open>await_token_gate\<close> up to its wait: subscribe, and surface the prompt if this request created
  the channel.\<close>

definition gate_enter :: "string \<Rightarrow> gsys \<Rightarrow> gsys" where
  "gate_enter session_id s =
     (let (rx, first, g) = subscribe session_id (gs_gate s)
      in s\<lparr>gs_gate := g,
           gs_reqs := gs_reqs s @ [\<lparr>gq_session = session_id, gq_chan = rx, gq_decision = None\<rparr>],
           gs_dialogs := (if first then gs_dialogs s @ [session_id] else gs_dialogs s)\<rparr>)"

text \<open>What the wait of request \<open>k\<close> can return now: the value if there is one, \<open>Stop\<close> if the sender
  was dropped before any; and at any time \<open>Stop\<close> when the decision time-out fires.\<close>

definition gate_answer :: "nat \<Rightarrow> gsys \<Rightarrow> GateDecision option" where
  "gate_answer k s =
     (let ch = gr_chans (gs_gate s) ! gq_chan (gs_reqs s ! k)
      in case gc_value ch of Some d \<Rightarrow> Some d | None \<Rightarrow> if gc_alive ch then None else Some Stop)"

text \<open>The end of \<open>await_token_gate\<close>: reset the counter, clear the channel of the session, drop the
  receiver, return the decision.\<close>

definition gate_leave :: "nat \<Rightarrow> nat \<Rightarrow> GateDecision \<Rightarrow> gsys \<Rightarrow> gsys" where
  "gate_leave now k d s =
     (let q = gs_reqs s ! k
      in s\<lparr>gs_breaker := snd (reset now (gq_session q) (gs_breaker s)),
           gs_gate := upd_chan (gq_chan q) (\<lambda>ch. ch\<lparr>gc_receivers := gc_receivers ch - 1\<rparr>)
                        (clear (gq_session q) (gs_gate s)),
           gs_reqs := (gs_reqs s)[k := q\<lparr>gq_decision := Some d\<rparr>]\<rparr>)"

definition dialog_answer :: "string \<Rightarrow> ApprovalOutcome \<Rightarrow> GateRegistry \<Rightarrow> GateRegistry" where
  "dialog_answer session_id outcome g =
     (case outcome of
        Yes \<Rightarrow> resolve session_id Continue g
      | OAlways \<Rightarrow> resolve session_id Continue g
      | No \<Rightarrow> resolve session_id Stop g
      | CouldNotShow \<Rightarrow> g)"

section \<open>Routes\<close>

definition circuit_breaker_reset :: "nat \<Rightarrow> string \<Rightarrow> gsys \<Rightarrow> StatusCode \<times> gsys" where
  "circuit_breaker_reset now session_id s =
     (let g = resolve session_id Continue (gs_gate s);
          (known, b) = reset now session_id (gs_breaker s)
      in (if known then OK else NOT_FOUND, s\<lparr>gs_gate := g, gs_breaker := b\<rparr>))"

definition circuit_breaker_reset_all :: "nat \<Rightarrow> gsys \<Rightarrow> string list \<times> gsys" where
  "circuit_breaker_reset_all now s =
     (let (_, g) = resolve_all Continue (gs_gate s);
          (cleared, b) = reset_all_tripped now (gs_breaker s)
      in (cleared, s\<lparr>gs_gate := g, gs_breaker := b\<rparr>))"

definition circuit_breaker_stop :: "string option \<Rightarrow> gsys \<Rightarrow> string list \<times> gsys" where
  "circuit_breaker_stop session_id s =
     (case session_id of
        Some sid \<Rightarrow> ([sid], s\<lparr>gs_gate := resolve sid Stop (gs_gate s)\<rparr>)
      | None \<Rightarrow> (let (stopped, g) = resolve_all Stop (gs_gate s) in (stopped, s\<lparr>gs_gate := g\<rparr>)))"

section \<open>Interleaving\<close>

datatype glabel =
    GRecord string int bool int
  | GCheck string
  | GEnter string
  | GDialog string ApprovalOutcome
  | GReset string
  | GResetAll
  | GStop "string option"
  | GAnswer nat
  | GTimeout nat

inductive gstep :: "gsys \<Rightarrow> glabel \<Rightarrow> gsys \<Rightarrow> bool" where
  g_record: "gstep s (GRecord sid out tool mx)
     (s\<lparr>gs_breaker := snd (record_response now sid out tool mx (gs_breaker s))\<rparr>)"
| g_check: "is_tripped sid (gs_breaker s) \<Longrightarrow>
     gstep s (GCheck sid) (s\<lparr>gs_checked := sid # gs_checked s\<rparr>)"
| g_enter: "sid \<in> set (gs_checked s) \<Longrightarrow>
     gstep s (GEnter sid) (gate_enter sid (s\<lparr>gs_checked := remove1 sid (gs_checked s)\<rparr>))"
| g_dialog: "sid \<in> set (gs_dialogs s) \<Longrightarrow>
     gstep s (GDialog sid outcome)
       (s\<lparr>gs_dialogs := remove1 sid (gs_dialogs s), gs_gate := dialog_answer sid outcome (gs_gate s)\<rparr>)"
| g_reset: "gstep s (GReset sid) (snd (circuit_breaker_reset now sid s))"
| g_reset_all: "gstep s GResetAll (snd (circuit_breaker_reset_all now s))"
| g_stop: "gstep s (GStop sid) (snd (circuit_breaker_stop sid s))"
| g_answer: "k < length (gs_reqs s) \<Longrightarrow> gq_decision (gs_reqs s ! k) = None \<Longrightarrow>
     gate_answer k s = Some d \<Longrightarrow> gstep s (GAnswer k) (gate_leave now k d s)"
| g_timeout: "k < length (gs_reqs s) \<Longrightarrow> gq_decision (gs_reqs s ! k) = None \<Longrightarrow>
     gstep s (GTimeout k) (gate_leave now k Stop s)"

definition ginit :: "gsys \<Rightarrow> bool" where
  "ginit s \<longleftrightarrow> s = \<lparr>gs_gate = GateRegistry_new, gs_breaker = CircuitBreaker_new, gs_checked = [],
                  gs_reqs = [], gs_dialogs = []\<rparr>"

text \<open>A human told this session to continue.\<close>

definition says_continue :: "string \<Rightarrow> glabel \<Rightarrow> bool" where
  "says_continue sid l \<longleftrightarrow> l \<in> {GReset sid, GResetAll, GDialog sid Yes, GDialog sid OAlways}"

text \<open>A human told some session to stop, or a decision time-out fired.\<close>

definition says_stop :: "glabel \<Rightarrow> bool" where
  "says_stop l = (case l of GTimeout _ \<Rightarrow> True | GStop _ \<Rightarrow> True
                  | GDialog _ outcome \<Rightarrow> outcome = No | _ \<Rightarrow> False)"

section \<open>Invariants\<close>

definition waiting_on :: "nat \<Rightarrow> gate_req \<Rightarrow> bool" where
  "waiting_on c q \<longleftrightarrow> gq_chan q = c \<and> gq_decision q = None"

definition continued :: "glabel list \<Rightarrow> string \<Rightarrow> bool" where
  "continued ls sid \<longleftrightarrow> (\<exists>l \<in> set ls. says_continue sid l)"

definition gate_inv :: "GateRegistry \<Rightarrow> gate_req list \<Rightarrow> (string \<Rightarrow> bool) \<Rightarrow> bool" where
  "gate_inv g qs cont \<longleftrightarrow>
     distinct (map fst (gr_waiters g)) \<and>
     (\<forall>sid c. map_of (gr_waiters g) sid = Some c \<longrightarrow> c < length (gr_chans g) \<and>
        (gc_value (gr_chans g ! c) = Some Continue \<longrightarrow> cont sid)) \<and>
     (\<forall>sid sid' c. map_of (gr_waiters g) sid = Some c \<longrightarrow> map_of (gr_waiters g) sid' = Some c \<longrightarrow>
        sid = sid') \<and>
     (\<forall>q \<in> set qs. gq_chan q < length (gr_chans g)) \<and>
     (\<forall>q \<in> set qs. \<forall>sid. map_of (gr_waiters g) sid = Some (gq_chan q) \<longrightarrow> sid = gq_session q) \<and>
     (\<forall>q \<in> set qs. gc_value (gr_chans g ! gq_chan q) = Some Continue \<longrightarrow> cont (gq_session q)) \<and>
     (\<forall>q \<in> set qs. gq_decision q = Some Continue \<longrightarrow> cont (gq_session q)) \<and>
     (\<forall>c < length (gr_chans g). gc_receivers (gr_chans g ! c) = length (filter (waiting_on c) qs))"

definition ghinv :: "gsys \<times> glabel list \<Rightarrow> bool" where
  "ghinv = (\<lambda>(s, ls). gate_inv (gs_gate s) (gs_reqs s) (continued ls))"

definition ghinit :: "gsys \<times> glabel list \<Rightarrow> bool" where
  "ghinit = (\<lambda>(s, ls). ginit s \<and> ls = [])"

subsection \<open>Channel updates\<close>

lemma upd_chan_simps [simp]:
  "gr_waiters (upd_chan c f g) = gr_waiters g"
  "length (gr_chans (upd_chan c f g)) = length (gr_chans g)"
  "i < length (gr_chans g) \<Longrightarrow>
     gr_chans (upd_chan c f g) ! i = (if i = c then f (gr_chans g ! i) else gr_chans g ! i)"
  by (auto simp: upd_chan_def)

lemma send_decision_simps [simp]:
  "gc_receivers (send_decision d ch) = gc_receivers ch"
  "gc_value (send_decision d ch) = (if gc_receivers ch > 0 then Some d else gc_value ch)"
  by (simp_all add: send_decision_def)

lemma length_filter_update:
  "k < length xs \<Longrightarrow>
     length (filter P (xs[k := y])) + (if P (xs ! k) then 1 else 0)
       = length (filter P xs) + (if P y then 1 else 0)"
proof (induction xs arbitrary: k)
  case (Cons x xs)
  then show ?case by (cases k) auto
qed simp

lemma gate_inv_mono: "gate_inv g qs cont \<Longrightarrow> (\<And>sid. cont sid \<Longrightarrow> cont' sid) \<Longrightarrow> gate_inv g qs cont'"
  by (auto simp: gate_inv_def)

lemma gate_inv_send:
  assumes "gate_inv g qs cont"
    and "\<And>q. q \<in> set qs \<Longrightarrow> d = Continue \<Longrightarrow> gq_chan q = c \<Longrightarrow> cont (gq_session q)"
    and "\<And>sid. d = Continue \<Longrightarrow> map_of (gr_waiters g) sid = Some c \<Longrightarrow> cont sid"
  shows "gate_inv (upd_chan c (send_decision d) g) qs cont"
  using assms by (auto simp: gate_inv_def)

lemma gate_inv_resolve:
  assumes "gate_inv g qs cont" and "d = Continue \<Longrightarrow> cont sid"
  shows "gate_inv (resolve sid d g) qs cont"
proof (cases "map_of (gr_waiters g) sid")
  case (Some c)
  have "cont (gq_session q)" if "q \<in> set qs" "d = Continue" "gq_chan q = c" for q
    using assms Some that by (auto simp: gate_inv_def)
  moreover have "cont sid'" if "d = Continue" "map_of (gr_waiters g) sid' = Some c" for sid'
  proof -
    have "sid' = sid" using assms(1) Some that(2) unfolding gate_inv_def by blast
    with assms(2) that(1) show ?thesis by simp
  qed
  ultimately show ?thesis using Some assms(1) by (simp add: resolve_def gate_inv_send)
qed (use assms in \<open>simp add: resolve_def\<close>)

lemma gate_inv_resolve_all:
  assumes "gate_inv g qs cont" and "d = Continue \<Longrightarrow> (\<And>sid. cont sid)"
  shows "gate_inv (snd (resolve_all d g)) qs cont"
proof -
  have "gate_inv (fold (\<lambda>(sid, tx). upd_chan tx (send_decision d)) ws g) qs cont" for ws
    using assms(1)
  proof (induction ws arbitrary: g)
    case (Cons w ws)
    then show ?case using assms(2) by (cases w) (auto intro!: Cons.IH gate_inv_send)
  qed simp
  then show ?thesis by (simp add: resolve_all_def)
qed

lemma gate_inv_subscribe:
  assumes inv: "gate_inv g qs cont" and sub: "subscribe sid g = (rx, first, g')"
  shows "gate_inv g' (qs @ [\<lparr>gq_session = sid, gq_chan = rx, gq_decision = None\<rparr>]) cont"
proof (cases "map_of (gr_waiters g) sid")
  case (Some c)
  then have g': "g' = upd_chan c (\<lambda>ch. ch\<lparr>gc_receivers := gc_receivers ch + 1\<rparr>) g" and rx: "rx = c"
    using sub by (auto simp: subscribe_def)
  have c: "c < length (gr_chans g)" using inv Some by (auto simp: gate_inv_def)
  have "sid' = sid" if "map_of (gr_waiters g) sid' = Some c" for sid'
    using inv Some that unfolding gate_inv_def by blast
  with inv Some c show ?thesis
    unfolding g' rx by (auto simp: gate_inv_def waiting_on_def)
next
  case None
  let ?n = "length (gr_chans g)"
  have g': "gr_waiters g' = AList.update sid ?n (gr_waiters g)"
      "gr_chans g' = gr_chans g @ [\<lparr>gc_value = None, gc_alive = True, gc_receivers = 1\<rparr>]" and rx: "rx = ?n"
    using sub None by (auto simp: subscribe_def Let_def)
  have lt: "c < ?n" if "map_of (gr_waiters g) s = Some c" for s c
    using inv that by (auto simp: gate_inv_def)
  have ltq: "gq_chan q < ?n" if "q \<in> set qs" for q
    using inv that by (auto simp: gate_inv_def)
  then have fresh: "filter (waiting_on ?n) qs = []"
    by (fastforce simp: waiting_on_def filter_empty_conv)
  show ?thesis
    using inv fresh
    by (auto simp: gate_inv_def g' rx update_conv' distinct_update nth_append waiting_on_def
        less_Suc_eq simp del: map_of_eq_Some_iff dest: lt ltq split: if_splits)
qed

lemma gate_inv_leave:
  assumes inv: "gate_inv g qs cont" and k: "k < length qs" "gq_decision (qs ! k) = None"
    and d: "d = Continue \<Longrightarrow> gc_value (gr_chans g ! gq_chan (qs ! k)) = Some Continue"
  shows "gate_inv (upd_chan (gq_chan (qs ! k)) (\<lambda>ch. ch\<lparr>gc_receivers := gc_receivers ch - 1\<rparr>)
                     (clear (gq_session (qs ! k)) g))
           (qs[k := (qs ! k)\<lparr>gq_decision := Some d\<rparr>]) cont"
proof -
  let ?q = "qs ! k"
  let ?qs = "qs[k := ?q\<lparr>gq_decision := Some d\<rparr>]"
  have q: "?q \<in> set qs" using k by simp
  have cl: "gate_inv (clear (gq_session ?q) g) qs cont"
    using inv by (auto simp: gate_inv_def clear_def delete_conv' distinct_delete
        simp del: map_of_eq_Some_iff split: option.split if_splits)
  have cnt: "length (filter (waiting_on c) ?qs) = length (filter (waiting_on c) qs) - (if c = gq_chan ?q then 1 else 0)" for c
    using length_filter_update[OF k(1), of "waiting_on c" "?q\<lparr>gq_decision := Some d\<rparr>"] k(2)
    by (auto simp: waiting_on_def)
  have cont: "cont (gq_session ?q)" if "d = Continue"
    using inv d[OF that] q by (auto simp: gate_inv_def)
  have ball: "\<forall>q' \<in> set ?qs. P q'" if "\<forall>q' \<in> set qs. P q'" "P (?q\<lparr>gq_decision := Some d\<rparr>)" for P
    using set_update_subset_insert[of qs k] that by blast
  let ?g = "clear (gq_session ?q) g"
  have dist: "distinct (map fst (gr_waiters ?g))"
    and wlt: "\<forall>sid c. map_of (gr_waiters ?g) sid = Some c \<longrightarrow> c < length (gr_chans ?g) \<and>
          (gc_value (gr_chans ?g ! c) = Some Continue \<longrightarrow> cont sid)"
    and inj: "\<forall>sid sid' c. map_of (gr_waiters ?g) sid = Some c \<longrightarrow> map_of (gr_waiters ?g) sid' = Some c \<longrightarrow> sid = sid'"
    and qlt: "\<forall>q \<in> set qs. gq_chan q < length (gr_chans ?g)"
    and ses: "\<forall>q \<in> set qs. \<forall>sid. map_of (gr_waiters ?g) sid = Some (gq_chan q) \<longrightarrow> sid = gq_session q"
    and val: "\<forall>q \<in> set qs. gc_value (gr_chans ?g ! gq_chan q) = Some Continue \<longrightarrow> cont (gq_session q)"
    and dec: "\<forall>q \<in> set qs. gq_decision q = Some Continue \<longrightarrow> cont (gq_session q)"
    and rcv: "\<forall>c < length (gr_chans ?g). gc_receivers (gr_chans ?g ! c) = length (filter (waiting_on c) qs)"
    using cl unfolding gate_inv_def by blast+
  show ?thesis
    unfolding gate_inv_def
  proof (intro conjI ball, goal_cases)
    case 2
    from wlt show ?case by (auto simp del: map_of_eq_Some_iff)
  next
    case 6
    from ses show ?case by (simp only: upd_chan_simps)
  next
    case 7
    have "\<forall>sid. map_of (gr_waiters ?g) sid = Some (gq_chan ?q) \<longrightarrow> sid = gq_session ?q"
      using ses q by blast
    moreover have "gq_chan (?q\<lparr>gq_decision := Some d\<rparr>) = gq_chan ?q"
      and "gq_session (?q\<lparr>gq_decision := Some d\<rparr>) = gq_session ?q" by simp_all
    ultimately show ?case by (simp only: upd_chan_simps)
  next
    case 8
    from val qlt show ?case by simp
  next
    case 9
    from val q qlt show ?case by simp
  next
    case 11
    from cont show ?case by simp
  next
    case 12
    from rcv cnt show ?case by simp
  qed (use dist inj qlt dec q in simp_all)
qed

lemma ghinv_step: "ghinv x \<Longrightarrow> hist gstep x l x' \<Longrightarrow> ghinv x'"
proof (erule hist.cases, goal_cases)
  case (1 s l' s' ls)
  have mono: "continued ls sid \<Longrightarrow> continued (ls @ [l]) sid" for sid
    by (auto simp: continued_def)
  have inv: "gate_inv (gs_gate s) (gs_reqs s) (continued (ls @ [l]))"
    using 1 mono by (auto simp: ghinv_def intro: gate_inv_mono)
  from \<open>gstep s l' s'\<close> have "gate_inv (gs_gate s') (gs_reqs s') (continued (ls @ [l]))"
  proof cases
    case (g_enter sid)
    obtain rx first g where "subscribe sid (gs_gate s) = (rx, first, g)" by (metis prod_cases3)
    with gate_inv_subscribe[OF inv this] g_enter show ?thesis
      by (simp add: gate_enter_def)
  next
    case (g_dialog sid outcome)
    have "outcome \<in> {Yes, OAlways} \<Longrightarrow> continued (ls @ [l]) sid"
      using g_dialog 1 by (auto simp: continued_def says_continue_def)
    with inv g_dialog show ?thesis
      by (cases outcome) (auto simp: dialog_answer_def intro!: gate_inv_resolve)
  next
    case (g_reset sid now)
    have "continued (ls @ [l]) sid" using g_reset 1 by (auto simp: continued_def says_continue_def)
    with inv g_reset show ?thesis
      by (auto simp: circuit_breaker_reset_def Let_def case_prod_unfold intro!: gate_inv_resolve)
  next
    case (g_reset_all now)
    have "continued (ls @ [l]) sid" for sid using g_reset_all 1 by (auto simp: continued_def says_continue_def)
    with inv g_reset_all show ?thesis
      by (auto simp: circuit_breaker_reset_all_def Let_def case_prod_unfold intro!: gate_inv_resolve_all)
  next
    case (g_stop sid)
    with inv show ?thesis
      by (cases sid) (auto simp: circuit_breaker_stop_def case_prod_unfold Let_def intro!: gate_inv_resolve gate_inv_resolve_all)
  next
    case (g_answer k d now)
    with gate_inv_leave[OF inv, of k d] show ?thesis
      by (auto simp: gate_leave_def gate_answer_def Let_def split: option.splits if_splits)
  next
    case (g_timeout k now)
    with gate_inv_leave[OF inv, of k Stop] show ?thesis by (simp add: gate_leave_def Let_def)
  qed (use inv in simp_all)
  with 1 show ?case by (simp add: ghinv_def)
qed

interpretation gate: machine ghinit "hist gstep" ghinv
proof (unfold_locales, goal_cases)
  case (1 x)
  then show ?case
    by (auto simp: ghinit_def ginit_def ghinv_def gate_inv_def GateRegistry_new_def)
qed (rule ghinv_step)

lemma gate_reach: "ginit s0 \<Longrightarrow> run gstep s0 ls s \<Longrightarrow> gate_inv (gs_gate s) (gs_reqs s) (continued ls)"
  using gate.inv_reach[of "(s0, [])" ls "(s, ls)"] run_hist[of gstep s0 ls s "[]"]
  by (simp add: ghinit_def ghinv_def)

section \<open>Properties\<close>

text \<open>
  C12. The gate never lets a runaway session continue by itself: a request that returns with
  \<open>Continue\<close> does so only after a human said so for its session, by the dialog, the reset route or
  reset-all; neither the time-out, a dropped channel nor a dialog that could not be shown continues.
\<close>
theorem gate_continue_needs_human:
  assumes "ginit s0" and "run gstep s0 ls s" and "k < length (gs_reqs s)"
    and "gq_decision (gs_reqs s ! k) = Some Continue"
  shows "\<exists>l \<in> set ls. says_continue (gq_session (gs_reqs s ! k)) l"
  using gate_reach[OF assms(1,2)] assms(3,4) by (auto simp: gate_inv_def continued_def)

text \<open>
  C36. One answer releases every waiter: whenever requests of a session wait on its open channel,
  a decision for the session is what each of them returns next.
\<close>
theorem gate_answer_releases_waiters:
  assumes "ginit s0" and "run gstep s0 ls s" and "k < length (gs_reqs s)"
    and "gq_decision (gs_reqs s ! k) = None"
    and "map_of (gr_waiters (gs_gate s)) (gq_session (gs_reqs s ! k)) = Some (gq_chan (gs_reqs s ! k))"
  shows "gate_answer k (s\<lparr>gs_gate := resolve (gq_session (gs_reqs s ! k)) d (gs_gate s)\<rparr>) = Some d"
proof -
  let ?c = "gq_chan (gs_reqs s ! k)"
  have inv: "gate_inv (gs_gate s) (gs_reqs s) (continued ls)" by (rule gate_reach[OF assms(1,2)])
  have c: "?c < length (gr_chans (gs_gate s))"
    using inv assms(3) by (auto simp: gate_inv_def)
  have "gs_reqs s ! k \<in> set (filter (waiting_on ?c) (gs_reqs s))"
    using assms(3,4) by (simp add: waiting_on_def)
  then have "length (filter (waiting_on ?c) (gs_reqs s)) > 0"
    by (metis length_pos_if_in_set)
  then have "gc_receivers (gr_chans (gs_gate s) ! ?c) > 0"
    using inv c by (simp add: gate_inv_def)
  with c assms(5) show ?thesis
    by (simp add: gate_answer_def resolve_def Let_def)
qed

section \<open>Executions\<close>

text \<open>A deterministic schedule of labels, to exhibit runs: \<open>exec\<close> takes the one step a label
  allows, with the clock at 0.\<close>

definition exec1 :: "glabel \<Rightarrow> gsys \<Rightarrow> gsys option" where
  "exec1 l s = (case l of
       GRecord sid out tool mx \<Rightarrow> Some (s\<lparr>gs_breaker := snd (record_response 0 sid out tool mx (gs_breaker s))\<rparr>)
     | GCheck sid \<Rightarrow> if is_tripped sid (gs_breaker s) then Some (s\<lparr>gs_checked := sid # gs_checked s\<rparr>) else None
     | GEnter sid \<Rightarrow> if sid \<in> set (gs_checked s)
         then Some (gate_enter sid (s\<lparr>gs_checked := remove1 sid (gs_checked s)\<rparr>)) else None
     | GDialog sid outcome \<Rightarrow> if sid \<in> set (gs_dialogs s)
         then Some (s\<lparr>gs_dialogs := remove1 sid (gs_dialogs s), gs_gate := dialog_answer sid outcome (gs_gate s)\<rparr>)
         else None
     | GReset sid \<Rightarrow> Some (snd (circuit_breaker_reset 0 sid s))
     | GResetAll \<Rightarrow> Some (snd (circuit_breaker_reset_all 0 s))
     | GStop sid \<Rightarrow> Some (snd (circuit_breaker_stop sid s))
     | GAnswer k \<Rightarrow> if k < length (gs_reqs s) \<and> gq_decision (gs_reqs s ! k) = None
         then map_option (\<lambda>d. gate_leave 0 k d s) (gate_answer k s) else None
     | GTimeout k \<Rightarrow> if k < length (gs_reqs s) \<and> gq_decision (gs_reqs s ! k) = None
         then Some (gate_leave 0 k Stop s) else None)"

fun exec :: "glabel list \<Rightarrow> gsys \<Rightarrow> gsys option" where
  "exec [] s = Some s"
| "exec (l # ls) s = (case exec1 l s of None \<Rightarrow> None | Some s' \<Rightarrow> exec ls s')"

lemma exec1_gstep: "exec1 l s = Some s' \<Longrightarrow> gstep s l s'"
  by (cases l) (auto simp: exec1_def split: if_splits intro: gstep.intros)

lemma exec_run: "exec ls s = Some t \<Longrightarrow> run gstep s ls t"
  by (induction ls arbitrary: s) (auto split: option.splits intro: run_nil run_cons exec1_gstep)

definition g0 :: gsys where
  "g0 = \<lparr>gs_gate = GateRegistry_new, gs_breaker = CircuitBreaker_new, gs_checked = [],
         gs_reqs = [], gs_dialogs = []\<rparr>"

definition demo_trip :: "glabel list" where
  "demo_trip = [GRecord ''s'' 9 False 8, GCheck ''s'', GEnter ''s'']"

definition g1 :: gsys where "g1 = the (exec demo_trip g0)"
definition g2 :: gsys where "g2 = the (exec (demo_trip @ [GReset ''s'', GAnswer 0]) g0)"

lemma exec_g1: "exec demo_trip g0 = Some g1"
  unfolding g1_def by code_simp

lemma exec_g2: "exec (demo_trip @ [GReset ''s'', GAnswer 0]) g0 = Some g2"
  unfolding g2_def by code_simp

lemma ginit_g0: "ginit g0"
  by (simp add: ginit_def g0_def)

theorem gate_continue_needs_human_witness:
  "\<exists>l \<in> set (demo_trip @ [GReset ''s'', GAnswer 0]). says_continue (gq_session (gs_reqs g2 ! 0)) l"
proof (rule gate_continue_needs_human[OF ginit_g0 exec_run[OF exec_g2]])
  show "0 < length (gs_reqs g2)" and "gq_decision (gs_reqs g2 ! 0) = Some Continue"
    by code_simp+
qed

theorem gate_answer_releases_waiters_witness:
  "gate_answer 0 (g1\<lparr>gs_gate := resolve (gq_session (gs_reqs g1 ! 0)) Stop (gs_gate g1)\<rparr>) = Some Stop"
proof (rule gate_answer_releases_waiters[OF ginit_g0 exec_run[OF exec_g1]])
  show "0 < length (gs_reqs g1)" and "gq_decision (gs_reqs g1 ! 0) = None"
    and "map_of (gr_waiters (gs_gate g1)) (gq_session (gs_reqs g1 ! 0)) = Some (gq_chan (gs_reqs g1 ! 0))"
    by code_simp+
qed

text \<open>
  Leaving the gate clears the session's channel by name, not its own channel: with two
  requests released by one "continue", the second may clear the fresh channel of a third which
  was found tripped before the reset, and the third is stopped although the human only ever said
  continue and no time-out fired.
\<close>
theorem gate_clear_race_stops_unanswered:
  "\<exists>ls s. ginit g0 \<and> run gstep g0 ls s \<and>
     filter says_stop ls = [] \<and>
     length (gs_reqs s) = 3 \<and> gq_decision (gs_reqs s ! 2) = Some Stop"
proof -
  let ?ls = "[GRecord ''s'' 9 False 8, GCheck ''s'', GCheck ''s'', GCheck ''s'', GEnter ''s'', GEnter ''s'',
              GDialog ''s'' Yes, GAnswer 0, GEnter ''s'', GAnswer 1, GAnswer 2]"
  define s where "s = the (exec ?ls g0)"
  have "exec ?ls g0 = Some s" unfolding s_def by code_simp
  moreover have "length (gs_reqs s) = 3" and "gq_decision (gs_reqs s ! 2) = Some Stop"
    unfolding s_def by code_simp+
  ultimately show ?thesis
    using ginit_g0 exec_run by (intro exI[of _ ?ls] exI[of _ s]) (auto simp: says_stop_def)
qed

end
