(* ===== verification/Http.thy ===== *)
theory Http
  imports Prelude
begin

text \<open>
  What the HTTP-facing components share: headers as an association list in the order of the
  message (\<^verbatim>\<open>HeaderMap\<close> keeps names in lower case, a name may repeat), requests and responses.
\<close>

type_synonym headers = "(string \<times> string) list"

text \<open>\<open>HeaderMap\<close> keeps names in lower case; \<open>to_str\<close> succeeds on visible ASCII and tabs.\<close>

definition is_visible_ascii :: "char \<Rightarrow> bool" where
  "is_visible_ascii c = (let n = (of_char c :: nat) in n = 9 \<or> (32 \<le> n \<and> n < 127))"

definition header_str :: "string \<Rightarrow> headers \<Rightarrow> string option" where
  "header_str name hs = opt_filter (list_all is_visible_ascii) (map_of hs name)"

record http_request =
  rq_method :: string
  rq_url :: string
  rq_headers :: headers
  rq_body :: string

record http_response =
  rs_status :: nat
  rs_headers :: headers
  rs_body :: string

end
