(* ===== verification/Gateway.thy ===== *)
theory Gateway
  imports Streaming Pricing Gate Http
begin

text \<open>
  The model gateway: what the provider adapters share, \<^verbatim>\<open>daemon/src/adapter/mod.rs\<close>, with the
  accounting that every request ends in. A request is attributed, gated if its session ran away,
  forwarded, metered and charged to the circuit breaker; a streamed response does the last two when
  its body ends, however it ends.

  The environment \<open>gw_env\<close> of a request holds what lies outside: the configuration, \<^verbatim>\<open>serde_json\<close>, the
  clock, the policy daemon behind its socket, the process table behind the peer address, the upstream
  server, and what the other tasks of the gateway do while the request waits at the gate. Bodies of
  upstream responses are the sequence of chunks and errors that the connection yields. Log lines and
  desktop notifications are not modelled.
\<close>

section \<open>Configuration and state\<close>

datatype ProviderFormat = Anthropic | OpenAI | Google

record ProviderConfig =
  pc_name :: string
  pc_format :: ProviderFormat
  pc_upstream :: string
  pc_models :: "string list"
  pc_timeout_seconds :: nat
  pc_streaming_timeout_seconds :: nat

definition default_for :: "ProviderFormat \<Rightarrow> ProviderConfig" where
  "default_for format =
     (let (name, upstream) =
            (case format of
               Anthropic \<Rightarrow> (''anthropic'', ''https://api.anthropic.com'')
             | OpenAI \<Rightarrow> (''openai'', ''https://api.openai.com'')
             | Google \<Rightarrow> (''google'', ''https://generativelanguage.googleapis.com''))
      in \<lparr>pc_name = name, pc_format = format, pc_upstream = upstream, pc_models = [],
          pc_timeout_seconds = 30, pc_streaming_timeout_seconds = 300\<rparr>)"

text \<open>The two plan classes that the adapters derive from the caller's credential.\<close>

datatype PlanStatus = Included | Overage

record StatsEvent =
  se_trace_id :: string
  se_provider :: string
  se_model :: string
  se_tokens :: TokenCounts
  se_cache_create :: int
  se_cache_read :: int
  se_cost :: "rat option"
  se_latency_ms :: int
  se_status :: string
  se_session_id :: "string option"
  se_mcp_server :: "string option"
  se_mcp_tool :: "string option"
  se_metering :: Metering
  se_plan_status :: PlanStatus
  se_working_dir :: "string option"
  se_agent :: "string option"

record upstream_response =
  us_status :: nat
  us_headers :: headers
  us_items :: "(string + string) list"

record gw_env =
  gx_breaker_enabled :: bool
  gx_max_tokens :: nat
  gx_providers :: "ProviderConfig list"
  gx_parse :: "string \<Rightarrow> json option"
  gx_print :: "json \<Rightarrow> string"
  gx_uuid :: string
  gx_now :: nat
  gx_latency :: int
  gx_stats_room :: bool
  gx_fl :: "rat \<Rightarrow> rat"
  gx_calculator :: CostCalculator
  gx_client :: client_env
  gx_socket :: bool
  gx_task_ok :: bool
  gx_peer :: "(int \<times> string option) option"
  gx_upstream :: "nat \<Rightarrow> http_request \<Rightarrow> string + upstream_response"
  gx_others :: "gsys \<Rightarrow> gsys"

text \<open>The state: gate and breaker, the records handed to the writer, the number of records dropped
  because its queue was full, the requests sent upstream (with their time-out), and the evidence
  files below the agents directory (relative path and time of writing).\<close>

record gw_state =
  gw_sys :: gsys
  gw_stats :: "StatsEvent list"
  gw_dropped :: nat
  gw_sent :: "(nat \<times> http_request) list"
  gw_evidence :: "(string, nat) hashmap"

section \<open>Headers\<close>

definition extract_session_id :: "headers \<Rightarrow> string" where
  "extract_session_id hs =
     unwrap_or (opt_filter (\<lambda>s. s \<noteq> []) (header_str ''x-kyris-session-id'' hs)) ''__default''"

definition extract_trace_token :: "headers \<Rightarrow> string option" where
  "extract_trace_token hs = opt_filter (\<lambda>s. s \<noteq> []) (header_str ''x-kyris-trace-token'' hs)"

definition extract_agent_id :: "headers \<Rightarrow> string option" where
  "extract_agent_id hs = opt_filter (\<lambda>s. s \<noteq> []) (header_str ''x-kyris-agent-id'' hs)"

definition NON_RELAYABLE_HEADERS :: "string list" where
  "NON_RELAYABLE_HEADERS =
     [''content-length'', ''transfer-encoding'', ''connection'', ''keep-alive'', ''te'', ''trailer'',
      ''upgrade'', ''proxy-authenticate'', ''proxy-authorization'']"

definition relay_upstream_headers :: "headers \<Rightarrow> headers" where
  "relay_upstream_headers upstream =
     (let connection_listed =
            (case header_str ''connection'' upstream of
               None \<Rightarrow> []
             | Some v \<Rightarrow> map (\<lambda>s. to_ascii_lowercase (trim s)) (split_on CHR '','' v))
      in filter (\<lambda>(key, value).
           let name = to_ascii_lowercase key
           in \<not> (name \<in> set NON_RELAYABLE_HEADERS \<or> name \<in> set connection_listed)) upstream)"

section \<open>Live evidence\<close>

definition REFRESH_SECS :: nat where
  "REFRESH_SECS = 60"

definition bare_agent_id :: "string \<Rightarrow> string" where
  "bare_agent_id agent_id = last (split_on CHR ''/'' agent_id)"

definition valid_bare_id :: "string \<Rightarrow> bool" where
  "valid_bare_id bare \<longleftrightarrow>
     bare \<noteq> [] \<and> bare \<noteq> ''.'' \<and> bare \<noteq> ''..'' \<and>
     list_all (\<lambda>c. is_ascii_alphanumeric c \<or> c \<in> set ''._-'') bare"

definition surface_path :: "string \<Rightarrow> string \<Rightarrow> string option" where
  "surface_path agent_id surface =
     (let bare = bare_agent_id agent_id
      in if valid_bare_id bare then Some (''.live-seen/'' @ bare @ ''/'' @ surface) else None)"

definition record_in :: "nat \<Rightarrow> string \<Rightarrow> string \<Rightarrow> (string, nat) hashmap \<Rightarrow> (string, nat) hashmap" where
  "record_in now agent_id surface files =
     (case surface_path agent_id surface of
        None \<Rightarrow> files
      | Some path \<Rightarrow>
          (case map_of files path of
             Some modified \<Rightarrow> if modified \<le> now \<and> now - modified < REFRESH_SECS then files
                              else AList.update path now files
           | None \<Rightarrow> AList.update path now files))"

text \<open>A last segment that names a directory (\<open>.\<close>, \<open>..\<close> or nothing) cannot be written as a file.\<close>

definition write_native_seen_breadcrumb :: "nat \<Rightarrow> string \<Rightarrow> (string, nat) hashmap \<Rightarrow> (string, nat) hashmap" where
  "write_native_seen_breadcrumb now agent_id files =
     (let bare = bare_agent_id agent_id; path = ''.native-seen/'' @ bare
      in if bare \<in> {[], ''.'', ''..''} \<or> map_of files path \<noteq> None then files
         else AList.update path now files)"

definition record_agent_traffic :: "gw_env \<Rightarrow> string option \<Rightarrow> string option \<Rightarrow> gw_state \<Rightarrow> gw_state" where
  "record_agent_traffic env agent_id trace_token gw =
     (case agent_id of
        None \<Rightarrow> gw
      | Some aid \<Rightarrow>
          (let files = record_in (gx_now env) aid ''burn_control'' (gw_evidence gw)
           in gw\<lparr>gw_evidence := (if trace_token \<noteq> None
                                 then write_native_seen_breadcrumb (gx_now env) aid files else files)\<rparr>))"

section \<open>Attribution\<close>

definition relay_trace_attach :: "gw_env \<Rightarrow> string \<Rightarrow> string \<Rightarrow> string option" where
  "relay_trace_attach env trace_token trace_id =
     (if gx_socket env \<and> gx_task_ok env then
        case send_trace_attach (gx_client env) trace_token trace_id of Inr working_dir \<Rightarrow> working_dir | Inl e \<Rightarrow> None
      else None)"

record PeerAttribution =
  pa_working_dir :: "string option"
  pa_agent :: "string option"

definition resolve_peer_attribution_blocking :: "gw_env \<Rightarrow> bool \<Rightarrow> PeerAttribution" where
  "resolve_peer_attribution_blocking env need_agent =
     (case gx_peer env of
        None \<Rightarrow> \<lparr>pa_working_dir = None, pa_agent = None\<rparr>
      | Some (pid, working_dir) \<Rightarrow>
          \<lparr>pa_working_dir = working_dir,
           pa_agent = (if need_agent \<and> gx_socket env \<and> 0 \<le> pid \<and> pid < 2 ^ 32
                       then resolve_agent (gx_client env) (nat pid) else None)\<rparr>)"

definition resolve_peer_attribution :: "gw_env \<Rightarrow> bool \<Rightarrow> PeerAttribution" where
  "resolve_peer_attribution env need_agent =
     (if gx_task_ok env then resolve_peer_attribution_blocking env need_agent
      else \<lparr>pa_working_dir = None, pa_agent = None\<rparr>)"

text \<open>The working directory and the agent of a request, as every adapter resolves them.\<close>

definition attribute_request :: "gw_env \<Rightarrow> headers \<Rightarrow> string \<Rightarrow> string option \<times> string option" where
  "attribute_request env hs trace_id =
     (let agent_id = extract_agent_id hs
      in case extract_trace_token hs of
           Some token \<Rightarrow> (relay_trace_attach env token trace_id, agent_id)
         | None \<Rightarrow>
             (let attr = resolve_peer_attribution env (agent_id = None)
              in (pa_working_dir attr, opt_or agent_id (pa_agent attr))))"

section \<open>Accounting\<close>

text \<open>What a request is charged to.\<close>

record relay_ctx =
  rc_trace_id :: string
  rc_model :: string
  rc_provider_name :: string
  rc_session_id :: string
  rc_working_dir :: "string option"
  rc_agent :: "string option"
  rc_plan_status :: PlanStatus

definition charge_breaker :: "gw_env \<Rightarrow> string \<Rightarrow> int \<Rightarrow> bool \<Rightarrow> gw_state \<Rightarrow> bool \<times> gw_state" where
  "charge_breaker env session_id output_tokens tool gw =
     (if gx_breaker_enabled env then
        let (crossed, b) = record_response (gx_now env) session_id output_tokens tool
                             (wrap_i64 (int (gx_max_tokens env))) (gs_breaker (gw_sys gw))
        in (crossed, gw\<lparr>gw_sys := (gw_sys gw)\<lparr>gs_breaker := b\<rparr>\<rparr>)
      else (False, gw))"

definition emit_stats :: "gw_env \<Rightarrow> StatsEvent \<Rightarrow> gw_state \<Rightarrow> gw_state" where
  "emit_stats env event gw =
     (if gx_stats_room env then gw\<lparr>gw_stats := gw_stats gw @ [event]\<rparr>
      else gw\<lparr>gw_dropped := gw_dropped gw + 1\<rparr>)"

definition positive :: "int \<Rightarrow> int option" where
  "positive n = (if n > 0 then Some n else None)"

definition price :: "gw_env \<Rightarrow> string \<Rightarrow> TokenCounts \<times> int \<times> int \<Rightarrow> rat option" where
  "price env model = (\<lambda>(tokens, cache_create, cache_read).
     calculate (gx_fl env) model (tk_input tokens) (tk_output tokens) (positive cache_create)
       (positive cache_read) (gx_calculator env))"

definition stats_event ::
  "gw_env \<Rightarrow> relay_ctx \<Rightarrow> TokenCounts \<times> int \<times> int \<Rightarrow> string \<Rightarrow> Metering \<Rightarrow> StatsEvent" where
  "stats_event env ctx usage status metering =
     \<lparr>se_trace_id = rc_trace_id ctx, se_provider = rc_provider_name ctx, se_model = rc_model ctx,
      se_tokens = fst usage, se_cache_create = fst (snd usage), se_cache_read = snd (snd usage),
      se_cost = price env (rc_model ctx) usage, se_latency_ms = gx_latency env, se_status = status,
      se_session_id = Some (rc_session_id ctx), se_mcp_server = None, se_mcp_tool = None,
      se_metering = metering, se_plan_status = rc_plan_status ctx,
      se_working_dir = rc_working_dir ctx, se_agent = rc_agent ctx\<rparr>"

text \<open>The record of a stream: charged and emitted when the body ends.\<close>

definition finalize_stream ::
  "gw_env \<Rightarrow> relay_ctx \<Rightarrow> (string \<Rightarrow> 'a \<times> bool \<Rightarrow> 'a \<times> bool) \<Rightarrow> ('a \<Rightarrow> TokenCounts \<times> int \<times> int) \<Rightarrow>
   'a stream_state \<Rightarrow> gw_state \<Rightarrow> gw_state" where
  "finalize_stream env ctx feed counts s gw =
     (let (acc, tool) = relay_tally feed s;
          usage = counts acc;
          (crossed, gw) = charge_breaker env (rc_session_id ctx) (tk_output (fst usage)) tool gw;
          metering = (if tk_input (fst usage) = 0 \<and> tk_output (fst usage) = 0
                      then Unavailable_metering else Available_metering)
      in emit_stats env
           (stats_event env ctx usage (if crossed then ''circuit_breaker'' else ''success'') metering) gw)"

text \<open>The record of a buffered response: \<open>usage\<close> is what its body declares.\<close>

definition status_is_success :: "nat \<Rightarrow> bool" where
  "status_is_success status \<longleftrightarrow> 200 \<le> status \<and> status < 300"

definition finalize_buffered ::
  "gw_env \<Rightarrow> relay_ctx \<Rightarrow> nat \<Rightarrow> (TokenCounts \<times> int \<times> int) option \<Rightarrow> bool \<Rightarrow> gw_state \<Rightarrow> gw_state" where
  "finalize_buffered env ctx status parsed tool gw =
     (let metering = (if parsed \<noteq> None then Available_metering else Unavailable_metering);
          usage = unwrap_or parsed (no_tokens, 0, 0);
          (crossed, gw) = charge_breaker env (rc_session_id ctx) (tk_output (fst usage)) tool gw
      in emit_stats env
           (stats_event env ctx usage
              (if \<not> status_is_success status then ''error'' else if crossed then ''circuit_breaker'' else ''success'')
              metering) gw)"

section \<open>The life of a streamed body\<close>

text \<open>\<open>StreamRecordGuard\<close> with the poll function around it: the body is polled any number of times and
  then dropped; a poll past the end or a drop before it runs the finalizer, once.\<close>

record 'a body_state =
  bs_relay :: "'a stream_state"
  bs_items :: "(string + string) list"
  bs_done :: bool
  bs_out :: "(string + string) list"

definition guard_finalize ::
  "('a stream_state \<Rightarrow> gw_state \<Rightarrow> gw_state) \<Rightarrow> 'a body_state \<times> gw_state \<Rightarrow> 'a body_state \<times> gw_state" where
  "guard_finalize fin = (\<lambda>(b, gw).
     if bs_done b then (b, gw) else (b\<lparr>bs_done := True\<rparr>, fin (bs_relay b) gw))"

definition poll_body ::
  "(string \<Rightarrow> 'a stream_state \<Rightarrow> 'a stream_state) \<Rightarrow> ('a stream_state \<Rightarrow> gw_state \<Rightarrow> gw_state) \<Rightarrow>
   'a body_state \<times> gw_state \<Rightarrow> 'a body_state \<times> gw_state" where
  "poll_body chunk_fn fin = (\<lambda>(b, gw).
     if bs_done b then (b, gw)
     else case bs_items b of
            [] \<Rightarrow> guard_finalize fin (b, gw)
          | item # items \<Rightarrow>
              (b\<lparr>bs_items := items, bs_out := bs_out b @ [item],
                 bs_relay := (case item of Inr c \<Rightarrow> chunk_fn c (bs_relay b) | Inl e \<Rightarrow> bs_relay b)\<rparr>, gw))"

definition drop_body ::
  "('a stream_state \<Rightarrow> gw_state \<Rightarrow> gw_state) \<Rightarrow> bool \<Rightarrow> 'a body_state \<times> gw_state \<Rightarrow> 'a body_state \<times> gw_state" where
  "drop_body fin panicking = (\<lambda>(b, gw). if bs_done b \<or> panicking then (b, gw) else guard_finalize fin (b, gw))"

definition new_body :: "'a \<Rightarrow> (string + string) list \<Rightarrow> 'a body_state" where
  "new_body zero items = \<lparr>bs_relay = relay_start zero, bs_items = items, bs_done = False, bs_out = []\<rparr>"

text \<open>The finalizers of the four relays.\<close>

definition anthropic_counts :: "StreamTokenCounts \<Rightarrow> TokenCounts \<times> int \<times> int" where
  "anthropic_counts acc = (st_tokens acc, st_cache_creation_input acc, st_cache_read_input acc)"

definition plain_counts :: "TokenCounts \<Rightarrow> TokenCounts \<times> int \<times> int" where
  "plain_counts acc = (acc, 0, 0)"

definition anthropic_finalize where
  "anthropic_finalize env ctx = finalize_stream env ctx (anthropic_line (gx_parse env)) anthropic_counts"

definition chat_finalize where
  "chat_finalize env ctx = finalize_stream env ctx (chat_line (gx_parse env)) plain_counts"

definition responses_finalize where
  "responses_finalize env ctx = finalize_stream env ctx (responses_line (gx_parse env)) plain_counts"

definition google_finalize where
  "google_finalize env ctx = finalize_stream env ctx (google_line (gx_parse env)) plain_counts"

datatype relay_kind = KMessages | KChat | KResponses | KGoogle

text \<open>A streamed response as its handler returns it.\<close>

record stream_response =
  sm_status :: nat
  sm_headers :: headers
  sm_kind :: relay_kind
  sm_ctx :: relay_ctx
  sm_items :: "(string + string) list"

definition relay_stream :: "relay_kind \<Rightarrow> relay_ctx \<Rightarrow> upstream_response \<Rightarrow> stream_response" where
  "relay_stream kind ctx resp =
     \<lparr>sm_status = us_status resp,
      sm_headers = relay_upstream_headers (us_headers resp) @ [(''x-kyris-trace-id'', rc_trace_id ctx)],
      sm_kind = kind, sm_ctx = ctx, sm_items = us_items resp\<rparr>"

text \<open>Such a body polled \<open>n\<close> times and then dropped: what the client got, and the gateway after it.\<close>

definition consume_body ::
  "(string \<Rightarrow> 'a stream_state \<Rightarrow> 'a stream_state) \<Rightarrow> ('a stream_state \<Rightarrow> gw_state \<Rightarrow> gw_state) \<Rightarrow> 'a \<Rightarrow>
   (string + string) list \<Rightarrow> nat \<Rightarrow> bool \<Rightarrow> gw_state \<Rightarrow> (string + string) list \<times> gw_state" where
  "consume_body chunk_fn fin zero items n panicking gw =
     (let (b, gw) = drop_body fin panicking ((poll_body chunk_fn fin ^^ n) (new_body zero items, gw))
      in (bs_out b, gw))"

definition consume_stream ::
  "gw_env \<Rightarrow> stream_response \<Rightarrow> nat \<Rightarrow> bool \<Rightarrow> gw_state \<Rightarrow> (string + string) list \<times> gw_state" where
  "consume_stream env sm n panicking gw =
     (let parse = gx_parse env; ctx = sm_ctx sm; items = sm_items sm
      in case sm_kind sm of
           KMessages \<Rightarrow> consume_body (anthropic_chunk parse) (anthropic_finalize env ctx) no_stream_tokens items n panicking gw
         | KChat \<Rightarrow> consume_body (chat_chunk parse) (chat_finalize env ctx) no_tokens items n panicking gw
         | KResponses \<Rightarrow> consume_body (responses_chunk parse) (responses_finalize env ctx) no_tokens items n panicking gw
         | KGoogle \<Rightarrow> consume_body (google_chunk parse) (google_finalize env ctx) no_tokens items n panicking gw)"

section \<open>The gate\<close>

text \<open>\<open>await_token_gate\<close> as one request sees it: enter, let the others run, take the answer that is
  there then (or stop, when the decision time-out fires first), leave.\<close>

definition await_token_gate :: "gw_env \<Rightarrow> string \<Rightarrow> gsys \<Rightarrow> GateDecision \<times> gsys" where
  "await_token_gate env session_id s =
     (let k = length (gs_reqs s);
          s = gx_others env (gate_enter session_id s);
          decision = (case gate_answer k s of Some d \<Rightarrow> d | None \<Rightarrow> Stop)
      in (decision, gate_leave (gx_now env) k decision s))"

definition gated :: "gw_env \<Rightarrow> string \<Rightarrow> gw_state \<Rightarrow> bool" where
  "gated env session_id gw \<longleftrightarrow> gx_breaker_enabled env \<and> is_tripped session_id (gs_breaker (gw_sys gw))"

definition send_request :: "gw_env \<Rightarrow> nat \<Rightarrow> http_request \<Rightarrow> gw_state \<Rightarrow> (string + upstream_response) \<times> gw_state" where
  "send_request env timeout_secs req gw =
     (gx_upstream env timeout_secs req, gw\<lparr>gw_sent := gw_sent gw @ [(timeout_secs, req)]\<rparr>)"

text \<open>\<open>gated_streaming_response\<close>: the response starts at once; a task waits at the gate, sending a comment
  line every fifteen seconds, and then relays the upstream answer or the stop event.\<close>

record gated_stream =
  gt_session_id :: string
  gt_trace_id :: string
  gt_stop_chunk :: string
  gt_timeout_secs :: nat
  gt_request :: http_request
  gt_kind :: relay_kind
  gt_ctx :: relay_ctx

definition nl2 :: string where "nl2 = [nl, nl]"

definition gated_headers :: "gated_stream \<Rightarrow> headers" where
  "gated_headers g = [(''content-type'', ''text/event-stream''), (''x-kyris-trace-id'', gt_trace_id g)]"

definition continue_error :: "nat \<Rightarrow> string" where
  "continue_error code =
     ''data: {'' @ [CHR 34] @ ''error'' @ [CHR 34] @ '':{'' @ [CHR 34] @ ''message'' @ [CHR 34] @ '':'' @ [CHR 34]
       @ ''kyrisd upstream error after continue: '' @ display_nat code @ [CHR 34] @ '','' @ [CHR 34] @ ''type''
       @ [CHR 34] @ '':'' @ [CHR 34] @ ''upstream_error'' @ [CHR 34] @ ''}}'' @ nl2"

text \<open>The chunks that the task sends, with the stream that it relays after them, if any.\<close>

definition gated_task ::
  "gw_env \<Rightarrow> gated_stream \<Rightarrow> nat \<Rightarrow> gw_state \<Rightarrow> (string list \<times> stream_response option) \<times> gw_state" where
  "gated_task env g ticks gw =
     (let keep_alive = replicate ticks ('': kyris awaiting approval'' @ nl2);
          (decision, s) = await_token_gate env (gt_session_id g) (gw_sys gw);
          gw = gw\<lparr>gw_sys := s\<rparr>
      in case decision of
           Stop \<Rightarrow> ((keep_alive @ [gt_stop_chunk g], None), gw)
         | Continue \<Rightarrow>
             (case send_request env (gt_timeout_secs g) (gt_request g) gw of
                (Inl e, gw) \<Rightarrow> ((keep_alive @ [continue_error 502], None), gw)
              | (Inr resp, gw) \<Rightarrow> ((keep_alive, Some (relay_stream (gt_kind g) (gt_ctx g) resp)), gw)))"

section \<open>Requests and replies\<close>

record gw_request =
  gq_path :: string
  gq_query :: "string option"
  gq_headers :: headers
  gq_trace_id :: "string option"
  gq_body :: string

datatype gw_reply =
    Failed_with nat
  | Reply http_response
  | Streaming_reply stream_response
  | Gated_reply gated_stream

definition trace_id_of :: "gw_env \<Rightarrow> gw_request \<Rightarrow> string" where
  "trace_id_of env rq = unwrap_or (gq_trace_id rq) (gx_uuid env)"

definition select_provider :: "gw_env \<Rightarrow> ProviderFormat \<Rightarrow> ProviderConfig" where
  "select_provider env format =
     unwrap_or (List.find (\<lambda>p. pc_format p = format) (gx_providers env)) (default_for format)"

definition display_i64 :: "int \<Rightarrow> string" where
  "display_i64 n = (if n < 0 then ''-'' @ display_nat (nat (- n)) else display_nat (nat n))"

definition circuit_breaker_message :: "int \<Rightarrow> string" where
  "circuit_breaker_message token_count =
     ''Circuit breaker: '' @ display_i64 token_count
       @ '' tokens generated without a tool call. The run was stopped '' @ em_dash
       @ '' resume from the Kyris dialog, tray, or app.''"

definition json_response :: "gw_env \<Rightarrow> nat \<Rightarrow> string \<Rightarrow> json \<Rightarrow> http_response" where
  "json_response env status trace_id payload =
     \<lparr>rs_status = status,
      rs_headers = [(''content-type'', ''application/json''), (''x-kyris-trace-id'', trace_id)],
      rs_body = gx_print env payload\<rparr>"

definition no_credential_error :: "gw_env \<Rightarrow> string \<Rightarrow> http_response" where
  "no_credential_error env trace_id =
     json_response env 401 trace_id (JObj [(''error'', JStr
       (''no provider credential supplied; kyrisd forwards your agent'' @ [CHR 39] @
        ''s credential and stores none''))])"

text \<open>\<open>response.bytes()\<close>: the whole body, unless the connection fails on the way.\<close>

definition body_bytes :: "(string + string) list \<Rightarrow> string option" where
  "body_bytes items =
     (if list_all (\<lambda>i. \<not> isl i) items then Some (concat (map projr items)) else None)"

text \<open>Sending, then streaming or buffering; \<open>finish\<close> meters a buffered body.\<close>

definition send_and_finish ::
  "gw_env \<Rightarrow> relay_ctx \<Rightarrow> bool \<Rightarrow> relay_kind \<Rightarrow> nat \<Rightarrow> http_request \<Rightarrow>
   (nat \<Rightarrow> headers \<Rightarrow> string \<Rightarrow> gw_state \<Rightarrow> http_response \<times> gw_state) \<Rightarrow> gw_state \<Rightarrow> gw_reply \<times> gw_state" where
  "send_and_finish env ctx is_stream kind timeout_secs req finish gw =
     (case send_request env timeout_secs req gw of
        (Inl e, gw) \<Rightarrow> (Failed_with 502, gw)
      | (Inr resp, gw) \<Rightarrow>
          if is_stream then (Streaming_reply (relay_stream kind ctx resp), gw)
          else case body_bytes (us_items resp) of
                 None \<Rightarrow> (Failed_with 502, gw)
               | Some body \<Rightarrow> (let (r, gw) = finish (us_status resp) (us_headers resp) body gw in (Reply r, gw)))"

text \<open>The end of every handler: the gate, then sending. \<open>stop\<close> answers a stopped buffered request and
  \<open>stop_chunk\<close> a stopped stream, given the burned tokens.\<close>

definition gate_and_send ::
  "gw_env \<Rightarrow> relay_ctx \<Rightarrow> bool \<Rightarrow> relay_kind \<Rightarrow> (int \<Rightarrow> http_response) \<Rightarrow> (int \<Rightarrow> string) \<Rightarrow> nat \<Rightarrow> http_request \<Rightarrow>
   (nat \<Rightarrow> headers \<Rightarrow> string \<Rightarrow> gw_state \<Rightarrow> http_response \<times> gw_state) \<Rightarrow> gw_state \<Rightarrow> gw_reply \<times> gw_state" where
  "gate_and_send env ctx is_stream kind stop stop_chunk timeout_secs req finish gw =
     (let sid = rc_session_id ctx
      in if gated env sid gw then
           let count = get_token_count sid (gs_breaker (gw_sys gw))
           in if is_stream then
                (Gated_reply \<lparr>gt_session_id = sid, gt_trace_id = rc_trace_id ctx, gt_stop_chunk = stop_chunk count,
                              gt_timeout_secs = timeout_secs, gt_request = req, gt_kind = kind, gt_ctx = ctx\<rparr>, gw)
              else case await_token_gate env sid (gw_sys gw) of
                     (Stop, s) \<Rightarrow> (Reply (stop count), gw\<lparr>gw_sys := s\<rparr>)
                   | (Continue, s) \<Rightarrow>
                       send_and_finish env ctx is_stream kind timeout_secs req finish (gw\<lparr>gw_sys := s\<rparr>)
         else send_and_finish env ctx is_stream kind timeout_secs req finish gw)"

text \<open>A buffered response that is relayed with its headers.\<close>

definition relay_buffered :: "string \<Rightarrow> nat \<Rightarrow> headers \<Rightarrow> string \<Rightarrow> http_response" where
  "relay_buffered trace_id status hs body =
     \<lparr>rs_status = status, rs_headers = relay_upstream_headers hs @ [(''x-kyris-trace-id'', trace_id)], rs_body = body\<rparr>"

section \<open>Facts about the gate\<close>

lemma gate_enter_inv:
  assumes "gate_inv (gs_gate s) (gs_reqs s) cont"
  shows "gate_inv (gs_gate (gate_enter sid s)) (gs_reqs (gate_enter sid s)) cont"
  using gate_inv_subscribe[OF assms]
  by (cases "subscribe sid (gs_gate s)") (auto simp: gate_enter_def)

lemma gate_enter_reqs:
  "\<exists>rx. gs_reqs (gate_enter sid s) = gs_reqs s @ [\<lparr>gq_session = sid, gq_chan = rx, gq_decision = None\<rparr>]"
  by (simp add: gate_enter_def split_beta Let_def)

text \<open>Requests at the gate keep their place, session and channel.\<close>

lemma gstep_reqs:
  assumes "gstep s l s'" and "k < length (gs_reqs s)"
  shows "k < length (gs_reqs s') \<and> gq_session (gs_reqs s' ! k) = gq_session (gs_reqs s ! k) \<and>
     gq_chan (gs_reqs s' ! k) = gq_chan (gs_reqs s ! k)"
  using assms
  by (induction rule: gstep.induct)
     (auto simp: gate_enter_def gate_leave_def circuit_breaker_reset_def circuit_breaker_reset_all_def
       circuit_breaker_stop_def split_beta Let_def nth_append nth_list_update split: option.split)

lemma run_reqs:
  "run gstep s ls s' \<Longrightarrow> k < length (gs_reqs s) \<Longrightarrow>
     k < length (gs_reqs s') \<and> gq_session (gs_reqs s' ! k) = gq_session (gs_reqs s ! k)"
  by (induction rule: run.induct) (auto dest: gstep_reqs)

lemma await_continue:
  assumes "ginit s0" and "run gstep s0 ls s"
    and "run gstep (gate_enter sid s) ms (gx_others env (gate_enter sid s))"
    and "fst (await_token_gate env sid s) = Continue"
  shows "\<exists>l \<in> set (ls @ ms). says_continue sid l"
proof -
  let ?s1 = "gate_enter sid s" and ?k = "length (gs_reqs s)"
  let ?s2 = "gx_others env ?s1"
  have "ghinv (?s1, ls)"
    using gate_enter_inv[OF gate_reach[OF assms(1,2)]] by (simp add: ghinv_def)
  then have "ghinv (?s2, ls @ ms)"
    using gate.inv_run[OF run_hist[OF assms(3)]] by blast
  then have inv: "gate_inv (gs_gate ?s2) (gs_reqs ?s2) (continued (ls @ ms))" by (simp add: ghinv_def)
  obtain rx where r1: "gs_reqs ?s1 = gs_reqs s @ [\<lparr>gq_session = sid, gq_chan = rx, gq_decision = None\<rparr>]"
    using gate_enter_reqs by blast
  have k: "?k < length (gs_reqs ?s2)" and sid: "gq_session (gs_reqs ?s2 ! ?k) = sid"
    using run_reqs[OF assms(3), of ?k] r1 by simp_all
  have "gate_answer ?k ?s2 = Some Continue"
    using assms(4) by (simp add: await_token_gate_def Let_def split: option.splits)
  then have "gc_value (gr_chans (gs_gate ?s2) ! gq_chan (gs_reqs ?s2 ! ?k)) = Some Continue"
    by (simp add: gate_answer_def Let_def split: option.splits if_splits)
  with inv k sid have "continued (ls @ ms) sid" by (auto simp: gate_inv_def)
  then show ?thesis by (simp add: continued_def)
qed

section \<open>Facts about the end of a handler\<close>

lemma emit_stats_simps [simp]:
  "gw_sent (emit_stats env ev gw) = gw_sent gw" "gw_sys (emit_stats env ev gw) = gw_sys gw"
  "length (gw_stats (emit_stats env ev gw)) + gw_dropped (emit_stats env ev gw)
     = length (gw_stats gw) + gw_dropped gw + 1"
  by (simp_all add: emit_stats_def)

lemma charge_breaker_simps [simp]:
  "gw_sent (snd (charge_breaker env sid out tool gw)) = gw_sent gw"
  "gw_stats (snd (charge_breaker env sid out tool gw)) = gw_stats gw"
  "gw_dropped (snd (charge_breaker env sid out tool gw)) = gw_dropped gw"
  by (simp_all add: charge_breaker_def split_beta Let_def)

text \<open>The number of calls accounted for: recorded, or counted as dropped.\<close>

definition accounted :: "gw_state \<Rightarrow> nat" where
  "accounted gw = length (gw_stats gw) + gw_dropped gw"

lemma accounted_emit [simp]: "accounted (emit_stats env ev gw) = accounted gw + 1"
  by (simp add: accounted_def)

lemma accounted_charge [simp]: "accounted (snd (charge_breaker env sid out tool gw)) = accounted gw"
  by (simp add: accounted_def)

lemma finalize_buffered_simps [simp]:
  "gw_sent (finalize_buffered env ctx status parsed tool gw) = gw_sent gw"
  "accounted (finalize_buffered env ctx status parsed tool gw) = accounted gw + 1"
  by (simp_all add: finalize_buffered_def split_beta Let_def)

text \<open>What a finisher of a buffered response promises.\<close>

definition meters_once :: "(nat \<Rightarrow> headers \<Rightarrow> string \<Rightarrow> gw_state \<Rightarrow> http_response \<times> gw_state) \<Rightarrow> bool" where
  "meters_once finish \<longleftrightarrow>
     (\<forall>status hs body gw. gw_sent (snd (finish status hs body gw)) = gw_sent gw \<and>
        accounted (snd (finish status hs body gw)) = accounted gw + 1)"

lemma send_and_finish_facts:
  assumes "meters_once finish" and "send_and_finish env ctx is_stream kind t req finish gw = (reply, gw')"
  shows "gw_sent gw' = gw_sent gw @ [(t, req)]"
    and "accounted gw' = accounted gw + (if \<exists>r. reply = Reply r then 1 else 0)"
    and "reply \<noteq> Gated_reply g"
    and "reply = Streaming_reply sm \<Longrightarrow> sm_ctx sm = ctx \<and> sm_kind sm = kind \<and> is_stream"
  using assms
  by (auto simp: send_and_finish_def send_request_def meters_once_def relay_stream_def accounted_def split_beta Let_def
      split: sum.splits option.splits if_splits)

lemma accounted_sys [simp]: "accounted (gw\<lparr>gw_sys := s\<rparr>) = accounted gw"
  by (simp add: accounted_def)

text \<open>The three ways through the end of a handler.\<close>

lemma gate_and_send_cases:
  assumes "gate_and_send env ctx is_stream kind stop stop_chunk t req finish gw = (reply, gw')"
  obtains (held) g where "gated env (rc_session_id ctx) gw" "is_stream" "reply = Gated_reply g" "gw' = gw"
      "gt_request g = req" "gt_timeout_secs g = t" "gt_session_id g = rc_session_id ctx"
  | (stopped) s r where "gated env (rc_session_id ctx) gw" "reply = Reply r" "gw' = gw\<lparr>gw_sys := s\<rparr>"
  | (sent) s where "send_and_finish env ctx is_stream kind t req finish (gw\<lparr>gw_sys := s\<rparr>) = (reply, gw')"
      "gated env (rc_session_id ctx) gw \<Longrightarrow> fst (await_token_gate env (rc_session_id ctx) (gw_sys gw)) = Continue"
proof (cases "gated env (rc_session_id ctx) gw")
  case True
  obtain d s where aw: "await_token_gate env (rc_session_id ctx) (gw_sys gw) = (d, s)" by fastforce
  show thesis
  proof (cases is_stream)
    case st: True
    let ?g = "\<lparr>gt_session_id = rc_session_id ctx, gt_trace_id = rc_trace_id ctx,
        gt_stop_chunk = stop_chunk (get_token_count (rc_session_id ctx) (gs_breaker (gw_sys gw))),
        gt_timeout_secs = t, gt_request = req, gt_kind = kind, gt_ctx = ctx\<rparr>"
    have "(reply, gw') = (Gated_reply ?g, gw)"
      unfolding assms[symmetric] using True st by (simp add: gate_and_send_def Let_def)
    then have "reply = Gated_reply ?g" "gw' = gw" by blast+
    from held[OF True st this] show thesis by simp
  next
    case ns: False
    show thesis
    proof (cases d)
      case Stop
      have "(reply, gw') = (Reply (stop (get_token_count (rc_session_id ctx) (gs_breaker (gw_sys gw)))), gw\<lparr>gw_sys := s\<rparr>)"
        unfolding assms[symmetric] using True ns aw Stop by (simp add: gate_and_send_def Let_def)
      with stopped[OF True] show thesis by blast
    next
      case Continue
      show thesis
        by (rule sent[of s]) (use True ns assms aw Continue in \<open>simp_all add: gate_and_send_def Let_def\<close>)
    qed
  qed
next
  case False
  with assms sent[of "gw_sys gw"] show thesis by (simp add: gate_and_send_def Let_def)
qed

lemma gate_and_send_facts:
  assumes m: "meters_once finish"
    and e: "gate_and_send env ctx is_stream kind stop stop_chunk t req finish gw = (reply, gw')"
  shows "gw_sent gw' \<in> {gw_sent gw, gw_sent gw @ [(t, req)]} \<and>
     (gated env (rc_session_id ctx) gw \<and> fst (await_token_gate env (rc_session_id ctx) (gw_sys gw)) \<noteq> Continue \<longrightarrow>
        gw_sent gw' = gw_sent gw) \<and>
     accounted gw' = accounted gw + (if (\<exists>r. reply = Reply r) \<and> gw_sent gw' \<noteq> gw_sent gw then 1 else 0) \<and>
     (\<forall>g. reply = Gated_reply g \<longrightarrow> gt_request g = req \<and> gt_session_id g = rc_session_id ctx)"
  using e
proof (cases rule: gate_and_send_cases)
  case (sent s)
  then show ?thesis using send_and_finish_facts(1-3)[OF m sent(1)] by auto
qed simp_all

section \<open>Facts about streamed bodies\<close>

text \<open>The chunks among the items of a body.\<close>

definition chunks_of :: "(string + string) list \<Rightarrow> string list" where
  "chunks_of items = map projr (filter (\<lambda>i. \<not> isl i) items)"

lemma chunks_of_snoc: "chunks_of (xs @ [i]) = chunks_of xs @ (case i of Inr c \<Rightarrow> [c] | Inl e \<Rightarrow> [])"
  by (simp add: chunks_of_def split: sum.split)

lemma poll_done [simp]: "bs_done b \<Longrightarrow> poll_body chunk_fn fin (b, gw) = (b, gw)"
  by (simp add: poll_body_def)

lemma polls:
  fixes zero :: 'a and chunk_fn :: "string \<Rightarrow> 'a stream_state \<Rightarrow> 'a stream_state"
  defines "relay xs \<equiv> fold chunk_fn (chunks_of xs) (relay_start zero)"
  shows "(poll_body chunk_fn fin ^^ n) (new_body zero items, gw) =
     (if n \<le> length items
      then (\<lparr>bs_relay = relay (take n items), bs_items = drop n items, bs_done = False, bs_out = take n items\<rparr>, gw)
      else (\<lparr>bs_relay = relay items, bs_items = [], bs_done = True, bs_out = items\<rparr>, fin (relay items) gw))"
proof (induction n)
  case 0
  show ?case by (simp add: new_body_def relay_def chunks_of_def)
next
  case (Suc n)
  show ?case
  proof (cases "n < length items")
    case True
    then have t: "take (Suc n) items = take n items @ [items ! n]" "drop n items = items ! n # drop (Suc n) items"
      by (simp_all add: take_Suc_conv_app_nth Cons_nth_drop_Suc)
    have r: "relay (take (Suc n) items)
        = (case items ! n of Inr c \<Rightarrow> chunk_fn c (relay (take n items)) | Inl e \<Rightarrow> relay (take n items))"
      unfolding relay_def t(1) chunks_of_snoc by (simp split: sum.split)
    have "(poll_body chunk_fn fin ^^ Suc n) (new_body zero items, gw)
        = poll_body chunk_fn fin (\<lparr>bs_relay = relay (take n items), bs_items = drop n items, bs_done = False,
            bs_out = take n items\<rparr>, gw)"
      using Suc True by simp
    also have "\<dots> = (\<lparr>bs_relay = relay (take (Suc n) items), bs_items = drop (Suc n) items, bs_done = False,
            bs_out = take (Suc n) items\<rparr>, gw)"
      unfolding poll_body_def by (simp add: t(2) r del: drop_Suc split: sum.split) (simp add: t(1))
    finally show ?thesis using True by simp
  next
    case False
    with Suc show ?thesis by (cases "n = length items") (auto simp: poll_body_def guard_finalize_def)
  qed
qed

lemma consume_body_spec:
  "consume_body chunk_fn fin zero items n panicking gw =
     (take n items,
      if panicking \<and> n \<le> length items then gw
      else fin (fold chunk_fn (chunks_of (take n items)) (relay_start zero)) gw)"
  by (simp add: consume_body_def polls drop_body_def guard_finalize_def)

end
