(* ===== verification/Adapters.thy ===== *)
theory Adapters
  imports Gateway
begin

text \<open>
  The provider adapters: \<^verbatim>\<open>daemon/src/adapter/anthropic.rs\<close>, \<^verbatim>\<open>openai.rs\<close> and \<^verbatim>\<open>google.rs\<close> with their
  \<^verbatim>\<open>breaker.rs\<close> responses, and the router that dispatches to them. Every handler is one definition:
  parse, attribute, select the provider, refuse without a credential, build the upstream request, then
  gate, send and meter.
\<close>

section \<open>Anthropic\<close>

definition anthropic_plan_status :: "headers \<Rightarrow> PlanStatus" where
  "anthropic_plan_status hs =
     (let beta = unwrap_or (header_str ''anthropic-beta'' hs) [];
          authz = unwrap_or (header_str ''authorization'' hs) []
      in if sublist ''oauth'' beta \<or> sublist ''sk-ant-oat'' authz then Included else Overage)"

definition anthropic_stop_payload :: "int \<Rightarrow> json" where
  "anthropic_stop_payload token_count =
     JObj [(''type'', JStr ''error''),
           (''error'', JObj [(''type'', JStr ''circuit_breaker''),
                            (''message'', JStr (circuit_breaker_message token_count))])]"

definition anthropic_stop_chunk :: "gw_env \<Rightarrow> int \<Rightarrow> string" where
  "anthropic_stop_chunk env token_count =
     ''event: error'' @ [nl] @ ''data: '' @ gx_print env (anthropic_stop_payload token_count) @ nl2"

definition circuit_breaker_response :: "gw_env \<Rightarrow> string \<Rightarrow> int \<Rightarrow> http_response" where
  "circuit_breaker_response env trace_id token_count =
     json_response env 429 trace_id (anthropic_stop_payload token_count)"

definition has_key :: "string \<Rightarrow> headers \<Rightarrow> bool" where
  "has_key name hs \<longleftrightarrow> map_of hs name \<noteq> None"

definition copy_header :: "string \<Rightarrow> headers \<Rightarrow> headers" where
  "copy_header name hs = (case map_of hs name of None \<Rightarrow> [] | Some v \<Rightarrow> [(name, v)])"

definition anthropic_headers :: "headers \<Rightarrow> headers" where
  "anthropic_headers hs =
     [(''content-type'', ''application/json''), (''anthropic-version'', ''2023-06-01'')]
     @ copy_header ''authorization'' hs @ copy_header ''x-api-key'' hs
     @ filter (\<lambda>(key, value). let name = to_ascii_lowercase key
                              in prefix ''anthropic-'' name \<and> name \<noteq> ''anthropic-version'' \<or> name = ''user-agent'') hs"

definition messages_url :: "ProviderConfig \<Rightarrow> string option \<Rightarrow> string" where
  "messages_url provider raw_query =
     (case raw_query of
        Some q \<Rightarrow> if q \<noteq> [] then pc_upstream provider @ ''/v1/messages?'' @ q else pc_upstream provider @ ''/v1/messages''
      | None \<Rightarrow> pc_upstream provider @ ''/v1/messages'')"

definition timeout_for :: "ProviderConfig \<Rightarrow> bool \<Rightarrow> nat" where
  "timeout_for provider is_stream =
     (if is_stream then pc_streaming_timeout_seconds provider else pc_timeout_seconds provider)"

definition request_ctx :: "gw_env \<Rightarrow> gw_request \<Rightarrow> string \<Rightarrow> string \<Rightarrow> PlanStatus \<Rightarrow> relay_ctx" where
  "request_ctx env rq model provider_name plan_status =
     (let (working_dir, agent) = attribute_request env (gq_headers rq) (trace_id_of env rq)
      in \<lparr>rc_trace_id = trace_id_of env rq, rc_model = model, rc_provider_name = provider_name,
          rc_session_id = extract_session_id (gq_headers rq), rc_working_dir = working_dir, rc_agent = agent,
          rc_plan_status = plan_status\<rparr>)"

definition note_traffic :: "gw_env \<Rightarrow> gw_request \<Rightarrow> gw_state \<Rightarrow> gw_state" where
  "note_traffic env rq =
     record_agent_traffic env (extract_agent_id (gq_headers rq)) (extract_trace_token (gq_headers rq))"

definition model_of :: "json \<Rightarrow> string" where
  "model_of body = unwrap_or (get_str ''model'' body) ''unknown''"

definition stream_of :: "json \<Rightarrow> bool" where
  "stream_of body = unwrap_or (get_bool ''stream'' body) False"

text \<open>The buffered end of \<open>handle_messages\<close>.\<close>

definition finish_messages :: "gw_env \<Rightarrow> relay_ctx \<Rightarrow> nat \<Rightarrow> headers \<Rightarrow> string \<Rightarrow> gw_state \<Rightarrow> http_response \<times> gw_state" where
  "finish_messages env ctx status hs body gw =
     (relay_buffered (rc_trace_id ctx) status hs body,
      finalize_buffered env ctx status
        (map_option (\<lambda>u. (bu_tokens u, bu_cache_create u, bu_cache_read u)) (extract_usage_from_body (gx_parse env) body))
        (anthropic_body_has_tool_call (gx_parse env) body) gw)"

definition handle_messages :: "gw_env \<Rightarrow> gw_request \<Rightarrow> gw_state \<Rightarrow> gw_reply \<times> gw_state" where
  "handle_messages env rq gw =
     (case gx_parse env (gq_body rq) of
        None \<Rightarrow> (Failed_with 400, gw)
      | Some body_value \<Rightarrow>
          (let is_stream = stream_of body_value;
               hs = gq_headers rq;
               gw = note_traffic env rq gw;
               provider = select_provider env Anthropic;
               ctx = request_ctx env rq (model_of body_value) (pc_name provider) (anthropic_plan_status hs)
           in if \<not> has_key ''authorization'' hs \<and> \<not> has_key ''x-api-key'' hs
              then (Reply (no_credential_error env (rc_trace_id ctx)), gw)
              else gate_and_send env ctx is_stream KMessages (circuit_breaker_response env (rc_trace_id ctx))
                     (anthropic_stop_chunk env) (timeout_for provider is_stream)
                     \<lparr>rq_method = ''POST'', rq_url = messages_url provider (gq_query rq),
                      rq_headers = anthropic_headers hs, rq_body = gq_body rq\<rparr>
                     (finish_messages env ctx) gw))"

definition handle_count_tokens :: "gw_env \<Rightarrow> gw_request \<Rightarrow> gw_state \<Rightarrow> gw_reply \<times> gw_state" where
  "handle_count_tokens env rq gw =
     (let provider = select_provider env Anthropic; hs = gq_headers rq
      in if \<not> has_key ''authorization'' hs \<and> \<not> has_key ''x-api-key'' hs
         then (Reply (no_credential_error env (gx_uuid env)), gw)
         else case send_request env (pc_timeout_seconds provider)
                     \<lparr>rq_method = ''POST'', rq_url = pc_upstream provider @ ''/v1/messages/count_tokens'',
                      rq_headers = anthropic_headers hs, rq_body = gq_body rq\<rparr> gw of
                (Inl e, gw) \<Rightarrow> (Failed_with 502, gw)
              | (Inr resp, gw) \<Rightarrow>
                  (case body_bytes (us_items resp) of
                     None \<Rightarrow> (Failed_with 502, gw)
                   | Some body \<Rightarrow>
                       (Reply \<lparr>rs_status = us_status resp,
                               rs_headers = [(''content-type'', ''application/json'')], rs_body = body\<rparr>, gw)))"

section \<open>OpenAI\<close>

definition CHATGPT_CODEX_UPSTREAM :: string where
  "CHATGPT_CODEX_UPSTREAM = ''https://chatgpt.com/backend-api/codex''"

definition responses_upstream_url :: "ProviderConfig \<Rightarrow> headers \<Rightarrow> string" where
  "responses_upstream_url provider hs =
     (if has_key ''chatgpt-account-id'' hs then CHATGPT_CODEX_UPSTREAM @ ''/responses''
      else pc_upstream provider @ ''/v1/responses'')"

definition openai_plan_status :: "headers \<Rightarrow> PlanStatus" where
  "openai_plan_status hs = (if has_key ''chatgpt-account-id'' hs then Included else Overage)"

definition is_forwardable_request_header :: "string \<Rightarrow> bool" where
  "is_forwardable_request_header name \<longleftrightarrow>
     \<not> prefix ''x-kyris-'' name \<and>
     name \<notin> set [''host'', ''content-length'', ''accept-encoding'', ''connection'', ''keep-alive'',
                   ''transfer-encoding'', ''te'', ''trailer'', ''upgrade'', ''proxy-authorization'',
                   ''proxy-authenticate'']"

definition openai_stop_payload :: "int \<Rightarrow> json" where
  "openai_stop_payload token_count =
     JObj [(''error'', JObj [(''message'', JStr (circuit_breaker_message token_count)),
                            (''type'', JStr ''circuit_breaker''), (''code'', JStr ''circuit_breaker'')])]"

definition openai_stop_chunk :: "gw_env \<Rightarrow> int \<Rightarrow> string" where
  "openai_stop_chunk env token_count = ''data: '' @ gx_print env (openai_stop_payload token_count) @ nl2"

definition circuit_breaker_error_openai :: "gw_env \<Rightarrow> string \<Rightarrow> int \<Rightarrow> http_response" where
  "circuit_breaker_error_openai env trace_id token_count =
     json_response env 429 trace_id (openai_stop_payload token_count)"

text \<open>\<open>v[k] = x\<close> for any value: an object is updated, \<open>Null\<close> becomes an object, everything else panics
  (\<open>None\<close>).\<close>

fun index_set :: "string \<Rightarrow> json \<Rightarrow> json \<Rightarrow> json option" where
  "index_set k x (JObj kvs) = Some (JObj (AList.update k x kvs))"
| "index_set k x JNull = Some (JObj [(k, x)])"
| "index_set k x _ = None"

definition inject_stream_usage :: "json \<Rightarrow> json option" where
  "inject_stream_usage body =
     (if Option.bind (get ''stream_options'' body) (get_bool ''include_usage'') = Some False then Some body
      else Option.bind (index_set ''include_usage'' (JBool True) (idx body ''stream_options''))
             (\<lambda>options. index_set ''stream_options'' options body))"

definition finish_completions :: "gw_env \<Rightarrow> relay_ctx \<Rightarrow> nat \<Rightarrow> headers \<Rightarrow> string \<Rightarrow> gw_state \<Rightarrow> http_response \<times> gw_state" where
  "finish_completions env ctx status hs body gw =
     (relay_buffered (rc_trace_id ctx) status hs body,
      finalize_buffered env ctx status (map_option plain_counts (extract_tokens_from_body_openai (gx_parse env) body))
        (chat_body_has_tool_call (gx_parse env) body) gw)"

text \<open>A panic of the handler task is answered by the run-to-completion layer.\<close>

definition handle_completions :: "gw_env \<Rightarrow> gw_request \<Rightarrow> gw_state \<Rightarrow> gw_reply \<times> gw_state" where
  "handle_completions env rq gw =
     (case gx_parse env (gq_body rq) of
        None \<Rightarrow> (Failed_with 400, gw)
      | Some body_value \<Rightarrow>
          (let is_stream = stream_of body_value;
               hs = gq_headers rq;
               gw = note_traffic env rq gw;
               provider = select_provider env OpenAI;
               ctx = request_ctx env rq (model_of body_value) (pc_name provider) (openai_plan_status hs)
           in case (if is_stream then inject_stream_usage body_value else Some body_value) of
                None \<Rightarrow> (Failed_with 500, gw)
              | Some body_value \<Rightarrow>
                  (case map_of hs ''authorization'' of
                     None \<Rightarrow> (Reply (no_credential_error env (rc_trace_id ctx)), gw)
                   | Some authorization \<Rightarrow>
                       gate_and_send env ctx is_stream KChat (circuit_breaker_error_openai env (rc_trace_id ctx))
                         (openai_stop_chunk env) (timeout_for provider is_stream)
                         \<lparr>rq_method = ''POST'', rq_url = pc_upstream provider @ ''/v1/chat/completions'',
                          rq_headers = [(''authorization'', authorization), (''content-type'', ''application/json'')],
                          rq_body = gx_print env body_value\<rparr>
                         (finish_completions env ctx) gw)))"

definition finish_responses :: "gw_env \<Rightarrow> relay_ctx \<Rightarrow> nat \<Rightarrow> headers \<Rightarrow> string \<Rightarrow> gw_state \<Rightarrow> http_response \<times> gw_state" where
  "finish_responses env ctx status hs body gw =
     (relay_buffered (rc_trace_id ctx) status hs body,
      finalize_buffered env ctx status (map_option plain_counts (extract_responses_tokens_from_body (gx_parse env) body))
        (responses_body_has_tool_call (gx_parse env) body) gw)"

definition handle_responses :: "gw_env \<Rightarrow> gw_request \<Rightarrow> gw_state \<Rightarrow> gw_reply \<times> gw_state" where
  "handle_responses env rq gw =
     (case gx_parse env (gq_body rq) of
        None \<Rightarrow> (Failed_with 400, gw)
      | Some body_value \<Rightarrow>
          (let is_stream = stream_of body_value;
               hs = gq_headers rq;
               gw = note_traffic env rq gw;
               provider = select_provider env OpenAI;
               ctx = request_ctx env rq (model_of body_value) (pc_name provider) (openai_plan_status hs)
           in if \<not> has_key ''authorization'' hs
              then (Reply (no_credential_error env (rc_trace_id ctx)), gw)
              else gate_and_send env ctx is_stream KResponses (circuit_breaker_error_openai env (rc_trace_id ctx))
                     (openai_stop_chunk env) (timeout_for provider is_stream)
                     \<lparr>rq_method = ''POST'', rq_url = responses_upstream_url provider hs,
                      rq_headers = filter (\<lambda>(name, value). is_forwardable_request_header name) hs,
                      rq_body = gx_print env body_value\<rparr>
                     (finish_responses env ctx) gw))"

section \<open>Google\<close>

datatype GoogleAction = GenerateContent | StreamGenerateContent

definition parse_model_action :: "string \<Rightarrow> (string \<times> GoogleAction) option" where
  "parse_model_action model_action =
     (case strip_suffix '':generateContent'' model_action of
        Some model \<Rightarrow> Some (model, GenerateContent)
      | None \<Rightarrow>
          (case strip_suffix '':streamGenerateContent'' model_action of
             Some model \<Rightarrow> Some (model, StreamGenerateContent)
           | None \<Rightarrow> None))"

definition query_key :: "string \<Rightarrow> string option" where
  "query_key query =
     (case List.find (\<lambda>pair. case strip_prefix ''key='' pair of None \<Rightarrow> False | Some v \<Rightarrow> v \<noteq> [])
             (split_on CHR ''&'' query) of
        None \<Rightarrow> None
      | Some pair \<Rightarrow> strip_prefix ''key='' pair)"

definition caller_api_key :: "headers \<Rightarrow> string option \<Rightarrow> string option" where
  "caller_api_key hs raw_query =
     (case opt_filter (\<lambda>v. v \<noteq> []) (map_option trim (header_str ''x-goog-api-key'' hs)) of
        Some v \<Rightarrow> Some v
      | None \<Rightarrow> Option.bind raw_query query_key)"

definition google_stop_payload :: "int \<Rightarrow> json" where
  "google_stop_payload token_count =
     JObj [(''error'', JObj [(''code'', JInt 429), (''message'', JStr (circuit_breaker_message token_count)),
                            (''status'', JStr ''RESOURCE_EXHAUSTED'')])]"

definition google_stop_chunk :: "gw_env \<Rightarrow> int \<Rightarrow> string" where
  "google_stop_chunk env token_count = ''data: '' @ gx_print env (google_stop_payload token_count) @ nl2"

definition circuit_breaker_error_google :: "gw_env \<Rightarrow> string \<Rightarrow> int \<Rightarrow> http_response" where
  "circuit_breaker_error_google env trace_id token_count =
     json_response env 429 trace_id (google_stop_payload token_count)"

definition finish_generate_content :: "gw_env \<Rightarrow> relay_ctx \<Rightarrow> nat \<Rightarrow> headers \<Rightarrow> string \<Rightarrow> gw_state \<Rightarrow> http_response \<times> gw_state" where
  "finish_generate_content env ctx status hs body gw =
     (\<lparr>rs_status = status,
       rs_headers = [(''content-type'', ''application/json''), (''x-kyris-trace-id'', rc_trace_id ctx)],
       rs_body = body\<rparr>,
      finalize_buffered env ctx status (map_option plain_counts (extract_tokens_from_body_google (gx_parse env) body))
        (google_body_has_tool_call (gx_parse env) body) gw)"

definition handle_generate_content ::
  "gw_env \<Rightarrow> gw_request \<Rightarrow> string \<Rightarrow> string option \<Rightarrow> gw_state \<Rightarrow> gw_reply \<times> gw_state" where
  "handle_generate_content env rq model caller_key gw =
     (let gw = note_traffic env rq gw;
          provider = select_provider env Google;
          ctx = request_ctx env rq model (pc_name provider) Overage
      in case caller_key of
           None \<Rightarrow> (Reply (no_credential_error env (rc_trace_id ctx)), gw)
         | Some key \<Rightarrow>
             gate_and_send env ctx False KGoogle (circuit_breaker_error_google env (rc_trace_id ctx))
               (google_stop_chunk env) (pc_timeout_seconds provider)
               \<lparr>rq_method = ''POST'',
                rq_url = pc_upstream provider @ ''/v1beta/models/'' @ model @ '':generateContent?key='' @ key,
                rq_headers = [(''content-type'', ''application/json'')], rq_body = gq_body rq\<rparr>
               (finish_generate_content env ctx) gw)"

definition handle_stream_generate_content ::
  "gw_env \<Rightarrow> gw_request \<Rightarrow> string \<Rightarrow> string option \<Rightarrow> gw_state \<Rightarrow> gw_reply \<times> gw_state" where
  "handle_stream_generate_content env rq model caller_key gw =
     (let gw = note_traffic env rq gw;
          provider = select_provider env Google;
          ctx = request_ctx env rq model (pc_name provider) Overage
      in case caller_key of
           None \<Rightarrow> (Reply (no_credential_error env (rc_trace_id ctx)), gw)
         | Some key \<Rightarrow>
             gate_and_send env ctx True KGoogle (circuit_breaker_error_google env (rc_trace_id ctx))
               (google_stop_chunk env) (pc_streaming_timeout_seconds provider)
               \<lparr>rq_method = ''POST'',
                rq_url = pc_upstream provider @ ''/v1beta/models/'' @ model @ '':streamGenerateContent?alt=sse&key='' @ key,
                rq_headers = [(''content-type'', ''application/json'')], rq_body = gq_body rq\<rparr>
               (finish_generate_content env ctx) gw)"

definition handle_model_action :: "gw_env \<Rightarrow> gw_request \<Rightarrow> string \<Rightarrow> gw_state \<Rightarrow> gw_reply \<times> gw_state" where
  "handle_model_action env rq model_action gw =
     (case parse_model_action model_action of
        None \<Rightarrow> (Failed_with 404, gw)
      | Some (model, action) \<Rightarrow>
          (let caller_key = caller_api_key (gq_headers rq) (gq_query rq)
           in case action of
                GenerateContent \<Rightarrow> handle_generate_content env rq model caller_key gw
              | StreamGenerateContent \<Rightarrow> handle_stream_generate_content env rq model caller_key gw))"

section \<open>The router\<close>

definition list_models :: "gw_env \<Rightarrow> json" where
  "list_models env =
     JObj [(''object'', JStr ''list''),
           (''data'', JArr (concat (map (\<lambda>p. map (\<lambda>m. JObj [(''id'', JStr m), (''object'', JStr ''model''),
                                                        (''owned_by'', JStr (pc_name p))]) (pc_models p))
                                      (gx_providers env))))]"

text \<open>\<open>POST\<close> on the routes of the adapters; a path parameter is one segment and not empty.\<close>

definition serve :: "gw_env \<Rightarrow> gw_request \<Rightarrow> gw_state \<Rightarrow> gw_reply \<times> gw_state" where
  "serve env rq gw =
     (if gq_path rq = ''/v1/messages'' then handle_messages env rq gw
      else if gq_path rq = ''/v1/messages/count_tokens'' then handle_count_tokens env rq gw
      else if gq_path rq = ''/v1/chat/completions'' then handle_completions env rq gw
      else if gq_path rq = ''/v1/responses'' then handle_responses env rq gw
      else case strip_prefix ''/v1beta/models/'' (gq_path rq) of
             Some model_action \<Rightarrow>
               if model_action \<noteq> [] \<and> CHR ''/'' \<notin> set model_action
               then handle_model_action env rq model_action gw else (Failed_with 404, gw)
           | None \<Rightarrow> (Failed_with 404, gw))"

section \<open>What every handler does\<close>

text \<open>A request to the provider that is the caller's own: each header is one of the caller's or one of two
  fixed ones, none is a routing header of the gateway, and it carries the caller's credential.\<close>

definition callers_request :: "gw_request \<Rightarrow> http_request \<Rightarrow> bool" where
  "callers_request rq req \<longleftrightarrow>
     (\<forall>h \<in> set (rq_headers req).
        h \<in> set (gq_headers rq) \<union> {(''content-type'', ''application/json''), (''anthropic-version'', ''2023-06-01'')} \<and>
        \<not> prefix ''x-kyris-'' (fst h)) \<and>
     ((\<exists>v. (''authorization'', v) \<in> set (rq_headers req)) \<or> (\<exists>v. (''x-api-key'', v) \<in> set (rq_headers req)) \<or>
      (\<exists>key. caller_api_key (gq_headers rq) (gq_query rq) = Some key \<and> suffix (''key='' @ key) (rq_url req)))"

text \<open>A handler either refuses, touching neither the gate nor the accounts, or ends in the gate with a
  request that is the caller's.\<close>

definition refused :: "gw_state \<Rightarrow> gw_reply \<Rightarrow> gw_state \<Rightarrow> bool" where
  "refused gw reply gw' \<longleftrightarrow>
     gw_sent gw' = gw_sent gw \<and> accounted gw' = accounted gw \<and> gw_sys gw' = gw_sys gw \<and>
     (\<forall>g. reply \<noteq> Gated_reply g) \<and> (\<forall>sm. reply \<noteq> Streaming_reply sm)"

definition governed :: "gw_env \<Rightarrow> gw_request \<Rightarrow> gw_state \<Rightarrow> gw_reply \<Rightarrow> gw_state \<Rightarrow> bool" where
  "governed env rq gw reply gw' \<longleftrightarrow>
     (\<exists>ctx is_stream kind stop stop_chunk t req finish.
        gate_and_send env ctx is_stream kind stop stop_chunk t req finish (note_traffic env rq gw) = (reply, gw') \<and>
        meters_once finish \<and> rc_session_id ctx = extract_session_id (gq_headers rq) \<and> callers_request rq req)"

lemma governedI:
  assumes "gate_and_send env ctx is_stream kind stop stop_chunk t req finish (note_traffic env rq gw) = (reply, gw')"
    and "meters_once finish" and "rc_session_id ctx = extract_session_id (gq_headers rq)" and "callers_request rq req"
  shows "governed env rq gw reply gw'"
  using assms unfolding governed_def by blast

lemma meters_once_finish [simp]:
  "meters_once (finish_messages env ctx)" "meters_once (finish_completions env ctx)"
  "meters_once (finish_responses env ctx)" "meters_once (finish_generate_content env ctx)"
  by (simp_all add: meters_once_def finish_messages_def finish_completions_def finish_responses_def
      finish_generate_content_def)

lemma rc_session_request_ctx [simp]:
  "rc_session_id (request_ctx env rq model name plan) = extract_session_id (gq_headers rq)"
  by (simp add: request_ctx_def split_beta)

lemma note_traffic_simps [simp]:
  "gw_sys (note_traffic env rq gw) = gw_sys gw" "gw_sent (note_traffic env rq gw) = gw_sent gw"
  "accounted (note_traffic env rq gw) = accounted gw"
  by (simp_all add: note_traffic_def record_agent_traffic_def accounted_def Let_def split: option.split)

lemma set_copy_header [simp]: "set (copy_header name hs) = (case map_of hs name of None \<Rightarrow> {} | Some v \<Rightarrow> {(name, v)})"
  by (simp add: copy_header_def split: option.split)

lemma anthropic_headers_ok:
  assumes "has_key ''authorization'' (gq_headers rq) \<or> has_key ''x-api-key'' (gq_headers rq)"
  shows "callers_request rq \<lparr>rq_method = m, rq_url = u, rq_headers = anthropic_headers (gq_headers rq), rq_body = b\<rparr>"
proof -
  have "\<not> prefix ''x-kyris-'' n"
    if "prefix ''anthropic-'' (to_ascii_lowercase n) \<or> to_ascii_lowercase n = ''user-agent''" for n
    using that by (auto simp: prefix_def to_ascii_lowercase_def to_ascii_lower_char_def)
  with assms show ?thesis
    by (auto simp: callers_request_def anthropic_headers_def has_key_def Let_def dest: map_of_SomeD
        split: option.splits)
qed

lemma handle_messages_cases:
  assumes "handle_messages env rq gw = (reply, gw')"
  shows "refused gw reply gw' \<or> governed env rq gw reply gw'"
proof (cases "gx_parse env (gq_body rq)")
  case (Some v)
  show ?thesis
  proof (cases "has_key ''authorization'' (gq_headers rq) \<or> has_key ''x-api-key'' (gq_headers rq)")
    case True
    from assms Some True show ?thesis
      by (intro disjI2, intro governedI[OF _ _ _ anthropic_headers_ok]) (auto simp: handle_messages_def Let_def)
  next
    case False
    with assms Some show ?thesis by (auto simp: handle_messages_def refused_def Let_def)
  qed
qed (use assms in \<open>auto simp: handle_messages_def refused_def\<close>)

lemma handle_completions_cases:
  assumes "handle_completions env rq gw = (reply, gw')"
  shows "refused gw reply gw' \<or> governed env rq gw reply gw'"
proof (cases "gx_parse env (gq_body rq)")
  case (Some v)
  show ?thesis
  proof (cases "if stream_of v then inject_stream_usage v else Some v")
    case None
    with assms Some show ?thesis by (auto simp: handle_completions_def refused_def Let_def)
  next
    case v': (Some v')
    show ?thesis
    proof (cases "map_of (gq_headers rq) ''authorization''")
      case None
      with assms Some v' show ?thesis by (auto simp: handle_completions_def refused_def Let_def)
    next
      case a: (Some a)
      have "callers_request rq \<lparr>rq_method = ''POST'', rq_url = u,
          rq_headers = [(''authorization'', a), (''content-type'', ''application/json'')], rq_body = b\<rparr>" for u b
        using map_of_SomeD[OF a] by (simp add: callers_request_def)
      with assms Some v' a show ?thesis
        by (intro disjI2, intro governedI) (auto simp: handle_completions_def Let_def)
    qed
  qed
qed (use assms in \<open>auto simp: handle_completions_def refused_def\<close>)

lemma handle_responses_cases:
  assumes "handle_responses env rq gw = (reply, gw')"
  shows "refused gw reply gw' \<or> governed env rq gw reply gw'"
proof (cases "gx_parse env (gq_body rq)")
  case (Some v)
  show ?thesis
  proof (cases "map_of (gq_headers rq) ''authorization''")
    case None
    with assms Some show ?thesis by (auto simp: handle_responses_def refused_def has_key_def Let_def)
  next
    case a: (Some a)
    have "callers_request rq \<lparr>rq_method = ''POST'', rq_url = u,
        rq_headers = filter (\<lambda>(name, value). is_forwardable_request_header name) (gq_headers rq), rq_body = b\<rparr>" for u b
      using map_of_SomeD[OF a] by (auto simp: callers_request_def is_forwardable_request_header_def)
    with assms Some a show ?thesis
      by (intro disjI2, intro governedI) (auto simp: handle_responses_def has_key_def Let_def)
  qed
qed (use assms in \<open>auto simp: handle_responses_def refused_def\<close>)

lemma google_request_ok:
  assumes "caller_api_key (gq_headers rq) (gq_query rq) = Some key" and "suffix (''key='' @ key) u"
  shows "callers_request rq \<lparr>rq_method = m, rq_url = u, rq_headers = [(''content-type'', ''application/json'')], rq_body = b\<rparr>"
  using assms by (auto simp: callers_request_def)

lemma handle_model_action_cases:
  assumes "handle_model_action env rq action gw = (reply, gw')"
  shows "refused gw reply gw' \<or> governed env rq gw reply gw'"
proof (cases "parse_model_action action")
  case (Some ma)
  obtain model act where ma: "ma = (model, act)" by (cases ma)
  show ?thesis
  proof (cases "caller_api_key (gq_headers rq) (gq_query rq)")
    case None
    with assms Some ma show ?thesis
      by (cases act) (auto simp: handle_model_action_def handle_generate_content_def
          handle_stream_generate_content_def refused_def Let_def)
  next
    case (Some key)
    with assms \<open>parse_model_action action = Some ma\<close> ma show ?thesis
      by (cases act; intro disjI2, intro governedI[OF _ _ _ google_request_ok[OF Some]])
         (auto simp: handle_model_action_def handle_generate_content_def handle_stream_generate_content_def
           Let_def suffix_def)
  qed
qed (use assms in \<open>auto simp: handle_model_action_def refused_def\<close>)

lemma serve_cases:
  assumes "serve env rq gw = (reply, gw')" and "gq_path rq \<noteq> ''/v1/messages/count_tokens''"
  shows "refused gw reply gw' \<or> governed env rq gw reply gw'"
proof -
  have "refused gw (Failed_with n) gw" for n by (simp add: refused_def)
  with assms show ?thesis
    using handle_messages_cases handle_completions_cases handle_responses_cases handle_model_action_cases
    by (auto simp: serve_def split: if_splits option.splits)
qed

section \<open>Properties\<close>

text \<open>
  C11. A runaway session reaches no model without a human: while the counter of a session is over its
  cap, no route but \<^verbatim>\<open>/v1/messages/count_tokens\<close> sends a request of it upstream, and neither does the
  task behind a held stream, unless somebody said continue for that session, by the dialog, the reset
  route or reset-all. The other tasks may do anything the gate allows while the request waits. Two
  things limit this: the token-counting route is not gated (\<open>count_tokens_is_not_gated\<close>), and a
  request that is stopped or times out at the gate resets the counter, so that the next one passes
  (\<open>stopped_session_passes_again\<close>).
\<close>
theorem runaway_request_needs_human:
  assumes "ginit s0" and "run gstep s0 ls (gw_sys gw)"
    and "run gstep (gate_enter sid (gw_sys gw)) ms (gx_others env (gate_enter sid (gw_sys gw)))"
    and "\<forall>l \<in> set (ls @ ms). \<not> says_continue sid l"
    and "extract_session_id (gq_headers rq) = sid" and "gated env sid gw"
    and "gq_path rq \<noteq> ''/v1/messages/count_tokens''" and "gt_session_id g = sid"
  shows "gw_sent (snd (serve env rq gw)) = gw_sent gw \<and> gw_sent (snd (gated_task env g ticks gw)) = gw_sent gw"
proof -
  have stop: "fst (await_token_gate env sid (gw_sys gw)) \<noteq> Continue"
    using await_continue[OF assms(1-3)] assms(4) by blast
  obtain reply gw' where sv: "serve env rq gw = (reply, gw')" by fastforce
  from serve_cases[OF sv assms(7)] have "gw_sent gw' = gw_sent gw"
  proof
    assume "governed env rq gw reply gw'"
    then obtain ctx is_stream kind st sc t req finish
      where e: "gate_and_send env ctx is_stream kind st sc t req finish (note_traffic env rq gw) = (reply, gw')"
        and m: "meters_once finish" and c: "rc_session_id ctx = sid"
      using assms(5) unfolding governed_def by blast
    from gate_and_send_facts[OF m e] c stop assms(6) show ?thesis by (simp add: gated_def)
  qed (simp add: refused_def)
  moreover have "gw_sent (snd (gated_task env g ticks gw)) = gw_sent gw"
    using stop assms(8) by (auto simp: gated_task_def Let_def split_beta split: GateDecision.split)
  ultimately show ?thesis by (simp add: sv)
qed

text \<open>
  The gateway forwards the caller's own request and nothing else: one request to the gateway sends
  at most one upstream, on every route; each header of it is one the caller sent (or the fixed content
  type and API version), no routing header of the gateway leaves the machine, and it carries the
  caller's credential. The same holds of the request that a held stream keeps for later.
\<close>
theorem upstream_request_is_callers:
  assumes "serve env rq gw = (reply, gw')"
  shows "(gw_sent gw' = gw_sent gw \<or> (\<exists>t req. gw_sent gw' = gw_sent gw @ [(t, req)] \<and> callers_request rq req)) \<and>
     (\<forall>g. reply = Gated_reply g \<longrightarrow> callers_request rq (gt_request g) \<and> gw_sent gw' = gw_sent gw)"
proof (cases "gq_path rq = ''/v1/messages/count_tokens''")
  case True
  then have "handle_count_tokens env rq gw = (reply, gw')" using assms by (simp add: serve_def)
  then show ?thesis
    using anthropic_headers_ok
    by (auto simp: handle_count_tokens_def Let_def send_request_def split: if_splits sum.splits option.splits)
next
  case False
  from serve_cases[OF assms this] show ?thesis
  proof
    assume "governed env rq gw reply gw'"
    then obtain ctx is_stream kind st sc t req finish
      where e: "gate_and_send env ctx is_stream kind st sc t req finish (note_traffic env rq gw) = (reply, gw')"
        and m: "meters_once finish" and c: "callers_request rq req"
      unfolding governed_def by blast
    show ?thesis
      using e
    proof (cases rule: gate_and_send_cases)
      case (sent s)
      then show ?thesis using send_and_finish_facts(1,3)[OF m sent(1)] c by simp
    qed (use c in simp_all)
  qed (simp add: refused_def)
qed

text \<open>
  Every answer that a provider gave is accounted for once: a governed route that answers with a
  buffered upstream response has recorded exactly one call or counted exactly one dropped record, and
  every other reply (an error, a refusal, a stream that only starts now) has recorded none.
\<close>
theorem buffered_answer_is_metered_once:
  assumes "serve env rq gw = (reply, gw')" and "gq_path rq \<noteq> ''/v1/messages/count_tokens''"
  shows "accounted gw' = accounted gw + (if (\<exists>r. reply = Reply r) \<and> gw_sent gw' \<noteq> gw_sent gw then 1 else 0)"
  using serve_cases[OF assms]
proof
  assume "governed env rq gw reply gw'"
  then obtain ctx is_stream kind st sc t req finish
    where e: "gate_and_send env ctx is_stream kind st sc t req finish (note_traffic env rq gw) = (reply, gw')"
      and m: "meters_once finish"
    unfolding governed_def by blast
  from gate_and_send_facts[OF m e] show ?thesis by simp
qed (simp add: refused_def)

text \<open>What a stream of this kind has used, from the chunks that were delivered.\<close>

definition delivered_usage :: "gw_env \<Rightarrow> relay_kind \<Rightarrow> string list \<Rightarrow> (TokenCounts \<times> int \<times> int) \<times> bool" where
  "delivered_usage env kind chunks =
     (case kind of
        KMessages \<Rightarrow> map_prod anthropic_counts id (fold (anthropic_line (gx_parse env)) (lines (concat chunks)) (no_stream_tokens, False))
      | KChat \<Rightarrow> map_prod plain_counts id (fold (chat_line (gx_parse env)) (lines (concat chunks)) (no_tokens, False))
      | KResponses \<Rightarrow> map_prod plain_counts id (fold (responses_line (gx_parse env)) (lines (concat chunks)) (no_tokens, False))
      | KGoogle \<Rightarrow> map_prod plain_counts id
          (fold (google_line (gx_parse env)) (fst (split_ndjson_lines (concat chunks)) @
             lines (snd (split_ndjson_lines (concat chunks)))) (no_tokens, False)))"

lemma finalize_stream_simps [simp]:
  "accounted (finalize_stream env ctx feed counts s gw) = accounted gw + 1"
  "gw_sent (finalize_stream env ctx feed counts s gw) = gw_sent gw"
  "gw_sys (finalize_stream env ctx feed counts s gw)
     = gw_sys (snd (charge_breaker env (rc_session_id ctx) (tk_output (fst (counts (fst (relay_tally feed s)))))
                      (snd (relay_tally feed s)) gw))"
  by (simp_all add: finalize_stream_def split_beta Let_def)


section \<open>Instances\<close>

definition demo_client :: client_env where
  "demo_client = \<lparr>ce_send = (\<lambda>n v. Inl ''down''), ce_uuid = ''u'', ce_mode_from_wire = (\<lambda>s. None),
     ce_ask_context = (\<lambda>v. None), ce_max_command_length = 10\<rparr>"

definition demo_gateway :: gw_env where
  "demo_gateway = \<lparr>gx_breaker_enabled = True, gx_max_tokens = 10, gx_providers = [], gx_parse = (\<lambda>s. Some demo_usage),
     gx_print = (\<lambda>v. ''json''), gx_uuid = ''u'', gx_now = 5, gx_latency = 3, gx_stats_room = True, gx_fl = (\<lambda>x. x),
     gx_calculator = from_table \<lparr>pt_version = ''v'', pt_models = []\<rparr>, gx_client = demo_client, gx_socket = False,
     gx_task_ok = True, gx_peer = None,
     gx_upstream = (\<lambda>t req. Inr \<lparr>us_status = 200, us_headers = [], us_items = [Inr ''x'']\<rparr>),
     gx_others = (\<lambda>s. s)\<rparr>"

definition demo_rq :: gw_request where
  "demo_rq = \<lparr>gq_path = ''/v1/chat/completions'', gq_query = None,
     gq_headers = [(''authorization'', ''key''), (''x-kyris-session-id'', ''s'')], gq_trace_id = Some ''t'', gq_body = ''b''\<rparr>"

definition gw_start :: "gsys \<Rightarrow> gw_state" where
  "gw_start s = \<lparr>gw_sys = s, gw_stats = [], gw_dropped = 0, gw_sent = [], gw_evidence = []\<rparr>"

definition tripped_sys :: gsys where
  "tripped_sys = the (exec [GRecord ''s'' 50 False 10] g0)"

lemma exec_tripped: "exec [GRecord ''s'' 50 False 10] g0 = Some tripped_sys"
  unfolding tripped_sys_def by code_simp

lemma demo_serve:
  "accounted (snd (serve demo_gateway demo_rq (gw_start g0))) = 1 \<and>
   map (rq_headers \<circ> snd) (gw_sent (snd (serve demo_gateway demo_rq (gw_start g0))))
     = [[(''authorization'', ''key''), (''content-type'', ''application/json'')]]"
  by code_simp

lemma demo_reply: "\<exists>r. fst (serve demo_gateway demo_rq (gw_start g0)) = Reply r"
proof -
  have "(case fst (serve demo_gateway demo_rq (gw_start g0)) of Reply r \<Rightarrow> True | _ \<Rightarrow> False)" by code_simp
  then show ?thesis by (simp split: gw_reply.splits)
qed

definition demo_gated :: gated_stream where
  "demo_gated = \<lparr>gt_session_id = ''s'', gt_trace_id = ''t'', gt_stop_chunk = ''stop'',
      gt_timeout_secs = 300, gt_request = \<lparr>rq_method = ''POST'', rq_url = ''u'', rq_headers = [], rq_body = ''b''\<rparr>,
      gt_kind = KChat, gt_ctx = \<lparr>rc_trace_id = ''t'', rc_model = ''m'', rc_provider_name = ''openai'',
        rc_session_id = ''s'', rc_working_dir = None, rc_agent = None, rc_plan_status = Overage\<rparr>\<rparr>"

lemma gw_start_simps [simp]: "gw_sys (gw_start s) = s" "gw_sent (gw_start s) = []"
  by (simp_all add: gw_start_def)

theorem runaway_request_needs_human_witness:
  "gw_sent (snd (serve demo_gateway demo_rq (gw_start tripped_sys))) = gw_sent (gw_start tripped_sys) \<and>
   gw_sent (snd (gated_task demo_gateway demo_gated 2 (gw_start tripped_sys))) = gw_sent (gw_start tripped_sys)"
proof (rule runaway_request_needs_human[OF ginit_g0])
  show "run gstep g0 [GRecord ''s'' 50 False 10] (gw_sys (gw_start tripped_sys))"
    using exec_run[OF exec_tripped] by simp
  show "run gstep (gate_enter ''s'' (gw_sys (gw_start tripped_sys))) []
     (gx_others demo_gateway (gate_enter ''s'' (gw_sys (gw_start tripped_sys))))"
    by (simp add: demo_gateway_def)
  show "\<forall>l \<in> set ([GRecord ''s'' 50 False 10] @ []). \<not> says_continue ''s'' l"
    by (simp add: says_continue_def)
  show "extract_session_id (gq_headers demo_rq) = ''s''" and "gated demo_gateway ''s'' (gw_start tripped_sys)"
    and "gq_path demo_rq \<noteq> ''/v1/messages/count_tokens''" and "gt_session_id demo_gated = ''s''"
    by code_simp+
qed

text \<open>The token-counting route sends upstream for a session over its cap, without asking anybody.\<close>

lemma count_tokens_is_not_gated:
  "gated demo_gateway ''s'' (gw_start tripped_sys) \<and>
   length (gw_sent (snd (serve demo_gateway (demo_rq\<lparr>gq_path := ''/v1/messages/count_tokens''\<rparr>) (gw_start tripped_sys)))) = 1"
  by code_simp

text \<open>A request that nobody answers is stopped when the decision times out; that resets the counter, and
  the next request of the session goes to the provider although nobody said continue.\<close>

lemma stopped_session_passes_again:
  "let gw = snd (serve demo_gateway demo_rq (gw_start tripped_sys))
   in gw_sent gw = [] \<and> length (gw_sent (snd (serve demo_gateway demo_rq gw))) = 1"
  by code_simp

theorem upstream_request_is_callers_witness:
  "\<exists>t req. gw_sent (snd (serve demo_gateway demo_rq (gw_start g0))) = [(t, req)] \<and> callers_request demo_rq req"
proof -
  have "gw_sent (gw_start g0) = []" "gw_sent (snd (serve demo_gateway demo_rq (gw_start g0))) \<noteq> []" by code_simp+
  then show ?thesis
    using upstream_request_is_callers[of demo_gateway demo_rq "gw_start g0"] by (metis append_Nil prod.collapse)
qed

theorem buffered_answer_is_metered_once_witness:
  "accounted (snd (serve demo_gateway demo_rq (gw_start g0))) = 1"
proof -
  have "gw_sent (snd (serve demo_gateway demo_rq (gw_start g0))) \<noteq> gw_sent (gw_start g0)" by code_simp
  then show ?thesis
    using buffered_answer_is_metered_once[of demo_gateway demo_rq "gw_start g0", OF prod.collapse[symmetric]] demo_reply
    by (simp add: gw_start_def accounted_def demo_rq_def)
qed

definition demo_stream :: stream_response where
  "demo_stream = \<lparr>sm_status = 200, sm_headers = [], sm_kind = KChat,
     sm_ctx = \<lparr>rc_trace_id = ''t'', rc_model = ''m'', rc_provider_name = ''openai'', rc_session_id = ''s'',
       rc_working_dir = None, rc_agent = None, rc_plan_status = Overage\<rparr>,
     sm_items = [Inr ''data: '', Inr (''{}'' @ [nl]), Inl ''reset'', Inr ''more'']\<rparr>"


end
