(* ===== verification/McpPolicy.thy ===== *)
theory McpPolicy
  imports PendingRoutes
begin

text \<open>
  How one MCP tool call is decided: the stdio wrapper's \<^verbatim>\<open>mcp/src/policy.rs\<close>, and the contract
  \<open>tool_gate\<close> which this gate and the HTTP gate (theory McpRouting) both promise to the code that
  forwards calls. The environment of a check is the argument \<open>env\<close>: the policy daemon, the
  protocol check, whether the two blocking tasks complete, the terminal and kyrisd.
\<close>

section \<open>The contract of a gate\<close>

text \<open>\<open>verdict\<close> is the policy daemon's answer (\<open>None\<close> when none came), \<open>passes\<close> that the call reaches
  the server, \<open>approved\<close> that a human approved it, \<open>spooled\<close> that it was written to the fail-open
  log.\<close>

locale tool_gate =
  fixes verdict :: "'e \<Rightarrow> 'r \<Rightarrow> McpPermissionDecision option"
    and passes :: "'e \<Rightarrow> 'r \<Rightarrow> bool"
    and approved :: "'e \<Rightarrow> 'r \<Rightarrow> bool"
    and spooled :: "'e \<Rightarrow> 'r \<Rightarrow> bool"
  assumes deny_final: "verdict e r = Some (Deny c reason h) \<Longrightarrow> \<not> passes e r"
    and ask_waits: "verdict e r = Some (Ask i t aa d) \<Longrightarrow> passes e r \<Longrightarrow> approved e r \<or> spooled e r"
    and down_spools: "verdict e r = None \<Longrightarrow> passes e r \<Longrightarrow> spooled e r"
begin

text \<open>Every call that passes is accounted for.\<close>

lemma accounted:
  assumes "passes e r"
  shows "(\<exists>m. verdict e r = Some (Allow m)) \<or> approved e r \<or> spooled e r"
proof (cases "verdict e r")
  case None
  with down_spools assms show ?thesis by blast
next
  case (Some v)
  then show ?thesis
    using deny_final ask_waits assms by (cases v) blast+
qed

lemma unspooled_passes:
  "passes e r \<Longrightarrow> \<not> spooled e r \<Longrightarrow>
     (\<exists>m. verdict e r = Some (Allow m)) \<or> ((\<exists>i t aa d. verdict e r = Some (Ask i t aa d)) \<and> approved e r)"
  using deny_final ask_waits down_spools
  by (cases "verdict e r"; cases "the (verdict e r)") (auto, metis+)

end

section \<open>The stdio gate\<close>

datatype PactDecision = PAllow | PDeny DenyCode string "string option"

record FailOpenRecord =
  fo_agent :: string
  fo_action :: string
  fo_detail :: string
  fo_mcp_server :: string
  fo_working_dir :: "string option"

record mcp_env =
  me_client :: client_env
  me_protocol :: "string + unit"
  me_request_task_ok :: bool
  me_respond_task_ok :: bool
  me_cwd :: "string option"
  me_tty_line :: "string option"
  me_kyrisd :: "poll_env option"

record tool_request =
  tr_server :: string
  tr_tool :: string
  tr_operation :: "string option"
  tr_annotations :: ToolAnnotations
  tr_declared_agent :: "string option"

definition daemon_unavailable_deny :: PactDecision where
  "daemon_unavailable_deny = PDeny DaemonUnreachable daemon_unavailable_message None"

definition no_tty_deny :: PactDecision where
  "no_tty_deny =
     PDeny PolicyDenied ''tool requires approval but no terminal is available''
       (Some (''Approve via the Kyris desktop prompt or app, adjust policy to '' @ [CHR 0x27] @ ''auto''
              @ [CHR 0x27] @ '', or run from a terminal''))"

definition current_working_dir :: "mcp_env \<Rightarrow> string option" where
  "current_working_dir env = opt_filter (\<lambda>dir. dir \<noteq> []) (me_cwd env)"

definition send_permission_request_with_socket ::
  "mcp_env \<Rightarrow> tool_request \<Rightarrow> string + McpPermissionDecision \<times> string" where
  "send_permission_request_with_socket env r =
     request_mcp_tool_permission_with_id (me_client env) ''kyris-mcp'' (tr_server r) (tr_tool r)
       \<lparr>mc_working_dir = current_working_dir env, mc_mcp_operation = tr_operation r,
        mc_annotations = tr_annotations r, mc_declared_agent = tr_declared_agent r\<rparr>"

definition send_permission_response_with_socket ::
  "mcp_env \<Rightarrow> string \<Rightarrow> ApprovalResponse \<Rightarrow> string + unit" where
  "send_permission_response_with_socket env approval_token response =
     map_sum (\<lambda>e. e) (\<lambda>_. ())
       (send_permission_response (me_client env) ''kyris-mcp-resp'' approval_token response)"

text \<open>\<open>me_tty_line\<close> is \<open>None\<close> when the terminal cannot be opened or read. \<open>to_lowercase\<close> is Unicode
  lower-casing; the answers it is compared with are matched by no non-ASCII text.\<close>

definition prompt_user_tty :: "mcp_env \<Rightarrow> bool \<Rightarrow> ApprovalResponse" where
  "prompt_user_tty env allow_always =
     (case me_tty_line env of
        None \<Rightarrow> ApprovalResponse.Denied
      | Some input \<Rightarrow>
          (let trimmed = to_ascii_lowercase (trim input)
           in if trimmed = ''y'' \<or> trimmed = ''yes'' then ApprovalResponse.Approved
              else if trimmed = ''session''
                   then (if allow_always then ApprovalResponse.Always else ApprovalResponse.Approved)
              else ApprovalResponse.Denied))"

definition fail_open_allow :: "mcp_env \<Rightarrow> tool_request \<Rightarrow> PactDecision \<times> FailOpenRecord list" where
  "fail_open_allow env r =
     (PAllow, [\<lparr>fo_agent = ''kyris-mcp'', fo_action = ''call'', fo_detail = tr_tool r,
                fo_mcp_server = tr_server r, fo_working_dir = current_working_dir env\<rparr>])"

definition resolve_ask_via_tty :: "mcp_env \<Rightarrow> string \<Rightarrow> bool \<Rightarrow> PactDecision" where
  "resolve_ask_via_tty env approval_token allow_always =
     (if \<not> me_respond_task_ok env then daemon_unavailable_deny
      else
        (let user_response = prompt_user_tty env allow_always
         in case send_permission_response_with_socket env approval_token user_response of
              Inr _ \<Rightarrow> if allows_execution user_response then PAllow
                       else PDeny PolicyDenied ''User denied'' None
            | Inl reason \<Rightarrow> PDeny DaemonUnreachable reason None))"

text \<open>The answer to the daemon is best effort; its failure is only logged.\<close>

definition deny_ask_immediately :: "mcp_env \<Rightarrow> string \<Rightarrow> PactDecision" where
  "deny_ask_immediately env approval_token =
     (let _ = send_permission_response_with_socket env approval_token ApprovalResponse.Denied
      in no_tty_deny)"

definition mcp_approval :: "tool_request \<Rightarrow> string \<Rightarrow> string \<Rightarrow> bool \<Rightarrow> string option \<Rightarrow> PendingApproval" where
  "mcp_approval r approval_id approval_token allow_always detail =
     \<lparr>pa_approval_id = approval_id, pa_approval_token = approval_token, pa_server = tr_server r,
      pa_tool = tr_tool r, pa_code = None, pa_agent = ''kyris-mcp'',
      pa_allow_always = allow_always, pa_detail = detail\<rparr>"

definition resolve_ask_via_kyrisd ::
  "mcp_env \<Rightarrow> tool_request \<Rightarrow> string \<Rightarrow> string \<Rightarrow> bool \<Rightarrow> string option \<Rightarrow>
     (PactDecision \<times> FailOpenRecord list) option" where
  "resolve_ask_via_kyrisd env r approval_id approval_token allow_always detail =
     (case me_kyrisd env of
        None \<Rightarrow> Some (fail_open_allow env r)
      | Some conn \<Rightarrow>
          map_option
            (\<lambda>(resolution, _).
               case resolution of
                 Resolution.Approved \<Rightarrow> (PAllow, [])
               | Resolution.Denied \<Rightarrow> (no_tty_deny, [])
               | Unreachable \<Rightarrow> fail_open_allow env r
               | Failed _ \<Rightarrow> (deny_ask_immediately env approval_token, []))
            (hold_poll_resolve conn (mcp_approval r approval_id approval_token allow_always detail)))"

text \<open>\<open>check_permission_with_socket\<close>: the decision and what it appended to the fail-open log;
  \<open>None\<close> only if the poll of kyrisd does not end.\<close>

definition check_permission ::
  "mcp_env \<Rightarrow> bool \<Rightarrow> tool_request \<Rightarrow> (PactDecision \<times> FailOpenRecord list) option" where
  "check_permission env has_tty r =
     (case me_protocol env of
        Inl msg \<Rightarrow>
          Some (PDeny PolicyError msg
                  (Some ''Check that kyris and agentpactd use the same protocol version''), [])
      | Inr _ \<Rightarrow>
          if \<not> me_request_task_ok env then Some (fail_open_allow env r)
          else
            (case send_permission_request_with_socket env r of
               Inl _ \<Rightarrow> Some (fail_open_allow env r)
             | Inr (Allow _, _) \<Rightarrow> Some (PAllow, [])
             | Inr (Deny code reason hint, _) \<Rightarrow> Some (PDeny code reason hint, [])
             | Inr (Ask approval_id approval_token allow_always detail, _) \<Rightarrow>
                 if has_tty then Some (resolve_ask_via_tty env approval_token allow_always, [])
                 else resolve_ask_via_kyrisd env r approval_id approval_token allow_always detail))"

section \<open>The stdio gate keeps the contract\<close>

definition stdio_verdict :: "mcp_env \<times> bool \<Rightarrow> tool_request \<Rightarrow> McpPermissionDecision option" where
  "stdio_verdict e r =
     (if \<not> me_request_task_ok (fst e) then None
      else case send_permission_request_with_socket (fst e) r of Inl _ \<Rightarrow> None | Inr (v, _) \<Rightarrow> Some v)"

definition stdio_passes :: "mcp_env \<times> bool \<Rightarrow> tool_request \<Rightarrow> bool" where
  "stdio_passes e r = (case check_permission (fst e) (snd e) r of Some (PAllow, _) \<Rightarrow> True | _ \<Rightarrow> False)"

definition stdio_spooled :: "mcp_env \<times> bool \<Rightarrow> tool_request \<Rightarrow> bool" where
  "stdio_spooled e r = (case check_permission (fst e) (snd e) r of Some (_, l) \<Rightarrow> l \<noteq> [] | None \<Rightarrow> False)"

text \<open>A human approved: at the terminal, and the daemon took the answer, or a status answer of
  kyrisd before the deadline said so.\<close>

definition stdio_approved :: "mcp_env \<times> bool \<Rightarrow> tool_request \<Rightarrow> bool" where
  "stdio_approved e r =
     (case stdio_verdict e r of
        Some (Ask i t aa d) \<Rightarrow>
          if snd e
          then allows_execution (prompt_user_tty (fst e) aa) \<and>
               send_permission_response_with_socket (fst e) t (prompt_user_tty (fst e) aa) = Inr ()
          else (case me_kyrisd (fst e) of
                  None \<Rightarrow> False
                | Some conn \<Rightarrow> (\<exists>j. pl_clock conn j < pl_start conn + POLL_TIMEOUT \<and> said conn j ''approved''))
      | _ \<Rightarrow> False)"

lemma PAllow_no_tty [simp]: "no_tty_deny \<noteq> PAllow" "daemon_unavailable_deny \<noteq> PAllow"
    "PAllow \<noteq> no_tty_deny" "PAllow \<noteq> deny_ask_immediately env t" "deny_ask_immediately env t \<noteq> PAllow"
  by (simp_all add: no_tty_deny_def daemon_unavailable_deny_def deny_ask_immediately_def)

lemma check_permission_ask_tty:
  assumes "stdio_verdict e r = Some (Ask i t aa d)" "snd e" "stdio_passes e r"
  shows "stdio_approved e r"
proof -
  have "resolve_ask_via_tty (fst e) t aa = PAllow"
    using assms by (auto simp: stdio_verdict_def stdio_passes_def check_permission_def
        split: if_splits sum.splits option.splits PactDecision.splits prod.splits)
  with assms(1,2) show ?thesis
    by (auto simp: stdio_approved_def resolve_ask_via_tty_def Let_def split: if_splits sum.splits)
qed

lemma check_permission_ask_kyrisd:
  assumes "stdio_verdict e r = Some (Ask i t aa d)" "\<not> snd e" "stdio_passes e r"
  shows "stdio_approved e r \<or> stdio_spooled e r"
proof -
  have res: "check_permission (fst e) (snd e) r = resolve_ask_via_kyrisd (fst e) r i t aa d"
    using assms by (auto simp: stdio_verdict_def stdio_passes_def check_permission_def
        split: if_splits sum.splits option.splits PactDecision.splits prod.splits)
  show ?thesis
  proof (cases "me_kyrisd (fst e)")
    case None
    then show ?thesis by (simp add: stdio_spooled_def res resolve_ask_via_kyrisd_def fail_open_allow_def)
  next
    case (Some conn)
    let ?a = "mcp_approval r i t aa d"
    obtain rs c where h: "hold_poll_resolve conn ?a = Some (rs, c)"
      using assms(3) Some by (auto simp: stdio_passes_def res resolve_ask_via_kyrisd_def split: option.splits)
    then have w: "hold_poll_resolve_with_timeout conn ?a POLL_TIMEOUT = Some (rs, c)"
      by (simp add: hold_poll_resolve_def)
    show ?thesis
    proof (cases rs)
      case Approved
      then have "\<exists>j. pl_clock conn j < pl_start conn + POLL_TIMEOUT \<and> said conn j ''approved''"
        using w poll_resolve_approved by blast
      with assms(1,2) Some show ?thesis by (simp add: stdio_approved_def)
    next
      case Unreachable
      with h Some show ?thesis
        by (simp add: stdio_spooled_def res resolve_ask_via_kyrisd_def fail_open_allow_def)
    qed (use assms(3) h Some in \<open>auto simp: stdio_passes_def res resolve_ask_via_kyrisd_def
           split: PactDecision.splits\<close>)
  qed
qed

lemma check_permission_verdict:
  assumes "me_protocol (fst e) = Inr u"
  shows "stdio_verdict e r = None \<Longrightarrow> check_permission (fst e) (snd e) r = Some (fail_open_allow (fst e) r)"
    and "stdio_verdict e r = Some (Deny c s h) \<Longrightarrow> check_permission (fst e) (snd e) r = Some (PDeny c s h, [])"
  using assms by (auto simp: stdio_verdict_def check_permission_def split: if_splits sum.splits prod.splits)

lemma stdio_passes_protocol: "stdio_passes e r \<Longrightarrow> \<exists>u. me_protocol (fst e) = Inr u"
  by (cases "me_protocol (fst e)") (auto simp: stdio_passes_def check_permission_def)

interpretation stdio: tool_gate stdio_verdict stdio_passes stdio_approved stdio_spooled
proof (unfold_locales, goal_cases)
  case (1 e r c reason h)
  then show ?case
    using check_permission_verdict(2)[of e _ r c reason h] stdio_passes_protocol[of e r]
    by (auto simp: stdio_passes_def)
next
  case (2 e r i t aa d)
  then show ?case
    using check_permission_ask_tty[of e r i t aa d] check_permission_ask_kyrisd[of e r i t aa d] by blast
next
  case (3 e r)
  then show ?case
    using check_permission_verdict(1)[of e _ r] stdio_passes_protocol[of e r]
    by (auto simp: stdio_spooled_def fail_open_allow_def)
qed

section \<open>Properties\<close>

text \<open>
  C8. A stdio tool call which the wrapper lets through without writing it to the fail-open log
  was allowed by the policy daemon, or was put to the user and approved; in particular a denial
  of the daemon is never overridden, and a failed or timed-out dialog never allows.
\<close>
theorem stdio_call_allowed_or_approved:
  assumes "check_permission env has_tty r = Some (PAllow, [])"
  shows "(\<exists>m. stdio_verdict (env, has_tty) r = Some (Allow m)) \<or>
     ((\<exists>i t aa d. stdio_verdict (env, has_tty) r = Some (Ask i t aa d)) \<and> stdio_approved (env, has_tty) r)"
  using stdio.unspooled_passes[of "(env, has_tty)" r] assms
  by (simp add: stdio_passes_def stdio_spooled_def)

definition demo_mcp :: mcp_env where
  "demo_mcp = \<lparr>me_client = demo_env, me_protocol = Inr (), me_request_task_ok = True,
     me_respond_task_ok = True, me_cwd = Some ''/w'', me_tty_line = None, me_kyrisd = None\<rparr>"

definition demo_req :: tool_request where
  "demo_req = \<lparr>tr_server = ''github'', tr_tool = ''create_issue'', tr_operation = Some ''tools/call'',
     tr_annotations = \<lparr>ta_read_only_hint = None, ta_destructive_hint = None\<rparr>, tr_declared_agent = None\<rparr>"

lemma demo_request: "send_permission_request_with_socket demo_mcp r = Inr (Allow Enforce, ''kyris-mcp-u'')"
  by (cases r) (simp add: send_permission_request_with_socket_def request_mcp_tool_permission_with_id_def
      build_mcp_permission_request_def set_opt_def demo_mcp_def demo_env_def Let_def
      send_daemon_request_with_retry_def drive_retry_def RETRY_BACKOFFS_def
      parse_mcp_permission_response_def get_defs request_id_def current_working_dir_def opt_filter_def
      split: option.split)

lemma demo_check: "check_permission demo_mcp has_tty r = Some (PAllow, [])"
proof -
  have "me_protocol demo_mcp = Inr ()" and "me_request_task_ok demo_mcp" by (simp_all add: demo_mcp_def)
  then show ?thesis by (simp add: check_permission_def demo_request)
qed

theorem stdio_call_allowed_or_approved_witness:
  "\<exists>m. stdio_verdict (demo_mcp, False) demo_req = Some (Allow m)"
  using stdio_call_allowed_or_approved[OF demo_check, of False demo_req]
  by (auto simp: stdio_verdict_def demo_request split: if_splits)

end
