(* ===== verification/McpRouting.thy ===== *)
theory McpRouting
  imports McpPolicy Http
begin

text \<open>
  The HTTP route to MCP servers, \<^verbatim>\<open>daemon/src/mcp_routing/mod.rs\<close> and
  \<^verbatim>\<open>daemon/src/mcp_routing/policy.rs\<close>: the annotation cache, the header filters, the policy check
  and the three forwarding handlers. A handler's result has the response, the request it sent
  upstream (if any), the fail-open records, and the new store and cache. Outside are the JSON
  parser, the policy daemon, the upstream server, and the other tasks that run while a request is
  held.
\<close>

section \<open>Servers and environment\<close>

record McpServerConfig =
  sc_name :: string
  sc_upstream :: string
  sc_working_dir :: "string option"

type_synonym AnnotationCache = "(string \<times> string, ToolAnnotations) hashmap"

record http_env =
  he_client :: client_env
  he_parse :: "string \<Rightarrow> json option"
  he_print :: "json \<Rightarrow> string"
  he_protocol :: "string + unit"
  he_task_ok :: bool
  he_enabled :: bool
  he_servers :: "McpServerConfig list"
  he_now :: nat
  he_others :: "PendingStore \<Rightarrow> PendingStore"
  he_upstream :: "http_request \<Rightarrow> string + http_response"

section \<open>Annotation cache\<close>

definition no_annotations :: ToolAnnotations where
  "no_annotations = \<lparr>ta_read_only_hint = None, ta_destructive_hint = None\<rparr>"

definition lookup :: "string \<Rightarrow> string \<Rightarrow> AnnotationCache \<Rightarrow> ToolAnnotations" where
  "lookup server tool cache = unwrap_or (map_of cache (server, tool)) no_annotations"

definition annotations_of :: "json \<Rightarrow> ToolAnnotations" where
  "annotations_of tool =
     (let annotations = unwrap_or (get ''annotations'' tool) JNull
      in \<lparr>ta_read_only_hint = get_bool ''readOnlyHint'' annotations,
          ta_destructive_hint = get_bool ''destructiveHint'' annotations\<rparr>)"

definition tool_array :: "json \<Rightarrow> json list option" where
  "tool_array v = Option.bind (Option.bind (get ''result'' v) (get ''tools'')) as_array"

definition update_from_response ::
  "(string \<Rightarrow> json option) \<Rightarrow> string \<Rightarrow> string \<Rightarrow> AnnotationCache \<Rightarrow> AnnotationCache" where
  "update_from_response parse server body cache =
     (case Option.bind (parse body) tool_array of
        None \<Rightarrow> cache
      | Some tools \<Rightarrow>
          fold (\<lambda>tool m. case get_str ''name'' tool of
                          None \<Rightarrow> m
                        | Some name \<Rightarrow> AList.update (server, name) (annotations_of tool) m)
            tools cache)"

definition clear_server :: "string \<Rightarrow> AnnotationCache \<Rightarrow> AnnotationCache" where
  "clear_server server cache = filter (\<lambda>((s, t), a). s \<noteq> server) cache"

section \<open>Headers\<close>

definition HOP_BY_HOP_HEADERS :: "string list" where
  "HOP_BY_HOP_HEADERS =
     [''connection'', ''keep-alive'', ''proxy-authenticate'', ''proxy-authorization'', ''te'',
      ''trailer'', ''transfer-encoding'', ''upgrade'']"

definition is_hop_by_hop :: "string \<Rightarrow> bool" where
  "is_hop_by_hop name = list_ex (eq_ignore_ascii_case name) HOP_BY_HOP_HEADERS"

definition forward_request_headers :: "headers \<Rightarrow> headers" where
  "forward_request_headers hs =
     filter (\<lambda>(name, value).
        \<not> (is_hop_by_hop name \<or> eq_ignore_ascii_case name ''host''
           \<or> eq_ignore_ascii_case name ''x-working-dir''
           \<or> eq_ignore_ascii_case name ''x-kyris-agent-id'')) hs"

definition is_sse_response :: "headers \<Rightarrow> bool" where
  "is_sse_response hs =
     (case header_str ''content-type'' hs of None \<Rightarrow> False | Some ct \<Rightarrow> prefix ''text/event-stream'' ct)"

definition build_upstream_response :: "nat \<Rightarrow> headers \<Rightarrow> string \<Rightarrow> http_response" where
  "build_upstream_response status hs body =
     \<lparr>rs_status = status,
      rs_headers = filter (\<lambda>(name, value).
          \<not> (is_hop_by_hop name \<or> eq_ignore_ascii_case name ''content-length''
             \<or> eq_ignore_ascii_case name ''transfer-encoding'')) hs,
      rs_body = body\<rparr>"

definition resolve_server :: "http_env \<Rightarrow> string \<Rightarrow> nat + McpServerConfig" where
  "resolve_server env server_name =
     (if \<not> he_enabled env then Inl 404
      else case List.find (\<lambda>s. sc_name s = server_name) (he_servers env) of
             None \<Rightarrow> Inl 404 | Some s \<Rightarrow> Inr s)"

definition upstream_url :: "string \<Rightarrow> string \<Rightarrow> string" where
  "upstream_url upstream path =
     (let base = trim_end_matches [CHR ''/''] upstream;
          path = trim_start_matches [CHR ''/''] path
      in if path = [] then base else base @ ''/'' @ path)"

section \<open>Policy\<close>

datatype PolicyDecision =
    HAllow
  | HDeny string
  | HAsk string string bool "string option"

fun map_permission_decision :: "McpPermissionDecision \<Rightarrow> PolicyDecision" where
  "map_permission_decision (Allow _) = HAllow"
| "map_permission_decision (Deny _ reason _) = HDeny reason"
| "map_permission_decision (Ask i t aa d) = HAsk i t aa d"

definition extract_json_rpc_method :: "http_env \<Rightarrow> string \<Rightarrow> string option" where
  "extract_json_rpc_method env body = Option.bind (he_parse env body) (get_str ''method'')"

definition is_tools_list_request :: "http_env \<Rightarrow> string \<Rightarrow> string \<Rightarrow> bool" where
  "is_tools_list_request env path body \<longleftrightarrow>
     sublist ''tools/list'' path \<or> extract_json_rpc_method env body = Some ''tools/list''"

definition is_tools_call_request :: "http_env \<Rightarrow> string \<Rightarrow> string \<Rightarrow> bool" where
  "is_tools_call_request env path body \<longleftrightarrow>
     sublist ''tools/call'' path \<or>
     Option.bind (he_parse env body) (get_str ''method'') = Some ''tools/call''"

definition extract_tool_name :: "http_env \<Rightarrow> string \<Rightarrow> string \<Rightarrow> string option" where
  "extract_tool_name env path body =
     (case he_parse env body of
        None \<Rightarrow> None
      | Some parsed \<Rightarrow>
          if \<not> sublist ''tools/call'' path \<and> get_str ''method'' parsed \<noteq> Some ''tools/call'' then None
          else Option.bind (get ''params'' parsed) (get_str ''name''))"

definition http_mcp_context ::
  "string option \<Rightarrow> string option \<Rightarrow> ToolAnnotations \<Rightarrow> string option \<Rightarrow> McpContext" where
  "http_mcp_context working_dir mcp_operation annotations declared_agent =
     \<lparr>mc_working_dir = working_dir, mc_mcp_operation = mcp_operation,
      mc_annotations = annotations, mc_declared_agent = declared_agent\<rparr>"

definition request_permission ::
  "http_env \<Rightarrow> string \<Rightarrow> string \<Rightarrow> McpContext \<Rightarrow> string + PolicyDecision" where
  "request_permission env server_name tool mcp_ctx =
     (if \<not> he_task_ok env then Inl ''permission.request task failed''
      else map_sum (\<lambda>e. e) map_permission_decision
             (request_mcp_tool_permission (he_client env) ''kyris'' server_name tool mcp_ctx))"

definition http_check_permission ::
  "http_env \<Rightarrow> string \<Rightarrow> string \<Rightarrow> string \<Rightarrow> McpContext \<Rightarrow> PolicyDecision \<times> FailOpenRecord list" where
  "http_check_permission env server_name path body mcp_ctx =
     (if \<not> is_tools_call_request env path body then (HAllow, [])
      else case he_protocol env of
             Inl msg \<Rightarrow> (HDeny msg, [])
           | Inr _ \<Rightarrow>
               (let tool = unwrap_or (extract_tool_name env path body) ''unknown''
                in case request_permission env server_name tool mcp_ctx of
                     Inr decision \<Rightarrow> (decision, [])
                   | Inl e \<Rightarrow>
                       (HAllow, [\<lparr>fo_agent = ''kyris-mcp'', fo_action = ''call'', fo_detail = tool,
                                  fo_mcp_server = server_name,
                                  fo_working_dir = mc_working_dir mcp_ctx\<rparr>])))"

section \<open>Handlers\<close>

record post_result =
  po_response :: "nat + http_response"
  po_sent :: "http_request option"
  po_fail_open :: "FailOpenRecord list"
  po_store :: PendingStore
  po_cache :: AnnotationCache

definition json_error :: "http_env \<Rightarrow> nat \<Rightarrow> json \<Rightarrow> http_response" where
  "json_error env status body =
     \<lparr>rs_status = status, rs_headers = [(''content-type'', ''application/json'')],
      rs_body = he_print env body\<rparr>"

text \<open>The end of \<open>forward_mcp_post\<close>: send the request upstream and relay the answer.\<close>

definition send_upstream ::
  "http_env \<Rightarrow> McpServerConfig \<Rightarrow> string \<Rightarrow> headers \<Rightarrow> string \<Rightarrow> FailOpenRecord list \<Rightarrow>
     PendingStore \<Rightarrow> AnnotationCache \<Rightarrow> post_result" where
  "send_upstream env server path hs body lg st cache =
     (let req = \<lparr>rq_method = ''POST'', rq_url = upstream_url (sc_upstream server) path,
                 rq_headers = forward_request_headers hs, rq_body = body\<rparr>
      in case he_upstream env req of
           Inl _ \<Rightarrow> \<lparr>po_response = Inl 502, po_sent = Some req, po_fail_open = lg,
                     po_store = st, po_cache = cache\<rparr>
         | Inr resp \<Rightarrow>
             \<lparr>po_response = Inr (build_upstream_response (rs_status resp) (rs_headers resp) (rs_body resp)),
              po_sent = Some req, po_fail_open = lg, po_store = st,
              po_cache = (if \<not> is_sse_response (rs_headers resp) \<and> is_tools_list_request env path body
                          then update_from_response (he_parse env) (sc_name server) (rs_body resp) cache
                          else cache)\<rparr>)"

definition refuse :: "http_response \<Rightarrow> FailOpenRecord list \<Rightarrow> PendingStore \<Rightarrow> AnnotationCache \<Rightarrow> post_result" where
  "refuse resp lg st cache =
     \<lparr>po_response = Inr resp, po_sent = None, po_fail_open = lg, po_store = st, po_cache = cache\<rparr>"

definition deny_response :: "http_env \<Rightarrow> string \<Rightarrow> http_response" where
  "deny_response env reason =
     (if reason = ''agentpact_unavailable''
      then json_error env 503 (JObj [(''error'', JStr ''agentpact_unavailable''),
             (''detail'', JStr ''AgentPact daemon is unreachable. MCP governance cannot be evaluated.'')])
      else json_error env 403 (JObj [(''error'', JStr reason)]))"

definition working_dir_of :: "McpServerConfig \<Rightarrow> headers \<Rightarrow> string option" where
  "working_dir_of server hs =
     opt_or (opt_filter (\<lambda>s. trim s \<noteq> []) (header_str ''x-working-dir'' hs))
            (opt_filter (\<lambda>s. trim s \<noteq> []) (sc_working_dir server))"

text \<open>\<open>None\<close>: the request is still held, its channel open.\<close>

definition forward_mcp_post ::
  "http_env \<Rightarrow> string \<Rightarrow> string \<Rightarrow> headers \<Rightarrow> string \<Rightarrow> PendingStore \<Rightarrow> AnnotationCache \<Rightarrow>
     post_result option" where
  "forward_mcp_post env server_name path hs body st cache =
     (case resolve_server env server_name of
        Inl code \<Rightarrow> Some \<lparr>po_response = Inl code, po_sent = None, po_fail_open = [],
                         po_store = st, po_cache = cache\<rparr>
      | Inr server \<Rightarrow>
          (let working_dir = working_dir_of server hs
           in if is_tools_call_request env path body \<and> working_dir = None
              then Some (refuse (json_error env 400
                     (JObj [(''error'', JStr ''mcp_working_dir_required''),
                            (''detail'', JStr (''MCP server '' @ [CHR 0x27] @ server_name @ [CHR 0x27] @
                              '' requires either the X-Working-Dir request header or mcp.servers[].working_dir'' @
                              '' in kyrisd.yaml for tools/call policy evaluation.''))])) [] st cache)
              else
                (let tool_name = extract_tool_name env path body;
                     annotations = (case tool_name of None \<Rightarrow> no_annotations
                                    | Some t \<Rightarrow> lookup server_name t cache);
                     declared_agent = opt_filter (\<lambda>s. trim s \<noteq> []) (header_str ''x-kyris-agent-id'' hs);
                     (decision, lg) = http_check_permission env server_name path body
                       (http_mcp_context working_dir (extract_json_rpc_method env body) annotations
                          declared_agent)
                 in case decision of
                      HDeny reason \<Rightarrow> Some (refuse (deny_response env reason) lg st cache)
                    | HAsk approval_id approval_token allow_always detail \<Rightarrow>
                        (let (st1, rx) = hold (he_now env) approval_id approval_token server_name tool_name
                                           None ''kyris-mcp'' allow_always detail st;
                             st2 = he_others env st1
                         in case chans st2 ! rx of
                              Open \<Rightarrow> None
                            | Sent True \<Rightarrow> Some (send_upstream env server path hs body lg st2 cache)
                            | Sent False \<Rightarrow>
                                Some (refuse (json_error env 403 (JObj [(''error'', JStr ''denied by user'')]))
                                        lg st2 cache)
                            | Closed \<Rightarrow>
                                Some (refuse (json_error env 408 (JObj [(''error'', JStr ''request timed out'')]))
                                        lg st2 cache))
                    | HAllow \<Rightarrow> Some (send_upstream env server path hs body lg st cache))))"

definition forward_plain ::
  "string \<Rightarrow> http_env \<Rightarrow> string \<Rightarrow> string \<Rightarrow> headers \<Rightarrow> (nat + http_response) \<times> http_request option" where
  "forward_plain meth env server_name path hs =
     (case resolve_server env server_name of
        Inl code \<Rightarrow> (Inl code, None)
      | Inr server \<Rightarrow>
          (let req = \<lparr>rq_method = meth, rq_url = upstream_url (sc_upstream server) path,
                      rq_headers = forward_request_headers hs, rq_body = []\<rparr>
           in (case he_upstream env req of
                 Inl _ \<Rightarrow> Inl 502
               | Inr resp \<Rightarrow> Inr (build_upstream_response (rs_status resp) (rs_headers resp) (rs_body resp)),
               Some req)))"

definition forward_mcp_get ::
  "http_env \<Rightarrow> string \<Rightarrow> string \<Rightarrow> headers \<Rightarrow> (nat + http_response) \<times> http_request option" where
  "forward_mcp_get = forward_plain ''GET''"

definition forward_mcp_delete ::
  "http_env \<Rightarrow> string \<Rightarrow> string \<Rightarrow> headers \<Rightarrow> (nat + http_response) \<times> http_request option" where
  "forward_mcp_delete = forward_plain ''DELETE''"

section \<open>The HTTP gate keeps the contract\<close>

record http_call =
  hc_server :: string
  hc_path :: string
  hc_headers :: headers
  hc_body :: string
  hc_store :: PendingStore
  hc_cache :: AnnotationCache

definition http_post :: "http_env \<Rightarrow> http_call \<Rightarrow> post_result option" where
  "http_post env r =
     forward_mcp_post env (hc_server r) (hc_path r) (hc_headers r) (hc_body r) (hc_store r) (hc_cache r)"

text \<open>The context which the handler sends with the permission request.\<close>

definition http_context :: "http_env \<Rightarrow> http_call \<Rightarrow> McpContext" where
  "http_context env r =
     http_mcp_context
       (case resolve_server env (hc_server r) of Inl _ \<Rightarrow> None | Inr server \<Rightarrow> working_dir_of server (hc_headers r))
       (extract_json_rpc_method env (hc_body r))
       (case extract_tool_name env (hc_path r) (hc_body r) of None \<Rightarrow> no_annotations
        | Some t \<Rightarrow> lookup (hc_server r) t (hc_cache r))
       (opt_filter (\<lambda>s. trim s \<noteq> []) (header_str ''x-kyris-agent-id'' (hc_headers r)))"

definition http_verdict :: "http_env \<Rightarrow> http_call \<Rightarrow> McpPermissionDecision option" where
  "http_verdict env r =
     (if \<not> he_task_ok env then None
      else case request_mcp_tool_permission (he_client env) ''kyris'' (hc_server r)
                  (unwrap_or (extract_tool_name env (hc_path r) (hc_body r)) ''unknown'')
                  (http_context env r) of
             Inl _ \<Rightarrow> None | Inr v \<Rightarrow> Some v)"

text \<open>A tools/call that was sent upstream.\<close>

definition http_passes :: "http_env \<Rightarrow> http_call \<Rightarrow> bool" where
  "http_passes env r \<longleftrightarrow>
     is_tools_call_request env (hc_path r) (hc_body r) \<and>
     (case http_post env r of None \<Rightarrow> False | Some p \<Rightarrow> po_sent p \<noteq> None)"

definition http_spooled :: "http_env \<Rightarrow> http_call \<Rightarrow> bool" where
  "http_spooled env r = (case http_post env r of None \<Rightarrow> False | Some p \<Rightarrow> po_fail_open p \<noteq> [])"

text \<open>The channel on which the call waited delivered \<open>approved\<close>.\<close>

definition http_approved :: "http_env \<Rightarrow> http_call \<Rightarrow> bool" where
  "http_approved env r =
     (case http_verdict env r of
        Some (Ask i t aa d) \<Rightarrow>
          (let (st1, rx) = hold (he_now env) i t (hc_server r)
                 (extract_tool_name env (hc_path r) (hc_body r)) None ''kyris-mcp'' aa d (hc_store r)
           in chans (he_others env st1) ! rx = Sent True)
      | _ \<Rightarrow> False)"

lemma http_check:
  assumes "is_tools_call_request env (hc_path r) (hc_body r)" and "he_protocol env = Inr u"
  shows "http_check_permission env (hc_server r) (hc_path r) (hc_body r) (http_context env r) =
     (case http_verdict env r of
        None \<Rightarrow> (HAllow, [\<lparr>fo_agent = ''kyris-mcp'', fo_action = ''call'',
                   fo_detail = unwrap_or (extract_tool_name env (hc_path r) (hc_body r)) ''unknown'',
                   fo_mcp_server = hc_server r, fo_working_dir = mc_working_dir (http_context env r)\<rparr>])
      | Some v \<Rightarrow> (map_permission_decision v, []))"
  using assms
  by (auto simp: http_check_permission_def http_verdict_def request_permission_def Let_def split: sum.split)

lemma http_passes_cases:
  assumes "http_passes env r"
  obtains server where "resolve_server env (hc_server r) = Inr server"
    "is_tools_call_request env (hc_path r) (hc_body r)" "working_dir_of server (hc_headers r) \<noteq> None"
    "he_protocol env = Inr ()"
proof -
  from assms obtain server where s: "resolve_server env (hc_server r) = Inr server"
    by (cases "resolve_server env (hc_server r)") (auto simp: http_passes_def http_post_def forward_mcp_post_def)
  moreover have t: "is_tools_call_request env (hc_path r) (hc_body r)"
    using assms by (simp add: http_passes_def)
  moreover have w: "working_dir_of server (hc_headers r) \<noteq> None"
  proof
    assume "working_dir_of server (hc_headers r) = None"
    with assms s t show False by (simp add: http_passes_def http_post_def forward_mcp_post_def refuse_def)
  qed
  moreover have "he_protocol env = Inr ()"
  proof (cases "he_protocol env")
    case (Inl msg)
    with assms s t w show ?thesis
      by (auto simp: http_passes_def http_post_def forward_mcp_post_def http_check_permission_def refuse_def Let_def)
  qed simp
  ultimately show thesis using that by blast
qed

lemma http_post_eq:
  assumes "resolve_server env (hc_server r) = Inr server"
    "is_tools_call_request env (hc_path r) (hc_body r)" "working_dir_of server (hc_headers r) \<noteq> None"
    "he_protocol env = Inr ()"
  shows "http_post env r =
     (case http_check_permission env (hc_server r) (hc_path r) (hc_body r) (http_context env r) of
        (HDeny reason, lg) \<Rightarrow> Some (refuse (deny_response env reason) lg (hc_store r) (hc_cache r))
      | (HAsk i t aa d, lg) \<Rightarrow>
          (let (st1, rx) = hold (he_now env) i t (hc_server r)
                 (extract_tool_name env (hc_path r) (hc_body r)) None ''kyris-mcp'' aa d (hc_store r);
               st2 = he_others env st1
           in case chans st2 ! rx of
                Open \<Rightarrow> None
              | Sent True \<Rightarrow> Some (send_upstream env server (hc_path r) (hc_headers r) (hc_body r) lg st2 (hc_cache r))
              | Sent False \<Rightarrow> Some (refuse (json_error env 403 (JObj [(''error'', JStr ''denied by user'')]))
                                lg st2 (hc_cache r))
              | Closed \<Rightarrow> Some (refuse (json_error env 408 (JObj [(''error'', JStr ''request timed out'')]))
                                lg st2 (hc_cache r)))
      | (HAllow, lg) \<Rightarrow>
          Some (send_upstream env server (hc_path r) (hc_headers r) (hc_body r) lg (hc_store r) (hc_cache r)))"
proof -
  from assms(3) obtain wd where "working_dir_of server (hc_headers r) = Some wd" by blast
  with assms(1,2,4) show ?thesis
    by (cases "http_check_permission env (hc_server r) (hc_path r) (hc_body r) (http_context env r)")
      (simp add: http_post_def forward_mcp_post_def http_context_def Let_def)
qed

lemma send_upstream_log [simp]: "po_fail_open (send_upstream env server path hs body lg st cache) = lg"
  by (simp add: send_upstream_def Let_def split: sum.split)

interpretation http: tool_gate http_verdict http_passes http_approved http_spooled
proof (unfold_locales, goal_cases)
  case (1 env r c reason h)
  show ?case
  proof
    assume "http_passes env r"
    then show False
    proof (cases rule: http_passes_cases)
      case (1 server)
      with \<open>http_verdict env r = _\<close> \<open>http_passes env r\<close> show False
        by (simp add: http_passes_def http_post_eq http_check refuse_def)
    qed
  qed
next
  case (2 env r i t aa d)
  from 2(2) show ?case
  proof (cases rule: http_passes_cases)
    case (1 server)
    with 2 show ?thesis
      by (auto simp: http_passes_def http_post_eq http_check refuse_def http_approved_def Let_def
          split: prod.splits chan.splits bool.splits)
  qed
next
  case (3 env r)
  from 3(2) show ?case
  proof (cases rule: http_passes_cases)
    case (1 server)
    with 3 show ?thesis by (simp add: http_spooled_def http_post_eq http_check)
  qed
qed

section \<open>Properties\<close>

text \<open>
  C9. A routed tools/call that was sent upstream without a fail-open record was allowed by the
  policy daemon, or the daemon asked and the channel on which the request was held delivered
  \<open>approved\<close>; a denial, a time-out, a cancellation or a protocol mismatch never forwards.
\<close>
theorem http_call_allowed_or_approved:
  assumes "is_tools_call_request env (hc_path r) (hc_body r)"
    and "http_post env r = Some p" and "po_sent p \<noteq> None" and "po_fail_open p = []"
  shows "(\<exists>m. http_verdict env r = Some (Allow m)) \<or>
     ((\<exists>i t aa d. http_verdict env r = Some (Ask i t aa d)) \<and> http_approved env r)"
  using http.unspooled_passes[of env r] assms
  by (simp add: http_passes_def http_spooled_def)

definition demo_http :: http_env where
  "demo_http = \<lparr>he_client = demo_env,
     he_parse = (\<lambda>b. if b = ''call'' then Some (JObj [(''method'', JStr ''tools/call'')])
                    else if b = ''[call]'' then Some (JArr [JObj [(''method'', JStr ''tools/call'')]]) else None),
     he_print = (\<lambda>v. ''{}''), he_protocol = Inr (), he_task_ok = True, he_enabled = True,
     he_servers = [\<lparr>sc_name = ''github'', sc_upstream = ''http://up/'', sc_working_dir = Some ''/w''\<rparr>],
     he_now = 0, he_others = (\<lambda>st. st),
     he_upstream = (\<lambda>q. Inr \<lparr>rs_status = 200, rs_headers = [], rs_body = ''ok''\<rparr>)\<rparr>"

definition demo_call :: "string \<Rightarrow> http_call" where
  "demo_call body = \<lparr>hc_server = ''github'', hc_path = ''mcp'', hc_headers = [], hc_body = body,
     hc_store = PendingStore_new, hc_cache = []\<rparr>"

lemma demo_working_dir: "trim ''/w'' \<noteq> []"
  by code_simp

lemmas demo_http_defs = demo_http_def demo_call_def resolve_server_def working_dir_of_def header_str_def
  extract_tool_name_def extract_json_rpc_method_def is_tools_call_request_def get_defs opt_filter_def

lemma demo_call_defs:
  "resolve_server demo_http ''github'' = Inr \<lparr>sc_name = ''github'', sc_upstream = ''http://up/'', sc_working_dir = Some ''/w''\<rparr>"
  "is_tools_call_request demo_http ''mcp'' ''call''"
  by (simp_all add: demo_http_defs)

lemma demo_verdict: "http_verdict demo_http (demo_call ''call'') = Some (Allow Enforce)"
  by (simp add: http_verdict_def request_mcp_tool_permission_def request_mcp_tool_permission_with_id_def
      send_daemon_request_with_retry_def drive_retry_def RETRY_BACKOFFS_def Let_def
      parse_mcp_permission_response_def demo_env_def demo_http_def get_defs)

lemma demo_post:
  "\<exists>p. http_post demo_http (demo_call ''call'') = Some p \<and> po_sent p \<noteq> None \<and> po_fail_open p = []"
proof -
  let ?r = "demo_call ''call''"
  let ?server = "\<lparr>sc_name = ''github'', sc_upstream = ''http://up/'', sc_working_dir = Some ''/w''\<rparr>"
  have r: "resolve_server demo_http (hc_server ?r) = Inr ?server"
      "is_tools_call_request demo_http (hc_path ?r) (hc_body ?r)"
      "working_dir_of ?server (hc_headers ?r) \<noteq> None" "he_protocol demo_http = Inr ()"
    using demo_call_defs demo_working_dir
    by (simp_all add: demo_call_def working_dir_of_def header_str_def opt_filter_def demo_http_def)
  show ?thesis
    by (simp add: http_post_eq[OF r] http_check[OF r(2,4)] demo_verdict)
      (simp add: send_upstream_def Let_def split: sum.split)
qed

theorem http_call_allowed_or_approved_witness:
  "\<exists>m. http_verdict demo_http (demo_call ''call'') = Some (Allow m)"
proof -
  obtain p where p: "http_post demo_http (demo_call ''call'') = Some p" "po_sent p \<noteq> None" "po_fail_open p = []"
    using demo_post by blast
  have "is_tools_call_request demo_http (hc_path (demo_call ''call'')) (hc_body (demo_call ''call''))"
    using demo_call_defs(2) by (simp add: demo_call_def)
  from http_call_allowed_or_approved[OF this p] show ?thesis by (auto simp: demo_verdict)
qed

text \<open>
  A JSON-RPC batch is not governed: when the body is a JSON array, whatever calls it holds,
  and the path does not name tools/call, the handler sends it upstream unchanged, with no fail-open
  record, for every policy daemon, so no verdict can stop it.
\<close>
theorem http_batch_is_forwarded_ungoverned:
  assumes "he_parse env body = Some (JArr vs)" and "\<not> sublist ''tools/call'' path"
    and "resolve_server env server_name = Inr server"
  shows "\<forall>daemon. \<exists>p. forward_mcp_post (env\<lparr>he_client := daemon\<rparr>) server_name path hs body st cache = Some p \<and>
     po_sent p = Some \<lparr>rq_method = ''POST'', rq_url = upstream_url (sc_upstream server) path,
                      rq_headers = forward_request_headers hs, rq_body = body\<rparr> \<and>
     po_fail_open p = []"
proof
  fix daemon
  have "\<not> is_tools_call_request (env\<lparr>he_client := daemon\<rparr>) path body"
    and "resolve_server (env\<lparr>he_client := daemon\<rparr>) server_name = Inr server"
    using assms by (auto simp: is_tools_call_request_def get_str_def resolve_server_def split: if_splits)
  then show "\<exists>p. forward_mcp_post (env\<lparr>he_client := daemon\<rparr>) server_name path hs body st cache = Some p \<and>
     po_sent p = Some \<lparr>rq_method = ''POST'', rq_url = upstream_url (sc_upstream server) path,
                      rq_headers = forward_request_headers hs, rq_body = body\<rparr> \<and>
     po_fail_open p = []"
    by (simp add: forward_mcp_post_def http_check_permission_def send_upstream_def Let_def split: sum.split)
qed

theorem http_batch_is_forwarded_ungoverned_witness:
  "\<forall>daemon. \<exists>p. forward_mcp_post (demo_http\<lparr>he_client := daemon\<rparr>) ''github'' ''mcp'' [] ''[call]'' PendingStore_new []
     = Some p \<and> po_fail_open p = [] \<and> map_option rq_body (po_sent p) = Some ''[call]''"
proof -
  have b: "he_parse demo_http ''[call]'' = Some (JArr [JObj [(''method'', JStr ''tools/call'')]])"
    by (simp add: demo_http_def)
  have p: "\<not> sublist ''tools/call'' ''mcp''" by code_simp
  note t = http_batch_is_forwarded_ungoverned[OF b p demo_call_defs(1), of "[]" PendingStore_new "[]"]
  show ?thesis
  proof
    fix daemon
    show "\<exists>p. forward_mcp_post (demo_http\<lparr>he_client := daemon\<rparr>) ''github'' ''mcp'' [] ''[call]'' PendingStore_new []
       = Some p \<and> po_fail_open p = [] \<and> map_option rq_body (po_sent p) = Some ''[call]''"
      using spec[OF t, of daemon] by auto
  qed
qed

end
