(* ===== verification/Relay.thy ===== *)
theory Relay
  imports McpPolicy
begin

text \<open>
  The stdio MCP wrapper: message classification (\<^verbatim>\<open>mcp/src/framing.rs\<close>), framing and the
  relay (\<^verbatim>\<open>mcp/src/relay.rs\<close>). A buffered reader is the list of the buffers that \<open>fill_buf\<close>
  will return. The JSON parser and printer are the arguments \<open>parse\<close> and \<open>print\<close>. The reader, the
  policy task, the child writer and the server relay run concurrently; \<open>rstep\<close> interleaves them
  over the two bounded channels.
\<close>

section \<open>Classification\<close>

type_synonym parser = "string \<Rightarrow> json option"

definition is_tools_call :: "parser \<Rightarrow> string \<Rightarrow> bool" where
  "is_tools_call parse message \<longleftrightarrow> Option.bind (parse message) (get_str ''method'') = Some ''tools/call''"

definition tools_of :: "json \<Rightarrow> json list option" where
  "tools_of v = Option.bind (Option.bind (get ''result'' v) (get ''tools'')) as_array"

definition is_tools_list_response :: "parser \<Rightarrow> string \<Rightarrow> bool" where
  "is_tools_list_response parse message \<longleftrightarrow> Option.bind (parse message) tools_of \<noteq> None"

definition is_tools_list_changed :: "parser \<Rightarrow> string \<Rightarrow> bool" where
  "is_tools_list_changed parse message \<longleftrightarrow>
     Option.bind (parse message) (get_str ''method'') = Some ''notifications/tools/list_changed''"

definition tool_annotations :: "json \<Rightarrow> (string \<times> ToolAnnotations) option" where
  "tool_annotations tool =
     map_option
       (\<lambda>name. let annotations = unwrap_or (get ''annotations'' tool) JNull
               in (name, \<lparr>ta_read_only_hint = get_bool ''readOnlyHint'' annotations,
                          ta_destructive_hint = get_bool ''destructiveHint'' annotations\<rparr>))
       (get_str ''name'' tool)"

definition extract_tool_annotations :: "parser \<Rightarrow> string \<Rightarrow> (string \<times> ToolAnnotations) list" where
  "extract_tool_annotations parse message =
     (case Option.bind (parse message) tools_of of
        None \<Rightarrow> []
      | Some tools \<Rightarrow> List.map_filter tool_annotations tools)"

definition extract_tool_name :: "parser \<Rightarrow> string \<Rightarrow> string option" where
  "extract_tool_name parse bytes =
     Option.bind (Option.bind (parse bytes) (get ''params'')) (get_str ''name'')"

definition extract_request_id :: "parser \<Rightarrow> string \<Rightarrow> json option" where
  "extract_request_id parse bytes = Option.bind (parse bytes) (get ''id'')"

fun deny_code_text :: "DenyCode \<Rightarrow> string \<times> string" where
  "deny_code_text PolicyDenied = (''PACT_DENIED'', ''Change policy or contact admin'')"
| "deny_code_text CapExceeded = (''PACT_CAP_EXCEEDED'', ''Wait until reset_at or adjust caps policy'')"
| "deny_code_text PolicyError = (''PACT_POLICY_ERROR'', ''Fix policy files: run agentpactd schema to validate'')"
| "deny_code_text DaemonUnreachable = (''DAEMON_UNREACHABLE'', ''Run agentpactd to restore governance'')"

definition build_denied_response :: "json \<Rightarrow> DenyCode \<Rightarrow> string \<Rightarrow> string option \<Rightarrow> json" where
  "build_denied_response original_id code reason daemon_hint =
     (let (code_str, static_hint) = deny_code_text code;
          hint = unwrap_or daemon_hint static_hint;
          reason = trim_end_matches [CHR ''.''] reason;
          message = ''[AgentPact '' @ code_str @ ''] '' @ reason @ ''. '' @ hint
      in JObj [(''jsonrpc'', JStr ''2.0''), (''id'', original_id),
               (''error'', JObj [(''code'', JInt (- 32001)), (''message'', JStr message)])])"

section \<open>Framing\<close>

datatype FrameMode = Unknown | Newline | BraceDepth | ContentLength

datatype relay_error = InvalidUtf8 | InvalidContentLength | CapacityOverflow | UnexpectedEof

type_synonym reader = "string list"

fun fill_buf :: "reader \<Rightarrow> string" where
  "fill_buf [] = []"
| "fill_buf (b # bs) = b"

fun consume :: "nat \<Rightarrow> reader \<Rightarrow> reader" where
  "consume n [] = []"
| "consume n (b # bs) = (if n < length b then drop n b # bs else bs)"

text \<open>\<open>AsyncBufReadExt::read_line\<close>: the bytes up to and including the next line feed, or all.\<close>

fun read_line :: "reader \<Rightarrow> string \<times> reader" where
  "read_line [] = ([], [])"
| "read_line (b # bs) =
     (if nl \<in> set b
      then (takeWhile (\<lambda>c. c \<noteq> nl) b @ [nl],
            let rest = tl (dropWhile (\<lambda>c. c \<noteq> nl) b) in if rest = [] then bs else rest # bs)
      else (let (l, r) = read_line bs in (b @ l, r)))"

text \<open>The scanner of \<open>read_brace_delimited\<close>: depth (32 bits), inside a string, after a backslash.
  The byte loop over one buffer either completes the message (and the rest of the buffer) or ends
  with the state in which the next buffer is entered. The message is accumulated in reverse.\<close>

record brace_state =
  bs_depth :: nat
  bs_in_string :: bool
  bs_escape_next :: bool

definition brace_init :: brace_state where
  "brace_init = \<lparr>bs_depth = 0, bs_in_string = False, bs_escape_next = False\<rparr>"

text \<open>One byte: the new state and whether the message is complete.\<close>

definition brace_byte :: "brace_state \<Rightarrow> char \<Rightarrow> brace_state \<times> bool" where
  "brace_byte s byte =
     (if bs_escape_next s then (s\<lparr>bs_escape_next := False\<rparr>, False)
      else if bs_in_string s then
        (if byte = CHR 0x5C then (s\<lparr>bs_escape_next := True\<rparr>, False)
         else if byte = CHR 0x22 then (s\<lparr>bs_in_string := False\<rparr>, False)
         else (s, False))
      else
        (if byte = CHR 0x22 then (s\<lparr>bs_in_string := True\<rparr>, False)
         else if byte = CHR ''{'' then (s\<lparr>bs_depth := (bs_depth s + 1) mod 2 ^ 32\<rparr>, False)
         else if byte = CHR ''}'' then
           (let d = (bs_depth s + 2 ^ 32 - 1) mod 2 ^ 32 in (s\<lparr>bs_depth := d\<rparr>, d = 0))
         else (s, False)))"

fun scan_braces :: "brace_state \<Rightarrow> string \<Rightarrow> string \<Rightarrow> (string \<times> string) + (brace_state \<times> string)" where
  "scan_braces s acc [] = Inr (s, acc)"
| "scan_braces s acc (byte # rest) =
     (let (s', complete) = brace_byte s byte
      in if complete then Inl (rev (byte # acc), rest) else scan_braces s' (byte # acc) rest)"

fun read_brace_from :: "brace_state \<Rightarrow> string \<Rightarrow> reader \<Rightarrow> string option \<times> reader" where
  "read_brace_from s acc [] = (if acc = [] then None else Some (rev acc), [])"
| "read_brace_from s acc (b # bs) =
     (case scan_braces s acc b of
        Inl (message, rest) \<Rightarrow> (Some message, if rest = [] then bs else rest # bs)
      | Inr (s', acc') \<Rightarrow> read_brace_from s' acc' bs)"

definition read_brace_delimited :: "reader \<Rightarrow> string option \<times> reader" where
  "read_brace_delimited r = read_brace_from brace_init [] r"

text \<open>\<open>read_exact\<close>.\<close>

fun read_exact :: "nat \<Rightarrow> reader \<Rightarrow> (string \<times> reader) option" where
  "read_exact n [] = (if n = 0 then Some ([], []) else None)"
| "read_exact n (b # bs) =
     (if n = 0 then Some ([], b # bs)
      else if n < length b then Some (take n b, drop n b # bs)
      else map_option (\<lambda>(x, r). (b @ x, r)) (read_exact (n - length b) bs))"

lemma split_at_nl:
  assumes "nl \<in> set b"
  obtains x y where "b = x @ nl # y" "nl \<notin> set x"
    "takeWhile (\<lambda>c. c \<noteq> nl) b = x" "dropWhile (\<lambda>c. c \<noteq> nl) b = nl # y"
proof -
  obtain x y where b: "b = x @ nl # y" and x: "nl \<notin> set x"
    using split_list_first[OF assms] by blast
  have "\<And>c. c \<in> set x \<Longrightarrow> c \<noteq> nl" using x by blast
  then have "takeWhile (\<lambda>c. c \<noteq> nl) b = x" and "dropWhile (\<lambda>c. c \<noteq> nl) b = nl # y"
    unfolding b by simp_all
  with b x that show thesis by blast
qed

lemma read_line_concat: "read_line r = (l, r') \<Longrightarrow> concat r = l @ concat r'"
proof (induction r arbitrary: l r')
  case (Cons b bs)
  show ?case
  proof (cases "nl \<in> set b")
    case True
    then obtain x y where "b = x @ nl # y" "takeWhile (\<lambda>c. c \<noteq> nl) b = x" "dropWhile (\<lambda>c. c \<noteq> nl) b = nl # y"
      by (rule split_at_nl)
    with Cons.prems True show ?thesis by (auto simp: Let_def)
  next
    case False
    with Cons show ?thesis by (auto split: prod.splits)
  qed
qed simp

lemma read_line_shrinks:
  "(l, r') = read_line r \<Longrightarrow> l \<noteq> [] \<Longrightarrow> length (concat r') < length (concat r)"
  using read_line_concat[of r l r'] by simp

text \<open>The header loop: skip lines until one starts with \<open>content-length:\<close>.\<close>

definition is_content_length :: "string \<Rightarrow> bool" where
  "is_content_length trimmed \<longleftrightarrow> prefix ''content-length:'' (to_ascii_lowercase trimmed)"

function read_header :: "reader \<Rightarrow> relay_error + (string \<times> reader) option" where
  "read_header r =
     (let (line, r') = read_line r
      in if line = [] then Inr None
         else if \<not> valid_utf8 line then Inl InvalidUtf8
         else if trim line \<noteq> [] \<and> is_content_length (trim line) then Inr (Some (line, r'))
         else read_header r')"
  by pat_completeness auto
termination
  by (relation "measure (\<lambda>r. length (concat r))") (auto dest: read_line_shrinks)

text \<open>The blank-line loop after the header.\<close>

function read_blank :: "reader \<Rightarrow> relay_error + reader option" where
  "read_blank r =
     (let (line, r') = read_line r
      in if line = [] then Inr None
         else if \<not> valid_utf8 line then Inl InvalidUtf8
         else if trim line = [] then Inr (Some r')
         else read_blank r')"
  by pat_completeness auto
termination
  by (relation "measure (\<lambda>r. length (concat r))") (auto dest: read_line_shrinks)

declare read_header.simps [simp del] read_blank.simps [simp del]

definition read_content_length :: "reader \<Rightarrow> relay_error + (string option \<times> reader)" where
  "read_content_length r =
     (case read_header r of
        Inl e \<Rightarrow> Inl e
      | Inr None \<Rightarrow> Inr (None, [])
      | Inr (Some (line, r1)) \<Rightarrow>
          (case parse_usize (trim (drop 15 (trim line))) of
             None \<Rightarrow> Inl InvalidContentLength
           | Some len \<Rightarrow>
               (case read_blank r1 of
                  Inl e \<Rightarrow> Inl e
                | Inr None \<Rightarrow> Inr (None, [])
                | Inr (Some r2) \<Rightarrow>
                    if len \<ge> 2 ^ 63 then Inl CapacityOverflow
                    else (case read_exact len r2 of
                            None \<Rightarrow> Inl UnexpectedEof
                          | Some (body, r3) \<Rightarrow> Inr (Some body, r3)))))"

fun skip_ws :: "reader \<Rightarrow> reader" where
  "skip_ws [] = []"
| "skip_ws (b # bs) =
     (let b' = dropWhile is_ascii_whitespace b in if b' = [] then skip_ws bs else b' # bs)"

fun mode_rank :: "FrameMode \<Rightarrow> nat" where
  "mode_rank Unknown = 2"
| "mode_rank BraceDepth = 1"
| "mode_rank Newline = 0"
| "mode_rank ContentLength = 0"

lemma skip_ws_length: "length (concat (skip_ws r)) \<le> length (concat r)"
proof (induction r)
  case (Cons b bs)
  have "length (dropWhile is_ascii_whitespace b) \<le> length b" by (rule length_dropWhile_le)
  with Cons show ?case by (auto simp: Let_def)
qed simp

lemma consume_length: "fill_buf r \<noteq> [] \<Longrightarrow> 0 < n \<Longrightarrow> length (concat (consume n r)) < length (concat r)"
  by (cases r) auto

text \<open>\<open>read_message\<close>: an error, or the message (\<open>None\<close> at the end of input) with the rest of the
  input and the mode.\<close>

function read_message ::
  "reader \<Rightarrow> FrameMode \<Rightarrow> relay_error + (string option \<times> reader \<times> FrameMode)" where
  "read_message r Unknown =
     (let buf = fill_buf r
      in if buf = [] then Inr (None, r, Unknown)
         else case List.find (\<lambda>b. \<not> is_ascii_whitespace b) buf of
                None \<Rightarrow> read_message (consume (length buf) r) Unknown
              | Some b \<Rightarrow> read_message r (if b = CHR ''{'' then BraceDepth
                                          else if b = CHR ''C'' then ContentLength else Newline))"
| "read_message r Newline =
     (let (line, r') = read_line r
      in if line = [] then Inr (None, r', Newline)
         else if \<not> valid_utf8 line then Inl InvalidUtf8
         else if trim line = [] then read_message r' Newline
         else Inr (Some (trim line), r', Newline))"
| "read_message r BraceDepth =
     (let r1 = skip_ws r; buf = fill_buf r1
      in if buf = [] then Inr (None, r1, BraceDepth)
         else if hd buf = CHR ''C'' then read_message r1 ContentLength
         else if hd buf \<noteq> CHR ''{'' then read_message (consume 1 r1) BraceDepth
         else (let (m, r2) = read_brace_delimited r1 in Inr (m, r2, BraceDepth)))"
| "read_message r ContentLength =
     map_sum (\<lambda>e. e) (\<lambda>(m, r'). (m, r', ContentLength)) (read_content_length r)"
  by pat_completeness auto
termination
proof (relation "measures [\<lambda>(r, m). length (concat r), \<lambda>(r, m). mode_rank m]", goal_cases)
  case (2 r buf)
  then show ?case by (auto intro: consume_length)
next
  case (5 r r1 buf)
  then show ?case using skip_ws_length[of r] by (auto simp: le_less)
next
  case (6 r r1 buf)
  then show ?case using skip_ws_length[of r] consume_length[of r1 1] by auto
qed (auto dest: read_line_shrinks)

declare read_message.simps [simp del]

definition normalize :: "parser \<Rightarrow> (json \<Rightarrow> string) \<Rightarrow> string \<Rightarrow> string" where
  "normalize parse print msg =
     (if nl \<notin> set msg then msg
      else case parse msg of Some v \<Rightarrow> print v | None \<Rightarrow> msg)"

section \<open>The relay\<close>

record relay_cfg =
  rc_parse :: parser
  rc_print :: "json \<Rightarrow> string"
  rc_server_name :: string
  rc_agent_id :: "string option"
  rc_has_tty :: bool

text \<open>The two input streams with their framing modes, the channels to the policy task and to the
  child writer, the messages written to the child (each followed by a line feed), the error
  responses and the relayed messages written to the agent, and the annotation cache.\<close>

record relay_state =
  rl_in :: reader
  rl_mode :: FrameMode
  rl_eof :: bool
  rl_tool_q :: "(string \<times> json) list"
  rl_child_q :: "string list"
  rl_written :: "string list"
  rl_denied :: "json list"
  rl_cache :: "(string, ToolAnnotations) hashmap"
  rl_server_in :: reader
  rl_server_mode :: FrameMode
  rl_relayed :: "string list"

text \<open>One round of the reader loop of \<open>relay_agent_to_server\<close>, once a message was read. A full
  channel blocks the reader.\<close>

definition dispatch :: "relay_cfg \<Rightarrow> string \<Rightarrow> relay_state \<Rightarrow> relay_state option" where
  "dispatch cfg msg s =
     (let cmsg = normalize (rc_parse cfg) (rc_print cfg) msg
      in if is_tools_call (rc_parse cfg) cmsg
         then (let original_id = unwrap_or (extract_request_id (rc_parse cfg) cmsg) JNull
               in if length (rl_tool_q s) < 8
                  then Some (s\<lparr>rl_tool_q := rl_tool_q s @ [(cmsg, original_id)]\<rparr>) else None)
         else if length (rl_child_q s) < 64
              then Some (s\<lparr>rl_child_q := rl_child_q s @ [cmsg]\<rparr>) else None)"

text \<open>The request which \<open>policy_check_task\<close> puts to the policy for a message.\<close>

definition policy_request :: "relay_cfg \<Rightarrow> string \<Rightarrow> relay_state \<Rightarrow> tool_request" where
  "policy_request cfg cmsg s =
     (let tool_name = unwrap_or (extract_tool_name (rc_parse cfg) cmsg) ''unknown''
      in \<lparr>tr_server = rc_server_name cfg, tr_tool = tool_name, tr_operation = Some ''tools/call'',
          tr_annotations = unwrap_or (map_of (rl_cache s) tool_name)
            \<lparr>ta_read_only_hint = None, ta_destructive_hint = None\<rparr>,
          tr_declared_agent = rc_agent_id cfg\<rparr>)"

lemma policy_request_simps [simp]:
  "tr_server (policy_request cfg m s) = rc_server_name cfg"
  "tr_tool (policy_request cfg m s) = unwrap_or (extract_tool_name (rc_parse cfg) m) ''unknown''"
  by (simp_all add: policy_request_def Let_def)

definition policy_outcome :: "string \<Rightarrow> json \<Rightarrow> PactDecision \<Rightarrow> relay_state \<Rightarrow> relay_state option" where
  "policy_outcome cmsg original_id decision s =
     (case decision of
        PAllow \<Rightarrow> if length (rl_child_q s) < 64 then Some (s\<lparr>rl_child_q := rl_child_q s @ [cmsg]\<rparr>) else None
      | PDeny code reason hint \<Rightarrow>
          Some (s\<lparr>rl_denied := rl_denied s @ [build_denied_response original_id code reason hint]\<rparr>))"

text \<open>One round of \<open>relay_server_to_agent\<close>, once a message was read.\<close>

definition server_message :: "relay_cfg \<Rightarrow> string \<Rightarrow> relay_state \<Rightarrow> relay_state" where
  "server_message cfg msg s =
     (let cmsg = normalize (rc_parse cfg) (rc_print cfg) msg;
          s1 = (if is_tools_list_response (rc_parse cfg) cmsg
                then s\<lparr>rl_cache := fold (\<lambda>(name, ann). AList.update name ann)
                         (extract_tool_annotations (rc_parse cfg) cmsg) (rl_cache s)\<rparr>
                else if is_tools_list_changed (rc_parse cfg) cmsg then s\<lparr>rl_cache := []\<rparr> else s)
      in s1\<lparr>rl_relayed := rl_relayed s1 @ [cmsg]\<rparr>)"

datatype rlabel =
    RRead string
  | REof
  | RDecide string mcp_env tool_request
  | RWrite string
  | RServer string

inductive rstep :: "relay_cfg \<Rightarrow> relay_state \<Rightarrow> rlabel \<Rightarrow> relay_state \<Rightarrow> bool" for cfg where
  r_read: "\<not> rl_eof s \<Longrightarrow> read_message (rl_in s) (rl_mode s) = Inr (Some msg, r, m) \<Longrightarrow>
     dispatch cfg msg (s\<lparr>rl_in := r, rl_mode := m\<rparr>) = Some s' \<Longrightarrow> rstep cfg s (RRead msg) s'"
| r_eof: "\<not> rl_eof s \<Longrightarrow> read_message (rl_in s) (rl_mode s) = Inr (None, r, m) \<Longrightarrow>
     rstep cfg s REof (s\<lparr>rl_in := r, rl_mode := m, rl_eof := True\<rparr>)"
| r_decide: "rl_tool_q s = (cmsg, original_id) # q \<Longrightarrow>
     check_permission env (rc_has_tty cfg) (policy_request cfg cmsg s) = Some (decision, lg) \<Longrightarrow>
     policy_outcome cmsg original_id decision (s\<lparr>rl_tool_q := q\<rparr>) = Some s' \<Longrightarrow>
     rstep cfg s (RDecide cmsg env (policy_request cfg cmsg s)) s'"
| r_write: "rl_child_q s = msg # q \<Longrightarrow>
     rstep cfg s (RWrite msg) (s\<lparr>rl_child_q := q, rl_written := rl_written s @ [msg]\<rparr>)"
| r_server: "read_message (rl_server_in s) (rl_server_mode s) = Inr (Some msg, r, m) \<Longrightarrow>
     rstep cfg s (RServer msg) (server_message cfg msg (s\<lparr>rl_server_in := r, rl_server_mode := m\<rparr>))"

definition relay_init :: "relay_state \<Rightarrow> bool" where
  "relay_init s \<longleftrightarrow> rl_mode s = Unknown \<and> rl_server_mode s = Unknown \<and> \<not> rl_eof s \<and>
     rl_tool_q s = [] \<and> rl_child_q s = [] \<and> rl_written s = [] \<and> rl_denied s = [] \<and> rl_cache s = [] \<and>
     rl_relayed s = []"

text \<open>The bytes that the child process reads, and the lines it sees.\<close>

definition child_stdin :: "relay_state \<Rightarrow> string" where
  "child_stdin s = concat (map (\<lambda>m. m @ [nl]) (rl_written s))"

section \<open>Chunk independence of brace framing\<close>

lemma scan_braces_append:
  "scan_braces s acc (xs @ ys) =
     (case scan_braces s acc xs of
        Inl (m, rest) \<Rightarrow> Inl (m, rest @ ys)
      | Inr (s', acc') \<Rightarrow> scan_braces s' acc' ys)"
  by (induction xs arbitrary: s acc) (auto simp: Let_def split: prod.split)

lemma read_brace_from_bytes:
  "map_prod id concat (read_brace_from s acc r) =
     (case scan_braces s acc (concat r) of
        Inl (m, rest) \<Rightarrow> (Some m, rest)
      | Inr (s', acc') \<Rightarrow> (if acc' = [] then None else Some (rev acc'), []))"
  by (induction r arbitrary: s acc) (auto simp: scan_braces_append split: sum.split prod.split)

section \<open>Governance\<close>

text \<open>The policy allowed this message.\<close>

definition allowed :: "relay_cfg \<Rightarrow> rlabel list \<Rightarrow> string \<Rightarrow> bool" where
  "allowed cfg ls m \<longleftrightarrow>
     (\<exists>env req lg. RDecide m env req \<in> set ls \<and> check_permission env (rc_has_tty cfg) req = Some (PAllow, lg) \<and>
        tr_server req = rc_server_name cfg \<and>
        tr_tool req = unwrap_or (extract_tool_name (rc_parse cfg) m) ''unknown'')"

definition relay_inv :: "relay_cfg \<Rightarrow> relay_state \<times> rlabel list \<Rightarrow> bool" where
  "relay_inv cfg = (\<lambda>(s, ls). \<forall>m \<in> set (rl_written s) \<union> set (rl_child_q s).
     is_tools_call (rc_parse cfg) m \<longrightarrow> allowed cfg ls m)"

lemma allowed_mono: "allowed cfg ls m \<Longrightarrow> allowed cfg (ls @ [l]) m"
  by (auto simp: allowed_def)

lemma relay_inv_step:
  assumes "relay_inv cfg x" and "hist (rstep cfg) x l x'"
  shows "relay_inv cfg x'"
  using assms(2)
proof cases
  case (hist_step s s' ls)
  have old: "allowed cfg (ls @ [l]) m"
    if "m \<in> set (rl_written s) \<union> set (rl_child_q s)" "is_tools_call (rc_parse cfg) m" for m
    using assms(1) that hist_step allowed_mono by (auto simp: relay_inv_def)
  from hist_step(3) have "\<forall>m \<in> set (rl_written s') \<union> set (rl_child_q s').
      is_tools_call (rc_parse cfg) m \<longrightarrow> allowed cfg (ls @ [l]) m"
  proof cases
    case (r_read msg r m)
    then show ?thesis using old by (auto simp: dispatch_def Let_def split: if_splits)
  next
    case (r_decide cmsg original_id q env decision lg)
    show ?thesis
    proof (cases decision)
      case PAllow
      with r_decide have "allowed cfg (ls @ [l]) cmsg"
        unfolding allowed_def
        by (intro exI[of _ env] exI[of _ "policy_request cfg cmsg s"] exI[of _ lg]) simp
      with PAllow r_decide old show ?thesis by (auto simp: policy_outcome_def split: if_splits)
    next
      case (PDeny c reason h)
      with r_decide old show ?thesis by (auto simp: policy_outcome_def)
    qed
  next
    case (r_write msg q)
    then show ?thesis using old by auto
  next
    case (r_server msg r m)
    then show ?thesis using old by (auto simp: server_message_def Let_def)
  qed (use old in auto)
  with hist_step show ?thesis by (simp add: relay_inv_def)
qed

definition relay_hinit :: "relay_state \<times> rlabel list \<Rightarrow> bool" where
  "relay_hinit = (\<lambda>(s, ls). relay_init s \<and> ls = [])"

interpretation relay: machine relay_hinit "hist (rstep cfg)" "relay_inv cfg" for cfg
proof (unfold_locales, goal_cases)
  case (1 x)
  then show ?case by (auto simp: relay_hinit_def relay_init_def relay_inv_def)
qed (rule relay_inv_step)

lemma relay_governed:
  assumes "relay_init s0" "run (rstep cfg) s0 ls s" "m \<in> set (rl_written s)" "is_tools_call (rc_parse cfg) m"
  shows "allowed cfg ls m"
  using relay.inv_reach[of "(s0, [])" cfg ls "(s, ls)"] run_hist[OF assms(2), of "[]"] assms(1,3,4)
  by (auto simp: relay_hinit_def relay_inv_def)

lemma normalize_no_nl:
  assumes "\<And>v. nl \<notin> set (print v)" and "nl \<notin> set m \<or> parse m \<noteq> None"
  shows "nl \<notin> set (normalize parse print m)"
  using assms by (auto simp: normalize_def)

text \<open>No line feed inside a queued or written message, as long as the reader delivered none that
  the parser rejects.\<close>

definition flat :: "relay_state \<Rightarrow> bool" where
  "flat s \<longleftrightarrow> (\<forall>m \<in> set (rl_written s). nl \<notin> set m) \<and> (\<forall>m \<in> set (rl_child_q s). nl \<notin> set m) \<and>
     (\<forall>(m, i) \<in> set (rl_tool_q s). nl \<notin> set m)"

definition clean_label :: "relay_cfg \<Rightarrow> rlabel \<Rightarrow> bool" where
  "clean_label cfg l = (case l of RRead m \<Rightarrow> nl \<notin> set m \<or> rc_parse cfg m \<noteq> None | _ \<Rightarrow> True)"

lemma flat_step:
  assumes "rstep cfg s l s'" and "flat s" and "clean_label cfg l" and "\<And>v. nl \<notin> set (rc_print cfg v)"
  shows "flat s'"
  using assms(1)
proof cases
  case (r_read msg r m)
  then have "nl \<notin> set (normalize (rc_parse cfg) (rc_print cfg) msg)"
    using assms(3,4) by (intro normalize_no_nl) (auto simp: clean_label_def)
  with r_read assms(2) show ?thesis
    by (auto simp: flat_def dispatch_def Let_def split: if_splits)
next
  case (r_decide cmsg original_id q env decision lg)
  with assms(2) show ?thesis
    by (auto simp: flat_def policy_outcome_def split: PactDecision.splits if_splits)
next
  case (r_server msg r m)
  with assms(2) show ?thesis by (auto simp: flat_def server_message_def Let_def)
qed (use assms(2) in \<open>auto simp: flat_def\<close>)

lemma flat_run:
  "run (rstep cfg) s ls t \<Longrightarrow> flat s \<Longrightarrow> list_all (clean_label cfg) ls \<Longrightarrow>
     (\<And>v. nl \<notin> set (rc_print cfg v)) \<Longrightarrow> flat t"
  by (induction rule: run.induct) (auto dest: flat_step)

lemma split_child_stdin:
  "(\<And>m. m \<in> set ms \<Longrightarrow> nl \<notin> set m) \<Longrightarrow>
     split_on nl (concat (map (\<lambda>m. m @ [nl]) ms)) = ms @ [[]]"
  by (induction ms) (simp_all add: split_on_append split_on_notin)

section \<open>Properties\<close>

text \<open>
  C10. Every message that the wrapper writes to the MCP server and that is a tools/call was put to
  the policy under its own tool name and allowed, in every interleaving of the reader, the policy
  task, the writer and the server relay.
\<close>
theorem relay_tools_calls_governed:
  assumes "relay_init s0" and "run (rstep cfg) s0 ls s"
    and "m \<in> set (rl_written s)" and "is_tools_call (rc_parse cfg) m"
  shows "\<exists>env req lg. RDecide m env req \<in> set ls \<and>
     check_permission env (rc_has_tty cfg) req = Some (PAllow, lg) \<and>
     tr_server req = rc_server_name cfg \<and>
     tr_tool req = unwrap_or (extract_tool_name (rc_parse cfg) m) ''unknown''"
  using relay_governed[OF assms] by (simp add: allowed_def)

text \<open>
  The server sees what was governed: if every message the agent sent is JSON or free of line
  feeds (and the JSON printer emits none), the lines which the server reads are exactly the
  messages that were written, so each line that is a tools/call was allowed.
\<close>
theorem relay_lines_are_messages:
  assumes "relay_init s0" and "run (rstep cfg) s0 ls s"
    and clean: "list_all (clean_label cfg) ls" and print: "\<And>v. nl \<notin> set (rc_print cfg v)"
  shows "split_on nl (child_stdin s) = rl_written s @ [[]]"
proof -
  have "flat s0" using assms(1) by (simp add: relay_init_def flat_def)
  then have "flat s" using flat_run[OF assms(2)] clean print by blast
  then show ?thesis
    unfolding child_stdin_def by (intro split_child_stdin) (auto simp: flat_def)
qed

text \<open>
  A brace-framed message that is not JSON is forwarded verbatim and can smuggle a call: if it
  has a line that is a tools/call, the reader queues the whole message for the server without a
  decision, and the server, which reads lines, sees the call.
\<close>
theorem relay_invalid_message_smuggles_call:
  assumes "\<not> rl_eof s" and "read_message (rl_in s) (rl_mode s) = Inr (Some (a @ [nl] @ c @ [nl] @ b), r, m)"
    and "rc_parse cfg (a @ [nl] @ c @ [nl] @ b) = None"
    and "nl \<notin> set c" and "is_tools_call (rc_parse cfg) c"
    and "rl_child_q s = []" and "rl_written s = []"
  shows "\<exists>s'. run (rstep cfg) s [RRead (a @ [nl] @ c @ [nl] @ b), RWrite (a @ [nl] @ c @ [nl] @ b)] s' \<and>
     c \<in> set (split_on nl (child_stdin s')) \<and> rl_tool_q s' = rl_tool_q s"
proof -
  let ?m = "a @ [nl] @ c @ [nl] @ b"
  let ?s1 = "s\<lparr>rl_in := r, rl_mode := m, rl_child_q := [?m]\<rparr>"
  let ?s2 = "?s1\<lparr>rl_child_q := [], rl_written := [?m]\<rparr>"
  have n: "normalize (rc_parse cfg) (rc_print cfg) ?m = ?m"
    using assms(3) by (simp add: normalize_def)
  have "\<not> is_tools_call (rc_parse cfg) ?m" using assms(3) by (simp add: is_tools_call_def)
  then have "dispatch cfg ?m (s\<lparr>rl_in := r, rl_mode := m\<rparr>) = Some ?s1"
    using n assms(6) by (simp add: dispatch_def)
  then have "rstep cfg s (RRead ?m) ?s1" by (rule r_read[OF assms(1,2)])
  moreover have "rstep cfg ?s1 (RWrite ?m) ?s2"
    using r_write[of ?s1 ?m "[]" cfg] assms(7) by simp
  moreover have "c \<in> set (split_on nl (child_stdin ?s2))"
    using assms(4) by (simp add: child_stdin_def split_on_append split_on_notin)
  ultimately show ?thesis by (intro exI[of _ ?s2]) (auto intro: run_cons run_nil)
qed

text \<open>
  Brace framing does not depend on how the input arrives in buffers: the message and the
  bytes left are those of one scan over the concatenated input.
\<close>
theorem read_brace_chunk_independent:
  "map_prod id concat (read_brace_delimited r) =
     (case scan_braces brace_init [] (concat r) of
        Inl (m, rest) \<Rightarrow> (Some m, rest)
      | Inr (s, acc) \<Rightarrow> (if acc = [] then None else Some (rev acc), []))"
  by (simp add: read_brace_delimited_def read_brace_from_bytes)

section \<open>Executions\<close>

definition demo_line :: string where
  "demo_line = ''{call}''"

definition demo_bad :: string where
  "demo_bad = ''{'' @ [nl] @ demo_line @ [nl] @ ''}''"

definition demo_cfg :: relay_cfg where
  "demo_cfg = \<lparr>rc_parse = (\<lambda>b. if b = demo_line then Some (JObj [(''method'', JStr ''tools/call'')]) else None),
     rc_print = (\<lambda>v. ''{}''), rc_server_name = ''github'', rc_agent_id = None, rc_has_tty = False\<rparr>"

definition demo_relay :: "string \<Rightarrow> relay_state" where
  "demo_relay input = \<lparr>rl_in = [input], rl_mode = Unknown, rl_eof = False, rl_tool_q = [], rl_child_q = [],
     rl_written = [], rl_denied = [], rl_cache = [], rl_server_in = [], rl_server_mode = Unknown, rl_relayed = []\<rparr>"

lemmas read_eval = read_message.simps is_ascii_whitespace_def read_brace_delimited_def brace_init_def
  brace_byte_def nl_def Let_def demo_line_def demo_bad_def

lemma read_demo_line: "read_message [demo_line] Unknown = Inr (Some demo_line, [], BraceDepth)"
  by (simp add: read_eval)

lemma read_demo_bad: "read_message [demo_bad] Unknown = Inr (Some demo_bad, [], BraceDepth)"
  by (simp add: read_eval)

lemma demo_line_simps: "nl \<notin> set demo_line" "demo_bad \<noteq> demo_line" "is_tools_call (rc_parse demo_cfg) demo_line"
  "rc_parse demo_cfg demo_bad = None" "normalize (rc_parse demo_cfg) (rc_print demo_cfg) demo_line = demo_line"
  by code_simp+

definition demo_sent :: relay_state where
  "demo_sent = (demo_relay demo_line)\<lparr>rl_in := [], rl_mode := BraceDepth, rl_written := [demo_line]\<rparr>"

definition demo_run :: "rlabel list" where
  "demo_run = [RRead demo_line, RDecide demo_line demo_mcp
      (policy_request demo_cfg demo_line (demo_relay demo_line)), RWrite demo_line]"

lemma run_demo: "run (rstep demo_cfg) (demo_relay demo_line) demo_run demo_sent"
proof -
  let ?s0 = "demo_relay demo_line"
  let ?s1 = "?s0\<lparr>rl_in := [], rl_mode := BraceDepth, rl_tool_q := [(demo_line, JNull)]\<rparr>"
  let ?s2 = "?s0\<lparr>rl_in := [], rl_mode := BraceDepth, rl_child_q := [demo_line]\<rparr>"
  have d: "dispatch demo_cfg demo_line (?s0\<lparr>rl_in := [], rl_mode := BraceDepth\<rparr>) = Some ?s1"
    using demo_line_simps
    by (simp add: dispatch_def Let_def demo_relay_def) (simp add: extract_request_id_def demo_cfg_def)
  have "rstep demo_cfg ?s0 (RRead demo_line) ?s1"
    by (rule r_read[OF _ _ d]) (simp_all add: demo_relay_def read_demo_line)
  moreover have "policy_request demo_cfg demo_line ?s1 = policy_request demo_cfg demo_line ?s0"
    by (simp add: policy_request_def demo_relay_def)
  moreover have "rstep demo_cfg ?s1 (RDecide demo_line demo_mcp (policy_request demo_cfg demo_line ?s1)) ?s2"
    by (rule r_decide[OF _ demo_check]) (simp_all add: policy_outcome_def demo_relay_def)
  moreover have "rstep demo_cfg ?s2 (RWrite demo_line) demo_sent"
    using r_write[of ?s2 demo_line "[]" demo_cfg] by (simp add: demo_sent_def demo_relay_def)
  ultimately show ?thesis by (auto simp: demo_run_def intro!: run_cons run_nil)
qed

lemma demo_relay_init: "relay_init (demo_relay input)"
  by (simp add: relay_init_def demo_relay_def)

theorem relay_tools_calls_governed_witness:
  "\<exists>env req lg. RDecide demo_line env req \<in> set demo_run \<and>
     check_permission env (rc_has_tty demo_cfg) req = Some (PAllow, lg) \<and>
     tr_server req = rc_server_name demo_cfg \<and>
     tr_tool req = unwrap_or (extract_tool_name (rc_parse demo_cfg) demo_line) ''unknown''"
  by (rule relay_tools_calls_governed[OF demo_relay_init run_demo])
    (simp_all add: demo_sent_def demo_line_simps)

theorem relay_lines_are_messages_witness:
  "split_on nl (child_stdin demo_sent) = rl_written demo_sent @ [[]]"
  by (rule relay_lines_are_messages[OF demo_relay_init run_demo])
    (simp_all add: demo_run_def clean_label_def demo_line_simps demo_cfg_def nl_def)

theorem relay_invalid_message_smuggles_call_witness:
  "\<exists>s'. run (rstep demo_cfg) (demo_relay demo_bad) [RRead demo_bad, RWrite demo_bad] s' \<and>
     demo_line \<in> set (split_on nl (child_stdin s')) \<and> rl_tool_q s' = []"
  using relay_invalid_message_smuggles_call[of "demo_relay demo_bad" "''{''" demo_line "''}''" "[]" BraceDepth demo_cfg]
    read_demo_bad demo_line_simps
  by (simp add: demo_relay_def demo_bad_def[symmetric])
    (simp add: demo_bad_def)

end
