(* ===== verification/HookSegments.thy ===== *)
theory HookSegments
  imports McpPolicy
begin

text \<open>
  The decision engine of the agent hooks: the runtime contract of
  \<^verbatim>\<open>cli/src/agents/registry.rs\<close>, payload mapping (\<^verbatim>\<open>cli/src/hook_cmd/payload.rs\<close>), response
  shapes (\<^verbatim>\<open>cli/src/hook_cmd/response.rs\<close>) and the per-segment drive
  (\<^verbatim>\<open>cli/src/hook_cmd/segments.rs\<close>).

  The closures which \<open>run_segments\<close> takes mutate what they capture; here they pass the state
  explicitly. Each exchange with a daemon may have another outcome, so the environment is indexed
  by the number of the exchange within this hook invocation. A process exit is the value
  \<open>hook_out\<close>: the exit code, what is printed, and every effect on the way there (the audit line, the
  fail-open records, decisions sent to agentpactd, the committed command group, live evidence, and
  the note for the native-approval hook). \<open>None\<close> means that a poll of kyrisd did not end. The socket
  path, the socket time-out and the elapsed time in the audit line are left out of \<open>PermissionCtx\<close>;
  warnings on stderr are not modelled.
\<close>

section \<open>The agent's contract\<close>

record ToolMapping =
  tm_tool_name :: string
  tm_action :: string
  tm_detail_key :: "string option"

datatype HookTimeoutPosture = FailOpen | FailClosed

record HookRuntime =
  hr_agent_hook_timeout_secs :: nat
  hr_on_timeout :: HookTimeoutPosture
  hr_native_backstop :: bool
  hr_allow_suppresses_agent_prompt :: bool

record McpToolNaming =
  mn_server_separator :: string
  mn_collapse_sanitize_runs :: bool

datatype AllowResponse = EmptyStdout | Json json

datatype AskResponse = NativePrompt json | DeferToNativeApproval

datatype ApprovalMode = Native | KyrisPopup

record HookProtocol =
  hp_tool_name_field :: string
  hp_detail_fields :: "string list"
  hp_tool_mappings :: "ToolMapping list"
  hp_pass_through_tools :: "string list"
  hp_agent_owned_tools :: "string list"
  hp_default_action :: string
  hp_allow_response :: AllowResponse
  hp_runtime :: HookRuntime
  hp_permission_request_allow :: "json option"
  hp_mcp_tool_naming :: "McpToolNaming option"
  hp_native_ask :: "AskResponse option"

definition RESPONSE_MARGIN_SECS :: nat where
  "RESPONSE_MARGIN_SECS = 10"

definition poll_deadline :: "HookRuntime \<Rightarrow> nat" where
  "poll_deadline rt = hr_agent_hook_timeout_secs rt - RESPONSE_MARGIN_SECS"

definition bridge_spawn_timeout_ms :: "HookRuntime \<Rightarrow> nat" where
  "bridge_spawn_timeout_ms rt =
     (hr_agent_hook_timeout_secs rt - RESPONSE_MARGIN_SECS div 2) * 1000 mod 2 ^ 64"

text \<open>Sanitising works on characters; a character outside ASCII is a lead byte with its
  continuation bytes, which are dropped with it.\<close>

fun sanitize_from :: "McpToolNaming \<Rightarrow> bool \<Rightarrow> string \<Rightarrow> string" where
  "sanitize_from n last_was_replaced [] = []"
| "sanitize_from n last_was_replaced (c # cs) =
     (if is_ascii_alphanumeric c \<or> c = CHR ''_'' \<or> c = CHR ''-'' then c # sanitize_from n False cs
      else if byte_in 0x80 0xBF c then sanitize_from n last_was_replaced cs
      else if mn_collapse_sanitize_runs n \<and> last_was_replaced then sanitize_from n True cs
      else CHR ''_'' # sanitize_from n True cs)"

definition sanitize :: "McpToolNaming \<Rightarrow> string \<Rightarrow> string" where
  "sanitize n name = sanitize_from n False name"

definition tool_belongs_to_server :: "McpToolNaming \<Rightarrow> string \<Rightarrow> string \<Rightarrow> bool" where
  "tool_belongs_to_server n tool server =
     (let p = sanitize n server @ mn_server_separator n
      in length tool > length p \<and> prefix p tool)"

definition sanitized_len :: "McpToolNaming \<Rightarrow> string \<Rightarrow> nat" where
  "sanitized_len n server = length (sanitize n server)"

section \<open>Payloads\<close>

definition derive_session_cwd :: "string option \<Rightarrow> json \<Rightarrow> string option" where
  "derive_session_cwd launch_dir hook_input =
     (case opt_filter (\<lambda>s. trim s \<noteq> []) launch_dir of
        Some dir \<Rightarrow> Some dir
      | None \<Rightarrow> opt_filter (\<lambda>s. s \<noteq> []) (get_str ''cwd'' hook_input))"

definition home_relative_to :: "string \<Rightarrow> string \<Rightarrow> string" where
  "home_relative_to home0 path =
     (let home = trim_end_matches ''/'' home0
      in if home = [] then path
         else if path = home then ''~''
         else case strip_prefix home path of
                Some rest \<Rightarrow> if prefix ''/'' rest then ''~'' @ rest else path
              | None \<Rightarrow> path)"

definition home_relative :: "string option \<Rightarrow> string \<Rightarrow> string" where
  "home_relative home path = (case home of Some h \<Rightarrow> home_relative_to h path | None \<Rightarrow> path)"

definition resolve_relative_path :: "string \<Rightarrow> string \<Rightarrow> string option \<Rightarrow> string" where
  "resolve_relative_path action detail cwd =
     (if action \<noteq> ''read'' \<and> action \<noteq> ''write'' then detail
      else if detail = [] then detail
      else if is_absolute detail then detail
      else case cwd of None \<Rightarrow> detail | Some base \<Rightarrow> path_join base detail)"

definition is_file_action :: "string \<Rightarrow> bool" where
  "is_file_action action \<longleftrightarrow> action = ''read'' \<or> action = ''write'' \<or> action = ''delete''"

record PatchPaths =
  pp_writes :: "string list"
  pp_deletes :: "string list"

definition patch_line :: "string \<Rightarrow> PatchPaths \<Rightarrow> PatchPaths" where
  "patch_line raw paths =
     (let line = trim_end raw
      in case strip_prefix ''*** Add File:'' line of
           Some path \<Rightarrow> paths\<lparr>pp_writes := pp_writes paths @ [trim path]\<rparr>
         | None \<Rightarrow>
             (case strip_prefix ''*** Update File:'' line of
                Some path \<Rightarrow> paths\<lparr>pp_writes := pp_writes paths @ [trim path]\<rparr>
              | None \<Rightarrow>
                  (case strip_prefix ''*** Move to:'' line of
                     Some path \<Rightarrow> paths\<lparr>pp_writes := pp_writes paths @ [trim path]\<rparr>
                   | None \<Rightarrow>
                       (case strip_prefix ''*** Delete File:'' line of
                          Some path \<Rightarrow> paths\<lparr>pp_deletes := pp_deletes paths @ [trim path]\<rparr>
                        | None \<Rightarrow> paths))))"

definition parse_apply_patch_paths :: "string \<Rightarrow> PatchPaths" where
  "parse_apply_patch_paths patch = fold patch_line (lines patch) \<lparr>pp_writes = [], pp_deletes = []\<rparr>"

text \<open>The loop of \<open>extract_detail\<close> over the declared detail fields; \<open>print\<close> is the JSON printer.\<close>

fun extract_detail :: "(json \<Rightarrow> string) \<Rightarrow> ToolMapping option \<Rightarrow> json \<Rightarrow> string \<Rightarrow> string list \<Rightarrow> string" where
  "extract_detail print mapping input tool [] = tool"
| "extract_detail print mapping input tool (field # rest) =
     (let value = unwrap_or (get field input) JNull
      in case as_str value of
           Some s \<Rightarrow> s
         | None \<Rightarrow>
             if is_obj value
             then (case Option.bind (Option.bind mapping tm_detail_key) (\<lambda>key. get_str key value) of
                     Some s \<Rightarrow> s
                   | None \<Rightarrow> print value)
             else extract_detail print mapping input tool rest)"

definition find_mapping :: "HookProtocol \<Rightarrow> string \<Rightarrow> ToolMapping option" where
  "find_mapping protocol tool = List.find (\<lambda>m. tm_tool_name m = tool) (hp_tool_mappings protocol)"

definition map_payload :: "(json \<Rightarrow> string) \<Rightarrow> HookProtocol option \<Rightarrow> json \<Rightarrow> string \<times> string" where
  "map_payload print protocol input =
     (case protocol of
        None \<Rightarrow> (unwrap_or (get_str ''method'' input) ''call'', unwrap_or (get_str ''detail'' input) [])
      | Some p \<Rightarrow>
          (let tool = unwrap_or (get_str (hp_tool_name_field p) input) ''unknown'';
               mapping = find_mapping p tool;
               action = (case mapping of None \<Rightarrow> hp_default_action p | Some m \<Rightarrow> tm_action m)
           in (action, extract_detail print mapping input tool (hp_detail_fields p))))"

section \<open>Response shapes\<close>

definition agent_prompt_for :: "AllowResponse \<Rightarrow> bool \<Rightarrow> string" where
  "agent_prompt_for allow_response suppresses_agent_prompt =
     (case allow_response of
        Json _ \<Rightarrow> if suppresses_agent_prompt then ''none'' else ''agent_decides''
      | EmptyStdout \<Rightarrow> ''agent_decides'')"

definition effective_allow_response :: "AllowResponse \<Rightarrow> bool \<Rightarrow> AllowResponse" where
  "effective_allow_response native log_mode = (if log_mode then EmptyStdout else native)"

definition non_governed_response :: "bool \<Rightarrow> AllowResponse \<Rightarrow> bool \<Rightarrow> AllowResponse" where
  "non_governed_response pass_through native log_mode =
     (if pass_through then effective_allow_response native log_mode else EmptyStdout)"

definition emit_allow :: "AllowResponse \<Rightarrow> json option" where
  "emit_allow r = (case r of EmptyStdout \<Rightarrow> None | Json body \<Rightarrow> Some body)"

section \<open>Segments\<close>

datatype SegClass =
    Auto
  | SAsk string string bool "string option"
  | SDeny string
  | Unavailable string

datatype PopupResult =
    PApproved string
  | Blocked int string string

record SegBlock =
  sb_exit_code :: int
  sb_source :: string
  sb_reason :: string

text \<open>The walk, from a given \<open>source\<close>.\<close>

fun run_segments_from ::
  "string \<Rightarrow> string list \<Rightarrow> ('s \<Rightarrow> string \<Rightarrow> SegClass \<times> 's) \<Rightarrow>
     ('s \<Rightarrow> string \<Rightarrow> string \<Rightarrow> string \<Rightarrow> bool \<Rightarrow> string option \<Rightarrow> (PopupResult \<times> 's) option) \<Rightarrow> 's \<Rightarrow>
     ((SegBlock + string) \<times> 's) option" where
  "run_segments_from source [] classify prompt s = Some (Inr source, s)"
| "run_segments_from source (seg # segs) classify prompt s =
     (case classify s seg of
        (Auto, s1) \<Rightarrow> run_segments_from source segs classify prompt s1
      | (SDeny reason, s1) \<Rightarrow>
          Some (Inl \<lparr>sb_exit_code = 2, sb_source = ''agentpact_deny'', sb_reason = reason\<rparr>, s1)
      | (Unavailable reason, s1) \<Rightarrow>
          Some (Inl \<lparr>sb_exit_code = 2, sb_source = ''agentpact_unreachable'', sb_reason = reason\<rparr>, s1)
      | (SAsk approval_id approval_token allow_always detail, s1) \<Rightarrow>
          (case prompt s1 approval_id approval_token seg allow_always detail of
             None \<Rightarrow> None
           | Some (PApproved src, s2) \<Rightarrow> run_segments_from src segs classify prompt s2
           | Some (Blocked exit_code src reason, s2) \<Rightarrow>
               Some (Inl \<lparr>sb_exit_code = exit_code, sb_source = src, sb_reason = reason\<rparr>, s2)))"

definition run_segments ::
  "string list \<Rightarrow> ('s \<Rightarrow> string \<Rightarrow> SegClass \<times> 's) \<Rightarrow>
     ('s \<Rightarrow> string \<Rightarrow> string \<Rightarrow> string \<Rightarrow> bool \<Rightarrow> string option \<Rightarrow> (PopupResult \<times> 's) option) \<Rightarrow> 's \<Rightarrow>
     ((SegBlock + string) \<times> 's) option" where
  "run_segments segs classify prompt s = run_segments_from ''agentpact_auto'' segs classify prompt s"

definition block_from_daemon_unavailable :: "string \<Rightarrow> bool" where
  "block_from_daemon_unavailable source \<longleftrightarrow>
     source = ''kyrisd_unreachable'' \<or> source = ''agentpact_unreachable''"

section \<open>The contract of a segment gate\<close>

text \<open>What both closures keep, the walk keeps.\<close>

lemma run_segments_inv:
  assumes "run_segments_from src segs classify prompt s = Some (r, s')" and "P s"
    and classify: "\<And>s seg. P s \<Longrightarrow> P (snd (classify s seg))"
    and prompt: "\<And>s i t seg aa d r s1. P s \<Longrightarrow> prompt s i t seg aa d = Some (r, s1) \<Longrightarrow> P s1"
  shows "P s'"
  using assms(1,2)
proof (induction segs arbitrary: src s)
  case (Cons seg segs)
  obtain k s1 where k: "classify s seg = (k, s1)" by fastforce
  have c1: "P s1" using classify[OF Cons(3), of seg] k by simp
  show ?case
  proof (cases k)
    case (SAsk i t aa d)
    with Cons(2) k obtain p s2 where p: "prompt s1 i t seg aa d = Some (p, s2)"
      by (auto split: option.splits)
    from prompt[OF c1 p] Cons k SAsk p show ?thesis by (auto split: PopupResult.splits)
  qed (use Cons k c1 in auto)
qed simp

text \<open>A walk that is blocked was blocked at one segment, with the source of that segment's block.\<close>

lemma run_segments_blocked:
  assumes "run_segments_from src segs classify prompt s = Some (Inl b, s')"
  obtains (deny) seg t t1 reason where "seg \<in> set segs" "classify t seg = (SDeny reason, t1)"
      "sb_source b = ''agentpact_deny''"
  | (unavailable) seg t t1 reason where "seg \<in> set segs" "classify t seg = (Unavailable reason, t1)"
      "sb_source b = ''agentpact_unreachable''"
  | (prompt) seg t t1 i tok aa d c reason t2 where "seg \<in> set segs" "classify t seg = (SAsk i tok aa d, t1)"
      "prompt t1 i tok seg aa d = Some (Blocked c (sb_source b) reason, t2)"
proof -
  have "(\<exists>seg \<in> set segs. \<exists>t t1.
      (\<exists>reason. classify t seg = (SDeny reason, t1) \<and> sb_source b = ''agentpact_deny'') \<or>
      (\<exists>reason. classify t seg = (Unavailable reason, t1) \<and> sb_source b = ''agentpact_unreachable'') \<or>
      (\<exists>i tok aa d c reason t2. classify t seg = (SAsk i tok aa d, t1) \<and>
         prompt t1 i tok seg aa d = Some (Blocked c (sb_source b) reason, t2)))"
    using assms
  proof (induction segs arbitrary: src s)
    case (Cons seg segs)
    obtain k s1 where k: "classify s seg = (k, s1)" by fastforce
    show ?case
    proof (cases k)
      case Auto
      with Cons k show ?thesis by simp
    next
      case (SAsk i tok aa d)
      with Cons(2) k obtain p s2 where p: "prompt s1 i tok seg aa d = Some (p, s2)"
        by (auto split: option.splits)
      show ?thesis
      proof (cases p)
        case (PApproved x)
        with Cons k SAsk p show ?thesis by simp
      next
        case (Blocked c x reason)
        with Cons(2) k SAsk p have "sb_source b = x" by auto
        with k SAsk p Blocked show ?thesis by auto
      qed
    qed (use Cons k in auto)
  qed simp
  with deny unavailable prompt show thesis by blast
qed

text \<open>Two gates walk segments: the agent hook and the shell gate. \<open>cleared s seg\<close> says that by the
  state \<open>s\<close> of the invocation there is a reason to let \<open>seg\<close> run.\<close>

locale segment_gate =
  fixes classify :: "'s \<Rightarrow> string \<Rightarrow> SegClass \<times> 's"
    and prompt :: "'s \<Rightarrow> string \<Rightarrow> string \<Rightarrow> string \<Rightarrow> bool \<Rightarrow> string option \<Rightarrow> (PopupResult \<times> 's) option"
    and cleared :: "'s \<Rightarrow> string \<Rightarrow> bool"
  assumes auto_cleared: "classify s seg = (Auto, s1) \<Longrightarrow> cleared s1 seg"
    and ask_cleared: "classify s seg = (SAsk i t aa d, s1) \<Longrightarrow>
      prompt s1 i t seg aa d = Some (PApproved src, s2) \<Longrightarrow> cleared s2 seg"
    and classify_keeps: "cleared s seg' \<Longrightarrow> cleared (snd (classify s seg)) seg'"
    and prompt_keeps: "cleared s seg' \<Longrightarrow> prompt s i t seg aa d = Some (r, s1) \<Longrightarrow> cleared s1 seg'"
    and block_exit: "prompt s i t seg aa d = Some (Blocked c src reason, s1) \<Longrightarrow> c = 2"
begin

lemma walk_keeps:
  "run_segments_from src segs classify prompt s = Some (r, s') \<Longrightarrow> cleared s seg' \<Longrightarrow> cleared s' seg'"
  by (rule run_segments_inv[where P = "\<lambda>s. cleared s seg'"]) (auto intro: classify_keeps prompt_keeps)

lemma walk_cleared:
  "run_segments_from src segs classify prompt s = Some (Inr src', s') \<Longrightarrow> seg \<in> set segs \<Longrightarrow> cleared s' seg"
proof (induction segs arbitrary: src s)
  case (Cons g segs)
  obtain k s1 where k: "classify s g = (k, s1)" by fastforce
  have rest: "run_segments_from src1 segs classify prompt s2 = Some (Inr src', s') \<Longrightarrow> cleared s2 g \<Longrightarrow>
      cleared s' seg" for src1 s2
    using Cons(1)[of src1 s2] Cons(3) walk_keeps by auto
  show ?case
  proof (cases k)
    case Auto
    with Cons(2) k rest auto_cleared[of s g s1] show ?thesis by simp
  next
    case (SAsk i t aa d)
    with Cons(2) k obtain src1 s2 where "prompt s1 i t g aa d = Some (PApproved src1, s2)"
      by (auto split: option.splits PopupResult.splits)
    with Cons(2) k SAsk rest ask_cleared[of s g i t aa d s1 src1 s2] show ?thesis by simp
  qed (use Cons k in auto)
qed simp

lemma walk_block:
  "run_segments_from src segs classify prompt s = Some (Inl b, s') \<Longrightarrow> sb_exit_code b = 2"
proof (induction segs arbitrary: src s)
  case (Cons seg segs)
  then show ?case
    by (auto split: prod.splits SegClass.splits option.splits PopupResult.splits dest: block_exit)
qed simp

end

section \<open>One hook invocation\<close>

text \<open>The environment: the daemon at the \<open>n\<close>-th exchange, kyrisd and the time elapsed (milliseconds)
  at the \<open>n\<close>-th popup, and what the operating system and the installation supply.\<close>

record hook_env =
  hk_client :: "nat \<Rightarrow> client_env"
  hk_kyrisd :: "nat \<Rightarrow> poll_env option"
  hk_elapsed :: "nat \<Rightarrow> nat"
  hk_parent_pid :: nat
  hk_home :: "string option"
  hk_canonical_agent :: "string \<Rightarrow> string option"

record PermissionCtx =
  pc_audit_conn :: bool
  pc_hook_id :: string
  pc_agent :: string
  pc_action :: string
  pc_detail :: string
  pc_cwd :: "string option"
  pc_native_allow_response :: AllowResponse
  pc_native_backstop :: bool
  pc_allow_suppresses_agent_prompt :: bool
  pc_poll_deadline :: nat
  pc_log_mode_fallback :: bool
  pc_has_permission_request :: bool
  pc_approval_mode :: ApprovalMode
  pc_native_ask :: "AskResponse option"

text \<open>What the invocation has done so far: exchanges with agentpactd, popups, fail-open records,
  decisions sent to agentpactd, and whether an ask was routed to the agent's own prompt.\<close>

record hook_state =
  hs_calls :: nat
  hs_popups :: nat
  hs_fail_open :: "FailOpenRecord list"
  hs_responses :: "(string \<times> ApprovalResponse) list"
  hs_native_ask :: bool

definition hook_start :: hook_state where
  "hook_start = \<lparr>hs_calls = 0, hs_popups = 0, hs_fail_open = [], hs_responses = [], hs_native_ask = False\<rparr>"

record AuditRecord =
  au_hook_id :: string
  au_agent :: string
  au_action :: string
  au_detail :: string
  au_segments :: "string list option"
  au_decision :: string
  au_source :: string
  au_agent_prompt :: string

record hook_out =
  ho_exit :: int
  ho_stdout :: "json option"
  ho_stderr :: "string option"
  ho_audit :: "AuditRecord option"
  ho_fail_open :: "FailOpenRecord list"
  ho_responses :: "(string \<times> ApprovalResponse) list"
  ho_commit :: "string option"
  ho_live :: bool
  ho_note :: bool

text \<open>File paths are logged relative to the home directory; without a kyrisd connection nothing is
  logged.\<close>

definition audit_log_hook ::
  "hook_env \<Rightarrow> bool \<Rightarrow> string \<Rightarrow> string \<Rightarrow> string \<Rightarrow> string \<Rightarrow> string list option \<Rightarrow> string \<Rightarrow> string \<Rightarrow>
     string \<Rightarrow> AuditRecord option" where
  "audit_log_hook env conn hook_id agent action detail segments decision source agent_prompt =
     (if \<not> conn then None
      else Some \<lparr>au_hook_id = hook_id, au_agent = agent, au_action = action,
        au_detail = (if is_file_action action then home_relative (hk_home env) detail else detail),
        au_segments = segments, au_decision = decision, au_source = source,
        au_agent_prompt = agent_prompt\<rparr>)"

text \<open>The process exits with the effects gathered in the state.\<close>

definition exit_with ::
  "int \<Rightarrow> json option \<Rightarrow> string option \<Rightarrow> AuditRecord option \<Rightarrow> hook_state \<Rightarrow> hook_out" where
  "exit_with code out err audit s =
     \<lparr>ho_exit = code, ho_stdout = out, ho_stderr = err, ho_audit = audit, ho_fail_open = hs_fail_open s,
      ho_responses = hs_responses s, ho_commit = None, ho_live = False, ho_note = False\<rparr>"

definition record_execution_live_evidence :: "string \<Rightarrow> bool" where
  "record_execution_live_evidence agent \<longleftrightarrow> agent \<noteq> ''shell''"

definition fail_open_record :: "string \<Rightarrow> string \<Rightarrow> string \<Rightarrow> string option \<Rightarrow> FailOpenRecord" where
  "fail_open_record agent action detail cwd =
     \<lparr>fo_agent = agent, fo_action = action, fo_detail = detail, fo_mcp_server = ''shell'', fo_working_dir = cwd\<rparr>"

definition APPROVAL_TTL_MARGIN_SECS :: nat where
  "APPROVAL_TTL_MARGIN_SECS = 120"

definition classify_segment ::
  "hook_env \<Rightarrow> PermissionCtx \<Rightarrow> nat option \<Rightarrow> string \<Rightarrow> (string \<times> string) option \<Rightarrow>
     hook_state \<Rightarrow> string \<Rightarrow> SegClass \<times> hook_state" where
  "classify_segment env ctx seed_pid action command_group s seg =
     (let s1 = s\<lparr>hs_calls := hs_calls s + 1\<rparr>;
          approval_ttl_secs = min (2 ^ 64 - 1) (pc_poll_deadline ctx + APPROVAL_TTL_MARGIN_SECS)
      in case request_hook_permission (hk_client env (hs_calls s)) ''kyris-hook'' action seg (pc_cwd ctx)
                seed_pid (hk_canonical_agent env (pc_agent ctx)) (Some (hk_parent_pid env)) None
                command_group (Some approval_ttl_secs) of
           Inr (Allow _, _) \<Rightarrow> (Auto, s1)
         | Inr (Ask approval_id approval_token allow_always detail, _) \<Rightarrow>
             (SAsk approval_id approval_token allow_always detail, s1)
         | Inr (Deny _ reason _, _) \<Rightarrow> (SDeny reason, s1)
         | Inl reason \<Rightarrow>
             (Unavailable reason,
              s1\<lparr>hs_fail_open := hs_fail_open s1 @ [fail_open_record (pc_agent ctx) action seg (pc_cwd ctx)]\<rparr>))"

text \<open>\<open>poll_segment\<close>, with the window in milliseconds and the decisions it sends to agentpactd
  (\<open>deny_ask_immediately\<close>, best effort: its outcome is ignored).\<close>

definition kyrisd_unreachable_reason :: string where
  "kyrisd_unreachable_reason = ''kyrisd unreachable '' @ em_dash @ '' could not render approval dialog''"

definition segment_approval ::
  "hook_env \<Rightarrow> string \<Rightarrow> string \<Rightarrow> string \<Rightarrow> string \<Rightarrow> string \<Rightarrow> bool \<Rightarrow> string option \<Rightarrow> PendingApproval" where
  "segment_approval env agent server approval_id approval_token seg allow_always detail =
     (let seg = (if is_file_action server then home_relative (hk_home env) seg else seg)
      in \<lparr>pa_approval_id = approval_id, pa_approval_token = approval_token, pa_server = server,
          pa_tool = seg, pa_code = Some seg, pa_agent = agent, pa_allow_always = allow_always,
          pa_detail = detail\<rparr>)"

definition poll_segment ::
  "hook_env \<Rightarrow> poll_env option \<Rightarrow> string \<Rightarrow> string \<Rightarrow> string \<Rightarrow> string \<Rightarrow> string \<Rightarrow> bool \<Rightarrow> string option \<Rightarrow> nat \<Rightarrow>
     (PopupResult \<times> (string \<times> ApprovalResponse) list) option" where
  "poll_segment env kyrisd agent server approval_id approval_token seg allow_always detail max_wait =
     (case kyrisd of
        None \<Rightarrow> Some (Blocked 2 ''kyrisd_unreachable'' kyrisd_unreachable_reason, [])
      | Some conn \<Rightarrow>
          map_option
            (\<lambda>(resolution, _).
               case resolution of
                 Resolution.Approved \<Rightarrow> (PApproved ''user_approved'', [])
               | Resolution.Denied \<Rightarrow>
                   (Blocked 2 ''user_denied'' ''denied by the developer at the approval prompt'', [])
               | Unreachable \<Rightarrow> (Blocked 2 ''kyrisd_unreachable'' kyrisd_unreachable_reason, [])
               | Failed reason \<Rightarrow>
                   (Blocked 2 (if sublist ''timeout'' reason \<or> sublist ''timed out'' reason
                               then ''user_timeout'' else ''resolution_failed'') reason,
                    [(approval_token, ApprovalResponse.Denied)]))
            (hold_poll_resolve_with_timeout conn
               (segment_approval env agent server approval_id approval_token seg allow_always detail) max_wait))"

record ActionBatch =
  ab_action :: string
  ab_segments :: "string list"

text \<open>The prompt closure of \<open>drive_batches\<close>: in native mode the ask is left to the agent; else the
  popup gets what remains of the invocation's window.\<close>

definition native_mode :: "PermissionCtx \<Rightarrow> bool" where
  "native_mode ctx \<longleftrightarrow> pc_approval_mode ctx = Native \<and> pc_native_ask ctx \<noteq> None"

definition drive_prompt ::
  "hook_env \<Rightarrow> PermissionCtx \<Rightarrow> string \<Rightarrow> hook_state \<Rightarrow> string \<Rightarrow> string \<Rightarrow> string \<Rightarrow> bool \<Rightarrow> string option \<Rightarrow>
     (PopupResult \<times> hook_state) option" where
  "drive_prompt env ctx action s approval_id approval_token seg allow_always detail =
     (if native_mode ctx then Some (PApproved ''native_ask'', s\<lparr>hs_native_ask := True\<rparr>)
      else map_option (\<lambda>(r, sent). (r, s\<lparr>hs_popups := hs_popups s + 1, hs_responses := hs_responses s @ sent\<rparr>))
             (poll_segment env (hk_kyrisd env (hs_popups s)) (pc_agent ctx) action approval_id approval_token
                seg allow_always detail (pc_poll_deadline ctx * 1000 - hk_elapsed env (hs_popups s))))"

text \<open>The loop over the batches.\<close>

fun run_batches ::
  "hook_env \<Rightarrow> PermissionCtx \<Rightarrow> nat option \<Rightarrow> (string \<times> string) option \<Rightarrow> string \<Rightarrow> ActionBatch list \<Rightarrow>
     hook_state \<Rightarrow> ((SegBlock + string) \<times> hook_state) option" where
  "run_batches env ctx seed_pid command_group source [] s = Some (Inr source, s)"
| "run_batches env ctx seed_pid command_group source (batch # batches) s =
     (case run_segments (ab_segments batch)
             (classify_segment env ctx seed_pid (ab_action batch) command_group)
             (drive_prompt env ctx (ab_action batch)) s of
        None \<Rightarrow> None
      | Some (Inl block, s1) \<Rightarrow> Some (Inl block, s1)
      | Some (Inr src, s1) \<Rightarrow>
          run_batches env ctx seed_pid command_group
            (if src \<noteq> ''agentpact_auto'' then src else source) batches s1)"

definition ctx_audit ::
  "hook_env \<Rightarrow> PermissionCtx \<Rightarrow> string list option \<Rightarrow> string \<Rightarrow> string \<Rightarrow> string \<Rightarrow> AuditRecord option" where
  "ctx_audit env ctx segments decision source agent_prompt =
     audit_log_hook env (pc_audit_conn ctx) (pc_hook_id ctx) (pc_agent ctx) (pc_action ctx) (pc_detail ctx)
       segments decision source agent_prompt"

definition deny_for_missing_backstop ::
  "hook_env \<Rightarrow> PermissionCtx \<Rightarrow> string list option \<Rightarrow> string \<Rightarrow> hook_state \<Rightarrow> hook_out" where
  "deny_for_missing_backstop env ctx segments source s =
     (let agent = pc_agent ctx;
          daemon = (if source = ''kyrisd_unreachable'' then ''kyrisd (the approval renderer)''
                    else ''agentpactd (the policy daemon)'');
          reason = daemon @ '' is unreachable and '' @ agent @ '' has no native permission backstop '' @
                   ''behind the kyris hook '' @ em_dash @ '' running this command would be ungoverned. '' @
                   ''Denied. Start the daemon (`kyris status` shows what'' @ [CHR 0x27] @ ''s down), or '' @
                   ''`kyris agent disconnect '' @ agent @ ''` to restore '' @ agent @ [CHR 0x27] @
                   ''s own permission prompts.''
      in exit_with 2 None (Some reason) (ctx_audit env ctx segments ''deny'' source ''none'') s)"

definition emit_native_ask ::
  "hook_env \<Rightarrow> PermissionCtx \<Rightarrow> string list \<Rightarrow> bool \<Rightarrow> hook_state \<Rightarrow> hook_out" where
  "emit_native_ask env ctx segs log_mode s =
     (if log_mode
      then (exit_with 0 (emit_allow EmptyStdout) None
              (ctx_audit env ctx (Some segs) ''defer'' ''log_mode'' (agent_prompt_for EmptyStdout False)) s)
             \<lparr>ho_live := record_execution_live_evidence (pc_agent ctx)\<rparr>
      else (exit_with 0
              (case pc_native_ask ctx of Some (NativePrompt body) \<Rightarrow> Some body | _ \<Rightarrow> emit_allow EmptyStdout)
              None
              (ctx_audit env ctx (Some segs) ''ask'' ''native_prompt'' (agent_prompt_for EmptyStdout False)) s)
             \<lparr>ho_live := record_execution_live_evidence (pc_agent ctx)\<rparr>)"

text \<open>The common end of the defer paths.\<close>

definition defer_out ::
  "hook_env \<Rightarrow> PermissionCtx \<Rightarrow> string list option \<Rightarrow> string \<Rightarrow> hook_state \<Rightarrow> hook_out" where
  "defer_out env ctx segments source s =
     exit_with 0 (emit_allow EmptyStdout) None
       (ctx_audit env ctx segments ''defer'' source (agent_prompt_for EmptyStdout False)) s"

definition spool :: "FailOpenRecord \<Rightarrow> hook_state \<Rightarrow> hook_state" where
  "spool r s = s\<lparr>hs_fail_open := hs_fail_open s @ [r]\<rparr>"

text \<open>How \<open>drive_batches\<close> ends, given the result of its loop.\<close>

definition finish_batches ::
  "hook_env \<Rightarrow> PermissionCtx \<Rightarrow> string list \<Rightarrow> bool \<Rightarrow> SegBlock + string \<Rightarrow> hook_state \<Rightarrow> hook_out" where
  "finish_batches env ctx segs log_mode result s =
     (case result of
        Inr source \<Rightarrow>
          if hs_native_ask s then emit_native_ask env ctx segs log_mode s
          else
            (let response = effective_allow_response (pc_native_allow_response ctx) log_mode
             in (exit_with 0 (emit_allow response) None
                   (ctx_audit env ctx (Some segs) ''allow'' source
                      (agent_prompt_for response (pc_allow_suppresses_agent_prompt ctx))) s)
                  \<lparr>ho_live := record_execution_live_evidence (pc_agent ctx),
                   ho_note := (source = ''user_approved'' \<or> source = ''user_always'')
                              \<and> pc_has_permission_request ctx\<rparr>)
      | Inl block \<Rightarrow>
          if block_from_daemon_unavailable (sb_source block) then
            (if \<not> pc_native_backstop ctx \<and> \<not> log_mode
             then deny_for_missing_backstop env ctx (Some segs) (sb_source block) s
             else defer_out env ctx (Some segs) (sb_source block)
                    (spool (fail_open_record (pc_agent ctx) (pc_action ctx) (pc_detail ctx) (pc_cwd ctx)) s))
          else
            (exit_with (sb_exit_code block) None (Some (sb_reason block))
               (ctx_audit env ctx (Some segs) ''deny'' (sb_source block) ''none'') s)
              \<lparr>ho_live := record_execution_live_evidence (pc_agent ctx)\<rparr>)"

definition drive_batches ::
  "hook_env \<Rightarrow> PermissionCtx \<Rightarrow> nat option \<Rightarrow> ActionBatch list \<Rightarrow> bool \<Rightarrow> string option \<Rightarrow> hook_state \<Rightarrow>
     hook_out option" where
  "drive_batches env ctx seed_pid batches log_mode command_group_id s =
     (let command_group = map_option (\<lambda>g. (g, pc_detail ctx)) command_group_id;
          segs = concat (map ab_segments batches)
      in map_option
           (\<lambda>(result, s1). (finish_batches env ctx segs log_mode result s1)\<lparr>ho_commit := command_group_id\<rparr>)
           (run_batches env ctx seed_pid command_group ''agentpact_auto'' batches s))"

definition drive_per_segment ::
  "hook_env \<Rightarrow> PermissionCtx \<Rightarrow> nat option \<Rightarrow> string list option \<Rightarrow> bool \<Rightarrow> hook_state \<Rightarrow> hook_out option" where
  "drive_per_segment env ctx seed_pid segments log_mode s =
     (let segs = unwrap_or segments [pc_detail ctx];
          command_group_id = (if length segs \<ge> 2
                              then Some (new_command_group (hk_client env (hs_calls s))) else None)
      in drive_batches env ctx seed_pid [\<lparr>ab_action = pc_action ctx, ab_segments = segs\<rparr>] log_mode
           command_group_id s)"

definition patch_batches :: "PermissionCtx \<Rightarrow> PatchPaths \<Rightarrow> ActionBatch list" where
  "patch_batches ctx parsed =
     (let resolve = map (\<lambda>p. resolve_relative_path ''write'' p (pc_cwd ctx))
      in (if pp_writes parsed \<noteq> [] then [\<lparr>ab_action = ''write'', ab_segments = resolve (pp_writes parsed)\<rparr>] else [])
         @ (if pp_deletes parsed \<noteq> [] then [\<lparr>ab_action = ''delete'', ab_segments = resolve (pp_deletes parsed)\<rparr>]
            else []))"

definition drive_apply_patch ::
  "hook_env \<Rightarrow> PermissionCtx \<Rightarrow> nat option \<Rightarrow> hook_state \<Rightarrow> hook_out option" where
  "drive_apply_patch env ctx seed_pid s =
     (let parsed = parse_apply_patch_paths (pc_detail ctx)
      in if pp_writes parsed = [] \<and> pp_deletes parsed = [] then
           Some (if \<not> pc_native_backstop ctx \<and> \<not> pc_log_mode_fallback ctx
                 then deny_for_missing_backstop env ctx None ''unparseable_patch'' s
                 else defer_out env ctx None ''unparseable_patch'' s)
         else
           (let batches = patch_batches ctx parsed;
                log_mode =
                  (case request_hook_permission_preview (hk_client env (hs_calls s)) ''kyris-hook''
                          (ab_action (hd batches)) (hd (ab_segments (hd batches))) (pc_cwd ctx) seed_pid
                          (hk_canonical_agent env (pc_agent ctx)) of
                     Inr (Allow mode, _) \<Rightarrow> mode = Log
                   | Inr _ \<Rightarrow> False
                   | Inl _ \<Rightarrow> pc_log_mode_fallback ctx)
            in drive_batches env ctx seed_pid batches log_mode None (s\<lparr>hs_calls := hs_calls s + 1\<rparr>)))"

section \<open>The agent hook keeps the contract\<close>

definition hook_verdict ::
  "hook_env \<Rightarrow> PermissionCtx \<Rightarrow> nat option \<Rightarrow> string \<Rightarrow> (string \<times> string) option \<Rightarrow> nat \<Rightarrow> string \<Rightarrow>
     string + McpPermissionDecision \<times> string list option" where
  "hook_verdict env ctx seed_pid action command_group n seg =
     request_hook_permission (hk_client env n) ''kyris-hook'' action seg (pc_cwd ctx) seed_pid
       (hk_canonical_agent env (pc_agent ctx)) (Some (hk_parent_pid env)) None command_group
       (Some (min (2 ^ 64 - 1) (pc_poll_deadline ctx + APPROVAL_TTL_MARGIN_SECS)))"

text \<open>The popup for this ask was accepted by kyrisd and a status answer within the window \<open>w\<close> said
  that it was approved.\<close>

definition popup_approved :: "poll_env option \<Rightarrow> PendingApproval \<Rightarrow> nat \<Rightarrow> bool" where
  "popup_approved kyrisd approval w \<longleftrightarrow>
     (case kyrisd of
        None \<Rightarrow> False
      | Some conn \<Rightarrow>
          (case pl_hold conn (hold_body approval w) of Inl _ \<Rightarrow> False | Inr status \<Rightarrow> is_success status) \<and>
          (\<exists>j. pl_clock conn j < pl_start conn + w \<and> said conn j ''approved''))"

text \<open>The popup could not be put up: there is no connection to kyrisd, or its answer to the hold is an
  error.\<close>

definition popup_unreachable :: "poll_env option \<Rightarrow> PendingApproval \<Rightarrow> nat \<Rightarrow> bool" where
  "popup_unreachable kyrisd approval w \<longleftrightarrow>
     (case kyrisd of
        None \<Rightarrow> True
      | Some conn \<Rightarrow>
          (case pl_hold conn (hold_body approval w) of Inl _ \<Rightarrow> True | Inr status \<Rightarrow> \<not> is_success status))"

text \<open>The reasons for which the agent hook lets a segment pass: the daemon allows it, or it asks and
  the user approves at the popup, or the ask is handed to the agent's own prompt.\<close>

definition hook_allowed ::
  "hook_env \<Rightarrow> PermissionCtx \<Rightarrow> nat option \<Rightarrow> (string \<times> string) option \<Rightarrow> string \<Rightarrow> string \<Rightarrow> bool" where
  "hook_allowed env ctx seed_pid command_group action seg \<longleftrightarrow>
     (\<exists>n m segs. hook_verdict env ctx seed_pid action command_group n seg = Inr (Allow m, segs))"

definition hook_approved ::
  "hook_env \<Rightarrow> PermissionCtx \<Rightarrow> nat option \<Rightarrow> (string \<times> string) option \<Rightarrow> string \<Rightarrow> string \<Rightarrow> bool" where
  "hook_approved env ctx seed_pid command_group action seg \<longleftrightarrow>
     (\<exists>n i t aa d segs k. hook_verdict env ctx seed_pid action command_group n seg = Inr (Ask i t aa d, segs) \<and>
        popup_approved (hk_kyrisd env k) (segment_approval env (pc_agent ctx) action i t seg aa d)
          (pc_poll_deadline ctx * 1000 - hk_elapsed env k))"

definition hook_asked ::
  "hook_env \<Rightarrow> PermissionCtx \<Rightarrow> nat option \<Rightarrow> (string \<times> string) option \<Rightarrow> string \<Rightarrow> string \<Rightarrow> bool" where
  "hook_asked env ctx seed_pid command_group action seg \<longleftrightarrow>
     (\<exists>n i t aa d segs. hook_verdict env ctx seed_pid action command_group n seg = Inr (Ask i t aa d, segs))"

text \<open>A daemon was unavailable for this segment: agentpactd gave no verdict on it, or it asked and
  kyrisd could not put the question.\<close>

definition hook_outage ::
  "hook_env \<Rightarrow> PermissionCtx \<Rightarrow> nat option \<Rightarrow> (string \<times> string) option \<Rightarrow> string \<Rightarrow> string \<Rightarrow> bool" where
  "hook_outage env ctx seed_pid command_group action seg \<longleftrightarrow>
     (\<exists>n e. hook_verdict env ctx seed_pid action command_group n seg = Inl e) \<or>
     (\<exists>n i t aa d segs k. hook_verdict env ctx seed_pid action command_group n seg = Inr (Ask i t aa d, segs) \<and>
        popup_unreachable (hk_kyrisd env k) (segment_approval env (pc_agent ctx) action i t seg aa d)
          (pc_poll_deadline ctx * 1000 - hk_elapsed env k))"

definition hook_cleared ::
  "hook_env \<Rightarrow> PermissionCtx \<Rightarrow> nat option \<Rightarrow> (string \<times> string) option \<Rightarrow> string \<Rightarrow> hook_state \<Rightarrow> string \<Rightarrow> bool" where
  "hook_cleared env ctx seed_pid command_group action s seg \<longleftrightarrow>
     hook_allowed env ctx seed_pid command_group action seg \<or>
     hook_approved env ctx seed_pid command_group action seg \<or>
     (hook_asked env ctx seed_pid command_group action seg \<and> native_mode ctx \<and> hs_native_ask s)"

lemma poll_segment_cases:
  assumes "poll_segment env kyrisd agent server i t seg aa d w = Some (p, sent)"
  obtains (down) "kyrisd = None" "p = Blocked 2 ''kyrisd_unreachable'' kyrisd_unreachable_reason" "sent = []"
  | (approved) conn c where "kyrisd = Some conn" "p = PApproved ''user_approved''" "sent = []"
      "hold_poll_resolve_with_timeout conn (segment_approval env agent server i t seg aa d) w
         = Some (Resolution.Approved, c)"
  | (blocked) conn src reason where "kyrisd = Some conn" "p = Blocked 2 src reason"
proof (cases kyrisd)
  case None
  with assms down show thesis by (simp add: poll_segment_def)
next
  case (Some conn)
  with assms obtain r c where h:
    "hold_poll_resolve_with_timeout conn (segment_approval env agent server i t seg aa d) w = Some (r, c)"
    by (auto simp: poll_segment_def)
  with assms Some show thesis
    by (cases r) (auto simp: poll_segment_def intro: approved[OF Some] blocked[OF Some])
qed

lemma poll_segment_approved:
  assumes "poll_segment env kyrisd agent server i t seg aa d w = Some (PApproved src, sent)"
  shows "src = ''user_approved'' \<and> sent = [] \<and>
     popup_approved kyrisd (segment_approval env agent server i t seg aa d) w"
  using assms
proof (cases rule: poll_segment_cases)
  case (approved conn c)
  from poll_resolve_result[OF approved(4)] approved show ?thesis
    by (auto simp: popup_approved_def split: sum.splits)
qed auto

lemma poll_segment_blocked:
  "poll_segment env kyrisd agent server i t seg aa d w = Some (Blocked c src r, sent) \<Longrightarrow> c = 2"
  by (erule poll_segment_cases) auto

lemma poll_segment_unreachable:
  assumes "poll_segment env kyrisd agent server i t seg aa d w = Some (Blocked c src reason, sent)"
    and "block_from_daemon_unavailable src"
  shows "popup_unreachable kyrisd (segment_approval env agent server i t seg aa d) w"
proof (cases kyrisd)
  case (Some conn)
  let ?a = "segment_approval env agent server i t seg aa d"
  from assms(1) Some obtain r c' where h: "hold_poll_resolve_with_timeout conn ?a w = Some (r, c')"
    by (auto simp: poll_segment_def)
  with assms Some have "r = Unreachable"
    by (cases r) (auto simp: poll_segment_def block_from_daemon_unavailable_def split: if_splits)
  with poll_resolve_result[OF h] Some show ?thesis by (simp add: popup_unreachable_def)
qed (simp add: popup_unreachable_def)

lemma classify_segment_cases:
  assumes "classify_segment env ctx seed_pid action grp s seg = (k, s1)"
  shows "hs_native_ask s1 = hs_native_ask s \<and>
    (case k of Auto \<Rightarrow> hook_allowed env ctx seed_pid grp action seg
     | SAsk i t aa d \<Rightarrow> (\<exists>n segs. hook_verdict env ctx seed_pid action grp n seg = Inr (Ask i t aa d, segs))
     | Unavailable reason \<Rightarrow> (\<exists>n. hook_verdict env ctx seed_pid action grp n seg = Inl reason)
     | SDeny reason \<Rightarrow> True)"
proof -
  let ?v = "hook_verdict env ctx seed_pid action grp (hs_calls s) seg"
  show ?thesis
  proof (cases ?v)
    case (Inl e)
    with assms show ?thesis
      by (auto simp: classify_segment_def hook_verdict_def Let_def intro!: exI[of _ "hs_calls s"])
  next
    case (Inr p)
    obtain v l where "p = (v, l)" by fastforce
    with Inr assms show ?thesis
      by (cases v) (auto simp: classify_segment_def hook_verdict_def hook_allowed_def Let_def
          intro!: exI[of _ "hs_calls s"])
  qed
qed

lemma drive_prompt_cases:
  assumes "drive_prompt env ctx action s i t seg aa d = Some (r, s1)"
  shows "(hs_native_ask s \<longrightarrow> hs_native_ask s1) \<and> (\<forall>c src reason. r = Blocked c src reason \<longrightarrow> c = 2) \<and>
    (\<forall>src. r = PApproved src \<longrightarrow> native_mode ctx \<and> hs_native_ask s1 \<or>
       (\<exists>k. popup_approved (hk_kyrisd env k) (segment_approval env (pc_agent ctx) action i t seg aa d)
          (pc_poll_deadline ctx * 1000 - hk_elapsed env k)))"
  using assms
  by (auto simp: drive_prompt_def dest: poll_segment_blocked poll_segment_approved split: if_splits)

lemma drive_prompt_unreachable:
  assumes "drive_prompt env ctx action s i t seg aa d = Some (Blocked c src reason, s1)"
    and "block_from_daemon_unavailable src"
  shows "\<exists>k. popup_unreachable (hk_kyrisd env k) (segment_approval env (pc_agent ctx) action i t seg aa d)
      (pc_poll_deadline ctx * 1000 - hk_elapsed env k)"
  using assms by (auto simp: drive_prompt_def dest: poll_segment_unreachable split: if_splits)

interpretation hook: segment_gate
  "classify_segment env ctx seed_pid action grp" "drive_prompt env ctx action"
  "hook_cleared env ctx seed_pid grp action"
  for env ctx seed_pid action grp
proof (unfold_locales, goal_cases)
  case (1 s seg s1)
  then show ?case using classify_segment_cases[OF 1] by (simp add: hook_cleared_def)
next
  case (2 s seg i t aa d s1 src s2)
  then show ?case
    using classify_segment_cases[OF 2(1)] drive_prompt_cases[OF 2(2)]
    unfolding hook_cleared_def hook_approved_def hook_asked_def by (simp, blast)
next
  case (3 s seg' seg)
  then show ?case
    using classify_segment_cases[of env ctx seed_pid action grp s seg] 
    by (cases "classify_segment env ctx seed_pid action grp s seg") (auto simp: hook_cleared_def)
next
  case (4 s seg' i t seg aa d r s1)
  then show ?case using drive_prompt_cases[OF 4(2)] by (auto simp: hook_cleared_def)
next
  case (5 s i t seg aa d c src reason s1)
  then show ?case using drive_prompt_cases[OF 5] by blast
qed

lemma run_segments_native:
  assumes "run_segments_from src segs (classify_segment env ctx seed_pid action grp) (drive_prompt env ctx action) s
       = Some (r, s')" and "hs_native_ask s"
  shows "hs_native_ask s'"
  by (rule run_segments_inv[where P = hs_native_ask, OF assms])
    (auto dest: drive_prompt_cases simp: classify_segment_cases[OF surjective_pairing])

lemma run_batches_ConsE:
  assumes "run_batches env ctx seed_pid grp src (c # batches) s = Some (r, s')"
  obtains (blocked) b where "r = Inl b"
      "run_segments_from ''agentpact_auto'' (ab_segments c) (classify_segment env ctx seed_pid (ab_action c) grp)
         (drive_prompt env ctx (ab_action c)) s = Some (Inl b, s')"
  | (passed) src1 s1 src2 where
      "run_segments_from ''agentpact_auto'' (ab_segments c) (classify_segment env ctx seed_pid (ab_action c) grp)
         (drive_prompt env ctx (ab_action c)) s = Some (Inr src1, s1)"
      "run_batches env ctx seed_pid grp src2 batches s1 = Some (r, s')"
proof -
  let ?w = "run_segments_from ''agentpact_auto'' (ab_segments c)
     (classify_segment env ctx seed_pid (ab_action c) grp) (drive_prompt env ctx (ab_action c)) s"
  obtain q s1 where w: "?w = Some (q, s1)"
    using assms by (cases ?w) (auto simp: run_segments_def)
  with assms blocked passed show thesis by (cases q) (auto simp: run_segments_def)
qed

lemma run_batches_native:
  "run_batches env ctx seed_pid grp src batches s = Some (r, s') \<Longrightarrow> hs_native_ask s \<Longrightarrow> hs_native_ask s'"
proof (induction batches arbitrary: src s)
  case (Cons c batches)
  from Cons(2) show ?case by (cases rule: run_batches_ConsE) (use Cons(1,3) run_segments_native in blast)+
qed simp

lemma run_batches_cleared:
  "run_batches env ctx seed_pid grp src batches s = Some (Inr src', s') \<Longrightarrow> b \<in> set batches \<Longrightarrow>
     seg \<in> set (ab_segments b) \<Longrightarrow> hook_cleared env ctx seed_pid grp (ab_action b) s' seg"
proof (induction batches arbitrary: src s)
  case (Cons c batches)
  from Cons(2) show ?case
  proof (cases rule: run_batches_ConsE)
    case (passed src1 s1 src2)
    show ?thesis
    proof (cases "b \<in> set batches")
      case True
      with Cons passed show ?thesis by blast
    next
      case False
      with Cons have "hook_cleared env ctx seed_pid grp (ab_action b) s1 seg"
        using hook.walk_cleared[OF passed(1)] by auto
      with run_batches_native[OF passed(2)] show ?thesis by (auto simp: hook_cleared_def)
    qed
  qed simp
qed simp

lemma run_batches_block:
  "run_batches env ctx seed_pid grp src batches s = Some (Inl b, s') \<Longrightarrow> sb_exit_code b = 2"
proof (induction batches arbitrary: src s)
  case (Cons c batches)
  from Cons(2) show ?case by (cases rule: run_batches_ConsE) (use Cons(1) hook.walk_block in blast)+
qed simp

text \<open>A block that counts as an outage is an outage, at a segment of one of the batches.\<close>

lemma run_segments_outage:
  assumes "run_segments_from src segs (classify_segment env ctx seed_pid action grp) (drive_prompt env ctx action) s
       = Some (Inl b, s')" and u: "block_from_daemon_unavailable (sb_source b)"
  shows "\<exists>seg \<in> set segs. hook_outage env ctx seed_pid grp action seg"
  using assms(1)
proof (cases rule: run_segments_blocked)
  case (deny seg t t1 reason)
  with u show ?thesis by (simp add: block_from_daemon_unavailable_def)
next
  case (unavailable seg t t1 reason)
  with classify_segment_cases[OF unavailable(2)] show ?thesis unfolding hook_outage_def by auto
next
  case (prompt seg t t1 i tok aa d c reason t2)
  obtain n l where "hook_verdict env ctx seed_pid action grp n seg = Inr (Ask i tok aa d, l)"
    using classify_segment_cases[OF prompt(2)] by auto
  with prompt(1) drive_prompt_unreachable[OF prompt(3) u] show ?thesis
    unfolding hook_outage_def by blast
qed

lemma run_batches_outage:
  "run_batches env ctx seed_pid grp src batches s = Some (Inl b, s') \<Longrightarrow>
     block_from_daemon_unavailable (sb_source b) \<Longrightarrow>
     \<exists>c \<in> set batches. \<exists>seg \<in> set (ab_segments c). hook_outage env ctx seed_pid grp (ab_action c) seg"
proof (induction batches arbitrary: src s)
  case (Cons c batches)
  from Cons(2) show ?case
    by (cases rule: run_batches_ConsE) (use Cons(1,3) run_segments_outage in \<open>force+\<close>)
qed simp

lemmas hook_out_defs = finish_batches_def exit_with_def emit_native_ask_def deny_for_missing_backstop_def
  defer_out_def spool_def emit_allow_def effective_allow_response_def

lemma drive_batches_zero:
  assumes "drive_batches env ctx seed_pid batches log_mode gid s = Some out" and "ho_exit out = 0"
  shows "(\<forall>b \<in> set batches. \<forall>seg \<in> set (ab_segments b).
       hook_allowed env ctx seed_pid (map_option (\<lambda>g. (g, pc_detail ctx)) gid) (ab_action b) seg \<or>
       hook_approved env ctx seed_pid (map_option (\<lambda>g. (g, pc_detail ctx)) gid) (ab_action b) seg \<or>
       (hook_asked env ctx seed_pid (map_option (\<lambda>g. (g, pc_detail ctx)) gid) (ab_action b) seg \<and>
        native_mode ctx \<and> (ho_stdout out = None \<or> pc_native_ask ctx = map_option NativePrompt (ho_stdout out)))) \<or>
     ((\<exists>b \<in> set batches. \<exists>seg \<in> set (ab_segments b).
         hook_outage env ctx seed_pid (map_option (\<lambda>g. (g, pc_detail ctx)) gid) (ab_action b) seg) \<and>
      (pc_native_backstop ctx \<or> log_mode) \<and> ho_stdout out = None \<and>
      fail_open_record (pc_agent ctx) (pc_action ctx) (pc_detail ctx) (pc_cwd ctx) \<in> set (ho_fail_open out))"
proof -
  let ?grp = "map_option (\<lambda>g. (g, pc_detail ctx)) gid"
  let ?segs = "concat (map ab_segments batches)"
  obtain r s1 where r: "run_batches env ctx seed_pid ?grp ''agentpact_auto'' batches s = Some (r, s1)"
      and out: "out = (finish_batches env ctx ?segs log_mode r s1)\<lparr>ho_commit := gid\<rparr>"
    using assms(1) by (auto simp: drive_batches_def Let_def)
  show ?thesis
  proof (cases r)
    case (Inl block)
    with r run_batches_block have "sb_exit_code block = 2" by blast
    with Inl out assms(2) have "block_from_daemon_unavailable (sb_source block) \<and>
        (pc_native_backstop ctx \<or> log_mode) \<and> ho_stdout out = None \<and>
        fail_open_record (pc_agent ctx) (pc_action ctx) (pc_detail ctx) (pc_cwd ctx) \<in> set (ho_fail_open out)"
      by (auto simp: hook_out_defs Let_def split: if_splits)
    with run_batches_outage[OF r[unfolded Inl]] show ?thesis by blast
  next
    case (Inr src)
    have "hs_native_ask s1 \<Longrightarrow> ho_stdout out = None \<or> pc_native_ask ctx = map_option NativePrompt (ho_stdout out)"
      using Inr out by (auto simp: hook_out_defs split: option.splits AskResponse.splits)
    with run_batches_cleared[OF r[unfolded Inr]] show ?thesis
      unfolding hook_cleared_def by blast
  qed
qed

definition demo_hook :: hook_env where
  "demo_hook = \<lparr>hk_client = (\<lambda>n. demo_env), hk_kyrisd = (\<lambda>n. None), hk_elapsed = (\<lambda>n. 0), hk_parent_pid = 42,
     hk_home = None, hk_canonical_agent = (\<lambda>a. None)\<rparr>"

definition demo_ctx :: PermissionCtx where
  "demo_ctx = \<lparr>pc_audit_conn = False, pc_hook_id = ''h'', pc_agent = ''cline'', pc_action = ''execute'',
     pc_detail = ''ls;wc'', pc_cwd = None, pc_native_allow_response = Json (JStr ''allow''),
     pc_native_backstop = False, pc_allow_suppresses_agent_prompt = True, pc_poll_deadline = 110,
     pc_log_mode_fallback = False, pc_has_permission_request = False, pc_approval_mode = KyrisPopup,
     pc_native_ask = None\<rparr>"

definition demo_batches :: "ActionBatch list" where
  "demo_batches = [\<lparr>ab_action = ''execute'', ab_segments = [''ls'', ''wc'']\<rparr>]"

lemma demo_classify:
  assumes "length seg \<le> 3"
  shows "classify_segment demo_hook demo_ctx None action None s seg = (Auto, s\<lparr>hs_calls := hs_calls s + 1\<rparr>)"
  using assms
  by (simp add: classify_segment_def request_hook_permission_def demo_hook_def demo_env_def Let_def
      send_daemon_request_with_retry_def drive_retry_def RETRY_BACKOFFS_def oversized_execute_deny_def
      parse_mcp_permission_response_def get_defs)

lemma demo_drive:
  "\<exists>out. drive_batches demo_hook demo_ctx None demo_batches False None hook_start = Some out \<and>
     ho_exit out = 0 \<and> ho_stdout out = Some (JStr ''allow'')"
  by (simp add: drive_batches_def demo_batches_def run_segments_def demo_classify)
    (simp add: hook_out_defs demo_ctx_def hook_start_def Let_def)

section \<open>Properties\<close>

text \<open>
  C5. Exit status 0 of the hook's decision engine is justified: every segment of every batch was
  allowed by the policy daemon, or asked and approved at kyris's popup within the hook's window,
  or asked and the ask was handed to the agent's own prompt and no allow was printed; or else, for
  some segment, a daemon was unavailable (agentpactd gave no verdict on it, or it asked and kyrisd
  could not put up the popup), and then the agent has a backstop of its own (or the mode is log),
  nothing is printed and the command is in the fail-open log.
\<close>
theorem hook_exit_zero_is_justified:
  assumes "drive_batches env ctx seed_pid batches log_mode gid s = Some out" and "ho_exit out = 0"
  shows "(\<forall>b \<in> set batches. \<forall>seg \<in> set (ab_segments b).
       hook_allowed env ctx seed_pid (map_option (\<lambda>g. (g, pc_detail ctx)) gid) (ab_action b) seg \<or>
       hook_approved env ctx seed_pid (map_option (\<lambda>g. (g, pc_detail ctx)) gid) (ab_action b) seg \<or>
       (hook_asked env ctx seed_pid (map_option (\<lambda>g. (g, pc_detail ctx)) gid) (ab_action b) seg \<and>
        native_mode ctx \<and> (ho_stdout out = None \<or> pc_native_ask ctx = map_option NativePrompt (ho_stdout out)))) \<or>
     ((\<exists>b \<in> set batches. \<exists>seg \<in> set (ab_segments b).
         hook_outage env ctx seed_pid (map_option (\<lambda>g. (g, pc_detail ctx)) gid) (ab_action b) seg) \<and>
      (pc_native_backstop ctx \<or> log_mode) \<and> ho_stdout out = None \<and>
      fail_open_record (pc_agent ctx) (pc_action ctx) (pc_detail ctx) (pc_cwd ctx) \<in> set (ho_fail_open out))"
  using assms by (rule drive_batches_zero)

theorem hook_exit_zero_is_justified_witness:
  "hook_allowed demo_hook demo_ctx None None ''execute'' ''wc'' \<or>
   hook_approved demo_hook demo_ctx None None ''execute'' ''wc''"
proof -
  obtain out where "drive_batches demo_hook demo_ctx None demo_batches False None hook_start = Some out"
    and "ho_exit out = 0" using demo_drive by blast
  from hook_exit_zero_is_justified[OF this] show ?thesis
    by (auto simp: native_mode_def demo_ctx_def demo_batches_def)
qed

text \<open>
  What the hook prints can suppress the agent's own prompt only when kyris has a reason: a body
  on stdout means exit 0 in enforce mode, and it is either the agent's allow shape, with every
  segment allowed by the daemon or approved at the popup, or the agent's native ask shape.
\<close>
theorem hook_stdout_is_vouched:
  assumes "drive_batches env ctx seed_pid batches log_mode gid s = Some out" and "ho_stdout out = Some body"
  shows "\<not> log_mode \<and> ho_exit out = 0 \<and>
    (pc_native_ask ctx = Some (NativePrompt body) \<or>
     (pc_native_allow_response ctx = Json body \<and>
      (\<forall>b \<in> set batches. \<forall>seg \<in> set (ab_segments b).
         hook_allowed env ctx seed_pid (map_option (\<lambda>g. (g, pc_detail ctx)) gid) (ab_action b) seg \<or>
         hook_approved env ctx seed_pid (map_option (\<lambda>g. (g, pc_detail ctx)) gid) (ab_action b) seg)))"
proof -
  let ?grp = "map_option (\<lambda>g. (g, pc_detail ctx)) gid"
  let ?segs = "concat (map ab_segments batches)"
  obtain r s1 where r: "run_batches env ctx seed_pid ?grp ''agentpact_auto'' batches s = Some (r, s1)"
      and out: "out = (finish_batches env ctx ?segs log_mode r s1)\<lparr>ho_commit := gid\<rparr>"
    using assms(1) by (auto simp: drive_batches_def Let_def)
  obtain src where src: "r = Inr src"
    using out assms(2) by (cases r) (auto simp: hook_out_defs Let_def split: if_splits)
  have shape: "\<not> log_mode \<and> ho_exit out = 0 \<and> (pc_native_ask ctx = Some (NativePrompt body) \<or>
      (pc_native_allow_response ctx = Json body \<and> \<not> hs_native_ask s1))"
    using out assms(2) src
    by (auto simp: hook_out_defs Let_def split: if_splits option.splits AskResponse.splits AllowResponse.splits)
  with run_batches_cleared[OF r[unfolded src]] show ?thesis
    unfolding hook_cleared_def by blast
qed

theorem hook_stdout_is_vouched_witness:
  "pc_native_allow_response demo_ctx = Json (JStr ''allow'') \<and>
   (hook_allowed demo_hook demo_ctx None None ''execute'' ''ls'' \<or>
    hook_approved demo_hook demo_ctx None None ''execute'' ''ls'')"
proof -
  obtain out where "drive_batches demo_hook demo_ctx None demo_batches False None hook_start = Some out"
    and "ho_stdout out = Some (JStr ''allow'')" using demo_drive by blast
  from hook_stdout_is_vouched[OF this] show ?thesis
    by (auto simp: demo_ctx_def demo_batches_def)
qed

end
