(* ===== verification/HookCheck.thy ===== *)
theory HookCheck
  imports HookSegments
begin

text \<open>
  The entry points of the hook command: \<^verbatim>\<open>kyris hook check\<close> with its fast paths and the
  native-approval consultation (\<^verbatim>\<open>cli/src/hook_cmd/request.rs\<close>), the shell gate
  (\<^verbatim>\<open>cli/src/hook_cmd/resolve_shell.rs\<close>), \<^verbatim>\<open>kyris hook hold\<close> (\<^verbatim>\<open>cli/src/hook_cmd/hold.rs\<close>) and
  the short-lived approval notes (\<^verbatim>\<open>cli/src/recent_approvals.rs\<close>).

  Parameters: the SHA-256 digest, the file clock, the payload as \<open>serde_json\<close> parses it, the
  registry's descriptor of the agent and the agent's configuration files, the process table and the
  terminal.
\<close>

section \<open>Notes of recent approvals\<close>

text \<open>The directory of notes: file name and modification time, in milliseconds.\<close>

type_synonym note_dir = "(string, nat) hashmap"

definition TTL :: nat where
  "TTL = 30000"

definition unit_sep :: string where
  "unit_sep = [CHR 0x1F]"

definition note_path :: "(string \<Rightarrow> string) \<Rightarrow> string \<Rightarrow> string \<Rightarrow> string option \<Rightarrow> string \<Rightarrow> string" where
  "note_path sha256_hex agent action cwd detail =
     sha256_hex (agent @ unit_sep @ action @ unit_sep @ unwrap_or cwd [] @ unit_sep @ detail)"

text \<open>A modification time in the future is an error of \<open>duration_since\<close>, hence not fresh.\<close>

definition fresh_time :: "nat \<Rightarrow> nat \<Rightarrow> bool" where
  "fresh_time now modified \<longleftrightarrow> modified \<le> now \<and> now - modified \<le> TTL"

definition is_fresh :: "nat \<Rightarrow> note_dir \<Rightarrow> string \<Rightarrow> bool" where
  "is_fresh now ns path \<longleftrightarrow> (case map_of ns path of None \<Rightarrow> False | Some modified \<Rightarrow> fresh_time now modified)"

definition record_note ::
  "(string \<Rightarrow> string) \<Rightarrow> nat \<Rightarrow> string \<Rightarrow> string \<Rightarrow> string option \<Rightarrow> string \<Rightarrow> note_dir \<Rightarrow> note_dir" where
  "record_note sha256_hex now agent action cwd detail ns =
     AList.update (note_path sha256_hex agent action cwd detail) now
       (filter (\<lambda>(path, _). is_fresh now ns path) ns)"

text \<open>\<open>others\<close> is what other processes do to the directory between the freshness test and the
  removal; removing a file that is gone is an error.\<close>

definition consume ::
  "(string \<Rightarrow> string) \<Rightarrow> nat \<Rightarrow> (note_dir \<Rightarrow> note_dir) \<Rightarrow> string \<Rightarrow> string \<Rightarrow> string option \<Rightarrow> string \<Rightarrow> note_dir \<Rightarrow>
     bool \<times> note_dir" where
  "consume sha256_hex now others agent action cwd detail ns =
     (let path = note_path sha256_hex agent action cwd detail
      in if \<not> is_fresh now ns path then (False, AList.delete path (others ns))
         else (path \<in> fst ` set (others ns), AList.delete path (others ns)))"

section \<open>kyris hook check\<close>

record check_env =
  ck_hook :: hook_env
  ck_audit_conn :: bool
  ck_hook_id :: string
  ck_log_mode :: bool
  ck_protocol_compat :: "string + unit"
  ck_payload :: "json option"
  ck_print :: "json \<Rightarrow> string"
  ck_protocol :: "HookProtocol option"
  ck_registered :: bool
  ck_launch_dir :: "string option"
  ck_agent_pid :: "nat option"
  ck_approval_setting :: "string option"
  ck_all_servers :: "string list"
  ck_routed_servers :: "string list"
  ck_now :: nat
  ck_sha256_hex :: "string \<Rightarrow> string"
  ck_others :: "note_dir \<Rightarrow> note_dir"

definition resolve_approval_mode :: "string option \<Rightarrow> bool \<Rightarrow> ApprovalMode" where
  "resolve_approval_mode setting native_capable =
     (if \<not> native_capable then KyrisPopup
      else if setting = Some ''native'' then Native else KyrisPopup)"

text \<open>\<open>max_by_key\<close>: the last of the elements with the greatest key.\<close>

fun max_by_key :: "('a \<Rightarrow> nat) \<Rightarrow> 'a list \<Rightarrow> 'a option" where
  "max_by_key f [] = None"
| "max_by_key f (x # xs) =
     (case max_by_key f xs of
        None \<Rightarrow> Some x
      | Some y \<Rightarrow> Some (if f x > f y then x else y))"

definition is_kyris_routed_mcp_tool :: "check_env \<Rightarrow> HookProtocol \<Rightarrow> string \<Rightarrow> bool" where
  "is_kyris_routed_mcp_tool env proto tool =
     (case hp_mcp_tool_naming proto of
        None \<Rightarrow> False
      | Some naming \<Rightarrow>
          ck_registered env \<and>
          (case max_by_key (sanitized_len naming)
                  (filter (tool_belongs_to_server naming tool) (ck_all_servers env)) of
             None \<Rightarrow> False
           | Some winner \<Rightarrow> winner \<in> set (ck_routed_servers env)))"

definition check_audit ::
  "check_env \<Rightarrow> string \<Rightarrow> string \<Rightarrow> string \<Rightarrow> string \<Rightarrow> string \<Rightarrow> string \<Rightarrow> AuditRecord option" where
  "check_audit env agent action detail decision source agent_prompt =
     audit_log_hook (ck_hook env) (ck_audit_conn env) (ck_hook_id env) agent action detail None decision
       source agent_prompt"

text \<open>\<open>None\<close> when the tool is governable and the caller goes on.\<close>

definition ungoverned_reason :: "string \<Rightarrow> string \<Rightarrow> string" where
  "ungoverned_reason tool agent =
     ''tool '' @ [CHR 0x27] @ tool @ [CHR 0x27] @ '' is not governed by kyris, and '' @ agent @
     '' has no native permission backstop behind the kyris hook '' @ em_dash @
     '' allowing it would run ungoverned. Denied. Update kyris'' @ [CHR 0x27] @ ''s '' @ agent @
     '' tool mappings (then `kyris agent setup '' @ agent @ ''`), or `kyris agent disconnect '' @ agent @
     ''` to restore '' @ agent @ [CHR 0x27] @ ''s own permission prompts.''"

definition handle_non_governed ::
  "check_env \<Rightarrow> HookProtocol \<Rightarrow> string \<Rightarrow> string \<Rightarrow> string \<Rightarrow> string \<Rightarrow> hook_out option" where
  "handle_non_governed env proto tool agent action detail =
     (let governable = (\<exists>m \<in> set (hp_tool_mappings proto). tm_tool_name m = tool);
          pass_through = (tool \<in> set (hp_pass_through_tools proto))
      in if governable then None
         else if tool \<in> set (hp_agent_owned_tools proto) then
           Some (exit_with 0 (emit_allow EmptyStdout) None
             (check_audit env agent action detail ''allow'' ''agent_owned'' (agent_prompt_for EmptyStdout False))
             hook_start)
         else if \<not> pass_through \<and> \<not> hr_native_backstop (hp_runtime proto) \<and> \<not> ck_log_mode env then
           (if is_kyris_routed_mcp_tool env proto tool then
              Some (exit_with 0 (emit_allow EmptyStdout) None
                (check_audit env agent action detail ''allow'' ''mcp_tool_surface'' ''tool_surface'') hook_start)
            else
              Some (exit_with 2 None (Some (ungoverned_reason tool agent))
                (check_audit env agent action detail ''deny'' ''unmapped_no_backstop'' ''none'') hook_start))
         else
           (let response = non_governed_response pass_through (hp_allow_response proto) (ck_log_mode env)
            in Some (exit_with 0 (emit_allow response) None
                 (check_audit env agent action detail ''allow''
                    (if pass_through then ''passthrough'' else ''unmapped'')
                    (agent_prompt_for response (hr_allow_suppresses_agent_prompt (hp_runtime proto))))
                 hook_start)))"

definition dispatch_preview_outcome ::
  "hook_env \<Rightarrow> PermissionCtx \<Rightarrow> nat option \<Rightarrow> string + McpPermissionDecision \<times> string list option \<Rightarrow>
     hook_state \<Rightarrow> hook_out option" where
  "dispatch_preview_outcome env ctx seed_pid outcome s =
     (case outcome of
        Inr (Deny _ _ _, _) \<Rightarrow> drive_per_segment env ctx seed_pid None False s
      | Inr (decision, segments) \<Rightarrow>
          drive_per_segment env ctx seed_pid segments (decision = Allow Log) s
      | Inl _ \<Rightarrow>
          Some (if \<not> pc_native_backstop ctx \<and> \<not> pc_log_mode_fallback ctx
                then deny_for_missing_backstop env ctx None ''agentpact_unreachable'' s
                else defer_out env ctx None ''agentpact_unreachable''
                       (spool (fail_open_record (pc_agent ctx) (pc_action ctx) (pc_detail ctx) (pc_cwd ctx)) s)))"

text \<open>The native-approval consultation. The loop over the previews stops at the first that is not an
  enforce-mode allow: \<open>Inl source\<close> abstains, \<open>Inr False\<close> needs a note.\<close>

fun preview_all ::
  "hook_env \<Rightarrow> string \<Rightarrow> string option \<Rightarrow> nat option \<Rightarrow> nat \<Rightarrow> (string \<times> string) list \<Rightarrow> string + bool" where
  "preview_all env agent cwd seed_pid n [] = Inr True"
| "preview_all env agent cwd seed_pid n ((req_action, req_detail) # requests) =
     (case request_hook_permission_preview (hk_client env n) ''kyris-hook'' req_action req_detail cwd seed_pid
             (hk_canonical_agent env agent) of
        Inr (Allow mode, _) \<Rightarrow>
          if mode = Log then Inl ''log_mode'' else preview_all env agent cwd seed_pid (n + 1) requests
      | Inr _ \<Rightarrow> Inr False
      | Inl _ \<Rightarrow> Inl ''agentpact_unreachable'')"

definition patch_requests :: "string option \<Rightarrow> PatchPaths \<Rightarrow> (string \<times> string) list" where
  "patch_requests cwd parsed =
     map (\<lambda>p. (''write'', resolve_relative_path ''write'' p cwd)) (pp_writes parsed) @
     map (\<lambda>p. (''delete'', resolve_relative_path ''write'' p cwd)) (pp_deletes parsed)"

definition abstain :: "check_env \<Rightarrow> string \<Rightarrow> string \<Rightarrow> string \<Rightarrow> string \<Rightarrow> hook_out" where
  "abstain env agent action detail source =
     exit_with 0 None None (check_audit env agent action detail ''defer'' source ''agent_decides'') hook_start"

definition run_permission_request ::
  "check_env \<Rightarrow> string \<Rightarrow> HookProtocol option \<Rightarrow> json \<Rightarrow> note_dir \<Rightarrow> hook_out \<times> note_dir" where
  "run_permission_request env agent protocol hook_input ns =
     (case protocol of
        None \<Rightarrow> (abstain env agent ''unknown'' [] ''no_protocol'', ns)
      | Some proto \<Rightarrow>
     (case hp_permission_request_allow proto of
        None \<Rightarrow> (abstain env agent ''unknown'' [] ''no_integration'', ns)
      | Some allow_body \<Rightarrow>
     (let (action, detail) = map_payload (ck_print env) (Some proto) hook_input;
          governable = (case get_str (hp_tool_name_field proto) hook_input of
                          None \<Rightarrow> False
                        | Some tool \<Rightarrow> (\<exists>m \<in> set (hp_tool_mappings proto). tm_tool_name m = tool))
      in if \<not> governable then (abstain env agent action detail ''ungoverned_tool'', ns)
         else if ck_log_mode env then (abstain env agent action detail ''log_mode'', ns)
         else
           (let cwd = derive_session_cwd (ck_launch_dir env) hook_input;
                detail = resolve_relative_path action detail cwd;
                parsed = parse_apply_patch_paths detail
            in if action = ''apply_patch'' \<and> pp_writes parsed = [] \<and> pp_deletes parsed = []
               then (abstain env agent action detail ''unparseable_patch'', ns)
               else
                 (let requests = (if action = ''apply_patch'' then patch_requests cwd parsed
                                  else [(action, detail)]);
                      vouched = (\<lambda>source ns'. (exit_with 0 (Some allow_body) None
                        (check_audit env agent action detail ''allow'' source ''none'') hook_start, ns'))
                  in case preview_all (ck_hook env) agent cwd (ck_agent_pid env) 0 requests of
                       Inl source \<Rightarrow> (abstain env agent action detail source, ns)
                     | Inr True \<Rightarrow> vouched ''agentpact_auto'' ns
                     | Inr False \<Rightarrow>
                         (let (found, ns') = consume (ck_sha256_hex env) (ck_now env) (ck_others env) agent
                                               action cwd detail ns
                          in if found then vouched ''recent_approval'' ns'
                             else (abstain env agent action detail ''native_prompt'', ns')))))))"

definition check_ctx :: "check_env \<Rightarrow> string \<Rightarrow> string \<Rightarrow> string \<Rightarrow> string option \<Rightarrow> PermissionCtx" where
  "check_ctx env agent action detail cwd =
     (let protocol = ck_protocol env;
          native_ask = Option.bind protocol hp_native_ask
      in \<lparr>pc_audit_conn = ck_audit_conn env, pc_hook_id = ck_hook_id env, pc_agent = agent,
          pc_action = action, pc_detail = detail, pc_cwd = cwd,
          pc_native_allow_response = (case protocol of None \<Rightarrow> EmptyStdout | Some p \<Rightarrow> hp_allow_response p),
          pc_native_backstop = (case protocol of None \<Rightarrow> True | Some p \<Rightarrow> hr_native_backstop (hp_runtime p)),
          pc_allow_suppresses_agent_prompt =
            (case protocol of None \<Rightarrow> False | Some p \<Rightarrow> hr_allow_suppresses_agent_prompt (hp_runtime p)),
          pc_poll_deadline = (case protocol of None \<Rightarrow> NATIVE_HOOK_POLL_TIMEOUT div 1000
                              | Some p \<Rightarrow> poll_deadline (hp_runtime p)),
          pc_log_mode_fallback = ck_log_mode env,
          pc_has_permission_request =
            (case protocol of None \<Rightarrow> False | Some p \<Rightarrow> hp_permission_request_allow p \<noteq> None),
          pc_approval_mode = resolve_approval_mode (ck_approval_setting env) (native_ask \<noteq> None),
          pc_native_ask = native_ask\<rparr>)"

text \<open>The governance gate proper, from the derived context on.\<close>

definition govern :: "check_env \<Rightarrow> PermissionCtx \<Rightarrow> hook_out option" where
  "govern env ctx =
     (let h = ck_hook env; seed_pid = ck_agent_pid env
      in if pc_action ctx = ''apply_patch'' then drive_apply_patch h ctx seed_pid hook_start
         else dispatch_preview_outcome h ctx seed_pid
                (request_hook_permission_preview (hk_client h 0) ''kyris-hook'' (pc_action ctx) (pc_detail ctx)
                   (pc_cwd ctx) seed_pid (hk_canonical_agent h (pc_agent ctx)))
                (hook_start\<lparr>hs_calls := 1\<rparr>))"

definition run_check :: "check_env \<Rightarrow> string \<Rightarrow> note_dir \<Rightarrow> (hook_out \<times> note_dir) option" where
  "run_check env agent ns =
     (case ck_protocol_compat env of
        Inl msg \<Rightarrow>
          Some (exit_with 2 None (Some msg)
            (check_audit env agent ''unknown'' [] ''deny'' ''protocol_mismatch'' ''none'') hook_start, ns)
      | Inr _ \<Rightarrow>
     (let hook_input = unwrap_or (ck_payload env) JNull;
          protocol = ck_protocol env;
          tool_name = Option.bind protocol (\<lambda>p. get_str (hp_tool_name_field p) hook_input)
      in if (case protocol of None \<Rightarrow> False | Some p \<Rightarrow> hp_permission_request_allow p \<noteq> None) \<and>
            get_str ''hook_event_name'' hook_input = Some ''PermissionRequest''
         then Some (run_permission_request env agent protocol hook_input ns)
         else
           (let (action, detail) = map_payload (ck_print env) protocol hook_input
            in case (case (protocol, tool_name) of
                       (Some proto, Some tool) \<Rightarrow> handle_non_governed env proto tool agent action detail
                     | _ \<Rightarrow> None) of
                 Some out \<Rightarrow> Some (out, ns)
               | None \<Rightarrow>
                   (let cwd = derive_session_cwd (ck_launch_dir env) hook_input;
                        detail = resolve_relative_path action detail cwd;
                        ctx = check_ctx env agent action detail cwd
                    in map_option
                         (\<lambda>out. (out, if ho_note out
                                      then record_note (ck_sha256_hex env) (ck_now env) agent action cwd detail ns
                                      else ns))
                         (govern env ctx)))))"

section \<open>kyris hook hold\<close>

record shell_out =
  so_exit :: int
  so_stderr :: "string option"
  so_fail_open :: "FailOpenRecord list"
  so_responses :: "(string \<times> ApprovalResponse) list"
  so_commit :: "string option"
  so_prompts :: "PromptRecord list"

definition run_hold :: "hook_env \<Rightarrow> string \<Rightarrow> string \<Rightarrow> string \<Rightarrow> shell_out option" where
  "run_hold env req_id token display =
     map_option
       (\<lambda>(r, sent).
          case r of
            PApproved _ \<Rightarrow> \<lparr>so_exit = 0, so_stderr = None, so_fail_open = [], so_responses = sent,
                           so_commit = None, so_prompts = []\<rparr>
          | Blocked exit_code _ reason \<Rightarrow>
              \<lparr>so_exit = exit_code, so_stderr = Some reason, so_fail_open = [], so_responses = sent,
               so_commit = None, so_prompts = []\<rparr>)
       (poll_segment env (hk_kyrisd env 0) ''shell'' ''shell'' req_id token display False None
          NATIVE_HOOK_POLL_TIMEOUT)"

section \<open>The shell gate\<close>

text \<open>One \<open>read\<close> of the terminal; a list of them is what the terminal delivers, with end of file
  after the last.\<close>

datatype tty_read = Byte char | Eof | Interrupted | ReadError

record shell_env =
  sh_hook :: hook_env
  sh_var :: "string \<Rightarrow> string option"
  sh_stderr_terminal :: bool
  sh_dev_tty :: "tty_read list option"

definition inside_governed_agent :: "shell_env \<Rightarrow> bool" where
  "inside_governed_agent env \<longleftrightarrow>
     sh_var env ''KYRIS_GOVERNED_SUBPROCESS'' \<noteq> None \<or> sh_var env ''CLAUDECODE'' \<noteq> None \<or>
     sh_var env ''GEMINI_CLI'' \<noteq> None \<or> sh_var env ''__KYRIS_GUARD_RESULT'' = Some ''1''"

definition open_tty :: "shell_env \<Rightarrow> tty_read list option" where
  "open_tty env =
     (if inside_governed_agent env then None
      else if \<not> sh_stderr_terminal env then None
      else sh_dev_tty env)"

text \<open>The loop of \<open>read_tty_line\<close> with the bytes read so far: the line, and what is left to read.\<close>

fun read_tty_from :: "string \<Rightarrow> tty_read list \<Rightarrow> string option \<times> tty_read list" where
  "read_tty_from line [] = (if line = [] then None else Some line, [])"
| "read_tty_from line (Eof # rs) = (if line = [] then None else Some line, rs)"
| "read_tty_from line (Byte b # rs) =
     (if b = nl then (Some (line @ [b]), rs) else read_tty_from (line @ [b]) rs)"
| "read_tty_from line (Interrupted # rs) = read_tty_from line rs"
| "read_tty_from line (ReadError # rs) = (None, rs)"

definition read_tty_line :: "tty_read list \<Rightarrow> string option \<times> tty_read list" where
  "read_tty_line tty = read_tty_from [] tty"

record shell_state =
  ss_hook :: hook_state
  ss_tty :: "tty_read list"
  ss_prompts :: "PromptRecord list"

definition tty_answer :: "bool \<Rightarrow> string \<Rightarrow> ApprovalResponse \<times> string" where
  "tty_answer allow_always answer =
     (let a = trim answer
      in if a = ''y'' \<or> a = ''Y'' \<or> a = ''yes'' then (ApprovalResponse.Approved, ''user_approved'')
         else if a = ''session'' then
           (if allow_always then (ApprovalResponse.Always, ''user_always'')
            else (ApprovalResponse.Approved, ''user_approved''))
         else (ApprovalResponse.Denied, ''user_denied''))"

definition tty_prompt_segment ::
  "shell_env \<Rightarrow> shell_state \<Rightarrow> string \<Rightarrow> string \<Rightarrow> string \<Rightarrow> bool \<Rightarrow> PopupResult \<times> shell_state" where
  "tty_prompt_segment env s approval_id approval_token seg allow_always =
     (let h = ss_hook s;
          log = (\<lambda>event outcome. prompt_record approval_id ''tty'' event ''shell'' (Some seg) (Some seg)
                   ''shell'' allow_always outcome);
          shown = ss_prompts s @ [log ''displayed'' None]
      in case read_tty_line (ss_tty s) of
           (None, rest) \<Rightarrow>
             (Blocked 2 ''tty_error'' ''could not read approval from /dev/tty'',
              \<lparr>ss_hook = h\<lparr>hs_responses := hs_responses h @ [(approval_token, ApprovalResponse.Denied)]\<rparr>,
               ss_tty = rest, ss_prompts = shown @ [log ''read_failed'' (Some ''tty_error'')]\<rparr>)
         | (Some answer, rest) \<Rightarrow>
             (let (response, source) = tty_answer allow_always answer;
                  s1 = \<lparr>ss_hook = h\<lparr>hs_calls := hs_calls h + 1,
                                  hs_responses := hs_responses h @ [(approval_token, response)]\<rparr>,
                        ss_tty = rest,
                        ss_prompts = shown @ [log ''decision_submitted'' (Some (as_agentpact_response response))]\<rparr>
              in case send_permission_response (hk_client (sh_hook env) (hs_calls h)) ''kyris-hook-tty''
                        approval_token response of
                   Inr _ \<Rightarrow>
                     if response = ApprovalResponse.Denied
                     then (Blocked 2 source ''denied by developer'', s1)
                     else (PApproved source, s1)
                 | Inl reason \<Rightarrow> (Blocked 2 ''respond_failed'' reason, s1)))"

definition shell_classify ::
  "shell_env \<Rightarrow> PermissionCtx \<Rightarrow> (string \<times> string) option \<Rightarrow> shell_state \<Rightarrow> string \<Rightarrow> SegClass \<times> shell_state" where
  "shell_classify env ctx command_group s seg =
     (let (k, h) = classify_segment (sh_hook env) ctx None (pc_action ctx) command_group (ss_hook s) seg
      in (k, s\<lparr>ss_hook := h\<rparr>))"

definition shell_prompt ::
  "shell_env \<Rightarrow> shell_state \<Rightarrow> string \<Rightarrow> string \<Rightarrow> string \<Rightarrow> bool \<Rightarrow> string option \<Rightarrow>
     (PopupResult \<times> shell_state) option" where
  "shell_prompt env s approval_id approval_token seg allow_always detail =
     (let h = ss_hook s
      in if inside_governed_agent env then Some (PApproved ''host_agent'', s)
         else if open_tty env \<noteq> None
              then Some (tty_prompt_segment env s approval_id approval_token seg allow_always)
         else map_option
                (\<lambda>(r, sent). (r, s\<lparr>ss_hook := h\<lparr>hs_popups := hs_popups h + 1,
                                                hs_responses := hs_responses h @ sent\<rparr>\<rparr>))
                (poll_segment (sh_hook env) (hk_kyrisd (sh_hook env) (hs_popups h)) ''shell'' ''shell''
                   approval_id approval_token seg allow_always detail NATIVE_HOOK_POLL_TIMEOUT))"

definition shell_ctx :: "string \<Rightarrow> string option \<Rightarrow> PermissionCtx" where
  "shell_ctx cmd cwd =
     \<lparr>pc_audit_conn = False, pc_hook_id = [], pc_agent = ''shell'', pc_action = ''execute'', pc_detail = cmd,
      pc_cwd = cwd, pc_native_allow_response = EmptyStdout, pc_native_backstop = True,
      pc_allow_suppresses_agent_prompt = False, pc_poll_deadline = NATIVE_HOOK_POLL_TIMEOUT div 1000,
      pc_log_mode_fallback = False, pc_has_permission_request = False, pc_approval_mode = KyrisPopup,
      pc_native_ask = None\<rparr>"

definition shell_fail_open :: "string \<Rightarrow> string option \<Rightarrow> FailOpenRecord" where
  "shell_fail_open cmd cwd = fail_open_record ''shell'' ''execute'' cmd cwd"

definition shell_preview :: "shell_env \<Rightarrow> string \<Rightarrow> string option \<Rightarrow> string + McpPermissionDecision \<times> string list option" where
  "shell_preview env cmd cwd =
     request_hook_permission_preview (hk_client (sh_hook env) 0) ''kyris-hook'' ''execute'' cmd cwd None None"

definition run_resolve_shell :: "shell_env \<Rightarrow> string \<Rightarrow> string option \<Rightarrow> shell_out option" where
  "run_resolve_shell env cmd cwd =
     (case shell_preview env cmd cwd of
        Inl _ \<Rightarrow>
          Some \<lparr>so_exit = 0, so_stderr = None, so_fail_open = [shell_fail_open cmd cwd], so_responses = [],
                so_commit = None, so_prompts = []\<rparr>
      | Inr (_, segments) \<Rightarrow>
          (let segs = unwrap_or segments [cmd];
               command_group_id = (if length segs \<ge> 2
                                   then Some (new_command_group (hk_client (sh_hook env) 0)) else None);
               command_group = map_option (\<lambda>g. (g, cmd)) command_group_id;
               ctx = shell_ctx cmd cwd;
               start = \<lparr>ss_hook = hook_start\<lparr>hs_calls := 1\<rparr>, ss_tty = unwrap_or (open_tty env) [],
                        ss_prompts = []\<rparr>
           in map_option
                (\<lambda>(result, s).
                   let h = ss_hook s;
                       out = \<lparr>so_exit = 0, so_stderr = None, so_fail_open = hs_fail_open h,
                              so_responses = hs_responses h, so_commit = command_group_id,
                              so_prompts = ss_prompts s\<rparr>
                   in case result of
                        Inr _ \<Rightarrow> out
                      | Inl block \<Rightarrow>
                          if block_from_daemon_unavailable (sb_source block)
                          then out\<lparr>so_fail_open := so_fail_open out @ [shell_fail_open cmd cwd]\<rparr>
                          else out\<lparr>so_exit := sb_exit_code block, so_stderr := Some (sb_reason block)\<rparr>)
                (run_segments segs (shell_classify env ctx command_group) (shell_prompt env) start)))"

section \<open>The shell gate keeps the contract\<close>

text \<open>The developer answered yes at the terminal and agentpactd took the answer for this token.\<close>

definition tty_approved :: "shell_env \<Rightarrow> string \<Rightarrow> bool \<Rightarrow> bool" where
  "tty_approved env token allow_always \<longleftrightarrow>
     (\<exists>n line w. trim line \<in> {''y'', ''Y'', ''yes'', ''session''} \<and>
        allows_execution (fst (tty_answer allow_always line)) \<and>
        send_permission_response (hk_client (sh_hook env) n) ''kyris-hook-tty'' token
          (fst (tty_answer allow_always line)) = Inr w)"

definition shell_approved ::
  "shell_env \<Rightarrow> PermissionCtx \<Rightarrow> (string \<times> string) option \<Rightarrow> string \<Rightarrow> bool" where
  "shell_approved env ctx grp seg \<longleftrightarrow>
     (\<exists>n i t aa d segs. hook_verdict (sh_hook env) ctx None (pc_action ctx) grp n seg = Inr (Ask i t aa d, segs) \<and>
        (inside_governed_agent env \<or> tty_approved env t aa \<or>
         (\<exists>k. popup_approved (hk_kyrisd (sh_hook env) k)
            (segment_approval (sh_hook env) ''shell'' ''shell'' i t seg aa d) NATIVE_HOOK_POLL_TIMEOUT)))"

definition shell_cleared ::
  "shell_env \<Rightarrow> PermissionCtx \<Rightarrow> (string \<times> string) option \<Rightarrow> string \<Rightarrow> bool" where
  "shell_cleared env ctx grp seg \<longleftrightarrow>
     hook_allowed (sh_hook env) ctx None grp (pc_action ctx) seg \<or> shell_approved env ctx grp seg"

lemma tty_answer_yes:
  "fst (tty_answer aa line) \<noteq> ApprovalResponse.Denied \<Longrightarrow>
     trim line \<in> {''y'', ''Y'', ''yes'', ''session''} \<and> allows_execution (fst (tty_answer aa line))"
  by (auto simp: tty_answer_def Let_def split: if_splits)

lemma tty_prompt_cases:
  assumes "tty_prompt_segment env s i t seg aa = (r, s1)"
  shows "(\<forall>src. r = PApproved src \<longrightarrow> tty_approved env t aa) \<and>
     (\<forall>c src reason. r = Blocked c src reason \<longrightarrow> c = 2)"
proof (cases "fst (read_tty_line (ss_tty s))")
  case None
  with assms show ?thesis
    by (cases "read_tty_line (ss_tty s)") (auto simp: tty_prompt_segment_def Let_def)
next
  case (Some line)
  let ?r = "fst (tty_answer aa line)"
  let ?snd = "send_permission_response (hk_client (sh_hook env) (hs_calls (ss_hook s))) ''kyris-hook-tty'' t ?r"
  show ?thesis
  proof (cases ?snd)
    case (Inl e)
    with Some assms show ?thesis
      by (cases "read_tty_line (ss_tty s)") (auto simp: tty_prompt_segment_def Let_def split: prod.splits)
  next
    case (Inr w)
    have "?r \<noteq> ApprovalResponse.Denied \<Longrightarrow> tty_approved env t aa"
      using tty_answer_yes[of aa line] Inr unfolding tty_approved_def by blast
    with Inr Some assms show ?thesis
      by (cases "read_tty_line (ss_tty s)")
        (auto simp: tty_prompt_segment_def Let_def split: prod.splits if_splits)
  qed
qed

lemma shell_prompt_cases:
  assumes "shell_prompt env s i t seg aa d = Some (r, s1)"
  shows "(\<forall>src. r = PApproved src \<longrightarrow> inside_governed_agent env \<or> tty_approved env t aa \<or>
       (\<exists>k. popup_approved (hk_kyrisd (sh_hook env) k)
            (segment_approval (sh_hook env) ''shell'' ''shell'' i t seg aa d) NATIVE_HOOK_POLL_TIMEOUT)) \<and>
     (\<forall>c src reason. r = Blocked c src reason \<longrightarrow> c = 2)"
proof (cases "inside_governed_agent env")
  case True
  with assms show ?thesis by (auto simp: shell_prompt_def)
next
  case False
  show ?thesis
  proof (cases "open_tty env = None")
    case True
    with False assms show ?thesis
      by (auto simp: shell_prompt_def Let_def dest: poll_segment_approved poll_segment_blocked)
  next
    case tty: False
    with False assms show ?thesis
      using tty_prompt_cases[of env s i t seg aa r s1] by (auto simp: shell_prompt_def Let_def)
  qed
qed

lemma shell_classify_cases:
  assumes "shell_classify env ctx grp s seg = (k, s1)"
  shows "(k = Auto \<longrightarrow> hook_allowed (sh_hook env) ctx None grp (pc_action ctx) seg) \<and>
    (\<forall>i t aa d. k = SAsk i t aa d \<longrightarrow>
       (\<exists>n segs. hook_verdict (sh_hook env) ctx None (pc_action ctx) grp n seg = Inr (Ask i t aa d, segs)))"
proof -
  obtain h where "classify_segment (sh_hook env) ctx None (pc_action ctx) grp (ss_hook s) seg = (k, h)"
    using assms by (auto simp: shell_classify_def split: prod.splits)
  from classify_segment_cases[OF this] show ?thesis by auto
qed

interpretation shell: segment_gate
  "shell_classify env ctx grp" "shell_prompt env" "\<lambda>s. shell_cleared env ctx grp"
  for env ctx grp
proof (unfold_locales, goal_cases)
  case (1 s seg s1)
  with shell_classify_cases[OF 1] show ?case by (simp add: shell_cleared_def)
next
  case (2 s seg i t aa d s1 src s2)
  with shell_classify_cases[OF 2(1)] shell_prompt_cases[OF 2(2)] show ?case
    unfolding shell_cleared_def shell_approved_def by simp blast
next
  case (5 s i t seg aa d c src reason s1)
  with shell_prompt_cases[OF 5] show ?case by blast
qed auto

section \<open>Lemmas on the agent hook\<close>

text \<open>What the governance gate puts to the daemon: the batches, and whether the preview reported log
  mode.\<close>

definition check_preview :: "check_env \<Rightarrow> PermissionCtx \<Rightarrow> string + McpPermissionDecision \<times> string list option" where
  "check_preview env ctx =
     request_hook_permission_preview (hk_client (ck_hook env) 0) ''kyris-hook'' (pc_action ctx) (pc_detail ctx)
       (pc_cwd ctx) (ck_agent_pid env) (hk_canonical_agent (ck_hook env) (pc_agent ctx))"

definition governed_batches :: "check_env \<Rightarrow> PermissionCtx \<Rightarrow> ActionBatch list" where
  "governed_batches env ctx =
     (if pc_action ctx = ''apply_patch'' then patch_batches ctx (parse_apply_patch_paths (pc_detail ctx))
      else [\<lparr>ab_action = pc_action ctx,
             ab_segments = (case check_preview env ctx of
                              Inr (Deny _ _ _, _) \<Rightarrow> [pc_detail ctx]
                            | Inr (_, segments) \<Rightarrow> unwrap_or segments [pc_detail ctx]
                            | Inl _ \<Rightarrow> [pc_detail ctx])\<rparr>])"

definition preview_says_log :: "check_env \<Rightarrow> PermissionCtx \<Rightarrow> bool" where
  "preview_says_log env ctx \<longleftrightarrow>
     (if pc_action ctx = ''apply_patch''
      then (let b = hd (governed_batches env ctx)
            in \<exists>segs. request_hook_permission_preview (hk_client (ck_hook env) 0) ''kyris-hook'' (ab_action b)
                 (hd (ab_segments b)) (pc_cwd ctx) (ck_agent_pid env)
                 (hk_canonical_agent (ck_hook env) (pc_agent ctx)) = Inr (Allow Log, segs))
      else \<exists>segs. check_preview env ctx = Inr (Allow Log, segs))"

text \<open>Every segment was allowed by the daemon, or asked and approved at the popup.\<close>

definition all_cleared :: "check_env \<Rightarrow> PermissionCtx \<Rightarrow> bool" where
  "all_cleared env ctx \<longleftrightarrow>
     (\<exists>grp. \<forall>b \<in> set (governed_batches env ctx). \<forall>seg \<in> set (ab_segments b).
        hook_allowed (ck_hook env) ctx (ck_agent_pid env) grp (ab_action b) seg \<or>
        hook_approved (ck_hook env) ctx (ck_agent_pid env) grp (ab_action b) seg)"

lemma drive_zero_cleared:
  assumes "drive_batches (ck_hook env) ctx (ck_agent_pid env) (governed_batches env ctx) False gid s = Some out"
    and "ho_exit out = 0" and "\<not> native_mode ctx" and "\<not> pc_native_backstop ctx"
  shows "all_cleared env ctx"
  using drive_batches_zero[OF assms(1,2)] assms(3,4) unfolding all_cleared_def by blast

lemma govern_zero:
  assumes "govern env ctx = Some out" and "ho_exit out = 0" and "\<not> native_mode ctx"
    and "\<not> pc_native_backstop ctx" and "\<not> pc_log_mode_fallback ctx" and "\<not> preview_says_log env ctx"
  shows "all_cleared env ctx"
proof (cases "pc_action ctx = ''apply_patch''")
  case True
  let ?pp = "parse_apply_patch_paths (pc_detail ctx)"
  have g: "governed_batches env ctx = patch_batches ctx ?pp" using True by (simp add: governed_batches_def)
  from assms True have "drive_batches (ck_hook env) ctx (ck_agent_pid env) (governed_batches env ctx) False None
      (hook_start\<lparr>hs_calls := hs_calls hook_start + 1\<rparr>) = Some out"
    by (auto simp: govern_def drive_apply_patch_def g preview_says_log_def hook_out_defs Let_def hook_start_def
        split: if_splits sum.splits prod.splits McpPermissionDecision.splits Mode.splits)
  from drive_zero_cleared[OF this assms(2-4)] show ?thesis .
next
  case False
  then obtain gid where "drive_batches (ck_hook env) ctx (ck_agent_pid env) (governed_batches env ctx) False gid
      (hook_start\<lparr>hs_calls := 1\<rparr>) = Some out"
  proof (cases "check_preview env ctx")
    case (Inl e)
    with False assms show thesis
      by (auto simp: govern_def check_preview_def dispatch_preview_outcome_def hook_out_defs Let_def)
  next
    case (Inr q)
    obtain v l where q: "q = (v, l)" by fastforce
    have "v \<noteq> Allow Log" using assms(6) False Inr q by (auto simp: preview_says_log_def)
    with False assms(1) Inr q that show thesis
      by (cases v) (auto simp: govern_def check_preview_def dispatch_preview_outcome_def drive_per_segment_def
          governed_batches_def Let_def)
  qed
  from drive_zero_cleared[OF this assms(2-4)] show ?thesis .
qed

definition hook_payload :: "check_env \<Rightarrow> json" where
  "hook_payload env = unwrap_or (ck_payload env) JNull"

definition derived_ctx :: "check_env \<Rightarrow> string \<Rightarrow> PermissionCtx" where
  "derived_ctx env agent =
     (let (action, detail) = map_payload (ck_print env) (ck_protocol env) (hook_payload env);
          cwd = derive_session_cwd (ck_launch_dir env) (hook_payload env)
      in check_ctx env agent action (resolve_relative_path action detail cwd) cwd)"

lemma handle_non_governed_zero:
  assumes "handle_non_governed env p tool agent action detail = Some out" and "ho_exit out = 0"
    and "\<not> hr_native_backstop (hp_runtime p)" and "\<not> ck_log_mode env"
  shows "tool \<in> set (hp_agent_owned_tools p) \<or> tool \<in> set (hp_pass_through_tools p) \<or>
     is_kyris_routed_mcp_tool env p tool"
  using assms by (auto simp: handle_non_governed_def Let_def exit_with_def split: if_splits)

text \<open>The identity of a native-approval consultation, and the previews it runs on.\<close>

definition request_identity :: "check_env \<Rightarrow> HookProtocol \<Rightarrow> json \<Rightarrow> string \<times> string \<times> string option" where
  "request_identity env p input =
     (let (action, detail) = map_payload (ck_print env) (Some p) input;
          cwd = derive_session_cwd (ck_launch_dir env) input
      in (action, resolve_relative_path action detail cwd, cwd))"

definition identity_requests :: "string \<times> string \<times> string option \<Rightarrow> (string \<times> string) list" where
  "identity_requests q =
     (case q of (action, detail, cwd) \<Rightarrow>
        if action = ''apply_patch'' then patch_requests cwd (parse_apply_patch_paths detail) else [(action, detail)])"

definition preview_allows :: "check_env \<Rightarrow> string \<Rightarrow> string option \<Rightarrow> string \<times> string \<Rightarrow> bool" where
  "preview_allows env agent cwd q \<longleftrightarrow>
     (\<exists>n segs. request_hook_permission_preview (hk_client (ck_hook env) n) ''kyris-hook'' (fst q) (snd q) cwd
        (ck_agent_pid env) (hk_canonical_agent (ck_hook env) agent) = Inr (Allow Enforce, segs))"

lemma preview_all_allows:
  "preview_all (ck_hook env) agent cwd (ck_agent_pid env) n reqs = Inr True \<Longrightarrow> q \<in> set reqs \<Longrightarrow>
     preview_allows env agent cwd q"
proof (induction reqs arbitrary: n)
  case (Cons r reqs)
  obtain a d where r: "r = (a, d)" by fastforce
  from Cons(2) obtain segs where
    "request_hook_permission_preview (hk_client (ck_hook env) n) ''kyris-hook'' a d cwd (ck_agent_pid env)
       (hk_canonical_agent (ck_hook env) agent) = Inr (Allow Enforce, segs)"
    and "preview_all (ck_hook env) agent cwd (ck_agent_pid env) (n + 1) reqs = Inr True"
    by (auto simp: r split: sum.splits prod.splits McpPermissionDecision.splits if_splits)
      (metis Mode.exhaust)
  with Cons(1,3) r show ?case unfolding preview_allows_def by (metis fst_conv set_ConsD snd_conv)
qed simp

lemma consume_TrueD:
  assumes "consume sha now others agent action cwd detail ns = (True, ns')"
  shows "is_fresh now ns (note_path sha agent action cwd detail) \<and>
     map_of ns' (note_path sha agent action cwd detail) = None"
  using assms by (auto simp: consume_def Let_def delete_conv' split: if_splits)

lemma run_resolve_shell_zero:
  assumes "run_resolve_shell env cmd cwd = Some out" and "so_exit out = 0"
    and pv: "shell_preview env cmd cwd = Inr (v, segments)"
  shows "shell_fail_open cmd cwd \<in> set (so_fail_open out) \<or>
     (\<exists>grp. \<forall>seg \<in> set (unwrap_or segments [cmd]). shell_cleared env (shell_ctx cmd cwd) grp seg)"
proof -
  from assms(1) pv obtain grp start gid r s1 where
    w: "run_segments_from ''agentpact_auto'' (unwrap_or segments [cmd])
          (shell_classify env (shell_ctx cmd cwd) grp) (shell_prompt env) start = Some (r, s1)"
    and out: "out = (let h = ss_hook s1;
                       out = \<lparr>so_exit = 0, so_stderr = None, so_fail_open = hs_fail_open h,
                              so_responses = hs_responses h, so_commit = gid,
                              so_prompts = ss_prompts s1\<rparr>
                   in case r of
                        Inr _ \<Rightarrow> out
                      | Inl block \<Rightarrow>
                          if block_from_daemon_unavailable (sb_source block)
                          then out\<lparr>so_fail_open := so_fail_open out @ [shell_fail_open cmd cwd]\<rparr>
                          else out\<lparr>so_exit := sb_exit_code block, so_stderr := Some (sb_reason block)\<rparr>)"
    unfolding run_resolve_shell_def run_segments_def Let_def by (simp, blast)
  show ?thesis
  proof (cases r)
    case (Inl block)
    with shell.walk_block[OF w[unfolded Inl]] out assms(2) show ?thesis by (auto simp: Let_def split: if_splits)
  next
    case (Inr src)
    from shell.walk_cleared[OF w[unfolded Inr]] show ?thesis by blast
  qed
qed

lemma demo_preview: "request_hook_permission_preview demo_env pre ''execute'' ''ls'' None pid None = Inr (Allow Enforce, None)"
  by (simp add: request_hook_permission_preview_def demo_env_def Let_def
      send_daemon_request_with_retry_def drive_retry_def RETRY_BACKOFFS_def oversized_execute_deny_def
      parse_mcp_permission_response_def parse_response_segments_def get_defs)

definition demo_proto :: HookProtocol where
  "demo_proto = \<lparr>hp_tool_name_field = ''tool_name'', hp_detail_fields = [''tool_input''],
     hp_tool_mappings = [\<lparr>tm_tool_name = ''Bash'', tm_action = ''execute'', tm_detail_key = Some ''command''\<rparr>],
     hp_pass_through_tools = [], hp_agent_owned_tools = [], hp_default_action = ''call'',
     hp_allow_response = Json (JStr ''allow''),
     hp_runtime = \<lparr>hr_agent_hook_timeout_secs = 120, hr_on_timeout = FailOpen, hr_native_backstop = False,
                   hr_allow_suppresses_agent_prompt = False\<rparr>,
     hp_permission_request_allow = None, hp_mcp_tool_naming = None, hp_native_ask = None\<rparr>"

definition demo_input :: json where
  "demo_input = JObj [(''tool_name'', JStr ''Bash''), (''tool_input'', JObj [(''command'', JStr ''ls'')])]"

definition demo_check_env :: check_env where
  "demo_check_env = \<lparr>ck_hook = demo_hook, ck_audit_conn = False, ck_hook_id = ''h'', ck_log_mode = False,
     ck_protocol_compat = Inr (), ck_payload = Some demo_input, ck_print = (\<lambda>v. []),
     ck_protocol = Some demo_proto, ck_registered = True, ck_launch_dir = None, ck_agent_pid = None,
     ck_approval_setting = None, ck_all_servers = [], ck_routed_servers = [], ck_now = 0,
     ck_sha256_hex = (\<lambda>x. x), ck_others = (\<lambda>m. m)\<rparr>"

lemma demo_payload:
  "map_payload (\<lambda>v. []) (Some demo_proto) demo_input = (''execute'', ''ls'')"
  "derive_session_cwd None demo_input = None"
  "get_str ''tool_name'' demo_input = Some ''Bash''"
  "get_str ''hook_event_name'' demo_input = None"
  by (simp_all add: map_payload_def demo_proto_def demo_input_def find_mapping_def get_defs
      derive_session_cwd_def opt_filter_def)

lemma demo_seg:
  assumes "pc_cwd ctx = None"
  shows "classify_segment demo_hook ctx None action None s ''ls'' = (Auto, s\<lparr>hs_calls := hs_calls s + 1\<rparr>)"
  using assms
  by (simp add: classify_segment_def request_hook_permission_def demo_hook_def demo_env_def Let_def
      send_daemon_request_with_retry_def drive_retry_def RETRY_BACKOFFS_def oversized_execute_deny_def
      parse_mcp_permission_response_def get_defs)

section \<open>Properties\<close>

text \<open>
  C4. For an agent with nothing behind the hook, in enforce mode, \<^verbatim>\<open>kyris hook check\<close> exits with 0
  only for a tool which the agent's declaration leaves ungoverned or which is governed at the MCP
  surface, or when the daemon itself reported log mode, or when every segment was allowed by the
  daemon or approved by the user: no failure of either daemon, no unmapped tool and no payload that
  cannot be parsed lets a command run.
\<close>
theorem check_no_backstop_exit_zero:
  assumes "run_check env agent ns = Some (out, ns')" and "ho_exit out = 0"
    and "ck_protocol env = Some p" and "\<not> hr_native_backstop (hp_runtime p)"
    and "hp_permission_request_allow p = None" and "hp_native_ask p = None" and "\<not> ck_log_mode env"
  shows "(\<exists>tool. get_str (hp_tool_name_field p) (hook_payload env) = Some tool \<and>
       (tool \<in> set (hp_agent_owned_tools p) \<or> tool \<in> set (hp_pass_through_tools p) \<or>
        is_kyris_routed_mcp_tool env p tool)) \<or>
     preview_says_log env (derived_ctx env agent) \<or> all_cleared env (derived_ctx env agent)"
proof -
  let ?in = "hook_payload env"
  obtain action detail where m: "map_payload (ck_print env) (Some p) ?in = (action, detail)" by fastforce
  define ng where "ng = (case get_str (hp_tool_name_field p) ?in of
      None \<Rightarrow> None | Some tool \<Rightarrow> handle_non_governed env p tool agent action detail)"
  obtain u where u: "ck_protocol_compat env = Inr u"
    using assms(1,2) by (cases "ck_protocol_compat env") (auto simp: run_check_def exit_with_def)
  have rc: "run_check env agent ns = (case ng of
      Some o' \<Rightarrow> Some (o', ns)
    | None \<Rightarrow> map_option (\<lambda>o'. (o', if ho_note o' then record_note (ck_sha256_hex env) (ck_now env) agent
          (pc_action (derived_ctx env agent)) (pc_cwd (derived_ctx env agent)) (pc_detail (derived_ctx env agent)) ns
          else ns)) (govern env (derived_ctx env agent)))"
    using assms(3,5) u m
    by (auto simp: run_check_def ng_def derived_ctx_def check_ctx_def hook_payload_def Let_def
        cong: if_cong split: option.splits)
  show ?thesis
  proof (cases ng)
    case (Some o')
    then obtain tool where "get_str (hp_tool_name_field p) ?in = Some tool"
        "handle_non_governed env p tool agent action detail = Some o'"
      by (auto simp: ng_def split: option.splits)
    with Some rc assms handle_non_governed_zero show ?thesis by auto
  next
    case None
    with rc assms(1) have g: "govern env (derived_ctx env agent) = Some out"
      by (auto simp: map_option_eq_Some dest!: sym[of "Some _"])
    have "\<not> native_mode (derived_ctx env agent)" "\<not> pc_native_backstop (derived_ctx env agent)"
        "\<not> pc_log_mode_fallback (derived_ctx env agent)"
      using assms(3-7) m by (auto simp: derived_ctx_def check_ctx_def native_mode_def Let_def)
    with govern_zero[OF g assms(2)] show ?thesis by blast
  qed
qed

lemma demo_run_check: "\<exists>out. run_check demo_check_env ''cline'' [] = Some (out, []) \<and> ho_exit out = 0"
proof -
  let ?ctx = "check_ctx demo_check_env ''cline'' ''execute'' ''ls'' None"
  have p: "hk_client demo_hook 0 = demo_env" "hk_canonical_agent demo_hook x = None" for x
    by (simp_all add: demo_hook_def)
  have e: "ck_hook demo_check_env = demo_hook" "ck_agent_pid demo_check_env = None"
      "ck_protocol_compat demo_check_env = Inr ()" "ck_payload demo_check_env = Some demo_input"
      "ck_print demo_check_env = (\<lambda>v. [])" "ck_protocol demo_check_env = Some demo_proto"
      "ck_launch_dir demo_check_env = None"
    by (simp_all add: demo_check_env_def)
  have proto: "hp_tool_name_field demo_proto = ''tool_name''" "hp_permission_request_allow demo_proto = None"
      "handle_non_governed demo_check_env demo_proto ''Bash'' agent action detail = None" for agent action detail
    by (simp_all add: demo_proto_def handle_non_governed_def Let_def)
  have ctx: "pc_cwd ?ctx = None" "pc_action ?ctx = ''execute''" "pc_detail ?ctx = ''ls''"
    by (simp_all add: check_ctx_def Let_def)
  have g: "\<exists>out. govern demo_check_env ?ctx = Some out \<and> ho_exit out = 0 \<and> \<not> ho_note out"
    by (simp add: govern_def ctx p e demo_preview dispatch_preview_outcome_def
        drive_per_segment_def drive_batches_def run_segments_def demo_seg)
      (simp add: hook_out_defs Let_def hook_start_def)
  have "run_check demo_check_env ''cline'' [] = map_option
      (\<lambda>out. (out, if ho_note out then record_note (ck_sha256_hex demo_check_env) (ck_now demo_check_env) ''cline''
           ''execute'' None ''ls'' [] else [])) (govern demo_check_env ?ctx)"
    by (simp add: run_check_def e proto Let_def demo_payload resolve_relative_path_def)
  with g show ?thesis by auto
qed

theorem check_no_backstop_exit_zero_witness:
  "preview_says_log demo_check_env (derived_ctx demo_check_env ''cline'') \<or>
   all_cleared demo_check_env (derived_ctx demo_check_env ''cline'')"
proof -
  obtain out where "run_check demo_check_env ''cline'' [] = Some (out, [])" "ho_exit out = 0"
    using demo_run_check by blast
  from check_no_backstop_exit_zero[OF this, of demo_proto] show ?thesis
    by (auto simp: demo_check_env_def demo_proto_def is_kyris_routed_mcp_tool_def)
qed

text \<open>
  The native-approval consultation allows only what kyris can vouch for: when it prints the
  allow body, every file or command of the request was allowed by the daemon in enforce mode, or a
  note for this very request was fresh and is gone afterwards; it never denies, and outside these
  cases it prints nothing.
\<close>
theorem permission_request_is_vouched:
  assumes "run_permission_request env agent protocol input ns = (out, ns')" and "ho_stdout out = Some body"
  shows "ho_exit out = 0 \<and> \<not> ck_log_mode env \<and>
    (\<exists>p action detail cwd. protocol = Some p \<and> hp_permission_request_allow p = Some body \<and>
       request_identity env p input = (action, detail, cwd) \<and>
       identity_requests (action, detail, cwd) \<noteq> [] \<and>
       ((\<forall>q \<in> set (identity_requests (action, detail, cwd)). preview_allows env agent cwd q) \<or>
        (is_fresh (ck_now env) ns (note_path (ck_sha256_hex env) agent action cwd detail) \<and>
         map_of ns' (note_path (ck_sha256_hex env) agent action cwd detail) = None)))"
proof -
  obtain p where p: "protocol = Some p" and body: "hp_permission_request_allow p = Some body"
    and log: "\<not> ck_log_mode env"
    using assms
    by (auto simp: run_permission_request_def abstain_def exit_with_def Let_def
        split: option.splits if_splits prod.splits sum.splits bool.splits)
  obtain action detail cwd where q: "request_identity env p input = (action, detail, cwd)"
    by (metis prod_cases3)
  let ?reqs = "identity_requests (action, detail, cwd)"
  from assms p body log q have
    "?reqs \<noteq> [] \<and> ho_exit out = 0 \<and>
     (preview_all (ck_hook env) agent cwd (ck_agent_pid env) 0 ?reqs = Inr True \<or>
      consume (ck_sha256_hex env) (ck_now env) (ck_others env) agent action cwd detail ns = (True, ns'))"
    by (auto simp: run_permission_request_def request_identity_def identity_requests_def patch_requests_def
        abstain_def exit_with_def Let_def
        split: option.splits if_splits prod.splits sum.splits bool.splits)
  with preview_all_allows consume_TrueD p body log q show ?thesis by blast
qed

theorem permission_request_is_vouched_witness:
  "\<exists>p action detail cwd. request_identity demo_check_env p demo_input = (action, detail, cwd) \<and>
     (\<forall>q \<in> set (identity_requests (action, detail, cwd)). preview_allows demo_check_env ''codex'' cwd q)"
proof -
  let ?p = "demo_proto\<lparr>hp_permission_request_allow := Some (JStr ''approve'')\<rparr>"
  have m: "map_payload (\<lambda>v. []) (Some ?p) demo_input = (''execute'', ''ls'')"
    by (simp add: map_payload_def demo_proto_def demo_input_def find_mapping_def get_defs)
  have "\<exists>out. run_permission_request demo_check_env ''codex'' (Some ?p) demo_input [] = (out, []) \<and>
      ho_stdout out = Some (JStr ''approve'')"
    by (simp add: run_permission_request_def demo_check_env_def Let_def m demo_payload)
      (simp add: demo_proto_def demo_payload resolve_relative_path_def demo_hook_def demo_preview exit_with_def)
  then obtain out where
    "run_permission_request demo_check_env ''codex'' (Some ?p) demo_input [] = (out, [])"
    "ho_stdout out = Some (JStr ''approve'')" by blast
  from permission_request_is_vouched[OF this] show ?thesis by (auto simp: is_fresh_def)
qed

text \<open>
  The shell gate lets a line run only for a reason: exit status 0 means that the line is in the
  fail-open log because a daemon was unavailable, or that each of its segments was allowed by the
  policy daemon, or asked and then approved at the terminal with the daemon's consent, approved at
  the popup, or left to the governed agent in whose subprocess the gate runs.
\<close>
theorem shell_exit_zero_is_justified:
  assumes "run_resolve_shell env cmd cwd = Some out" and "so_exit out = 0"
  shows "shell_fail_open cmd cwd \<in> set (so_fail_open out) \<or>
     (\<exists>v segments grp. shell_preview env cmd cwd = Inr (v, segments) \<and>
        (\<forall>seg \<in> set (unwrap_or segments [cmd]). shell_cleared env (shell_ctx cmd cwd) grp seg))"
proof (cases "shell_preview env cmd cwd")
  case (Inl e)
  with assms show ?thesis by (auto simp: run_resolve_shell_def)
next
  case (Inr q)
  then obtain v segments where "shell_preview env cmd cwd = Inr (v, segments)" by (cases q) auto
  with run_resolve_shell_zero[OF assms this] show ?thesis by blast
qed

definition demo_shell :: shell_env where
  "demo_shell = \<lparr>sh_hook = demo_hook, sh_var = (\<lambda>x. None), sh_stderr_terminal = True, sh_dev_tty = None\<rparr>"

lemma demo_shell_preview: "shell_preview demo_shell ''ls'' None = Inr (Allow Enforce, None)"
  by (simp add: shell_preview_def demo_shell_def demo_hook_def demo_preview)

theorem shell_exit_zero_is_justified_witness:
  "\<exists>grp. shell_cleared demo_shell (shell_ctx ''ls'' None) grp ''ls''"
proof -
  have c: "classify_segment demo_hook (shell_ctx ''ls'' None) None action None s ''ls''
      = (Auto, s\<lparr>hs_calls := hs_calls s + 1\<rparr>)" for action s
    by (rule demo_seg) (simp add: shell_ctx_def)
  have "\<exists>out. run_resolve_shell demo_shell ''ls'' None = Some out \<and> so_exit out = 0 \<and> so_fail_open out = []"
    by (simp add: run_resolve_shell_def demo_shell_preview run_segments_def shell_classify_def c Let_def)
      (simp add: demo_shell_def c hook_start_def)
  then obtain out where "run_resolve_shell demo_shell ''ls'' None = Some out" "so_exit out = 0"
      "so_fail_open out = []" by blast
  from shell_exit_zero_is_justified[OF this(1,2)] this(3) show ?thesis
    by (auto simp: demo_shell_preview)
qed

text \<open>
  An approval note answers one consultation: a note that is consumed was written for a request
  with this digest at most thirty seconds before, and afterwards no consumer finds it again until
  the next approval is recorded.
\<close>
theorem recent_approval_single_use:
  assumes "consume sha now others agent action cwd detail ns = (True, ns')"
  shows "(\<exists>modified. map_of ns (note_path sha agent action cwd detail) = Some modified \<and>
            modified \<le> now \<and> now \<le> modified + TTL) \<and>
     fst (consume sha now' (\<lambda>m. m) agent action cwd detail ns') = False"
proof -
  from consume_TrueD[OF assms] have f: "is_fresh now ns (note_path sha agent action cwd detail)"
    and g: "map_of ns' (note_path sha agent action cwd detail) = None" by auto
  from g have "\<not> is_fresh now' ns' (note_path sha agent action cwd detail)" by (simp add: is_fresh_def)
  with f show ?thesis
    by (auto simp: consume_def is_fresh_def fresh_time_def split: option.splits)
qed

theorem recent_approval_single_use_witness:
  "fst (consume (\<lambda>x. x) 60000 (\<lambda>m. m) ''codex'' ''execute'' None ''ls''
     (snd (consume (\<lambda>x. x) 20000 (\<lambda>m. m) ''codex'' ''execute'' None ''ls''
        (record_note (\<lambda>x. x) 15000 ''codex'' ''execute'' None ''ls'' [])))) = False"
proof -
  have "consume (\<lambda>x. x) 20000 (\<lambda>m. m) ''codex'' ''execute'' None ''ls''
      (record_note (\<lambda>x. x) 15000 ''codex'' ''execute'' None ''ls'' []) = (True, [])"
    by (simp add: consume_def record_note_def is_fresh_def fresh_time_def TTL_def)
  from recent_approval_single_use[OF this, of 60000] this show ?thesis by simp
qed

text \<open>
  The window of the hook is that of the whole invocation: the status request whose answer approves
  a popup is sent when the time elapsed before the popup and the time since the hold was accepted
  together leave more than ten seconds to the agent's own deadline, however many popups went before
  (the kyrisd clock does not run backwards). The duration of the hold request and that of the
  accepted status request are not in this account: the code starts its deadline after the first and
  looks at the clock before the second.
\<close>
theorem popup_approval_inside_agent_deadline:
  assumes "drive_prompt env ctx action s i t seg aa d = Some (PApproved src, s1)" and "\<not> native_mode ctx"
    and "pc_poll_deadline ctx = poll_deadline rt" and "RESPONSE_MARGIN_SECS \<le> hr_agent_hook_timeout_secs rt"
    and "\<And>conn j. hk_kyrisd env (hs_popups s) = Some conn \<Longrightarrow> pl_start conn \<le> pl_clock conn j"
  shows "\<exists>conn j. hk_kyrisd env (hs_popups s) = Some conn \<and> said conn j ''approved'' \<and>
     hk_elapsed env (hs_popups s) + (pl_clock conn j - pl_start conn) + RESPONSE_MARGIN_SECS * 1000
       < hr_agent_hook_timeout_secs rt * 1000"
proof -
  obtain sent where "poll_segment env (hk_kyrisd env (hs_popups s)) (pc_agent ctx) action i t seg aa d
      (pc_poll_deadline ctx * 1000 - hk_elapsed env (hs_popups s)) = Some (PApproved src, sent)"
    using assms(1,2) by (auto simp: drive_prompt_def)
  from poll_segment_approved[OF this] obtain conn j where
    k: "hk_kyrisd env (hs_popups s) = Some conn" "said conn j ''approved''"
      "pl_clock conn j < pl_start conn + (poll_deadline rt * 1000 - hk_elapsed env (hs_popups s))"
    using assms(3) by (auto simp: popup_approved_def split: option.splits)
  with assms(4) assms(5)[OF k(1), of j] show ?thesis
    by (auto simp: poll_deadline_def diff_mult_distrib intro!: exI[of _ conn] exI[of _ j])
qed

definition demo_popup_hook :: hook_env where
  "demo_popup_hook = demo_hook\<lparr>hk_kyrisd := (\<lambda>n. Some demo_poll)\<rparr>"

theorem popup_approval_inside_agent_deadline_witness:
  "\<exists>conn j. hk_kyrisd demo_popup_hook 0 = Some conn \<and> said conn j ''approved'' \<and>
     (pl_clock conn j - pl_start conn) + 10000 < 120000"
proof -
  let ?rt = "\<lparr>hr_agent_hook_timeout_secs = 120, hr_on_timeout = FailOpen, hr_native_backstop = False,
              hr_allow_suppresses_agent_prompt = False\<rparr>"
  have "drive_prompt demo_popup_hook demo_ctx ''execute'' hook_start ''req-1'' ''tok-1'' ''ls'' False None
      = Some (PApproved ''user_approved'', hook_start\<lparr>hs_popups := 1\<rparr>)"
    by (simp add: drive_prompt_def native_mode_def demo_ctx_def poll_segment_def demo_popup_hook_def
        demo_hook_def hook_start_def hold_poll_resolve_with_timeout_def poll_loop.simps demo_poll_def
        is_success_def get_str_def Let_def)
  moreover have "pl_start conn \<le> pl_clock conn j"
    if "hk_kyrisd demo_popup_hook (hs_popups hook_start) = Some conn" for conn j
    using that by (auto simp: demo_popup_hook_def demo_hook_def demo_poll_def)
  ultimately show ?thesis
    using popup_approval_inside_agent_deadline[where rt = ?rt and env = demo_popup_hook and ctx = demo_ctx
        and s = hook_start]
    by (simp add: native_mode_def demo_ctx_def poll_deadline_def RESPONSE_MARGIN_SECS_def)
      (simp add: demo_popup_hook_def demo_hook_def hook_start_def)
qed

end
