(* ===== verification/SyncScope.thy ===== *)
theory SyncScope
  imports Prelude
begin

text \<open>
  Which directories may leave the machine: \<^verbatim>\<open>daemon/src/sync/scope.rs\<close>. The matcher is literal:
  the file system enters only through \<open>owner_only\<close>, the permission test of one path. Resolving the
  configured patterns (\<open>canonicalize_scope_path\<close>) happens before and is not modelled.
\<close>

section \<open>Paths\<close>

text \<open>A \<open>std::path::Path\<close> up to its equality: whether it is absolute, and its components; a dot is a
  component only at the beginning of a relative path.\<close>

type_synonym path = "bool \<times> string list"

definition slash :: char where "slash = CHR ''/''"

definition path_of :: "string \<Rightarrow> path" where
  "path_of s =
     (let cs = filter (\<lambda>c. c \<noteq> []) (split_on slash s)
      in if prefix [slash] s then (True, filter (\<lambda>c. c \<noteq> ''.'') cs)
         else (False, case cs of [] \<Rightarrow> [] | c # r \<Rightarrow> c # filter (\<lambda>c. c \<noteq> ''.'') r))"

definition path_starts_with :: "path \<Rightarrow> path \<Rightarrow> bool" where
  "path_starts_with p base \<longleftrightarrow> fst p = fst base \<and> prefix (snd base) (snd p)"

text \<open>\<open>Component::Normal\<close>: neither the root nor a dot nor two dots.\<close>

definition is_normal :: "string \<Rightarrow> bool" where
  "is_normal c \<longleftrightarrow> c \<noteq> ''.'' \<and> c \<noteq> ''..''"

section \<open>The matcher\<close>

definition PERSONAL_DIRS :: "string list" where
  "PERSONAL_DIRS = [''Documents'', ''Downloads'', ''Desktop'', ''Pictures'', ''Music'', ''Movies'',
     ''Public'', ''Library'', ''Applications'']"

record SyncScope =
  sy_patterns :: "string list"
  sy_home :: "string option"

definition SyncScope_new :: "string option \<Rightarrow> string list \<Rightarrow> SyncScope" where
  "SyncScope_new home_var patterns =
     \<lparr>sy_patterns = patterns, sy_home = opt_filter (\<lambda>h. h \<noteq> []) home_var\<rparr>"

text \<open>The loop of \<open>owner_only_below_home\<close> climbs to the parent until it meets \<open>home\<close>, leaves its tree
  or has no parent.\<close>

function owner_only_below_home :: "(path \<Rightarrow> bool) \<Rightarrow> path \<Rightarrow> path \<Rightarrow> bool" where
  "owner_only_below_home owner_only current home =
     (if current = home then False
      else if owner_only current then True
      else if \<not> path_starts_with current home then False
      else if snd current = [] then False
      else owner_only_below_home owner_only (fst current, butlast (snd current)) home)"
  by pat_completeness auto
termination
  by (relation "measure (\<lambda>(_, current, _). length (snd current))") auto

declare owner_only_below_home.simps [simp del]

definition is_hidden :: "string \<Rightarrow> bool" where
  "is_hidden dir \<longleftrightarrow> (\<exists>c \<in> set (snd (path_of dir)). is_normal c \<and> prefix ''.'' c)"

definition is_personal :: "string \<Rightarrow> string \<Rightarrow> bool" where
  "is_personal home dir \<longleftrightarrow>
     (\<exists>name \<in> set PERSONAL_DIRS.
        let personal = home @ ''/'' @ name in dir = personal \<or> prefix (personal @ ''/'') dir)"

definition is_private :: "(path \<Rightarrow> bool) \<Rightarrow> SyncScope \<Rightarrow> string \<Rightarrow> bool" where
  "is_private owner_only scope dir \<longleftrightarrow>
     (if is_hidden dir then True
      else case sy_home scope of
             None \<Rightarrow> owner_only (path_of dir)
           | Some home \<Rightarrow>
               if is_personal home dir then True
               else owner_only_below_home owner_only (path_of dir) (path_of home))"

definition matches_scope :: "SyncScope \<Rightarrow> string \<Rightarrow> string \<Rightarrow> bool" where
  "matches_scope scope pattern path \<longleftrightarrow>
     (let expanded = (case (strip_prefix ''~'' pattern, sy_home scope) of
                        (Some rest, Some home) \<Rightarrow> home @ rest
                      | _ \<Rightarrow> pattern)
      in case strip_suffix ''*'' expanded of
           Some p \<Rightarrow> prefix p path
         | None \<Rightarrow> path = expanded \<or> prefix (expanded @ ''/'') path)"

definition is_in_scope :: "(path \<Rightarrow> bool) \<Rightarrow> SyncScope \<Rightarrow> string option \<Rightarrow> bool" where
  "is_in_scope owner_only scope working_dir \<longleftrightarrow>
     (case working_dir of
        None \<Rightarrow> False
      | Some dir \<Rightarrow>
          if is_private owner_only scope dir then False
          else if sy_patterns scope = [] then True
          else (\<exists>pattern \<in> set (sy_patterns scope). matches_scope scope pattern dir))"

section \<open>Lemmas\<close>

text \<open>The climb visits every directory from the given one up to the child of \<open>home\<close>.\<close>

lemma owner_only_climb:
  assumes "\<not> owner_only_below_home owner_only (a, cs) (a, home)"
    and "prefix home p" and "p \<noteq> home" and "prefix p cs"
  shows "\<not> owner_only (a, p)"
  using assms
proof (induction cs rule: rev_induct)
  case Nil
  then show ?case by simp
next
  case (snoc x cs)
  have sw: "prefix home (cs @ [x])" using snoc.prems(2,4) by (rule prefix_order.trans)
  have ne: "cs @ [x] \<noteq> home"
    using snoc.prems(2-4) by (metis prefix_order.antisym)
  from snoc.prems(1) sw ne have here: "\<not> owner_only (a, cs @ [x])"
    and up: "\<not> owner_only_below_home owner_only (a, cs) (a, home)"
    by (auto simp: owner_only_below_home.simps[of owner_only "(a, cs @ [x])"] path_starts_with_def
        split: if_splits)
  show ?case
  proof (cases "p = cs @ [x]")
    case False
    then have "prefix p cs" using snoc.prems(4) by simp
    with snoc up show ?thesis by blast
  qed (use here in simp)
qed

lemma in_scope_public:
  "is_in_scope owner_only scope wd \<Longrightarrow> \<exists>dir. wd = Some dir \<and> \<not> is_private owner_only scope dir"
  by (auto simp: is_in_scope_def split: option.splits if_splits)

section \<open>Properties\<close>

text \<open>
  What syncs is never private, whatever the configuration: a directory in scope has no hidden
  component, is no personal folder of the home directory and lies in none, and neither it nor any
  directory between the home directory and it is readable by its owner only; and an explicit list of
  patterns only narrows the default.
\<close>
theorem synced_directory_is_public:
  assumes "is_in_scope owner_only scope wd" and "sy_home scope = Some home"
  shows "\<exists>dir. wd = Some dir \<and> \<not> is_hidden dir \<and> \<not> is_personal home dir \<and>
     (\<forall>p. prefix (snd (path_of home)) p \<and> p \<noteq> snd (path_of home) \<and> prefix p (snd (path_of dir)) \<and>
          fst (path_of dir) = fst (path_of home) \<longrightarrow> \<not> owner_only (fst (path_of dir), p)) \<and>
     is_in_scope owner_only (scope\<lparr>sy_patterns := []\<rparr>) wd"
proof -
  obtain dir where wd: "wd = Some dir" and pub: "\<not> is_private owner_only scope dir"
    using in_scope_public[OF assms(1)] by blast
  with assms(2) have nh: "\<not> is_hidden dir" "\<not> is_personal home dir"
    and oo: "\<not> owner_only_below_home owner_only (path_of dir) (path_of home)"
    by (auto simp: is_private_def split: if_splits)
  obtain a ds b hs where d: "path_of dir = (a, ds)" and h: "path_of home = (b, hs)" by (metis prod.exhaust)
  have "\<not> owner_only (a, p)" if "prefix hs p" "p \<noteq> hs" "prefix p ds" "a = b" for p
    using owner_only_climb[of owner_only a ds hs p] oo that by (simp add: d h)
  moreover have "is_private owner_only (scope\<lparr>sy_patterns := []\<rparr>) dir = is_private owner_only scope dir"
    by (simp add: is_private_def)
  ultimately show ?thesis using wd nh pub by (auto simp: is_in_scope_def d h)
qed

definition demo_scope :: SyncScope where
  "demo_scope = \<lparr>sy_patterns = [''~/work/*''], sy_home = Some ''/home/u''\<rparr>"

lemma demo_in_scope: "is_in_scope (\<lambda>p. p = (True, [''home'', ''u''])) demo_scope (Some ''/home/u/work/a'')"
  by (simp add: is_in_scope_def demo_scope_def is_private_def is_hidden_def is_personal_def path_of_def
      PERSONAL_DIRS_def slash_def is_normal_def owner_only_below_home.simps path_starts_with_def
      matches_scope_def strip_prefix_def strip_suffix_def suffix_def Let_def)

theorem synced_directory_is_public_witness:
  "\<not> is_hidden ''/home/u/work/a'' \<and> \<not> is_personal ''/home/u'' ''/home/u/work/a''"
  using synced_directory_is_public[OF demo_in_scope, of "''/home/u''"] by (simp add: demo_scope_def)

end
