(* ===== verification/Timeline.thy ===== *)
theory Timeline
  imports Records "HOL-Library.Multiset" "HOL-Library.List_Lexorder" "HOL-Library.Char_ord"
begin

text \<open>
  The timeline of \<^verbatim>\<open>daemon/src/timeline.rs\<close>: events joined with the gateway records that share
  their trace.
\<close>

section \<open>The join\<close>

record TimelineScope =
  ts_patterns :: "string list"
  ts_last_synced_at :: "string option"

definition opt_str :: "string \<Rightarrow> string option" where
  "opt_str s = (if s = [] then None else Some s)"

text \<open>\<open>action_str\<close> is the \<open>Display\<close> of \<open>Action\<close>, which belongs to \<^verbatim>\<open>agentpact-types\<close>.\<close>

definition row_from_event :: "(Action \<Rightarrow> string) \<Rightarrow> Event \<Rightarrow> TimelineEventRow" where
  "row_from_event action_str e =
     \<lparr>tr_id = ev_id e, tr_timestamp = ev_timestamp e, tr_agent = opt_str (ev_agent e),
      tr_action = action_str (ev_action e), tr_detail = opt_str (ev_detail e),
      tr_decision = Some (decision_str (ev_decision e)),
      tr_coverage_state = coverage_str (derive (ev_action e) (ev_attribution_method e) (ev_mode e)),
      tr_working_dir = ev_working_dir e, tr_git_remote_origin = ev_git_remote_origin e,
      tr_session = ev_session e, tr_mode = opt_str (ev_mode e), tr_rule_kind = ev_rule_kind e,
      tr_rule_id = ev_rule_id e, tr_resource_class = ev_resource_class e, tr_grantable = ev_grantable e,
      tr_trace_id = ev_trace_id e, tr_segments = ev_segments e\<rparr>"

definition event_state :: "string option \<Rightarrow> TimelineScope \<Rightarrow> string option \<Rightarrow> string option" where
  "event_state home_var scope working_dir =
     (if ts_patterns scope = [] then None
      else case working_dir of
             None \<Rightarrow> None
           | Some wd \<Rightarrow>
               (let home = unwrap_or home_var [];
                    in_scope = (\<exists>p \<in> set (ts_patterns scope).
                      let expanded = (case strip_prefix ''~'' p of None \<Rightarrow> p | Some rest \<Rightarrow> home @ rest)
                      in case strip_suffix ''*'' expanded of
                           Some q \<Rightarrow> prefix q wd
                         | None \<Rightarrow> wd = expanded \<or> prefix (expanded @ ''/'') wd)
                in Some (if in_scope then ''pending'' else ''local'')))"

definition coverage_with_burn :: "GatewayRecord option \<Rightarrow> string \<Rightarrow> string" where
  "coverage_with_burn rec fallback =
     (case rec of
        Some r \<Rightarrow> if gr_status r = CircuitBreaker then ''enforced'' else fallback
      | None \<Rightarrow> fallback)"

definition record_sync_state :: "GatewayRecord \<Rightarrow> string" where
  "record_sync_state rec =
     (if gr_synced rec then ''synced'' else if gr_working_dir rec \<noteq> None then ''pending'' else ''local'')"

definition entry_from_event ::
  "string option \<Rightarrow> TimelineEventRow \<Rightarrow> GatewayRecord option \<Rightarrow> TimelineScope \<Rightarrow> TimelineEntry" where
  "entry_from_event home_var row rec scope =
     (let sync_state =
            (case rec of
               Some r \<Rightarrow> Some (record_sync_state r)
             | None \<Rightarrow>
                 map_option
                   (\<lambda>s. if s = ''pending'' \<and>
                            (case ts_last_synced_at scope of None \<Rightarrow> False | Some ts \<Rightarrow> tr_timestamp row \<le> ts)
                        then ''synced'' else s)
                   (event_state home_var scope (tr_working_dir row)))
      in \<lparr>te_id = tr_id row, te_timestamp = tr_timestamp row, te_trace_id = tr_trace_id row,
          te_agent = tr_agent row, te_action = tr_action row, te_detail = tr_detail row,
          te_decision = tr_decision row, te_coverage_state = coverage_with_burn rec (tr_coverage_state row),
          te_source = ''agent'', te_working_dir = tr_working_dir row,
          te_git_remote_origin = tr_git_remote_origin row, te_session = tr_session row,
          te_mode = tr_mode row, te_rule_kind = tr_rule_kind row, te_rule_id = tr_rule_id row,
          te_resource_class = tr_resource_class row, te_grantable = tr_grantable row,
          te_sync_state = sync_state, te_hostname = None,
          te_provider = map_option gr_provider rec, te_model = map_option gr_model rec,
          te_tokens_in = Option.bind rec gr_tokens_in, te_tokens_out = Option.bind rec gr_tokens_out,
          te_tokens_cache_create = Option.bind rec gr_tokens_cache_create,
          te_tokens_cache_read = Option.bind rec gr_tokens_cache_read,
          te_cost_usd = Option.bind rec gr_cost_usd, te_latency_ms = map_option gr_latency_ms rec,
          te_status = map_option (status_str \<circ> gr_status) rec,
          te_metering = map_option (metering_str \<circ> gr_metering) rec,
          te_plan_status = map_option gr_plan_status rec,
          te_mcp_server = Option.bind rec gr_mcp_server, te_mcp_tool = Option.bind rec gr_mcp_tool,
          te_segments = tr_segments row\<rparr>)"

definition entry_from_orphan_record :: "GatewayRecord \<Rightarrow> TimelineEntry" where
  "entry_from_orphan_record rec =
     \<lparr>te_id = gr_id rec, te_timestamp = gr_timestamp rec, te_trace_id = Some (gr_trace_id rec),
      te_agent = gr_agent rec, te_action = ''think'', te_detail = Some (gr_model rec), te_decision = None,
      te_coverage_state = coverage_with_burn (Some rec) ''observed'', te_source = ''synthetic'',
      te_working_dir = gr_working_dir rec, te_git_remote_origin = None, te_session = gr_session_id rec,
      te_mode = None, te_rule_kind = None, te_rule_id = None, te_resource_class = None,
      te_grantable = None, te_sync_state = Some (record_sync_state rec), te_hostname = None,
      te_provider = Some (gr_provider rec), te_model = Some (gr_model rec),
      te_tokens_in = gr_tokens_in rec, te_tokens_out = gr_tokens_out rec,
      te_tokens_cache_create = gr_tokens_cache_create rec,
      te_tokens_cache_read = gr_tokens_cache_read rec, te_cost_usd = gr_cost_usd rec,
      te_latency_ms = Some (gr_latency_ms rec), te_status = Some (status_str (gr_status rec)),
      te_metering = Some (metering_str (gr_metering rec)), te_plan_status = Some (gr_plan_status rec),
      te_mcp_server = gr_mcp_server rec, te_mcp_tool = gr_mcp_tool rec, te_segments = []\<rparr>"

text \<open>The record of a trace: collecting into a hash map keeps the last one.\<close>

definition by_trace :: "GatewayRecord list \<Rightarrow> string \<Rightarrow> GatewayRecord option" where
  "by_trace records t = map_of (rev (map (\<lambda>r. (gr_trace_id r, r)) records)) t"

text \<open>\<open>sort_by\<close> with a reversed comparison: stable, greatest first.\<close>

fun insert_desc :: "('a \<Rightarrow> 'a \<Rightarrow> bool) \<Rightarrow> 'a \<Rightarrow> 'a list \<Rightarrow> 'a list" where
  "insert_desc ge x [] = [x]"
| "insert_desc ge x (y # ys) = (if ge x y then x # y # ys else y # insert_desc ge x ys)"

definition sort_desc :: "('a \<Rightarrow> 'a \<Rightarrow> bool) \<Rightarrow> 'a list \<Rightarrow> 'a list" where
  "sort_desc ge xs = foldr (insert_desc ge) xs []"

definition newer :: "TimelineEntry \<Rightarrow> TimelineEntry \<Rightarrow> bool" where
  "newer a b \<longleftrightarrow> te_timestamp a > te_timestamp b \<or> (te_timestamp a = te_timestamp b \<and> te_id a \<ge> te_id b)"

definition join_timeline ::
  "string option \<Rightarrow> TimelineEventRow list \<Rightarrow> GatewayRecord list \<Rightarrow> TimelineScope \<Rightarrow> TimelineEntry list" where
  "join_timeline home_var events records scope =
     (let event_traces = set (List.map_filter tr_trace_id events);
          entries = map (\<lambda>row. entry_from_event home_var row
                            (case tr_trace_id row of None \<Rightarrow> None | Some t \<Rightarrow> by_trace records t) scope) events;
          orphans = map entry_from_orphan_record (filter (\<lambda>rec. gr_trace_id rec \<notin> event_traces) records)
      in sort_desc newer (entries @ orphans))"

text \<open>The rows and records are what the database yields for the filter; \<open>limit\<close> is clamped.\<close>

definition query_timeline ::
  "string option \<Rightarrow> TimelineEventRow list \<Rightarrow> GatewayRecord list \<Rightarrow> TimelineScope \<Rightarrow> nat \<Rightarrow> TimelineEntry list" where
  "query_timeline home_var events records scope limit =
     take (min (max limit 1) 10000) (join_timeline home_var events records scope)"

section \<open>Statistics\<close>

record DecisionCount =
  dc_decision :: string
  dc_count :: nat

record AgentActivity =
  aa_agent :: string
  aa_total :: nat
  aa_auto :: nat
  aa_ask :: nat
  aa_denied :: nat

record CoverageCount =
  cv_coverage_state :: string
  cv_count :: nat

record TokenTotals =
  tt_input :: int
  tt_output :: int
  tt_cache_create :: int
  tt_cache_read :: int

record ProviderSpend =
  ps_provider :: string
  ps_cost_usd :: rat

record ModelStat =
  mst_model :: string
  mst_calls :: nat
  mst_cost_usd :: rat

record PromptBucket =
  pb_resource_class :: string
  pb_count :: nat
  pb_grantable :: nat

record TimelineStats =
  ts_actions_by_decision :: "DecisionCount list"
  ts_agents :: "AgentActivity list"
  ts_coverage :: "CoverageCount list"
  ts_tokens :: TokenTotals
  ts_total_cost_usd :: rat
  ts_spend_by_provider :: "ProviderSpend list"
  ts_models :: "ModelStat list"
  ts_metering_available :: nat
  ts_metering_unavailable :: nat
  ts_prompts_by_resource :: "PromptBucket list"

text \<open>\<open>*map.entry(k).or_default() = f(...)\<close>\<close>

definition entry_upd :: "'k \<Rightarrow> 'v \<Rightarrow> ('v \<Rightarrow> 'v) \<Rightarrow> ('k, 'v) hashmap \<Rightarrow> ('k, 'v) hashmap" where
  "entry_upd k d f m = AList.update k (f (unwrap_or (map_of m k) d)) m"

record stats_acc =
  sa_decisions :: "(string, nat) hashmap"
  sa_agents :: "(string, AgentActivity) hashmap"
  sa_coverage :: "(string, nat) hashmap"
  sa_tokens :: TokenTotals
  sa_total_cost :: rat
  sa_provider_spend :: "(string, rat) hashmap"
  sa_models :: "(string, ModelStat) hashmap"
  sa_available :: nat
  sa_unavailable :: nat
  sa_prompts :: "(string, nat \<times> nat) hashmap"

definition count_agent :: "string \<Rightarrow> AgentActivity \<Rightarrow> AgentActivity" where
  "count_agent d a =
     a\<lparr>aa_total := aa_total a + 1,
       aa_auto := aa_auto a + (if d = ''auto'' then 1 else 0),
       aa_ask := aa_ask a + (if d = ''ask'' then 1 else 0),
       aa_denied := aa_denied a + (if d = ''deny'' then 1 else 0)\<rparr>"

definition agent_of :: "TimelineEntry \<Rightarrow> string" where
  "agent_of e = unwrap_or (te_agent e) ''unknown''"

definition no_activity :: "string \<Rightarrow> AgentActivity" where
  "no_activity agent = \<lparr>aa_agent = agent, aa_total = 0, aa_auto = 0, aa_ask = 0, aa_denied = 0\<rparr>"

definition step_decisions :: "TimelineEntry \<Rightarrow> (string, nat) hashmap \<Rightarrow> (string, nat) hashmap" where
  "step_decisions e m = (case te_decision e of None \<Rightarrow> m | Some d \<Rightarrow> entry_upd d 0 Suc m)"

definition step_agents :: "TimelineEntry \<Rightarrow> (string, AgentActivity) hashmap \<Rightarrow> (string, AgentActivity) hashmap" where
  "step_agents e m =
     (case te_decision e of
        None \<Rightarrow> m
      | Some d \<Rightarrow> entry_upd (agent_of e) (no_activity (agent_of e)) (count_agent d) m)"

definition step_prompts :: "TimelineEntry \<Rightarrow> (string, nat \<times> nat) hashmap \<Rightarrow> (string, nat \<times> nat) hashmap" where
  "step_prompts e m =
     (if te_decision e = Some ''ask''
      then entry_upd (unwrap_or (te_resource_class e) ''unclassified'') (0, 0)
             (\<lambda>(n, g). (n + 1, if te_grantable e = Some True then g + 1 else g)) m
      else m)"

definition step_tokens :: "TimelineEntry \<Rightarrow> TokenTotals \<Rightarrow> TokenTotals" where
  "step_tokens e t =
     \<lparr>tt_input = wrap_i64 (tt_input t + unwrap_or (te_tokens_in e) 0),
      tt_output = wrap_i64 (tt_output t + unwrap_or (te_tokens_out e) 0),
      tt_cache_create = wrap_i64 (tt_cache_create t + unwrap_or (te_tokens_cache_create e) 0),
      tt_cache_read = wrap_i64 (tt_cache_read t + unwrap_or (te_tokens_cache_read e) 0)\<rparr>"

definition errored :: "TimelineEntry \<Rightarrow> bool" where
  "errored e \<longleftrightarrow> te_status e \<in> {Some ''error'', Some ''circuit_breaker''}"

definition billed :: "TimelineEntry \<Rightarrow> rat option" where
  "billed e = (if errored e then None else te_cost_usd e)"

definition stats_step :: "(rat \<Rightarrow> rat) \<Rightarrow> TimelineEntry \<Rightarrow> stats_acc \<Rightarrow> stats_acc" where
  "stats_step fl e a =
     \<lparr>sa_decisions = step_decisions e (sa_decisions a),
      sa_agents = step_agents e (sa_agents a),
      sa_coverage = entry_upd (te_coverage_state e) 0 Suc (sa_coverage a),
      sa_tokens = step_tokens e (sa_tokens a),
      sa_total_cost = (case billed e of None \<Rightarrow> sa_total_cost a | Some c \<Rightarrow> fl (sa_total_cost a + c)),
      sa_provider_spend =
        (case (billed e, te_provider e) of
           (Some c, Some p) \<Rightarrow> entry_upd p 0 (\<lambda>x. fl (x + c)) (sa_provider_spend a)
         | _ \<Rightarrow> sa_provider_spend a),
      sa_models =
        (case te_model e of
           None \<Rightarrow> sa_models a
         | Some model \<Rightarrow>
             entry_upd model \<lparr>mst_model = model, mst_calls = 0, mst_cost_usd = 0\<rparr>
               (\<lambda>m. m\<lparr>mst_calls := mst_calls m + 1,
                      mst_cost_usd := (if errored e then mst_cost_usd m
                                       else fl (mst_cost_usd m + unwrap_or (te_cost_usd e) 0))\<rparr>) (sa_models a)),
      sa_available = (if te_metering e = Some ''available'' then sa_available a + 1 else sa_available a),
      sa_unavailable = (if te_metering e = Some ''unavailable'' then sa_unavailable a + 1 else sa_unavailable a),
      sa_prompts = step_prompts e (sa_prompts a)\<rparr>"

definition no_stats :: stats_acc where
  "no_stats = \<lparr>sa_decisions = [], sa_agents = [], sa_coverage = [],
     sa_tokens = \<lparr>tt_input = 0, tt_output = 0, tt_cache_create = 0, tt_cache_read = 0\<rparr>,
     sa_total_cost = 0, sa_provider_spend = [], sa_models = [], sa_available = 0, sa_unavailable = 0, sa_prompts = []\<rparr>"

definition by_key :: "('a \<Rightarrow> 'k :: linorder) \<Rightarrow> 'a \<Rightarrow> 'a \<Rightarrow> bool" where
  "by_key f a b \<longleftrightarrow> f a \<ge> f b"

definition compute_stats :: "(rat \<Rightarrow> rat) \<Rightarrow> TimelineEntry list \<Rightarrow> TimelineStats" where
  "compute_stats fl entries =
     (let a = fold (stats_step fl) entries no_stats
      in \<lparr>ts_actions_by_decision =
            sort_desc (by_key dc_count) (map (\<lambda>(d, n). \<lparr>dc_decision = d, dc_count = n\<rparr>) (sa_decisions a)),
          ts_agents = sort_desc (by_key aa_total) (map snd (sa_agents a)),
          ts_coverage =
            sort_desc (by_key cv_count) (map (\<lambda>(c, n). \<lparr>cv_coverage_state = c, cv_count = n\<rparr>) (sa_coverage a)),
          ts_tokens = sa_tokens a, ts_total_cost_usd = sa_total_cost a,
          ts_spend_by_provider =
            sort_desc (by_key ps_cost_usd)
              (map (\<lambda>(p, c). \<lparr>ps_provider = p, ps_cost_usd = c\<rparr>) (sa_provider_spend a)),
          ts_models = sort_desc (by_key mst_calls) (map snd (sa_models a)),
          ts_metering_available = sa_available a, ts_metering_unavailable = sa_unavailable a,
          ts_prompts_by_resource =
            sort_desc (by_key pb_count)
              (map (\<lambda>(r, n, g). \<lparr>pb_resource_class = r, pb_count = n, pb_grantable = g\<rparr>) (sa_prompts a))\<rparr>)"

section \<open>Sorting and counting\<close>

lemma mset_insert_desc [simp]: "mset (insert_desc ge x xs) = add_mset x (mset xs)"
  by (induction xs) auto

lemma mset_sort_desc [simp]: "mset (sort_desc ge xs) = mset xs"
  by (induction xs) (simp_all add: sort_desc_def)

lemma set_sort_desc [simp]: "set (sort_desc ge xs) = set xs"
  using mset_sort_desc[of ge xs] by (metis set_mset_mset)

lemma length_sort_desc [simp]: "length (sort_desc ge xs) = length xs"
  using mset_sort_desc[of ge xs] by (metis size_mset)

lemma sorted_sort_desc:
  assumes total: "\<And>a b. ge a b \<or> ge b a" and trans: "\<And>a b c. ge a b \<Longrightarrow> ge b c \<Longrightarrow> ge a c"
  shows "sorted_wrt ge (sort_desc ge xs)"
proof -
  have set: "set (insert_desc ge x ys) = insert x (set ys)" for x ys
    by (induction ys) auto
  have ins: "sorted_wrt ge ys \<Longrightarrow> sorted_wrt ge (insert_desc ge x ys)" for x ys
  proof (induction ys)
    case (Cons y ys)
    then show ?case using total[of x y] by (auto simp: set intro: trans)
  qed simp
  show ?thesis by (induction xs) (simp_all add: sort_desc_def ins)
qed

lemma sorted_newer: "sorted_wrt newer (sort_desc newer xs)"
  by (rule sorted_sort_desc) (auto simp: newer_def)

lemma sorted_by_key: "sorted_wrt (by_key f) (sort_desc (by_key f) xs)"
  by (rule sorted_sort_desc) (auto simp: by_key_def)

text \<open>Counting into a hash map with one entry per key.\<close>

lemma map_of_entry_upd: "map_of (entry_upd k d f m) k' = (if k' = k then Some (f (unwrap_or (map_of m k) d)) else map_of m k')"
  by (simp add: entry_upd_def update_conv')

lemma distinct_entry_upd [simp]: "distinct (map fst m) \<Longrightarrow> distinct (map fst (entry_upd k d f m))"
  by (simp add: entry_upd_def distinct_update)

lemma fold_count_agent:
  "fold (\<lambda>e. count_agent (the (te_decision e))) es a =
     a\<lparr>aa_total := aa_total a + length es,
       aa_auto := aa_auto a + length (filter (\<lambda>e. the (te_decision e) = ''auto'') es),
       aa_ask := aa_ask a + length (filter (\<lambda>e. the (te_decision e) = ''ask'') es),
       aa_denied := aa_denied a + length (filter (\<lambda>e. the (te_decision e) = ''deny'') es)\<rparr>"
  by (induction es arbitrary: a) (simp_all add: count_agent_def)

lemma fold_stats_step:
  "sa_tokens (fold (stats_step fl) es a) = fold step_tokens es (sa_tokens a)"
  by (induction es arbitrary: a) (simp_all add: stats_step_def)

lemma fold_stats_sums:
  "sa_total_cost (fold (stats_step fl) es a) = fold (\<lambda>c x. fl (x + c)) (List.map_filter billed es) (sa_total_cost a)"
  "sa_available (fold (stats_step fl) es a) = sa_available a + length (filter (\<lambda>e. te_metering e = Some ''available'') es)"
  "sa_unavailable (fold (stats_step fl) es a) = sa_unavailable a + length (filter (\<lambda>e. te_metering e = Some ''unavailable'') es)"
  by (induction es arbitrary: a) (simp_all add: stats_step_def List.map_filter_simps split: option.split)

text \<open>Grouping: what a hash map holds after a walk in which each entry with key \<open>k\<close> updates the slot of \<open>k\<close>.\<close>

definition grouped ::
  "(TimelineEntry \<Rightarrow> string option) \<Rightarrow> (string \<Rightarrow> 'v) \<Rightarrow> (TimelineEntry \<Rightarrow> 'v \<Rightarrow> 'v) \<Rightarrow> TimelineEntry list \<Rightarrow>
     (string, 'v) hashmap \<Rightarrow> (string, 'v) hashmap" where
  "grouped key d f es m = fold (\<lambda>e m. case key e of None \<Rightarrow> m | Some k \<Rightarrow> entry_upd k (d k) (f e) m) es m"

lemma map_of_grouped:
  "map_of (grouped key d f es m) k =
     (let mine = filter (\<lambda>e. key e = Some k) es
      in if mine = [] then map_of m k else Some (fold f mine (unwrap_or (map_of m k) (d k))))"
proof (induction es arbitrary: m)
  case (Cons e es)
  then show ?case by (cases "key e") (auto simp: grouped_def map_of_entry_upd Let_def)
qed (simp add: grouped_def)

lemma distinct_grouped: "distinct (map fst m) \<Longrightarrow> distinct (map fst (grouped key d f es m))"
  unfolding grouped_def by (induction es arbitrary: m) (auto split: option.split)

lemma grouped_set:
  "(k, v) \<in> set (grouped key d f es []) \<longleftrightarrow>
     filter (\<lambda>e. key e = Some k) es \<noteq> [] \<and> v = fold f (filter (\<lambda>e. key e = Some k) es) (d k)"
proof -
  have "(k, v) \<in> set (grouped key d f es []) \<longleftrightarrow> map_of (grouped key d f es []) k = Some v"
    using distinct_grouped[of "[]" key d f es] by (simp add: map_of_eq_Some_iff)
  then show ?thesis by (auto simp: map_of_grouped Let_def)
qed

definition model_step :: "(rat \<Rightarrow> rat) \<Rightarrow> TimelineEntry \<Rightarrow> ModelStat \<Rightarrow> ModelStat" where
  "model_step fl e = (\<lambda>m. m\<lparr>mst_calls := mst_calls m + 1,
     mst_cost_usd := (if errored e then mst_cost_usd m else fl (mst_cost_usd m + unwrap_or (te_cost_usd e) 0))\<rparr>)"

definition prompt_step :: "TimelineEntry \<Rightarrow> nat \<times> nat \<Rightarrow> nat \<times> nat" where
  "prompt_step e = (\<lambda>(n, g). (n + 1, if te_grantable e = Some True then g + 1 else g))"

definition class_of :: "TimelineEntry \<Rightarrow> string" where
  "class_of e = unwrap_or (te_resource_class e) ''unclassified''"

definition deciding_agent :: "TimelineEntry \<Rightarrow> string option" where
  "deciding_agent e = (if te_decision e = None then None else Some (agent_of e))"

definition billed_provider :: "TimelineEntry \<Rightarrow> string option" where
  "billed_provider e = (if billed e = None then None else te_provider e)"

lemma fold_stats_groups:
  "sa_decisions (fold (stats_step fl) es a) = grouped te_decision (\<lambda>_. 0) (\<lambda>_. Suc) es (sa_decisions a)"
  "sa_agents (fold (stats_step fl) es a) =
     grouped deciding_agent no_activity (\<lambda>e. count_agent (the (te_decision e))) es (sa_agents a)"
  "sa_coverage (fold (stats_step fl) es a) = grouped (\<lambda>e. Some (te_coverage_state e)) (\<lambda>_. 0) (\<lambda>_. Suc) es (sa_coverage a)"
  "sa_provider_spend (fold (stats_step fl) es a) =
     grouped billed_provider (\<lambda>_. 0) (\<lambda>e x. fl (x + the (billed e))) es (sa_provider_spend a)"
  "sa_models (fold (stats_step fl) es a) =
     grouped te_model (\<lambda>k. \<lparr>mst_model = k, mst_calls = 0, mst_cost_usd = 0\<rparr>) (model_step fl) es (sa_models a)"
  "sa_prompts (fold (stats_step fl) es a) =
     grouped (\<lambda>e. if te_decision e = Some ''ask'' then Some (class_of e) else None) (\<lambda>_. (0, 0)) prompt_step es (sa_prompts a)"
  unfolding grouped_def
  by (induction es arbitrary: a)
    (simp_all add: stats_step_def step_decisions_def step_prompts_def billed_provider_def model_step_def prompt_step_def
      step_agents_def deciding_agent_def class_of_def split: option.split)

lemma fold_Suc: "fold (\<lambda>_. Suc) es n = n + length es"
  by (induction es arbitrary: n) auto

lemma fold_model_step:
  "fold (model_step fl) es m = m\<lparr>mst_calls := mst_calls m + length es,
     mst_cost_usd := fold (\<lambda>c x. fl (x + c)) (map (\<lambda>e. unwrap_or (te_cost_usd e) 0) (filter (\<lambda>e. \<not> errored e) es)) (mst_cost_usd m)\<rparr>"
  by (induction es arbitrary: m) (simp_all add: model_step_def)

lemma fold_prompt_step:
  "fold prompt_step es (n, g) = (n + length es, g + length (filter (\<lambda>e. te_grantable e = Some True) es))"
  by (induction es arbitrary: n g) (simp_all add: prompt_step_def)

lemma fold_billed:
  "fold (\<lambda>e x. fl (x + the (billed e))) (filter (\<lambda>e. billed_provider e = Some p) es) x
     = fold (\<lambda>c x. fl (x + c)) (List.map_filter billed (filter (\<lambda>e. te_provider e = Some p) es)) x"
  by (induction es arbitrary: x) (auto simp: billed_provider_def List.map_filter_simps split: option.split)

lemma wrap_i64_add: "wrap_i64 (wrap_i64 x + y) = wrap_i64 (x + y)"
proof -
  have "((x + 2 ^ 63) mod 2 ^ 64 - 2 ^ 63 + y + 2 ^ 63) mod 2 ^ 64 = (x + y + 2 ^ 63 :: int) mod 2 ^ 64"
    by (simp add: mod_add_right_eq algebra_simps)
  then show ?thesis by (simp add: wrap_i64_def)
qed

lemma fold_step_tokens:
  assumes "es \<noteq> []"
  shows "fold step_tokens es t =
     \<lparr>tt_input = wrap_i64 (tt_input t + sum_list (map (\<lambda>e. unwrap_or (te_tokens_in e) 0) es)),
      tt_output = wrap_i64 (tt_output t + sum_list (map (\<lambda>e. unwrap_or (te_tokens_out e) 0) es)),
      tt_cache_create = wrap_i64 (tt_cache_create t + sum_list (map (\<lambda>e. unwrap_or (te_tokens_cache_create e) 0) es)),
      tt_cache_read = wrap_i64 (tt_cache_read t + sum_list (map (\<lambda>e. unwrap_or (te_tokens_cache_read e) 0) es))\<rparr>"
  using assms
proof (induction es arbitrary: t rule: list_nonempty_induct)
  case (single e)
  then show ?case by (simp add: step_tokens_def)
next
  case (cons e es)
  have "wrap_i64 (wrap_i64 (x + y) + z) = wrap_i64 (x + (y + z))" for x y z
    by (simp add: wrap_i64_add add.assoc)
  with cons show ?case by (simp add: step_tokens_def)
qed

lemma counts_exact:
  "\<lparr>dc_decision = d, dc_count = n\<rparr> \<in> set (ts_actions_by_decision (compute_stats fl entries)) \<longleftrightarrow>
     n = length (filter (\<lambda>e. te_decision e = Some d) entries) \<and> n > 0"
  "\<lparr>cv_coverage_state = c, cv_count = n\<rparr> \<in> set (ts_coverage (compute_stats fl entries)) \<longleftrightarrow>
     n = length (filter (\<lambda>e. te_coverage_state e = c) entries) \<and> n > 0"
proof -
  have img: "\<lparr>dc_decision = d, dc_count = n\<rparr> \<in> (\<lambda>(d, n). \<lparr>dc_decision = d, dc_count = n\<rparr>) ` set m \<longleftrightarrow> (d, n) \<in> set m"
    "\<lparr>cv_coverage_state = c, cv_count = n\<rparr> \<in> (\<lambda>(c, n). \<lparr>cv_coverage_state = c, cv_count = n\<rparr>) ` set m \<longleftrightarrow> (c, n) \<in> set m" for m
    by force+
  show "\<lparr>dc_decision = d, dc_count = n\<rparr> \<in> set (ts_actions_by_decision (compute_stats fl entries)) \<longleftrightarrow>
      n = length (filter (\<lambda>e. te_decision e = Some d) entries) \<and> n > 0"
    by (auto simp: compute_stats_def Let_def fold_stats_groups no_stats_def img grouped_set fold_Suc)
  show "\<lparr>cv_coverage_state = c, cv_count = n\<rparr> \<in> set (ts_coverage (compute_stats fl entries)) \<longleftrightarrow>
      n = length (filter (\<lambda>e. te_coverage_state e = c) entries) \<and> n > 0"
    by (auto simp: compute_stats_def Let_def fold_stats_groups no_stats_def img grouped_set fold_Suc)
qed

lemma spend_exact:
  "\<lparr>ps_provider = p, ps_cost_usd = c\<rparr> \<in> set (ts_spend_by_provider (compute_stats fl entries)) \<longleftrightarrow>
     (\<exists>costs. costs = List.map_filter billed (filter (\<lambda>e. te_provider e = Some p) entries) \<and> costs \<noteq> [] \<and>
        c = fold (\<lambda>c x. fl (x + c)) costs 0)"
proof -
  have img: "\<lparr>ps_provider = p, ps_cost_usd = c\<rparr> \<in> (\<lambda>(p, c). \<lparr>ps_provider = p, ps_cost_usd = c\<rparr>) ` set m \<longleftrightarrow> (p, c) \<in> set m" for m
    by force
  have "filter (\<lambda>e. billed_provider e = Some p) entries = [] \<longleftrightarrow>
      List.map_filter billed (filter (\<lambda>e. te_provider e = Some p) entries) = []"
    by (induction entries) (auto simp: billed_provider_def List.map_filter_simps split: option.splits)
  then show ?thesis
    by (simp add: compute_stats_def Let_def fold_stats_groups no_stats_def img grouped_set fold_billed)
qed

lemma models_exact:
  "m \<in> set (ts_models (compute_stats fl entries)) \<longleftrightarrow>
     (\<exists>mine. mine = filter (\<lambda>e. te_model e = Some (mst_model m)) entries \<and> mine \<noteq> [] \<and> mst_calls m = length mine \<and>
        mst_cost_usd m = fold (\<lambda>c x. fl (x + c)) (map (\<lambda>e. unwrap_or (te_cost_usd e) 0) (filter (\<lambda>e. \<not> errored e) mine)) 0)"
proof -
  have "x \<in> snd ` set xs \<longleftrightarrow> (\<exists>k. (k, x) \<in> set xs)" for x :: ModelStat and xs :: "(string \<times> ModelStat) list"
    by force
  then show ?thesis
    by (cases m) (auto simp: compute_stats_def Let_def fold_stats_groups no_stats_def grouped_set fold_model_step)
qed

lemma prompts_exact:
  "b \<in> set (ts_prompts_by_resource (compute_stats fl entries)) \<longleftrightarrow>
     (\<exists>mine. mine = filter (\<lambda>e. te_decision e = Some ''ask'' \<and> class_of e = pb_resource_class b) entries \<and> mine \<noteq> [] \<and>
        pb_count b = length mine \<and> pb_grantable b = length (filter (\<lambda>e. te_grantable e = Some True) mine))"
proof -
  have img: "b \<in> (\<lambda>(r, n, g). \<lparr>pb_resource_class = r, pb_count = n, pb_grantable = g\<rparr>) ` set m \<longleftrightarrow>
      (pb_resource_class b, pb_count b, pb_grantable b) \<in> set m" for m
    by (cases b) force
  have flt: "filter (\<lambda>e. (if te_decision e = Some ''ask'' then Some (class_of e) else None) = Some r) entries
      = filter (\<lambda>e. te_decision e = Some ''ask'' \<and> class_of e = r) entries" for r
    by (rule filter_cong) auto
  show ?thesis
    by (auto simp: compute_stats_def Let_def fold_stats_groups no_stats_def img grouped_set flt fold_prompt_step)
qed

lemma agents_exact:
  "a \<in> set (ts_agents (compute_stats fl entries)) \<longleftrightarrow>
     (\<exists>mine. mine = filter (\<lambda>e. te_decision e \<noteq> None \<and> agent_of e = aa_agent a) entries \<and> mine \<noteq> [] \<and>
        aa_total a = length mine \<and>
        aa_auto a = length (filter (\<lambda>e. te_decision e = Some ''auto'') mine) \<and>
        aa_ask a = length (filter (\<lambda>e. te_decision e = Some ''ask'') mine) \<and>
        aa_denied a = length (filter (\<lambda>e. te_decision e = Some ''deny'') mine))"
proof -
  have "x \<in> snd ` set xs \<longleftrightarrow> (\<exists>k. (k, x) \<in> set xs)" for x :: AgentActivity and xs :: "(string \<times> AgentActivity) list"
    by force
  moreover have "filter (\<lambda>e. deciding_agent e = Some g) entries = filter (\<lambda>e. te_decision e \<noteq> None \<and> agent_of e = g) entries" for g
    by (rule filter_cong) (auto simp: deciding_agent_def)
  moreover have "filter (\<lambda>e. (\<exists>y. te_decision e = Some y) \<and> agent_of e = g \<and> the (te_decision e) = d) entries
      = filter (\<lambda>e. (\<exists>y. te_decision e = Some y) \<and> agent_of e = g \<and> te_decision e = Some d) entries" for d g
    by (rule filter_cong) auto
  ultimately show ?thesis
    by (cases a) (auto simp: compute_stats_def Let_def fold_stats_groups no_stats_def grouped_set fold_count_agent no_activity_def)
qed

lemma sums_exact:
  "ts_tokens (compute_stats fl entries) =
     \<lparr>tt_input = wrap_i64 (sum_list (map (\<lambda>e. unwrap_or (te_tokens_in e) 0) entries)),
      tt_output = wrap_i64 (sum_list (map (\<lambda>e. unwrap_or (te_tokens_out e) 0) entries)),
      tt_cache_create = wrap_i64 (sum_list (map (\<lambda>e. unwrap_or (te_tokens_cache_create e) 0) entries)),
      tt_cache_read = wrap_i64 (sum_list (map (\<lambda>e. unwrap_or (te_tokens_cache_read e) 0) entries))\<rparr>"
  "ts_total_cost_usd (compute_stats fl entries) = fold (\<lambda>c x. fl (x + c)) (List.map_filter billed entries) 0"
  "ts_metering_available (compute_stats fl entries) = length (filter (\<lambda>e. te_metering e = Some ''available'') entries)"
  "ts_metering_unavailable (compute_stats fl entries) = length (filter (\<lambda>e. te_metering e = Some ''unavailable'') entries)"
  by (simp_all add: compute_stats_def Let_def fold_stats_sums no_stats_def)
    (cases "entries = []"; simp add: fold_stats_step fold_step_tokens wrap_i64_def)

text \<open>No key is listed twice, and every list is in descending order.\<close>

lemma distinct_sort_desc: "distinct (map f (sort_desc ge xs)) = distinct (map f xs)"
  by (metis mset_map mset_sort_desc mset_eq_imp_distinct_iff)

lemma group_names:
  "(k, v) \<in> set (grouped key no_activity (\<lambda>e. count_agent (the (te_decision e))) es []) \<Longrightarrow> aa_agent v = k"
  "(k, m) \<in> set (grouped key (\<lambda>k. \<lparr>mst_model = k, mst_calls = 0, mst_cost_usd = 0\<rparr>) (model_step fl) es []) \<Longrightarrow> mst_model m = k"
  by (auto simp: grouped_set fold_count_agent fold_model_step no_activity_def)

lemma distinct_named:
  assumes "distinct (map fst m)" and "\<And>k v. (k, v) \<in> set m \<Longrightarrow> name v = k"
  shows "distinct (map (\<lambda>x. name (snd x)) m)"
proof -
  have "map (\<lambda>x. name (snd x)) m = map fst m"
    using assms(2) by (intro map_cong) auto
  then show ?thesis using assms(1) by (simp only:)
qed

lemma stats_lists_distinct:
  "distinct (map dc_decision (ts_actions_by_decision (compute_stats fl entries)))"
  "distinct (map cv_coverage_state (ts_coverage (compute_stats fl entries)))"
  "distinct (map ps_provider (ts_spend_by_provider (compute_stats fl entries)))"
  "distinct (map pb_resource_class (ts_prompts_by_resource (compute_stats fl entries)))"
  "distinct (map aa_agent (ts_agents (compute_stats fl entries)))"
  "distinct (map mst_model (ts_models (compute_stats fl entries)))"
  by (simp_all add: compute_stats_def Let_def distinct_sort_desc comp_def case_prod_unfold fold_stats_groups no_stats_def
      distinct_grouped distinct_named group_names)

lemma stats_lists_sorted:
  "sorted_wrt (by_key dc_count) (ts_actions_by_decision (compute_stats fl entries))"
  "sorted_wrt (by_key aa_total) (ts_agents (compute_stats fl entries))"
  "sorted_wrt (by_key cv_count) (ts_coverage (compute_stats fl entries))"
  "sorted_wrt (by_key ps_cost_usd) (ts_spend_by_provider (compute_stats fl entries))"
  "sorted_wrt (by_key mst_calls) (ts_models (compute_stats fl entries))"
  "sorted_wrt (by_key pb_count) (ts_prompts_by_resource (compute_stats fl entries))"
  by (simp_all add: compute_stats_def Let_def sorted_by_key)

section \<open>Properties\<close>

text \<open>
  The timeline shows everything once, newest first: it has one entry for each event and one for
  each record without an event, in descending order of time stamp and id; and as long as no two
  records share a trace, every record shows, with its own model, tokens and cost.
\<close>
theorem timeline_shows_every_record:
  assumes "distinct (map gr_trace_id records)" and "r \<in> set records"
  shows "(\<exists>e \<in> set (join_timeline home_var events records scope).
            te_trace_id e = Some (gr_trace_id r) \<and> te_model e = Some (gr_model r) \<and>
            te_tokens_in e = gr_tokens_in r \<and> te_tokens_out e = gr_tokens_out r \<and> te_cost_usd e = gr_cost_usd r) \<and>
     length (join_timeline home_var events records scope) = length events +
       length (filter (\<lambda>rec. \<forall>row \<in> set events. tr_trace_id row \<noteq> Some (gr_trace_id rec)) records) \<and>
     sorted_wrt newer (join_timeline home_var events records scope)"
proof -
  have traces: "t \<in> set (List.map_filter tr_trace_id events) \<longleftrightarrow> (\<exists>row \<in> set events. tr_trace_id row = Some t)" for t
    by (auto simp: List.map_filter_def) force
  have r: "by_trace records (gr_trace_id r) = Some r"
    unfolding by_trace_def using assms by (intro map_of_is_SomeI) (auto simp: rev_map[symmetric] comp_def)
  have "\<exists>e \<in> set (join_timeline home_var events records scope).
            te_trace_id e = Some (gr_trace_id r) \<and> te_model e = Some (gr_model r) \<and>
            te_tokens_in e = gr_tokens_in r \<and> te_tokens_out e = gr_tokens_out r \<and> te_cost_usd e = gr_cost_usd r"
  proof (cases "\<exists>row \<in> set events. tr_trace_id row = Some (gr_trace_id r)")
    case True
    then obtain row where "row \<in> set events" "tr_trace_id row = Some (gr_trace_id r)" by blast
    then show ?thesis
      by (intro bexI[of _ "entry_from_event home_var row (Some r) scope"])
         (auto simp: join_timeline_def entry_from_event_def Let_def r image_iff intro!: bexI[of _ row])
  next
    case False
    then show ?thesis
      using assms(2)
      by (intro bexI[of _ "entry_from_orphan_record r"])
         (auto simp: join_timeline_def entry_from_orphan_record_def Let_def traces)
  qed
  moreover have "(gr_trace_id rec \<notin> set (List.map_filter tr_trace_id events)) =
      (\<forall>row \<in> set events. tr_trace_id row \<noteq> Some (gr_trace_id rec))" for rec
    using traces by blast
  then have "filter (\<lambda>rec. gr_trace_id rec \<notin> set (List.map_filter tr_trace_id events)) records =
      filter (\<lambda>rec. \<forall>row \<in> set events. tr_trace_id row \<noteq> Some (gr_trace_id rec)) records"
    by (intro filter_cong) simp_all
  ultimately show ?thesis by (simp add: join_timeline_def Let_def sorted_newer)
qed

definition demo_record :: GatewayRecord where
  "demo_record = \<lparr>gr_id = ''r'', gr_trace_id = ''tr'', gr_timestamp = ''t'', gr_provider = ''p'', gr_model = ''m'',
     gr_tokens_in = None, gr_tokens_out = None, gr_tokens_cache_create = None, gr_tokens_cache_read = None,
     gr_cost_usd = None, gr_latency_ms = 1, gr_status = Success, gr_session_id = None, gr_synced = False,
     gr_mcp_server = None, gr_mcp_tool = None, gr_metering = Available_metering, gr_plan_status = ''overage'',
     gr_working_dir = Some ''/w'', gr_agent = None\<rparr>"

theorem timeline_shows_every_record_witness:
  "\<exists>e \<in> set (join_timeline None [] [demo_record] \<lparr>ts_patterns = [], ts_last_synced_at = None\<rparr>).
     te_trace_id e = Some (gr_trace_id demo_record) \<and> te_model e = Some (gr_model demo_record)"
  using timeline_shows_every_record[of "[demo_record]" demo_record None "[]" "\<lparr>ts_patterns = [], ts_last_synced_at = None\<rparr>"]
  by auto

text \<open>
  C28. The statistics are exact, every field of them. Decisions and coverage states: each that occurs is
  listed with the number of entries that carry it. Agents: the number of an agent's decisions and of the
  automatic, asked and denied ones among them. Prompts: for each resource class the asks and the grantable
  ones among them. The four token totals are the sums over all entries (modulo the width of the counter).
  The total cost, and a provider's, is the sum (in the order of the entries, with the rounding \<open>fl\<close> of the
  float addition) of the costs of its entries that did not fail; a model has the number of its calls, failed
  ones included, and the cost of those that did not fail. The metering counters count the entries with
  metering available and unavailable. No list names a key twice, and each is in descending order.
\<close>
theorem stats_are_exact:
  "(\<forall>d n. \<lparr>dc_decision = d, dc_count = n\<rparr> \<in> set (ts_actions_by_decision (compute_stats fl entries)) \<longleftrightarrow>
             n = length (filter (\<lambda>e. te_decision e = Some d) entries) \<and> n > 0) \<and>
     (\<forall>c n. \<lparr>cv_coverage_state = c, cv_count = n\<rparr> \<in> set (ts_coverage (compute_stats fl entries)) \<longleftrightarrow>
             n = length (filter (\<lambda>e. te_coverage_state e = c) entries) \<and> n > 0) \<and>
     (\<forall>a. a \<in> set (ts_agents (compute_stats fl entries)) \<longleftrightarrow>
        (\<exists>mine. mine = filter (\<lambda>e. te_decision e \<noteq> None \<and> agent_of e = aa_agent a) entries \<and> mine \<noteq> [] \<and>
           aa_total a = length mine \<and>
           aa_auto a = length (filter (\<lambda>e. te_decision e = Some ''auto'') mine) \<and>
           aa_ask a = length (filter (\<lambda>e. te_decision e = Some ''ask'') mine) \<and>
           aa_denied a = length (filter (\<lambda>e. te_decision e = Some ''deny'') mine))) \<and>
     (\<forall>b. b \<in> set (ts_prompts_by_resource (compute_stats fl entries)) \<longleftrightarrow>
        (\<exists>mine. mine = filter (\<lambda>e. te_decision e = Some ''ask'' \<and> class_of e = pb_resource_class b) entries \<and> mine \<noteq> [] \<and>
           pb_count b = length mine \<and> pb_grantable b = length (filter (\<lambda>e. te_grantable e = Some True) mine))) \<and>
     ts_tokens (compute_stats fl entries) =
       \<lparr>tt_input = wrap_i64 (sum_list (map (\<lambda>e. unwrap_or (te_tokens_in e) 0) entries)),
        tt_output = wrap_i64 (sum_list (map (\<lambda>e. unwrap_or (te_tokens_out e) 0) entries)),
        tt_cache_create = wrap_i64 (sum_list (map (\<lambda>e. unwrap_or (te_tokens_cache_create e) 0) entries)),
        tt_cache_read = wrap_i64 (sum_list (map (\<lambda>e. unwrap_or (te_tokens_cache_read e) 0) entries))\<rparr> \<and>
     ts_total_cost_usd (compute_stats fl entries) = fold (\<lambda>c x. fl (x + c)) (List.map_filter billed entries) 0 \<and>
     (\<forall>p c. \<lparr>ps_provider = p, ps_cost_usd = c\<rparr> \<in> set (ts_spend_by_provider (compute_stats fl entries)) \<longleftrightarrow>
        (\<exists>costs. costs = List.map_filter billed (filter (\<lambda>e. te_provider e = Some p) entries) \<and> costs \<noteq> [] \<and>
           c = fold (\<lambda>c x. fl (x + c)) costs 0)) \<and>
     (\<forall>m. m \<in> set (ts_models (compute_stats fl entries)) \<longleftrightarrow>
        (\<exists>mine. mine = filter (\<lambda>e. te_model e = Some (mst_model m)) entries \<and> mine \<noteq> [] \<and> mst_calls m = length mine \<and>
           mst_cost_usd m =
             fold (\<lambda>c x. fl (x + c)) (map (\<lambda>e. unwrap_or (te_cost_usd e) 0) (filter (\<lambda>e. \<not> errored e) mine)) 0)) \<and>
     ts_metering_available (compute_stats fl entries) = length (filter (\<lambda>e. te_metering e = Some ''available'') entries) \<and>
     ts_metering_unavailable (compute_stats fl entries) = length (filter (\<lambda>e. te_metering e = Some ''unavailable'') entries) \<and>
     (distinct (map dc_decision (ts_actions_by_decision (compute_stats fl entries))) \<and>
      distinct (map cv_coverage_state (ts_coverage (compute_stats fl entries))) \<and>
      distinct (map ps_provider (ts_spend_by_provider (compute_stats fl entries))) \<and>
      distinct (map pb_resource_class (ts_prompts_by_resource (compute_stats fl entries))) \<and>
      distinct (map aa_agent (ts_agents (compute_stats fl entries))) \<and>
      distinct (map mst_model (ts_models (compute_stats fl entries)))) \<and>
     (sorted_wrt (by_key dc_count) (ts_actions_by_decision (compute_stats fl entries)) \<and>
      sorted_wrt (by_key aa_total) (ts_agents (compute_stats fl entries)) \<and>
      sorted_wrt (by_key cv_count) (ts_coverage (compute_stats fl entries)) \<and>
      sorted_wrt (by_key ps_cost_usd) (ts_spend_by_provider (compute_stats fl entries)) \<and>
      sorted_wrt (by_key mst_calls) (ts_models (compute_stats fl entries)) \<and>
      sorted_wrt (by_key pb_count) (ts_prompts_by_resource (compute_stats fl entries)))"
  by (intro conjI allI)
    (rule counts_exact agents_exact prompts_exact sums_exact spend_exact models_exact stats_lists_distinct stats_lists_sorted)+

end
