(* ===== verification/EventSync.thy ===== *)
theory EventSync
  imports SyncScope Timeline
begin

text \<open>
  Shipping governance events to the relay: the incremental log reader
  (\<^verbatim>\<open>daemon/src/sync/event_sync.rs\<close>), the fail-open spool (\<^verbatim>\<open>daemon/src/fail_open_log.rs\<close>) and one
  round of the sync loop (\<^verbatim>\<open>daemon/src/sync/daemon_sync.rs\<close>).

  The environment \<open>sync_env\<close> of a round holds what lies outside: the log directory as it is found,
  deserialisation of an event and printing of JSON, the age of a time stamp, the permission test,
  the unsynced records of the database, the stored credentials and the relay. Tray messages and log
  lines are not modelled.
\<close>

section \<open>The log reader\<close>

text \<open>A directory: file name, inode and bytes, in the order of \<open>read_dir\<close>.\<close>

type_synonym log_dir = "(string \<times> nat \<times> string) list"

record SyncCursor =
  cu_filename :: string
  cu_byte_offset :: nat

record EventSyncer =
  es_cursor :: SyncCursor
  es_scope :: SyncScope
  es_active_file_inode :: "nat option"

definition active_file :: string where
  "active_file = ''events.jsonl''"

definition is_log_file :: "string \<Rightarrow> bool" where
  "is_log_file name \<longleftrightarrow>
     (case rsplit_once CHR ''.'' name of
        Some (stem, ext) \<Rightarrow> stem \<noteq> [] \<and> eq_ignore_ascii_case ext ''jsonl''
      | None \<Rightarrow> False) \<or> suffix ''.jsonl.gz'' name"

definition file_inode :: "log_dir \<Rightarrow> string \<Rightarrow> nat option" where
  "file_inode dir name = map_option fst (map_of dir name)"

definition find_file_by_inode :: "log_dir \<Rightarrow> nat \<Rightarrow> string option" where
  "find_file_by_inode dir target_inode =
     map_option fst
       (List.find (\<lambda>(name, inode, _). is_log_file name \<and> name \<noteq> active_file \<and> inode = target_inode) dir)"

definition find_newest_dated_log_file :: "log_dir \<Rightarrow> string option" where
  "find_newest_dated_log_file dir =
     (let log_files = sort (filter (\<lambda>name. is_log_file name \<and> name \<noteq> active_file) (map fst dir))
      in if log_files = [] then None else Some (last log_files))"

definition EventSyncer_new :: "string option \<Rightarrow> log_dir \<Rightarrow> SyncCursor \<Rightarrow> string list \<Rightarrow> EventSyncer" where
  "EventSyncer_new home_var dir cursor scope =
     \<lparr>es_cursor = cursor, es_scope = SyncScope_new home_var scope,
      es_active_file_inode = (if cu_filename cursor = active_file then file_inode dir active_file else None)\<rparr>"

definition advance_cursor :: "log_dir \<Rightarrow> string \<Rightarrow> nat \<Rightarrow> EventSyncer \<Rightarrow> EventSyncer" where
  "advance_cursor dir filename byte_offset es =
     es\<lparr>es_active_file_inode :=
          (if filename = active_file \<and> cu_filename (es_cursor es) \<noteq> active_file then file_inode dir active_file
           else if filename \<noteq> active_file then None
           else es_active_file_inode es),
        es_cursor := \<lparr>cu_filename = filename, cu_byte_offset = byte_offset\<rparr>\<rparr>"

record parse_env =
  px_event :: "string \<Rightarrow> Event option"
  px_map :: "string \<Rightarrow> (string \<times> json) list option"
  px_print :: "json \<Rightarrow> string"
  px_raw_valid :: "string \<Rightarrow> bool"
  px_owner_only :: "path \<Rightarrow> bool"

definition patch_coverage_state :: "parse_env \<Rightarrow> string \<Rightarrow> CoverageState \<Rightarrow> string" where
  "patch_coverage_state px raw_line coverage_state =
     (let m = unwrap_or (px_map px raw_line) [];
          s = px_print px (JObj (AList.update ''coverage_state'' (JStr (coverage_str coverage_state)) m))
      in if px_raw_valid px s then s else raw_line)"

text \<open>What one line contributes.\<close>

definition line_event :: "parse_env \<Rightarrow> SyncScope \<Rightarrow> string \<Rightarrow> string list" where
  "line_event px scope line =
     (let trimmed = trim line
      in if trimmed = [] then []
         else case px_event px trimmed of
                Some event \<Rightarrow>
                  if is_in_scope (px_owner_only px) scope (ev_working_dir event)
                  then [patch_coverage_state px trimmed (ev_coverage_state (derive_for_event event))]
                  else []
              | None \<Rightarrow> [])"

text \<open>\<open>read_line\<close>: up to and including the next line feed, or to the end.\<close>

definition split_line :: "string \<Rightarrow> string \<times> string" where
  "split_line bs =
     (let l = takeWhile (\<lambda>c. c \<noteq> nl) bs; r = dropWhile (\<lambda>c. c \<noteq> nl) bs
      in if r = [] then (l, []) else (l @ [nl], tl r))"

lemma split_line_less: "bs \<noteq> [] \<Longrightarrow> length (snd (split_line bs)) < length bs"
proof -
  assume ne: "bs \<noteq> []"
  have "length (dropWhile (\<lambda>c. c \<noteq> nl) bs) \<le> length bs" by (rule length_dropWhile_le)
  with ne show ?thesis
    by (cases "dropWhile (\<lambda>c. c \<noteq> nl) bs") (auto simp: split_line_def Let_def)
qed

text \<open>The read loop over the bytes after the cursor: the events, and the number of bytes consumed. A
  line that is not UTF-8 is consumed and ends the loop with an error.\<close>

function read_loop :: "parse_env \<Rightarrow> SyncScope \<Rightarrow> string \<Rightarrow> string list \<times> nat" where
  "read_loop px scope bs =
     (if bs = [] then ([], 0)
      else
        (let (line, rest) = split_line bs
         in if \<not> valid_utf8 line then ([], length line)
            else (let (evs, n) = read_loop px scope rest in (line_event px scope line @ evs, length line + n))))"
  by pat_completeness auto
termination
  by (relation "measure (\<lambda>(_, _, bs). length bs)") (auto, metis snd_conv split_line_less)

declare read_loop.simps [simp del]

definition read_new_events :: "parse_env \<Rightarrow> log_dir \<Rightarrow> EventSyncer \<Rightarrow> string list \<times> nat" where
  "read_new_events px dir es =
     (let offset = cu_byte_offset (es_cursor es)
      in case map_of dir (cu_filename (es_cursor es)) of
           None \<Rightarrow> ([], offset)
         | Some (_, bytes) \<Rightarrow>
             (let (evs, n) = read_loop px (es_scope es) (drop offset bytes) in (evs, offset + n)))"

definition commit_read :: "nat \<Rightarrow> EventSyncer \<Rightarrow> EventSyncer" where
  "commit_read byte_offset es = es\<lparr>es_cursor := (es_cursor es)\<lparr>cu_byte_offset := byte_offset\<rparr>\<rparr>"

definition set_file :: "string \<Rightarrow> EventSyncer \<Rightarrow> EventSyncer" where
  "set_file name es =
     es\<lparr>es_cursor := (es_cursor es)\<lparr>cu_filename := name\<rparr>, es_active_file_inode := None\<rparr>"

definition check_rotation :: "log_dir \<Rightarrow> EventSyncer \<Rightarrow> bool \<times> EventSyncer" where
  "check_rotation dir es =
     (let active_exists = (map_of dir active_file \<noteq> None);
          restart = (\<lambda>inode. es\<lparr>es_cursor := (es_cursor es)\<lparr>cu_byte_offset := 0\<rparr>,
                                es_active_file_inode := inode\<rparr>)
      in if cu_filename (es_cursor es) = active_file then
           (if active_exists then
              (let current_inode = file_inode dir active_file
               in case (es_active_file_inode es, current_inode) of
                    (Some known, Some current) \<Rightarrow>
                      if known \<noteq> current then
                        (case opt_or (find_file_by_inode dir known) (find_newest_dated_log_file dir) of
                           Some rotated \<Rightarrow> (True, set_file rotated es)
                         | None \<Rightarrow> (True, restart current_inode))
                      else (False, es)
                  | (None, Some current) \<Rightarrow>
                      (let size = (case map_of dir active_file of None \<Rightarrow> 0 | Some (_, bytes) \<Rightarrow> length bytes)
                       in if size < cu_byte_offset (es_cursor es) then
                            (case find_newest_dated_log_file dir of
                               Some rotated \<Rightarrow> (True, set_file rotated es)
                             | None \<Rightarrow> (True, restart (Some current)))
                          else (False, es\<lparr>es_active_file_inode := Some current\<rparr>))
                  | _ \<Rightarrow> (False, es))
            else
              (case opt_or (Option.bind (es_active_file_inode es) (find_file_by_inode dir))
                      (find_newest_dated_log_file dir) of
                 Some rotated \<Rightarrow> (True, set_file rotated es)
               | None \<Rightarrow> (False, es)))
         else if active_exists then
           (True, es\<lparr>es_cursor := \<lparr>cu_filename = active_file, cu_byte_offset = 0\<rparr>,
                     es_active_file_inode := file_inode dir active_file\<rparr>)
         else (False, es))"

section \<open>The fail-open spool\<close>

definition spool_lines :: "string \<Rightarrow> string list" where
  "spool_lines content = filter (\<lambda>l. trim l \<noteq> []) (lines content)"

definition fail_open_read :: "parse_env \<Rightarrow> string \<Rightarrow> string list \<times> nat" where
  "fail_open_read px content =
     (if \<not> valid_utf8 content then ([], 0)
      else (filter (px_raw_valid px) (spool_lines content), length (spool_lines content)))"

definition fail_open_drain :: "nat \<Rightarrow> string \<Rightarrow> string" where
  "fail_open_drain lines_consumed content =
     (if \<not> valid_utf8 content then content
      else (let remaining = drop lines_consumed (spool_lines content)
            in if remaining = [] then [] else join [nl] remaining @ [nl]))"

section \<open>One round of the sync loop\<close>

datatype SendError = Transport string | Status nat

datatype SyncVerdict = Sent | EnrollmentError | RelayUnavailable | Retrying

definition MAX_UNKNOWN_SYNC_FAILURES :: nat where
  "MAX_UNKNOWN_SYNC_FAILURES = 3"

definition classify_send_outcome :: "SendError + unit \<Rightarrow> nat \<Rightarrow> SyncVerdict \<times> nat" where
  "classify_send_outcome result consecutive_failures =
     (case result of
        Inr _ \<Rightarrow> (Sent, 0)
      | Inl (Status code) \<Rightarrow>
          if code = 401 then (EnrollmentError, consecutive_failures)
          else if 500 \<le> code \<and> code < 600 then (RelayUnavailable, consecutive_failures)
          else (let n = consecutive_failures + 1
                in (if n \<ge> MAX_UNKNOWN_SYNC_FAILURES then EnrollmentError else Retrying, n))
      | Inl (Transport _) \<Rightarrow> (RelayUnavailable, consecutive_failures))"

record TimelineBatch =
  tb_machine_id :: string
  tb_batch_id :: string
  tb_entries :: "TimelineEntry list"
  tb_cursor :: SyncCursor

definition build_batch :: "string \<Rightarrow> EventSyncer \<Rightarrow> TimelineEntry list \<Rightarrow> string \<Rightarrow> TimelineBatch" where
  "build_batch uuid es batch_entries machine_id =
     \<lparr>tb_machine_id = machine_id, tb_batch_id = uuid, tb_entries = batch_entries, tb_cursor = es_cursor es\<rparr>"

record sync_env =
  sx_parse :: parse_env
  sx_dir :: log_dir
  sx_action_str :: "Action \<Rightarrow> string"
  sx_home_var :: "string option"
  sx_age :: "string \<Rightarrow> int option"
  sx_orphan_grace :: int
  sx_now :: string
  sx_uuid :: string
  sx_credentials :: "(string \<times> string) option"
  sx_records :: "GatewayRecord list"
  sx_send :: "TimelineBatch \<Rightarrow> SendError + unit"
  sx_appended :: string

text \<open>Ages in milliseconds.\<close>

definition RECORD_SETTLE_GRACE :: int where
  "RECORD_SETTLE_GRACE = 10000"

definition has_pending_join :: "sync_env \<Rightarrow> Event list \<Rightarrow> GatewayRecord list \<Rightarrow> bool" where
  "has_pending_join env events records \<longleftrightarrow>
     (let committed = set (map gr_trace_id records)
      in \<exists>e \<in> set events. ev_action e = Think \<and>
           (case ev_trace_id e of None \<Rightarrow> False | Some t \<Rightarrow> t \<notin> committed) \<and>
           (case sx_age env (ev_timestamp e) of None \<Rightarrow> True | Some age \<Rightarrow> age < RECORD_SETTLE_GRACE))"

text \<open>\<open>collect\<close> into a \<open>HashMap\<close>: of records with the same trace the last one stays.\<close>

definition is_orphan :: "sync_env \<Rightarrow> Event list \<Rightarrow> GatewayRecord \<Rightarrow> bool" where
  "is_orphan env events rec \<longleftrightarrow>
     gr_trace_id rec \<notin> set (List.map_filter ev_trace_id events) \<and>
     (case sx_age env (gr_timestamp rec) of None \<Rightarrow> True | Some age \<Rightarrow> age \<ge> sx_orphan_grace env)"

definition build_entries ::
  "sync_env \<Rightarrow> Event list \<Rightarrow> GatewayRecord list \<Rightarrow> TimelineEntry list \<times> string list" where
  "build_entries env events records =
     (let scope = \<lparr>ts_patterns = [], ts_last_synced_at = None\<rparr>;
          rec_of = (\<lambda>e. Option.bind (ev_trace_id e) (by_trace records));
          orphans = filter (is_orphan env events) records
      in (map (\<lambda>e. entry_from_event (sx_home_var env) (row_from_event (sx_action_str env) e) (rec_of e) scope) events
            @ map entry_from_orphan_record orphans,
          map gr_id (List.map_filter rec_of events) @ map gr_id orphans))"

definition filter_fail_open_in_scope :: "parse_env \<Rightarrow> EventSyncer \<Rightarrow> string list \<Rightarrow> string list" where
  "filter_fail_open_in_scope px es events =
     filter (\<lambda>raw. case px_event px raw of
                     None \<Rightarrow> False
                   | Some e \<Rightarrow> is_in_scope (px_owner_only px) (es_scope es) (ev_working_dir e)) events"

definition filter_records_in_scope :: "parse_env \<Rightarrow> EventSyncer \<Rightarrow> GatewayRecord list \<Rightarrow> GatewayRecord list" where
  "filter_records_in_scope px es records =
     filter (\<lambda>r. is_in_scope (px_owner_only px) (es_scope es) (gr_working_dir r)) records"

text \<open>The state of the loop, and what it leaves behind: the spool, the stored cursor, the records
  marked synced, the stored metadata and the batches which the relay took.\<close>

record sync_state =
  sl_syncer :: EventSyncer
  sl_failures :: nat
  sl_errored :: "string option"
  sl_fail_open :: string
  sl_saved_cursor :: "SyncCursor option"
  sl_synced :: "string list"
  sl_last_sync :: "string option"
  sl_sent :: "TimelineBatch list"

text \<open>The rest of a round once the credential gates are passed. While the batch is being sent, other
  processes append \<open>sx_appended\<close> to the spool.\<close>

definition sync_round :: "sync_env \<Rightarrow> string \<Rightarrow> sync_state \<Rightarrow> sync_state" where
  "sync_round env machine_id s =
     (let px = sx_parse env;
          syncer = snd (check_rotation (sx_dir env) (sl_syncer s));
          (raw_events, new_offset) = read_new_events px (sx_dir env) syncer;
          (raw_fail_open, fail_open_line_count) = fail_open_read px (sl_fail_open s);
          fail_open_events = filter_fail_open_in_scope px syncer raw_fail_open;
          events = List.map_filter (px_event px) (raw_events @ fail_open_events);
          records = filter_records_in_scope px syncer (sx_records env);
          s = s\<lparr>sl_syncer := syncer\<rparr>;
          committed = s\<lparr>sl_syncer := commit_read new_offset syncer\<rparr>
      in if events = [] \<and> records = [] then committed
         else if has_pending_join env events records then s
         else
           (let (entries, synced_record_ids) = build_entries env events records
            in if entries = [] then committed
               else
                 (let batch = build_batch (sx_uuid env) syncer entries machine_id;
                      (verdict, failures) = classify_send_outcome (sx_send env batch) (sl_failures s);
                      s = s\<lparr>sl_failures := failures, sl_fail_open := sl_fail_open s @ sx_appended env\<rparr>
                  in case verdict of
                       Sent \<Rightarrow>
                         s\<lparr>sl_syncer := commit_read new_offset syncer,
                           sl_fail_open := (if fail_open_events \<noteq> []
                                            then fail_open_drain fail_open_line_count (sl_fail_open s)
                                            else sl_fail_open s),
                           sl_saved_cursor := Some (es_cursor (commit_read new_offset syncer)),
                           sl_synced := sl_synced s @ synced_record_ids,
                           sl_last_sync := Some (sx_now env),
                           sl_sent := sl_sent s @ [batch]\<rparr>
                     | EnrollmentError \<Rightarrow> s\<lparr>sl_errored := Some machine_id\<rparr>
                     | RelayUnavailable \<Rightarrow> s
                     | Retrying \<Rightarrow> s)))"

definition sync_tick :: "sync_env \<Rightarrow> sync_state \<Rightarrow> sync_state" where
  "sync_tick env s =
     (case sx_credentials env of
        None \<Rightarrow> s\<lparr>sl_failures := 0, sl_errored := None\<rparr>
      | Some (machine_id, _) \<Rightarrow>
          if sl_errored s = Some machine_id then s
          else sync_round env machine_id
                 (if sl_errored s \<noteq> None then s\<lparr>sl_errored := None, sl_failures := 0\<rparr> else s))"

section \<open>Lemmas on the reader\<close>

text \<open>The specification of the reader: the log is a sequence of lines, and each contributes its
  event.\<close>

function log_lines :: "string \<Rightarrow> string list" where
  "log_lines bs = (if bs = [] then [] else fst (split_line bs) # log_lines (snd (split_line bs)))"
  by pat_completeness auto
termination
  by (relation "measure length") (auto simp: split_line_less)

declare log_lines.simps [simp del]

lemma log_lines_Nil [simp]: "log_lines [] = []"
  by (simp add: log_lines.simps)

definition log_events :: "parse_env \<Rightarrow> SyncScope \<Rightarrow> string \<Rightarrow> string list" where
  "log_events px scope bs = concat (map (line_event px scope) (log_lines bs))"

definition complete :: "string \<Rightarrow> bool" where
  "complete bs \<longleftrightarrow> (bs = [] \<or> last bs = nl) \<and> (\<forall>l \<in> set (log_lines bs). valid_utf8 l)"

lemma split_line_concat: "fst (split_line bs) @ snd (split_line bs) = bs"
proof (cases "dropWhile (\<lambda>c. c \<noteq> nl) bs")
  case Nil
  then show ?thesis by (simp add: split_line_def Let_def dropWhile_eq_Nil_conv takeWhile_eq_all_conv)
next
  case (Cons a list)
  then have "a = nl" using hd_dropWhile[of "\<lambda>c. c \<noteq> nl" bs] by simp
  moreover have "bs = takeWhile (\<lambda>c. c \<noteq> nl) bs @ a # list" using Cons by (metis takeWhile_dropWhile_id)
  ultimately show ?thesis using Cons by (simp add: split_line_def Let_def)
qed

lemma split_line_append:
  assumes "nl \<in> set xs"
  shows "split_line (xs @ ys) = (fst (split_line xs), snd (split_line xs) @ ys)"
proof -
  have "dropWhile (\<lambda>c. c \<noteq> nl) xs \<noteq> []" using assms by (auto simp: dropWhile_eq_Nil_conv)
  moreover have "takeWhile (\<lambda>c. c \<noteq> nl) (xs @ ys) = takeWhile (\<lambda>c. c \<noteq> nl) xs"
      "dropWhile (\<lambda>c. c \<noteq> nl) (xs @ ys) = dropWhile (\<lambda>c. c \<noteq> nl) xs @ ys"
    using assms by (auto simp: takeWhile_append1 dropWhile_append1)
  ultimately show ?thesis by (auto simp: split_line_def Let_def)
qed

lemma log_lines_append:
  "xs = [] \<or> last xs = nl \<Longrightarrow> log_lines (xs @ ys) = log_lines xs @ log_lines ys"
proof (induction xs rule: log_lines.induct)
  case (1 xs)
  show ?case
  proof (cases "xs = []")
    case False
    with 1(2) have nl: "nl \<in> set xs" using last_in_set by fastforce
    have rest: "snd (split_line xs) = [] \<or> last (snd (split_line xs)) = nl"
      using 1(2) False split_line_concat[of xs] by (metis last_appendR)
    from 1(1)[OF False rest] False show ?thesis
      by (simp add: log_lines.simps[of "xs @ ys"] log_lines.simps[of xs] split_line_append[OF nl])
  qed simp
qed

lemma read_loop_spec:
  "(\<forall>l \<in> set (log_lines bs). valid_utf8 l) \<Longrightarrow> read_loop px scope bs = (log_events px scope bs, length bs)"
proof (induction px scope bs rule: read_loop.induct)
  case (1 px scope bs)
  show ?case
  proof (cases "bs = []")
    case False
    obtain l r where lr: "split_line bs = (l, r)" by fastforce
    have ll: "log_lines bs = l # log_lines r" using False lr by (simp add: log_lines.simps[of bs])
    with 1(2) have "valid_utf8 l" "\<forall>l \<in> set (log_lines r). valid_utf8 l" by auto
    with 1(1)[OF False lr[symmetric] refl] have "read_loop px scope r = (log_events px scope r, length r)"
      by simp
    with False lr ll \<open>valid_utf8 l\<close> split_line_concat[of bs] show ?thesis
      by (simp add: read_loop.simps[of px scope bs] log_events_def)
        (metis fst_conv length_append snd_conv split_line_concat)
  qed (simp add: read_loop.simps[of px scope "[]"] log_events_def)
qed

text \<open>Appending to the log and reading it, in turns.\<close>

fun reads :: "parse_env \<Rightarrow> nat \<Rightarrow> EventSyncer \<Rightarrow> string \<Rightarrow> string list \<Rightarrow> string list" where
  "reads px inode es bytes [] = []"
| "reads px inode es bytes (chunk # chunks) =
     (let dir = [(cu_filename (es_cursor es), inode, bytes @ chunk)];
          (evs, offset) = read_new_events px dir es
      in evs @ reads px inode (commit_read offset es) (bytes @ chunk) chunks)"

section \<open>Lemmas on a round\<close>

text \<open>What a round reads: the events of the log and of the spool, and the records.\<close>

definition round_syncer :: "sync_env \<Rightarrow> sync_state \<Rightarrow> EventSyncer" where
  "round_syncer env s = snd (check_rotation (sx_dir env) (sl_syncer s))"

definition round_raw :: "sync_env \<Rightarrow> sync_state \<Rightarrow> string list" where
  "round_raw env s = fst (read_new_events (sx_parse env) (sx_dir env) (round_syncer env s)) @
     filter_fail_open_in_scope (sx_parse env) (round_syncer env s)
       (fst (fail_open_read (sx_parse env) (sl_fail_open s)))"

definition round_events :: "sync_env \<Rightarrow> sync_state \<Rightarrow> Event list" where
  "round_events env s = List.map_filter (px_event (sx_parse env)) (round_raw env s)"

definition round_records :: "sync_env \<Rightarrow> sync_state \<Rightarrow> GatewayRecord list" where
  "round_records env s = filter_records_in_scope (sx_parse env) (round_syncer env s) (sx_records env)"

lemma check_rotation_scope [simp]: "es_scope (snd (check_rotation dir es)) = es_scope es"
  by (auto simp: check_rotation_def set_file_def Let_def split: option.splits prod.splits)

lemma round_scope [simp]: "es_scope (round_syncer env s) = es_scope (sl_syncer s)"
  by (simp add: round_syncer_def)

lemma sync_round_cases:
  obtains
    (idle) off where "round_events env s = []" "round_records env s = []"
      "sync_round env m s = s\<lparr>sl_syncer := commit_read off (round_syncer env s)\<rparr>"
  | (deferred) "sync_round env m s = s\<lparr>sl_syncer := round_syncer env s\<rparr>"
      "has_pending_join env (round_events env s) (round_records env s)"
  | (empty) off where "fst (build_entries env (round_events env s) (round_records env s)) = []"
      "sync_round env m s = s\<lparr>sl_syncer := commit_read off (round_syncer env s)\<rparr>"
  | (unsent) e fl err where "sx_send env (build_batch (sx_uuid env) (round_syncer env s)
        (fst (build_entries env (round_events env s) (round_records env s))) m) = Inl e"
      "sync_round env m s = s\<lparr>sl_syncer := round_syncer env s, sl_failures := fl,
         sl_fail_open := sl_fail_open s @ sx_appended env, sl_errored := err\<rparr>"
  | (sent) s' u where "sync_round env m s = s'"
      "sx_send env (build_batch (sx_uuid env) (round_syncer env s)
        (fst (build_entries env (round_events env s) (round_records env s))) m) = Inr u"
      "sl_sent s' = sl_sent s @ [build_batch (sx_uuid env) (round_syncer env s)
         (fst (build_entries env (round_events env s) (round_records env s))) m]"
proof -
  obtain raw off where r: "read_new_events (sx_parse env) (sx_dir env) (round_syncer env s) = (raw, off)"
    by fastforce
  obtain fo n where f: "fail_open_read (sx_parse env) (sl_fail_open s) = (fo, n)" by fastforce
  obtain en ids where b: "build_entries env (round_events env s) (round_records env s) = (en, ids)" by fastforce
  let ?batch = "build_batch (sx_uuid env) (round_syncer env s) en m"
  have ev: "round_events env s = List.map_filter (px_event (sx_parse env))
      (raw @ filter_fail_open_in_scope (sx_parse env) (round_syncer env s) fo)"
    by (simp add: round_events_def round_raw_def r f)
  note unf = sync_round_def Let_def round_syncer_def[symmetric] r f ev[symmetric] round_records_def[symmetric] b
  show thesis
  proof (cases "round_events env s = [] \<and> round_records env s = []")
    case True
    then have "sync_round env m s = s\<lparr>sl_syncer := commit_read off (round_syncer env s)\<rparr>" by (simp add: unf)
    from idle[OF _ _ this] True show thesis by simp
  next
    case False
    show thesis
    proof (cases "has_pending_join env (round_events env s) (round_records env s)")
      case True
      with False have "sync_round env m s = s\<lparr>sl_syncer := round_syncer env s\<rparr>" by (auto simp: unf)
      from deferred[OF this True] show thesis .
    next
      case np: False
      show thesis
      proof (cases "en = []")
        case True
        with False np have "sync_round env m s = s\<lparr>sl_syncer := commit_read off (round_syncer env s)\<rparr>"
          by (simp add: unf)
        from empty[OF _ this] True b show thesis by simp
      next
        case ne: False
        show thesis
        proof (cases "sx_send env ?batch")
          case (Inl e)
          obtain v fl where v: "classify_send_outcome (Inl e) (sl_failures s) = (v, fl)" by fastforce
          have "v \<noteq> Sent" using v
            by (auto simp: classify_send_outcome_def Let_def split: SendError.splits if_splits)
          have "\<exists>err. sync_round env m s = s\<lparr>sl_syncer := round_syncer env s, sl_failures := fl,
              sl_fail_open := sl_fail_open s @ sx_appended env, sl_errored := err\<rparr>"
            using False np ne Inl v \<open>v \<noteq> Sent\<close>
            by (cases v) (auto simp: unf intro!: exI[of _ "if v = EnrollmentError then Some m else sl_errored s"])
          then obtain err where "sync_round env m s = s\<lparr>sl_syncer := round_syncer env s, sl_failures := fl,
              sl_fail_open := sl_fail_open s @ sx_appended env, sl_errored := err\<rparr>" by blast
          from unsent[OF _ this] Inl b show thesis by simp
        next
          case (Inr u)
          with False np ne have "sl_sent (sync_round env m s) = sl_sent s @ [?batch]"
            by (simp add: unf classify_send_outcome_def)
          from sent[OF refl] this Inr b show thesis by simp
        qed
      qed
    qed
  qed
qed

lemma read_loop_in_scope:
  "raw \<in> set (fst (read_loop px scope bs)) \<Longrightarrow>
     \<exists>t e cov. px_event px t = Some e \<and> is_in_scope (px_owner_only px) scope (ev_working_dir e) \<and>
       raw = patch_coverage_state px t cov"
proof (induction px scope bs rule: read_loop.induct)
  case (1 px scope bs)
  obtain l r where lr: "split_line bs = (l, r)" by fastforce
  show ?case
  proof (cases "bs = [] \<or> \<not> valid_utf8 l")
    case True
    with 1(2) lr show ?thesis by (auto simp: read_loop.simps[of px scope bs] split: if_splits)
  next
    case False
    then consider "raw \<in> set (line_event px scope l)" | "raw \<in> set (fst (read_loop px scope r))"
      using 1(2) lr by (auto simp: read_loop.simps[of px scope bs] split: prod.splits)
    then show ?thesis
    proof cases
      case 1
      then show ?thesis
        by (auto simp: line_event_def Let_def split: if_splits option.splits) (metis option.sel)
    next
      case 2
      with 1(1)[OF _ lr[symmetric] refl] False show ?thesis by auto
    qed
  qed
qed

text \<open>Printing an event's line with another coverage keeps it readable, in the same directory.\<close>

definition patch_readable :: "parse_env \<Rightarrow> bool" where
  "patch_readable px \<longleftrightarrow>
     (\<forall>raw cov e. px_event px raw = Some e \<longrightarrow>
        (\<exists>e'. px_event px (patch_coverage_state px raw cov) = Some e' \<and> ev_working_dir e' = ev_working_dir e))"

lemma round_events_in_scope:
  assumes "patch_readable (sx_parse env)" and "e \<in> set (round_events env s)"
  shows "is_in_scope (px_owner_only (sx_parse env)) (es_scope (sl_syncer s)) (ev_working_dir e)"
proof -
  let ?px = "sx_parse env"
  obtain raw where raw: "raw \<in> set (round_raw env s)" and e: "px_event ?px raw = Some e"
    using assms(2) by (auto simp: round_events_def List.map_filter_def)
  from raw consider
      "raw \<in> set (fst (read_new_events ?px (sx_dir env) (round_syncer env s)))"
    | "raw \<in> set (filter_fail_open_in_scope ?px (round_syncer env s) (fst (fail_open_read ?px (sl_fail_open s))))"
    by (auto simp: round_raw_def)
  then show ?thesis
  proof cases
    case 1
    then obtain bs where "raw \<in> set (fst (read_loop ?px (es_scope (sl_syncer s)) bs))"
      by (auto simp: read_new_events_def Let_def split: option.splits prod.splits) (metis fst_conv)
    from read_loop_in_scope[OF this] assms(1) e show ?thesis
      by (auto simp: patch_readable_def) (metis option.inject)
  next
    case 2
    with e show ?thesis by (auto simp: filter_fail_open_in_scope_def)
  qed
qed

lemma build_entries_dirs:
  "en \<in> set (fst (build_entries env evs recs)) \<Longrightarrow>
     (\<exists>e \<in> set evs. te_working_dir en = ev_working_dir e) \<or> (\<exists>r \<in> set recs. te_working_dir en = gr_working_dir r)"
  by (auto simp: build_entries_def Let_def entry_from_event_def row_from_event_def entry_from_orphan_record_def)

definition demo_event :: Event where
  "demo_event = \<lparr>ev_id = ''e'', ev_timestamp = ''t'', ev_agent = ''a'', ev_action = Execute, ev_detail = ''ls'',
     ev_decision = DAuto, ev_rule_kind = None, ev_rule_id = None, ev_working_dir = Some ''/w'',
     ev_trace_id = None, ev_git_remote_origin = None, ev_session = None, ev_attribution_method = Lineage,
     ev_coverage_state = UnknownCoverage, ev_mode = ''enforce'', ev_resource_class = None,
     ev_grantable = None, ev_segments = []\<rparr>"

definition demo_px :: parse_env where
  "demo_px = \<lparr>px_event = (\<lambda>t. if t = ''EF'' then Some demo_event else None), px_map = (\<lambda>t. None),
     px_print = (\<lambda>v. []), px_raw_valid = (\<lambda>t. False), px_owner_only = (\<lambda>p. False)\<rparr>"

definition demo_syncer :: EventSyncer where
  "demo_syncer = \<lparr>es_cursor = \<lparr>cu_filename = active_file, cu_byte_offset = 0\<rparr>,
     es_scope = \<lparr>sy_patterns = [], sy_home = None\<rparr>, es_active_file_inode = Some 7\<rparr>"

definition demo_sync :: sync_env where
  "demo_sync = \<lparr>sx_parse = demo_px, sx_dir = [(active_file, 7, [])], sx_action_str = (\<lambda>a. ''x''),
     sx_home_var = None, sx_age = (\<lambda>t. None), sx_orphan_grace = 60000, sx_now = ''t'', sx_uuid = ''u'',
     sx_credentials = Some (''m'', ''tok''), sx_records = [demo_record], sx_send = (\<lambda>b. Inr ()),
     sx_appended = []\<rparr>"

definition demo_loop :: sync_state where
  "demo_loop = \<lparr>sl_syncer = demo_syncer, sl_failures = 0, sl_errored = None, sl_fail_open = [],
     sl_saved_cursor = None, sl_synced = [], sl_last_sync = None, sl_sent = []\<rparr>"

lemma demo_patch_readable: "patch_readable demo_px"
  by (simp add: patch_readable_def patch_coverage_state_def demo_px_def Let_def)

lemma demo_rotation:
  "check_rotation [(active_file, 7, bs)] demo_syncer = (False, demo_syncer)"
  by (simp add: check_rotation_def demo_syncer_def file_inode_def Let_def)

lemma demo_scope_w: "is_in_scope (px_owner_only demo_px) (es_scope demo_syncer) (Some ''/w'')"
  by (simp add: is_in_scope_def demo_syncer_def demo_px_def is_private_def is_hidden_def path_of_def slash_def
      Let_def)

lemma demo_round:
  assumes "sx_dir env = [(active_file, 7, [])]" and "sx_parse env = demo_px" and "sx_records env = [demo_record]"
  shows "round_syncer env demo_loop = demo_syncer \<and> round_events env demo_loop = [] \<and>
     round_records env demo_loop = [demo_record]"
proof -
  have r: "round_syncer env demo_loop = demo_syncer"
    using assms by (simp add: round_syncer_def demo_loop_def demo_rotation)
  have "read_loop demo_px sc [] = ([], 0)" for sc by (simp add: read_loop.simps)
  then have "round_raw env demo_loop = []"
    using assms r
    by (simp add: round_raw_def read_new_events_def demo_loop_def fail_open_read_def spool_lines_def
        lines_def filter_fail_open_in_scope_def)
  then show ?thesis
    using assms r demo_scope_w
    by (simp add: round_events_def round_records_def filter_records_in_scope_def List.map_filter_def)
      (simp add: demo_record_def)
qed

lemma demo_entries:
  "fst (build_entries demo_sync [] [demo_record]) = [entry_from_orphan_record demo_record]"
  by (simp add: build_entries_def is_orphan_def demo_sync_def List.map_filter_def Let_def)

section \<open>Properties\<close>

text \<open>
  C23. Only what is in scope leaves the machine: every entry of every batch that a round hands to the
  relay comes from a directory in scope, hence (with the scope matcher) from no private one; events
  of the log, spooled fail-open events and gateway records alike.
\<close>
theorem synced_entries_in_scope:
  assumes "patch_readable (sx_parse env)" and "b \<in> set (sl_sent (sync_tick env s))" and "b \<notin> set (sl_sent s)"
    and "en \<in> set (tb_entries b)"
  shows "is_in_scope (px_owner_only (sx_parse env)) (es_scope (sl_syncer s)) (te_working_dir en)"
proof -
  define s0 where "s0 = (if sl_errored s \<noteq> None then s\<lparr>sl_errored := None, sl_failures := 0\<rparr> else s)"
  have s0: "sl_sent s0 = sl_sent s" "sl_syncer s0 = sl_syncer s" by (simp_all add: s0_def)
  obtain m where "b \<in> set (sl_sent (sync_round env m s0))"
    using assms(2,3) by (auto simp: sync_tick_def s0_def split: option.splits if_splits)
  then have "en \<in> set (fst (build_entries env (round_events env s0) (round_records env s0)))"
    using assms(3,4) s0
    by (cases rule: sync_round_cases[of env s0 m]) (auto simp: build_batch_def)
  from build_entries_dirs[OF this] show ?thesis
    using round_events_in_scope[OF assms(1), of _ s0] s0
    by (auto simp: round_records_def filter_records_in_scope_def)
qed

theorem synced_entries_in_scope_witness:
  "is_in_scope (px_owner_only demo_px) (es_scope demo_syncer) (te_working_dir (entry_from_orphan_record demo_record))"
proof -
  note d = demo_round[of demo_sync]
  have dd: "round_syncer demo_sync demo_loop = demo_syncer" "round_events demo_sync demo_loop = []"
      "round_records demo_sync demo_loop = [demo_record]"
    using d by (simp_all add: demo_sync_def)
  let ?b = "build_batch (sx_uuid demo_sync) demo_syncer [entry_from_orphan_record demo_record] ''m''"
  have "sync_tick demo_sync demo_loop = sync_round demo_sync ''m'' demo_loop"
    by (simp add: sync_tick_def demo_sync_def demo_loop_def)
  moreover have "?b \<in> set (sl_sent (sync_round demo_sync ''m'' demo_loop))"
  proof (cases rule: sync_round_cases[of demo_sync demo_loop "''m''"])
    case (unsent e fl err)
    then show ?thesis by (simp add: demo_sync_def)
  qed (simp_all add: dd demo_entries has_pending_join_def)
  ultimately have b: "?b \<in> set (sl_sent (sync_tick demo_sync demo_loop))" by simp
  have e: "entry_from_orphan_record demo_record \<in> set (tb_entries ?b)" by (simp add: build_batch_def)
  have "patch_readable (sx_parse demo_sync)" "?b \<notin> set (sl_sent demo_loop)"
    by (simp_all add: demo_sync_def demo_patch_readable demo_loop_def)
  from synced_entries_in_scope[OF this(1) b this(2) e] show ?thesis
    by (simp add: demo_sync_def demo_loop_def)
qed

text \<open>
  C24. The log is read line by line, each line once: if the log grows by whole lines and is read and
  committed after each growth, the events delivered are exactly the in-scope events of the whole
  log, in order, without loss and without repetition, however the growth is cut into rounds.
\<close>
theorem sync_reads_each_line_once:
  assumes "cu_byte_offset (es_cursor es) = length bytes" and "\<forall>c \<in> set chunks. complete c"
  shows "reads px inode es bytes chunks = log_events px (es_scope es) (concat chunks)"
  using assms
proof (induction chunks arbitrary: es bytes)
  case Nil
  then show ?case by (simp add: log_events_def)
next
  case (Cons c cs)
  have c: "complete c" using Cons.prems by simp
  then have r: "read_new_events px [(cu_filename (es_cursor es), inode, bytes @ c)] es
      = (log_events px (es_scope es) c, length (bytes @ c))"
    using Cons.prems by (simp add: read_new_events_def read_loop_spec complete_def)
  have "log_events px (es_scope es) (c @ concat cs) = log_events px (es_scope es) c @ log_events px (es_scope es) (concat cs)"
    using c log_lines_append[of c "concat cs"] by (simp add: complete_def log_events_def)
  with r Cons show ?case by (simp add: commit_read_def)
qed

lemma demo_line: "log_lines [CHR ''E'', CHR ''F'', CHR 10] = [[CHR ''E'', CHR ''F'', CHR 10]]"
  by (simp add: log_lines.simps[of "_ # _"] split_line_def nl_def)

theorem sync_reads_each_line_once_witness:
  "reads demo_px 1 demo_syncer [] [[CHR ''E'', CHR ''F'', CHR 10], [CHR ''E'', CHR ''F'', CHR 10]]
     = log_events demo_px (es_scope demo_syncer) [CHR ''E'', CHR ''F'', CHR 10, CHR ''E'', CHR ''F'', CHR 10]"
  using sync_reads_each_line_once[of demo_syncer "[]"
      "[[CHR ''E'', CHR ''F'', CHR 10], [CHR ''E'', CHR ''F'', CHR 10]]" demo_px 1]
  by (simp add: complete_def demo_line nl_def byte_in_def) (simp add: demo_syncer_def)

text \<open>
  A line that is still being written is lost: when a round reads the first part of a line before
  the rest is there, the part is consumed, and the event is delivered neither by this round nor by
  the next, although one read of the whole line would deliver it.
\<close>
theorem partial_line_is_lost:
  assumes "cu_byte_offset (es_cursor es) = 0" and "p \<noteq> []" and "nl \<notin> set p" and "nl \<notin> set q"
    and "valid_utf8 p" and "valid_utf8 (q @ [nl])" and "valid_utf8 (p @ q @ [nl])"
    and "px_event px (trim p) = None" and "px_event px (trim (q @ [nl])) = None"
  shows "reads px inode es [] [p, q @ [nl]] = [] \<and>
     reads px inode es [] [p @ q @ [nl]] = line_event px (es_scope es) (p @ q @ [nl])"
proof -
  have sp: "split_line p = (p, [])"
    using assms(3) by (auto simp: split_line_def takeWhile_eq_all_conv dropWhile_eq_Nil_conv Let_def)
  have sl: "split_line (x @ [nl]) = (x @ [nl], [])" if "nl \<notin> set x" for x
    using that by (induction x) (auto simp: split_line_def Let_def split: if_splits)
  have one: "read_loop px (es_scope es) bs = (line_event px (es_scope es) bs, length bs)"
    if "bs \<noteq> []" "split_line bs = (bs, [])" "valid_utf8 bs" for bs
    using that by (simp add: read_loop.simps[of px _ bs] read_loop.simps[of px _ "[]"])
  have "line_event px (es_scope es) p = []" "line_event px (es_scope es) (q @ [nl]) = []"
    using assms(8,9) by (auto simp: line_event_def Let_def)
  moreover have "split_line (p @ q @ [nl]) = (p @ q @ [nl], [])" using sl[of "p @ q"] assms(3,4) by simp
  ultimately show ?thesis
    using assms one[of p] one[of "q @ [nl]"] one[of "p @ q @ [nl]"] sp sl[OF assms(4)]
    by (simp add: read_new_events_def commit_read_def)
qed

lemma demo_trim:
  "trim ''E'' = ''E''" "trim [CHR ''F'', CHR 10] = ''F''"
  by (simp_all add: trim_def trim_start.simps[of "_ # _"] trim_end.simps[of "''E''"] trim_end.simps[of "''F''"]
      trim_end.simps[of "[CHR ''F'', CHR 10]"] white_space_def suffix_to_prefix char_of_def bit_0)

theorem partial_line_is_lost_witness:
  "reads demo_px 1 demo_syncer [] [''E'', [CHR ''F'', CHR 10]] = [] \<and>
   reads demo_px 1 demo_syncer [] [[CHR ''E'', CHR ''F'', CHR 10]]
     = line_event demo_px (es_scope demo_syncer) [CHR ''E'', CHR ''F'', CHR 10]"
  using partial_line_is_lost[of demo_syncer "''E''" "''F''" demo_px 1]
  by (simp add: nl_def byte_in_def demo_trim[unfolded nl_def]) (simp add: demo_syncer_def demo_px_def)

text \<open>
  C39. A round that cannot deliver keeps its work, as long as the log was not rotated since the round
  before: when the relay refuses or cannot be reached, no batch counts as sent, no record is marked, the
  spool only grows, and the cursor stays where it is unless the round had nothing to ship. (After a
  rotation the cursor moves to the new file also when nothing was delivered, and the unsent tail is
  skipped: \<open>rotated_tail_is_skipped\<close>.)
\<close>
theorem failed_round_keeps_queue:
  assumes "sx_credentials env = Some (m, tok)" and "\<And>batch. \<exists>e. sx_send env batch = Inl e"
    and "check_rotation (sx_dir env) (sl_syncer s) = (False, sl_syncer s)"
  shows "sl_sent (sync_tick env s) = sl_sent s \<and> sl_synced (sync_tick env s) = sl_synced s \<and>
     sl_saved_cursor (sync_tick env s) = sl_saved_cursor s \<and>
     prefix (sl_fail_open s) (sl_fail_open (sync_tick env s)) \<and>
     (es_cursor (sl_syncer (sync_tick env s)) = es_cursor (sl_syncer s) \<or>
      fst (build_entries env (round_events env s) (round_records env s)) = [])"
proof (cases "sl_errored s = Some m")
  case True
  with assms(1) show ?thesis by (simp add: sync_tick_def)
next
  case False
  define s0 where "s0 = (if sl_errored s \<noteq> None then s\<lparr>sl_errored := None, sl_failures := 0\<rparr> else s)"
  have s0: "sl_sent s0 = sl_sent s" "sl_syncer s0 = sl_syncer s" "sl_synced s0 = sl_synced s"
      "sl_saved_cursor s0 = sl_saved_cursor s" "sl_fail_open s0 = sl_fail_open s"
    by (simp_all add: s0_def)
  have rd: "round_syncer env s0 = sl_syncer s" "round_syncer env s = sl_syncer s"
    using assms(3) s0 by (simp_all add: round_syncer_def)
  have ev: "round_events env s0 = round_events env s" "round_records env s0 = round_records env s"
    by (simp_all add: round_events_def round_raw_def round_records_def rd s0)
  have tick: "sync_tick env s = sync_round env m s0"
    using assms(1) False by (simp add: sync_tick_def s0_def)
  have nil: "fst (build_entries env [] []) = []" by (simp add: build_entries_def Let_def)
  show ?thesis
  proof (cases rule: sync_round_cases[of env s0 m])
    case (sent s' u)
    with assms(2) show ?thesis by (metis Inl_Inr_False)
  qed (auto simp: tick s0 rd ev nil)
qed

theorem failed_round_keeps_queue_witness:
  "sl_sent (sync_tick (demo_sync\<lparr>sx_send := (\<lambda>b. Inl (Status 503))\<rparr>) demo_loop) = []"
  using failed_round_keeps_queue[of "demo_sync\<lparr>sx_send := (\<lambda>b. Inl (Status 503))\<rparr>" "''m''" "''tok''" demo_loop]
    demo_rotation[of "[]"]
  by (simp add: demo_sync_def demo_loop_def)

text \<open>
  The tail of a rotated log is skipped when its delivery fails: the round that finds the log
  rotated moves to the rotated file and keeps its offset there, but if the relay does not take the
  batch, the next round goes straight to the start of the new log, whatever was left unsent.
\<close>
theorem rotated_tail_is_skipped:
  assumes "sx_credentials env = Some (m, tok)" and "sl_errored s = None"
    and "\<And>batch. \<exists>e. sx_send env batch = Inl e"
    and "cu_filename (es_cursor (round_syncer env s)) \<noteq> active_file"
    and "fst (build_entries env (round_events env s) (round_records env s)) \<noteq> []"
    and "map_of (sx_dir env') active_file = Some f"
  shows "es_cursor (sl_syncer (sync_tick env s)) = es_cursor (round_syncer env s) \<and>
     sl_sent (sync_tick env s) = sl_sent s \<and>
     es_cursor (round_syncer env' (sync_tick env s)) = \<lparr>cu_filename = active_file, cu_byte_offset = 0\<rparr>"
proof -
  have nil: "fst (build_entries env [] []) = []" by (simp add: build_entries_def Let_def)
  have "sync_tick env s = sync_round env m s" using assms(1,2) by (simp add: sync_tick_def)
  moreover have "sl_syncer (sync_round env m s) = round_syncer env s \<and> sl_sent (sync_round env m s) = sl_sent s"
  proof (cases rule: sync_round_cases[of env s m])
    case (sent s' u)
    with assms(3) show ?thesis by (metis Inl_Inr_False)
  qed (use assms(5) nil in auto)
  ultimately show ?thesis
    using assms(4,6) by (simp add: round_syncer_def[of env'] check_rotation_def Let_def)
qed

definition demo_rotated :: sync_env where
  "demo_rotated = demo_sync\<lparr>sx_dir := [(active_file, 2, []), (''events-1.jsonl'', 7, ''EF'')],
     sx_send := (\<lambda>b. Inl (Status 503))\<rparr>"

lemma demo_rotated_syncer:
  "round_syncer demo_rotated demo_loop = set_file ''events-1.jsonl'' demo_syncer"
  by (simp add: round_syncer_def demo_rotated_def demo_loop_def check_rotation_def demo_syncer_def file_inode_def
      find_file_by_inode_def is_log_file_def rsplit_once_def eq_ignore_ascii_case_def active_file_def opt_or_def
      Let_def)

theorem rotated_tail_is_skipped_witness:
  "es_cursor (round_syncer demo_rotated (sync_tick demo_rotated demo_loop))
     = \<lparr>cu_filename = active_file, cu_byte_offset = 0\<rparr>"
proof -
  have r: "demo_record \<in> set (round_records demo_rotated demo_loop)"
    using demo_scope_w
    by (simp add: round_records_def demo_rotated_syncer filter_records_in_scope_def set_file_def)
      (simp add: demo_rotated_def demo_sync_def demo_record_def)
  have "fst (build_entries demo_rotated evs recs) \<noteq> []"
    if "demo_record \<in> set recs" "\<forall>e \<in> set evs. ev_trace_id e = None" for evs recs
    using that by (auto simp: build_entries_def is_orphan_def demo_rotated_def demo_sync_def Let_def
        List.map_filter_def filter_empty_conv)
  moreover have "\<forall>e \<in> set (round_events demo_rotated demo_loop). ev_trace_id e = None"
    by (auto simp: round_events_def List.map_filter_def demo_rotated_def demo_sync_def demo_px_def demo_event_def
        split: if_splits)
  ultimately have ne: "fst (build_entries demo_rotated (round_events demo_rotated demo_loop)
      (round_records demo_rotated demo_loop)) \<noteq> []" using r by blast
  show ?thesis
    using rotated_tail_is_skipped[of demo_rotated "''m''" "''tok''" demo_loop demo_rotated "(2, [])"] ne
    by (simp add: demo_rotated_syncer) (simp add: demo_rotated_def demo_sync_def demo_loop_def set_file_def
        active_file_def)
qed

end
