(* ===== verification/ConfigPatch.thy ===== *)
theory ConfigPatch
  imports Complex_Main Prelude
begin

text \<open>
  Structural diff and patch-unapply of configuration trees, \<^verbatim>\<open>cli/src/json_patch_ops.rs\<close> and its twin
  \<^verbatim>\<open>cli/src/toml_patch.rs\<close>. The two files are the same algorithm on \<^verbatim>\<open>serde_json::Value\<close> and on
  \<^verbatim>\<open>toml::Value\<close>; the model is one, over trees with scalars of any type. Objects are association lists
  in the order of the file; \<^verbatim>\<open>==\<close> on them ignores the order (\<open>veq\<close>), and so does every theorem. A TOML
  scalar that is not equal to itself (a float that is not a number) is outside the model.
\<close>

section \<open>Trees\<close>

datatype 's vtree = VLeaf 's | VArr "'s vtree list" | VObj "(string \<times> 's vtree) list"

lemma vtree_size_obj [termination_simp]:
  "(k, v) \<in> set kvs \<Longrightarrow> size v < Suc (size_list (size_prod (\<lambda>x. 0) size) kvs)"
  by (induction kvs) auto

text \<open>The scalars of the two formats.\<close>

datatype json_scalar = SNull | SBool bool | SInt int | SFloat rat | SStr string

datatype toml_scalar = TBool bool | TInt int | TFloat rat | TStr string | TDatetime string

type_synonym json_value = "json_scalar vtree"
type_synonym toml_value = "toml_scalar vtree"

text \<open>The format only shows in the texts of warnings.\<close>

datatype tree_format = JsonFormat | TomlFormat

fun noun :: "tree_format \<Rightarrow> string" where
  "noun JsonFormat = ''object''"
| "noun TomlFormat = ''table''"

fun a_noun :: "tree_format \<Rightarrow> string" where
  "a_noun JsonFormat = ''an object''"
| "a_noun TomlFormat = ''a table''"

fun as_obj :: "'s vtree \<Rightarrow> (string \<times> 's vtree) list option" where
  "as_obj (VObj kvs) = Some kvs"
| "as_obj _ = None"

text \<open>\<^verbatim>\<open>PartialEq\<close> of the value types: maps are equal if they have as many entries and each key of the first
  has an equal value in the second.\<close>

fun veq :: "'s vtree \<Rightarrow> 's vtree \<Rightarrow> bool" where
  "veq (VLeaf a) (VLeaf b) = (a = b)"
| "veq (VArr xs) (VArr ys) = list_all2 veq xs ys"
| "veq (VObj xs) (VObj ys) =
     (length xs = length ys \<and> list_all (\<lambda>(k, v). case map_of ys k of None \<Rightarrow> False | Some w \<Rightarrow> veq v w) xs)"
| "veq _ _ = False"

section \<open>Diff\<close>

datatype 's patch_op =
    OpAdd "string list" "'s vtree"
  | OpReplace "string list" "'s vtree"
  | OpRemove "string list" "'s vtree"

type_synonym JsonOp = "json_scalar patch_op"
type_synonym TomlOp = "toml_scalar patch_op"

definition child_path :: "string list \<Rightarrow> string \<Rightarrow> string list" where
  "child_path prefx key = prefx @ [key]"

fun diff_recursive :: "string list \<Rightarrow> 's vtree \<Rightarrow> 's vtree \<Rightarrow> 's patch_op list" where
  "diff_recursive prefx (VObj old_m) (VObj new_m) =
     concat (map (\<lambda>(key, new_val).
        case map_of old_m key of
          Some old_val \<Rightarrow> if veq old_val new_val then [] else diff_recursive (child_path prefx key) old_val new_val
        | None \<Rightarrow> [OpAdd (child_path prefx key) new_val]) new_m)
     @ map (\<lambda>(key, old_val). OpRemove (child_path prefx key) old_val)
         (filter (\<lambda>(key, old_val). map_of new_m key = None) old_m)"
| "diff_recursive prefx old new = (if \<not> veq old new then [OpReplace prefx old] else [])"

definition diff :: "'s vtree \<Rightarrow> 's vtree \<Rightarrow> 's patch_op list" where
  "diff old new = diff_recursive [] old new"

section \<open>Paths\<close>

definition fmt_path :: "string list \<Rightarrow> string" where
  "fmt_path path = join ''.'' path"

fun object_at :: "(string \<times> 's vtree) list \<Rightarrow> string list \<Rightarrow> (string \<times> 's vtree) list option" where
  "object_at cur [] = Some cur"
| "object_at cur (seg # path) =
     (case Option.bind (map_of cur seg) as_obj of None \<Rightarrow> None | Some c \<Rightarrow> object_at c path)"

definition object_at_path :: "'s vtree \<Rightarrow> string list \<Rightarrow> (string \<times> 's vtree) list option" where
  "object_at_path tree path = Option.bind (as_obj tree) (\<lambda>cur. object_at cur path)"

text \<open>Removal below an object: nothing happens when a segment is absent or not an object.\<close>

fun remove_in :: "(string \<times> 's vtree) list \<Rightarrow> string list \<Rightarrow> string \<Rightarrow> (string \<times> 's vtree) list" where
  "remove_in cur [] key = AList.delete key cur"
| "remove_in cur (seg # path) key =
     (case map_of cur seg of
        Some (VObj c) \<Rightarrow> AList.update seg (VObj (remove_in c path key)) cur
      | _ \<Rightarrow> cur)"

definition split_path :: "string list \<Rightarrow> string + (string list \<times> string)" where
  "split_path path = (if path = [] then Inl ''path is empty'' else Inr (butlast path, last path))"

definition remove_at_path :: "'s vtree \<Rightarrow> string list \<Rightarrow> string + 's vtree" where
  "remove_at_path tree path =
     (case split_path path of
        Inl e \<Rightarrow> Inl e
      | Inr (parent, key) \<Rightarrow>
          (case tree of VObj cur \<Rightarrow> Inr (VObj (remove_in cur parent key)) | _ \<Rightarrow> Inr tree))"

text \<open>Setting below an object: absent segments are created; a segment that is no object is an error, in
  which case nothing was changed, since only fmt lies below a created segment is created.\<close>

fun set_in :: "tree_format \<Rightarrow> (string \<times> 's vtree) list \<Rightarrow> string list \<Rightarrow> string \<Rightarrow> 's vtree \<Rightarrow> string + (string \<times> 's vtree) list" where
  "set_in fmt cur [] key value = Inr (AList.update key value cur)"
| "set_in fmt cur (seg # path) key value =
     (case map_of cur seg of
        None \<Rightarrow> (case set_in fmt [] path key value of
                   Inl e \<Rightarrow> Inl e | Inr c \<Rightarrow> Inr (AList.update seg (VObj c) cur))
      | Some (VObj c) \<Rightarrow> (case set_in fmt c path key value of
                           Inl e \<Rightarrow> Inl e | Inr c \<Rightarrow> Inr (AList.update seg (VObj c) cur))
      | Some _ \<Rightarrow> Inl ([CHR 39] @ seg @ [CHR 39] @ '' is not '' @ a_noun fmt))"

definition set_at_path :: "tree_format \<Rightarrow> 's vtree \<Rightarrow> string list \<Rightarrow> 's vtree \<Rightarrow> string + 's vtree" where
  "set_at_path fmt tree path value =
     (case split_path path of
        Inl e \<Rightarrow> Inl e
      | Inr (parent, key) \<Rightarrow>
          (case tree of
             VObj cur \<Rightarrow> (case set_in fmt cur parent key value of Inl e \<Rightarrow> Inl e | Inr c \<Rightarrow> Inr (VObj c))
           | _ \<Rightarrow> Inl (''root is not '' @ a_noun fmt)))"

section \<open>Unapply\<close>

fun unapply_add :: "tree_format \<Rightarrow> 's vtree \<Rightarrow> string list \<Rightarrow> 's vtree \<times> string list \<Rightarrow> 's vtree \<times> string list" where
  "unapply_add fmt (VObj added_m) path (tree, warnings) =
     (if path = [] then (tree, warnings)
      else
        let (tree, warnings) = fold (\<lambda>(key, child_val). unapply_add fmt child_val (child_path path key)) added_m (tree, warnings)
        in if object_at_path tree path = Some [] then
             case remove_at_path tree path of
               Inr tree \<Rightarrow> (tree, warnings)
             | Inl w \<Rightarrow> (tree, warnings @ [''cleanup empty '' @ noun fmt @ '' at '' @ fmt_path path @ '': '' @ w])
           else (tree, warnings))"
| "unapply_add fmt value path (tree, warnings) =
     (if path = [] then (tree, warnings)
      else case remove_at_path tree path of
             Inr tree \<Rightarrow> (tree, warnings)
           | Inl w \<Rightarrow> (tree, warnings @ [''remove at '' @ fmt_path path @ '': '' @ w]))"

fun unapply_op :: "tree_format \<Rightarrow> 's patch_op \<Rightarrow> 's vtree \<times> string list \<Rightarrow> 's vtree \<times> string list" where
  "unapply_op fmt (OpAdd path value) (tree, warnings) = unapply_add fmt value path (tree, warnings)"
| "unapply_op fmt (OpReplace path old) (tree, warnings) =
     (case set_at_path fmt tree path old of
        Inr tree \<Rightarrow> (tree, warnings)
      | Inl w \<Rightarrow> (tree, warnings @ [''replace at '' @ fmt_path path @ '': '' @ w]))"
| "unapply_op fmt (OpRemove path old) (tree, warnings) =
     (case set_at_path fmt tree path old of
        Inr tree \<Rightarrow> (tree, warnings)
      | Inl w \<Rightarrow> (tree, warnings @ [''restore removed key at '' @ fmt_path path @ '': '' @ w]))"

definition unapply :: "tree_format \<Rightarrow> 's vtree \<Rightarrow> 's patch_op list \<Rightarrow> 's vtree \<times> string list" where
  "unapply fmt tree ops = fold (unapply_op fmt) (rev ops) (tree, [])"

text \<open>The two instances.\<close>

definition json_diff :: "json_value \<Rightarrow> json_value \<Rightarrow> JsonOp list" where
  "json_diff old new = diff old new"

definition json_unapply :: "json_value \<Rightarrow> JsonOp list \<Rightarrow> json_value \<times> string list" where
  "json_unapply tree ops = unapply JsonFormat tree ops"

definition toml_diff :: "toml_value \<Rightarrow> toml_value \<Rightarrow> TomlOp list" where
  "toml_diff old new = diff old new"

definition toml_unapply :: "toml_value \<Rightarrow> TomlOp list \<Rightarrow> toml_value \<times> string list" where
  "toml_unapply tree ops = unapply TomlFormat tree ops"

section \<open>Well-formed trees\<close>

text \<open>Every object has each key once.\<close>

fun wf_tree :: "'s vtree \<Rightarrow> bool" where
  "wf_tree (VLeaf a) = True"
| "wf_tree (VArr xs) = list_all wf_tree xs"
| "wf_tree (VObj kvs) = (distinct (map fst kvs) \<and> list_all (\<lambda>(k, v). wf_tree v) kvs)"

lemma wf_tree_lookup: "wf_tree (VObj kvs) \<Longrightarrow> map_of kvs k = Some v \<Longrightarrow> wf_tree v"
  by (auto simp: list_all_iff dest: map_of_SomeD)

lemma veq_obj:
  assumes "distinct (map fst xs)" and "distinct (map fst ys)"
  shows "veq (VObj xs) (VObj ys) \<longleftrightarrow> (\<forall>k. rel_option veq (map_of xs k) (map_of ys k))"
proof
  assume v: "veq (VObj xs) (VObj ys)"
  then have sub: "fst ` set xs \<subseteq> fst ` set ys"
    by (force simp: list_all_iff split: option.splits dest: map_of_SomeD)
  have "card (fst ` set xs) = card (fst ` set ys)"
    using v assms distinct_card[of "map fst xs"] distinct_card[of "map fst ys"] by simp
  with sub have eq: "fst ` set xs = fst ` set ys" by (simp add: card_subset_eq)
  show "\<forall>k. rel_option veq (map_of xs k) (map_of ys k)"
  proof
    fix k
    show "rel_option veq (map_of xs k) (map_of ys k)"
    proof (cases "map_of xs k")
      case None
      with eq show ?thesis by (metis map_of_eq_None_iff rel_option_None1)
    next
      case (Some v)
      with v show ?thesis by (force simp: list_all_iff split: option.splits dest: map_of_SomeD)
    qed
  qed
next
  assume r: "\<forall>k. rel_option veq (map_of xs k) (map_of ys k)"
  then have "map_of xs k = None \<longleftrightarrow> map_of ys k = None" for k
    by (metis rel_option_None1 rel_option_None2)
  then have "fst ` set xs = fst ` set ys"
    unfolding map_of_eq_None_iff by blast
  then have "length xs = length ys"
    using assms distinct_card[of "map fst xs"] distinct_card[of "map fst ys"] by simp
  moreover have "case map_of ys k of None \<Rightarrow> False | Some w \<Rightarrow> veq v w" if "(k, v) \<in> set xs" for k v
  proof -
    have "map_of xs k = Some v" using that assms(1) by simp
    with r[rule_format, of k] show ?thesis by (cases "map_of ys k") auto
  qed
  ultimately show "veq (VObj xs) (VObj ys)" by (auto simp: list_all_iff)
qed

lemma veq_refl: "wf_tree v \<Longrightarrow> veq v v"
proof (induction v rule: wf_tree.induct)
  case (2 xs)
  then show ?case by (auto simp: list_all_iff list.rel_refl_strong)
next
  case (3 kvs)
  then have "rel_option veq (map_of kvs k) (map_of kvs k)" for k
    by (cases "map_of kvs k") (auto simp: list_all_iff dest: map_of_SomeD)
  with 3 show ?case by (subst veq_obj) auto
qed simp

lemma veq_sym: "veq a b \<Longrightarrow> wf_tree a \<Longrightarrow> wf_tree b \<Longrightarrow> veq b a"
proof (induction a b rule: veq.induct)
  case (2 xs ys)
  then show ?case
    by (auto simp: list_all2_conv_all_nth list_all_length)
next
  case (3 xs ys)
  have d: "distinct (map fst xs)" "distinct (map fst ys)" using 3 by auto
  have r: "rel_option veq (map_of xs k) (map_of ys k)" for k using 3 d veq_obj by blast
  have "rel_option veq (map_of ys k) (map_of xs k)" for k
  proof (cases "map_of xs k")
    case None
    with r[of k] show ?thesis by simp
  next
    case (Some v)
    with r[of k] obtain w where w: "map_of ys k = Some w" "veq v w" by (auto simp: option_rel_Some1)
    have "wf_tree v" "wf_tree w" using wf_tree_lookup 3(3,4) Some w by blast+
    then have "veq w v" using 3(1)[of "(k, v)" k v w] Some w by (auto dest: map_of_SomeD)
    with Some w show ?thesis by simp
  qed
  with d show ?case by (subst veq_obj) auto
qed auto

lemma veq_trans: "veq a b \<Longrightarrow> veq b c \<Longrightarrow> wf_tree a \<Longrightarrow> wf_tree b \<Longrightarrow> wf_tree c \<Longrightarrow> veq a c"
proof (induction a b arbitrary: c rule: veq.induct)
  case (1 a b)
  then show ?case by simp
next
  case (2 xs ys)
  then obtain zs where c: "c = VArr zs" by (cases c) auto
  with 2(2-) show ?case
    by (auto simp: list_all2_conv_all_nth list_all_length intro: 2(1)[OF nth_mem nth_mem])
next
  case (3 xs ys)
  then obtain zs where c: "c = VObj zs" by (cases c) auto
  have d: "distinct (map fst xs)" "distinct (map fst ys)" "distinct (map fst zs)" using 3 c by auto
  have r: "rel_option veq (map_of xs k) (map_of ys k)" "rel_option veq (map_of ys k) (map_of zs k)" for k
    using 3(2,3) c d veq_obj by blast+
  have "rel_option veq (map_of xs k) (map_of zs k)" for k
  proof (cases "map_of xs k")
    case None
    with r[of k] show ?thesis by simp
  next
    case (Some u)
    with r[of k] obtain v w where v: "map_of ys k = Some v" "veq u v" "map_of zs k = Some w" "veq v w"
      by (auto simp: option_rel_Some1)
    have "wf_tree u" "wf_tree v" "wf_tree w" using wf_tree_lookup 3(4-6) c Some v by blast+
    then have "veq u w" using 3(1)[of "(k, u)" k u v w] Some v by (auto dest: map_of_SomeD)
    with Some v show ?thesis by simp
  qed
  with d c show ?case by (subst c, subst veq_obj) auto
qed auto

section \<open>What one operation does\<close>

lemma update_update [simp]: "AList.update k v (AList.update k w kvs) = AList.update k v kvs"
  by (induction kvs) auto

lemma update_same [simp]: "map_of kvs k = Some v \<Longrightarrow> AList.update k v kvs = kvs"
  by (induction kvs) (auto split: if_splits)

lemma lookup_update [simp]: "map_of (AList.update k v kvs) = (map_of kvs)(k \<mapsto> v)"
  by (rule update_conv')

lemma lookup_delete [simp]: "map_of (AList.delete k kvs) = (map_of kvs)(k := None)"
  by (rule delete_conv')

lemma delete_updated [simp]: "AList.delete k (AList.update k v kvs) = AList.delete k kvs"
  by (induction kvs) auto

text \<open>The cleanup of an added value never fails: its only error is an empty path, which returns early.\<close>

lemma remove_at_path_ok: "path \<noteq> [] \<Longrightarrow> \<exists>t. remove_at_path tree path = Inr t"
  by (cases tree) (auto simp: remove_at_path_def split_path_def)

lemma fold_snd: "(\<And>x s. x \<in> set xs \<Longrightarrow> snd (f x s) = snd s) \<Longrightarrow> snd (fold f xs s) = snd s"
  by (induction xs arbitrary: s) auto

lemma unapply_add_never_warns: "snd (unapply_add fmt v path s) = snd s"
proof (induction v arbitrary: path s rule: vtree.induct)
  case (VObj m)
  have f: "snd (fold (\<lambda>(key, child_val). unapply_add fmt child_val (child_path path key)) m s) = snd s" for s
    by (rule fold_snd) (use VObj in \<open>force simp: split_beta\<close>)
  show ?case
  proof (cases "path = []")
    case False
    obtain r w where s: "s = (r, w)" by (cases s)
    obtain t where t: "fold (\<lambda>(key, child_val). unapply_add fmt child_val (child_path path key)) m (r, w) = (t, w)"
      using f[of "(r, w)"] by (metis prod.collapse snd_conv)
    obtain u where "remove_at_path t path = Inr u" using remove_at_path_ok[OF False] by blast
    with False s t show ?thesis by simp
  qed (cases s, simp)
next
  case (VLeaf a)
  show ?case using remove_at_path_ok[of path "fst s"] by (cases s; cases "path = []") auto
next
  case (VArr xs)
  show ?case using remove_at_path_ok[of path "fst s"] by (cases s; cases "path = []") auto
qed

text \<open>Operations below a key act on the object at that key and on nothing else.\<close>

lemma remove_at_path_local:
  assumes "p \<noteq> []" and "map_of kvs k = Some (VObj c)"
  shows "\<exists>c'. remove_at_path (VObj c) p = Inr (VObj c') \<and>
    remove_at_path (VObj kvs) (k # p) = Inr (VObj (AList.update k (VObj c') kvs))"
  using assms by (simp add: remove_at_path_def split_path_def)

lemma object_at_path_local:
  "map_of kvs k = Some (VObj c) \<Longrightarrow> object_at_path (VObj kvs) (k # p) = object_at_path (VObj c) p"
  by (simp add: object_at_path_def)

lemma unapply_add_leaf:
  "as_obj v = None \<Longrightarrow> p \<noteq> [] \<Longrightarrow> remove_at_path t p = Inr u \<Longrightarrow> unapply_add fmt v p (t, ws) = (u, ws)"
  by (cases v) auto

lemma unapply_add_local:
  fixes v :: "'s vtree"
  assumes "p \<noteq> []" and "map_of kvs k = Some (VObj c)"
  shows "\<exists>c'. unapply_add fmt v p (VObj c, ws) = (VObj c', ws) \<and>
    unapply_add fmt v (k # p) (VObj kvs, ws') = (VObj (AList.update k (VObj c') kvs), ws')"
  using assms
proof (induction v arbitrary: p c kvs rule: vtree.induct)
  case (VObj m)
  define below where "below q = (\<lambda>(key, child_val :: 's vtree). unapply_add fmt child_val (child_path q key))" for q
  have f: "\<exists>c'. fold (below p) n (VObj c, ws) = (VObj c', ws) \<and>
      fold (below (k # p)) n (VObj kvs, ws') = (VObj (AList.update k (VObj c') kvs), ws')"
    if "set n \<subseteq> set m" "map_of kvs k = Some (VObj c)" for n c kvs
    using that
  proof (induction n arbitrary: c kvs)
    case (Cons kv n)
    obtain key v where kv: "kv = (key, v)" by (cases kv)
    have mem: "kv \<in> set m" "v \<in> Basic_BNFs.snds kv" using Cons(2) kv by auto
    obtain c1 where 1: "unapply_add fmt v (child_path p key) (VObj c, ws) = (VObj c1, ws)"
      "unapply_add fmt v (k # child_path p key) (VObj kvs, ws') = (VObj (AList.update k (VObj c1) kvs), ws')"
      using VObj(1)[OF mem, of "child_path p key" kvs c] Cons(3) by (auto simp: child_path_def)
    have 2: "set n \<subseteq> set m" "map_of (AList.update k (VObj c1) kvs) k = Some (VObj c1)" using Cons(2) by auto
    show ?case using Cons(1)[OF 2] 1 kv by (auto simp: below_def child_path_def)
  qed simp
  obtain c1 where c1: "fold (below p) m (VObj c, ws) = (VObj c1, ws)"
    "fold (below (k # p)) m (VObj kvs, ws') = (VObj (AList.update k (VObj c1) kvs), ws')"
    using f[of m kvs c] VObj(3) by blast
  have l: "map_of (AList.update k (VObj c1) kvs) k = Some (VObj c1)" by simp
  obtain c2 where c2: "remove_at_path (VObj c1) p = Inr (VObj c2)"
    "remove_at_path (VObj (AList.update k (VObj c1) kvs)) (k # p) = Inr (VObj (AList.update k (VObj c2) kvs))"
    using remove_at_path_local[OF VObj(2) l] by auto
  show ?case
    using VObj(2) c1 c2 object_at_path_local[OF l] by (auto simp: below_def)
next
  case (VLeaf a)
  show ?case using remove_at_path_local[OF VLeaf] unapply_add_leaf[of "VLeaf a"] VLeaf by fastforce
next
  case (VArr xs)
  show ?case using remove_at_path_local[OF VArr(2,3)] unapply_add_leaf[of "VArr xs"] VArr by fastforce
qed

lemma set_at_path_local:
  assumes "p \<noteq> []" and "map_of kvs k = Some (VObj c)" and "set_at_path fmt (VObj c) p v = Inr t"
  shows "\<exists>c'. t = VObj c' \<and> set_at_path fmt (VObj kvs) (k # p) v = Inr (VObj (AList.update k (VObj c') kvs))"
  using assms by (auto simp: set_at_path_def split_path_def split: sum.splits)

fun op_path :: "'s patch_op \<Rightarrow> string list" where
  "op_path (OpAdd p _) = p"
| "op_path (OpReplace p _) = p"
| "op_path (OpRemove p _) = p"

fun below_op :: "string list \<Rightarrow> 's patch_op \<Rightarrow> 's patch_op" where
  "below_op q (OpAdd p v) = OpAdd (q @ p) v"
| "below_op q (OpReplace p v) = OpReplace (q @ p) v"
| "below_op q (OpRemove p v) = OpRemove (q @ p) v"

lemma unapply_op_local:
  assumes "op_path op \<noteq> []" and "map_of kvs k = Some (VObj c)" and "unapply_op fmt op (VObj c, []) = (t, [])"
  shows "\<exists>c'. t = VObj c' \<and> unapply_op fmt (below_op [k] op) (VObj kvs, []) = (VObj (AList.update k (VObj c') kvs), [])"
proof (cases op)
  case (OpAdd p v)
  then show ?thesis using assms unapply_add_local[of p kvs k c fmt v "[]" "[]"] by auto
next
  case (OpReplace p v)
  with assms(1,3) have "p \<noteq> []" "set_at_path fmt (VObj c) p v = Inr t" by (auto split: sum.splits)
  from set_at_path_local[OF this(1) assms(2) this(2)] OpReplace show ?thesis by auto
next
  case (OpRemove p v)
  with assms(1,3) have "p \<noteq> []" "set_at_path fmt (VObj c) p v = Inr t" by (auto split: sum.splits)
  from set_at_path_local[OF this(1) assms(2) this(2)] OpRemove show ?thesis by auto
qed

lemma unapply_op_warns: "\<exists>d. snd (unapply_op fmt op s) = snd s @ d"
proof (cases s)
  case (Pair t ws)
  show ?thesis
  proof (cases op)
    case (OpAdd p v)
    then show ?thesis using unapply_add_never_warns[of fmt v p s] Pair by (simp del: unapply_add.simps)
  next
    case (OpReplace p v)
    then show ?thesis using Pair by (cases "set_at_path fmt t p v") simp_all
  next
    case (OpRemove p v)
    then show ?thesis using Pair by (cases "set_at_path fmt t p v") simp_all
  qed
qed

lemma unapply_ops_quiet: "snd (fold (unapply_op fmt) ops s) = [] \<Longrightarrow> snd s = []"
proof (induction ops arbitrary: s)
  case (Cons op ops)
  then have "snd (unapply_op fmt op s) = []" by (metis fold_simps(2))
  with unapply_op_warns[of fmt op s] show ?case by (metis append_is_Nil_conv)
qed simp

lemma unapply_ops_local:
  assumes "\<forall>op \<in> set ops. op_path op \<noteq> []" and "map_of kvs k = Some (VObj c)"
    and "fold (unapply_op fmt) ops (VObj c, []) = (t, [])"
  shows "\<exists>c'. t = VObj c' \<and>
    fold (unapply_op fmt) (map (below_op [k]) ops) (VObj kvs, []) = (VObj (AList.update k (VObj c') kvs), [])"
  using assms
proof (induction ops arbitrary: c kvs)
  case (Cons op ops)
  obtain u ws where u: "unapply_op fmt op (VObj c, []) = (u, ws)" by fastforce
  have "ws = []" using unapply_ops_quiet[of fmt ops "(u, ws)"] Cons(4) u by simp
  with u obtain c1 where 1: "u = VObj c1"
    "unapply_op fmt (below_op [k] op) (VObj kvs, []) = (VObj (AList.update k (VObj c1) kvs), [])"
    using unapply_op_local[of op kvs k c fmt u] Cons(2,3) by auto
  have "\<exists>c'. t = VObj c' \<and> fold (unapply_op fmt) (map (below_op [k]) ops) (VObj (AList.update k (VObj c1) kvs), []) =
      (VObj (AList.update k (VObj c') (AList.update k (VObj c1) kvs)), [])"
    using Cons(2,4) u 1(1) \<open>ws = []\<close> by (intro Cons(1)) auto
  with 1(2) show ?case by auto
qed auto

section \<open>Undoing a diff\<close>

lemma below_op_append: "below_op p (below_op q op) = below_op (p @ q) op"
  by (cases op) auto

lemma below_op_Nil [simp]: "below_op [] op = op"
  by (cases op) auto

lemma op_path_below [simp]: "op_path (below_op q op) = q @ op_path op"
  by (cases op) auto

lemma diff_recursive_below: "diff_recursive (q @ p) old new = map (below_op q) (diff_recursive p old new)"
proof (induction p old new rule: diff_recursive.induct)
  case (1 p old_m new_m)
  have "(case map_of old_m k of
          Some old_val \<Rightarrow> if veq old_val v then [] else diff_recursive (child_path (q @ p) k) old_val v
        | None \<Rightarrow> [OpAdd (child_path (q @ p) k) v]) =
      map (below_op q) (case map_of old_m k of
          Some old_val \<Rightarrow> if veq old_val v then [] else diff_recursive (child_path p k) old_val v
        | None \<Rightarrow> [OpAdd (child_path p k) v])" if "(k, v) \<in> set new_m" for k v
    using 1[of "(k, v)" k v] that by (auto simp: child_path_def split: option.splits)
  then show ?case
    by (auto simp: map_concat child_path_def split_beta intro!: arg_cong[of _ _ concat])
qed auto

text \<open>The operations the diff of two objects has for one key.\<close>

definition key_ops :: "(string \<times> 's vtree) list \<Rightarrow> (string \<times> 's vtree) list \<Rightarrow> string \<Rightarrow> 's patch_op list" where
  "key_ops old_m new_m k =
     (case (map_of old_m k, map_of new_m k) of
        (Some v, Some w) \<Rightarrow> if veq v w then [] else diff_recursive [k] v w
      | (None, Some w) \<Rightarrow> [OpAdd [k] w]
      | (Some v, None) \<Rightarrow> [OpRemove [k] v]
      | (None, None) \<Rightarrow> [])"

lemma diff_by_keys:
  assumes "distinct (map fst old_m)" and "distinct (map fst new_m)"
  shows "diff_recursive [] (VObj old_m) (VObj new_m) =
    concat (map (key_ops old_m new_m) (map fst new_m @ filter (\<lambda>k. map_of new_m k = None) (map fst old_m)))"
proof -
  have new: "(case map_of old_m k of
        Some old_val \<Rightarrow> if veq old_val v then [] else diff_recursive (child_path [] k) old_val v
      | None \<Rightarrow> [OpAdd (child_path [] k) v]) = key_ops old_m new_m k" if "(k, v) \<in> set new_m" for k v
    using that assms(2) by (auto simp: key_ops_def child_path_def split: option.splits)
  have old: "map (\<lambda>(key, old_val). OpRemove (child_path [] key) old_val)
      (filter (\<lambda>(key, old_val). map_of new_m key = None) kvs) =
    concat (map (key_ops old_m new_m) (filter (\<lambda>k. map_of new_m k = None) (map fst kvs)))"
    if "set kvs \<subseteq> set old_m" for kvs
    using that
  proof (induction kvs)
    case (Cons kv kvs)
    then have "map_of old_m (fst kv) = Some (snd kv)" using assms(1) by (cases kv) auto
    with Cons show ?case by (auto simp: key_ops_def child_path_def split_beta)
  qed simp
  have "map (\<lambda>(key, new_val). case map_of old_m key of
        Some old_val \<Rightarrow> if veq old_val new_val then [] else diff_recursive (child_path [] key) old_val new_val
      | None \<Rightarrow> [OpAdd (child_path [] key) new_val]) new_m = map (key_ops old_m new_m) (map fst new_m)"
    using new by (auto simp: split_beta)
  then show ?thesis using old[of old_m] by (simp only: diff_recursive.simps map_append concat_append subset_refl)
qed

text \<open>Removing an added value takes away exactly its key.\<close>

lemma fold_delete_all: "fold (\<lambda>kv. AList.delete (fst kv)) n m = filter (\<lambda>kv. fst kv \<notin> fst ` set n) m"
  by (induction n arbitrary: m) (auto simp: AList.delete_eq intro!: filter_cong)

lemma unapply_added:
  fixes v :: "'s vtree"
  shows "wf_tree v \<Longrightarrow> map_of kvs k = Some u \<Longrightarrow> wf_tree u \<Longrightarrow> veq v u \<Longrightarrow>
    unapply_add fmt v [k] (VObj kvs, ws) = (VObj (AList.delete k kvs), ws)"
proof (induction v arbitrary: k u kvs ws rule: vtree.induct)
  case (VObj m)
  then obtain m' where u: "u = VObj m'" by (cases u) auto
  define below where "below = (\<lambda>(key, child_val :: 's vtree). unapply_add fmt child_val (child_path [k] key))"
  have "fold below n (VObj (AList.update k (VObj c) kvs), ws) =
      (VObj (AList.update k (VObj (fold (\<lambda>kv. AList.delete (fst kv)) n c)) kvs), ws)"
    if "set n \<subseteq> set m" "distinct (map fst n)"
      "\<And>kv. kv \<in> set n \<Longrightarrow> \<exists>x. map_of c (fst kv) = Some x \<and> wf_tree x \<and> veq (snd kv) x" for n c
    using that
  proof (induction n arbitrary: c)
    case (Cons kv n)
    obtain key v where kv: "kv = (key, v)" by (cases kv)
    have "wf_tree v" using VObj(2) Cons(2) kv by (auto simp: list_all_iff)
    moreover obtain x where "map_of c key = Some x" "wf_tree x" "veq v x" using Cons(4)[of kv] kv by auto
    ultimately have 1: "unapply_add fmt v [key] (VObj c, ws) = (VObj (AList.delete key c), ws)"
      using VObj(1)[of kv v] Cons(2) kv by auto
    have "unapply_add fmt v [k, key] (VObj (AList.update k (VObj c) kvs), ws) =
        (VObj (AList.update k (VObj (AList.delete key c)) kvs), ws)"
      using unapply_add_local[of "[key]" "AList.update k (VObj c) kvs" k c fmt v ws ws] 1 by simp
    moreover have "fold below n (VObj (AList.update k (VObj (AList.delete key c)) kvs), ws) =
        (VObj (AList.update k (VObj (fold (\<lambda>kv. AList.delete (fst kv)) n (AList.delete key c))) kvs), ws)"
      using Cons(2-4) kv by (intro Cons(1)) force+
    ultimately show ?case using kv by (simp add: below_def child_path_def)
  qed simp
  note step = this
  have d: "distinct (map fst m)" "distinct (map fst m')" using VObj(2,4) u by auto
  have r: "rel_option veq (map_of m j) (map_of m' j)" for j using VObj(5) u d veq_obj by blast
  have "\<exists>x. map_of m' (fst kv) = Some x \<and> wf_tree x \<and> veq (snd kv) x" if "kv \<in> set m" for kv
  proof -
    have "map_of m (fst kv) = Some (snd kv)" using that d(1) by simp
    with r[of "fst kv"] obtain x where x: "map_of m' (fst kv) = Some x" "veq (snd kv) x"
      by (auto simp: option_rel_Some1)
    with VObj(4) u wf_tree_lookup show ?thesis by blast
  qed
  moreover have "fst ` set m' \<subseteq> fst ` set m"
  proof
    fix j assume "j \<in> fst ` set m'"
    then have "map_of m' j \<noteq> None" by (simp add: map_of_eq_None_iff)
    with r[of j] have "map_of m j \<noteq> None" by (cases "map_of m j") auto
    then show "j \<in> fst ` set m" by (simp add: map_of_eq_None_iff)
  qed
  ultimately have "fold below m (VObj (AList.update k (VObj m') kvs), ws) =
      (VObj (AList.update k (VObj (fold (\<lambda>kv. AList.delete (fst kv)) m m')) kvs), ws)"
    "fold (\<lambda>kv. AList.delete (fst kv)) m m' = []"
    using step[of m m'] d(1) by (simp, auto simp: fold_delete_all filter_empty_conv)
  then have "fold below m (VObj kvs, ws) = (VObj (AList.update k (VObj []) kvs), ws)"
    using VObj(3) u by simp
  then show ?case
    by (simp add: below_def object_at_path_def remove_at_path_def split_path_def)
qed (simp_all add: remove_at_path_def split_path_def)

text \<open>The reversed operations of one key put back what the key had, and touch no other key.\<close>

definition changed :: "(string \<times> 's vtree) list \<Rightarrow> (string \<times> 's vtree) list \<Rightarrow> string \<Rightarrow> bool" where
  "changed old_m new_m k = (\<not> rel_option veq (map_of old_m k) (map_of new_m k))"

definition undoes :: "tree_format \<Rightarrow> 's patch_op list \<Rightarrow> string \<Rightarrow> 's vtree option \<Rightarrow> 's vtree option \<Rightarrow> bool" where
  "undoes fmt ops k before after =
     (\<forall>kvs. distinct (map fst kvs) \<longrightarrow> map_of kvs k = before \<longrightarrow>
        (\<exists>kvs'. fold (unapply_op fmt) (rev ops) (VObj kvs, []) = (VObj kvs', []) \<and> distinct (map fst kvs') \<and>
           map_of kvs' = (map_of kvs)(k := after)))"

lemma key_ops_unchanged: "\<not> changed old_m new_m k \<Longrightarrow> key_ops old_m new_m k = []"
  by (cases "map_of old_m k"; cases "map_of new_m k") (auto simp: changed_def key_ops_def)

lemma undoes_keys:
  assumes "distinct ks" and "\<And>k. k \<in> set ks \<Longrightarrow> undoes fmt (ops k) k (b k) (a k)"
    and "distinct (map fst kvs)" and "\<And>k. k \<in> set ks \<Longrightarrow> map_of kvs k = b k"
  shows "\<exists>kvs'. fold (unapply_op fmt) (rev (concat (map ops ks))) (VObj kvs, []) = (VObj kvs', []) \<and>
    distinct (map fst kvs') \<and> map_of kvs' = (\<lambda>k. if k \<in> set ks then a k else map_of kvs k)"
  using assms
proof (induction ks)
  case (Cons k ks)
  then obtain kvs1 where 1: "fold (unapply_op fmt) (rev (concat (map ops ks))) (VObj kvs, []) = (VObj kvs1, [])"
    "distinct (map fst kvs1)" "map_of kvs1 = (\<lambda>k. if k \<in> set ks then a k else map_of kvs k)" by auto
  have "undoes fmt (ops k) k (b k) (a k)" "map_of kvs1 k = b k" using Cons(2,3,5) 1(3) by auto
  then obtain kvs2 where "fold (unapply_op fmt) (rev (ops k)) (VObj kvs1, []) = (VObj kvs2, [])"
    "distinct (map fst kvs2)" "map_of kvs2 = (map_of kvs1)(k := a k)"
    using 1(2) unfolding undoes_def by blast
  with 1 show ?case by auto
qed auto

lemma undoes_single:
  assumes "\<And>kvs. distinct (map fst kvs) \<Longrightarrow> map_of kvs k = b \<Longrightarrow>
    \<exists>kvs'. unapply_op fmt op (VObj kvs, []) = (VObj kvs', []) \<and> distinct (map fst kvs') \<and>
      map_of kvs' = (map_of kvs)(k := a)"
  shows "undoes fmt [op] k b a"
  using assms by (auto simp: undoes_def)

lemma undoes_add: "wf_tree w \<Longrightarrow> wf_tree u \<Longrightarrow> veq w u \<Longrightarrow> undoes fmt [OpAdd [k] w] k (Some u) None"
  by (rule undoes_single) (auto simp: unapply_added distinct_delete)

lemma undoes_set: "op = OpReplace [k] v \<or> op = OpRemove [k] v \<Longrightarrow> undoes fmt [op] k b (Some v)"
  by (rule undoes_single) (auto simp: set_at_path_def split_path_def distinct_update)

lemma diff_paths: "op \<in> set (diff_recursive p (VObj old_m) (VObj new_m)) \<Longrightarrow> \<exists>q. q \<noteq> [] \<and> op_path op = p @ q"
proof -
  have "\<exists>q. op_path op = p @ q" if "op \<in> set (diff_recursive p old new)" for p old new
  proof -
    have "diff_recursive p old new = map (below_op p) (diff_recursive [] old new)"
      using diff_recursive_below[of p "[]"] by simp
    with that show ?thesis by auto
  qed
  then show "op \<in> set (diff_recursive p (VObj old_m) (VObj new_m)) \<Longrightarrow> ?thesis"
    by (fastforce simp: child_path_def split: option.splits if_splits)
qed

lemma undoes_below:
  assumes "fold (unapply_op fmt) (rev (diff_recursive [] (VObj old_m) (VObj new_m))) (VObj cur, []) = (VObj c, [])"
  shows "undoes fmt (diff_recursive [k] (VObj old_m) (VObj new_m)) k (Some (VObj cur)) (Some (VObj c))"
  unfolding undoes_def
proof (intro allI impI)
  fix kvs :: "(string \<times> 'a vtree) list"
  assume kvs: "distinct (map fst kvs)" "map_of kvs k = Some (VObj cur)"
  have "fold (unapply_op fmt) (map (below_op [k]) (rev (diff_recursive [] (VObj old_m) (VObj new_m)))) (VObj kvs, []) =
      (VObj (AList.update k (VObj c) kvs), [])"
  proof -
    have "\<forall>op \<in> set (rev (diff_recursive [] (VObj old_m) (VObj new_m))). op_path op \<noteq> []"
      using diff_paths[of _ "[]" old_m new_m] by (metis append_Nil set_rev)
    from unapply_ops_local[OF this kvs(2) assms] show ?thesis by blast
  qed
  moreover have "diff_recursive [k] (VObj old_m) (VObj new_m) = map (below_op [k]) (diff_recursive [] (VObj old_m) (VObj new_m))"
    using diff_recursive_below[of "[k]" "[]"] by (simp only: append_Nil2)
  ultimately show "\<exists>kvs'. fold (unapply_op fmt) (rev (diff_recursive [k] (VObj old_m) (VObj new_m))) (VObj kvs, []) = (VObj kvs', []) \<and>
      distinct (map fst kvs') \<and> map_of kvs' = (map_of kvs)(k \<mapsto> VObj c)"
    using kvs(1) by (simp only: rev_map[symmetric]) (auto simp: distinct_update simp del: diff_recursive.simps)
qed

lemma diff_recursive_atomic:
  "as_obj v = None \<or> as_obj w = None \<Longrightarrow> diff_recursive p v w = (if veq v w then [] else [OpReplace p v])"
  by (cases v; cases w) auto

definition restored :: "(string \<times> 's vtree) list \<Rightarrow> (string \<times> 's vtree) list \<Rightarrow> (string \<times> 's vtree) list \<Rightarrow>
    (string \<times> 's vtree) list \<Rightarrow> bool" where
  "restored old_m new_m cur res = (distinct (map fst res) \<and>
     (\<forall>k. if changed old_m new_m k then rel_option veq (map_of res k) (map_of old_m k) else map_of res k = map_of cur k))"

lemma restored_whole:
  assumes "restored old_m new_m cur res" and wf: "wf_tree (VObj old_m)" "wf_tree (VObj new_m)" "wf_tree (VObj cur)"
    and "veq (VObj new_m) (VObj cur)"
  shows "veq (VObj res) (VObj old_m)"
proof -
  have cur: "rel_option veq (map_of new_m k) (map_of cur k)" for k
    using assms(5) wf veq_obj[of new_m cur] by auto
  have "rel_option veq (map_of res k) (map_of old_m k)" for k
  proof (cases "changed old_m new_m k")
    case False
    then have "rel_option veq (map_of old_m k) (map_of new_m k)" "map_of res k = map_of cur k"
      using assms(1) by (auto simp: changed_def restored_def)
    with cur[of k] show ?thesis
      by (cases "map_of old_m k"; cases "map_of new_m k"; cases "map_of cur k")
        (auto intro: veq_sym veq_trans wf_tree_lookup[OF wf(1)] wf_tree_lookup[OF wf(2)] wf_tree_lookup[OF wf(3)])
  qed (use assms(1) in \<open>auto simp: restored_def\<close>)
  then show ?thesis using assms by (subst veq_obj) (auto simp: restored_def)
qed

lemma undo_key:
  assumes wf: "wf_tree (VObj old_m)" "wf_tree (VObj new_m)" "wf_tree (VObj cur)"
    and cur: "rel_option veq (map_of new_m k) (map_of cur k)"
    and sub: "\<And>old' new' cur'. map_of old_m k = Some (VObj old') \<Longrightarrow> map_of new_m k = Some (VObj new') \<Longrightarrow>
      map_of cur k = Some (VObj cur') \<Longrightarrow>
      \<exists>c. fold (unapply_op fmt) (rev (diff_recursive [] (VObj old') (VObj new'))) (VObj cur', []) = (VObj c, []) \<and>
        veq (VObj c) (VObj old')"
    and ch: "changed old_m new_m k"
  shows "\<exists>a. undoes fmt (key_ops old_m new_m k) k (map_of cur k) a \<and> rel_option veq a (map_of old_m k)"
proof (cases "map_of old_m k")
  case None
  with ch obtain w where w: "map_of new_m k = Some w" by (cases "map_of new_m k") (auto simp: changed_def)
  with cur obtain u where u: "map_of cur k = Some u" "veq w u" by (auto simp: option_rel_Some1)
  with None w show ?thesis
    using undoes_add[of w u] wf_tree_lookup[OF wf(2) w] wf_tree_lookup[OF wf(3) u(1)]
    by (auto simp: key_ops_def intro!: exI[of _ None])
next
  case (Some v)
  have v: "veq v v" using veq_refl wf_tree_lookup[OF wf(1) Some] by blast
  show ?thesis
  proof (cases "map_of new_m k")
    case None
    with Some v show ?thesis
      using undoes_set[of "OpRemove [k] v" k v] by (auto simp: key_ops_def intro!: exI[of _ "Some v"])
  next
    case (Some w)
    note w = Some and old = \<open>map_of old_m k = Some v\<close>
    with ch have ne: "\<not> veq v w" by (simp add: changed_def)
    then have ops: "key_ops old_m new_m k = diff_recursive [k] v w" using w old by (simp add: key_ops_def)
    show ?thesis
    proof (cases "as_obj v = None \<or> as_obj w = None")
      case True
      then have "key_ops old_m new_m k = [OpReplace [k] v]" using ops ne by (simp add: diff_recursive_atomic)
      then show ?thesis
        using undoes_set[of "OpReplace [k] v" k v] v old by (auto intro!: exI[of _ "Some v"])
    next
      case False
      then obtain old' new' where o: "v = VObj old'" "w = VObj new'" by (cases v; cases w) auto
      from cur w obtain u where u: "map_of cur k = Some u" "veq w u" by (auto simp: option_rel_Some1)
      with o obtain cur' where cur': "u = VObj cur'" by (cases u) auto
      from sub[of old' new' cur'] w old o u(1) cur' obtain c where
        c: "fold (unapply_op fmt) (rev (diff_recursive [] v w)) (u, []) = (VObj c, [])" "veq (VObj c) v" by auto
      then show ?thesis
        using undoes_below[of fmt old' new' cur' c k] o ops u(1) cur' old
        by (auto intro!: exI[of _ "Some (VObj c)"] simp del: diff_recursive.simps veq.simps)
    qed
  qed
qed

lemma undo_objects:
  assumes "wf_tree (VObj old_m)" and "wf_tree (VObj new_m)" and "wf_tree (VObj cur)"
    and "\<And>k. changed old_m new_m k \<Longrightarrow> rel_option veq (map_of new_m k) (map_of cur k)"
  shows "\<exists>res. fold (unapply_op fmt) (rev (diff_recursive [] (VObj old_m) (VObj new_m))) (VObj cur, []) = (VObj res, []) \<and>
    restored old_m new_m cur res"
  using assms
proof (induction "size (VObj old_m)" arbitrary: old_m new_m cur rule: less_induct)
  case less
  let ?ks = "map fst new_m @ filter (\<lambda>k. map_of new_m k = None) (map fst old_m)"
  have sub: "\<exists>c. fold (unapply_op fmt) (rev (diff_recursive [] (VObj old') (VObj new'))) (VObj cur', []) = (VObj c, []) \<and>
      veq (VObj c) (VObj old')" if "map_of old_m k = Some (VObj old')" "map_of new_m k = Some (VObj new')"
      "map_of cur k = Some (VObj cur')" "rel_option veq (map_of new_m k) (map_of cur k)" for k old' new' cur'
  proof -
    have wf: "wf_tree (VObj old')" "wf_tree (VObj new')" "wf_tree (VObj cur')"
      using wf_tree_lookup[OF less(2) that(1)] wf_tree_lookup[OF less(3) that(2)] wf_tree_lookup[OF less(4) that(3)] .
    have v: "veq (VObj new') (VObj cur')" using that by simp
    then have "rel_option veq (map_of new' j) (map_of cur' j)" for j using wf veq_obj[of new' cur'] by auto
    moreover have "size (VObj old') < size (VObj old_m)" using vtree_size_obj[OF map_of_SomeD[OF that(1)]] by simp
    ultimately show ?thesis using less(1)[OF _ wf] restored_whole[OF _ wf v] by blast
  qed
  have "\<exists>a. undoes fmt (key_ops old_m new_m k) k (map_of cur k) a \<and>
      (if changed old_m new_m k then rel_option veq a (map_of old_m k) else a = map_of cur k)" for k
  proof (cases "changed old_m new_m k")
    case True
    note cur = less(5)[OF True]
    have "\<exists>a. undoes fmt (key_ops old_m new_m k) k (map_of cur k) a \<and> rel_option veq a (map_of old_m k)"
      by (rule undo_key[OF less(2-4) cur _ True]) (rule sub[OF _ _ _ cur])
    with True show ?thesis by simp
  next
    case False
    then have "key_ops old_m new_m k = []" by (rule key_ops_unchanged)
    with False show ?thesis by (auto simp: undoes_def)
  qed
  then obtain a where a: "undoes fmt (key_ops old_m new_m k) k (map_of cur k) (a k)"
    "if changed old_m new_m k then rel_option veq (a k) (map_of old_m k) else a k = map_of cur k" for k by metis
  have "distinct ?ks" "distinct (map fst cur)" using less(2-4) by (auto simp: map_of_eq_None_iff)
  from undoes_keys[OF this(1) a(1) this(2)] obtain res where
    res: "fold (unapply_op fmt) (rev (concat (map (key_ops old_m new_m) ?ks))) (VObj cur, []) = (VObj res, [])"
      "distinct (map fst res)" "map_of res = (\<lambda>k. if k \<in> set ?ks then a k else map_of cur k)" by auto
  have "\<not> changed old_m new_m k" if "k \<notin> set ?ks" for k
  proof -
    have "map_of new_m k = None" using that by (auto simp: map_of_eq_None_iff)
    moreover have "map_of old_m k = None" using that calculation by (auto simp: map_of_eq_None_iff)
    ultimately show ?thesis by (simp add: changed_def)
  qed
  then have "restored old_m new_m cur res" using a(2) res(2,3) by (auto simp: restored_def)
  moreover have "diff_recursive [] (VObj old_m) (VObj new_m) = concat (map (key_ops old_m new_m) ?ks)"
    using less(2,3) by (intro diff_by_keys) auto
  ultimately show ?case using res(1) by (metis (no_types))
qed

text \<open>The unapplied tree is well-formed again.\<close>

lemma wf_update: "wf_tree (VObj kvs) \<Longrightarrow> wf_tree v \<Longrightarrow> wf_tree (VObj (AList.update k v kvs))"
  by (induction kvs) (auto simp: distinct_update)

lemma wf_delete: "wf_tree (VObj kvs) \<Longrightarrow> wf_tree (VObj (AList.delete k kvs))"
  by (auto simp: AList.delete_eq list_all_iff distinct_map_filter)

lemma wf_remove_in: "wf_tree (VObj c) \<Longrightarrow> wf_tree (VObj (remove_in c p k))"
  by (induction c p k rule: remove_in.induct)
    (auto simp del: wf_tree.simps intro: wf_update wf_delete wf_tree_lookup split: option.split vtree.split)

lemma wf_set_in: "set_in fmt c p k v = Inr c' \<Longrightarrow> wf_tree (VObj c) \<Longrightarrow> wf_tree v \<Longrightarrow> wf_tree (VObj c')"
proof (induction fmt c p k v arbitrary: c' rule: set_in.induct)
  case (2 fmt c seg p k v)
  have "wf_tree (VObj [])" by simp
  with 2 show ?case
    by (auto simp del: wf_tree.simps intro!: wf_update split: option.splits vtree.splits sum.splits dest: wf_tree_lookup)
qed (auto simp del: wf_tree.simps intro: wf_update)

lemma wf_remove_at_path: "remove_at_path t p = Inr u \<Longrightarrow> wf_tree t \<Longrightarrow> wf_tree u"
  by (cases t) (auto simp: remove_at_path_def split_path_def simp del: wf_tree.simps(3) intro: wf_remove_in split: if_splits)

lemma wf_set_at_path: "set_at_path fmt t p v = Inr u \<Longrightarrow> wf_tree t \<Longrightarrow> wf_tree v \<Longrightarrow> wf_tree u"
  by (cases t)
    (auto simp: set_at_path_def split_path_def simp del: wf_tree.simps(3) intro: wf_set_in split: if_splits sum.splits)

lemma fold_keeps: "(\<And>x s. x \<in> set xs \<Longrightarrow> P s \<Longrightarrow> P (f x s)) \<Longrightarrow> P s \<Longrightarrow> P (fold f xs s)"
  by (induction xs arbitrary: s) auto

lemma wf_removed: "wf_tree t \<Longrightarrow> wf_tree (case remove_at_path t p of Inl w \<Rightarrow> t | Inr u \<Rightarrow> u)"
  by (auto split: sum.splits intro: wf_remove_at_path)

lemma wf_unapply_add: "wf_tree (fst s) \<Longrightarrow> wf_tree (fst (unapply_add fmt v p s))"
proof (induction v arbitrary: p s rule: vtree.induct)
  case (VObj m)
  have f: "wf_tree (fst (fold (\<lambda>(key, child_val). unapply_add fmt child_val (child_path p key)) m s))"
    by (rule fold_keeps[where P = "\<lambda>s. wf_tree (fst s)"]) (use VObj in \<open>force simp: split_beta\<close>)+
  obtain t ws where s: "s = (t, ws)" by (cases s)
  obtain t' ws' where t': "fold (\<lambda>(key, child_val). unapply_add fmt child_val (child_path p key)) m (t, ws) = (t', ws')"
    by fastforce
  with f s have "wf_tree t'" by simp
  with VObj(2) s t' show ?case
    by (cases "p = []"; cases "remove_at_path t' p") (auto dest: wf_remove_at_path)
next
  case (VLeaf a)
  then show ?case by (cases s; cases "p = []"; cases "remove_at_path (fst s) p") (auto dest: wf_remove_at_path)
next
  case (VArr xs)
  then show ?case by (cases s; cases "p = []"; cases "remove_at_path (fst s) p") (auto dest: wf_remove_at_path)
qed

fun op_wf :: "'s patch_op \<Rightarrow> bool" where
  "op_wf (OpAdd _ v) = wf_tree v"
| "op_wf (OpReplace _ v) = wf_tree v"
| "op_wf (OpRemove _ v) = wf_tree v"

lemma wf_unapply_op:
  assumes "op_wf op" and "wf_tree (fst s)"
  shows "wf_tree (fst (unapply_op fmt op s))"
proof -
  obtain t ws where s: "s = (t, ws)" by (cases s)
  show ?thesis
  proof (cases op)
    case (OpAdd p v)
    then show ?thesis using wf_unapply_add[of s] assms(2) s by (simp del: unapply_add.simps)
  next
    case (OpReplace p v)
    then show ?thesis using assms s by (cases "set_at_path fmt t p v") (auto dest: wf_set_at_path)
  next
    case (OpRemove p v)
    then show ?thesis using assms s by (cases "set_at_path fmt t p v") (auto dest: wf_set_at_path)
  qed
qed

lemma diff_ops_wf: "op \<in> set (diff_recursive p old new) \<Longrightarrow> wf_tree old \<Longrightarrow> wf_tree new \<Longrightarrow> op_wf op"
proof (induction p old new rule: diff_recursive.induct)
  case (1 p old_m new_m)
  from 1(2) consider
      k w where "(k, w) \<in> set new_m" "op \<in> set (case map_of old_m k of
        Some v \<Rightarrow> if veq v w then [] else diff_recursive (child_path p k) v w
      | None \<Rightarrow> [OpAdd (child_path p k) w])"
    | k v where "(k, v) \<in> set old_m" "op = OpRemove (child_path p k) v" by auto
  then show ?case
  proof cases
    case 1
    have "wf_tree w" using 1(1) \<open>wf_tree (VObj new_m)\<close> by (auto simp: list_all_iff)
    with 1 \<open>wf_tree (VObj old_m)\<close> "1.IH"[of "(k, w)" k w] show ?thesis
      by (auto simp: list_all_iff split: option.splits if_splits dest!: map_of_SomeD)
  next
    case 2
    then show ?thesis using \<open>wf_tree (VObj old_m)\<close> by (auto simp: list_all_iff)
  qed
qed (auto split: if_splits)

lemma wf_unapply_diff:
  assumes "wf_tree old" and "wf_tree new" and "wf_tree cur"
  shows "wf_tree (fst (unapply fmt cur (diff old new)))"
  unfolding unapply_def diff_def
proof (rule fold_keeps[where P = "\<lambda>s. wf_tree (fst s)"])
  fix op and s :: "'a vtree \<times> string list"
  assume "op \<in> set (rev (diff_recursive [] old new))" and s: "wf_tree (fst s)"
  then have "op_wf op" using diff_ops_wf assms(1,2) by (metis set_rev)
  then show "wf_tree (fst (unapply_op fmt op s))" using s by (rule wf_unapply_op)
qed (simp add: assms(3))

section \<open>The contract of the two formats\<close>


text \<open>A settings file whose base URL the installer redirected and to which it added a hook; the user has since
  chosen a theme.\<close>

definition example_old :: "(string \<times> json_value) list" where
  "example_old = [(''baseUrl'', VLeaf (SStr ''https://api'')), (''model'', VLeaf (SStr ''m''))]"

definition example_new :: "(string \<times> json_value) list" where
  "example_new = [(''baseUrl'', VLeaf (SStr ''http://localhost'')), (''model'', VLeaf (SStr ''m'')),
     (''hooks'', VObj [(''pre'', VArr [VLeaf (SStr ''kyris-hook'')])])]"

definition example_user :: "(string \<times> json_value) list" where
  "example_user = (''theme'', VLeaf (SStr ''dark'')) # example_new"

lemmas example_defs = example_old_def example_new_def example_user_def


text \<open>The file the installer wrote, undone at once, is the file it found.\<close>

lemma unapply_diff:
  assumes "wf_tree (VObj old)" and "wf_tree (VObj new)" and "wf_tree (VObj cur)" and "veq (VObj new) (VObj cur)"
  shows "\<exists>res. unapply fmt (VObj cur) (diff (VObj old) (VObj new)) = (VObj res, []) \<and> veq (VObj res) (VObj old)"
proof -
  have "rel_option veq (map_of new k) (map_of cur k)" for k using assms veq_obj[of new cur] by auto
  then obtain res where "fold (unapply_op fmt) (rev (diff_recursive [] (VObj old) (VObj new))) (VObj cur, []) = (VObj res, [])"
    "restored old new cur res"
    using undo_objects[OF assms(1-3), of fmt] by blast
  with restored_whole[OF _ assms] show ?thesis
    by (auto simp: unapply_def diff_def simp del: diff_recursive.simps)
qed

end
