(* ===== verification/ManagedFiles.thy ===== *)
theory ManagedFiles
  imports ConfigPatch "HOL-Library.Countable"
begin

text \<open>
  Managed writes and the install manifest, \<^verbatim>\<open>cli/src/state.rs\<close> with the readers and writers of
  \<^verbatim>\<open>cli/src/integration.rs\<close>: every file the CLI writes is recorded with the action that undoes it, and
  uninstall replays the manifest. The state is the files (by path) and the manifest; parsing, printing and
  validation of the two formats belong to other crates and are arguments. The JSON and TOML halves of the
  sources are twins; one definition, over a record saying which action holds the operations, stands for
  both. Directories, permissions and failing system calls are outside the model; a file that is not UTF-8
  cannot be read as text.
\<close>

section \<open>Manifest\<close>

datatype ManifestAction =
    Created
  | LinesAppended "string list"
  | JsonPatch "JsonOp list"
  | TomlPatch "TomlOp list"

record ManifestEntry =
  e_path :: string
  e_action :: ManifestAction
  e_component :: string
  e_file_created :: bool
  e_timestamp :: string

record store =
  files :: "string \<rightharpoonup> string"
  manifest :: "ManifestEntry list"

datatype state_error =
    CannotRead string
  | CannotParse string string
  | CannotSerialize string string
  | ValidationFailed string string
  | UnexpectedAction string

type_synonym 'a io = "(state_error + 'a) \<times> store"

definition and_then :: "'a io \<Rightarrow> ('a \<Rightarrow> store \<Rightarrow> 'b io) \<Rightarrow> 'b io" where
  "and_then m k = (case m of (Inl e, s) \<Rightarrow> (Inl e, s) | (Inr x, s) \<Rightarrow> k x s)"

lemma and_then_simps [simp]:
  "and_then (Inl e, s) k = (Inl e, s)"
  "and_then (Inr x, s) k = k x s"
  by (simp_all add: and_then_def)

text \<open>What the sources parse and print with, and which action a format's operations are stored in.\<close>

record 's tree_codec =
  parse_tree :: "string \<Rightarrow> string + 's vtree"
  print_tree :: "'s vtree \<Rightarrow> string + string"

record 's tree_kind =
  tag :: tree_format
  mk_patch :: "'s patch_op list \<Rightarrow> ManifestAction"
  dest_patch :: "ManifestAction \<Rightarrow> 's patch_op list option"

fun dest_json :: "ManifestAction \<Rightarrow> JsonOp list option" where
  "dest_json (JsonPatch ops) = Some ops"
| "dest_json _ = None"

fun dest_toml :: "ManifestAction \<Rightarrow> TomlOp list option" where
  "dest_toml (TomlPatch ops) = Some ops"
| "dest_toml _ = None"

definition json_kind :: "json_scalar tree_kind" where
  "json_kind = \<lparr>tag = JsonFormat, mk_patch = JsonPatch, dest_patch = dest_json\<rparr>"

definition toml_kind :: "toml_scalar tree_kind" where
  "toml_kind = \<lparr>tag = TomlFormat, mk_patch = TomlPatch, dest_patch = dest_toml\<rparr>"

fun update_first :: "('a \<Rightarrow> bool) \<Rightarrow> ('a \<Rightarrow> 'a) \<Rightarrow> 'a list \<Rightarrow> 'a list" where
  "update_first P f [] = []"
| "update_first P f (x # xs) = (if P x then f x # xs else x # update_first P f xs)"

definition read_to_string :: "store \<Rightarrow> string \<Rightarrow> state_error + string" where
  "read_to_string s path =
     (case files s path of Some b \<Rightarrow> if valid_utf8 b then Inr b else Inl (CannotRead path) | None \<Rightarrow> Inl (CannotRead path))"

definition write_file :: "string \<Rightarrow> string \<Rightarrow> store \<Rightarrow> store" where
  "write_file path contents s = s\<lparr>files := (files s)(path \<mapsto> contents)\<rparr>"

definition remove_if_exists :: "string \<Rightarrow> store \<Rightarrow> store" where
  "remove_if_exists path s = s\<lparr>files := (files s)(path := None)\<rparr>"

section \<open>Recording\<close>

text \<open>\<^verbatim>\<open>split(", ")\<close>.\<close>

fun split_comma :: "string \<Rightarrow> string \<Rightarrow> string list" where
  "split_comma acc [] = [acc]"
| "split_comma acc [c] = [acc @ [c]]"
| "split_comma acc (c # d # s) =
     (if c = CHR '','' \<and> d = CHR '' '' then acc # split_comma [] s else split_comma (acc @ [c]) (d # s))"

definition add_line :: "string \<Rightarrow> string \<Rightarrow> ManifestEntry \<Rightarrow> ManifestEntry" where
  "add_line line component entry =
     (let entry = (case e_action entry of
                     LinesAppended ls \<Rightarrow>
                       if \<not> list_ex (\<lambda>l. trim l = trim line) ls
                       then entry\<lparr>e_action := LinesAppended (ls @ [line])\<rparr> else entry
                   | _ \<Rightarrow> entry)
      in if \<not> list_ex (\<lambda>c. c = component) (split_comma [] (e_component entry))
         then entry\<lparr>e_component := e_component entry @ '', '' @ component\<rparr> else entry)"

definition record_line_in_manifest :: "string \<Rightarrow> string \<Rightarrow> string \<Rightarrow> string \<Rightarrow> store \<Rightarrow> store" where
  "record_line_in_manifest now path line component s =
     s\<lparr>manifest :=
        if list_ex (\<lambda>e. e_path e = path) (manifest s)
        then update_first (\<lambda>e. e_path e = path) (add_line line component) (manifest s)
        else manifest s @ [\<lparr>e_path = path, e_action = LinesAppended [line], e_component = component,
                            e_file_created = False, e_timestamp = now\<rparr>]\<rparr>"

definition record_manifest_if_absent :: "string \<Rightarrow> string \<Rightarrow> ManifestAction \<Rightarrow> string \<Rightarrow> bool \<Rightarrow> store \<Rightarrow> store" where
  "record_manifest_if_absent now path action component file_created s =
     (if list_ex (\<lambda>e. e_path e = path \<and> e_component e = component) (manifest s) then s
      else s\<lparr>manifest := manifest s @ [\<lparr>e_path = path, e_action = action, e_component = component,
                                         e_file_created = file_created, e_timestamp = now\<rparr>]\<rparr>)"

definition make_tree_action :: "'s tree_kind \<Rightarrow> 's vtree \<Rightarrow> 's vtree \<Rightarrow> ManifestAction" where
  "make_tree_action K old new = (let ops = diff old new in if ops = [] then Created else mk_patch K ops)"

definition for_component :: "string \<Rightarrow> string \<Rightarrow> ManifestEntry \<Rightarrow> bool" where
  "for_component path component e = (e_path e = path \<and> e_component e = component)"

definition record_managed_tree_edit ::
  "'s tree_kind \<Rightarrow> string \<Rightarrow> string \<Rightarrow> 's vtree \<Rightarrow> 's vtree \<Rightarrow> bool \<Rightarrow> string \<Rightarrow> store \<Rightarrow> unit io" where
  "record_managed_tree_edit K now path old_on_disk new file_existed_before_kyris component s =
     (case find (for_component path component) (manifest s) of
        Some entry \<Rightarrow>
          (if e_action entry = Created then (Inr (), s)
           else case dest_patch K (e_action entry) of
                  Some ops \<Rightarrow>
                    let original = fst (unapply (tag K) old_on_disk ops);
                        action = make_tree_action K original new
                    in (Inr (), s\<lparr>manifest := update_first (for_component path component)
                                    (\<lambda>e. e\<lparr>e_action := action\<rparr>) (manifest s)\<rparr>)
                | None \<Rightarrow> (Inl (UnexpectedAction path), s))
      | None \<Rightarrow>
          (Inr (), s\<lparr>manifest := manifest s @
             [\<lparr>e_path = path, e_action = make_tree_action K old_on_disk new, e_component = component,
               e_file_created = \<not> file_existed_before_kyris, e_timestamp = now\<rparr>]\<rparr>))"

section \<open>Managed writes\<close>

definition ensure_line :: "string \<Rightarrow> string \<Rightarrow> string \<Rightarrow> string \<Rightarrow> store \<Rightarrow> bool io" where
  "ensure_line now path line component s =
     (case (if files s path = None then Inr [] else read_to_string s path) of
        Inl e \<Rightarrow> (Inl e, s)
      | Inr contents \<Rightarrow>
          if list_ex (\<lambda>l. trim l = trim line) (lines contents)
          then (Inr False, record_line_in_manifest now path line component s)
          else let contents = (if contents \<noteq> [] \<and> last contents \<noteq> nl then contents @ [nl] else contents) @ line @ [nl]
               in (Inr True, record_line_in_manifest now path line component (write_file path contents s)))"

definition write_managed_file ::
  "(string \<Rightarrow> string + unit) \<Rightarrow> string \<Rightarrow> string \<Rightarrow> string \<Rightarrow> string \<Rightarrow> store \<Rightarrow> bool io" where
  "write_managed_file validate now path contents component s =
     (case (if files s path = None then Inr None else map_sum id Some (read_to_string s path)) of
        Inl e \<Rightarrow> (Inl e, s)
      | Inr existing \<Rightarrow>
          if existing = Some contents
          then (Inr False, record_manifest_if_absent now path Created component True s)
          else case validate contents of
                 Inl e \<Rightarrow> (Inl (ValidationFailed path e), s)
               | Inr _ \<Rightarrow>
                   (Inr True, record_manifest_if_absent now path Created component True (write_file path contents s)))"

text \<open>The binary variant reads bytes, so any existing content can be compared; the validator sees the
  content with invalid sequences replaced (an argument, as the replacement belongs to the standard library)
  and is skipped when it accepts everything.\<close>

definition write_managed_bytes ::
  "(string \<Rightarrow> string) \<Rightarrow> bool \<Rightarrow> (string \<Rightarrow> string + unit) \<Rightarrow> string \<Rightarrow> string \<Rightarrow> string \<Rightarrow> string \<Rightarrow> store \<Rightarrow> bool io" where
  "write_managed_bytes from_utf8_lossy is_noop validate now path contents component s =
     (if files s path = Some contents
      then (Inr False, record_manifest_if_absent now path Created component True s)
      else case (if is_noop then Inr () else validate (from_utf8_lossy contents)) of
             Inl e \<Rightarrow> (Inl (ValidationFailed path e), s)
           | Inr _ \<Rightarrow>
               (Inr True, record_manifest_if_absent now path Created component True (write_file path contents s)))"

definition write_managed_tree ::
  "'s tree_kind \<Rightarrow> string \<Rightarrow> string \<Rightarrow> 's vtree \<Rightarrow> 's vtree \<Rightarrow> string \<Rightarrow> bool \<Rightarrow> string \<Rightarrow> store \<Rightarrow> bool io" where
  "write_managed_tree K now path old new contents file_existed component s =
     (case (if files s path = None then Inr None else map_sum id Some (read_to_string s path)) of
        Inl e \<Rightarrow> (Inl e, s)
      | Inr existing \<Rightarrow>
          if existing = Some contents
          then and_then (record_managed_tree_edit K now path old new file_existed component s) (\<lambda>_ s. (Inr False, s))
          else and_then (record_managed_tree_edit K now path old new file_existed component (write_file path contents s))
                 (\<lambda>_ s. (Inr True, s)))"

definition make_json_action where "make_json_action = make_tree_action json_kind"
definition make_toml_action where "make_toml_action = make_tree_action toml_kind"
definition record_managed_json_edit where "record_managed_json_edit = record_managed_tree_edit json_kind"
definition record_managed_toml_edit where "record_managed_toml_edit = record_managed_tree_edit toml_kind"
definition write_managed_json where "write_managed_json = write_managed_tree json_kind"
definition write_managed_toml where "write_managed_toml = write_managed_tree toml_kind"

definition read_tree_value :: "'s tree_codec \<Rightarrow> store \<Rightarrow> string \<Rightarrow> state_error + 's vtree" where
  "read_tree_value C s path =
     (if files s path = None then Inr (VObj [])
      else case read_to_string s path of
             Inl e \<Rightarrow> Inl e
           | Inr contents \<Rightarrow> (case parse_tree C contents of Inl e \<Rightarrow> Inl (CannotParse path e) | Inr v \<Rightarrow> Inr v))"

definition write_tree_value ::
  "'s tree_kind \<Rightarrow> 's tree_codec \<Rightarrow> (string \<Rightarrow> string + unit) \<Rightarrow> string \<Rightarrow> string \<Rightarrow> 's vtree \<Rightarrow> string \<Rightarrow> store \<Rightarrow> bool io" where
  "write_tree_value K C validate now path value component s =
     (case print_tree C value of
        Inl e \<Rightarrow> (Inl (CannotSerialize path e), s)
      | Inr text \<Rightarrow>
          let serialized = text @ [nl] in
          case validate serialized of
            Inl e \<Rightarrow> (Inl (ValidationFailed path e), s)
          | Inr _ \<Rightarrow>
              let file_existed = (files s path \<noteq> None) in
              case read_tree_value C s path of
                Inl e \<Rightarrow> (Inl e, s)
              | Inr old \<Rightarrow> write_managed_tree K now path old value serialized file_existed component s)"

definition write_json_value where "write_json_value = write_tree_value json_kind"
definition write_toml_value where "write_toml_value = write_tree_value toml_kind"

section \<open>Undoing\<close>

definition remove_lines :: "string \<Rightarrow> string list \<Rightarrow> store \<Rightarrow> unit io" where
  "remove_lines path ls s =
     (case read_to_string s path of
        Inl e \<Rightarrow> (Inl e, s)
      | Inr contents \<Rightarrow>
          let trailing_newline = (contents \<noteq> [] \<and> last contents = nl);
              filtered = filter (\<lambda>l. \<not> list_ex (\<lambda>rm. trim l = trim rm) ls) (lines contents)
          in if length filtered = length (lines contents) then (Inr (), s)
             else if list_all (\<lambda>l. trim l = []) filtered then (Inr (), remove_if_exists path s)
             else let new_contents = join [nl] filtered;
                      new_contents = (if trailing_newline \<and> new_contents \<noteq> [] then new_contents @ [nl] else new_contents)
                  in (Inr (), write_file path new_contents s))"

definition unapply_tree_file :: "tree_format \<Rightarrow> 's tree_codec \<Rightarrow> string \<Rightarrow> 's patch_op list \<Rightarrow> store \<Rightarrow> unit io" where
  "unapply_tree_file fmt C path ops s =
     (case read_to_string s path of
        Inl e \<Rightarrow> (Inl e, s)
      | Inr contents \<Rightarrow>
          (case parse_tree C contents of
             Inl e \<Rightarrow> (Inl (CannotParse path e), s)
           | Inr v \<Rightarrow>
               (case print_tree C (fst (unapply fmt v ops)) of
                  Inl e \<Rightarrow> (Inl (CannotSerialize path e), s)
                | Inr text \<Rightarrow> (Inr (), write_file path (text @ [nl]) s))))"

definition remove_empty_created_tree_file :: "'s tree_codec \<Rightarrow> ManifestEntry \<Rightarrow> string \<Rightarrow> store \<Rightarrow> unit io" where
  "remove_empty_created_tree_file C entry path s =
     (if \<not> e_file_created entry \<or> files s path = None then (Inr (), s)
      else case read_to_string s path of
             Inl e \<Rightarrow> (Inl e, s)
           | Inr contents \<Rightarrow>
               (case parse_tree C contents of
                  Inl e \<Rightarrow> (Inl (CannotParse path e), s)
                | Inr v \<Rightarrow> (Inr (), if as_obj v = Some [] then remove_if_exists path s else s)))"

definition unapply_patch ::
  "tree_format \<Rightarrow> 's tree_codec \<Rightarrow> string \<Rightarrow> 's patch_op list \<Rightarrow> ManifestEntry \<Rightarrow> store \<Rightarrow> string io" where
  "unapply_patch fmt C what ops entry s =
     (let path = e_path entry in
      if files s path = None then (Inr (''skipped '' @ path @ '' (already absent)''), s)
      else and_then (unapply_tree_file fmt C path ops s) (\<lambda>_ s.
           and_then (remove_empty_created_tree_file C entry path s) (\<lambda>_ s.
             (Inr (''unapplied '' @ what @ '' patch on '' @ path), s))))"

fun unapply_entry ::
  "json_scalar tree_codec \<Rightarrow> toml_scalar tree_codec \<Rightarrow> ManifestEntry \<Rightarrow> store \<Rightarrow> string io" where
  "unapply_entry CJ CT entry s =
     (case e_action entry of
        Created \<Rightarrow> (Inr (''removed '' @ e_path entry), remove_if_exists (e_path entry) s)
      | LinesAppended ls \<Rightarrow>
          and_then (if files s (e_path entry) \<noteq> None then remove_lines (e_path entry) ls s else (Inr (), s))
            (\<lambda>_ s. (Inr (''removed kyris lines from '' @ e_path entry), s))
      | JsonPatch ops \<Rightarrow> unapply_patch JsonFormat CJ ''JSON'' ops entry s
      | TomlPatch ops \<Rightarrow> unapply_patch TomlFormat CT ''TOML'' ops entry s)"

text \<open>Undo one entry after another, stopping at the first error.\<close>

fun unapply_entries ::
  "json_scalar tree_codec \<Rightarrow> toml_scalar tree_codec \<Rightarrow> ManifestEntry list \<Rightarrow> store \<Rightarrow> unit io" where
  "unapply_entries CJ CT [] s = (Inr (), s)"
| "unapply_entries CJ CT (e # es) s = and_then (unapply_entry CJ CT e s) (\<lambda>_ s. unapply_entries CJ CT es s)"

definition restore_manifest_entry ::
  "json_scalar tree_codec \<Rightarrow> toml_scalar tree_codec \<Rightarrow> string \<Rightarrow> store \<Rightarrow> bool io" where
  "restore_manifest_entry CJ CT path s =
     (let matching = filter (\<lambda>e. e_path e = path) (manifest s) in
      if matching = [] then (Inr False, s)
      else and_then (unapply_entries CJ CT (rev matching) s) (\<lambda>_ s.
             (Inr True, s\<lparr>manifest := filter (\<lambda>e. e_path e \<noteq> path) (manifest s)\<rparr>)))"

definition restore_manifest_component ::
  "json_scalar tree_codec \<Rightarrow> toml_scalar tree_codec \<Rightarrow> string \<Rightarrow> store \<Rightarrow> string list io" where
  "restore_manifest_component CJ CT component s =
     (let matching = filter (\<lambda>e. e_component e = component) (manifest s) in
      if matching = [] then (Inr [], s)
      else and_then (unapply_entries CJ CT matching s) (\<lambda>_ s.
             (Inr (map e_path matching), s\<lparr>manifest := filter (\<lambda>e. e_component e \<noteq> component) (manifest s)\<rparr>)))"

definition restore_manifest_entry_component ::
  "json_scalar tree_codec \<Rightarrow> toml_scalar tree_codec \<Rightarrow> string \<Rightarrow> string \<Rightarrow> store \<Rightarrow> bool io" where
  "restore_manifest_entry_component CJ CT path component s =
     (case find (for_component path component) (manifest s) of
        None \<Rightarrow> (Inr False, s)
      | Some entry \<Rightarrow>
          and_then (unapply_entry CJ CT entry s) (\<lambda>_ s.
            (Inr True, s\<lparr>manifest := remove1 entry (manifest s)\<rparr>)))"

text \<open>Uninstall: every entry is tried, newest first; an error is reported and the rest goes on.\<close>

fun restore_step ::
  "json_scalar tree_codec \<Rightarrow> toml_scalar tree_codec \<Rightarrow> ManifestEntry \<Rightarrow> string list \<times> nat \<times> store \<Rightarrow>
   string list \<times> nat \<times> store" where
  "restore_step CJ CT entry (actions, warnings, s) =
     (case unapply_entry CJ CT entry s of
        (Inr action, s) \<Rightarrow> (actions @ [action], warnings, s)
      | (Inl w, s) \<Rightarrow> (actions, warnings + 1, s))"

definition restore_all_manifest_entries ::
  "json_scalar tree_codec \<Rightarrow> toml_scalar tree_codec \<Rightarrow> store \<Rightarrow> string list \<times> store" where
  "restore_all_manifest_entries CJ CT s =
     (let (actions, warnings, s) = fold (restore_step CJ CT) (rev (manifest s)) ([], 0, s);
          s = s\<lparr>manifest := []\<rparr>
      in (if warnings > 0
          then actions @ [''('' @ display_nat warnings @ '' entries could not be fully cleaned; see warnings above)'']
          else actions, s))"

section \<open>Edits are undone\<close>

text \<open>What the code relies on of a format's crate: parsed trees have each key once, and printing an object and
  parsing the text gives an equal object.\<close>

definition codec_ok :: "'s tree_codec \<Rightarrow> bool" where
  "codec_ok C =
     ((\<forall>b v. parse_tree C b = Inr v \<longrightarrow> wf_tree v) \<and>
      (\<forall>m. wf_tree (VObj m) \<longrightarrow> (\<exists>t v. print_tree C (VObj m) = Inr t \<and> valid_utf8 (t @ [nl]) \<and>
         parse_tree C (t @ [nl]) = Inr v \<and> veq (VObj m) v)))"

lemma codec_print:
  assumes "codec_ok C" and "wf_tree (VObj m)"
  shows "\<exists>t m'. print_tree C (VObj m) = Inr t \<and> valid_utf8 (t @ [nl]) \<and>
    parse_tree C (t @ [nl]) = Inr (VObj m') \<and> wf_tree (VObj m') \<and> veq (VObj m) (VObj m')"
proof -
  obtain t v where t: "print_tree C (VObj m) = Inr t" "valid_utf8 (t @ [nl])" "parse_tree C (t @ [nl]) = Inr v"
    "veq (VObj m) v" using assms unfolding codec_ok_def by blast
  obtain m' where "v = VObj m'" using t(4) by (cases v) auto
  moreover have "wf_tree v" using assms(1) t(3) unfolding codec_ok_def by blast
  ultimately show ?thesis using t by blast
qed

lemma diff_nonempty: "wf_tree (VObj old) \<Longrightarrow> wf_tree (VObj new) \<Longrightarrow> \<not> veq (VObj new) (VObj old) \<Longrightarrow> diff (VObj old) (VObj new) \<noteq> []"
  using unapply_diff[of old new new] veq_refl[of "VObj new"] by (auto simp: unapply_def simp del: veq.simps)

text \<open>A file as it stands on disk.\<close>

definition holds_object :: "'s tree_codec \<Rightarrow> store \<Rightarrow> string \<Rightarrow> (string \<times> 's vtree) list \<Rightarrow> bool" where
  "holds_object C s path m =
     (\<exists>b. files s path = Some b \<and> valid_utf8 b \<and> parse_tree C b = Inr (VObj m) \<and> wf_tree (VObj m))"

lemma holds_object_reads: "holds_object C s path m \<Longrightarrow> read_tree_value C s path = Inr (VObj m)"
  by (auto simp: holds_object_def read_tree_value_def read_to_string_def)

lemma holds_object_wf: "holds_object C s path m \<Longrightarrow> wf_tree (VObj m)"
  unfolding holds_object_def by blast

lemma update_first_find:
  "find P xs = None \<Longrightarrow> P x \<Longrightarrow> update_first P f (xs @ [x]) = xs @ [f x]"
  by (induction xs) (auto split: if_splits)

lemma find_append_last: "find P xs = None \<Longrightarrow> find P (xs @ [x]) = (if P x then Some x else None)"
  by (induction xs) (auto split: if_splits)

lemma remove1_last: "find P xs = None \<Longrightarrow> P x \<Longrightarrow> remove1 x (xs @ [x]) = xs"
  by (induction xs) (auto split: if_splits)

declare unapply_entry.simps [simp del]

locale patch_kind =
  fixes K :: "'s tree_kind"
    and codec :: "json_scalar tree_codec \<Rightarrow> toml_scalar tree_codec \<Rightarrow> 's tree_codec"
    and what :: string
  assumes dest_mk: "dest_patch K (mk_patch K ops) = Some ops"
    and mk_not_created: "mk_patch K ops \<noteq> Created"
    and undo_mk: "e_action entry = mk_patch K ops \<Longrightarrow>
      unapply_entry CJ CT entry s = unapply_patch (tag K) (codec CJ CT) what ops entry s"
begin

text \<open>The states between two edits of one component on one path: untouched, or one manifest entry with the
  diff from a tree equal to the original to a tree equal to the one on disk.\<close>

definition tracked :: "'s tree_codec \<Rightarrow> string \<Rightarrow> string \<Rightarrow> 's vtree \<Rightarrow> store \<Rightarrow> store \<Rightarrow> bool" where
  "tracked C path component orig s0 s =
     (s = s0 \<or>
      (\<exists>e old new cur. manifest s = manifest s0 @ [e] \<and> for_component path component e \<and>
         e_action e = mk_patch K (diff (VObj old) (VObj new)) \<and> e_file_created e = (files s0 path = None) \<and>
         wf_tree (VObj old) \<and> wf_tree (VObj new) \<and> veq (VObj old) orig \<and>
         holds_object C s path cur \<and> veq (VObj new) (VObj cur) \<and>
         (files s)(path := None) = (files s0)(path := None)))"

lemma tracked_cases:
  assumes "tracked C path component orig s0 s" and "s \<noteq> s0"
  obtains e old new cur where "manifest s = manifest s0 @ [e]" "for_component path component e"
    "e_action e = mk_patch K (diff (VObj old) (VObj new))" "e_file_created e = (files s0 path = None)"
    "wf_tree (VObj old)" "wf_tree (VObj new)" "veq (VObj old) orig"
    "holds_object C s path cur" "veq (VObj new) (VObj cur)" "(files s)(path := None) = (files s0)(path := None)"
  using assms unfolding tracked_def by (elim disjE exE conjE) simp_all

lemma record_first:
  assumes "find (for_component path component) (manifest s) = None" and "diff old new \<noteq> []"
  shows "record_managed_tree_edit K now path old new existed component s =
    (Inr (), s\<lparr>manifest := manifest s @ [\<lparr>e_path = path, e_action = mk_patch K (diff old new),
       e_component = component, e_file_created = \<not> existed, e_timestamp = now\<rparr>]\<rparr>)"
  using assms by (simp add: record_managed_tree_edit_def make_tree_action_def Let_def)

lemma record_again:
  assumes "find (for_component path component) ms = None" and "manifest s = ms @ [e]"
    and "for_component path component e" and "e_action e = mk_patch K ops"
    and "fst (unapply (tag K) on_disk ops) = original" and "diff original new \<noteq> []"
  shows "record_managed_tree_edit K now path on_disk new existed component s =
    (Inr (), s\<lparr>manifest := ms @ [e\<lparr>e_action := mk_patch K (diff original new)\<rparr>]\<rparr>)"
  using assms mk_not_created
  by (simp add: record_managed_tree_edit_def find_append_last update_first_find dest_mk make_tree_action_def Let_def)

text \<open>Recording an edit always succeeds from such a state, and gives such a state once the file has the new text.\<close>

lemma tracked_record:
  assumes t: "tracked C path component orig s0 s" and fresh: "find (for_component path component) (manifest s0) = None"
    and read: "read_tree_value C s path = Inr (VObj on_disk)" "wf_tree (VObj on_disk)"
    and orig: "read_tree_value C s0 path = Inr orig" "wf_tree orig"
    and new: "wf_tree (VObj new)" "\<not> veq (VObj new) orig"
    and s': "files s' = (files s)(path \<mapsto> text)" "manifest s' = manifest s"
    and tx: "valid_utf8 text" "parse_tree C text = Inr (VObj cur)" "wf_tree (VObj cur)" "veq (VObj new) (VObj cur)"
  shows "\<exists>s''. record_managed_tree_edit K now path (VObj on_disk) (VObj new) (files s path \<noteq> None) component s' = (Inr (), s'') \<and>
    tracked C path component orig s0 s''"
proof -
  have holds: "holds_object C (s'\<lparr>manifest := ms\<rparr>) path cur" for ms
    using s' tx by (auto simp: holds_object_def)
  show ?thesis
  proof (cases "s = s0")
    case True
    then have o: "orig = VObj on_disk" using read orig by simp
    have d: "diff (VObj on_disk) (VObj new) \<noteq> []" using diff_nonempty[OF read(2) new(1)] new(2) o by blast
    let ?e = "\<lparr>e_path = path, e_action = mk_patch K (diff (VObj on_disk) (VObj new)), e_component = component,
      e_file_created = \<not> files s path \<noteq> None, e_timestamp = now\<rparr>"
    have "tracked C path component orig s0 (s'\<lparr>manifest := manifest s' @ [?e]\<rparr>)"
      unfolding tracked_def
      by (intro disjI2 exI[of _ ?e] exI[of _ on_disk] exI[of _ new] exI[of _ cur])
        (use True holds s' read(2) new(1) tx(4) o veq_refl[OF read(2)] in
          \<open>auto simp: for_component_def simp del: wf_tree.simps veq.simps\<close>)
    with record_first[OF _ d, of path component s'] fresh True s'(2) show ?thesis by auto
  next
    case False
    obtain e old new0 cur0 where e: "manifest s = manifest s0 @ [e]" "for_component path component e"
      "e_action e = mk_patch K (diff (VObj old) (VObj new0))" "e_file_created e = (files s0 path = None)"
      and wf: "wf_tree (VObj old)" "wf_tree (VObj new0)" and v: "veq (VObj old) orig"
      and h: "holds_object C s path cur0" "veq (VObj new0) (VObj cur0)"
      and rest: "(files s)(path := None) = (files s0)(path := None)"
      using t False by (rule tracked_cases)
    have c: "cur0 = on_disk" using holds_object_reads[OF h(1)] read(1) by simp
    obtain res where res: "unapply (tag K) (VObj on_disk) (diff (VObj old) (VObj new0)) = (VObj res, [])"
      "veq (VObj res) (VObj old)" using unapply_diff[OF wf read(2)] h(2) c by blast
    have wr: "wf_tree (VObj res)"
      using wf_unapply_diff[OF wf read(2), of "tag K"] res(1) by (simp del: wf_tree.simps)
    have vr: "veq (VObj res) orig" using veq_trans[OF res(2) v wr wf(1) orig(2)] .
    have "\<not> veq (VObj new) (VObj res)" using veq_trans[OF _ vr new(1) wr orig(2)] new(2) by blast
    then have d: "diff (VObj res) (VObj new) \<noteq> []" by (rule diff_nonempty[OF wr new(1)])
    let ?e = "e\<lparr>e_action := mk_patch K (diff (VObj res) (VObj new))\<rparr>"
    have "tracked C path component orig s0 (s'\<lparr>manifest := manifest s0 @ [?e]\<rparr>)"
      unfolding tracked_def
      by (intro disjI2 exI[of _ ?e] exI[of _ res] exI[of _ new] exI[of _ cur])
        (use e holds s' wr new(1) tx(4) vr rest in
          \<open>auto simp: for_component_def simp del: wf_tree.simps veq.simps\<close>)
    with record_again[OF fresh _ e(2,3) _ d, of s' "VObj on_disk"] e(1) s'(2) res(1) show ?thesis by auto
  qed
qed

text \<open>So does a whole edit, whether the validator accepts the new text or not.\<close>

lemma tracked_write:
  assumes ok: "codec_ok C" and t: "tracked C path component orig s0 s"
    and fresh: "find (for_component path component) (manifest s0) = None"
    and orig: "read_tree_value C s0 path = Inr orig" "orig = VObj m0" "wf_tree orig"
    and new: "wf_tree (VObj new)" "\<not> veq (VObj new) orig"
  shows "tracked C path component orig s0 (snd (write_tree_value K C validate now path (VObj new) component s))"
proof -
  obtain t cur where t: "print_tree C (VObj new) = Inr t" "valid_utf8 (t @ [nl])"
    "parse_tree C (t @ [nl]) = Inr (VObj cur)" "wf_tree (VObj cur)" "veq (VObj new) (VObj cur)"
    using codec_print[OF ok new(1)] by blast
  obtain on_disk where d: "read_tree_value C s path = Inr (VObj on_disk)" "wf_tree (VObj on_disk)"
  proof (cases "s = s0")
    case True
    then show ?thesis using that orig by blast
  next
    case False
    from assms(2) False show ?thesis
      by (rule tracked_cases) (use that holds_object_reads holds_object_wf in blast)
  qed
  show ?thesis
  proof (cases "validate (t @ [nl])")
    case (Inl e)
    then show ?thesis using assms(2) t(1) by (simp add: write_tree_value_def)
  next
    case (Inr u)
    note rec = tracked_record[OF assms(2) fresh d orig(1,3) new _ _ t(2-5)]
    have readable: "files s path = Some b \<Longrightarrow> valid_utf8 b" for b
      using d(1) by (auto simp: read_tree_value_def read_to_string_def split: if_splits)
    show ?thesis
    proof (cases "files s path = Some (t @ [nl])")
      case True
      obtain s'' where "record_managed_tree_edit K now path (VObj on_disk) (VObj new) (files s path \<noteq> None) component s = (Inr (), s'')"
        "tracked C path component orig s0 s''" using rec[of s] True by (auto simp: fun_upd_idem)
      with True Inr t(1,2) d(1) show ?thesis
        by (simp add: write_tree_value_def write_managed_tree_def read_to_string_def)
    next
      case False
      obtain s'' where "record_managed_tree_edit K now path (VObj on_disk) (VObj new) (files s path \<noteq> None) component
          (write_file path (t @ [nl]) s) = (Inr (), s'')" "tracked C path component orig s0 s''"
        using rec[of "write_file path (t @ [nl]) s"] by (auto simp: write_file_def)
      with False Inr t(1) d(1) readable show ?thesis
        by (cases "files s path") (simp_all add: write_tree_value_def write_managed_tree_def read_to_string_def)
    qed
  qed
qed

lemma tracked_edits:
  assumes "codec_ok C" and "find (for_component path component) (manifest s) = None"
    and "read_tree_value C s path = Inr (VObj old)" and "wf_tree (VObj old)"
    and "\<forall>(validate, now, new) \<in> set edits. wf_tree (VObj new) \<and> \<not> veq (VObj new) (VObj old)"
  shows "tracked C path component (VObj old) s
    (fold (\<lambda>(validate, now, new) s. snd (write_tree_value K C validate now path (VObj new) component s)) edits s)"
proof (rule fold_keeps)
  fix edit s'
  assume e: "edit \<in> set edits" and t: "tracked C path component (VObj old) s s'"
  obtain validate now new where [simp]: "edit = (validate, now, new)" by (cases edit)
  have "wf_tree (VObj new)" "\<not> veq (VObj new) (VObj old)" using assms(5) e by fastforce+
  from tracked_write[OF assms(1) t assms(2,3) refl assms(4) this]
  show "tracked C path component (VObj old) s ((case edit of (validate, now, new) \<Rightarrow>
      \<lambda>s. snd (write_tree_value K C validate now path (VObj new) component s)) s')" by simp
qed (simp add: tracked_def)

lemma tracked_restore:
  assumes ok: "codec_ok (codec CJ CT)" and t: "tracked (codec CJ CT) path component orig s0 s"
    and fresh: "find (for_component path component) (manifest s0) = None"
    and orig: "read_tree_value (codec CJ CT) s0 path = Inr orig" "orig = VObj m0" "wf_tree orig"
  shows "\<exists>found s' v. restore_manifest_entry_component CJ CT path component s = (Inr found, s') \<and>
    manifest s' = manifest s0 \<and> (files s')(path := None) = (files s0)(path := None) \<and>
    (files s' path = None \<longleftrightarrow> files s0 path = None) \<and>
    read_tree_value (codec CJ CT) s' path = Inr v \<and> veq v orig"
proof (cases "s = s0")
  case True
  with fresh orig veq_refl[OF orig(3)] show ?thesis by (auto simp: restore_manifest_entry_component_def)
next
  case False
  let ?C = "codec CJ CT"
  obtain e old new cur where e: "manifest s = manifest s0 @ [e]" "for_component path component e"
    "e_action e = mk_patch K (diff (VObj old) (VObj new))" "e_file_created e = (files s0 path = None)"
    and wf: "wf_tree (VObj old)" "wf_tree (VObj new)" and v: "veq (VObj old) orig"
    and h: "holds_object ?C s path cur" "veq (VObj new) (VObj cur)"
    and rest: "(files s)(path := None) = (files s0)(path := None)"
    using t False by (rule tracked_cases)
  obtain b where b: "files s path = Some b" "valid_utf8 b" "parse_tree ?C b = Inr (VObj cur)" "wf_tree (VObj cur)"
    using h(1) unfolding holds_object_def by blast
  obtain res where res: "unapply (tag K) (VObj cur) (diff (VObj old) (VObj new)) = (VObj res, [])"
    "veq (VObj res) (VObj old)" using unapply_diff[OF wf b(4) h(2)] by blast
  have wr: "wf_tree (VObj res)" using wf_unapply_diff[OF wf b(4), of "tag K"] res(1) by (simp del: wf_tree.simps)
  obtain t m where t: "print_tree ?C (VObj res) = Inr t" "valid_utf8 (t @ [nl])"
    "parse_tree ?C (t @ [nl]) = Inr (VObj m)" "wf_tree (VObj m)" "veq (VObj res) (VObj m)"
    using codec_print[OF ok wr] by blast
  have vm: "veq (VObj m) orig"
    using veq_trans[OF veq_sym[OF t(5) wr t(4)] veq_trans[OF res(2) v wr wf(1) orig(3)] t(4) wr orig(3)] .
  let ?s1 = "write_file path (t @ [nl]) s"
  let ?s2 = "if files s0 path = None then remove_if_exists path ?s1 else ?s1"
  have empty: "m = []" if "files s0 path = None"
    using vm orig that by (auto simp: read_tree_value_def)
  have "unapply_tree_file (tag K) ?C path (diff (VObj old) (VObj new)) s = (Inr (), ?s1)"
    using b t(1) res(1) by (simp add: unapply_tree_file_def read_to_string_def)
  moreover have "remove_empty_created_tree_file ?C e path ?s1 = (Inr (), ?s2)"
    using e(4) t(2,3) empty
    by (auto simp: remove_empty_created_tree_file_def read_to_string_def write_file_def)
  ultimately have u: "unapply_entry CJ CT e s = (Inr (''unapplied '' @ what @ '' patch on '' @ path), ?s2)"
    using e(2) b(1) by (simp add: undo_mk[OF e(3)] unapply_patch_def for_component_def)
  have "find (for_component path component) (manifest s) = Some e" using e(1,2) fresh by (simp add: find_append_last)
  with u have r: "restore_manifest_entry_component CJ CT path component s = (Inr True, ?s2\<lparr>manifest := remove1 e (manifest ?s2)\<rparr>)"
    by (simp add: restore_manifest_entry_component_def)
  have "remove1 e (manifest ?s2) = manifest s0"
    using e(1) remove1_last[OF fresh e(2)] by (auto simp: write_file_def remove_if_exists_def)
  moreover have "read_tree_value ?C (?s2\<lparr>manifest := ms\<rparr>) path = Inr (VObj m)" for ms
    using t(2,3) empty by (auto simp: read_tree_value_def read_to_string_def write_file_def remove_if_exists_def)
  ultimately show ?thesis
    using r vm rest
    by (auto simp: write_file_def remove_if_exists_def fun_upd_def fun_eq_iff simp del: veq.simps split: if_splits)
qed

end

interpretation json_patches: patch_kind json_kind "\<lambda>CJ CT. CJ" "''JSON''"
  by unfold_locales (simp_all add: json_kind_def unapply_entry.simps)

interpretation toml_patches: patch_kind toml_kind "\<lambda>CJ CT. CT" "''TOML''"
  by unfold_locales (simp_all add: toml_kind_def unapply_entry.simps)

text \<open>A run of edits of one file by one component: each with the validator and the clock of its call.\<close>

definition apply_json_edits ::
  "json_scalar tree_codec \<Rightarrow> string \<Rightarrow> string \<Rightarrow> ((string \<Rightarrow> string + unit) \<times> string \<times> (string \<times> json_value) list) list \<Rightarrow>
   store \<Rightarrow> store" where
  "apply_json_edits CJ path component edits s =
     fold (\<lambda>(validate, now, new) s. snd (write_json_value CJ validate now path (VObj new) component s)) edits s"

definition apply_toml_edits ::
  "toml_scalar tree_codec \<Rightarrow> string \<Rightarrow> string \<Rightarrow> ((string \<Rightarrow> string + unit) \<times> string \<times> (string \<times> toml_value) list) list \<Rightarrow>
   store \<Rightarrow> store" where
  "apply_toml_edits CT path component edits s =
     fold (\<lambda>(validate, now, new) s. snd (write_toml_value CT validate now path (VObj new) component s)) edits s"

text \<open>
  C13. What a component wrote to a JSON file is undone, as long as it never writes the original back. Start from a store in which
  the component has no entry for the path and the path is absent or holds an object, and let the component
  write any sequence of objects, none of them equal to the original (some writes may be rejected by the
  validator). Then undoing the component's entry succeeds, the manifest is the one before the edits, no other
  file was touched, the path exists exactly if it existed before, and it reads as an object equal to the original.
  That no edit equals the original is needed: undoing an edit that changed nothing deletes the file
  (\<open>unchanged_edit_deletes_file\<close>). What the printer of the format prints is parsed to an equal value (\<open>codec_ok\<close>).
\<close>
theorem json_edits_are_undone:
  assumes "codec_ok CJ" and "find (for_component path component) (manifest s) = None"
    and "read_tree_value CJ s path = Inr (VObj old)" and "wf_tree (VObj old)"
    and "\<forall>(validate, now, new) \<in> set edits. wf_tree (VObj new) \<and> \<not> veq (VObj new) (VObj old)"
  shows "\<exists>found s' v.
    restore_manifest_entry_component CJ CT path component (apply_json_edits CJ path component edits s) = (Inr found, s') \<and>
    manifest s' = manifest s \<and> (files s')(path := None) = (files s)(path := None) \<and>
    (files s' path = None \<longleftrightarrow> files s path = None) \<and> read_tree_value CJ s' path = Inr v \<and> veq v (VObj old)"
proof -
  have "json_patches.tracked CJ path component (VObj old) s (apply_json_edits CJ path component edits s)"
    unfolding apply_json_edits_def write_json_value_def using assms by (rule json_patches.tracked_edits)
  from json_patches.tracked_restore[OF assms(1) this assms(2,3) refl assms(4)] show ?thesis .
qed

lemma toml_edits_are_undone:
  assumes "codec_ok CT" and "find (for_component path component) (manifest s) = None"
    and "read_tree_value CT s path = Inr (VObj old)" and "wf_tree (VObj old)"
    and "\<forall>(validate, now, new) \<in> set edits. wf_tree (VObj new) \<and> \<not> veq (VObj new) (VObj old)"
  shows "\<exists>found s' v.
    restore_manifest_entry_component CJ CT path component (apply_toml_edits CT path component edits s) = (Inr found, s') \<and>
    manifest s' = manifest s \<and> (files s')(path := None) = (files s)(path := None) \<and>
    (files s' path = None \<longleftrightarrow> files s path = None) \<and> read_tree_value CT s' path = Inr v \<and> veq v (VObj old)"
proof -
  have "toml_patches.tracked CT path component (VObj old) s (apply_toml_edits CT path component edits s)"
    unfolding apply_toml_edits_def write_toml_value_def using assms by (rule toml_patches.tracked_edits)
  from toml_patches.tracked_restore[OF assms(1) this assms(2,3) refl assms(4)] show ?thesis .
qed

text \<open>A codec that meets the contract: trees are countable, so a tree can be printed as its number in unary.\<close>

instance json_scalar :: countable by countable_datatype
instance toml_scalar :: countable by countable_datatype
instance vtree :: (countable) countable by countable_datatype

definition unary_codec :: "'s :: countable tree_codec" where
  "unary_codec =
     \<lparr>parse_tree = (\<lambda>b. let v = from_nat (length b - 1) in if wf_tree v then Inr v else Inl ''duplicate key''),
      print_tree = (\<lambda>v. Inr (replicate (to_nat v) CHR ''1''))\<rparr>"

lemma valid_utf8_ones: "valid_utf8 (replicate n CHR ''1'' @ [nl])"
proof (rule valid_utf8_append)
  show "valid_utf8 (replicate n CHR ''1'')" by (induction n) (simp_all add: valid_utf8_Cons byte_in_def)
qed (simp add: nl_def byte_in_def)

lemma unary_codec_ok: "codec_ok unary_codec"
  using valid_utf8_ones veq_refl
  by (auto simp: codec_ok_def unary_codec_def Let_def simp del: wf_tree.simps veq.simps split: if_splits)

definition example_store :: store where
  "example_store =
     \<lparr>files = [''settings.json'' \<mapsto> replicate (to_nat (VObj example_old)) CHR ''1'' @ [nl]], manifest = []\<rparr>"

lemma example_store_reads: "read_tree_value unary_codec example_store ''settings.json'' = Inr (VObj example_old)"
  using valid_utf8_ones[of "to_nat (VObj example_old)"]
  by (simp add: read_tree_value_def read_to_string_def example_store_def unary_codec_def Let_def)
    (simp add: example_defs)

text \<open>Two edits of an existing file: the hook and the redirected URL, then a theme.\<close>

theorem json_edits_are_undone_witness:
  "\<exists>found s' v.
    restore_manifest_entry_component unary_codec unary_codec ''settings.json'' ''routing''
      (apply_json_edits unary_codec ''settings.json'' ''routing''
         [(\<lambda>_. Inr (), ''t1'', example_new), (\<lambda>_. Inr (), ''t2'', example_user)] example_store) = (Inr found, s') \<and>
    manifest s' = [] \<and> files s' ''settings.json'' \<noteq> None \<and>
    read_tree_value unary_codec s' ''settings.json'' = Inr v \<and> veq v (VObj example_old)"
proof -
  have wf: "wf_tree (VObj example_old)" by (simp add: example_defs)
  have edits: "\<forall>(validate, now, new) \<in> set [(\<lambda>_. Inr () :: string + unit, ''t1'', example_new), (\<lambda>_. Inr (), ''t2'', example_user)].
      wf_tree (VObj new) \<and> \<not> veq (VObj new) (VObj example_old)"
    by (simp add: example_defs)
  have "find (for_component ''settings.json'' ''routing'') (manifest example_store) = None"
    "manifest example_store = []" "files example_store ''settings.json'' \<noteq> None"
    by (simp_all add: example_store_def)
  with json_edits_are_undone[OF unary_codec_ok this(1) example_store_reads wf edits] show ?thesis by metis
qed

text \<open>An edit that changes nothing is recorded like the creation of the file: if the component never changed
  the file before, undoing the entry deletes the file the user had.\<close>

lemma diff_equal:
  assumes "wf_tree (VObj old)" and "wf_tree (VObj new)" and "veq (VObj old) (VObj new)"
  shows "diff (VObj old) (VObj new) = []"
proof -
  have "\<not> changed old new k" for k using assms veq_obj[of old new] by (auto simp: changed_def)
  then show ?thesis using diff_by_keys[of old new] assms(1,2) key_ops_unchanged[of old new] by (simp add: diff_def del: diff_recursive.simps)
qed

theorem unchanged_edit_deletes_file:
  assumes "codec_ok CJ" and "find (for_component path component) (manifest s) = None"
    and "holds_object CJ s path old" and "wf_tree (VObj new)" and "veq (VObj old) (VObj new)"
    and "\<And>t. validate t = Inr ()"
  shows "\<exists>changed s' s''. write_json_value CJ validate now path (VObj new) component s = (Inr changed, s') \<and>
    restore_manifest_entry_component CJ CT path component s' = (Inr True, s'') \<and> files s'' path = None"
proof -
  obtain b where b: "files s path = Some b" "valid_utf8 b" "wf_tree (VObj old)"
    using assms(3) unfolding holds_object_def by blast
  note d = diff_equal[OF b(3) assms(4,5)] and r = holds_object_reads[OF assms(3)]
  obtain t where t: "print_tree CJ (VObj new) = Inr t" using codec_print[OF assms(1,4)] by blast
  let ?e = "\<lparr>e_path = path, e_action = Created, e_component = component, e_file_created = False, e_timestamp = now\<rparr>"
  let ?s = "if b = t @ [nl] then s else write_file path (t @ [nl]) s"
  have w: "write_json_value CJ validate now path (VObj new) component s =
      (Inr (b \<noteq> t @ [nl]), ?s\<lparr>manifest := manifest s @ [?e]\<rparr>)"
    using assms(2,6) b t r d
    by (simp add: write_json_value_def write_tree_value_def write_managed_tree_def read_to_string_def
        record_managed_tree_edit_def make_tree_action_def write_file_def)
  have "restore_manifest_entry_component CJ CT path component (?s\<lparr>manifest := manifest s @ [?e]\<rparr>) =
      (Inr True, (remove_if_exists path (?s\<lparr>manifest := manifest s @ [?e]\<rparr>))\<lparr>manifest := manifest s\<rparr>)"
    using assms(2) remove1_last[OF assms(2), of ?e]
    by (simp add: restore_manifest_entry_component_def find_append_last unapply_entry.simps remove_if_exists_def for_component_def)
  with w show ?thesis by (auto simp: remove_if_exists_def)
qed

section \<open>Appended lines are undone\<close>

definition ensure_lines :: "string \<Rightarrow> string \<Rightarrow> (string \<times> string) list \<Rightarrow> store \<Rightarrow> store" where
  "ensure_lines now path ls s = fold (\<lambda>(line, component) s. snd (ensure_line now path line component s)) ls s"

text \<open>The states between two calls: untouched, or the added lines at the end of the file and in one entry.\<close>

definition lines_tracked :: "string \<Rightarrow> string list \<Rightarrow> store \<Rightarrow> store \<Rightarrow> bool" where
  "lines_tracked path own s0 s =
     (s = s0 \<or>
      (\<exists>e added. manifest s = manifest s0 @ [e] \<and> e_path e = path \<and> e_action e = LinesAppended added \<and> added \<noteq> [] \<and>
         files s = (files s0)(path \<mapsto> text_of (own @ added)) \<and> list_all plain_line added \<and>
         (\<forall>a \<in> set added. \<forall>l \<in> set own. trim l \<noteq> trim a)))"

lemma lines_tracked_cases:
  assumes "lines_tracked path own s0 s"
  obtains "s = s0"
  | e added where "manifest s = manifest s0 @ [e]" "e_path e = path" "e_action e = LinesAppended added" "added \<noteq> []"
    "files s = (files s0)(path \<mapsto> text_of (own @ added))" "list_all plain_line added"
    "\<And>a l. a \<in> set added \<Longrightarrow> l \<in> set own \<Longrightarrow> trim l \<noteq> trim a"
  using assms unfolding lines_tracked_def by (elim disjE exE conjE) simp_all

lemma add_line_fields:
  "e_path (add_line line component e) = e_path e"
  "e_action e = LinesAppended ls \<Longrightarrow>
     e_action (add_line line component e) = LinesAppended (if list_ex (\<lambda>l. trim l = trim line) ls then ls else ls @ [line])"
  by (auto simp: add_line_def Let_def split: ManifestAction.splits)

definition file_of_lines :: "store \<Rightarrow> string \<Rightarrow> string list \<Rightarrow> bool" where
  "file_of_lines s path own =
     (files s path = Some (text_of own) \<and> list_ex (\<lambda>l. trim l \<noteq> []) own \<or> files s path = None \<and> own = [])"

lemma find_path_None: "\<not> list_ex (\<lambda>e. e_path e = path) ms \<Longrightarrow> find (\<lambda>e. e_path e = path) ms = None"
  by (induction ms) auto

lemma lines_tracked_ensure:
  assumes t: "lines_tracked path own s0 s" and f: "file_of_lines s0 path own" and own: "list_all plain_line own"
    and fresh: "\<not> list_ex (\<lambda>e. e_path e = path) (manifest s0)"
    and line: "plain_line line" "\<And>l. l \<in> set own \<Longrightarrow> trim l \<noteq> trim line"
  shows "lines_tracked path own s0 (snd (ensure_line now path line component s))"
  using t
proof (cases rule: lines_tracked_cases)
  case 1
  let ?e = "\<lparr>e_path = path, e_action = LinesAppended [line], e_component = component, e_file_created = False, e_timestamp = now\<rparr>"
  have "(if files s path = None then Inr [] else read_to_string s path) = Inr (text_of own)"
    using f 1 valid_utf8_text_of[OF own] by (auto simp: file_of_lines_def read_to_string_def)
  moreover have "\<not> list_ex (\<lambda>l. trim l = trim line) (lines (text_of own))"
    using line(2) lines_text_of[OF own] by (auto simp: list_ex_iff)
  moreover have "\<not> (text_of own \<noteq> [] \<and> last (text_of own) \<noteq> nl)" using last_text_of by auto
  ultimately have "snd (ensure_line now path line component s) =
      record_line_in_manifest now path line component (write_file path (text_of (own @ [line])) s)"
    by (auto simp: ensure_line_def Let_def)
  also have "\<dots> = s\<lparr>files := (files s)(path \<mapsto> text_of (own @ [line])), manifest := manifest s @ [?e]\<rparr>"
    using fresh 1 by (simp add: record_line_in_manifest_def write_file_def)
  finally show ?thesis using 1 line unfolding lines_tracked_def
    by (intro disjI2 exI[of _ ?e] exI[of _ "[line]"]) simp
next
  case (2 e added)
  have all: "list_all plain_line (own @ added)" using own 2(6) by simp
  have c: "(if files s path = None then Inr [] else read_to_string s path) = Inr (text_of (own @ added))"
    using 2(5) valid_utf8_text_of[OF all] by (simp add: read_to_string_def)
  have u: "update_first (\<lambda>e. e_path e = path) f (manifest s) = manifest s0 @ [f e]" for f
    using 2(1,2) find_path_None[OF fresh] by (simp add: update_first_find)
  have m: "list_ex (\<lambda>e. e_path e = path) (manifest s)" using 2(1,2) by simp
  note f = add_line_fields(1) add_line_fields(2)[OF 2(3)]
  have ex: "list_ex (\<lambda>l. trim l = trim line) (lines (text_of (own @ added))) \<longleftrightarrow> list_ex (\<lambda>l. trim l = trim line) added"
    using lines_text_of[OF all] line(2) by (auto simp: list_ex_iff)
  show ?thesis
  proof (cases "list_ex (\<lambda>l. trim l = trim line) added")
    case True
    with c ex have "snd (ensure_line now path line component s) = record_line_in_manifest now path line component s"
      by (simp add: ensure_line_def)
    also have "\<dots> = s\<lparr>manifest := manifest s0 @ [add_line line component e]\<rparr>"
      using m by (simp add: record_line_in_manifest_def u)
    finally show ?thesis using 2 f True unfolding lines_tracked_def
      by (intro disjI2 exI[of _ "add_line line component e"] exI[of _ added]) simp
  next
    case False
    with c ex have "snd (ensure_line now path line component s) =
        record_line_in_manifest now path line component (write_file path (text_of (own @ added @ [line])) s)"
      using last_text_of[of "own @ added"] 2(4) by (simp add: ensure_line_def Let_def)
    also have "\<dots> = s\<lparr>files := (files s)(path \<mapsto> text_of (own @ added @ [line])), manifest := manifest s0 @ [add_line line component e]\<rparr>"
      using m by (simp add: record_line_in_manifest_def u write_file_def)
    finally show ?thesis using 2 f False line unfolding lines_tracked_def
      by (intro disjI2 exI[of _ "add_line line component e"] exI[of _ "added @ [line]"]) auto
  qed
qed

lemma lines_tracked_restore:
  assumes t: "lines_tracked path own s0 s" and f: "file_of_lines s0 path own" and own: "list_all plain_line own"
    and fresh: "\<not> list_ex (\<lambda>e. e_path e = path) (manifest s0)"
  shows "\<exists>found. restore_manifest_entry CJ CT path s = (Inr found, s0)"
  using t
proof (cases rule: lines_tracked_cases)
  case 1
  with fresh show ?thesis by (auto simp: restore_manifest_entry_def filter_empty_conv list_ex_iff)
next
  case (2 e added)
  have all: "list_all plain_line (own @ added)" using own 2(6) by simp
  have fil: "filter (\<lambda>l. \<not> list_ex (\<lambda>rm. trim l = trim rm) added) (own @ added) = own"
    using 2(7) by (auto simp: list_ex_iff filter_id_conv filter_empty_conv)
  have r: "read_to_string s path = Inr (text_of (own @ added))"
    using 2(5) valid_utf8_text_of[OF all] by (simp add: read_to_string_def)
  have "remove_lines path added s = (Inr (), s\<lparr>files := files s0\<rparr>)"
  proof (cases "own = []")
    case True
    with f have "files s0 path = None" by (auto simp: file_of_lines_def)
    with r fil lines_text_of[OF all] 2(4,5) True show ?thesis
      by (simp add: remove_lines_def remove_if_exists_def fun_upd_idem)
  next
    case False
    with f have n: "files s0 path = Some (text_of own)" "list_ex (\<lambda>l. trim l \<noteq> []) own" by (auto simp: file_of_lines_def)
    have "join [nl] own \<noteq> []"
    proof
      assume "join [nl] own = []"
      with join_text_of[OF False] have "text_of own = [nl]" by simp
      then have "own = [[]]" using False by (cases own) (auto simp: append_eq_Cons_conv)
      then show False using n(2) by simp
    qed
    moreover have "\<not> list_all (\<lambda>l. trim l = []) own" using n(2) by (auto simp: list_ex_iff list_all_iff)
    ultimately show ?thesis
      using r fil lines_text_of[OF all] 2(4,5) n(1) last_text_of[of "own @ added"] join_text_of[OF False]
      by (simp add: remove_lines_def write_file_def Let_def fun_upd_idem)
  qed
  moreover have "filter (\<lambda>e. e_path e = path) (manifest s) = [e]" "filter (\<lambda>e. e_path e \<noteq> path) (manifest s) = manifest s0"
    using 2(1,2) fresh by (auto simp: filter_empty_conv filter_id_conv list_ex_iff)
  ultimately show ?thesis
    using 2 by (auto simp: restore_manifest_entry_def unapply_entry.simps)
qed

text \<open>
  Lines appended to a shell start-up file are taken out exactly. For a file of complete lines (or no file)
  with no entry in the manifest, any number of lines appended by any components, none of them already there,
  and then undone, leave the store as it was: the same bytes, or again no file.
\<close>

theorem appended_lines_are_undone:
  assumes "file_of_lines s path own" and "list_all plain_line own"
    and "\<not> list_ex (\<lambda>e. e_path e = path) (manifest s)"
    and "\<forall>(line, component) \<in> set ls. plain_line line \<and> (\<forall>l \<in> set own. trim l \<noteq> trim line)"
  shows "\<exists>found. restore_manifest_entry CJ CT path (ensure_lines now path ls s) = (Inr found, s)"
proof -
  have "lines_tracked path own s (ensure_lines now path ls s)"
    unfolding ensure_lines_def
  proof (rule fold_keeps)
    fix lc s'
    assume lc: "lc \<in> set ls" and t: "lines_tracked path own s s'"
    obtain line component where [simp]: "lc = (line, component)" by (cases lc)
    have "plain_line line" "\<And>l. l \<in> set own \<Longrightarrow> trim l \<noteq> trim line" using assms(4) lc by fastforce+
    from lines_tracked_ensure[OF t assms(1-3) this]
    show "lines_tracked path own s ((case lc of (line, component) \<Rightarrow> \<lambda>s. snd (ensure_line now path line component s)) s')"
      by simp
  qed (simp add: lines_tracked_def)
  from lines_tracked_restore[OF this assms(1-3)] show ?thesis .
qed

theorem appended_lines_are_undone_witness:
  "\<exists>found. restore_manifest_entry unary_codec unary_codec ''.zshrc''
     (ensure_lines ''t'' ''.zshrc'' [(''source env'', ''hooks''), (''export PATH'', ''install'')]
        \<lparr>files = [''.zshrc'' \<mapsto> text_of [''alias ll'']], manifest = []\<rparr>) =
   (Inr found, \<lparr>files = [''.zshrc'' \<mapsto> text_of [''alias ll'']], manifest = []\<rparr>)"
proof (rule appended_lines_are_undone[where own = "[''alias ll'']"])
  have t: "trim ''alias ll'' = ''alias ll''" "trim ''source env'' = ''source env''" "trim ''export PATH'' = ''export PATH''"
    by (simp_all add: trim_graph byte_in_def)
  have p: "plain_line ''alias ll''" "plain_line ''source env''" "plain_line ''export PATH''"
    by (simp_all add: plain_line_def nl_def cr_def byte_in_def)
  show "file_of_lines \<lparr>files = [''.zshrc'' \<mapsto> text_of [''alias ll'']], manifest = []\<rparr> ''.zshrc'' [''alias ll'']"
    by (simp add: file_of_lines_def t)
  show "list_all plain_line [''alias ll'']" by (simp add: p)
  show "\<forall>(line, component) \<in> set [(''source env'', ''hooks''), (''export PATH'', ''install'')].
      plain_line line \<and> (\<forall>l \<in> set [''alias ll'']. trim l \<noteq> trim line)" by (simp add: p t)
qed simp

end
