(* ===== verification/ConfigEdit.thy ===== *)
theory ConfigEdit
  imports ConfigPatch
begin

text \<open>
  The editing primitives of \<^verbatim>\<open>cli/src/integration.rs\<close> on parsed agent configurations: setting a value at a
  path, membership in an array, merging entries into a table, registering and removing command hooks. Each
  returns whether it changed anything, with the tree it leaves. On the way to a path a value that is not an
  object is replaced by an empty one, as \<^verbatim>\<open>as_json_object\<close> and \<^verbatim>\<open>as_toml_table\<close> do.
\<close>

section \<open>Access\<close>

fun vget :: "string \<Rightarrow> 's vtree \<Rightarrow> 's vtree option" where
  "vget k (VObj m) = map_of m k"
| "vget k _ = None"

fun j_str :: "json_value \<Rightarrow> string option" where
  "j_str (VLeaf (SStr s)) = Some s"
| "j_str _ = None"

fun j_i64 :: "json_value \<Rightarrow> int option" where
  "j_i64 (VLeaf (SInt i)) = (if - (2 ^ 63) \<le> i \<and> i < 2 ^ 63 then Some i else None)"
| "j_i64 _ = None"

fun t_str :: "toml_value \<Rightarrow> string option" where
  "t_str (VLeaf (TStr s)) = Some s"
| "t_str _ = None"

fun t_bool :: "toml_value \<Rightarrow> bool option" where
  "t_bool (VLeaf (TBool b)) = Some b"
| "t_bool _ = None"

fun as_arr :: "'s vtree \<Rightarrow> 's vtree list option" where
  "as_arr (VArr xs) = Some xs"
| "as_arr _ = None"

text \<open>\<^verbatim>\<open>as_json_object\<close>, \<^verbatim>\<open>as_toml_table\<close> and \<^verbatim>\<open>as_json_array\<close>: the contents, after replacing a value of
  another kind by an empty one.\<close>

definition as_json_object :: "'s vtree \<Rightarrow> (string \<times> 's vtree) list" where
  "as_json_object v = unwrap_or (as_obj v) []"

definition as_json_array :: "'s vtree \<Rightarrow> 's vtree list" where
  "as_json_array v = unwrap_or (as_arr v) []"

section \<open>Edits at a path\<close>

text \<open>The descent the setters share: make the cursor an object at every step, create what is absent, and edit
  the object the path leads to.\<close>

fun edit_at :: "string list \<Rightarrow> ((string \<times> 's vtree) list \<Rightarrow> bool \<times> (string \<times> 's vtree) list) \<Rightarrow> 's vtree \<Rightarrow> bool \<times> 's vtree" where
  "edit_at [] f v = (let (changed, m) = f (as_json_object v) in (changed, VObj m))"
| "edit_at (k # path) f v =
     (let m = as_json_object v;
          (changed, child) = edit_at path f (unwrap_or (map_of m k) (VObj []))
      in (changed, VObj (AList.update k child m)))"

definition put :: "('s vtree \<Rightarrow> bool) \<Rightarrow> string \<Rightarrow> 's vtree \<Rightarrow> (string \<times> 's vtree) list \<Rightarrow> bool \<times> (string \<times> 's vtree) list" where
  "put same leaf value m =
     (case map_of m leaf of
        Some v \<Rightarrow> if same v then (False, m) else (True, AList.update leaf value m)
      | None \<Rightarrow> (True, AList.update leaf value m))"

definition put_path :: "('s vtree \<Rightarrow> bool) \<Rightarrow> 's vtree \<Rightarrow> string list \<Rightarrow> 's vtree \<Rightarrow> bool \<times> 's vtree" where
  "put_path same tree path value =
     (if path = [] then (False, tree) else edit_at (butlast path) (put same (last path) value) tree)"

definition set_json_string_path :: "json_value \<Rightarrow> string list \<Rightarrow> string \<Rightarrow> bool \<times> json_value" where
  "set_json_string_path tree path value = put_path (\<lambda>v. j_str v = Some value) tree path (VLeaf (SStr value))"

definition set_json_value_path :: "json_value \<Rightarrow> string list \<Rightarrow> json_value \<Rightarrow> bool \<times> json_value" where
  "set_json_value_path tree path value = put_path (\<lambda>v. veq v value) tree path value"

definition ensure_toml_string_path :: "toml_value \<Rightarrow> string list \<Rightarrow> string \<Rightarrow> bool \<times> toml_value" where
  "ensure_toml_string_path tree path value = put_path (\<lambda>v. t_str v = Some value) tree path (VLeaf (TStr value))"

definition ensure_toml_bool_path :: "toml_value \<Rightarrow> string list \<Rightarrow> bool \<Rightarrow> bool \<times> toml_value" where
  "ensure_toml_bool_path tree path value = put_path (\<lambda>v. t_bool v = Some value) tree path (VLeaf (TBool value))"

fun merge_entries :: "(string \<times> string) list \<Rightarrow> (string \<times> toml_value) list \<Rightarrow> bool \<times> (string \<times> toml_value) list" where
  "merge_entries [] m = (False, m)"
| "merge_entries ((key, value) # entries) m =
     (let (c1, m) = put (\<lambda>v. t_str v = Some value) key (VLeaf (TStr value)) m;
          (c2, m) = merge_entries entries m
      in (c1 \<or> c2, m))"

definition merge_toml_string_entries :: "toml_value \<Rightarrow> string list \<Rightarrow> (string \<times> string) list \<Rightarrow> bool \<times> toml_value" where
  "merge_toml_string_entries tree table_path entries =
     (if entries = [] then (False, tree) else edit_at table_path (merge_entries entries) tree)"

definition add_member :: "string \<Rightarrow> string \<Rightarrow> (string \<times> json_value) list \<Rightarrow> bool \<times> (string \<times> json_value) list" where
  "add_member leaf value m =
     (case unwrap_or (map_of m leaf) (VArr []) of
        VArr items \<Rightarrow>
          if list_ex (\<lambda>v. j_str v = Some value) items then (False, AList.update leaf (VArr items) m)
          else (True, AList.update leaf (VArr (items @ [VLeaf (SStr value)])) m)
      | _ \<Rightarrow> (False, m))"

definition ensure_json_array_contains :: "json_value \<Rightarrow> string list \<Rightarrow> string \<Rightarrow> bool \<times> json_value" where
  "ensure_json_array_contains tree path value =
     (if path = [] then (False, tree) else edit_at (butlast path) (add_member (last path) value) tree)"

section \<open>Removal of a credential\<close>

definition is_kyris_key :: "string \<Rightarrow> bool" where
  "is_kyris_key s = prefix ''sk-kyris-'' s"

fun remove_string_at :: "string list \<Rightarrow> string \<Rightarrow> (string \<Rightarrow> bool) \<Rightarrow> json_value \<Rightarrow> bool \<times> json_value" where
  "remove_string_at [] leaf pred v =
     (case v of
        VObj m \<Rightarrow> (case Option.bind (map_of m leaf) j_str of
                     Some s \<Rightarrow> if pred s then (True, VObj (AList.delete leaf m)) else (False, v)
                   | None \<Rightarrow> (False, v))
      | _ \<Rightarrow> (False, v))"
| "remove_string_at (k # path) leaf pred v =
     (case v of
        VObj m \<Rightarrow> (case map_of m k of
                     Some child \<Rightarrow> let (changed, child) = remove_string_at path leaf pred child
                                    in (changed, VObj (AList.update k child m))
                   | None \<Rightarrow> (False, v))
      | _ \<Rightarrow> (False, v))"

definition remove_json_string_if :: "json_value \<Rightarrow> string list \<Rightarrow> (string \<Rightarrow> bool) \<Rightarrow> bool \<times> json_value" where
  "remove_json_string_if tree path pred =
     (if path = [] then (False, tree) else remove_string_at (butlast path) (last path) pred tree)"

section \<open>Command hooks\<close>

definition is_command :: "string \<Rightarrow> json_value \<Rightarrow> bool" where
  "is_command command hook =
     (Option.bind (vget ''type'' hook) j_str = Some ''command'' \<and> Option.bind (vget ''command'' hook) j_str = Some command)"

definition entry_has_command :: "json_value \<Rightarrow> string \<Rightarrow> bool" where
  "entry_has_command entry command =
     (is_command command entry \<or>
      (case Option.bind (vget ''hooks'' entry) as_arr of
         Some nested \<Rightarrow> list_ex (is_command command) nested | None \<Rightarrow> False))"

definition command_contains :: "string \<Rightarrow> json_value \<Rightarrow> bool" where
  "command_contains substr hook =
     (case Option.bind (vget ''command'' hook) j_str of Some cmd \<Rightarrow> sublist substr cmd | None \<Rightarrow> False)"

definition entry_has_command_substr :: "json_value \<Rightarrow> string \<Rightarrow> bool" where
  "entry_has_command_substr entry substr =
     (command_contains substr entry \<or>
      (case Option.bind (vget ''hooks'' entry) as_arr of
         Some nested \<Rightarrow> list_ex (command_contains substr) nested | None \<Rightarrow> False))"

text \<open>Change the first element that meets a condition, where there is one and the change applies.\<close>

fun map_first :: "('a \<Rightarrow> bool) \<Rightarrow> ('a \<Rightarrow> 'a option) \<Rightarrow> 'a list \<Rightarrow> 'a list option" where
  "map_first P f [] = None"
| "map_first P f (x # xs) =
     (if P x then map_option (\<lambda>y. y # xs) (f x) else map_option (\<lambda>ys. x # ys) (map_first P f xs))"

definition set_timeout :: "int \<Rightarrow> json_value \<Rightarrow> json_value option" where
  "set_timeout t handler =
     (if Option.bind (vget ''timeout'' handler) j_i64 = Some t then None
      else Some (VObj (AList.update ''timeout'' (VLeaf (SInt t)) (as_json_object handler))))"

definition reconcile_entry :: "string \<Rightarrow> bool \<Rightarrow> int \<Rightarrow> json_value \<Rightarrow> json_value option" where
  "reconcile_entry command nested t existing =
     (if nested then
        (case Option.bind (vget ''hooks'' existing) as_arr of
           None \<Rightarrow> None
         | Some handlers \<Rightarrow>
             map_option (\<lambda>hs. VObj (AList.update ''hooks'' (VArr hs) (as_json_object existing)))
               (map_first (\<lambda>h. Option.bind (vget ''command'' h) j_str = Some command) (set_timeout t) handlers))
      else set_timeout t existing)"

definition hook_entry :: "string \<Rightarrow> bool \<Rightarrow> int option \<Rightarrow> json_value" where
  "hook_entry command nested timeout =
     (let inner = VObj ([(''type'', VLeaf (SStr ''command'')), (''command'', VLeaf (SStr command))] @
                        (case timeout of Some t \<Rightarrow> [(''timeout'', VLeaf (SInt t))] | None \<Rightarrow> []))
      in if nested then VObj [(''matcher'', VLeaf (SStr [])), (''hooks'', VArr [inner])] else inner)"

definition ensure_hook_in :: "string \<Rightarrow> bool \<Rightarrow> int option \<Rightarrow> json_value list \<Rightarrow> bool \<times> json_value list" where
  "ensure_hook_in command nested timeout hooks =
     (if list_ex (\<lambda>e. entry_has_command e command) hooks then
        (case timeout of
           None \<Rightarrow> (False, hooks)
         | Some t \<Rightarrow>
             (case map_first (\<lambda>e. entry_has_command e command) (reconcile_entry command nested t) hooks of
                Some hooks \<Rightarrow> (True, hooks) | None \<Rightarrow> (False, hooks)))
      else (True, hooks @ [hook_entry command nested timeout]))"

definition ensure_json_command_hook :: "json_value \<Rightarrow> string \<Rightarrow> string \<Rightarrow> bool \<Rightarrow> int option \<Rightarrow> bool \<times> json_value" where
  "ensure_json_command_hook tree phase command nested timeout =
     edit_at [''hooks'']
       (\<lambda>m. let (changed, hs) = ensure_hook_in command nested timeout (as_json_array (unwrap_or (map_of m phase) (VArr [])))
             in (changed, AList.update phase (VArr hs) m)) tree"

definition remove_json_command_hook :: "json_value \<Rightarrow> string \<Rightarrow> string \<Rightarrow> bool \<times> json_value" where
  "remove_json_command_hook tree phase command_substr =
     (case tree of
        VObj m \<Rightarrow>
          (case map_of m ''hooks'' of
             Some (VObj hooks) \<Rightarrow>
               (case map_of hooks phase of
                  Some (VArr phase_hooks) \<Rightarrow>
                    let kept = filter (\<lambda>entry. \<not> entry_has_command_substr entry command_substr) phase_hooks
                    in (length kept \<noteq> length phase_hooks,
                        VObj (AList.update ''hooks'' (VObj (AList.update phase (VArr kept) hooks)) m))
                | _ \<Rightarrow> (False, tree))
           | _ \<Rightarrow> (False, tree))
      | _ \<Rightarrow> (False, tree))"

section \<open>A value at a path\<close>

fun at_path :: "string list \<Rightarrow> 's vtree \<Rightarrow> 's vtree option" where
  "at_path [] v = Some v"
| "at_path (k # path) v = Option.bind (vget k v) (at_path path)"

text \<open>What an edit leaves at the path it edits, and that it leaves every path that branches off alone.\<close>

lemma as_json_object_VObj [simp]: "as_json_object (VObj m) = m"
  by (simp add: as_json_object_def)

lemma vget_as_json_object: "map_of (as_json_object v) k = vget k v"
  by (cases v) (simp_all add: as_json_object_def)

lemma at_path_empty: "path \<noteq> [] \<Longrightarrow> at_path path (VObj []) = None"
  by (cases path) auto

lemma at_path_default [simp]: "unwrap_or (at_path path (VObj [])) (VObj []) = VObj []"
  by (cases "path = []") (simp_all add: at_path_empty)

lemma edit_at_path: "at_path path (snd (edit_at path f v)) =
  Some (VObj (snd (f (as_json_object (unwrap_or (at_path path v) (VObj []))))))"
proof (induction path arbitrary: v)
  case (Cons k path)
  then show ?case by (cases "vget k v") (simp_all add: split_beta Let_def vget_as_json_object)
qed (simp add: split_beta)

lemma edit_at_settled:
  assumes "\<And>m. f (snd (f m)) = (False, snd (f m))"
  shows "edit_at path f (snd (edit_at path f v)) = (False, snd (edit_at path f v))"
proof (induction path arbitrary: v)
  case Nil
  show ?case using assms by (simp add: split_beta)
next
  case (Cons k path)
  then show ?case by (simp add: split_beta Let_def)
qed

lemma put_settled: "same value \<Longrightarrow> put same leaf value (snd (put same leaf value m)) = (False, snd (put same leaf value m))"
  by (auto simp: put_def split: option.splits)

lemma put_path_settled:
  "same value \<Longrightarrow> put_path same (snd (put_path same tree path value)) path value = (False, snd (put_path same tree path value))"
  using edit_at_settled[of "put same (last path) value"] by (simp add: put_path_def put_settled)

lemma at_path_append: "at_path (p @ q) v = Option.bind (at_path p v) (at_path q)"
proof (induction p arbitrary: v)
  case (Cons k p)
  then show ?case by (cases "vget k v") auto
qed simp

lemma put_path_sets:
  assumes "path \<noteq> []" and "same value"
  shows "\<exists>v. at_path path (snd (put_path same tree path value)) = Some v \<and> same v"
proof -
  let ?m = "as_json_object (unwrap_or (at_path (butlast path) tree) (VObj []))"
  have "at_path (butlast path @ [last path]) (snd (put_path same tree path value)) =
      map_of (snd (put same (last path) value ?m)) (last path)"
    unfolding at_path_append using assms(1) edit_at_path[of "butlast path" "put same (last path) value" tree]
    by (cases "map_of (snd (put same (last path) value ?m)) (last path)") (simp_all add: put_path_def)
  then show ?thesis using assms by (auto simp: put_def split: option.splits)
qed

section \<open>Hook registration\<close>

lemma map_first_None_settled:
  "map_first P f xs = Some ys \<Longrightarrow> (\<And>x y. P x \<Longrightarrow> f x = Some y \<Longrightarrow> P y \<and> f y = None) \<Longrightarrow> map_first P f ys = None"
proof (induction xs arbitrary: ys)
  case (Cons x xs)
  show ?case
  proof (cases "P x")
    case True
    with Cons(2) obtain y where "f x = Some y" "ys = y # xs" by auto
    with Cons(3)[OF True] show ?thesis by simp
  next
    case False
    with Cons(2) obtain zs where "map_first P f xs = Some zs" "ys = x # zs" by auto
    with Cons(1)[OF _ Cons(3)] False show ?thesis by simp
  qed
qed simp

lemma map_first_keeps:
  assumes "map_first P f xs = Some ys" and "\<And>x y. P x \<Longrightarrow> f x = Some y \<Longrightarrow> Q y = Q x"
  shows "list_ex Q ys = list_ex Q xs"
  using assms(1) by (induction xs arbitrary: ys) (auto simp: assms(2) split: if_splits)

lemma map_first_filter:
  assumes "map_first P f xs = Some ys" and "\<And>x y. P x \<Longrightarrow> f x = Some y \<Longrightarrow> P y"
  shows "filter (\<lambda>x. \<not> P x) ys = filter (\<lambda>x. \<not> P x) xs"
  using assms(1) by (induction xs arbitrary: ys) (auto simp: assms(2) split: if_splits)

lemma vget_set_timeout:
  "set_timeout t h = Some h' \<Longrightarrow> vget k h' = (if k = ''timeout'' then Some (VLeaf (SInt t)) else vget k h)"
  by (auto simp: set_timeout_def vget_as_json_object split: if_splits)

lemma set_timeout_settled: "- (2 ^ 63) \<le> t \<Longrightarrow> t < 2 ^ 63 \<Longrightarrow> set_timeout t h = Some h' \<Longrightarrow> set_timeout t h' = None"
  using vget_set_timeout[of t h h' "''timeout''"] by (simp add: set_timeout_def[of t h'])

lemma is_command_set_timeout: "set_timeout t h = Some h' \<Longrightarrow> is_command c h' = is_command c h"
  by (simp add: is_command_def vget_set_timeout)

lemma reconcile_keeps_command:
  assumes "reconcile_entry command nested t e = Some e'"
  shows "entry_has_command e' command = entry_has_command e command"
proof (cases nested)
  case False
  with assms show ?thesis
    by (simp add: reconcile_entry_def entry_has_command_def is_command_set_timeout vget_set_timeout)
next
  case True
  with assms obtain hs hs' where h: "Option.bind (vget ''hooks'' e) as_arr = Some hs"
    "map_first (\<lambda>h. Option.bind (vget ''command'' h) j_str = Some command) (set_timeout t) hs = Some hs'"
    and e': "e' = VObj (AList.update ''hooks'' (VArr hs') (as_json_object e))"
    by (auto simp: reconcile_entry_def split: option.splits)
  have "list_ex (is_command command) hs' = list_ex (is_command command) hs"
    using h(2) by (rule map_first_keeps) (simp add: is_command_set_timeout)
  then show ?thesis using h(1) e' by (simp add: entry_has_command_def is_command_def vget_as_json_object)
qed

lemma reconcile_settled:
  assumes "- (2 ^ 63) \<le> t" and "t < 2 ^ 63" and "reconcile_entry command nested t e = Some e'"
  shows "reconcile_entry command nested t e' = None"
proof (cases nested)
  case False
  with assms show ?thesis by (simp add: reconcile_entry_def set_timeout_settled)
next
  case True
  with assms(3) obtain hs hs' where
    h: "map_first (\<lambda>h. Option.bind (vget ''command'' h) j_str = Some command) (set_timeout t) hs = Some hs'"
    and e': "e' = VObj (AList.update ''hooks'' (VArr hs') (as_json_object e))"
    by (auto simp: reconcile_entry_def split: option.splits)
  have "map_first (\<lambda>h. Option.bind (vget ''command'' h) j_str = Some command) (set_timeout t) hs' = None"
    using h by (rule map_first_None_settled) (simp add: vget_set_timeout set_timeout_settled[OF assms(1,2)])
  with True e' show ?thesis by (simp add: reconcile_entry_def)
qed

lemma hook_entry_has_command: "entry_has_command (hook_entry command nested timeout) command"
  by (simp add: hook_entry_def entry_has_command_def is_command_def Let_def)

lemma reconcile_hook_entry:
  "- (2 ^ 63) \<le> t \<Longrightarrow> t < 2 ^ 63 \<Longrightarrow> reconcile_entry command nested t (hook_entry command nested (Some t)) = None"
  by (simp add: hook_entry_def reconcile_entry_def set_timeout_def)

lemma map_first_append: "\<not> list_ex P xs \<Longrightarrow> map_first P f (xs @ ys) = map_option (\<lambda>zs. xs @ zs) (map_first P f ys)"
  by (induction xs; cases "map_first P f ys") auto

lemma ensure_hook_in_effect:
  assumes "case timeout of Some t \<Rightarrow> - (2 ^ 63) \<le> t \<and> t < 2 ^ 63 | None \<Rightarrow> True"
    and r: "ensure_hook_in command nested timeout hooks = (c, r)"
  shows "list_ex (\<lambda>e. entry_has_command e command) r \<and>
    filter (\<lambda>e. \<not> entry_has_command e command) r = filter (\<lambda>e. \<not> entry_has_command e command) hooks \<and>
    ensure_hook_in command nested timeout r = (False, r)"
proof -
  define has where "has = (\<lambda>e. entry_has_command e command)"
  note r_def = r
  have "list_ex has r \<and> filter (\<lambda>e. \<not> has e) r = filter (\<lambda>e. \<not> has e) hooks \<and>
    ensure_hook_in command nested timeout r = (False, r)"
  proof (cases "list_ex has hooks")
    case False
    then have "r = hooks @ [hook_entry command nested timeout]" using r_def by (simp add: has_def ensure_hook_in_def)
    with False assms(1) show ?thesis
      by (auto simp: ensure_hook_in_def has_def map_first_append reconcile_hook_entry hook_entry_has_command split: option.split)
  next
    case True
    show ?thesis
    proof (cases timeout)
      case None
      with True show ?thesis using r_def by (simp add: has_def ensure_hook_in_def)
    next
      case (Some t)
      then have t: "- (2 ^ 63) \<le> t" "t < 2 ^ 63" using assms(1) by auto
      show ?thesis
      proof (cases "map_first has (reconcile_entry command nested t) hooks")
        case None
        with True Some show ?thesis using r_def by (simp add: has_def ensure_hook_in_def)
      next
        case (Some ys)
        with True \<open>timeout = Some t\<close> have r: "r = ys" using r_def by (simp add: has_def ensure_hook_in_def)
        have "list_ex has ys = list_ex has hooks"
          using Some by (rule map_first_keeps) (simp add: has_def reconcile_keeps_command)
        moreover have "filter (\<lambda>e. \<not> has e) ys = filter (\<lambda>e. \<not> has e) hooks"
          using Some by (rule map_first_filter) (simp add: has_def reconcile_keeps_command)
        moreover have "map_first has (reconcile_entry command nested t) ys = None"
          using Some by (rule map_first_None_settled) (auto simp: has_def reconcile_keeps_command reconcile_settled[OF t])
        ultimately show ?thesis using True \<open>timeout = Some t\<close> r by (simp add: ensure_hook_in_def has_def)
      qed
    qed
  qed
  then show ?thesis by (simp add: has_def)
qed

definition phase_hooks :: "json_value \<Rightarrow> string \<Rightarrow> json_value list" where
  "phase_hooks tree phase = unwrap_or (Option.bind (at_path [''hooks'', phase] tree) as_arr) []"

lemma ensure_hook_tree:
  "snd (ensure_json_command_hook tree phase command nested timeout) =
     VObj (AList.update ''hooks''
       (VObj (AList.update phase
         (VArr (snd (ensure_hook_in command nested timeout (phase_hooks tree phase))))
         (as_json_object (unwrap_or (vget ''hooks'' tree) (VObj [])))))
       (as_json_object tree))"
proof -
  have "as_json_array (unwrap_or (map_of (as_json_object (unwrap_or (vget ''hooks'' tree) (VObj []))) phase) (VArr [])) =
      phase_hooks tree phase"
  proof (cases "vget ''hooks'' tree")
    case (Some h)
    then show ?thesis
      by (cases "vget phase h") (simp_all add: phase_hooks_def as_json_array_def vget_as_json_object)
  qed (simp add: phase_hooks_def as_json_array_def)
  then show ?thesis
    by (simp add: ensure_json_command_hook_def split_beta Let_def vget_as_json_object)
qed

lemma ensure_hook_again:
  assumes "snd (ensure_json_command_hook tree phase command nested timeout) = t"
    and "ensure_hook_in command nested timeout r = (False, r)"
    and "r = snd (ensure_hook_in command nested timeout (phase_hooks tree phase))"
  shows "ensure_json_command_hook t phase command nested timeout = (False, t)"
  using assms(2,3) unfolding assms(1)[symmetric] ensure_hook_tree
  by (simp add: ensure_json_command_hook_def split_beta Let_def as_json_array_def)

text \<open>
  Registering a command hook registers it, once, and disturbs nothing. After the call the phase's array has
  an entry running the command; the phase's entries that do not run it are the ones there were, in their
  order; the hooks of every other phase and every other setting are untouched; and calling again reports no
  change and changes nothing, so that a second installation does not add a second hook.
\<close>

theorem hook_registered_once:
  assumes "case timeout of Some t \<Rightarrow> - (2 ^ 63) \<le> t \<and> t < 2 ^ 63 | None \<Rightarrow> True"
    and "snd (ensure_json_command_hook tree phase command nested timeout) = tree'"
  shows "list_ex (\<lambda>e. entry_has_command e command) (phase_hooks tree' phase) \<and>
    filter (\<lambda>e. \<not> entry_has_command e command) (phase_hooks tree' phase) =
      filter (\<lambda>e. \<not> entry_has_command e command) (phase_hooks tree phase) \<and>
    (\<forall>p. p \<noteq> phase \<longrightarrow> at_path [''hooks'', p] tree' = at_path [''hooks'', p] tree) \<and>
    (\<forall>k. k \<noteq> ''hooks'' \<longrightarrow> vget k tree' = vget k tree) \<and>
    ensure_json_command_hook tree' phase command nested timeout = (False, tree')"
proof -
  obtain c r where r: "ensure_hook_in command nested timeout (phase_hooks tree phase) = (c, r)" by fastforce
  note e = ensure_hook_in_effect[OF assms(1) r]
  have t: "tree' = VObj (AList.update ''hooks'' (VObj (AList.update phase (VArr r)
      (as_json_object (unwrap_or (vget ''hooks'' tree) (VObj []))))) (as_json_object tree))"
    using assms(2) ensure_hook_tree[of tree phase command nested timeout] r by simp
  have ph: "phase_hooks tree' phase = r" by (simp add: phase_hooks_def t)
  have "at_path [''hooks'', p] tree' = at_path [''hooks'', p] tree" if "p \<noteq> phase" for p
    using that by (cases "vget ''hooks'' tree") (simp_all add: t vget_as_json_object)
  moreover have "vget k tree' = vget k tree" if "k \<noteq> ''hooks''" for k
    using that by (simp add: t vget_as_json_object)
  moreover have "ensure_json_command_hook tree' phase command nested timeout = (False, tree')"
  proof (rule ensure_hook_again[OF assms(2)])
    show "ensure_hook_in command nested timeout r = (False, r)" using e by blast
    show "r = snd (ensure_hook_in command nested timeout (phase_hooks tree phase))" unfolding r by simp
  qed
  ultimately show ?thesis using e unfolding ph by blast
qed

text \<open>A user's own hook beside a stale registration with another timeout.\<close>

definition example_hooks :: json_value where
  "example_hooks = VObj [(''hooks'', VObj [(''PreToolUse'', VArr
     [VObj [(''type'', VLeaf (SStr ''command'')), (''command'', VLeaf (SStr ''mine''))],
      VObj [(''type'', VLeaf (SStr ''command'')), (''command'', VLeaf (SStr ''kyris'')), (''timeout'', VLeaf (SInt 5))]])])]"

theorem hook_registered_once_witness:
  "ensure_json_command_hook (snd (ensure_json_command_hook example_hooks ''PreToolUse'' ''kyris'' False (Some 60)))
     ''PreToolUse'' ''kyris'' False (Some 60) =
   (False, snd (ensure_json_command_hook example_hooks ''PreToolUse'' ''kyris'' False (Some 60)))"
  using hook_registered_once[of "Some 60" example_hooks "''PreToolUse''" "''kyris''" False] by simp

text \<open>Removing by a part of the command leaves no entry that runs it and every other entry in place.\<close>

lemma remove_hook_effect:
  assumes "at_path [''hooks'', phase] tree = Some (VArr hs)"
  shows "phase_hooks (snd (remove_json_command_hook tree phase c)) phase =
    filter (\<lambda>e. \<not> entry_has_command_substr e c) hs"
proof (cases tree)
  case (VObj m)
  with assms obtain hooks where "map_of m ''hooks'' = Some (VObj hooks)" "map_of hooks phase = Some (VArr hs)"
    by (cases "map_of m ''hooks''"; cases "the (map_of m ''hooks'')") (auto split: bind_splits)
  with VObj show ?thesis by (simp add: remove_json_command_hook_def phase_hooks_def Let_def)
qed (use assms in auto)

end
