(* ===== verification/Scrub.thy ===== *)
theory Scrub
  imports ConfigEdit
begin

text \<open>
  Removal of residue by signature, \<^verbatim>\<open>cli/src/agents/scrub.rs\<close>: without the manifest, an agent's parsed
  configuration is walked and everything that carries a kyris signature is taken out. The walk edits in place,
  so the model returns the flag the code returns together with the tree it leaves, also where the flag says
  nothing changed.
\<close>

definition KYRIS_HEADER_KEYS :: "string list" where
  "KYRIS_HEADER_KEYS = [''x-kyris-inbound'', ''x-kyris-agent-id'']"

definition BASEURL_KEYS :: "string list" where
  "BASEURL_KEYS = [''baseURL'', ''baseUrl'', ''base_url'']"

definition KYRIS_CONTENT_MARKERS :: "string list" where
  "KYRIS_CONTENT_MARKERS =
     [''kyris-governance'', ''kyris-mcp'', ''kyris-hook'', ''kyris hook check'', ''agentpact_pretooluse'',
      ''agentpact_beforetool'', ''kyris_pretooluse'', ''/.kyris/'']"

definition has_marker :: "string \<Rightarrow> bool" where
  "has_marker s = list_ex (\<lambda>m. sublist m s) KYRIS_CONTENT_MARKERS"

text \<open>\<^verbatim>\<open>split_once\<close> at a separator.\<close>

fun split_once :: "string \<Rightarrow> string \<Rightarrow> (string \<times> string) option" where
  "split_once sep s =
     (if prefix sep s then Some ([], drop (length sep) s)
      else case s of [] \<Rightarrow> None | c # s \<Rightarrow> map_option (\<lambda>(a, b). (c # a, b)) (split_once sep s))"

definition authority_of :: "string \<Rightarrow> string option" where
  "authority_of base_url =
     (let rest = (case split_once ''://'' base_url of Some (_, r) \<Rightarrow> r | None \<Rightarrow> base_url);
          authority = hd (split_on (CHR ''/'') rest)
      in if authority \<noteq> [] then Some authority else None)"

definition is_kyris_value :: "string \<Rightarrow> string option \<Rightarrow> bool" where
  "is_kyris_value s kyrisd_authority =
     (is_kyris_key s \<or> (case kyrisd_authority of Some a \<Rightarrow> sublist a s | None \<Rightarrow> False))"

fun json_has_kyris_marker :: "json_value \<Rightarrow> bool" where
  "json_has_kyris_marker (VLeaf (SStr s)) = has_marker s"
| "json_has_kyris_marker (VArr a) = list_ex json_has_kyris_marker a"
| "json_has_kyris_marker (VObj o') = list_ex (\<lambda>(k, v). has_marker k \<or> json_has_kyris_marker v) o'"
| "json_has_kyris_marker _ = False"

definition has_header_key :: "(string \<times> json_value) list \<Rightarrow> bool" where
  "has_header_key m = list_ex (\<lambda>h. map_of m h \<noteq> None) KYRIS_HEADER_KEYS"

text \<open>An object is a routing block if it has an authentication header, directly or in its headers.\<close>

definition had_kyris_header :: "(string \<times> json_value) list \<Rightarrow> bool" where
  "had_kyris_header m =
     (has_header_key m \<or>
      list_ex (\<lambda>hk. case Option.bind (map_of m hk) as_obj of Some h \<Rightarrow> has_header_key h | None \<Rightarrow> False)
        [''headers'', ''http_headers''])"

text \<open>The entries of an object that are removed before its children are visited: the header keys, the values
  that are credentials or routes, and the base URLs of a routing block.\<close>

definition drops_entry :: "string option \<Rightarrow> bool \<Rightarrow> string \<times> json_value \<Rightarrow> bool" where
  "drops_entry kyrisd_authority had_header kv =
     (fst kv \<in> set KYRIS_HEADER_KEYS \<or>
      (case j_str (snd kv) of Some s \<Rightarrow> is_kyris_value s kyrisd_authority | None \<Rightarrow> False) \<or>
      had_header \<and> fst kv \<in> set BASEURL_KEYS)"

lemma size_kept [termination_simp]:
  "(k, v) \<in> set (filter P kvs) \<Longrightarrow> size v < Suc (size_list (size_prod (\<lambda>x. 0) size) kvs)"
  by (rule vtree_size_obj) auto

lemma size_kept_element [termination_simp]:
  "(k, VArr xs) \<in> set (filter P kvs) \<Longrightarrow> e \<in> set (filter Q xs) \<Longrightarrow>
     size e < Suc (size_list (size_prod (\<lambda>x. 0) size) kvs)"
proof -
  assume "(k, VArr xs) \<in> set (filter P kvs)" and "e \<in> set (filter Q xs)"
  then have m: "(k, VArr xs) \<in> set kvs" "e \<in> set xs" by auto
  have "size e \<le> size_list size xs" using m(2) by (rule size_list_estimation') simp
  then show ?thesis using vtree_size_obj[OF m(1)] by simp
qed

text \<open>What happens to one remaining entry: it may go, and it may count as a change.\<close>

function scrub_kyris_json :: "string option \<Rightarrow> json_value \<Rightarrow> bool \<times> json_value" where
  "scrub_kyris_json a (VObj m) =
     (let kept = filter (\<lambda>kv. \<not> drops_entry a (had_kyris_header m) kv) m;
          visited = map (\<lambda>(key, child).
            if has_marker key then (True, None)
            else case child of
                   VArr arr \<Rightarrow>
                     let arr' = filter (\<lambda>e. \<not> json_has_kyris_marker e) arr;
                         rs = map (\<lambda>e. scrub_kyris_json a e) arr'
                     in (length arr' \<noteq> length arr \<or> list_ex fst rs, Some (key, VArr (map snd rs)))
                 | _ \<Rightarrow>
                     let (changed, child') = scrub_kyris_json a child
                     in (changed, if changed \<and> as_obj child' = Some [] then None else Some (key, child'))) kept
      in (length kept \<noteq> length m \<or> list_ex fst visited, VObj (List.map_filter snd visited)))"
| "scrub_kyris_json a (VArr arr) =
     (let arr' = filter (\<lambda>e. \<not> json_has_kyris_marker e) arr
      in (length arr' \<noteq> length arr, VArr (map (\<lambda>e. snd (scrub_kyris_json a e)) arr')))"
| "scrub_kyris_json a (VLeaf x) = (False, VLeaf x)"
  by pat_completeness auto
termination
  by (relation "measure (\<lambda>(a, v). size v)")
    (auto simp: termination_simp dest: size_kept_element intro: vtree_size_obj size_list_estimation' le_imp_less_Suc)

section \<open>What the walk leaves\<close>

fun visit :: "string option \<Rightarrow> string \<times> json_value \<Rightarrow> bool \<times> (string \<times> json_value) option" where
  "visit a (key, child) =
     (if has_marker key then (True, None)
      else case child of
             VArr arr \<Rightarrow>
               let arr' = filter (\<lambda>e. \<not> json_has_kyris_marker e) arr;
                   rs = map (\<lambda>e. scrub_kyris_json a e) arr'
               in (length arr' \<noteq> length arr \<or> list_ex fst rs, Some (key, VArr (map snd rs)))
           | _ \<Rightarrow>
               let (changed, child') = scrub_kyris_json a child
               in (changed, if changed \<and> as_obj child' = Some [] then None else Some (key, child')))"

lemma scrub_object:
  "scrub_kyris_json a (VObj m) =
     (let kept = filter (\<lambda>kv. \<not> drops_entry a (had_kyris_header m) kv) m;
          visited = map (visit a) kept
      in (length kept \<noteq> length m \<or> list_ex fst visited, VObj (List.map_filter snd visited)))"
proof -
  have "visit a = (\<lambda>(key, child). visit a (key, child))" by auto
  then show ?thesis unfolding visit.simps by (simp only: scrub_kyris_json.simps)
qed

declare scrub_kyris_json.simps(1) [simp del] visit.simps [simp del]

lemma visit_simps:
  "has_marker k \<Longrightarrow> visit a (k, v) = (True, None)"
  "\<not> has_marker k \<Longrightarrow> visit a (k, VArr arr) =
     (length (filter (\<lambda>e. \<not> json_has_kyris_marker e) arr) \<noteq> length arr \<or>
        list_ex (\<lambda>e. fst (scrub_kyris_json a e)) (filter (\<lambda>e. \<not> json_has_kyris_marker e) arr),
      Some (k, snd (scrub_kyris_json a (VArr arr))))"
  "\<not> has_marker k \<Longrightarrow> as_arr v = None \<Longrightarrow> visit a (k, v) =
     (let (changed, child) = scrub_kyris_json a v
      in (changed, if changed \<and> as_obj child = Some [] then None else Some (k, child)))"
  by (auto simp: visit.simps Let_def list_ex_iff split: vtree.splits)

lemma visit_result:
  assumes "snd (visit a (k, v)) = Some kv"
  shows "kv = (k, snd (scrub_kyris_json a v)) \<and> \<not> has_marker k"
proof (cases "has_marker k")
  case False
  then show ?thesis using assms
    by (cases v) (auto simp: visit_simps split_beta simp del: scrub_kyris_json.simps split: if_splits)
qed (use assms in \<open>simp add: visit_simps\<close>)

text \<open>No signature anywhere.\<close>

fun residue_free :: "string option \<Rightarrow> json_value \<Rightarrow> bool" where
  "residue_free a (VLeaf x) = True"
| "residue_free a (VArr xs) = list_all (\<lambda>e. \<not> json_has_kyris_marker e \<and> residue_free a e) xs"
| "residue_free a (VObj m) =
     list_all (\<lambda>(k, v). \<not> drops_entry a False (k, v) \<and> \<not> has_marker k \<and> residue_free a v) m"

lemma residue_free_headers: "residue_free a (VObj m) \<Longrightarrow> \<not> has_header_key m"
  by (force simp: has_header_key_def list_ex_iff list_all_iff drops_entry_def KYRIS_HEADER_KEYS_def dest: map_of_SomeD)

lemma residue_free_no_header:
  assumes "residue_free a (VObj m)"
  shows "\<not> had_kyris_header m"
proof -
  have "\<not> has_header_key h" if "Option.bind (map_of m hk) as_obj = Some h" for hk h
  proof -
    from that have "map_of m hk = Some (VObj h)" by (cases "map_of m hk"; cases "the (map_of m hk)") auto
    with assms have "residue_free a (VObj h)" by (fastforce simp: list_all_iff dest: map_of_SomeD)
    then show ?thesis by (rule residue_free_headers)
  qed
  with residue_free_headers[OF assms] show ?thesis
    by (auto simp: had_kyris_header_def split: option.splits)
qed

lemma set_map_filter: "y \<in> set (List.map_filter f xs) \<longleftrightarrow> (\<exists>x \<in> set xs. f x = Some y)"
  by (induction xs) (auto simp: map_filter_simps split: option.splits)

text \<open>The entries of a walked object come from visited entries that were not dropped.\<close>

lemma scrub_object_entries:
  "\<exists>m'. snd (scrub_kyris_json a (VObj m)) = VObj m' \<and>
     (\<forall>kv. kv \<in> set m' \<longleftrightarrow>
        (\<exists>k v. (k, v) \<in> set m \<and> \<not> drops_entry a (had_kyris_header m) (k, v) \<and> snd (visit a (k, v)) = Some kv))"
  by (force simp: scrub_object Let_def set_map_filter)

lemma visit_untouched:
  assumes "\<not> has_marker k" and "residue_free a v" and "scrub_kyris_json a v = (False, v)"
    and "\<forall>xs. v = VArr xs \<longrightarrow> (\<forall>e \<in> set xs. \<not> fst (scrub_kyris_json a e))"
  shows "visit a (k, v) = (False, Some (k, v))"
proof (cases v)
  case (VArr xs)
  with assms(2) have "filter (\<lambda>e. \<not> json_has_kyris_marker e) xs = xs" by (auto simp: list_all_iff filter_id_conv)
  with assms VArr show ?thesis by (auto simp: visit_simps list_ex_iff simp del: scrub_kyris_json.simps)
qed (use assms in \<open>simp_all add: visit_simps\<close>)

lemma scrub_clean_aux:
  "residue_free a v \<Longrightarrow> scrub_kyris_json a v = (False, v) \<and> (\<forall>xs. v = VArr xs \<longrightarrow> (\<forall>e \<in> set xs. \<not> fst (scrub_kyris_json a e)))"
proof (induction v rule: vtree.induct)
  case (VArr xs)
  then show ?case by (auto simp: list_all_iff map_idI filter_id_conv)
next
  case (VObj m)
  note h = residue_free_no_header[OF VObj(2)]
  have kept: "filter (\<lambda>kv. \<not> drops_entry a (had_kyris_header m) kv) m = m"
    using VObj(2) h by (auto simp: list_all_iff filter_id_conv)
  have v: "visit a kv = (False, Some kv)" if kv: "kv \<in> set m" for kv
  proof -
    obtain k v where [simp]: "kv = (k, v)" by (cases kv)
    have r: "\<not> has_marker k" "residue_free a v" using VObj(2) kv by (auto simp: list_all_iff)
    show ?thesis using VObj(1)[OF kv, of v] r visit_untouched[of k a v] by simp
  qed
  then have "List.map_filter snd (map (visit a) m) = m" by (induction m) (simp_all add: map_filter_simps)
  then show ?case using kept v by (auto simp: scrub_object Let_def list_ex_iff)
qed simp

lemma scrub_clean: "residue_free a v \<Longrightarrow> scrub_kyris_json a v = (False, v)"
  using scrub_clean_aux by blast

text \<open>The walk only takes things away, so it brings no marker in.\<close>

lemma scrub_no_marker: "\<not> json_has_kyris_marker v \<Longrightarrow> \<not> json_has_kyris_marker (snd (scrub_kyris_json a v))"
proof (induction v rule: vtree.induct)
  case (VArr xs)
  then show ?case by (auto simp: list_ex_iff)
next
  case (VObj m)
  have "\<not> has_marker k' \<and> \<not> json_has_kyris_marker v'" if "(k, v) \<in> set m" "snd (visit a (k, v)) = Some (k', v')" for k v k' v'
  proof -
    have "\<not> json_has_kyris_marker v" using VObj(2) that(1) by (auto simp: list_ex_iff)
    then have "\<not> json_has_kyris_marker (snd (scrub_kyris_json a v))" using VObj(1)[OF that(1)] by simp
    then show ?thesis using visit_result[OF that(2)] by simp
  qed
  then show ?case using scrub_object_entries[of a m] by (fastforce simp: list_ex_iff)
qed simp

lemma j_str_scrub: "j_str (snd (scrub_kyris_json a v)) = j_str v"
  by (cases v) (simp_all add: scrub_object Let_def)

lemma scrub_residue_free: "residue_free a (snd (scrub_kyris_json a v))"
proof (induction v rule: vtree.induct)
  case (VArr xs)
  then show ?case by (auto simp: Let_def list_all_iff scrub_no_marker)
next
  case (VObj m)
  have "\<not> drops_entry a False (k', v') \<and> \<not> has_marker k' \<and> residue_free a v'"
    if "(k, v) \<in> set m" "\<not> drops_entry a (had_kyris_header m) (k, v)" "snd (visit a (k, v)) = Some (k', v')" for k v k' v'
  proof -
    have "residue_free a (snd (scrub_kyris_json a v))" using VObj(1)[OF that(1)] by simp
    then show ?thesis using visit_result[OF that(3)] that(2) by (auto simp: drops_entry_def j_str_scrub)
  qed
  then show ?case using scrub_object_entries[of a m] by (fastforce simp: list_all_iff)
qed simp

lemma visit_clean: "\<not> has_marker k \<Longrightarrow> residue_free a v \<Longrightarrow> visit a (k, v) = (False, Some (k, v))"
  using scrub_clean_aux by (intro visit_untouched) auto

text \<open>
  The walk finds everything it looks for and nothing else. The tree it leaves has no signature: no
  authentication header, no credential or route as a value, no key and no array element with a marker. Walking it again reports
  no change and changes nothing. A tree without signatures is left as it is, and so is every entry of an
  object that has none, whatever else the walk removes around it.
\<close>

theorem scrub_is_exact:
  "residue_free a (snd (scrub_kyris_json a v)) \<and>
   scrub_kyris_json a (snd (scrub_kyris_json a v)) = (False, snd (scrub_kyris_json a v)) \<and>
   (residue_free a v \<longrightarrow> scrub_kyris_json a v = (False, v)) \<and>
   (\<forall>m m' k x. v = VObj m \<longrightarrow> snd (scrub_kyris_json a v) = VObj m' \<longrightarrow> (k, x) \<in> set m \<longrightarrow>
      \<not> drops_entry a (had_kyris_header m) (k, x) \<longrightarrow> \<not> has_marker k \<longrightarrow> residue_free a x \<longrightarrow> (k, x) \<in> set m')"
proof -
  have "(k, x) \<in> set m'" if "snd (scrub_kyris_json a (VObj m)) = VObj m'" "(k, x) \<in> set m"
    "\<not> drops_entry a (had_kyris_header m) (k, x)" "\<not> has_marker k" "residue_free a x" for m m' k x
    using scrub_object_entries[of a m] that visit_clean[OF that(4,5)] by force
  then show ?thesis using scrub_residue_free scrub_clean by blast
qed

text \<open>A provider block with the user's model beside kyris's header and route, and the user's own setting.\<close>

definition example_config :: "(string \<times> json_value) list" where
  "example_config =
     [(''theme'', VLeaf (SStr ''dark'')),
      (''provider'', VObj [(''baseURL'', VLeaf (SStr ''http://127.0.0.1:4710'')),
         (''headers'', VObj [(''x-kyris-inbound'', VLeaf (SStr ''k''))])]),
      (''plugin'', VArr [VLeaf (SStr ''kyris-governance''), VLeaf (SStr ''mine'')])]"

theorem scrub_is_exact_witness:
  "residue_free None (snd (scrub_kyris_json None (VObj example_config))) \<and>
   (\<exists>m'. snd (scrub_kyris_json None (VObj example_config)) = VObj m' \<and> (''theme'', VLeaf (SStr ''dark'')) \<in> set m') \<and>
   scrub_kyris_json None (VLeaf (SStr ''dark'')) = (False, VLeaf (SStr ''dark''))"
proof -
  have d: "\<not> drops_entry None (had_kyris_header example_config) (''theme'', VLeaf (SStr ''dark''))" "\<not> has_marker ''theme''"
    by code_simp+
  have m: "(''theme'', VLeaf (SStr ''dark'')) \<in> set example_config" by (simp add: example_config_def)
  obtain m' where "snd (scrub_kyris_json None (VObj example_config)) = VObj m'" using scrub_object_entries by blast
  then show ?thesis
    using scrub_is_exact[of None "VObj example_config"] scrub_is_exact[of None "VLeaf (SStr ''dark'')"] d m by auto
qed

text \<open>The flag is sound where no array holds an array: what it does not report did not happen. An array inside
  an array is the exception, since the flags of its elements are thrown away; the caller then does not write
  the file, and the residue stays.\<close>

fun flat_arrays :: "json_value \<Rightarrow> bool" where
  "flat_arrays (VLeaf x) = True"
| "flat_arrays (VArr xs) = list_all (\<lambda>e. as_arr e = None \<and> flat_arrays e) xs"
| "flat_arrays (VObj m) = list_all (\<lambda>(k, v). flat_arrays v) m"

lemma filter_same_length: "length (filter P xs) = length xs \<Longrightarrow> filter P xs = xs"
  by (metis length_filter_less filter_id_conv less_irrefl)

lemma visit_unreported:
  assumes "flat_arrays v" and "\<not> fst (visit a (k, v))"
    and "as_arr v = None \<Longrightarrow> \<not> fst (scrub_kyris_json a v) \<Longrightarrow> snd (scrub_kyris_json a v) = v"
    and "\<And>xs e. v = VArr xs \<Longrightarrow> e \<in> set xs \<Longrightarrow> \<not> fst (scrub_kyris_json a e) \<Longrightarrow> snd (scrub_kyris_json a e) = e"
  shows "snd (visit a (k, v)) = Some (k, v)"
proof -
  have k: "\<not> has_marker k" using assms(2) by (auto simp: visit_simps)
  show ?thesis
  proof (cases v)
    case (VArr xs)
    with k assms(2) have f: "filter (\<lambda>e. \<not> json_has_kyris_marker e) xs = xs"
      by (intro filter_same_length) (simp add: visit_simps)
    with k assms(2) VArr have "\<forall>e \<in> set xs. \<not> fst (scrub_kyris_json a e)" by (auto simp: visit_simps list_ex_iff)
    with assms(4) VArr f k show ?thesis by (simp add: visit_simps map_idI)
  qed (use assms(2,3) k in \<open>auto simp: visit_simps split_beta\<close>)
qed

lemma unreported_aux:
  "flat_arrays v \<Longrightarrow>
     (as_arr v = None \<longrightarrow> \<not> fst (scrub_kyris_json a v) \<longrightarrow> snd (scrub_kyris_json a v) = v) \<and>
     (\<forall>xs e. v = VArr xs \<longrightarrow> e \<in> set xs \<longrightarrow> \<not> fst (scrub_kyris_json a e) \<longrightarrow> snd (scrub_kyris_json a e) = e)"
proof (induction v rule: vtree.induct)
  case (VArr xs)
  then show ?case by (auto simp: list_all_iff)
next
  case (VObj m)
  have "snd (scrub_kyris_json a (VObj m)) = VObj m" if n: "\<not> fst (scrub_kyris_json a (VObj m))"
  proof -
    have f: "filter (\<lambda>kv. \<not> drops_entry a (had_kyris_header m) kv) m = m"
      using n by (intro filter_same_length) (auto simp: scrub_object Let_def)
    have v: "snd (visit a kv) = Some kv" if kv: "kv \<in> set m" for kv
    proof -
      obtain k v where [simp]: "kv = (k, v)" by (cases kv)
      have "\<not> fst (visit a (k, v))" using n f kv by (auto simp: scrub_object Let_def list_ex_iff)
      moreover have "flat_arrays v" using VObj(2) kv by (auto simp: list_all_iff)
      ultimately show ?thesis using visit_unreported[of v a k] VObj(1)[OF kv, of v] by auto
    qed
    then have "List.map_filter snd (map (visit a) m) = m" by (induction m) (simp_all add: map_filter_simps)
    then show ?thesis using f by (simp add: scrub_object Let_def)
  qed
  then show ?case by simp
qed simp

lemma unreported_is_unchanged:
  "flat_arrays v \<Longrightarrow> as_arr v = None \<Longrightarrow> \<not> fst (scrub_kyris_json a v) \<Longrightarrow> snd (scrub_kyris_json a v) = v"
  using unreported_aux by blast

lemma nested_array_is_not_reported:
  "scrub_kyris_json None (VObj [(''a'', VArr [VArr [VObj [(''x-kyris-inbound'', VLeaf (SStr ''k''))]]])]) =
     (False, VObj [(''a'', VArr [VArr [VObj []]])])"
  by code_simp

end
