(* ===== verification/PolicyCompile.thy ===== *)
theory PolicyCompile
  imports Json ConfigEdit
begin

text \<open>
  Compilation of the AgentPact policy into the native permission files of the agents,
  \<^verbatim>\<open>cli/src/compile_policy.rs\<close> with its submodules for Codex and Gemini, and the tool filters of
  \<^verbatim>\<open>cli/src/agents/configure/mcp_filters.rs\<close>. Loading and parsing of policy files, the catalogue that turns
  a command identifier into a shell command, and the escape function of the regex crate belong to other
  crates and are arguments. A hash map is an association list in the order of its iteration.
\<close>

section \<open>Policy levels\<close>

datatype Permission = Auto | Ask | Deny

record PolicyLevel =
  pl_commands :: "(string, Permission) hashmap"
  pl_urls :: "(string, Permission) hashmap"
  pl_paths :: "(string, Permission) hashmap"
  pl_mcp :: "(string \<times> string, Permission) hashmap"
  pl_unclassified_default :: "Permission option"

definition default_level :: PolicyLevel where
  "default_level = \<lparr>pl_commands = [], pl_urls = [], pl_paths = [], pl_mcp = [], pl_unclassified_default = None\<rparr>"

definition insert_all :: "('k \<times> 'v) list \<Rightarrow> ('k \<times> 'v) list \<Rightarrow> ('k \<times> 'v) list" where
  "insert_all entries m = fold (\<lambda>(k, v) m. AList.update k v m) entries m"

definition merge_level :: "PolicyLevel \<Rightarrow> PolicyLevel \<Rightarrow> PolicyLevel" where
  "merge_level level merged =
     \<lparr>pl_commands = insert_all (pl_commands level) (pl_commands merged),
      pl_urls = insert_all (pl_urls level) (pl_urls merged),
      pl_paths = insert_all (pl_paths level) (pl_paths merged),
      pl_mcp = insert_all (pl_mcp level) (pl_mcp merged),
      pl_unclassified_default =
        (if pl_unclassified_default level \<noteq> None then pl_unclassified_default level else pl_unclassified_default merged)\<rparr>"

definition merge_levels :: "PolicyLevel list \<Rightarrow> PolicyLevel" where
  "merge_levels levels = fold merge_level (rev levels) default_level"

text \<open>What the loader gets from its surroundings: the home directory, the working directory, and the loader
  of the agentpact crate.\<close>

record 'f policy_env =
  pe_home :: "string option"
  pe_cwd :: "string + string"
  pe_load_policy_dir :: "string \<Rightarrow> string + 'f list"
  pe_parse_policy_level :: "'f list \<Rightarrow> string + PolicyLevel"
  pe_user_policy_dir :: "string \<Rightarrow> string"
  pe_resolve_walk_up :: "string \<Rightarrow> string \<Rightarrow> string \<Rightarrow> string + PolicyLevel list"

definition dirs_home :: "'f policy_env \<Rightarrow> string + string" where
  "dirs_home env = (case pe_home env of Some h \<Rightarrow> Inr h | None \<Rightarrow> Inl ''HOME is not set'')"

definition load_merged_policy :: "'f policy_env \<Rightarrow> string option \<Rightarrow> string + PolicyLevel" where
  "load_merged_policy env policy_dir =
     (case dirs_home env of
        Inl e \<Rightarrow> Inl e
      | Inr home \<Rightarrow>
          (case policy_dir of
             Some dir \<Rightarrow>
               (case pe_load_policy_dir env dir of
                  Inl e \<Rightarrow> Inl e
                | Inr fs \<Rightarrow> if fs = [] then Inl (''No policy files found in '' @ dir) else pe_parse_policy_level env fs)
           | None \<Rightarrow>
               (case pe_cwd env of
                  Inl e \<Rightarrow> Inl (''Cannot determine working directory: '' @ e)
                | Inr cwd \<Rightarrow>
                    let user_policy_dir = pe_user_policy_dir env home in
                    (case pe_resolve_walk_up env cwd home user_policy_dir of
                       Inl e \<Rightarrow> Inl e
                     | Inr levels \<Rightarrow>
                         if levels = []
                         then Inl (''No policy files found. Looked for .agentpact/policy/ from '' @ cwd @ '' up through '' @
                                   home @ '' and '' @ user_policy_dir)
                         else Inr (merge_levels levels)))))"

section \<open>Sorting\<close>

text \<open>\<^verbatim>\<open>sort\<close> and \<^verbatim>\<open>sort_by\<close> on strings: stable, by bytes.\<close>

fun str_le :: "string \<Rightarrow> string \<Rightarrow> bool" where
  "str_le [] _ = True"
| "str_le (_ # _) [] = False"
| "str_le (a # s) (b # t) = ((of_char a :: nat) < of_char b \<or> a = b \<and> str_le s t)"

fun insert_sorted :: "('a \<Rightarrow> 'a \<Rightarrow> bool) \<Rightarrow> 'a \<Rightarrow> 'a list \<Rightarrow> 'a list" where
  "insert_sorted le x [] = [x]"
| "insert_sorted le x (y # ys) = (if le x y then x # y # ys else y # insert_sorted le x ys)"

definition sort_stable :: "('a \<Rightarrow> 'a \<Rightarrow> bool) \<Rightarrow> 'a list \<Rightarrow> 'a list" where
  "sort_stable le xs = foldr (insert_sorted le) xs []"

section \<open>Cline and OpenCode\<close>

record ClineCompilationGaps =
  ask_dropped :: "string list"

text \<open>The compilers read the merged level and pass an error on; the compilation itself is of one level.\<close>

definition shell_commands :: "(string \<Rightarrow> string) \<Rightarrow> Permission \<Rightarrow> PolicyLevel \<Rightarrow> string list" where
  "shell_commands id_to_shell p level =
     sort_stable str_le (map (\<lambda>(command_id, _). id_to_shell command_id) (filter (\<lambda>(_, perm). perm = p) (pl_commands level)))"

definition cline_of_level :: "(string \<Rightarrow> string) \<Rightarrow> PolicyLevel \<Rightarrow> json \<times> ClineCompilationGaps" where
  "cline_of_level id_to_shell level =
     (JObj [(''allow'', JArr (map JStr (shell_commands id_to_shell Auto level))),
            (''deny'', JArr (map JStr (shell_commands id_to_shell Deny level)))],
      \<lparr>ask_dropped = shell_commands id_to_shell Ask level\<rparr>)"

definition compile_cline_permissions where
  "compile_cline_permissions env id_to_shell policy_path =
     map_sum id (cline_of_level id_to_shell) (load_merged_policy env policy_path)"

fun perm_str :: "Permission \<Rightarrow> string" where
  "perm_str Auto = ''allow''"
| "perm_str Deny = ''deny''"
| "perm_str Ask = ''ask''"

definition sorted_map :: "(string \<times> Permission) list \<Rightarrow> (string \<times> json) list" where
  "sorted_map entries =
     insert_all (map (\<lambda>(k, p). (k, JStr (perm_str p))) (sort_stable (\<lambda>a b. str_le (fst a) (fst b)) entries)) []"

definition opencode_of_level :: "(string \<Rightarrow> string) \<Rightarrow> PolicyLevel \<Rightarrow> json \<times> nat" where
  "opencode_of_level id_to_shell level =
     (let bash_rules = sorted_map (map (\<lambda>(k, p). (id_to_shell k, p)) (pl_commands level));
          edit_rules = sorted_map (pl_paths level);
          webfetch_rules = sorted_map (pl_urls level)
      in (JObj ((if bash_rules \<noteq> [] then [(''bash'', JObj bash_rules)] else []) @
                (if edit_rules \<noteq> [] then [(''edit'', JObj edit_rules)] else []) @
                (if webfetch_rules \<noteq> [] then [(''webfetch'', JObj webfetch_rules)] else [])), 0))"

definition compile_opencode_permissions where
  "compile_opencode_permissions env id_to_shell policy_path =
     map_sum id (opencode_of_level id_to_shell) (load_merged_policy env policy_path)"

section \<open>Codex\<close>

fun codex_permission :: "Permission \<Rightarrow> string" where
  "codex_permission Auto = ''Allow''"
| "codex_permission Deny = ''Forbidden''"
| "codex_permission Ask = ''Prompt''"

definition codex_rule :: "(string \<Rightarrow> string) \<Rightarrow> string \<times> Permission \<Rightarrow> json" where
  "codex_rule id_to_shell rule =
     JObj [(''prefix'', JStr (id_to_shell (fst rule))), (''permission'', JStr (codex_permission (snd rule)))]"

definition field_str :: "string \<Rightarrow> json \<Rightarrow> string" where
  "field_str k rule = unwrap_or (as_str (idx rule k)) []"

definition codex_of_level :: "(string \<Rightarrow> string) \<Rightarrow> PolicyLevel \<Rightarrow> json \<times> nat" where
  "codex_of_level id_to_shell level =
     (JArr (sort_stable (\<lambda>a b. str_le (field_str ''prefix'' a) (field_str ''prefix'' b))
        (map (codex_rule id_to_shell) (pl_commands level))), 0)"

definition compile_codex_permissions where
  "compile_codex_permissions env id_to_shell policy_path =
     map_sum id (codex_of_level id_to_shell) (load_merged_policy env policy_path)"

text \<open>\<^verbatim>\<open>split_whitespace\<close> on ASCII white space and the multi-byte characters of the prelude: the non-empty
  pieces between white space.\<close>

function split_ws :: "string \<Rightarrow> string \<Rightarrow> string list" where
  "split_ws acc s =
     (case s of
        [] \<Rightarrow> if acc = [] then [] else [acc]
      | c # t \<Rightarrow>
          (case List.find (\<lambda>w. prefix w s) white_space of
             Some w \<Rightarrow> (if acc = [] then [] else [acc]) @ split_ws [] (drop (length w) s)
           | None \<Rightarrow> split_ws (acc @ [c]) t))"
  by pat_completeness auto
termination
  by (relation "measure (\<lambda>(acc, s). length s)") (auto dest: find_prefix_less)

declare split_ws.simps [simp del]

definition split_whitespace :: "string \<Rightarrow> string list" where
  "split_whitespace s = split_ws [] s"

definition backslash :: char where "backslash = CHR 0x5C"
definition dquote :: char where "dquote = CHR 0x22"

definition escape_token :: "string \<Rightarrow> string" where
  "escape_token t = str_replace [dquote] [backslash, dquote] (str_replace [backslash] [backslash, backslash] t)"

definition rule_line :: "json \<Rightarrow> string" where
  "rule_line rule =
     (let pref = field_str ''prefix'' rule;
          permission = unwrap_or (as_str (idx rule ''permission'')) ''Prompt'';
          pattern = join '', '' (map (\<lambda>t. [dquote] @ escape_token t @ [dquote]) (split_whitespace pref));
          decision = to_ascii_lowercase permission
      in ''prefix_rule(pattern=['' @ pattern @ ''], decision='' @ [dquote] @ decision @ [dquote] @ '')'' @ [nl])"

definition serialize_codex_rules_file :: "json \<Rightarrow> string" where
  "serialize_codex_rules_file rules =
     (case as_array rules of None \<Rightarrow> [] | Some arr \<Rightarrow> concat (map rule_line arr))"

datatype FileAccessMode = ModeNone | ModeRead | ModeWrite

fun as_codex_token :: "FileAccessMode \<Rightarrow> string" where
  "as_codex_token ModeNone = ''none''"
| "as_codex_token ModeRead = ''read''"
| "as_codex_token ModeWrite = ''write''"

datatype NetworkAccess = NetAllow | NetDeny

fun net_codex_token :: "NetworkAccess \<Rightarrow> string" where
  "net_codex_token NetAllow = ''allow''"
| "net_codex_token NetDeny = ''deny''"

fun permission_to_file_mode :: "Permission \<Rightarrow> FileAccessMode" where
  "permission_to_file_mode Auto = ModeWrite"
| "permission_to_file_mode Ask = ModeNone"
| "permission_to_file_mode Deny = ModeNone"

fun permission_to_network_access :: "Permission \<Rightarrow> NetworkAccess" where
  "permission_to_network_access Auto = NetAllow"
| "permission_to_network_access Ask = NetDeny"
| "permission_to_network_access Deny = NetDeny"

definition to_codex_fs_path :: "string \<Rightarrow> string \<Rightarrow> string" where
  "to_codex_fs_path glob workspace_root =
     (if glob = ''~'' \<or> prefix ''/'' glob \<or> prefix ''~/'' glob \<or> prefix '':'' glob then glob
      else path_join workspace_root (unwrap_or (strip_prefix ''./'' glob) glob))"

fun after_scheme :: "string \<Rightarrow> string option" where
  "after_scheme s =
     (if prefix ''://'' s then Some (drop 3 s)
      else case s of [] \<Rightarrow> None | c # t \<Rightarrow> after_scheme t)"

declare after_scheme.simps [simp del]

definition extract_host :: "string \<Rightarrow> string" where
  "extract_host domain_key = hd (split_on (CHR ''/'') (unwrap_or (after_scheme domain_key) domain_key))"

definition em_dash :: string where "em_dash = [CHR 0xE2, CHR 0x80, CHR 0x94]"

record CodexPermissionsTable =
  ct_filesystem :: "(string, string) hashmap"
  ct_network_domains :: "(string, string) hashmap"
  ct_gaps :: "string list"

definition codex_table_of_level :: "string \<Rightarrow> PolicyLevel \<Rightarrow> CodexPermissionsTable" where
  "codex_table_of_level workspace_root level =
     (let filesystem = insert_all
            (map (\<lambda>(glob, p). (to_codex_fs_path glob workspace_root, as_codex_token (permission_to_file_mode p))) (pl_paths level)) [];
          network_domains = insert_all
            (map (\<lambda>(key, p). (extract_host key, net_codex_token (permission_to_network_access p))) (pl_urls level)) [];
          url_paths_dropped = filter (\<lambda>key. extract_host key \<noteq> key) (map fst (pl_urls level));
          ask_collapsed = map fst (filter (\<lambda>(_, p). p = Ask) (pl_paths level)) @ map fst (filter (\<lambda>(_, p). p = Ask) (pl_urls level));
          gaps =
            (if url_paths_dropped \<noteq> []
             then [display_nat (length url_paths_dropped) @
                   '' domain rule(s) had URL path components stripped '' @ em_dash @ '' Codex matches host only: '' @ join '', '' url_paths_dropped]
             else []) @
            (if ask_collapsed \<noteq> []
             then [display_nat (length ask_collapsed) @
                   '' ask rule(s) compiled as deny/none in [permissions.kyris] '' @ em_dash @ '' no prompt path at Codex sandbox layer: '' @
                   join '', '' ask_collapsed]
             else [])
      in \<lparr>ct_filesystem = filesystem, ct_network_domains = network_domains, ct_gaps = gaps\<rparr>)"

definition compile_codex_permissions_table where
  "compile_codex_permissions_table env policy_path =
     map_sum id (codex_table_of_level (case pe_cwd env of Inr d \<Rightarrow> d | Inl _ \<Rightarrow> ''/'')) (load_merged_policy env policy_path)"

section \<open>Gemini\<close>

definition GEMINI_DENY_PRIORITY :: nat where "GEMINI_DENY_PRIORITY = 900"
definition GEMINI_ALLOW_PRIORITY :: nat where "GEMINI_ALLOW_PRIORITY = 100"

fun decision_for :: "Permission \<Rightarrow> (string \<times> nat) option" where
  "decision_for Auto = Some (''allow'', GEMINI_ALLOW_PRIORITY)"
| "decision_for Deny = Some (''deny'', GEMINI_DENY_PRIORITY)"
| "decision_for Ask = None"

definition gemini_rule :: "(string \<times> json) list \<Rightarrow> Permission \<Rightarrow> json list" where
  "gemini_rule what perm =
     (case decision_for perm of
        None \<Rightarrow> []
      | Some (decision, priority) \<Rightarrow>
          [JObj (what @ [(''decision'', JStr decision), (''priority'', JInt (int priority))])])"

definition gemini_command_rules :: "(string \<Rightarrow> string) \<Rightarrow> string \<times> Permission \<Rightarrow> json list" where
  "gemini_command_rules id_to_shell rule =
     gemini_rule [(''toolName'', JStr ''run_shell_command''), (''commandPrefix'', JStr (id_to_shell (fst rule)))] (snd rule)"

definition gemini_path_pattern :: "(string \<Rightarrow> string) \<Rightarrow> string \<Rightarrow> string" where
  "gemini_path_pattern regex_escape path_pattern =
     [dquote] @ ''file_path'' @ [dquote] @ '':'' @ [dquote] @
       str_replace [backslash, CHR ''*''] ''.*'' (regex_escape path_pattern) @ [dquote]"

definition gemini_path_rules :: "(string \<Rightarrow> string) \<Rightarrow> string \<times> Permission \<Rightarrow> json list" where
  "gemini_path_rules regex_escape rule =
     concat (map (\<lambda>tool_name. gemini_rule [(''toolName'', JStr tool_name),
        (''argsPattern'', JStr (gemini_path_pattern regex_escape (fst rule)))] (snd rule))
       [''read_file'', ''write_file'', ''replace''])"

definition gemini_mcp_rules :: "(string \<times> string) \<times> Permission \<Rightarrow> json list" where
  "gemini_mcp_rules rule =
     gemini_rule [(''toolName'', JStr (''mcp_'' @ fst (fst rule) @ ''_'' @ snd (fst rule)))] (snd rule)"

definition gemini_le :: "json \<Rightarrow> json \<Rightarrow> bool" where
  "gemini_le a b =
     (let f = (\<lambda>k. (field_str k a, field_str k b)) in
      case f ''toolName'' of (ta, tb) \<Rightarrow>
        if ta \<noteq> tb then str_le ta tb
        else case f ''commandPrefix'' of (ca, cb) \<Rightarrow>
          if ca \<noteq> cb then str_le ca cb
          else str_le (field_str ''argsPattern'' a) (field_str ''argsPattern'' b))"

definition gemini_of_level :: "(string \<Rightarrow> string) \<Rightarrow> (string \<Rightarrow> string) \<Rightarrow> PolicyLevel \<Rightarrow> json \<times> nat" where
  "gemini_of_level id_to_shell regex_escape level =
     (JArr (sort_stable gemini_le
        (concat (map (gemini_command_rules id_to_shell) (pl_commands level)) @
         concat (map (gemini_path_rules regex_escape) (pl_paths level)) @
         concat (map gemini_mcp_rules (pl_mcp level)))),
      length (filter (\<lambda>(_, p). p = Ask) (pl_commands level)) + length (filter (\<lambda>(_, p). p = Ask) (pl_paths level)) +
      length (filter (\<lambda>(_, p). p = Ask) (pl_mcp level)))"

definition compile_gemini_permissions where
  "compile_gemini_permissions env id_to_shell regex_escape policy_path =
     map_sum id (gemini_of_level id_to_shell regex_escape) (load_merged_policy env policy_path)"

text \<open>The file for Gemini's loader: a comment, and the rules as an array of tables whose text the \<^verbatim>\<open>toml\<close> crate
  prints (an argument).\<close>

definition toml_field :: "string \<Rightarrow> toml_value option \<Rightarrow> (string \<times> toml_value) list" where
  "toml_field k v = (case v of Some x \<Rightarrow> [(k, x)] | None \<Rightarrow> [])"

definition toml_str_field :: "json \<Rightarrow> string \<Rightarrow> (string \<times> toml_value) list" where
  "toml_str_field rule k = toml_field k (map_option (\<lambda>s. VLeaf (TStr s)) (as_str (idx rule k)))"

definition GeminiPolicyRule :: "json \<Rightarrow> toml_value" where
  "GeminiPolicyRule rule =
     VObj (toml_str_field rule ''toolName'' @ toml_str_field rule ''commandPrefix'' @ toml_str_field rule ''argsPattern'' @
           toml_str_field rule ''decision'' @
           toml_field ''priority'' (map_option (\<lambda>p. VLeaf (TInt (int p)))
             (opt_filter (\<lambda>p. p < 2 ^ 32) (as_u64 (idx rule ''priority'')))))"

definition GeminiPolicyFile :: "json list \<Rightarrow> toml_value" where
  "GeminiPolicyFile arr = VObj [(''rule'', VArr (map GeminiPolicyRule arr))]"

definition gemini_header :: string where
  "gemini_header =
     ''# Generated by Kyris '' @ em_dash @ '' AgentPact compiled policy for Gemini CLI'' @ [nl] @
     ''# Loads at the USER tier (~/.gemini/policies = effective priority 4.x);'' @ [nl] @
     ''# kyris denies sit at 900 (hard to shadow), allows at 100 (any user rule'' @ [nl] @
     ''# above 100 and every deny outranks them). Admin tier (5.x) always wins.'' @ [nl] @ [nl]"

definition serialize_gemini_policy_toml :: "(toml_value \<Rightarrow> string + string) \<Rightarrow> json \<Rightarrow> string" where
  "serialize_gemini_policy_toml print rules =
     (case as_array rules of
        None \<Rightarrow> gemini_header
      | Some arr \<Rightarrow>
          if arr = [] then gemini_header
          else (case print (GeminiPolicyFile arr) of
                  Inr body \<Rightarrow> gemini_header @ body
                | Inl e \<Rightarrow> gemini_header @ ''# ERROR: failed to serialize policy: '' @ e @ [nl]))"

definition rule_is_loadable :: "toml_value \<Rightarrow> bool" where
  "rule_is_loadable rule =
     (case rule of
        VObj table \<Rightarrow>
          (case map_of table ''toolName'' of
             Some (VLeaf (TStr _)) \<Rightarrow> True
           | Some (VArr names) \<Rightarrow> names \<noteq> [] \<and> list_all (\<lambda>n. t_str n \<noteq> None) names
           | _ \<Rightarrow> False) \<and>
          (case Option.bind (map_of table ''decision'') t_str of
             Some d \<Rightarrow> d = ''allow'' \<or> d = ''deny'' \<or> d = ''ask_user'' | None \<Rightarrow> False) \<and>
          (case map_of table ''priority'' of
             Some (VLeaf (TInt p)) \<Rightarrow> 0 \<le> p \<and> p \<le> 999
           | Some (VLeaf (TFloat p)) \<Rightarrow> of_int \<lfloor>p\<rfloor> = p \<and> 0 \<le> p \<and> p \<le> 999
           | _ \<Rightarrow> False)
      | _ \<Rightarrow> False)"

definition gemini_policy_file_is_loadable :: "(string \<Rightarrow> string + toml_value) \<Rightarrow> string \<Rightarrow> bool" where
  "gemini_policy_file_is_loadable parse contents =
     (case parse contents of
        Inl _ \<Rightarrow> False
      | Inr v \<Rightarrow>
          (case Option.bind (vget ''rule'' v) as_arr of
             None \<Rightarrow> False
           | Some rules \<Rightarrow> rules \<noteq> [] \<and> list_all rule_is_loadable rules))"

section \<open>Tool filters\<close>

definition add_denied :: "(string \<times> string) \<times> Permission \<Rightarrow> (string, string list) hashmap \<Rightarrow> (string, string list) hashmap" where
  "add_denied rule filters =
     (case rule of ((server, tool), perm) \<Rightarrow>
        if perm = Deny then AList.update server (unwrap_or (map_of filters server) [] @ [tool]) filters else filters)"

definition filters_of_level :: "PolicyLevel \<Rightarrow> (string, string list) hashmap" where
  "filters_of_level level = map (\<lambda>(server, tools). (server, sort_stable str_le tools)) (fold add_denied (pl_mcp level) [])"

definition compile_mcp_tool_filters where
  "compile_mcp_tool_filters env policy_path = map_sum id filters_of_level (load_merged_policy env policy_path)"

text \<open>One server's denylist is put under its key, where the server is configured.\<close>

definition set_filter :: "string \<Rightarrow> (string \<Rightarrow> 's) \<Rightarrow> string \<times> string list \<Rightarrow> bool \<times> (string \<times> 's vtree) list \<Rightarrow> bool \<times> (string \<times> 's vtree) list" where
  "set_filter field str flt st =
     (case st of (ch, servers) \<Rightarrow>
        case map_of servers (fst flt) of
          Some (VObj server) \<Rightarrow>
            let new_val = VArr (map (\<lambda>t. VLeaf (str t)) (snd flt)) in
            if (case map_of server field of Some v \<Rightarrow> veq v new_val | None \<Rightarrow> False) then (ch, servers)
            else (True, AList.update (fst flt) (VObj (AList.update field new_val server)) servers)
        | _ \<Rightarrow> (ch, servers))"

fun edit_object_at :: "string list \<Rightarrow> ((string \<times> 's vtree) list \<Rightarrow> bool \<times> (string \<times> 's vtree) list) \<Rightarrow> 's vtree \<Rightarrow> bool \<times> 's vtree" where
  "edit_object_at [] f v = (case v of VObj m \<Rightarrow> (let (c, m') = f m in (c, VObj m')) | _ \<Rightarrow> (False, v))"
| "edit_object_at (k # path) f v =
     (case v of
        VObj m \<Rightarrow> (case map_of m k of
                     Some child \<Rightarrow> (let (c, child') = edit_object_at path f child in (c, VObj (AList.update k child' m)))
                   | None \<Rightarrow> (False, v))
      | _ \<Rightarrow> (False, v))"

definition apply_toml_tool_filters :: "string + (string, string list) hashmap \<Rightarrow> toml_value \<Rightarrow> bool \<times> toml_value" where
  "apply_toml_tool_filters compiled config =
     (case compiled of
        Inl _ \<Rightarrow> (False, config)
      | Inr filters \<Rightarrow>
          if filters = [] then (False, config)
          else edit_object_at [''mcp_servers''] (\<lambda>servers. fold (set_filter ''disabled_tools'' TStr) filters (False, servers)) config)"

definition apply_json_tool_filters :: "string + (string, string list) hashmap \<Rightarrow> json_value \<Rightarrow> string list \<Rightarrow> bool \<times> json_value" where
  "apply_json_tool_filters compiled config servers_path =
     (case compiled of
        Inl _ \<Rightarrow> (False, config)
      | Inr filters \<Rightarrow>
          if filters = [] then (False, config)
          else edit_object_at servers_path (\<lambda>servers. fold (set_filter ''excludeTools'' SStr) filters (False, servers)) config)"

definition add_mcp_tool_denies :: "json_value \<Rightarrow> (string, string list) hashmap \<Rightarrow> string list \<Rightarrow> bool \<times> json_value" where
  "add_mcp_tool_denies settings filters present_servers =
     (let wanted = concat (map (\<lambda>(server, tools).
            if server \<in> set present_servers then map (\<lambda>tool. ''mcp__'' @ server @ ''__'' @ tool) tools else []) filters)
      in if filters = [] \<or> wanted = [] then (False, settings)
         else case settings of
                VObj m \<Rightarrow>
                  (case unwrap_or (map_of m ''permissions'') (VObj []) of
                     VObj permissions \<Rightarrow>
                       (case unwrap_or (map_of permissions ''deny'') (VArr []) of
                          VArr deny \<Rightarrow>
                            let existing = List.map_filter j_str deny;
                                new = filter (\<lambda>e. e \<notin> set existing) wanted
                            in (new \<noteq> [],
                                VObj (AList.update ''permissions''
                                  (VObj (AList.update ''deny'' (VArr (deny @ map (\<lambda>e. VLeaf (SStr e)) new)) permissions)) m))
                        | _ \<Rightarrow> (False, VObj (AList.update ''permissions'' (VObj permissions) m)))
                   | _ \<Rightarrow> (False, settings))
              | _ \<Rightarrow> (False, settings))"

definition apply_claude_mcp_tool_denies :: "string + (string, string list) hashmap \<Rightarrow> json_value \<Rightarrow> string list \<Rightarrow> bool \<times> json_value" where
  "apply_claude_mcp_tool_denies compiled settings present_servers =
     (case compiled of Inl _ \<Rightarrow> (False, settings) | Inr filters \<Rightarrow> add_mcp_tool_denies settings filters present_servers)"

section \<open>The merged policy\<close>

lemma set_insert_sorted [simp]: "set (insert_sorted le x xs) = insert x (set xs)"
  by (induction xs) auto

lemma set_sort_stable [simp]: "set (sort_stable le xs) = set xs"
  by (induction xs) (auto simp: sort_stable_def)

lemma sort_stable_Nil [simp]: "sort_stable le xs = [] \<longleftrightarrow> xs = []"
  by (metis set_empty set_sort_stable)

lemma insert_all_Nil [simp]: "insert_all [] m = m"
  by (simp add: insert_all_def)

lemma insert_all_Cons [simp]: "insert_all ((k, v) # es) m = insert_all es (AList.update k v m)"
  by (simp add: insert_all_def)

lemma insert_all_distinct: "distinct (map fst m) \<Longrightarrow> distinct (map fst (insert_all es m))"
  by (induction es arbitrary: m) (auto simp: distinct_update)

lemma insert_all_lookup:
  "distinct (map fst es) \<Longrightarrow> map_of (insert_all es m) k = (case map_of es k of Some v \<Rightarrow> Some v | None \<Rightarrow> map_of m k)"
proof (induction es arbitrary: m)
  case (Cons e es)
  obtain j v where e: "e = (j, v)" by (cases e)
  with Cons(2) have "map_of es j = None" by (simp add: map_of_eq_None_iff)
  with Cons e show ?case by (auto split: option.split)
qed simp

lemma insert_all_values: "map_of (insert_all es m) k = Some v \<Longrightarrow> (k, v) \<in> set es \<or> map_of m k = Some v"
proof (induction es arbitrary: m)
  case (Cons e es)
  obtain j w where [simp]: "e = (j, w)" by (cases e)
  from Cons(1)[of "AList.update j w m"] Cons(2) show ?case by (auto split: if_splits)
qed simp

lemma insert_all_keys: "map_of (insert_all es m) k = None \<longleftrightarrow> k \<notin> fst ` set es \<and> map_of m k = None"
proof (induction es arbitrary: m)
  case (Cons e es)
  obtain j w where [simp]: "e = (j, w)" by (cases e)
  show ?case using Cons[of "AList.update j w m"] by auto
qed simp

text \<open>The reference: the nearest level that speaks of the key decides.\<close>

fun nearest :: "('l \<Rightarrow> 'v option) \<Rightarrow> 'l list \<Rightarrow> 'v option" where
  "nearest f [] = None"
| "nearest f (l # ls) = (case f l of Some v \<Rightarrow> Some v | None \<Rightarrow> nearest f ls)"

definition wf_level :: "PolicyLevel \<Rightarrow> bool" where
  "wf_level l = (distinct (map fst (pl_commands l)) \<and> distinct (map fst (pl_urls l)) \<and>
     distinct (map fst (pl_paths l)) \<and> distinct (map fst (pl_mcp l)))"

lemma merge_levels_Cons: "merge_levels (l # ls) = merge_level l (merge_levels ls)"
  by (simp add: merge_levels_def)

text \<open>
  The merged policy is the walk-up policy: for every command, URL, path and tool, and for the default, what
  the merged level says is what the nearest level that says anything says.
\<close>

theorem nearest_level_wins:
  assumes "list_all wf_level levels"
  shows "map_of (pl_commands (merge_levels levels)) c = nearest (\<lambda>l. map_of (pl_commands l) c) levels \<and>
    map_of (pl_urls (merge_levels levels)) u = nearest (\<lambda>l. map_of (pl_urls l) u) levels \<and>
    map_of (pl_paths (merge_levels levels)) p = nearest (\<lambda>l. map_of (pl_paths l) p) levels \<and>
    map_of (pl_mcp (merge_levels levels)) m = nearest (\<lambda>l. map_of (pl_mcp l) m) levels \<and>
    pl_unclassified_default (merge_levels levels) = nearest pl_unclassified_default levels"
  using assms
proof (induction levels)
  case Nil
  then show ?case by (simp add: merge_levels_def default_level_def)
next
  case (Cons l ls)
  then show ?case by (simp add: merge_levels_Cons merge_level_def insert_all_lookup wf_level_def split: option.split)
qed

definition example_level :: "(string, Permission) hashmap \<Rightarrow> PolicyLevel" where
  "example_level cs = default_level\<lparr>pl_commands := cs\<rparr>"

theorem nearest_level_wins_witness:
  "map_of (pl_commands (merge_levels [example_level [(''rm'', Deny)], example_level [(''rm'', Auto), (''ls'', Auto)]])) ''rm'' = Some Deny"
  using nearest_level_wins[of "[example_level [(''rm'', Deny)], example_level [(''rm'', Auto), (''ls'', Auto)]]" "''rm''"]
  by (simp add: example_level_def default_level_def wf_level_def)

section \<open>What the targets list\<close>

text \<open>Under which decision a target's configuration lists a shell command. This is the text of the rules, not what an agent
  makes of them: Codex's and Gemini's rules match every command line that starts with the listed command.\<close>

definition str_list :: "string \<Rightarrow> json \<Rightarrow> string list" where
  "str_list k v = List.map_filter as_str (unwrap_or (Option.bind (get k v) as_array) [])"

definition cline_grants where "cline_grants out c = (c \<in> set (str_list ''allow'' out))"
definition cline_denies where "cline_denies out c = (c \<in> set (str_list ''deny'' out))"

definition opencode_says :: "string \<Rightarrow> json \<Rightarrow> string \<Rightarrow> bool" where
  "opencode_says w out c = (Option.bind (get ''bash'' out) (get c) = Some (JStr w))"

definition codex_says :: "string \<Rightarrow> json \<Rightarrow> string \<Rightarrow> bool" where
  "codex_says w out c =
     list_ex (\<lambda>r. field_str ''prefix'' r = c \<and> field_str ''permission'' r = w) (unwrap_or (as_array out) [])"

definition gemini_says :: "string \<Rightarrow> json \<Rightarrow> string \<Rightarrow> bool" where
  "gemini_says w out c =
     list_ex (\<lambda>r. field_str ''toolName'' r = ''run_shell_command'' \<and> get ''commandPrefix'' r = Some (JStr c) \<and> field_str ''decision'' r = w)
       (unwrap_or (as_array out) [])"

locale policy_target =
  fixes shell :: "string \<Rightarrow> string"
    and compile :: "PolicyLevel \<Rightarrow> json"
    and grants :: "json \<Rightarrow> string \<Rightarrow> bool"
    and denies :: "json \<Rightarrow> string \<Rightarrow> bool"
  assumes grant_from_auto: "grants (compile l) c \<Longrightarrow> \<exists>cid. (cid, Auto) \<in> set (pl_commands l) \<and> shell cid = c"
    and deny_kept: "wf_level l \<Longrightarrow> inj_on shell (fst ` set (pl_commands l)) \<Longrightarrow> (cid, Deny) \<in> set (pl_commands l) \<Longrightarrow>
      denies (compile l) (shell cid)"
begin

lemma not_granted:
  assumes "wf_level l" and "inj_on shell (fst ` set (pl_commands l))" and "(cid, p) \<in> set (pl_commands l)" and "p \<noteq> Auto"
  shows "\<not> grants (compile l) (shell cid)"
proof
  assume "grants (compile l) (shell cid)"
  then obtain c' where c': "(c', Auto) \<in> set (pl_commands l)" "shell c' = shell cid" using grant_from_auto by blast
  with assms(2,3) have "c' = cid" by (force dest: inj_onD)
  with c'(1) assms(1,3,4) show False by (auto simp: wf_level_def dest: eq_key_imp_eq_value)
qed

lemma no_weaker:
  assumes "wf_level l" and "inj_on shell (fst ` set (pl_commands l))" and "(cid, p) \<in> set (pl_commands l)"
  shows "(grants (compile l) (shell cid) \<longrightarrow> p = Auto) \<and> (p = Deny \<longrightarrow> denies (compile l) (shell cid))"
  using not_granted[OF assms] deny_kept[OF assms(1,2)] assms(3) by blast

end

lemma map_filter_JStr [simp]: "List.map_filter as_str (map JStr xs) = xs"
  by (induction xs) (auto simp: map_filter_simps)

interpretation cline_target: policy_target id_to_shell "\<lambda>l. fst (cline_of_level id_to_shell l)" cline_grants cline_denies for id_to_shell
  by unfold_locales
    (force simp: cline_grants_def cline_denies_def cline_of_level_def str_list_def shell_commands_def)+

lemma opencode_bash: "Option.bind (get ''bash'' (fst (opencode_of_level f l))) (get c) =
    map_of (sorted_map (map (\<lambda>(k, p). (f k, p)) (pl_commands l))) c"
  by (auto simp: opencode_of_level_def Let_def)

lemma sorted_map_values: "map_of (sorted_map es) c = Some (JStr w) \<Longrightarrow> \<exists>p. (c, p) \<in> set es \<and> perm_str p = w"
  unfolding sorted_map_def by (drule insert_all_values) auto

lemma sorted_map_lookup:
  assumes "(c, p) \<in> set es" and "\<And>q. (c, q) \<in> set es \<Longrightarrow> q = p"
  shows "map_of (sorted_map es) c = Some (JStr (perm_str p))"
proof -
  have "map_of (sorted_map es) c \<noteq> None" unfolding sorted_map_def by (subst insert_all_keys) (use assms(1) in force)
  then obtain v where v: "map_of (sorted_map es) c = Some v" by blast
  then have "(c, v) \<in> set (map (\<lambda>(k, p). (k, JStr (perm_str p))) (sort_stable (\<lambda>a b. str_le (fst a) (fst b)) es))"
    unfolding sorted_map_def by (auto dest!: insert_all_values simp del: set_map)
  then obtain q where "(c, q) \<in> set es" "v = JStr (perm_str q)" by auto
  with assms(2) v show ?thesis by auto
qed

interpretation opencode_target: policy_target id_to_shell "\<lambda>l. fst (opencode_of_level id_to_shell l)"
  "opencode_says ''allow''" "opencode_says ''deny''" for id_to_shell
proof unfold_locales
  fix l c
  assume "opencode_says ''allow'' (fst (opencode_of_level id_to_shell l)) c"
  then obtain p where "(c, p) \<in> set (map (\<lambda>(k, p). (id_to_shell k, p)) (pl_commands l))" "perm_str p = ''allow''"
    unfolding opencode_says_def opencode_bash by (blast dest: sorted_map_values)
  then show "\<exists>cid. (cid, Auto) \<in> set (pl_commands l) \<and> id_to_shell cid = c" by (cases p) auto
next
  fix l cid
  assume l: "wf_level l" "inj_on id_to_shell (fst ` set (pl_commands l))" "(cid, Deny) \<in> set (pl_commands l)"
  have "q = Deny" if q: "(id_to_shell cid, q) \<in> set (map (\<lambda>(k, p). (id_to_shell k, p)) (pl_commands l))" for q
  proof -
    from q obtain k where k: "(k, q) \<in> set (pl_commands l)" "id_to_shell k = id_to_shell cid" by auto
    with l(2,3) have "k = cid" by (force dest: inj_onD)
    with k(1) l(1,3) show ?thesis by (auto simp: wf_level_def dest: eq_key_imp_eq_value)
  qed
  then have "map_of (sorted_map (map (\<lambda>(k, p). (id_to_shell k, p)) (pl_commands l))) (id_to_shell cid) = Some (JStr (perm_str Deny))"
    using l(3) by (intro sorted_map_lookup) force+
  then show "opencode_says ''deny'' (fst (opencode_of_level id_to_shell l)) (id_to_shell cid)"
    by (simp add: opencode_says_def opencode_bash)
qed

lemma codex_rule_fields [simp]:
  "field_str ''prefix'' (codex_rule f r) = f (fst r)" "field_str ''permission'' (codex_rule f r) = codex_permission (snd r)"
  by (simp_all add: field_str_def codex_rule_def idx_def)

lemma codex_permission_inj: "codex_permission p = codex_permission q \<longleftrightarrow> p = q"
  by (cases p; cases q) auto

lemma codex_says_iff:
  "codex_says (codex_permission p) (fst (codex_of_level f l)) c \<longleftrightarrow> (\<exists>cid. (cid, p) \<in> set (pl_commands l) \<and> f cid = c)"
  by (force simp: codex_says_def codex_of_level_def list_ex_iff codex_permission_inj)

interpretation codex_target: policy_target id_to_shell "\<lambda>l. fst (codex_of_level id_to_shell l)"
  "codex_says ''Allow''" "codex_says ''Forbidden''" for id_to_shell
  by unfold_locales (use codex_says_iff[of Auto id_to_shell] codex_says_iff[of Deny id_to_shell] in auto)

lemma gemini_rule_iff: "r \<in> set (gemini_rule what p) \<longleftrightarrow>
    (\<exists>d n. decision_for p = Some (d, n) \<and> r = JObj (what @ [(''decision'', JStr d), (''priority'', JInt (int n))]))"
  by (auto simp: gemini_rule_def split: option.splits)

lemma gemini_command_rule_says:
  "(\<exists>r \<in> set (gemini_command_rules f x). get ''commandPrefix'' r = Some (JStr c) \<and> field_str ''decision'' r = w) \<longleftrightarrow>
     f (fst x) = c \<and> (\<exists>n. decision_for (snd x) = Some (w, n))"
  by (auto simp: gemini_command_rules_def gemini_rule_iff field_str_def idx_def)

lemma gemini_other_rules:
  "r \<in> set (gemini_path_rules e x) \<Longrightarrow> field_str ''toolName'' r \<noteq> ''run_shell_command''"
  "r \<in> set (gemini_mcp_rules y) \<Longrightarrow> field_str ''toolName'' r \<noteq> ''run_shell_command''"
  by (auto simp: gemini_path_rules_def gemini_mcp_rules_def gemini_rule_iff field_str_def idx_def)

lemma gemini_command_tool: "r \<in> set (gemini_command_rules f x) \<Longrightarrow> field_str ''toolName'' r = ''run_shell_command''"
  by (auto simp: gemini_command_rules_def gemini_rule_iff field_str_def idx_def)

lemma gemini_says_iff:
  "gemini_says w (fst (gemini_of_level f e l)) c \<longleftrightarrow>
     (\<exists>cid p n. (cid, p) \<in> set (pl_commands l) \<and> f cid = c \<and> decision_for p = Some (w, n))"
proof -
  have "gemini_says w (fst (gemini_of_level f e l)) c \<longleftrightarrow>
      (\<exists>x \<in> set (pl_commands l). \<exists>r \<in> set (gemini_command_rules f x).
         get ''commandPrefix'' r = Some (JStr c) \<and> field_str ''decision'' r = w)"
    by (auto simp: gemini_says_def gemini_of_level_def list_ex_iff dest: gemini_other_rules intro: gemini_command_tool)
  also have "\<dots> \<longleftrightarrow> (\<exists>x \<in> set (pl_commands l). f (fst x) = c \<and> (\<exists>n. decision_for (snd x) = Some (w, n)))"
    by (simp only: gemini_command_rule_says)
  also have "\<dots> \<longleftrightarrow> (\<exists>cid p n. (cid, p) \<in> set (pl_commands l) \<and> f cid = c \<and> decision_for p = Some (w, n))"
    by (fastforce simp: Bex_def)
  finally show ?thesis .
qed

interpretation gemini_target: policy_target id_to_shell "\<lambda>l. fst (gemini_of_level id_to_shell regex_escape l)"
  "gemini_says ''allow''" "gemini_says ''deny''" for id_to_shell regex_escape
proof unfold_locales
  fix l c
  assume "gemini_says ''allow'' (fst (gemini_of_level id_to_shell regex_escape l)) c"
  then obtain cid p n where "(cid, p) \<in> set (pl_commands l)" "id_to_shell cid = c" "decision_for p = Some (''allow'', n)"
    unfolding gemini_says_iff by blast
  then show "\<exists>cid. (cid, Auto) \<in> set (pl_commands l) \<and> id_to_shell cid = c" by (cases p) auto
qed (force simp: gemini_says_iff)

text \<open>
  Commands are listed as the policy decides them. For a policy level in which no two commands have the same shell
  form, a command the policy does not allow outright is in no allow rule of the four targets (Cline, OpenCode,
  Codex, Gemini) under its own name, and a command the policy denies is in a deny rule of each of them. An ask rule that
  a target drops can still be covered by the allow rule of a shorter command: \<open>gemini_drops_ask_under_wider_allow\<close>.
\<close>

theorem commands_are_listed_as_decided:
  assumes "wf_level l" and "inj_on id_to_shell (fst ` set (pl_commands l))" and "(cid, p) \<in> set (pl_commands l)"
  shows "(p \<noteq> Auto \<longrightarrow>
      \<not> cline_grants (fst (cline_of_level id_to_shell l)) (id_to_shell cid) \<and>
      \<not> opencode_says ''allow'' (fst (opencode_of_level id_to_shell l)) (id_to_shell cid) \<and>
      \<not> codex_says ''Allow'' (fst (codex_of_level id_to_shell l)) (id_to_shell cid) \<and>
      \<not> gemini_says ''allow'' (fst (gemini_of_level id_to_shell regex_escape l)) (id_to_shell cid)) \<and>
    (p = Deny \<longrightarrow>
      cline_denies (fst (cline_of_level id_to_shell l)) (id_to_shell cid) \<and>
      opencode_says ''deny'' (fst (opencode_of_level id_to_shell l)) (id_to_shell cid) \<and>
      codex_says ''Forbidden'' (fst (codex_of_level id_to_shell l)) (id_to_shell cid) \<and>
      gemini_says ''deny'' (fst (gemini_of_level id_to_shell regex_escape l)) (id_to_shell cid))"
  using cline_target.no_weaker[OF assms] opencode_target.no_weaker[OF assms] codex_target.no_weaker[OF assms]
    gemini_target.no_weaker[OF assms, of regex_escape] by blast

theorem commands_are_listed_as_decided_witness:
  "wf_level (example_level [(''ls'', Auto), (''rm'', Deny)]) \<and>
   codex_says ''Forbidden'' (fst (codex_of_level (\<lambda>c. c) (example_level [(''ls'', Auto), (''rm'', Deny)]))) ''rm'' \<and>
   \<not> cline_grants (fst (cline_of_level (\<lambda>c. c) (example_level [(''ls'', Auto), (''rm'', Deny)]))) ''rm''"
proof -
  have w: "wf_level (example_level [(''ls'', Auto), (''rm'', Deny)])" by code_simp
  have m: "(''rm'', Deny) \<in> set (pl_commands (example_level [(''ls'', Auto), (''rm'', Deny)]))" by code_simp
  show ?thesis using commands_are_listed_as_decided[OF w inj_on_id2 m] w by simp
qed

text \<open>Gemini's rules are prefix rules and its ask rules are dropped: of a policy that allows \<open>git\<close> and asks for
  \<open>git push\<close> only the rule that allows every command starting with \<open>git\<close> is left.\<close>

lemma gemini_drops_ask_under_wider_allow:
  "gemini_of_level (\<lambda>c. c) (\<lambda>p. p) (example_level [(''git'', Auto), (''git push'', Ask)]) =
     (JArr [JObj [(''toolName'', JStr ''run_shell_command''), (''commandPrefix'', JStr ''git''), (''decision'', JStr ''allow''),
                  (''priority'', JInt 100)]], 1)"
  by (simp add: gemini_of_level_def example_level_def default_level_def gemini_command_rules_def gemini_rule_def
      GEMINI_ALLOW_PRIORITY_def sort_stable_def)

text \<open>That no two rules coincide is needed: two URLs of one host, one denied and one allowed, compile to a single entry whose
  value depends on the order in which the hash map yields them.\<close>

lemma codex_host_collision_is_ordered:
  "map_of (ct_network_domains (codex_table_of_level ws (default_level\<lparr>pl_urls := [(''h/a'', Deny), (''h/b'', Auto)]\<rparr>))) ''h'' = Some ''allow''"
  "map_of (ct_network_domains (codex_table_of_level ws (default_level\<lparr>pl_urls := [(''h/b'', Auto), (''h/a'', Deny)]\<rparr>))) ''h'' = Some ''deny''"
  by (simp_all add: codex_table_of_level_def default_level_def extract_host_def after_scheme.simps Let_def)

text \<open>Codex's tables fail closed: an entry that grants comes from a rule that allows, and a rule that no other rule
  resolves to is entered as it is, with asking taken as refusal.\<close>

lemma insert_all_unique:
  assumes "(k, v) \<in> set es" and "\<And>w. (k, w) \<in> set es \<Longrightarrow> w = v"
  shows "map_of (insert_all es []) k = Some v"
proof -
  have "map_of (insert_all es []) k \<noteq> None" by (subst insert_all_keys) (use assms(1) in force)
  then obtain w where "map_of (insert_all es []) k = Some w" by blast
  with insert_all_values[OF this] assms(2) show ?thesis by auto
qed

lemma codex_table_fails_closed:
  "map_of (ct_filesystem (codex_table_of_level ws l)) p = Some ''write'' \<Longrightarrow>
     \<exists>glob. (glob, Auto) \<in> set (pl_paths l) \<and> to_codex_fs_path glob ws = p"
  "map_of (ct_network_domains (codex_table_of_level ws l)) h = Some ''allow'' \<Longrightarrow>
     \<exists>key. (key, Auto) \<in> set (pl_urls l) \<and> extract_host key = h"
proof -
  have w: "as_codex_token (permission_to_file_mode q) = ''write'' \<longleftrightarrow> q = Auto" for q by (cases q) auto
  have a: "net_codex_token (permission_to_network_access q) = ''allow'' \<longleftrightarrow> q = Auto" for q by (cases q) auto
  note wa = w w[THEN eq_commute[THEN trans]] a a[THEN eq_commute[THEN trans]]
  show "map_of (ct_filesystem (codex_table_of_level ws l)) p = Some ''write'' \<Longrightarrow>
     \<exists>glob. (glob, Auto) \<in> set (pl_paths l) \<and> to_codex_fs_path glob ws = p"
    by (force simp: codex_table_of_level_def Let_def wa dest!: insert_all_values)
  show "map_of (ct_network_domains (codex_table_of_level ws l)) h = Some ''allow'' \<Longrightarrow>
     \<exists>key. (key, Auto) \<in> set (pl_urls l) \<and> extract_host key = h"
    by (force simp: codex_table_of_level_def Let_def wa dest!: insert_all_values)
qed

section \<open>The Codex rules file\<close>

lemma str_replace_char: "str_replace [c] r s = concat (map (\<lambda>x. if x = c then r else [x]) s)"
proof (induction s)
  case (Cons x s)
  then show ?case by (subst str_replace.simps) auto
qed (simp add: str_replace.simps)

lemma escape_token_simps [simp]:
  "escape_token [] = []"
  "escape_token (x # t) = (if x = backslash then [backslash, backslash] else if x = dquote then [backslash, dquote] else [x]) @ escape_token t"
  by (simp_all add: escape_token_def str_replace_char backslash_def dquote_def)

text \<open>How Codex's Starlark reader takes the file apart: string literals with two escapes, lists of them, and the
  rule call.\<close>

fun read_literal :: "string \<Rightarrow> (string \<times> string) option" where
  "read_literal [] = None"
| "read_literal (c # s) =
     (if c = dquote then Some ([], s)
      else if c = backslash then
        (case s of
           [] \<Rightarrow> None
         | d # s \<Rightarrow> if d = backslash \<or> d = dquote then map_option (\<lambda>(t, r). (d # t, r)) (read_literal s) else None)
      else map_option (\<lambda>(t, r). (c # t, r)) (read_literal s))"

lemma read_literal_shorter: "read_literal s = Some (t, r) \<Longrightarrow> length r < length s"
  by (induction s arbitrary: t rule: read_literal.induct) (fastforce split: if_splits list.splits)+

lemma read_literal_escaped: "read_literal (escape_token t @ dquote # rest) = Some (t, rest)"
  by (induction t) (auto simp: backslash_def dquote_def)

function read_pattern :: "string \<Rightarrow> (string list \<times> string) option" where
  "read_pattern s =
     (case s of
        [] \<Rightarrow> None
      | c # s1 \<Rightarrow>
          if c \<noteq> dquote then None
          else case read_literal s1 of
                 None \<Rightarrow> None
               | Some (t, r) \<Rightarrow>
                   if prefix '', '' r then map_option (\<lambda>(ts, r). (t # ts, r)) (read_pattern (drop 2 r)) else Some ([t], r))"
  by pat_completeness auto
termination
  by (relation "measure length") (auto dest: read_literal_shorter)

declare read_pattern.simps [simp del]

lemma read_pattern_joined:
  "ts \<noteq> [] \<Longrightarrow> \<not> prefix '', '' rest \<Longrightarrow>
     read_pattern (join '', '' (map (\<lambda>t. [dquote] @ escape_token t @ [dquote]) ts) @ rest) = Some (ts, rest)"
proof (induction ts)
  case (Cons t ts)
  show ?case
  proof (cases ts)
    case Nil
    with Cons(3) show ?thesis
      by (subst read_pattern.simps) (simp add: read_literal_escaped)
  next
    case (Cons u us)
    with Cons.IH Cons.prems(2) show ?thesis
      by (subst read_pattern.simps) (simp add: read_literal_escaped)
  qed
qed simp

definition read_rule :: "string \<Rightarrow> ((string list \<times> string) \<times> string) option" where
  "read_rule s =
     Option.bind (strip_prefix ''prefix_rule(pattern=['' s) (\<lambda>s.
     Option.bind (if prefix '']'' s then Some ([], s) else read_pattern s) (\<lambda>(ts, s).
     Option.bind (strip_prefix (''], decision='' @ [dquote]) s) (\<lambda>s.
     Option.bind (read_literal s) (\<lambda>(d, s).
     map_option (\<lambda>s. ((ts, d), s)) (strip_prefix ('')'' @ [nl]) s)))))"

lemma read_rule_line:
  assumes "backslash \<notin> set d" and "dquote \<notin> set d"
    and "to_ascii_lowercase (unwrap_or (as_str (idx r ''permission'')) ''Prompt'') = d"
  shows "read_rule (rule_line r @ rest) = Some ((split_whitespace (field_str ''prefix'' r), d), rest)"
proof -
  have d: "read_literal (d @ dquote # x) = Some (d, x)" for x
    using assms(1,2) by (induction d) auto
  let ?ts = "split_whitespace (field_str ''prefix'' r)"
  define A where "A = ''prefix_rule(pattern=[''"
  define M where "M = ''], decision='' @ [dquote]"
  define Z where "Z = '')'' @ [nl]"
  define P where "P = join '', '' (map (\<lambda>t. [dquote] @ escape_token t @ [dquote]) ?ts)"
  have line: "rule_line r @ rest = A @ P @ M @ d @ dquote # Z @ rest"
    using assms(3) by (simp add: rule_line_def A_def M_def Z_def P_def Let_def)
  have M: "prefix '']'' (M @ x)" "\<not> prefix '', '' (M @ x)" for x by (simp_all add: M_def)
  have pattern: "(if prefix '']'' (P @ M @ x) then Some ([], P @ M @ x) else read_pattern (P @ M @ x)) = Some (?ts, M @ x)" for x
  proof (cases ?ts)
    case Nil
    with M(1) show ?thesis by (simp add: P_def)
  next
    case (Cons t us)
    have "\<not> prefix '']'' (P @ M @ x)" using Cons by (cases us) (simp_all add: P_def dquote_def)
    then show ?thesis using read_pattern_joined[of ?ts "M @ x"] Cons M(2) by (simp add: P_def)
  qed
  have strip: "strip_prefix p (p @ x) = Some x" for p x :: string by simp
  have "read_rule (A @ P @ M @ d @ dquote # Z @ rest) = Some ((?ts, d), rest)"
    unfolding read_rule_def A_def[symmetric] M_def[symmetric] Z_def[symmetric]
    by (simp only: strip pattern d bind.simps(2) option.simps prod.case)
  then show ?thesis using line by simp
qed

fun read_rules :: "nat \<Rightarrow> string \<Rightarrow> (string list \<times> string) list option" where
  "read_rules 0 s = None"
| "read_rules (Suc n) s =
     (if s = [] then Some []
      else case read_rule s of None \<Rightarrow> None | Some (rule, s) \<Rightarrow> map_option (\<lambda>rs. rule # rs) (read_rules n s))"

text \<open>
  The rules file reads back as the policy: whatever quotes and backslashes the commands contain, reading the
  file Codex is given yields one rule per command, with the command's words as its pattern and the policy's
  decision, in the order of the compiled rules.
\<close>

theorem codex_rules_file_reads_back:
  assumes "codex_of_level id_to_shell l = (JArr rules, n)"
  shows "read_rules (Suc (length rules)) (serialize_codex_rules_file (JArr rules)) =
    Some (map (\<lambda>r. (split_whitespace (field_str ''prefix'' r), to_ascii_lowercase (field_str ''permission'' r))) rules) \<and>
    (\<forall>cid p. (cid, p) \<in> set (pl_commands l) \<longrightarrow>
       (split_whitespace (id_to_shell cid), to_ascii_lowercase (codex_permission p)) \<in>
         set (map (\<lambda>r. (split_whitespace (field_str ''prefix'' r), to_ascii_lowercase (field_str ''permission'' r))) rules))"
proof -
  have rules: "set rules = codex_rule id_to_shell ` set (pl_commands l)"
    using assms by (auto simp: codex_of_level_def)
  have line: "read_rule (rule_line r @ rest) =
      Some ((split_whitespace (field_str ''prefix'' r), to_ascii_lowercase (field_str ''permission'' r)), rest)"
    if r: "r \<in> set rules" for r rest
  proof (rule read_rule_line)
    obtain x where x: "r = codex_rule id_to_shell x" using r rules by auto
    show "to_ascii_lowercase (unwrap_or (as_str (idx r ''permission'')) ''Prompt'') = to_ascii_lowercase (field_str ''permission'' r)"
      by (simp add: x codex_rule_def idx_def field_str_def)
    show "backslash \<notin> set (to_ascii_lowercase (field_str ''permission'' r))"
      by (cases "snd x") (simp_all add: x, (code_simp)+)
    show "dquote \<notin> set (to_ascii_lowercase (field_str ''permission'' r))"
      by (cases "snd x") (simp_all add: x, (code_simp)+)
  qed
  have ne: "rule_line r \<noteq> []" for r by (simp add: rule_line_def Let_def)
  have "read_rules (Suc (length rs)) (concat (map rule_line rs)) =
      Some (map (\<lambda>r. (split_whitespace (field_str ''prefix'' r), to_ascii_lowercase (field_str ''permission'' r))) rs)"
    if "set rs \<subseteq> set rules" for rs
    using that by (induction rs) (auto simp: line ne)
  from this[of rules] have "read_rules (Suc (length rules)) (serialize_codex_rules_file (JArr rules)) =
      Some (map (\<lambda>r. (split_whitespace (field_str ''prefix'' r), to_ascii_lowercase (field_str ''permission'' r))) rules)"
    by (simp add: serialize_codex_rules_file_def del: read_rules.simps)
  moreover have "(split_whitespace (id_to_shell cid), to_ascii_lowercase (codex_permission p)) \<in>
      (\<lambda>r. (split_whitespace (field_str ''prefix'' r), to_ascii_lowercase (field_str ''permission'' r))) ` set rules"
    if "(cid, p) \<in> set (pl_commands l)" for cid p
    using that unfolding rules by (intro image_eqI[of _ _ "codex_rule id_to_shell (cid, p)"]) auto
  ultimately show ?thesis by simp
qed

theorem codex_rules_file_reads_back_witness:
  "\<exists>rules n. codex_of_level (\<lambda>c. c) (example_level [([dquote, backslash], Deny)]) = (JArr rules, n) \<and>
     read_rules (Suc (length rules)) (serialize_codex_rules_file (JArr rules)) =
       Some (map (\<lambda>r. (split_whitespace (field_str ''prefix'' r), to_ascii_lowercase (field_str ''permission'' r))) rules)"
proof -
  obtain rules n where r: "codex_of_level (\<lambda>c. c) (example_level [([dquote, backslash], Deny)]) = (JArr rules, n)"
    by (simp add: codex_of_level_def)
  then show ?thesis using codex_rules_file_reads_back[OF r] by blast
qed

section \<open>The Gemini policy file\<close>

text \<open>Every compiled rule meets the loader's schema.\<close>

lemma gemini_rule_fields:
  assumes "r \<in> set (gemini_rule ((''toolName'', JStr t) # what) p)" and "list_all (\<lambda>(k, v). k \<in> {''commandPrefix'', ''argsPattern''}) what"
  shows "idx r ''toolName'' = JStr t" "\<exists>d. idx r ''decision'' = JStr d \<and> (d = ''allow'' \<or> d = ''deny'')"
    "\<exists>n. idx r ''priority'' = JInt (int n) \<and> n \<le> 999"
proof -
  obtain d n where dn: "decision_for p = Some (d, n)"
    and r: "r = JObj (((''toolName'', JStr t) # what) @ [(''decision'', JStr d), (''priority'', JInt (int n))])"
    using assms(1) unfolding gemini_rule_iff by blast
  have n: "map_of what ''decision'' = None" "map_of what ''priority'' = None"
    using assms(2) by (auto simp: map_of_eq_None_iff list_all_iff)
  show "idx r ''toolName'' = JStr t" by (simp add: r idx_def)
  have "d = ''allow'' \<or> d = ''deny''" "n \<le> 999"
    using dn by (cases p; simp add: GEMINI_ALLOW_PRIORITY_def GEMINI_DENY_PRIORITY_def)+
  then show "\<exists>d. idx r ''decision'' = JStr d \<and> (d = ''allow'' \<or> d = ''deny'')" "\<exists>n. idx r ''priority'' = JInt (int n) \<and> n \<le> 999"
    using n by (simp_all add: r idx_def map_add_def)
qed

lemma gemini_of_level_schema:
  assumes "gemini_of_level f e l = (JArr rules, k)" and "r \<in> set rules"
  shows "\<exists>t d n. idx r ''toolName'' = JStr t \<and> idx r ''decision'' = JStr d \<and> (d = ''allow'' \<or> d = ''deny'') \<and>
    idx r ''priority'' = JInt (int n) \<and> n \<le> 999"
proof -
  from assms have "(\<exists>x \<in> set (pl_commands l). r \<in> set (gemini_command_rules f x)) \<or>
      (\<exists>x \<in> set (pl_paths l). r \<in> set (gemini_path_rules e x)) \<or> (\<exists>x \<in> set (pl_mcp l). r \<in> set (gemini_mcp_rules x))"
    by (auto simp: gemini_of_level_def)
  then obtain t what p where "r \<in> set (gemini_rule ((''toolName'', JStr t) # what) p)"
    "list_all (\<lambda>(k, v). k \<in> {''commandPrefix'', ''argsPattern''}) what"
    by (auto simp: gemini_command_rules_def gemini_path_rules_def gemini_mcp_rules_def)
  from gemini_rule_fields[OF this] show ?thesis by blast
qed

lemma veq_obj_field: "veq (VObj xs) w \<Longrightarrow> (k, v) \<in> set xs \<Longrightarrow> \<exists>ys u. w = VObj ys \<and> map_of ys k = Some u \<and> veq v u"
  by (cases w) (auto simp: list_all_iff split: option.splits)

lemma veq_leaf [simp]: "veq (VLeaf a) w \<longleftrightarrow> w = VLeaf a"
  by (cases w) auto

lemma veq_arr: "veq (VArr xs) w \<longleftrightarrow> (\<exists>ys. w = VArr ys \<and> list_all2 veq xs ys)"
  by (cases w) auto

lemma loadable_of_schema:
  assumes "idx r ''toolName'' = JStr t" "idx r ''decision'' = JStr d" "d = ''allow'' \<or> d = ''deny''"
    and "idx r ''priority'' = JInt (int n)" "n \<le> 999" and v: "veq (GeminiPolicyRule r) w"
  shows "rule_is_loadable w"
proof -
  have m: "(''toolName'', VLeaf (TStr t)) \<in> set fs" "(''decision'', VLeaf (TStr d)) \<in> set fs"
      "(''priority'', VLeaf (TInt (int n))) \<in> set fs" if "GeminiPolicyRule r = VObj fs" for fs
    using that assms(1-5) by (auto simp: GeminiPolicyRule_def toml_str_field_def toml_field_def opt_filter_def)
  obtain fs where fs: "GeminiPolicyRule r = VObj fs" by (simp add: GeminiPolicyRule_def)
  from veq_obj_field[OF v[unfolded fs] m(1)[OF fs]] obtain ys where w: "w = VObj ys" "map_of ys ''toolName'' = Some (VLeaf (TStr t))"
    by auto
  have "map_of ys ''decision'' = Some (VLeaf (TStr d))" "map_of ys ''priority'' = Some (VLeaf (TInt (int n)))"
    using veq_obj_field[OF v[unfolded fs] m(2)[OF fs]] veq_obj_field[OF v[unfolded fs] m(3)[OF fs]] w(1) by auto
  then show ?thesis using assms(3,5) w by (auto simp: rule_is_loadable_def)
qed

lemma gemini_rules_exist:
  assumes "gemini_of_level f e l = (JArr rules, k)"
  shows "rules \<noteq> [] \<longleftrightarrow> (\<exists>p \<in> snd ` set (pl_commands l) \<union> snd ` set (pl_paths l) \<union> snd ` set (pl_mcp l). p \<noteq> Ask)"
proof -
  have g: "gemini_rule w p = [] \<longleftrightarrow> p = Ask" for w p
    by (cases p) (simp_all add: gemini_rule_def)
  have rs: "rules = sort_stable gemini_le (concat (map (gemini_command_rules f) (pl_commands l)) @
      concat (map (gemini_path_rules e) (pl_paths l)) @ concat (map gemini_mcp_rules (pl_mcp l)))"
    using assms by (simp add: gemini_of_level_def)
  have "rules = [] \<longleftrightarrow> (\<forall>x \<in> set (pl_commands l). snd x = Ask) \<and> (\<forall>x \<in> set (pl_paths l). snd x = Ask) \<and> (\<forall>x \<in> set (pl_mcp l). snd x = Ask)"
    by (simp add: rs gemini_command_rules_def gemini_path_rules_def gemini_mcp_rules_def g)
  then show ?thesis by blast
qed

text \<open>
  C22. The file a policy compiles to for Gemini meets the loader's schema (every rule a table with a tool name, a known
  decision and a priority from 0 to 999) exactly when some command, path or MCP rule of the policy is not ask: the
  schema check never refuses a file with rules in it, and never accepts one without. URL rules are not compiled for
  Gemini and do not count (\<open>url_rules_give_unloadable_gemini_file\<close>). The laws of the TOML crate: what is printed is
  parsed to an equal value behind the header of comments, and the comments alone are an empty table.
\<close>
theorem gemini_file_is_loadable_iff:
  assumes law: "\<And>v t. print v = Inr t \<Longrightarrow> \<exists>w. parse (gemini_header @ t) = Inr w \<and> veq v w"
    and comment: "parse gemini_header = Inr (VObj [])"
    and compiled: "gemini_of_level id_to_shell regex_escape level = (JArr rules, gaps)"
    and prints: "print (GeminiPolicyFile rules) = Inr body"
  shows "gemini_policy_file_is_loadable parse (serialize_gemini_policy_toml print (JArr rules)) \<longleftrightarrow>
    (\<exists>p \<in> snd ` set (pl_commands level) \<union> snd ` set (pl_paths level) \<union> snd ` set (pl_mcp level). p \<noteq> Ask)"
proof (cases "rules = []")
  case True
  then show ?thesis
    unfolding gemini_rules_exist[OF compiled, symmetric]
    by (simp add: serialize_gemini_policy_toml_def gemini_policy_file_is_loadable_def comment)
next
  case False
  obtain w where w: "parse (gemini_header @ body) = Inr w" "veq (GeminiPolicyFile rules) w" using law[OF prints] by blast
  then obtain ys us where ys: "w = VObj ys" "map_of ys ''rule'' = Some (VArr us)" "list_all2 veq (map GeminiPolicyRule rules) us"
    using veq_obj_field[of "[(''rule'', VArr (map GeminiPolicyRule rules))]" w "''rule''"]
    by (auto simp: GeminiPolicyFile_def veq_arr)
  have "rule_is_loadable u" if u: "u \<in> set us" for u
  proof -
    obtain i where "i < length us" "u = us ! i" using u by (auto simp: in_set_conv_nth)
    then have "rules ! i \<in> set rules" "veq (GeminiPolicyRule (rules ! i)) u"
      using ys(3) by (simp_all add: list_all2_conv_all_nth)
    then show ?thesis using gemini_of_level_schema[OF compiled, of "rules ! i"] loadable_of_schema[of "rules ! i" _ _ _ u] by blast
  qed
  moreover have "us \<noteq> []" using ys(3) False by auto
  ultimately show ?thesis
    unfolding gemini_rules_exist[OF compiled, symmetric]
    using False w(1) ys(1,2)
    by (simp add: serialize_gemini_policy_toml_def gemini_policy_file_is_loadable_def prints list_all_iff)
qed

theorem gemini_file_is_loadable_iff_witness:
  "\<exists>rules. gemini_of_level (\<lambda>c. c) (\<lambda>s. s) (example_level [(''rm'', Deny)]) = (JArr rules, 0) \<and>
     gemini_policy_file_is_loadable
       (\<lambda>s. Inr (if s = gemini_header then VObj [] else GeminiPolicyFile rules))
       (serialize_gemini_policy_toml (\<lambda>v. if v = GeminiPolicyFile rules then Inr ''x'' else Inl []) (JArr rules))"
proof -
  obtain rules n where r: "gemini_of_level (\<lambda>c. c) (\<lambda>s. s) (example_level [(''rm'', Deny)]) = (JArr rules, n)"
    by (simp add: gemini_of_level_def)
  then have n: "n = 0" by (simp add: gemini_of_level_def example_level_def default_level_def)
  have rs: "rules = [JObj [(''toolName'', JStr ''run_shell_command''), (''commandPrefix'', JStr ''rm''), (''decision'', JStr ''deny''), (''priority'', JInt 900)]]"
    using r by (simp add: gemini_of_level_def example_level_def gemini_command_rules_def gemini_rule_def sort_stable_def default_level_def GEMINI_DENY_PRIORITY_def)
  have "veq (GeminiPolicyFile rules) (GeminiPolicyFile rules)"
    by (simp add: rs GeminiPolicyFile_def GeminiPolicyRule_def toml_str_field_def toml_field_def idx_def opt_filter_def)
  then have "gemini_policy_file_is_loadable
       (\<lambda>s. Inr (if s = gemini_header then VObj [] else GeminiPolicyFile rules))
       (serialize_gemini_policy_toml (\<lambda>v. if v = GeminiPolicyFile rules then Inr ''x'' else Inl []) (JArr rules))"
    by (subst gemini_file_is_loadable_iff[OF _ _ r]) (auto simp: example_level_def split: if_splits)
  then show ?thesis using r n by blast
qed

text \<open>A policy that only speaks of URLs compiles to no rule at all, whatever it denies, and the file is refused.\<close>

lemma url_rules_give_unloadable_gemini_file:
  assumes "parse gemini_header = Inr (VObj [])" and "pl_commands level = []" "pl_paths level = []" "pl_mcp level = []"
  shows "gemini_of_level id_to_shell regex_escape level = (JArr [], 0) \<and>
    \<not> gemini_policy_file_is_loadable parse (serialize_gemini_policy_toml print (JArr []))"
  using assms
  by (simp add: gemini_of_level_def sort_stable_def serialize_gemini_policy_toml_def gemini_policy_file_is_loadable_def)

section \<open>Denied tools\<close>

lemma add_denied_fold_keys: "distinct (map fst fs) \<Longrightarrow> distinct (map fst (fold add_denied rules fs))"
proof (induction rules arbitrary: fs)
  case (Cons r rules)
  have "distinct (map fst (add_denied r fs))" using Cons.prems by (auto simp: add_denied_def distinct_update split: prod.splits)
  then show ?case using Cons.IH by simp
qed simp

lemma add_denied_fold_tools:
  "t \<in> set (unwrap_or (map_of (fold add_denied rules fs) s) []) \<longleftrightarrow>
     t \<in> set (unwrap_or (map_of fs s) []) \<or> ((s, t), Deny) \<in> set rules"
proof (induction rules arbitrary: fs)
  case (Cons r rules)
  have "t \<in> set (unwrap_or (map_of (add_denied r fs) s) []) \<longleftrightarrow> t \<in> set (unwrap_or (map_of fs s) []) \<or> r = ((s, t), Deny)"
    by (auto simp: add_denied_def update_conv' split: prod.splits)
  then show ?case using Cons.IH[of "add_denied r fs"] by auto
qed simp

lemma filters_of_level_keys: "distinct (map fst (filters_of_level l))"
  using add_denied_fold_keys[of "[]" "pl_mcp l"] by (simp add: filters_of_level_def case_prod_unfold comp_def)

lemma filters_of_level_tools:
  "t \<in> set (unwrap_or (map_of (filters_of_level l) s) []) \<longleftrightarrow> ((s, t), Deny) \<in> set (pl_mcp l)"
proof -
  have "map_of (filters_of_level l) s = map_option (sort_stable str_le) (map_of (fold add_denied (pl_mcp l) []) s)"
    by (simp add: filters_of_level_def case_prod_unfold map_of_map[unfolded case_prod_unfold])
  then show ?thesis using add_denied_fold_tools[of t "pl_mcp l" "[]" s] by (cases "map_of (fold add_denied (pl_mcp l) []) s") auto
qed

text \<open>The tools a server's field lists, and that the fold over the filters puts a server's denylist there.\<close>

definition listed_tools :: "string \<Rightarrow> 's vtree \<Rightarrow> 's set" where
  "listed_tools field server =
     (case vget field server of Some (VArr vs) \<Rightarrow> {s. VLeaf s \<in> set vs} | _ \<Rightarrow> {})"

lemma set_filter_other: "s \<noteq> fst flt \<Longrightarrow> map_of (snd (set_filter field str flt st)) s = map_of (snd st) s"
  by (auto simp: set_filter_def update_conv' Let_def split: prod.splits option.splits vtree.splits)

lemma veq_leaf_right: "veq x (VLeaf a) \<longleftrightarrow> x = VLeaf a"
  by (cases x) auto

lemma veq_leaf_list: "list_all2 veq xs (map (\<lambda>t. VLeaf (f t)) ts) \<longleftrightarrow> xs = map (\<lambda>t. VLeaf (f t)) ts"
proof (induction ts arbitrary: xs)
  case (Cons t ts)
  then show ?case by (auto simp: list_all2_Cons2 veq_leaf_right)
qed simp

lemma veq_leaf_arr: "veq v (VArr (map (\<lambda>t. VLeaf (f t)) ts)) \<longleftrightarrow> v = VArr (map (\<lambda>t. VLeaf (f t)) ts)"
  by (cases v) (auto simp: veq_leaf_list)

lemma set_filter_same:
  "map_of (snd st) (fst flt) = Some (VObj server) \<Longrightarrow>
   \<exists>server'. map_of (snd (set_filter field str flt st)) (fst flt) = Some (VObj server') \<and>
     listed_tools field (VObj server') = str ` set (snd flt) \<and> (\<forall>k. k \<noteq> field \<longrightarrow> map_of server' k = map_of server k)"
proof -
  assume a: "map_of (snd st) (fst flt) = Some (VObj server)"
  let ?v = "VArr (map (\<lambda>t. VLeaf (str t)) (snd flt))"
  have l: "map_of fs field = Some ?v \<Longrightarrow> listed_tools field (VObj fs) = str ` set (snd flt)" for fs
    by (auto simp: listed_tools_def)
  show ?thesis
  proof (cases "map_of server field = Some ?v")
    case True
    then show ?thesis using a l[of server] by (simp add: set_filter_def case_prod_unfold veq_leaf_arr Let_def)
  next
    case False
    then have "snd (set_filter field str flt st) = AList.update (fst flt) (VObj (AList.update field ?v server)) (snd st)"
      using a by (simp add: set_filter_def case_prod_unfold veq_leaf_arr Let_def split: option.split)
    then show ?thesis using l[of "AList.update field ?v server"] by (simp add: update_conv')
  qed
qed

lemma set_filters_put:
  assumes "distinct (map fst filters)" and "map_of (snd st) s = Some (VObj server)" and "map_of filters s = Some tools"
  shows "\<exists>server'. map_of (snd (fold (set_filter field str) filters st)) s = Some (VObj server') \<and>
     listed_tools field (VObj server') = str ` set tools \<and> (\<forall>k. k \<noteq> field \<longrightarrow> map_of server' k = map_of server k)"
  using assms
proof (induction filters arbitrary: st)
  case (Cons flt filters)
  have other: "map_of (snd (fold (set_filter field str) fs st)) s = map_of (snd st) s" if "s \<notin> fst ` set fs" for fs st
    using that by (induction fs arbitrary: st) (auto simp: set_filter_other)
  show ?case
  proof (cases "fst flt = s")
    case True
    then have "s \<notin> fst ` set filters" "snd flt = tools" using Cons.prems by (auto simp: image_iff split: if_splits)
    then show ?thesis using set_filter_same[of st flt server field str] True Cons.prems(2) other by simp
  next
    case False
    then show ?thesis using Cons.IH[of "set_filter field str flt st"] Cons.prems by (cases flt) (auto simp: set_filter_other)
  qed
qed simp

fun vlookup :: "string list \<Rightarrow> 's vtree \<Rightarrow> 's vtree option" where
  "vlookup [] v = Some v"
| "vlookup (k # ks) v = Option.bind (vget k v) (vlookup ks)"

lemma edit_object_at_lookup:
  "vlookup path v = Some (VObj m) \<Longrightarrow> vlookup path (snd (edit_object_at path f v)) = Some (VObj (snd (f m)))"
proof (induction path arbitrary: v)
  case (Cons k path)
  then obtain m' child where "v = VObj m'" "map_of m' k = Some child" "vlookup path child = Some (VObj m)"
    by (cases v) (auto simp: bind_eq_Some_conv)
  then show ?case using Cons.IH[of child] by (auto simp: update_conv' split: prod.splits)
qed (auto split: prod.splits)

lemma vlookup_append: "vlookup (p @ [k]) v = Option.bind (vlookup p v) (vget k)"
  by (induction p arbitrary: v) (auto split: bind_splits)

lemma filters_at_path:
  assumes "((s, t), Deny) \<in> set (pl_mcp level)"
    and "vlookup path config = Some (VObj servers)" and "map_of servers s = Some (VObj server)"
  shows "\<exists>server'. vlookup (path @ [s])
      (snd (edit_object_at path (\<lambda>servers. fold (set_filter field str) (filters_of_level level) (False, servers)) config)) = Some (VObj server') \<and>
      listed_tools field (VObj server') = str ` {u. ((s, u), Deny) \<in> set (pl_mcp level)} \<and>
      (\<forall>k. k \<noteq> field \<longrightarrow> map_of server' k = map_of server k)"
proof -
  obtain tools where tools: "map_of (filters_of_level level) s = Some tools" "set tools = {u. ((s, u), Deny) \<in> set (pl_mcp level)}"
    using filters_of_level_tools[of _ level s] assms(1) by (cases "map_of (filters_of_level level) s") auto
  from set_filters_put[OF filters_of_level_keys[of level] _ this(1), of "(False, servers)" server field str]
  show ?thesis using assms(2,3) by (simp add: vlookup_append edit_object_at_lookup tools(2))
qed

text \<open>
  C17. A tool that the merged policy denies on a server is on that server's denylist after the filters are applied, where the
  server is configured as a table: in the JSON file under the agent's path to its servers, in the TOML file of Codex
  under \<^verbatim>\<open>mcp_servers\<close>. Nothing but the denied tools is on it, and the server's other settings stay as they were.
\<close>
theorem denied_tools_are_filtered:
  assumes "compile_mcp_tool_filters env policy_path = Inr filters"
    and "load_merged_policy env policy_path = Inr level" and "((s, t), Deny) \<in> set (pl_mcp level)"
    and "vlookup path config = Some (VObj servers)" "map_of servers s = Some (VObj server)"
    and "vlookup [''mcp_servers''] toml_config = Some (VObj tservers)" "map_of tservers s = Some (VObj tserver)"
  shows "(\<exists>server'. vlookup (path @ [s]) (snd (apply_json_tool_filters (Inr filters) config path)) = Some (VObj server') \<and>
      listed_tools ''excludeTools'' (VObj server') = SStr ` {u. ((s, u), Deny) \<in> set (pl_mcp level)} \<and>
      (\<forall>k. k \<noteq> ''excludeTools'' \<longrightarrow> map_of server' k = map_of server k)) \<and>
    (\<exists>server'. vlookup ([''mcp_servers''] @ [s]) (snd (apply_toml_tool_filters (Inr filters) toml_config)) = Some (VObj server') \<and>
      listed_tools ''disabled_tools'' (VObj server') = TStr ` {u. ((s, u), Deny) \<in> set (pl_mcp level)} \<and>
      (\<forall>k. k \<noteq> ''disabled_tools'' \<longrightarrow> map_of server' k = map_of tserver k))"
proof -
  have f: "filters = filters_of_level level" using assms(1,2) by (simp add: compile_mcp_tool_filters_def)
  moreover have "filters \<noteq> []" using filters_of_level_tools[of t level s] assms(3) by (auto simp: f)
  ultimately have "apply_json_tool_filters (Inr filters) config path =
      edit_object_at path (\<lambda>servers. fold (set_filter ''excludeTools'' SStr) (filters_of_level level) (False, servers)) config"
    "apply_toml_tool_filters (Inr filters) toml_config =
      edit_object_at [''mcp_servers''] (\<lambda>servers. fold (set_filter ''disabled_tools'' TStr) (filters_of_level level) (False, servers)) toml_config"
    by (simp_all only: apply_json_tool_filters_def apply_toml_tool_filters_def sum.case if_False)
  then show ?thesis
    by (simp only: filters_at_path[OF assms(3-5)] filters_at_path[OF assms(3,6,7)] simp_thms)
qed

definition example_env :: "PolicyLevel \<Rightarrow> unit policy_env" where
  "example_env l = \<lparr>pe_home = Some ''/h'', pe_cwd = Inr ''/h/w'', pe_load_policy_dir = (\<lambda>_. Inr [()]),
     pe_parse_policy_level = (\<lambda>_. Inr l), pe_user_policy_dir = (\<lambda>h. h), pe_resolve_walk_up = (\<lambda>_ _ _. Inr [l])\<rparr>"

theorem denied_tools_are_filtered_witness:
  "let l = default_level\<lparr>pl_mcp := [((''s'', ''t''), Deny)]\<rparr>;
       config = VObj [(''m'', VObj [(''s'', VObj [])])]
   in \<exists>server'. vlookup [''m'', ''s''] (snd (apply_json_tool_filters (compile_mcp_tool_filters (example_env l) (Some ''d'')) config [''m''])) =
      Some (VObj server') \<and> SStr ''t'' \<in> listed_tools ''excludeTools'' (VObj server')"
proof -
  define l where "l = default_level\<lparr>pl_mcp := [((''s'', ''t''), Deny)]\<rparr>"
  have "load_merged_policy (example_env l) (Some ''d'') = Inr l" by (simp add: load_merged_policy_def example_env_def dirs_home_def)
  then have "compile_mcp_tool_filters (example_env l) (Some ''d'') = Inr (filters_of_level l)" "load_merged_policy (example_env l) (Some ''d'') = Inr l"
    by (simp_all add: compile_mcp_tool_filters_def)
  from denied_tools_are_filtered[OF this, of "''s''" "''t''" "[''m'']" "VObj [(''m'', VObj [(''s'', VObj [])])]" "[(''s'', VObj [])]" "[]"
      "VObj [(''mcp_servers'', VObj [(''s'', VObj [])])]" "[(''s'', VObj [])]" "[]"] this(1)
  show ?thesis by (auto simp: Let_def l_def)
qed

lemma claude_denies_every_denied_tool:
  assumes "settings = VObj m" and "map_of m ''permissions'' = Some (VObj perms)" and "map_of perms ''deny'' = Some (VArr deny)"
    and "(s, tools) \<in> set filters" "t \<in> set tools" "s \<in> set present"
  shows "\<exists>m' perms' deny'. snd (add_mcp_tool_denies settings filters present) = VObj m' \<and> map_of m' ''permissions'' = Some (VObj perms') \<and>
    map_of perms' ''deny'' = Some (VArr deny') \<and> set deny \<subseteq> set deny' \<and> VLeaf (SStr (''mcp__'' @ s @ ''__'' @ t)) \<in> set deny'"
proof -
  let ?w = "concat (map (\<lambda>(server, tools). if server \<in> set present then map (\<lambda>tool. ''mcp__'' @ server @ ''__'' @ tool) tools else []) filters)"
  have w: "''mcp__'' @ s @ ''__'' @ t \<in> set ?w" using assms(4-6) by force
  then have "?w \<noteq> []" "filters \<noteq> []" using assms(4) by (metis empty_iff empty_set)+
  moreover have "x \<in> set (List.map_filter j_str deny) \<Longrightarrow> VLeaf (SStr x) \<in> set deny" for x
    by (auto simp: List.map_filter_def elim!: j_str.elims)
  ultimately show ?thesis using w assms(1-3) by (auto simp: add_mcp_tool_denies_def Let_def update_conv' simp del: set_concat)
qed

end
