(* ===== verification/Storage.thy ===== *)
theory Storage
  imports Gateway "HOL-Library.Multiset"
begin

text \<open>
  The record store, \<^verbatim>\<open>daemon/src/storage.rs\<close>: the tables of the database (their columns from
  \<^verbatim>\<open>types/src/record.rs\<close>), one definition per SQL statement of the source, and the task that batches the gateway's
  events into it. A statement is modelled by what its text says of the tables. What the engine adds is the
  environment \<open>db_env\<close>: the clock, an input or output failure of a statement, the order in which a table is scanned,
  the printed form of a timestamp. Timestamps are microseconds; \<open>INTEGER\<close> columns hold 32 bits and refuse more.
\<close>

section \<open>Tables\<close>

record gateway_row =
  row_id :: string
  row_trace_id :: string
  row_timestamp :: int
  row_provider :: string
  row_model :: string
  row_tokens_in :: "int option"
  row_tokens_out :: "int option"
  row_cache_create :: "int option"
  row_cache_read :: "int option"
  row_cost_usd :: "rat option"
  row_latency_ms :: int
  row_status :: string
  row_session_id :: "string option"
  row_synced :: bool
  row_mcp_server :: "string option"
  row_mcp_tool :: "string option"
  row_working_dir :: "string option"
  row_metering :: string
  row_plan_status :: string
  row_agent :: "string option"

record session_row =
  sr_total_tokens :: int
  sr_last_activity :: int

record db =
  db_gateway_records :: "gateway_row list"
  db_session_tokens :: "(string, session_row) hashmap"
  db_sync_cursor :: "(string \<times> int) option"
  db_sync_metadata :: "(string \<times> string) option"

record db_env =
  de_now :: int
  de_prepare_error :: "string option"
  de_insert_error :: "gateway_row \<Rightarrow> string option"
  de_write_error :: "string option"
  de_scan :: "gateway_row list \<Rightarrow> gateway_row list"
  de_strftime :: "int \<Rightarrow> string"
  de_rfc3339 :: "int \<Rightarrow> string"
  de_timestamp :: "string \<Rightarrow> int option"
  de_epoch_secs :: "int \<Rightarrow> int"
  de_plan_from_str :: "string \<Rightarrow> string"

definition wrap_i32 :: "int \<Rightarrow> int" where
  "wrap_i32 x = (x + 2 ^ 31) mod 2 ^ 32 - 2 ^ 31"

definition fits_i32 :: "int \<Rightarrow> bool" where
  "fits_i32 x \<longleftrightarrow> - (2 ^ 31) \<le> x \<and> x < 2 ^ 31"

definition opt_fits :: "int option \<Rightarrow> bool" where
  "opt_fits x = (case x of None \<Rightarrow> True | Some v \<Rightarrow> fits_i32 v)"

section \<open>Gateway records\<close>

fun plan_str :: "PlanStatus \<Rightarrow> string" where
  "plan_str Included = ''included''"
| "plan_str Overage = ''overage''"

definition unmetered :: "StatsEvent \<Rightarrow> bool" where
  "unmetered e = (se_metering e = Unavailable_metering)"

definition col_tokens_in :: "StatsEvent \<Rightarrow> int option" where
  "col_tokens_in e = (if unmetered e then None else Some (tk_input (se_tokens e)))"

definition col_tokens_out :: "StatsEvent \<Rightarrow> int option" where
  "col_tokens_out e = (if unmetered e then None else Some (tk_output (se_tokens e)))"

definition col_cache :: "StatsEvent \<Rightarrow> int \<Rightarrow> int option" where
  "col_cache e n = (if unmetered e \<or> n = 0 then None else Some n)"

definition event_row :: "db_env \<Rightarrow> string \<Rightarrow> StatsEvent \<Rightarrow> gateway_row" where
  "event_row env rid e =
     \<lparr>row_id = rid, row_trace_id = se_trace_id e, row_timestamp = de_now env, row_provider = se_provider e, row_model = se_model e,
      row_tokens_in = col_tokens_in e, row_tokens_out = col_tokens_out e, row_cache_create = col_cache e (se_cache_create e),
      row_cache_read = col_cache e (se_cache_read e), row_cost_usd = se_cost e, row_latency_ms = se_latency_ms e,
      row_status = se_status e, row_session_id = se_session_id e, row_synced = False, row_mcp_server = se_mcp_server e,
      row_mcp_tool = se_mcp_tool e, row_working_dir = se_working_dir e, row_metering = metering_str (se_metering e),
      row_plan_status = plan_str (se_plan_status e), row_agent = se_agent e\<rparr>"

definition live_record :: "db_env \<Rightarrow> string \<Rightarrow> StatsEvent \<Rightarrow> GatewayRecord" where
  "live_record env rid e =
     \<lparr>gr_id = rid, gr_trace_id = se_trace_id e, gr_timestamp = de_rfc3339 env (de_now env), gr_provider = se_provider e,
      gr_model = se_model e, gr_tokens_in = col_tokens_in e, gr_tokens_out = col_tokens_out e,
      gr_tokens_cache_create = col_cache e (se_cache_create e), gr_tokens_cache_read = col_cache e (se_cache_read e),
      gr_cost_usd = se_cost e, gr_latency_ms = se_latency_ms e, gr_status = status_from_str (se_status e),
      gr_session_id = se_session_id e, gr_synced = False, gr_mcp_server = se_mcp_server e, gr_mcp_tool = se_mcp_tool e,
      gr_metering = se_metering e, gr_plan_status = plan_str (se_plan_status e), gr_working_dir = se_working_dir e,
      gr_agent = se_agent e\<rparr>"

text \<open>One \<open>INSERT\<close>: the primary key and the \<open>INTEGER\<close> columns are checked.\<close>

definition insert_row :: "db_env \<Rightarrow> gateway_row \<Rightarrow> db \<Rightarrow> string + db" where
  "insert_row env r d =
     (case de_insert_error env r of
        Some e \<Rightarrow> Inl e
      | None \<Rightarrow>
          if \<not> (opt_fits (row_tokens_in r) \<and> opt_fits (row_tokens_out r) \<and> opt_fits (row_cache_create r) \<and>
                opt_fits (row_cache_read r) \<and> fits_i32 (row_latency_ms r)) then Inl ''Conversion Error''
          else if row_id r \<in> row_id ` set (db_gateway_records d) then Inl ''Constraint Error''
          else Inr (d\<lparr>db_gateway_records := db_gateway_records d @ [r]\<rparr>))"

text \<open>The loop of \<open>insert_batch\<close>: each event with its fresh id; the first failure ends it, the rows before it stay.\<close>

fun insert_rows :: "db_env \<Rightarrow> (string \<times> StatsEvent) list \<Rightarrow> db \<Rightarrow> string option \<times> db \<times> GatewayRecord list" where
  "insert_rows env [] d = (None, d, [])"
| "insert_rows env ((rid, e) # rest) d =
     (case insert_row env (event_row env rid e) d of
        Inl err \<Rightarrow> (Some err, d, [])
      | Inr d' \<Rightarrow> (let (res, d'', sent) = insert_rows env rest d' in (res, d'', live_record env rid e # sent)))"

definition insert_batch :: "db_env \<Rightarrow> (string \<times> StatsEvent) list \<Rightarrow> db \<Rightarrow> string option \<times> db \<times> GatewayRecord list" where
  "insert_batch env events d =
     (case de_prepare_error env of Some err \<Rightarrow> (Some err, d, []) | None \<Rightarrow> insert_rows env events d)"

definition gateway_row_to_record :: "db_env \<Rightarrow> gateway_row \<Rightarrow> GatewayRecord" where
  "gateway_row_to_record env r =
     \<lparr>gr_id = row_id r, gr_trace_id = row_trace_id r, gr_timestamp = de_strftime env (row_timestamp r),
      gr_provider = row_provider r, gr_model = row_model r, gr_tokens_in = row_tokens_in r, gr_tokens_out = row_tokens_out r,
      gr_tokens_cache_create = row_cache_create r, gr_tokens_cache_read = row_cache_read r, gr_cost_usd = row_cost_usd r,
      gr_latency_ms = row_latency_ms r, gr_status = status_from_str (row_status r), gr_session_id = row_session_id r,
      gr_synced = row_synced r, gr_mcp_server = row_mcp_server r, gr_mcp_tool = row_mcp_tool r,
      gr_metering = (if row_metering r = ''unavailable'' then Unavailable_metering else Available_metering),
      gr_plan_status = de_plan_from_str env (row_plan_status r), gr_working_dir = row_working_dir r, gr_agent = row_agent r\<rparr>"

definition micros_per_day :: int where "micros_per_day = 86400000000"

definition prune :: "db_env \<Rightarrow> nat \<Rightarrow> db \<Rightarrow> (string + nat) \<times> db" where
  "prune env retention_days d =
     (case de_write_error env of
        Some e \<Rightarrow> (Inl e, d)
      | None \<Rightarrow>
          let old = (\<lambda>r. row_timestamp r < de_now env - micros_per_day * wrap_i32 (int retention_days))
          in (Inr (length (filter old (db_gateway_records d))),
              d\<lparr>db_gateway_records := filter (\<lambda>r. \<not> old r) (db_gateway_records d)\<rparr>))"

definition mark_records_synced :: "db_env \<Rightarrow> string list \<Rightarrow> db \<Rightarrow> string option \<times> db" where
  "mark_records_synced env record_ids d =
     (if record_ids = [] then (None, d)
      else case opt_or (de_prepare_error env) (de_write_error env) of
             Some e \<Rightarrow> (Some e, d)
           | None \<Rightarrow>
               (None, fold (\<lambda>rid d. d\<lparr>db_gateway_records :=
                   map (\<lambda>r. if row_id r = rid then r\<lparr>row_synced := True\<rparr> else r) (db_gateway_records d)\<rparr>) record_ids d))"

text \<open>\<open>ORDER BY timestamp\<close>: rows of one timestamp come in the order of the scan.\<close>

fun insert_by :: "(gateway_row \<Rightarrow> gateway_row \<Rightarrow> bool) \<Rightarrow> gateway_row \<Rightarrow> gateway_row list \<Rightarrow> gateway_row list" where
  "insert_by le x [] = [x]"
| "insert_by le x (y # ys) = (if le x y then x # y # ys else y # insert_by le x ys)"

definition order_by :: "(gateway_row \<Rightarrow> gateway_row \<Rightarrow> bool) \<Rightarrow> gateway_row list \<Rightarrow> gateway_row list" where
  "order_by le xs = foldr (insert_by le) xs []"

definition query_unsynced_records :: "db_env \<Rightarrow> db \<Rightarrow> string + GatewayRecord list" where
  "query_unsynced_records env d =
     (case de_prepare_error env of
        Some e \<Rightarrow> Inl e
      | None \<Rightarrow>
          Inr (map (gateway_row_to_record env)
            (take 500 (order_by (\<lambda>a b. row_timestamp a \<le> row_timestamp b)
              (filter (\<lambda>r. \<not> row_synced r \<and> row_working_dir r \<noteq> None) (de_scan env (db_gateway_records d)))))))"

record GatewayRecordFilter =
  f_provider :: "string option"
  f_model :: "string option"
  f_status :: "string option"
  f_session_id :: "string option"
  f_trace_id :: "string option"
  f_mcp_server :: "string option"
  f_mcp_tool :: "string option"
  f_since :: "string option"
  f_limit :: "nat option"

text \<open>The \<open>WHERE\<close> clause built from the filters; a comparison with a null column is not true.\<close>

definition sql_eq :: "string option \<Rightarrow> string option \<Rightarrow> bool" where
  "sql_eq wanted column = (case wanted of None \<Rightarrow> True | Some v \<Rightarrow> column = Some v)"

definition filter_matches :: "GatewayRecordFilter \<Rightarrow> int option \<Rightarrow> gateway_row \<Rightarrow> bool" where
  "filter_matches f since r =
     (sql_eq (f_provider f) (Some (row_provider r)) \<and> sql_eq (f_model f) (Some (row_model r)) \<and>
      sql_eq (f_status f) (Some (row_status r)) \<and> sql_eq (f_session_id f) (row_session_id r) \<and>
      sql_eq (f_trace_id f) (Some (row_trace_id r)) \<and> sql_eq (f_mcp_server f) (row_mcp_server r) \<and>
      sql_eq (f_mcp_tool f) (row_mcp_tool r) \<and>
      (case since of None \<Rightarrow> True | Some t \<Rightarrow> row_timestamp r \<ge> t))"

definition query_rows :: "db_env \<Rightarrow> GatewayRecordFilter \<Rightarrow> int option \<Rightarrow> db \<Rightarrow> gateway_row list" where
  "query_rows env f since d =
     take (min (unwrap_or (f_limit f) 1000) 10000)
       (order_by (\<lambda>a b. row_timestamp a \<ge> row_timestamp b)
         (filter (filter_matches f since) (de_scan env (db_gateway_records d))))"

definition query_gateway_records :: "db_env \<Rightarrow> GatewayRecordFilter \<Rightarrow> db \<Rightarrow> string + GatewayRecord list" where
  "query_gateway_records env f d =
     (case de_prepare_error env of
        Some e \<Rightarrow> Inl e
      | None \<Rightarrow>
          (case f_since f of
             None \<Rightarrow> Inr (map (gateway_row_to_record env) (query_rows env f None d))
           | Some s \<Rightarrow>
               (case de_timestamp env s of
                  None \<Rightarrow> Inl ''Conversion Error''
                | Some t \<Rightarrow> Inr (map (gateway_row_to_record env) (query_rows env f (Some t) d)))))"

definition spend_row :: "db_env \<Rightarrow> int \<Rightarrow> gateway_row \<Rightarrow> bool" where
  "spend_row env hours r =
     (row_timestamp r \<ge> de_now env - 3600000000 * hours \<and> row_cost_usd r \<noteq> None \<and>
      row_status r \<notin> {''error'', ''circuit_breaker''})"

definition query_spend_usd :: "db_env \<Rightarrow> nat \<Rightarrow> db \<Rightarrow> rat option" where
  "query_spend_usd env window_hours d =
     (let hours = wrap_i64 (int window_hours) in
      if de_prepare_error env \<noteq> None \<or> \<not> fits_i32 hours then None
      else Some (sum_list (List.map_filter row_cost_usd (filter (spend_row env hours) (de_scan env (db_gateway_records d))))))"

section \<open>Sessions, cursor and metadata\<close>

definition upsert_session_tokens :: "db_env \<Rightarrow> string \<Rightarrow> int \<Rightarrow> db \<Rightarrow> string option \<times> db" where
  "upsert_session_tokens env session_id total_tokens d =
     (case de_write_error env of
        Some e \<Rightarrow> (Some e, d)
      | None \<Rightarrow> (None, d\<lparr>db_session_tokens :=
          AList.update session_id \<lparr>sr_total_tokens = total_tokens, sr_last_activity = de_now env\<rparr> (db_session_tokens d)\<rparr>))"

definition load_session_tokens :: "db_env \<Rightarrow> db \<Rightarrow> (string \<times> int \<times> nat) list" where
  "load_session_tokens env d =
     map (\<lambda>(sid, r). (sid, sr_total_tokens r, nat (max 0 (de_epoch_secs env (de_now env - sr_last_activity r))))) (db_session_tokens d)"

definition prune_session_tokens :: "db_env \<Rightarrow> nat \<Rightarrow> db \<Rightarrow> (string + nat) \<times> db" where
  "prune_session_tokens env idle_timeout_minutes d =
     (case de_write_error env of
        Some e \<Rightarrow> (Inl e, d)
      | None \<Rightarrow>
          let idle = (\<lambda>(sid, r). sr_last_activity r < de_now env - 60000000 * wrap_i32 (int idle_timeout_minutes))
          in (Inr (length (filter idle (db_session_tokens d))),
              d\<lparr>db_session_tokens := filter (\<lambda>x. \<not> idle x) (db_session_tokens d)\<rparr>))"

record SessionTokenRow =
  str_session_id :: string
  str_total_tokens :: int
  str_last_activity :: string

definition query_session_token :: "db_env \<Rightarrow> string \<Rightarrow> db \<Rightarrow> string + SessionTokenRow option" where
  "query_session_token env session_id d =
     (case de_prepare_error env of
        Some e \<Rightarrow> Inl e
      | None \<Rightarrow> Inr (map_option (\<lambda>r. \<lparr>str_session_id = session_id, str_total_tokens = sr_total_tokens r,
                                      str_last_activity = de_strftime env (sr_last_activity r)\<rparr>)
                       (map_of (db_session_tokens d) session_id)))"

definition save_sync_cursor :: "db_env \<Rightarrow> string \<Rightarrow> nat \<Rightarrow> db \<Rightarrow> string option \<times> db" where
  "save_sync_cursor env filename byte_offset d =
     (case de_write_error env of
        Some e \<Rightarrow> (Some e, d)
      | None \<Rightarrow> (None, d\<lparr>db_sync_cursor := Some (filename, wrap_i64 (int byte_offset))\<rparr>))"

definition load_sync_cursor :: "db_env \<Rightarrow> db \<Rightarrow> (string \<times> nat) option" where
  "load_sync_cursor env d =
     (if de_prepare_error env \<noteq> None then None
      else map_option (\<lambda>(filename, offset). (filename, nat (offset mod 2 ^ 64))) (db_sync_cursor d))"

definition save_sync_metadata :: "db_env \<Rightarrow> (string list \<Rightarrow> string option) \<Rightarrow> string list \<Rightarrow> string \<Rightarrow> db \<Rightarrow> string option \<times> db" where
  "save_sync_metadata env to_json scope synced_at d =
     (case de_write_error env of
        Some e \<Rightarrow> (Some e, d)
      | None \<Rightarrow> (None, d\<lparr>db_sync_metadata := Some (unwrap_or (to_json scope) ''[]'', synced_at)\<rparr>))"

section \<open>The stats writer\<close>

record SpendConfig =
  warn_thresholds_usd :: "rat list"
  window_hours :: nat

record writer_state =
  ws_batch :: "StatsEvent list"
  ws_db :: db
  ws_drop_count :: nat
  ws_notified :: "nat list"
  ws_toasts :: "(rat \<times> rat \<times> nat) list"
  ws_stream :: "GatewayRecord list"
  ws_breaker :: CircuitBreaker
  ws_done :: bool

record writer_env =
  we_db :: db_env
  we_ids :: "nat \<Rightarrow> string"
  we_fl :: "rat \<Rightarrow> rat"
  we_clock :: nat

record writer_config =
  wc_batch_size :: nat
  wc_retention_days :: nat
  wc_spend :: SpendConfig
  wc_session_idle_minutes :: nat

definition fetch_add :: "nat \<Rightarrow> nat \<Rightarrow> nat" where
  "fetch_add c n = (c + n) mod 2 ^ 64"

definition record_dropped :: "nat \<Rightarrow> nat \<Rightarrow> nat" where
  "record_dropped n c = fetch_add c n"

definition flush_batch :: "writer_env \<Rightarrow> writer_state \<Rightarrow> writer_state" where
  "flush_batch env s =
     (case insert_batch (we_db env) (zip (map (we_ids env) [0..<length (ws_batch s)]) (ws_batch s)) (ws_db s) of
        (res, d, sent) \<Rightarrow>
          s\<lparr>ws_db := d, ws_stream := ws_stream s @ sent,
            ws_drop_count := (case res of Some _ \<Rightarrow> fetch_add (ws_drop_count s) (length (ws_batch s)) | None \<Rightarrow> ws_drop_count s),
            ws_batch := []\<rparr>)"

definition persist_session_tokens :: "writer_env \<Rightarrow> writer_state \<Rightarrow> writer_state" where
  "persist_session_tokens env s =
     s\<lparr>ws_db := fold (\<lambda>(session_id, n) d. snd (upsert_session_tokens (we_db env) session_id n d))
                  (session_totals (ws_breaker s)) (ws_db s)\<rparr>"

text \<open>\<open>as u64\<close> of a positive float truncates and saturates.\<close>

definition threshold_key :: "(rat \<Rightarrow> rat) \<Rightarrow> rat \<Rightarrow> nat" where
  "threshold_key fl t = min (nat \<lfloor>fl (t * 1000000)\<rfloor>) (2 ^ 64 - 1)"

definition check_threshold ::
  "(rat \<Rightarrow> rat) \<Rightarrow> rat \<Rightarrow> nat \<Rightarrow> rat \<Rightarrow> nat list \<times> (rat \<times> rat \<times> nat) list \<Rightarrow> nat list \<times> (rat \<times> rat \<times> nat) list" where
  "check_threshold fl spent hours threshold st =
     (case st of (notified, toasts) \<Rightarrow>
        if threshold \<le> 0 then st
        else let key = threshold_key fl threshold in
          if spent \<ge> threshold
          then if key \<in> set notified then st else (key # notified, toasts @ [(spent, threshold, hours)])
          else (filter (\<lambda>k. k \<noteq> key) notified, toasts))"

definition check_spend_thresholds :: "writer_env \<Rightarrow> SpendConfig \<Rightarrow> writer_state \<Rightarrow> writer_state" where
  "check_spend_thresholds env config s =
     (if warn_thresholds_usd config = [] then s
      else case query_spend_usd (we_db env) (window_hours config) (ws_db s) of
             None \<Rightarrow> s
           | Some spent \<Rightarrow>
               let (notified, toasts) = fold (check_threshold (we_fl env) spent (window_hours config)) (warn_thresholds_usd config)
                                          (ws_notified s, ws_toasts s)
               in s\<lparr>ws_notified := notified, ws_toasts := toasts\<rparr>)"

datatype writer_event = Recv StatsEvent | Closed | FlushTick | PruneTick

definition flush_all :: "writer_config \<Rightarrow> writer_env \<Rightarrow> writer_state \<Rightarrow> writer_state" where
  "flush_all cfg env s = check_spend_thresholds env (wc_spend cfg) (persist_session_tokens env (flush_batch env s))"

definition writer_step :: "writer_config \<Rightarrow> writer_env \<times> writer_event \<Rightarrow> writer_state \<Rightarrow> writer_state" where
  "writer_step cfg ev s =
     (if ws_done s then s
      else case ev of (env, Recv e) \<Rightarrow>
             let s = s\<lparr>ws_batch := ws_batch s @ [e]\<rparr>
             in if length (ws_batch s) \<ge> wc_batch_size cfg then flush_all cfg env s else s
         | (env, Closed) \<Rightarrow>
             let s = (if ws_batch s \<noteq> [] then flush_batch env s else s)
             in (persist_session_tokens env s)\<lparr>ws_done := True\<rparr>
         | (env, FlushTick) \<Rightarrow> if ws_batch s \<noteq> [] then flush_all cfg env s else s
         | (env, PruneTick) \<Rightarrow>
             let d = snd (prune (we_db env) (wc_retention_days cfg) (ws_db s));
                 d = snd (prune_session_tokens (we_db env) (wc_session_idle_minutes cfg) d);
                 cb = prune_idle (we_clock env) (wc_session_idle_minutes cfg * 60 * 1000) (ws_breaker s)
             in check_spend_thresholds env (wc_spend cfg) (s\<lparr>ws_db := d, ws_breaker := cb\<rparr>))"

definition stats_writer :: "writer_config \<Rightarrow> (writer_env \<times> writer_event) list \<Rightarrow> writer_state \<Rightarrow> writer_state" where
  "stats_writer cfg evs s = fold (writer_step cfg) evs s"

section \<open>Batches\<close>

lemma insert_rows_result:
  assumes "insert_rows env evs d = (res, d', sent)"
  obtains k where "k \<le> length evs" "res = None \<longleftrightarrow> k = length evs"
    "sent = map (\<lambda>(rid, e). live_record env rid e) (take k evs)"
    "d' = d\<lparr>db_gateway_records := db_gateway_records d @ map (\<lambda>(rid, e). event_row env rid e) (take k evs)\<rparr>"
proof -
  have "\<exists>k \<le> length evs. (res = None \<longleftrightarrow> k = length evs) \<and>
      sent = map (\<lambda>(rid, e). live_record env rid e) (take k evs) \<and>
      d' = d\<lparr>db_gateway_records := db_gateway_records d @ map (\<lambda>(rid, e). event_row env rid e) (take k evs)\<rparr>"
    using assms
  proof (induction env evs d arbitrary: res d' sent rule: insert_rows.induct)
    case (2 env rid e rest d)
    show ?case
    proof (cases "insert_row env (event_row env rid e) d")
      case (Inl err)
      then show ?thesis using "2.prems" by (intro exI[of _ 0]) auto
    next
      case (Inr d1)
      obtain r1 d2 s1 where r: "insert_rows env rest d1 = (r1, d2, s1)" by (cases "insert_rows env rest d1")
      from "2.IH"[OF Inr r] obtain k where k: "k \<le> length rest" "r1 = None \<longleftrightarrow> k = length rest"
        "s1 = map (\<lambda>(rid, e). live_record env rid e) (take k rest)"
        "d2 = d1\<lparr>db_gateway_records := db_gateway_records d1 @ map (\<lambda>(rid, e). event_row env rid e) (take k rest)\<rparr>"
        by blast
      have "d1 = d\<lparr>db_gateway_records := db_gateway_records d @ [event_row env rid e]\<rparr>"
        using Inr by (auto simp: insert_row_def split: option.splits if_splits)
      then show ?thesis using "2.prems" Inr r k by (intro exI[of _ "Suc k"]) auto
    qed
  qed auto
  then show ?thesis using that by blast
qed

lemma insert_batch_result:
  assumes "insert_batch env evs d = (res, d', sent)"
  obtains k where "k \<le> length evs" "res = None \<Longrightarrow> k = length evs"
    "sent = map (\<lambda>(rid, e). live_record env rid e) (take k evs)"
    "d' = d\<lparr>db_gateway_records := db_gateway_records d @ map (\<lambda>(rid, e). event_row env rid e) (take k evs)\<rparr>"
proof (cases "de_prepare_error env")
  case None
  then have "insert_rows env evs d = (res, d', sent)" using assms by (simp add: insert_batch_def)
  then show thesis by (rule insert_rows_result) (use that in blast)
next
  case (Some e)
  then have "res = Some e" "d' = d" "sent = []" using assms by (auto simp: insert_batch_def)
  then show thesis using that[of 0] by simp
qed

lemma live_trace [simp]: "gr_trace_id (live_record env rid e) = se_trace_id e"
  by (simp add: live_record_def)

lemma row_trace [simp]: "row_trace_id (event_row env rid e) = se_trace_id e"
  by (simp add: event_row_def)

text \<open>The traces of the rows in the database.\<close>

definition row_traces :: "db \<Rightarrow> string list" where
  "row_traces d = map row_trace_id (db_gateway_records d)"

text \<open>What one flush does to the events: a prefix of the batch is stored and sent to the subscribers, and when that is
  not all of it, the counter grows by the size of the batch.\<close>

lemma flush_batch_result:
  obtains k where "k \<le> length (ws_batch s)" "ws_batch (flush_batch env s) = []"
    "map gr_trace_id (ws_stream (flush_batch env s)) = map gr_trace_id (ws_stream s) @ map se_trace_id (take k (ws_batch s))"
    "row_traces (ws_db (flush_batch env s)) = row_traces (ws_db s) @ map se_trace_id (take k (ws_batch s))"
    "ws_drop_count (flush_batch env s) = ws_drop_count s \<and> k = length (ws_batch s) \<or>
     ws_drop_count (flush_batch env s) = fetch_add (ws_drop_count s) (length (ws_batch s))"
proof -
  let ?evs = "zip (map (we_ids env) [0..<length (ws_batch s)]) (ws_batch s)"
  obtain res d sent where r: "insert_batch (we_db env) ?evs (ws_db s) = (res, d, sent)" by (rule prod_cases3)
  from insert_batch_result[OF r] obtain k where k: "k \<le> length ?evs" "res = None \<Longrightarrow> k = length ?evs"
    "sent = map (\<lambda>(rid, e). live_record (we_db env) rid e) (take k ?evs)"
    "d = (ws_db s)\<lparr>db_gateway_records := db_gateway_records (ws_db s)
           @ map (\<lambda>(rid, e). event_row (we_db env) rid e) (take k ?evs)\<rparr>" by metis
  have evs: "map snd (take k ?evs) = take k (ws_batch s)" by (simp flip: take_map)
  have "map row_trace_id (map (\<lambda>(rid, e). event_row (we_db env) rid e) (take k ?evs))
      = map se_trace_id (map snd (take k ?evs))" by (simp add: case_prod_unfold)
  then have "row_traces d = row_traces (ws_db s) @ map se_trace_id (take k (ws_batch s))"
    unfolding evs by (simp add: row_traces_def k(4))
  moreover have "map gr_trace_id sent = map se_trace_id (take k (ws_batch s))"
  proof -
    have "map gr_trace_id sent = map se_trace_id (map snd (take k ?evs))" by (simp add: k(3) case_prod_unfold)
    then show ?thesis unfolding evs .
  qed
  ultimately show thesis using that[of k] k(1,2) r by (cases res) (auto simp: flush_batch_def)
qed

lemma persist_other [simp]:
  "ws_batch (persist_session_tokens env s) = ws_batch s" "ws_stream (persist_session_tokens env s) = ws_stream s"
  "ws_drop_count (persist_session_tokens env s) = ws_drop_count s" "ws_done (persist_session_tokens env s) = ws_done s"
  "row_traces (ws_db (persist_session_tokens env s)) = row_traces (ws_db s)"
proof -
  have "db_gateway_records (fold (\<lambda>(sid, n) d. snd (upsert_session_tokens e sid n d)) xs d) = db_gateway_records d" for e xs d
    by (induction xs arbitrary: d) (auto simp: upsert_session_tokens_def split: option.split)
  then show "row_traces (ws_db (persist_session_tokens env s)) = row_traces (ws_db s)"
    by (simp add: persist_session_tokens_def row_traces_def)
qed (simp_all add: persist_session_tokens_def)

lemma check_spend_other [simp]:
  "ws_batch (check_spend_thresholds env c s) = ws_batch s" "ws_stream (check_spend_thresholds env c s) = ws_stream s"
  "ws_drop_count (check_spend_thresholds env c s) = ws_drop_count s" "ws_done (check_spend_thresholds env c s) = ws_done s"
  "ws_db (check_spend_thresholds env c s) = ws_db s"
  by (simp_all add: check_spend_thresholds_def split: option.split prod.split)

lemma flush_batch_done [simp]: "ws_done (flush_batch env s) = ws_done s"
  by (simp add: flush_batch_def split: prod.split)

fun received :: "(writer_env \<times> writer_event) list \<Rightarrow> StatsEvent list" where
  "received [] = []"
| "received ((_, Recv e) # evs) = e # received evs"
| "received ((_, Closed) # evs) = []"
| "received (_ # evs) = received evs"

text \<open>The rows that the retention ticks of a run delete: those older than the retention, unless the statement
  fails.\<close>

definition expired :: "db_env \<Rightarrow> nat \<Rightarrow> db \<Rightarrow> gateway_row list" where
  "expired env days d =
     (if de_write_error env \<noteq> None then []
      else filter (\<lambda>r. row_timestamp r < de_now env - micros_per_day * wrap_i32 (int days)) (db_gateway_records d))"

fun expired_rows :: "writer_config \<Rightarrow> (writer_env \<times> writer_event) list \<Rightarrow> writer_state \<Rightarrow> gateway_row list" where
  "expired_rows cfg [] s = []"
| "expired_rows cfg ((env, ev) # evs) s =
     (if ws_done s then []
      else (if ev = PruneTick then expired (we_db env) (wc_retention_days cfg) (ws_db s) else []) @
           expired_rows cfg evs (writer_step cfg (env, ev) s))"

lemma prune_traces:
  "mset (row_traces d) = mset (row_traces (snd (prune env days d))) + mset (map row_trace_id (expired env days d))"
proof -
  let ?old = "\<lambda>r. row_timestamp r < de_now env - micros_per_day * wrap_i32 (int days)"
  have "mset (map row_trace_id rs) =
      mset (map row_trace_id (filter (\<lambda>r. \<not> ?old r) rs)) + mset (map row_trace_id (filter ?old rs))" for rs
    by (induction rs) auto
  from this[of "db_gateway_records d"] show ?thesis
    by (cases "de_write_error env") (simp_all add: prune_def expired_def row_traces_def Let_def del: mset_map)
qed

lemma prune_session_traces [simp]: "row_traces (snd (prune_session_tokens env m d)) = row_traces d"
  by (simp add: prune_session_tokens_def row_traces_def Let_def split: option.split)

text \<open>Every event received so far went to the subscribers, waits in the batch, or is among at most as many as the
  counter says; and what went to the subscribers is what was added to the rows that were there at the start, of which
  those in \<open>gone\<close> have expired.\<close>

definition stats_accounted :: "db \<Rightarrow> gateway_row list \<Rightarrow> StatsEvent list \<Rightarrow> writer_state \<Rightarrow> bool" where
  "stats_accounted d gone es s \<longleftrightarrow> ws_drop_count s + length (ws_batch s) \<le> length es \<and>
     (\<exists>lost. mset (map se_trace_id es) = mset (map gr_trace_id (ws_stream s)) + mset (map se_trace_id (ws_batch s)) + lost \<and>
             size lost \<le> ws_drop_count s) \<and>
     mset (row_traces d) + mset (map gr_trace_id (ws_stream s)) = mset (row_traces (ws_db s)) + mset (map row_trace_id gone)"

lemma stats_accounted_other [simp]:
  "stats_accounted d gone es (persist_session_tokens env s) = stats_accounted d gone es s"
  "stats_accounted d gone es (check_spend_thresholds env c s) = stats_accounted d gone es s"
  "stats_accounted d gone es (s\<lparr>ws_done := b\<rparr>) = stats_accounted d gone es s"
  by (simp_all add: stats_accounted_def)

lemma stats_accounted_flush:
  assumes "stats_accounted d gone es s" and "length es < 2 ^ 64"
  shows "stats_accounted d gone es (flush_batch env s)"
proof -
  obtain lost where c: "ws_drop_count s + length (ws_batch s) \<le> length es" "size lost \<le> ws_drop_count s"
    and m: "mset (map se_trace_id es) = mset (map gr_trace_id (ws_stream s)) + mset (map se_trace_id (ws_batch s)) + lost"
    and rows: "mset (row_traces d) + mset (map gr_trace_id (ws_stream s)) = mset (row_traces (ws_db s)) + mset (map row_trace_id gone)"
    using assms(1) by (auto simp: stats_accounted_def)
  obtain k where k: "k \<le> length (ws_batch s)" "ws_batch (flush_batch env s) = []"
    "map gr_trace_id (ws_stream (flush_batch env s)) = map gr_trace_id (ws_stream s) @ map se_trace_id (take k (ws_batch s))"
    "row_traces (ws_db (flush_batch env s)) = row_traces (ws_db s) @ map se_trace_id (take k (ws_batch s))"
    "ws_drop_count (flush_batch env s) = ws_drop_count s \<and> k = length (ws_batch s) \<or>
     ws_drop_count (flush_batch env s) = fetch_add (ws_drop_count s) (length (ws_batch s))"
    by (rule flush_batch_result)
  have b: "mset (map se_trace_id (ws_batch s)) = mset (map se_trace_id (take k (ws_batch s))) + mset (map se_trace_id (drop k (ws_batch s)))"
    by (metis append_take_drop_id map_append mset_append)
  let ?lost = "lost + mset (map se_trace_id (drop k (ws_batch s)))"
  have "mset (map se_trace_id es) = mset (map gr_trace_id (ws_stream (flush_batch env s))) + ?lost"
    unfolding k(3) by (simp add: m b del: mset_map)
  moreover have "size ?lost \<le> ws_drop_count (flush_batch env s)" "ws_drop_count (flush_batch env s) \<le> length es"
    using k(5) c assms(2) by (auto simp: fetch_add_def)
  moreover have "mset (row_traces d) + mset (map gr_trace_id (ws_stream (flush_batch env s)))
      = mset (row_traces (ws_db (flush_batch env s))) + mset (map row_trace_id gone)"
    unfolding k(3,4) using rows by (simp del: mset_map add: union_assoc[symmetric])
  ultimately show ?thesis unfolding stats_accounted_def k(2) by auto
qed

lemma stats_accounted_flush_all:
  "stats_accounted d gone es s \<Longrightarrow> length es < 2 ^ 64 \<Longrightarrow> stats_accounted d gone es (flush_all cfg env s)"
  using stats_accounted_flush[of d gone es s env] by (simp add: flush_all_def)

lemma stats_accounted_recv:
  "stats_accounted d gone es s \<Longrightarrow> stats_accounted d gone (es @ [e]) (s\<lparr>ws_batch := ws_batch s @ [e]\<rparr>)"
  by (auto simp: stats_accounted_def)

lemma stats_accounted_prune:
  assumes "stats_accounted d gone es s"
  shows "stats_accounted d (gone @ expired env days (ws_db s)) es
    (s\<lparr>ws_db := snd (prune_session_tokens env m (snd (prune env days (ws_db s)))), ws_breaker := cb\<rparr>)"
  using assms prune_traces[of "ws_db s" env days] by (simp add: stats_accounted_def union_ac)

lemma stats_accounted_step:
  assumes "stats_accounted d gone es s" and "length (es @ received [(env, ev)]) < 2 ^ 64" and "\<not> ws_done s"
  shows "stats_accounted d (gone @ expired_rows cfg [(env, ev)] s) (es @ received [(env, ev)]) (writer_step cfg (env, ev) s)"
proof (cases ev)
  case (Recv e)
  then show ?thesis using assms stats_accounted_recv[OF assms(1), of e] stats_accounted_flush_all[OF stats_accounted_recv[OF assms(1), of e]]
    by (simp add: writer_step_def Let_def)
next
  case Closed
  then show ?thesis using assms stats_accounted_flush[of d gone es s env] by (simp add: writer_step_def Let_def)
next
  case FlushTick
  then show ?thesis using assms stats_accounted_flush_all by (simp add: writer_step_def)
next
  case PruneTick
  then show ?thesis using assms stats_accounted_prune[OF assms(1)] by (simp add: writer_step_def Let_def)
qed

lemma writer_done: "ws_done s \<Longrightarrow> stats_writer cfg evs s = s"
  by (induction evs arbitrary: s) (auto simp: stats_writer_def writer_step_def)

lemma stats_accounted_run:
  assumes "stats_accounted d gone es s" and "length (es @ received evs) < 2 ^ 64" and "\<not> ws_done s"
  shows "stats_accounted d (gone @ expired_rows cfg evs s) (es @ received evs) (stats_writer cfg evs s)"
  using assms
proof (induction evs arbitrary: es s gone)
  case (Cons x evs)
  obtain env ev where x: "x = (env, ev)" by (cases x)
  have l: "length (es @ received [x]) < 2 ^ 64" using Cons.prems(2) by (cases ev) (simp_all add: x)
  let ?s = "writer_step cfg x s"
  have a: "stats_accounted d (gone @ expired_rows cfg [x] s) (es @ received [x]) ?s"
    using stats_accounted_step[OF Cons.prems(1) _ Cons.prems(3), of env ev cfg] l by (simp add: x)
  have r: "stats_writer cfg (x # evs) s = stats_writer cfg evs ?s" by (simp add: stats_writer_def)
  show ?case
  proof (cases "ev = Closed")
    case True
    then have d: "ws_done ?s" using Cons.prems(3) by (simp add: x writer_step_def Let_def)
    then have "expired_rows cfg evs ?s = []" by (cases evs) auto
    then show ?thesis using a True d Cons.prems(3) unfolding r by (simp add: writer_done x)
  next
    case False
    then have "received (x # evs) = received [x] @ received evs" by (cases ev) (simp_all add: x)
    moreover have "\<not> ws_done ?s" using False Cons.prems(3)
      by (cases ev) (simp_all add: x writer_step_def Let_def flush_all_def)
    moreover have "expired_rows cfg (x # evs) s = expired_rows cfg [x] s @ expired_rows cfg evs ?s"
      using Cons.prems(3) by (simp add: x)
    ultimately show ?thesis using Cons.IH[OF a] Cons.prems(2) by (simp add: r del: expired_rows.simps)
  qed
qed (simp add: stats_writer_def)

definition writer_start :: "db \<Rightarrow> CircuitBreaker \<Rightarrow> writer_state" where
  "writer_start d cb = \<lparr>ws_batch = [], ws_db = d, ws_drop_count = 0, ws_notified = [], ws_toasts = [], ws_stream = [], ws_breaker = cb, ws_done = False\<rparr>"

lemma stats_accounted_start:
  assumes "length (received evs) < 2 ^ 64"
  shows "stats_accounted d (expired_rows cfg evs (writer_start d cb)) (received evs) (stats_writer cfg evs (writer_start d cb))"
proof -
  have "stats_accounted d [] [] (writer_start d cb)" "\<not> ws_done (writer_start d cb)"
    by (simp_all add: stats_accounted_def writer_start_def)
  from stats_accounted_run[OF this(1) _ this(2), of evs cfg] assms show ?thesis by simp
qed

lemma batch_below_size:
  assumes "0 < wc_batch_size cfg" and "length (ws_batch s) < wc_batch_size cfg"
  shows "length (ws_batch (stats_writer cfg evs s)) < wc_batch_size cfg"
  using assms(2)
proof (induction evs arbitrary: s)
  case (Cons x evs)
  have f: "ws_batch (flush_batch env s) = []" for env s by (rule flush_batch_result[of s env])
  have "length (ws_batch (writer_step cfg x s)) < wc_batch_size cfg"
    using Cons.prems assms(1)
    by (auto simp: writer_step_def flush_all_def f Let_def split: prod.split writer_event.split)
  then show ?case using Cons.IH by (simp add: stats_writer_def)
qed (simp add: stats_writer_def)

lemma closed_flushes:
  assumes "\<not> ws_done s" shows "ws_batch (writer_step cfg (env, Closed) s) = []"
proof -
  have "ws_batch (flush_batch env s) = []" by (rule flush_batch_result[of s env])
  then show ?thesis using assms by (simp add: writer_step_def Let_def)
qed

text \<open>
  C21. The stats writer loses no event silently. Whatever the database does, at every moment (1) the events received are
  those sent to the subscribers, those waiting in the batch, and at most as many others as the drop counter shows, and
  (2) what was sent to the subscribers is exactly what was stored: the rows of the database, with those that the
  retention ticks deleted as too old, are the rows at the start and one row for each record sent. So with the counter
  at 0 every event is in the database, has expired or waits in the batch. The batch never reaches its size, and
  nothing waits in it once the channel is closed. Events and rows are compared by their trace ids; there are fewer than
  \<open>2 ^ 64\<close> events (the counter wraps) and the batch size is positive.
\<close>
theorem no_event_lost_silently:
  assumes "length (received evs) < 2 ^ 64" and "0 < wc_batch_size cfg"
  shows "let s = stats_writer cfg evs (writer_start d cb) in
    (\<exists>lost. mset (map se_trace_id (received evs)) =
        mset (map gr_trace_id (ws_stream s)) + mset (map se_trace_id (ws_batch s)) + lost \<and> size lost \<le> ws_drop_count s) \<and>
    mset (map row_trace_id (db_gateway_records d)) + mset (map gr_trace_id (ws_stream s)) =
      mset (map row_trace_id (db_gateway_records (ws_db s))) + mset (map row_trace_id (expired_rows cfg evs (writer_start d cb))) \<and>
    length (ws_batch s) < wc_batch_size cfg \<and>
    ws_batch (writer_step cfg (env, Closed) (s\<lparr>ws_done := False\<rparr>)) = []"
proof -
  let ?s = "stats_writer cfg evs (writer_start d cb)"
  have "stats_accounted d (expired_rows cfg evs (writer_start d cb)) (received evs) ?s"
    using assms(1) by (rule stats_accounted_start)
  moreover have "length (ws_batch ?s) < wc_batch_size cfg"
    using batch_below_size[OF assms(2), of "writer_start d cb" evs] assms(2) by (simp add: writer_start_def)
  moreover have "ws_batch (writer_step cfg (env, Closed) (?s\<lparr>ws_done := False\<rparr>)) = []"
    by (rule closed_flushes) simp
  ultimately show ?thesis unfolding Let_def stats_accounted_def row_traces_def by blast
qed

definition sample_db :: db where
  "sample_db = \<lparr>db_gateway_records = [], db_session_tokens = [], db_sync_cursor = None, db_sync_metadata = None\<rparr>"

definition sample_db_env :: db_env where
  "sample_db_env = \<lparr>de_now = 0, de_prepare_error = None, de_insert_error = (\<lambda>_. None), de_write_error = None, de_scan = (\<lambda>rs. rs),
     de_strftime = (\<lambda>_. ''1970-01-01T00:00:00Z''), de_rfc3339 = (\<lambda>_. ''1970-01-01T00:00:00+00:00''), de_timestamp = (\<lambda>_. Some 0),
     de_epoch_secs = (\<lambda>t. t div 1000000), de_plan_from_str = (\<lambda>s. s)\<rparr>"

definition sample_writer_env :: "db_env \<Rightarrow> writer_env" where
  "sample_writer_env e = \<lparr>we_db = e, we_ids = (\<lambda>i. display_nat i), we_fl = (\<lambda>x. x), we_clock = 0\<rparr>"

definition sample_event :: "string \<Rightarrow> int \<Rightarrow> StatsEvent" where
  "sample_event t n = \<lparr>se_trace_id = t, se_provider = ''p'', se_model = ''m'', se_tokens = \<lparr>tk_input = 1, tk_output = n\<rparr>, se_cache_create = 0,
     se_cache_read = 0, se_cost = Some 1, se_latency_ms = 5, se_status = ''success'', se_session_id = None, se_mcp_server = None,
     se_mcp_tool = None, se_metering = Available_metering, se_plan_status = Included, se_working_dir = None, se_agent = None\<rparr>"

definition sample_config :: "nat \<Rightarrow> writer_config" where
  "sample_config n = \<lparr>wc_batch_size = n, wc_retention_days = 7, wc_spend = \<lparr>warn_thresholds_usd = [], window_hours = 24\<rparr>, wc_session_idle_minutes = 30\<rparr>"

theorem no_event_lost_silently_witness:
  "let evs = [(sample_writer_env sample_db_env, Recv (sample_event ''a'' 3)), (sample_writer_env sample_db_env, Closed)];
       s = stats_writer (sample_config 2) evs (writer_start sample_db [])
   in mset (map gr_trace_id (ws_stream s)) = mset (map row_trace_id (db_gateway_records (ws_db s))) \<and>
      (\<exists>lost. mset (map se_trace_id (received evs)) =
        mset (map gr_trace_id (ws_stream s)) + mset (map se_trace_id (ws_batch s)) + lost \<and> size lost \<le> ws_drop_count s)"
proof -
  let ?evs = "[(sample_writer_env sample_db_env, Recv (sample_event ''a'' 3)), (sample_writer_env sample_db_env, Closed)]"
  have none: "expired_rows (sample_config 2) ?evs (writer_start sample_db []) = []" and "db_gateway_records sample_db = []"
    and "0 < wc_batch_size (sample_config 2)" and "length (received ?evs) < 2 ^ 64"
    by (simp_all add: sample_db_def sample_config_def)
  from no_event_lost_silently[OF this(4,3), of sample_db "[]" "sample_writer_env sample_db_env", unfolded none this(2) Let_def]
  show ?thesis unfolding Let_def by (elim conjE, intro conjI) (simp_all only: list.map mset.simps add_0 add_0_right)
qed

text \<open>The counter can say more than was lost: the rows before the one that fails stay, and the whole batch is counted.
  One event whose token count does not fit the column is enough.\<close>

lemma failed_row_drops_the_rest:
  "let s = flush_batch (sample_writer_env sample_db_env)
             ((writer_start sample_db [])\<lparr>ws_batch := [sample_event ''a'' 1, sample_event ''b'' (2 ^ 31), sample_event ''c'' 1]\<rparr>)
   in ws_drop_count s = 3 \<and> map row_trace_id (db_gateway_records (ws_db s)) = [''a'']"
  by (simp add: flush_batch_def writer_start_def insert_batch_def insert_row_def event_row_def sample_event_def sample_db_env_def
      sample_writer_env_def sample_db_def fits_i32_def opt_fits_def col_tokens_in_def col_tokens_out_def col_cache_def unmetered_def
      fetch_add_def upt_rec)

text \<open>The days of retention are cut to 32 bits: a retention of \<open>2 ^ 31\<close> days deletes what was just written.\<close>

lemma long_retention_deletes_new_records:
  "prune sample_db_env (2 ^ 31) (sample_db\<lparr>db_gateway_records := [event_row sample_db_env ''i'' (sample_event ''a'' 1)]\<rparr>) =
     (Inr 1, sample_db)"
  by (simp add: prune_def sample_db_env_def event_row_def wrap_i32_def micros_per_day_def sample_db_def)

lemma prune_keeps_recent:
  assumes "int days < 2 ^ 31" and "snd (prune env days d) = d'" and "r \<in> set (db_gateway_records d)"
    and "row_timestamp r \<ge> de_now env - micros_per_day * int days"
  shows "r \<in> set (db_gateway_records d')"
  using assms by (auto simp: prune_def wrap_i32_def Let_def split: option.splits)

section \<open>Queries\<close>

lemma mset_insert_by [simp]: "mset (insert_by le x xs) = add_mset x (mset xs)"
  by (induction xs) auto

lemma mset_order_by [simp]: "mset (order_by le xs) = mset xs"
  unfolding order_by_def by (induction xs) auto

lemma set_order_by [simp]: "set (order_by le xs) = set xs"
  by (metis mset_order_by set_mset_mset)

lemma length_order_by [simp]: "length (order_by le xs) = length xs"
  by (metis mset_order_by size_mset)

lemma sorted_insert_by:
  assumes "\<And>a b. le a b \<or> le b a" "\<And>a b c. le a b \<Longrightarrow> le b c \<Longrightarrow> le a c"
  shows "sorted_wrt le xs \<Longrightarrow> sorted_wrt le (insert_by le x xs)"
proof (induction xs)
  case (Cons y ys)
  have "set (insert_by le x ys) = insert x (set ys)" by (metis mset_insert_by set_mset_add_mset_insert set_mset_mset)
  then show ?case using Cons assms by auto
qed simp

lemma sorted_order_by:
  assumes "\<And>a b. le a b \<or> le b a" "\<And>a b c. le a b \<Longrightarrow> le b c \<Longrightarrow> le a c"
  shows "sorted_wrt le (order_by le xs)"
proof (induction xs)
  case (Cons x xs)
  then show ?case using sorted_insert_by[of le, OF assms] by (simp add: order_by_def)
qed (simp add: order_by_def)

lemma take_sorted_newest:
  assumes "sorted_wrt le xs" and "x \<in> set xs" "x \<notin> set (take n xs)" and "y \<in> set (take n xs)"
  shows "le y x"
proof -
  have "sorted_wrt le (take n xs @ drop n xs)" "x \<in> set (drop n xs)"
    using assms(1-3) by (metis append_take_drop_id) (metis Un_iff append_take_drop_id assms(2,3) set_append)
  then show ?thesis using assms(4) unfolding sorted_wrt_append by blast
qed

text \<open>
  The records query returns only rows that meet every filter (the lower bound included), newest first, at most the
  limit (1000 unless given, never over 10000); when fewer come back, none is missing, and a matching row that was cut
  off is no newer than any that came back.
\<close>

theorem query_is_exact:
  assumes "\<And>rs. mset (de_scan env rs) = mset rs"
    and rows: "rows = query_rows env f since d" and cap: "cap = min (unwrap_or (f_limit f) 1000) 10000"
  shows "set rows \<subseteq> {r \<in> set (db_gateway_records d). filter_matches f since r} \<and>
    sorted_wrt (\<lambda>a b. row_timestamp a \<ge> row_timestamp b) rows \<and> length rows \<le> cap \<and>
    (length rows < cap \<longrightarrow> mset rows = mset (filter (filter_matches f since) (db_gateway_records d))) \<and>
    (\<forall>r \<in> set (db_gateway_records d). \<forall>q \<in> set rows.
       filter_matches f since r \<and> r \<notin> set rows \<longrightarrow> row_timestamp q \<ge> row_timestamp r)"
proof -
  let ?le = "\<lambda>a b. row_timestamp a \<ge> row_timestamp b"
  define sorted_rows where "sorted_rows = order_by ?le (filter (filter_matches f since) (de_scan env (db_gateway_records d)))"
  have r: "rows = take cap sorted_rows" by (simp add: rows query_rows_def cap sorted_rows_def)
  have m: "mset sorted_rows = mset (filter (filter_matches f since) (db_gateway_records d))"
    by (simp add: sorted_rows_def assms(1) mset_filter)
  then have st: "set sorted_rows = {r \<in> set (db_gateway_records d). filter_matches f since r}"
    by (metis set_filter set_mset_mset)
  have s: "sorted_wrt ?le sorted_rows" unfolding sorted_rows_def by (rule sorted_order_by) auto
  have "length rows < cap \<Longrightarrow> rows = sorted_rows" by (simp add: r)
  moreover have "set rows \<subseteq> set sorted_rows" by (simp add: r set_take_subset)
  moreover have "sorted_wrt ?le rows" unfolding r by (rule sorted_wrt_take[OF s])
  ultimately show ?thesis using take_sorted_newest[OF s] m st by (auto simp: r)
qed

theorem query_is_exact_witness:
  "let f = \<lparr>f_provider = None, f_model = None, f_status = None, f_session_id = None, f_trace_id = Some ''a'', f_mcp_server = None,
       f_mcp_tool = None, f_since = None, f_limit = None\<rparr>;
       d = sample_db\<lparr>db_gateway_records := [event_row sample_db_env ''i'' (sample_event ''a'' 1)]\<rparr>
   in length (query_rows sample_db_env f None d) \<le> 1000"
  using query_is_exact[OF _ refl refl, of sample_db_env "\<lparr>f_provider = None, f_model = None, f_status = None, f_session_id = None, f_trace_id = Some ''a'',
      f_mcp_server = None, f_mcp_tool = None, f_since = None, f_limit = None\<rparr>" None
      "sample_db\<lparr>db_gateway_records := [event_row sample_db_env ''i'' (sample_event ''a'' 1)]\<rparr>"]
  by (simp add: sample_db_env_def)

text \<open>The bound of a query includes records of that very moment.\<close>

lemma since_is_inclusive:
  "filter_matches \<lparr>f_provider = None, f_model = None, f_status = None, f_session_id = None, f_trace_id = None, f_mcp_server = None,
     f_mcp_tool = None, f_since = s, f_limit = None\<rparr> (Some (row_timestamp r)) r"
  by (simp add: filter_matches_def sql_eq_def)

text \<open>
  What is stored is what is read back: after a batch went in, asking for an event's trace returns the record that the
  subscribers were sent, field for field but for the printed form of the time, as long as the trace has at most 1000
  records.
\<close>

theorem stored_event_reads_back:
  assumes "insert_batch env events d = (None, d', sent)" and "(rid, e) \<in> set events"
    and scan: "\<And>rs. mset (de_scan env' rs) = mset rs"
    and "de_prepare_error env' = None" and "\<And>p. de_plan_from_str env' (plan_str p) = plan_str p"
    and "length (filter (\<lambda>r. row_trace_id r = se_trace_id e) (db_gateway_records d')) \<le> 1000"
  shows "\<exists>records. query_gateway_records env' \<lparr>f_provider = None, f_model = None, f_status = None, f_session_id = None,
        f_trace_id = Some (se_trace_id e), f_mcp_server = None, f_mcp_tool = None, f_since = None, f_limit = None\<rparr> d' = Inr records \<and>
      live_record env rid e \<in> set sent \<and>
      (live_record env rid e)\<lparr>gr_timestamp := de_strftime env' (de_now env)\<rparr> \<in> set records"
proof -
  let ?f = "\<lparr>f_provider = None, f_model = None, f_status = None, f_session_id = None,
        f_trace_id = Some (se_trace_id e), f_mcp_server = None, f_mcp_tool = None, f_since = None, f_limit = None\<rparr>"
  obtain k where k: "k = length events" "sent = map (\<lambda>(rid, e). live_record env rid e) (take k events)"
    "d' = d\<lparr>db_gateway_records := db_gateway_records d @ map (\<lambda>(rid, e). event_row env rid e) (take k events)\<rparr>"
    using insert_batch_result[OF assms(1)] by metis
  have scan_set: "set (de_scan env' rs) = set rs" for rs by (metis scan set_mset_mset)
  have scan_length: "length (filter P (de_scan env' rs)) = length (filter P rs)" for P rs by (metis mset_filter scan size_mset)
  have "filter_matches ?f None = (\<lambda>r. row_trace_id r = se_trace_id e)" by (auto simp: filter_matches_def sql_eq_def fun_eq_iff)
  then have q: "set (query_rows env' ?f None d') = {r \<in> set (db_gateway_records d'). row_trace_id r = se_trace_id e}"
    using assms(6) scan_set scan_length by (simp add: query_rows_def)
  have "event_row env rid e \<in> set (query_rows env' ?f None d')"
    unfolding q using assms(2) by (force simp: k event_row_def)
  moreover have "gateway_row_to_record env' (event_row env rid e) = (live_record env rid e)\<lparr>gr_timestamp := de_strftime env' (de_now env)\<rparr>"
    by (cases "se_metering e") (simp_all add: gateway_row_to_record_def event_row_def live_record_def assms(5))
  moreover have "live_record env rid e \<in> set sent" using assms(2) by (force simp: k)
  ultimately show ?thesis using assms(4) by (force simp: query_gateway_records_def)
qed

theorem stored_event_reads_back_witness:
  "\<exists>records. query_gateway_records sample_db_env \<lparr>f_provider = None, f_model = None, f_status = None, f_session_id = None,
        f_trace_id = Some ''a'', f_mcp_server = None, f_mcp_tool = None, f_since = None, f_limit = None\<rparr>
      (fst (snd (insert_batch sample_db_env [(''i'', sample_event ''a'' 1)] sample_db))) = Inr records \<and>
    (live_record sample_db_env ''i'' (sample_event ''a'' 1))\<lparr>gr_timestamp := ''1970-01-01T00:00:00Z''\<rparr> \<in> set records"
proof -
  let ?r = "event_row sample_db_env ''i'' (sample_event ''a'' 1)"
  have i: "insert_batch sample_db_env [(''i'', sample_event ''a'' 1)] sample_db =
      (None, sample_db\<lparr>db_gateway_records := [?r]\<rparr>, [live_record sample_db_env ''i'' (sample_event ''a'' 1)])"
    by (simp add: insert_batch_def insert_row_def event_row_def sample_event_def sample_db_env_def sample_db_def fits_i32_def
        opt_fits_def col_tokens_in_def col_tokens_out_def col_cache_def unmetered_def)
  have "se_trace_id (sample_event ''a'' 1) = ''a''" by (simp add: sample_event_def)
  with stored_event_reads_back[OF i, of "''i''" "sample_event ''a'' 1" sample_db_env] show ?thesis
    unfolding i by (simp add: sample_db_env_def)
qed

section \<open>Spend warnings\<close>

text \<open>The reference: a warning for each time the spend goes from below the threshold (or from the start) to it or above.\<close>

fun upward_crossings :: "rat \<Rightarrow> bool \<Rightarrow> rat list \<Rightarrow> rat list" where
  "upward_crossings t up [] = []"
| "upward_crossings t up (x # xs) = (if x \<ge> t \<and> \<not> up then [x] else []) @ upward_crossings t (x \<ge> t) xs"

definition spend_checks :: "(rat \<Rightarrow> rat) \<Rightarrow> nat \<Rightarrow> rat list \<Rightarrow> rat list \<Rightarrow> nat list \<times> (rat \<times> rat \<times> nat) list \<Rightarrow> nat list \<times> (rat \<times> rat \<times> nat) list" where
  "spend_checks fl hours thresholds totals st = fold (\<lambda>x. fold (check_threshold fl x hours) thresholds) totals st"

definition toasts_of :: "rat \<Rightarrow> (rat \<times> rat \<times> nat) list \<Rightarrow> rat list" where
  "toasts_of t toasts = map fst (filter (\<lambda>(_, th, _). th = t) toasts)"

lemma toasts_of_append [simp]: "toasts_of t (xs @ ys) = toasts_of t xs @ toasts_of t ys"
  by (simp add: toasts_of_def)

lemma check_threshold_other:
  assumes "threshold_key fl u \<noteq> threshold_key fl t" and "u \<noteq> t"
  shows "threshold_key fl t \<in> set (fst (check_threshold fl x hours u st)) \<longleftrightarrow> threshold_key fl t \<in> set (fst st)"
    "toasts_of t (snd (check_threshold fl x hours u st)) = toasts_of t (snd st)"
  using assms by (auto simp: check_threshold_def Let_def toasts_of_def split: prod.split)

lemma check_threshold_same:
  assumes "0 < t"
  shows "threshold_key fl t \<in> set (fst (check_threshold fl x hours t st)) \<longleftrightarrow> x \<ge> t"
    "toasts_of t (snd (check_threshold fl x hours t st)) =
       toasts_of t (snd st) @ (if x \<ge> t \<and> threshold_key fl t \<notin> set (fst st) then [x] else [])"
  using assms by (auto simp: check_threshold_def Let_def toasts_of_def split: prod.split)

lemma check_thresholds:
  assumes "0 < t" and "distinct ts" and "inj_on (threshold_key fl) (insert t (set ts))"
  shows "(threshold_key fl t \<in> set (fst (fold (check_threshold fl x hours) ts st)) \<longleftrightarrow>
      (if t \<in> set ts then x \<ge> t else threshold_key fl t \<in> set (fst st))) \<and>
    toasts_of t (snd (fold (check_threshold fl x hours) ts st)) =
      toasts_of t (snd st) @ (if t \<in> set ts \<and> x \<ge> t \<and> threshold_key fl t \<notin> set (fst st) then [x] else [])"
  using assms
proof (induction ts arbitrary: st)
  case (Cons u ts)
  have i: "inj_on (threshold_key fl) (insert t (set ts))" by (rule inj_on_subset[OF Cons.prems(3)]) auto
  note IH = Cons.IH[OF Cons.prems(1) _ i, of "check_threshold fl x hours u st"]
  show ?case
  proof (cases "u = t")
    case True
    then show ?thesis using IH Cons.prems check_threshold_same[of t fl x hours st] by simp
  next
    case False
    then have "threshold_key fl u \<noteq> threshold_key fl t" using Cons.prems(3) by (auto simp: inj_on_def)
    then show ?thesis using False IH Cons.prems check_threshold_other[of fl u t] by simp
  qed
qed simp

text \<open>
  Over any sequence of spend checks, a threshold's warnings are exactly its upward crossings: one when the spend first
  reaches the threshold, none while it stays there, and a new one only after it was below in between. The thresholds
  have to be distinct and at least a microdollar apart, as their keys tell them apart.
\<close>

theorem spend_warnings_are_crossings:
  assumes "t \<in> set thresholds" and "0 < t" and "distinct thresholds" and "inj_on (threshold_key fl) (set thresholds)"
  shows "toasts_of t (snd (spend_checks fl hours thresholds totals ([], []))) = upward_crossings t False totals"
proof -
  have i: "inj_on (threshold_key fl) (insert t (set thresholds))" using assms(1,4) by (simp add: insert_absorb)
  note c = check_thresholds[OF assms(2,3) i]
  have "toasts_of t (snd (spend_checks fl hours thresholds totals st)) =
      toasts_of t (snd st) @ upward_crossings t (threshold_key fl t \<in> set (fst st)) totals" for st
    unfolding spend_checks_def using assms(1) by (induction totals arbitrary: st) (simp_all add: c)
  then show ?thesis by (simp add: toasts_of_def)
qed

theorem spend_warnings_are_crossings_witness:
  "toasts_of 5 (snd (spend_checks (\<lambda>x. x) 24 [5, 10] [4, 6, 7, 3, 5] ([], []))) = [6, 5]"
  using spend_warnings_are_crossings[of 5 "[5, 10]" "\<lambda>x. x" 24 "[4, 6, 7, 3, 5]"]
  by (simp add: threshold_key_def)

lemma check_spend_is_one_check:
  "query_spend_usd (we_db env) (window_hours c) (ws_db s) = Some x \<Longrightarrow>
   (ws_notified (check_spend_thresholds env c s), ws_toasts (check_spend_thresholds env c s)) =
     spend_checks (we_fl env) (window_hours c) (warn_thresholds_usd c) [x] (ws_notified s, ws_toasts s)"
  by (simp add: check_spend_thresholds_def spend_checks_def split: prod.split)

section \<open>Cursor and sessions\<close>

lemma sync_cursor_reads_back:
  assumes "byte_offset < 2 ^ 64" and "save_sync_cursor env filename byte_offset d = (None, d')" and "de_prepare_error env' = None"
  shows "load_sync_cursor env' d' = Some (filename, byte_offset)"
proof -
  have "wrap_i64 (int byte_offset) mod 2 ^ 64 = int byte_offset mod 2 ^ 64"
    by (simp add: wrap_i64_def mod_simps)
  then show ?thesis using assms by (auto simp: save_sync_cursor_def load_sync_cursor_def split: option.splits)
qed

lemma fold_update_distinct:
  "distinct (map fst xs) \<Longrightarrow>
     map_of (fold (\<lambda>(k, v). AList.update k (f v)) xs m) k = (case map_of xs k of Some v \<Rightarrow> Some (f v) | None \<Rightarrow> map_of m k)"
proof (induction xs arbitrary: m)
  case (Cons x xs)
  then have "map_of xs (fst x) = None" by (simp add: map_of_eq_None_iff)
  then show ?case using Cons by (cases x) (auto simp: update_conv' split: option.split)
qed simp

lemma persisted_sessions:
  assumes "de_write_error (we_db env) = None" and "distinct (map fst (ws_breaker s))"
  shows "map_of (db_session_tokens (ws_db (persist_session_tokens env s))) sid =
    (case map_of (ws_breaker s) sid of
       Some st \<Rightarrow> Some \<lparr>sr_total_tokens = ss_idle_output_tokens st, sr_last_activity = de_now (we_db env)\<rparr>
     | None \<Rightarrow> map_of (db_session_tokens (ws_db s)) sid)"
proof -
  have "db_session_tokens (fold (\<lambda>(session_id, n) d. snd (upsert_session_tokens (we_db env) session_id n d)) xs d) =
      fold (\<lambda>(k, n). AList.update k \<lparr>sr_total_tokens = n, sr_last_activity = de_now (we_db env)\<rparr>) xs (db_session_tokens d)" for xs d
    by (induction xs arbitrary: d) (auto simp: upsert_session_tokens_def assms(1))
  moreover have "map_of (session_totals cb) sid = map_option ss_idle_output_tokens (map_of cb sid)" for cb
    by (induction cb) (auto simp: session_totals_def)
  moreover have "distinct (map fst (session_totals (ws_breaker s)))"
    using assms(2) by (simp add: session_totals_def case_prod_unfold comp_def)
  ultimately show ?thesis
    using fold_update_distinct[of "session_totals (ws_breaker s)" "\<lambda>n. \<lparr>sr_total_tokens = n, sr_last_activity = de_now (we_db env)\<rparr>"]
    by (cases "map_of (ws_breaker s) sid") (simp_all add: persist_session_tokens_def)
qed

text \<open>A flush writes the present moment as the last activity of every session the breaker knows, active or not.\<close>

lemma persist_refreshes_idle_sessions:
  assumes "de_write_error (we_db env) = None" and "distinct (map fst (ws_breaker s))" and "map_of (ws_breaker s) sid = Some st"
  shows "\<exists>r. map_of (db_session_tokens (ws_db (persist_session_tokens env s))) sid = Some r \<and>
    sr_last_activity r = de_now (we_db env)"
  using persisted_sessions[OF assms(1,2), of sid] assms(3) by simp

text \<open>The totals that a restarted daemon rebuilds its breaker from are the breaker's counters at the last flush.\<close>

lemma stored_totals_reload:
  assumes "de_write_error (we_db env) = None" and "distinct (map fst (ws_breaker s))" and "map_of (ws_breaker s) sid = Some st"
  shows "\<exists>age. (sid, ss_idle_output_tokens st, age) \<in> set (load_session_tokens env' (ws_db (persist_session_tokens env s)))"
  using persisted_sessions[OF assms(1,2), of sid] assms(3) by (force simp: load_session_tokens_def dest: map_of_SomeD)

end
