(* ===== verification/Server.thy ===== *)
theory Server
  imports Http
begin

text \<open>
  The HTTP surface of kyrisd: the keys of \<^verbatim>\<open>daemon/src/auth.rs\<close>, the middleware of \<^verbatim>\<open>daemon/src/server/middleware.rs\<close>
  and \<^verbatim>\<open>daemon/src/trace_id.rs\<close>, the route tables and the layers that \<^verbatim>\<open>daemon/src/server.rs\<close> puts around them. The
  handlers are an argument: every theorem holds whatever they do. A layer is a function from the service it wraps
  to a service; a service takes a request and the state of the daemon to a response and the next state.
\<close>

section \<open>Requests and services\<close>

record request =
  q_method :: string
  q_path :: string
  q_headers :: headers
  q_trace_ext :: "string option"
  q_connect_info :: "string option"

datatype level = LInfo | LWarn | LError

datatype log_line =
  RequestLine level string string nat "nat option" "nat option"
| FramingLine nat string "string list"

record 's world =
  w_state :: 's
  w_log :: "log_line list"

type_synonym 's service = "request \<Rightarrow> 's world \<Rightarrow> http_response \<times> 's world"

definition respond :: "nat \<Rightarrow> http_response" where
  "respond status = \<lparr>rs_status = status, rs_headers = [], rs_body = []\<rparr>"

section \<open>Keys\<close>

datatype AuthResult = AuthOk | AuthRejected | AuthMisconfigured

definition constant_time_eq :: "string \<Rightarrow> string \<Rightarrow> bool" where
  "constant_time_eq a b = (a = b)"

definition validate_key :: "headers \<Rightarrow> string \<Rightarrow> AuthResult" where
  "validate_key hs expected =
     (if expected = [] then AuthMisconfigured
      else let provided = opt_or (Option.bind (header_str ''authorization'' hs) (strip_prefix ''Bearer ''))
                                 (header_str ''x-api-key'' hs)
           in case provided of
                Some key \<Rightarrow> if constant_time_eq key expected then AuthOk else AuthRejected
              | None \<Rightarrow> AuthRejected)"

definition validate_inbound_key :: "headers \<Rightarrow> string \<Rightarrow> AuthResult" where
  "validate_inbound_key hs expected =
     (if expected = [] then AuthMisconfigured
      else if (case header_str ''x-kyris-inbound'' hs of Some v \<Rightarrow> constant_time_eq v expected | None \<Rightarrow> False) then AuthOk
      else validate_key hs expected)"

definition auth_layer :: "(headers \<Rightarrow> string \<Rightarrow> AuthResult) \<Rightarrow> string \<Rightarrow> 's service \<Rightarrow> 's service" where
  "auth_layer validate key next req w =
     (case validate (q_headers req) key of
        AuthOk \<Rightarrow> next req w
      | AuthRejected \<Rightarrow> (respond 401, w)
      | AuthMisconfigured \<Rightarrow> (respond 500, w))"

definition inbound_auth_middleware :: "string \<Rightarrow> 's service \<Rightarrow> 's service" where
  "inbound_auth_middleware inbound_key = auth_layer validate_inbound_key inbound_key"

definition operator_auth_middleware :: "string \<Rightarrow> 's service \<Rightarrow> 's service" where
  "operator_auth_middleware operator_key = auth_layer validate_key operator_key"

section \<open>Logging and framing\<close>

definition content_length :: "headers \<Rightarrow> nat option" where
  "content_length hs = Option.bind (header_str ''content-length'' hs) parse_usize"

definition request_log_middleware :: "'s service \<Rightarrow> 's service" where
  "request_log_middleware next req w =
     (let (response, w') = next req w;
          status = rs_status response;
          lvl = (if status \<ge> 500 then LError else if status \<ge> 400 then LWarn else LInfo)
      in (response, w'\<lparr>w_log := w_log w' @
            [RequestLine lvl (q_method req) (q_path req) status (content_length (q_headers req)) (content_length (rs_headers response))]\<rparr>))"

definition HOP_BY_HOP :: "string list" where
  "HOP_BY_HOP = [''connection'', ''keep-alive'', ''upgrade'', ''te'', ''trailer'', ''proxy-authenticate'', ''proxy-authorization'']"

definition section_sign :: string where "section_sign = [CHR 0xC2, CHR 0xA7]"

definition response_framing_violation :: "http_response \<Rightarrow> string option" where
  "response_framing_violation response =
     (let names = map fst (rs_headers response) in
      if ''transfer-encoding'' \<in> set names \<and> ''content-length'' \<in> set names
      then Some ''both transfer-encoding and content-length headers are set on the response (hyper requires exactly one)''
      else map_option (\<lambda>name. ''hop-by-hop header `'' @ name @ ''` is set on the response (RFC 7230 '' @ section_sign @
                                 ''6.1 forbids relaying connection-scoped headers past a proxy)'')
             (List.find (\<lambda>name. name \<in> set names) HOP_BY_HOP))"

definition response_framing_check_middleware :: "'s service \<Rightarrow> 's service" where
  "response_framing_check_middleware next req w =
     (let (response, w') = next req w
      in case response_framing_violation response of
           Some reason \<Rightarrow> (response, w'\<lparr>w_log := w_log w' @ [FramingLine (rs_status response) reason (remdups (map fst (rs_headers response)))]\<rparr>)
         | None \<Rightarrow> (response, w'))"

text \<open>\<open>RequestBodyLimitLayer\<close> of tower-http answers 413 to a request that announces a longer body.\<close>

definition body_limit_layer :: "nat \<Rightarrow> 's service \<Rightarrow> 's service" where
  "body_limit_layer max_body next req w =
     (case content_length (q_headers req) of
        Some n \<Rightarrow> if n > max_body then (respond 413, w) else next req w
      | None \<Rightarrow> next req w)"

section \<open>The trace id\<close>

definition is_ascii_graphic :: "char \<Rightarrow> bool" where
  "is_ascii_graphic c = (let n = (of_char c :: nat) in 33 \<le> n \<and> n \<le> 126)"

definition is_valid_inbound_id :: "string \<Rightarrow> bool" where
  "is_valid_inbound_id s = (s \<noteq> [] \<and> length s \<le> 128 \<and> list_all (\<lambda>b. is_ascii_graphic b \<and> b \<noteq> CHR '' '') s)"

definition request_trace_id :: "string \<Rightarrow> request \<Rightarrow> string" where
  "request_trace_id minted req = unwrap_or (opt_filter is_valid_inbound_id (header_str ''x-request-id'' (q_headers req))) minted"

text \<open>\<open>HeaderValue::from_str\<close> takes visible ASCII and tabs; \<open>insert\<close> replaces every value of the name.\<close>

definition header_insert :: "string \<Rightarrow> string \<Rightarrow> headers \<Rightarrow> headers" where
  "header_insert name v hs = filter (\<lambda>(n, _). n \<noteq> name) hs @ [(name, v)]"

definition trace_id_middleware :: "string \<Rightarrow> 's service \<Rightarrow> 's service" where
  "trace_id_middleware minted next req w =
     (let trace_id = request_trace_id minted req;
          (response, w') = next (req\<lparr>q_trace_ext := Some trace_id\<rparr>) w
      in (if list_all is_visible_ascii trace_id
          then response\<lparr>rs_headers := header_insert ''x-kyris-trace-id'' trace_id (rs_headers response)\<rparr> else response, w'))"

definition from_request :: "request \<Rightarrow> string option" where
  "from_request req = q_trace_ext req"

section \<open>Routes\<close>

datatype seg = Lit string | Param | Rest

text \<open>A pattern matches the segments of a path: a parameter takes one non-empty segment, a catch-all the non-empty
  rest.\<close>

fun seg_match :: "seg list \<Rightarrow> string list \<Rightarrow> bool" where
  "seg_match [] [] = True"
| "seg_match [Rest] ss = (ss \<noteq> [] \<and> ss \<noteq> [[]])"
| "seg_match (Lit l # ps) (s # ss) = (l = s \<and> seg_match ps ss)"
| "seg_match (Param # ps) (s # ss) = (s \<noteq> [] \<and> seg_match ps ss)"
| "seg_match _ _ = False"

datatype endpoint =
  Messages | CountTokens | Completions | Responses | ModelAction | ListModels
| McpRoot | McpPath
| BreakerReset | BreakerResetAll | BreakerStop | HookLog | ListPending | ResolvePending | HoldPending | CancelPending
| PendingStatus | GatewayRecords | OperatorTimeline | OperatorStats | OperatorStream | SessionToken | LogFilter
| Healthz

datatype guard = Inbound | Operator | Open

text \<open>The route tables: pattern, methods, handler. The patterns of the three tables do not overlap.\<close>

definition adapter_routes :: "(seg list \<times> string list \<times> endpoint) list" where
  "adapter_routes =
     [([Lit ''v1'', Lit ''messages''], [''POST''], Messages),
      ([Lit ''v1'', Lit ''messages'', Lit ''count_tokens''], [''POST''], CountTokens),
      ([Lit ''v1'', Lit ''chat'', Lit ''completions''], [''POST''], Completions),
      ([Lit ''v1'', Lit ''responses''], [''POST''], Responses),
      ([Lit ''v1beta'', Lit ''models'', Param], [''POST''], ModelAction),
      ([Lit ''v1'', Lit ''models''], [''GET'', ''HEAD''], ListModels)]"

definition mcp_routes :: "(seg list \<times> string list \<times> endpoint) list" where
  "mcp_routes =
     [([Lit ''mcp'', Param], [''POST'', ''GET'', ''HEAD'', ''DELETE''], McpRoot),
      ([Lit ''mcp'', Param, Rest], [''POST'', ''GET'', ''HEAD'', ''DELETE''], McpPath)]"

definition authed_operational_routes :: "(seg list \<times> string list \<times> endpoint) list" where
  "authed_operational_routes =
     [([Lit ''api'', Lit ''circuit-breaker'', Lit ''reset''], [''POST''], BreakerReset),
      ([Lit ''api'', Lit ''circuit-breaker'', Lit ''reset-all''], [''POST''], BreakerResetAll),
      ([Lit ''api'', Lit ''circuit-breaker'', Lit ''stop''], [''POST''], BreakerStop),
      ([Lit ''api'', Lit ''hook'', Lit ''log''], [''POST''], HookLog),
      ([Lit ''api'', Lit ''pending''], [''GET'', ''HEAD''], ListPending),
      ([Lit ''api'', Lit ''pending'', Param, Lit ''resolve''], [''POST''], ResolvePending),
      ([Lit ''api'', Lit ''pending'', Lit ''hold''], [''POST''], HoldPending),
      ([Lit ''api'', Lit ''pending'', Param, Lit ''cancel''], [''DELETE''], CancelPending),
      ([Lit ''api'', Lit ''pending'', Param, Lit ''status''], [''GET'', ''HEAD''], PendingStatus),
      ([Lit ''operator'', Lit ''gateway-records''], [''GET'', ''HEAD''], GatewayRecords),
      ([Lit ''operator'', Lit ''timeline''], [''GET'', ''HEAD''], OperatorTimeline),
      ([Lit ''operator'', Lit ''stats''], [''GET'', ''HEAD''], OperatorStats),
      ([Lit ''operator'', Lit ''stream''], [''GET'', ''HEAD''], OperatorStream),
      ([Lit ''operator'', Lit ''session-tokens'', Param], [''GET'', ''HEAD''], SessionToken),
      ([Lit ''operator'', Lit ''diag'', Lit ''log-filter''], [''GET'', ''HEAD'', ''POST''], LogFilter)]"

definition health_routes :: "(seg list \<times> string list \<times> endpoint) list" where
  "health_routes = [([Lit ''healthz''], [''GET'', ''HEAD''], Healthz)]"

definition all_routes :: "(seg list \<times> string list \<times> endpoint \<times> guard) list" where
  "all_routes =
     map (\<lambda>(p, ms, e). (p, ms, e, Inbound)) (adapter_routes @ mcp_routes) @
     map (\<lambda>(p, ms, e). (p, ms, e, Operator)) authed_operational_routes @
     map (\<lambda>(p, ms, e). (p, ms, e, Open)) health_routes"

text \<open>The path after its leading slash, cut at slashes.\<close>

definition path_segments :: "string \<Rightarrow> string list" where
  "path_segments path = split_on (CHR ''/'') (unwrap_or (strip_prefix ''/'' path) path)"

definition find_route :: "string \<Rightarrow> (seg list \<times> string list \<times> endpoint \<times> guard) option" where
  "find_route path = List.find (\<lambda>(p, _). seg_match p (path_segments path)) all_routes"

text \<open>The handlers of the model gateways take the peer's address from the connection: without it the extractor
  rejects the request.\<close>

definition needs_connect_info :: "endpoint \<Rightarrow> bool" where
  "needs_connect_info e = (e \<in> {Messages, Completions, Responses, ModelAction})"

definition call_handler :: "(endpoint \<Rightarrow> 's service) \<Rightarrow> endpoint \<Rightarrow> 's service" where
  "call_handler handlers e req w =
     (if needs_connect_info e \<and> q_connect_info req = None then (respond 500, w) else handlers e req w)"

record server_keys =
  inbound_key :: string
  operator_key :: string

definition guard_layer :: "server_keys \<Rightarrow> guard \<Rightarrow> 's service \<Rightarrow> 's service" where
  "guard_layer keys g =
     (case g of Inbound \<Rightarrow> inbound_auth_middleware (inbound_key keys)
      | Operator \<Rightarrow> operator_auth_middleware (operator_key keys)
      | Open \<Rightarrow> (\<lambda>next. next))"

definition router :: "server_keys \<Rightarrow> (endpoint \<Rightarrow> 's service) \<Rightarrow> 's service" where
  "router keys handlers req w =
     (case find_route (q_path req) of
        None \<Rightarrow> (respond 404, w)
      | Some (_, methods, e, g) \<Rightarrow>
          guard_layer keys g
            (\<lambda>req w. if q_method req \<in> set methods then call_handler handlers e req w else (respond 405, w)) req w)"

definition app :: "string \<Rightarrow> nat \<Rightarrow> server_keys \<Rightarrow> (endpoint \<Rightarrow> 's service) \<Rightarrow> 's service" where
  "app minted max_body keys handlers =
     trace_id_middleware minted
       (response_framing_check_middleware (request_log_middleware (body_limit_layer max_body (router keys handlers))))"

text \<open>Plain connections carry the peer's address; the service that the TLS loop hands to hyper does not.\<close>

definition serve_with_graceful_shutdown where
  "serve_with_graceful_shutdown svc peer_addr req = svc (req\<lparr>q_connect_info := Some peer_addr\<rparr>)"

definition serve_tls_with_graceful_shutdown where
  "serve_tls_with_graceful_shutdown svc (peer_addr :: string) req = svc (req\<lparr>q_connect_info := None\<rparr>)"

section \<open>Authentication\<close>

lemma header_str_map_of: "header_str name hs = Some v \<Longrightarrow> map_of hs name = Some v"
  by (simp add: header_str_def)

text \<open>What a client without the secret lacks: no header that the daemon reads holds the key.\<close>

definition lacks_key :: "headers \<Rightarrow> string \<Rightarrow> bool" where
  "lacks_key hs key =
     (key = [] \<or> list_all (\<lambda>name. map_of hs name \<noteq> Some key \<and> map_of hs name \<noteq> Some (''Bearer '' @ key))
                   [''authorization'', ''x-api-key'', ''x-kyris-inbound''])"

lemma validate_key_lacks: "lacks_key hs key \<Longrightarrow> validate_key hs key = (if key = [] then AuthMisconfigured else AuthRejected)"
  by (auto simp: lacks_key_def validate_key_def constant_time_eq_def opt_or_def bind_eq_Some_conv dest!: header_str_map_of
        split: option.splits bind_splits)

lemma validate_inbound_key_lacks:
  "lacks_key hs key \<Longrightarrow> validate_inbound_key hs key = (if key = [] then AuthMisconfigured else AuthRejected)"
  using validate_key_lacks[of hs key]
  by (auto simp: validate_inbound_key_def lacks_key_def constant_time_eq_def dest!: header_str_map_of split: option.splits)

text \<open>Who holds the key is let in, whichever of the headers carries it.\<close>

lemma inbound_key_accepted:
  "key \<noteq> [] \<Longrightarrow> list_all is_visible_ascii key \<Longrightarrow> map_of hs ''x-kyris-inbound'' = Some key \<Longrightarrow> validate_inbound_key hs key = AuthOk"
  by (simp add: validate_inbound_key_def header_str_def opt_filter_def constant_time_eq_def)

lemma bearer_key_accepted:
  "key \<noteq> [] \<Longrightarrow> list_all is_visible_ascii key \<Longrightarrow> map_of hs ''authorization'' = Some (''Bearer '' @ key) \<Longrightarrow> validate_key hs key = AuthOk"
  by (simp add: validate_key_def header_str_def opt_filter_def constant_time_eq_def strip_prefix_def is_visible_ascii_def)

fun key_of :: "server_keys \<Rightarrow> guard \<Rightarrow> string" where
  "key_of keys Inbound = inbound_key keys"
| "key_of keys Operator = operator_key keys"
| "key_of keys Open = []"

lemma guard_layer_lacks:
  "g \<noteq> Open \<Longrightarrow> lacks_key (q_headers req) (key_of keys g) \<Longrightarrow>
     guard_layer keys g next req w = (respond (if key_of keys g = [] then 500 else 401), w)"
  by (cases g) (simp_all add: guard_layer_def inbound_auth_middleware_def operator_auth_middleware_def auth_layer_def
      validate_key_lacks validate_inbound_key_lacks)

text \<open>What the outer layers do to a response and to the state.\<close>

lemma layers_state:
  "w_state (snd (trace_id_middleware m next req w)) = w_state (snd (next (req\<lparr>q_trace_ext := Some (request_trace_id m req)\<rparr>) w))"
  "w_state (snd (response_framing_check_middleware next req w)) = w_state (snd (next req w))"
  "w_state (snd (request_log_middleware next req w)) = w_state (snd (next req w))"
  by (simp_all add: trace_id_middleware_def response_framing_check_middleware_def request_log_middleware_def Let_def
      case_prod_unfold split: option.split)

lemma layers_status:
  "rs_status (fst (trace_id_middleware m next req w)) = rs_status (fst (next (req\<lparr>q_trace_ext := Some (request_trace_id m req)\<rparr>) w))"
  "rs_status (fst (response_framing_check_middleware next req w)) = rs_status (fst (next req w))"
  "rs_status (fst (request_log_middleware next req w)) = rs_status (fst (next req w))"
  by (simp_all add: trace_id_middleware_def response_framing_check_middleware_def request_log_middleware_def Let_def
      case_prod_unfold split: option.split)

lemmas layers = layers_state layers_status

definition too_long :: "nat \<Rightarrow> headers \<Rightarrow> bool" where
  "too_long max_body hs = (case content_length hs of Some n \<Rightarrow> n > max_body | None \<Rightarrow> False)"

text \<open>
  C15. A request to any route but the health check that does not carry the key of the route's table changes nothing in the
  daemon's state, whatever the handlers do, and is answered 401 (413 when it announces a body over the limit). A daemon
  whose key is empty lets nobody in: every such request is answered 500.
\<close>

theorem requests_without_key_are_refused:
  assumes "find_route (q_path req) = Some (pat, methods, e, g)" and "g \<noteq> Open"
    and "lacks_key (q_headers req) (key_of keys g)"
  shows "w_state (snd (app minted max_body keys handlers req w)) = w_state w \<and>
    rs_status (fst (app minted max_body keys handlers req w)) =
      (if too_long max_body (q_headers req) then 413 else if key_of keys g = [] then 500 else 401)"
proof -
  let ?req = "req\<lparr>q_trace_ext := Some (request_trace_id minted req)\<rparr>"
  have g: "guard_layer keys g next ?req w = (respond (if key_of keys g = [] then 500 else 401), w)" for "next"
    by (rule guard_layer_lacks) (use assms(2,3) in simp_all)
  show ?thesis
    using assms(1) by (simp add: g app_def layers body_limit_layer_def router_def too_long_def respond_def split: option.split)
qed

text \<open>With the key, the request reaches its handler with the trace id in its extensions.\<close>

lemma request_with_key_is_served:
  assumes "find_route (q_path req) = Some (pat, methods, e, g)" and "q_method req \<in> set methods"
    and "g = Inbound \<Longrightarrow> validate_inbound_key (q_headers req) (inbound_key keys) = AuthOk"
    and "g = Operator \<Longrightarrow> validate_key (q_headers req) (operator_key keys) = AuthOk"
    and "\<not> too_long max_body (q_headers req)" and "needs_connect_info e \<longrightarrow> q_connect_info req \<noteq> None"
  shows "w_state (snd (app minted max_body keys handlers req w)) =
    w_state (snd (handlers e (req\<lparr>q_trace_ext := Some (request_trace_id minted req)\<rparr>) w))"
  using assms by (cases g) (auto simp: app_def layers body_limit_layer_def router_def too_long_def guard_layer_def
      inbound_auth_middleware_def operator_auth_middleware_def auth_layer_def call_handler_def split: option.split)

text \<open>
  Every response, a refusal too, carries the trace id exactly once: the caller's own when it is a usable one, else the
  minted one; and every request leaves exactly one access line after what the handler logged, with the status that
  was sent and the level of that status, followed by at most a line on framing.
\<close>

theorem every_response_is_traced_and_logged:
  assumes "list_all is_visible_ascii minted"
  shows "let (response, w') = app minted max_body keys handlers req w;
             (inner, wi) = body_limit_layer max_body (router keys handlers) (req\<lparr>q_trace_ext := Some (request_trace_id minted req)\<rparr>) w;
             status = rs_status response
         in filter (\<lambda>(n, _). n = ''x-kyris-trace-id'') (rs_headers response) = [(''x-kyris-trace-id'', request_trace_id minted req)] \<and>
            status = rs_status inner \<and>
            (\<exists>framing. w_log w' = w_log wi @ RequestLine (if status \<ge> 500 then LError else if status \<ge> 400 then LWarn else LInfo)
                (q_method req) (q_path req) status (content_length (q_headers req)) (content_length (rs_headers inner)) # framing \<and>
              list_all (\<lambda>l. case l of FramingLine _ _ _ \<Rightarrow> True | _ \<Rightarrow> False) framing \<and> length framing \<le> 1)"
proof -
  have v: "list_all is_visible_ascii (request_trace_id minted req)"
    using assms by (auto simp: request_trace_id_def header_str_def opt_filter_def list_all_iff split: option.splits)
  have f: "filter (\<lambda>p. fst p = k) (header_insert k x hs) = [(k, x)]" for k x hs
    by (induction hs) (auto simp: header_insert_def)
  show ?thesis
    by (auto simp: app_def trace_id_middleware_def response_framing_check_middleware_def request_log_middleware_def Let_def
        case_prod_unfold v f split: option.split)
qed

lemma framing_ok_iff:
  "response_framing_violation r = None \<longleftrightarrow>
     \<not> (''transfer-encoding'' \<in> fst ` set (rs_headers r) \<and> ''content-length'' \<in> fst ` set (rs_headers r)) \<and>
     set HOP_BY_HOP \<inter> fst ` set (rs_headers r) = {}"
  by (auto simp: response_framing_violation_def Let_def find_None_iff)

text \<open>Served over TLS, no gateway request reaches its handler: the address of the peer is missing and the extractor
  answers 500.\<close>

lemma tls_gateway_requests_fail:
  assumes "find_route (q_path req) = Some (pat, methods, e, Inbound)" and "needs_connect_info e" and "q_method req \<in> set methods"
    and "validate_inbound_key (q_headers req) (inbound_key keys) = AuthOk" and "\<not> too_long max_body (q_headers req)"
  shows "rs_status (fst (serve_tls_with_graceful_shutdown (app minted max_body keys handlers) peer req w)) = 500 \<and>
    w_state (snd (serve_tls_with_graceful_shutdown (app minted max_body keys handlers) peer req w)) = w_state w"
  using assms by (auto simp: serve_tls_with_graceful_shutdown_def app_def layers body_limit_layer_def router_def too_long_def guard_layer_def
      inbound_auth_middleware_def auth_layer_def call_handler_def respond_def split: option.split)

definition sample_request :: "string \<Rightarrow> string \<Rightarrow> headers \<Rightarrow> request" where
  "sample_request method path hs = \<lparr>q_method = method, q_path = path, q_headers = hs, q_trace_ext = None, q_connect_info = Some ''127.0.0.1:5000''\<rparr>"

lemma sample_route: "find_route ''/api/pending/7/resolve'' = Some ([Lit ''api'', Lit ''pending'', Param, Lit ''resolve''], [''POST''], ResolvePending, Operator)"
  by code_simp

theorem requests_without_key_are_refused_witness:
  "let req = sample_request ''POST'' ''/api/pending/7/resolve'' [(''authorization'', ''Bearer guess'')];
       keys = \<lparr>inbound_key = ''in'', operator_key = ''op''\<rparr>
   in rs_status (fst (app ''t'' 100 keys (\<lambda>_ _ w. (respond 200, w\<lparr>w_state := w_state w + 1\<rparr>)) req \<lparr>w_state = 0 :: nat, w_log = []\<rparr>)) = 401"
  using requests_without_key_are_refused[of "sample_request ''POST'' ''/api/pending/7/resolve'' [(''authorization'', ''Bearer guess'')]"
      _ _ _ Operator "\<lparr>inbound_key = ''in'', operator_key = ''op''\<rparr>" "''t''" 100 "\<lambda>_ _ w. (respond 200, w\<lparr>w_state := w_state w + 1\<rparr>)"
      "\<lparr>w_state = 0 :: nat, w_log = []\<rparr>"] sample_route
  by (simp add: sample_request_def lacks_key_def too_long_def content_length_def header_str_def)

theorem every_response_is_traced_and_logged_witness:
  "filter (\<lambda>(n, _). n = ''x-kyris-trace-id'')
     (rs_headers (fst (app ''t'' 100 \<lparr>inbound_key = [], operator_key = []\<rparr> (\<lambda>_ _ w. (respond 200, w))
        (sample_request ''GET'' ''/nowhere'' []) \<lparr>w_state = (), w_log = []\<rparr>))) = [(''x-kyris-trace-id'', ''t'')]"
proof -
  have "list_all is_visible_ascii ''t''" by (simp add: is_visible_ascii_def)
  from every_response_is_traced_and_logged[OF this, of 100 "\<lparr>inbound_key = [], operator_key = []\<rparr>" "\<lambda>_ _ w. (respond 200, w)"
      "sample_request ''GET'' ''/nowhere'' []" "\<lparr>w_state = (), w_log = []\<rparr>"]
  show ?thesis by (simp add: Let_def case_prod_unfold sample_request_def request_trace_id_def header_str_def)
qed

end
