(* ===== verification/Operator.thy ===== *)
theory Operator
  imports Storage Timeline Server
begin

text \<open>
  The read side of the operator interface: the queries of \<^verbatim>\<open>daemon/src/timeline.rs\<close> over the event log and the record
  store, and the handlers of \<^verbatim>\<open>daemon/src/server/operator_routes.rs\<close>. The log is the list of rows that \<open>read_json\<close>
  yields of it, a missing field being a null column; what the engine adds is the \<open>db_env\<close> of the store.
\<close>

section \<open>Reading the event log\<close>

record TimelineFilter =
  tf_agent :: "string option"
  tf_action :: "string option"
  tf_decision :: "string option"
  tf_session :: "string option"
  tf_trace_id :: "string option"
  tf_dir :: "string option"
  tf_since :: "string option"
  tf_until :: "string option"
  tf_limit :: nat

definition no_filter :: TimelineFilter where
  "no_filter = \<lparr>tf_agent = None, tf_action = None, tf_decision = None, tf_session = None, tf_trace_id = None, tf_dir = None,
     tf_since = None, tf_until = None, tf_limit = 0\<rparr>"

definition agentpact_log_dir :: "string option \<Rightarrow> string option \<Rightarrow> string" where
  "agentpact_log_dir xdg_state_home home =
     (case xdg_state_home of
        Some explicit \<Rightarrow> explicit @ (if explicit = [] \<or> last explicit = CHR ''/'' then [] else ''/'') @ ''agentpact/log''
      | None \<Rightarrow> unwrap_or home [] @ ''/.local/state/agentpact/log'')"

definition dir_has_suffix :: "string list option \<Rightarrow> string \<Rightarrow> bool" where
  "dir_has_suffix listing suff = (case listing of None \<Rightarrow> False | Some names \<Rightarrow> list_ex (\<lambda>name. suffix suff name) names)"

definition event_log_sources :: "string \<Rightarrow> string list option \<Rightarrow> string option" where
  "event_log_sources dir listing =
     (let sources = map (\<lambda>(glob, _). [CHR 0x27] @ dir @ ''/'' @ glob @ [CHR 0x27])
            (filter (\<lambda>(_, suff). dir_has_suffix listing suff) [(''*.jsonl'', ''.jsonl''), (''*.jsonl.gz'', ''.jsonl.gz'')])
      in if sources = [] then None else Some (''['' @ join '', '' sources @ '']''))"

record log_row =
  lr_id :: "string option"
  lr_timestamp :: "string option"
  lr_agent :: "string option"
  lr_action :: "string option"
  lr_detail :: "string option"
  lr_decision :: "string option"
  lr_working_dir :: "string option"
  lr_trace_id :: "string option"
  lr_git_remote_origin :: "string option"
  lr_session :: "string option"
  lr_mode :: "string option"
  lr_rule_kind :: "string option"
  lr_rule_id :: "string option"
  lr_attribution_method :: "string option"
  lr_resource_class :: "string option"
  lr_grantable :: "bool option"
  lr_segments :: "string option"

text \<open>\<open>LIKE\<close>: a percent sign stands for any text, an underscore for one character (all bytes of it).\<close>

definition is_continuation :: "char \<Rightarrow> bool" where
  "is_continuation c = byte_in 0x80 0xBF c"

function sql_like :: "string \<Rightarrow> string \<Rightarrow> bool" where
  "sql_like [] s = (s = [])"
| "sql_like (p # ps) s =
     (if p = CHR ''%'' then sql_like ps s \<or> (case s of [] \<Rightarrow> False | _ # t \<Rightarrow> sql_like (p # ps) t)
      else case s of
             [] \<Rightarrow> False
           | c # t \<Rightarrow> if p = CHR ''_'' then sql_like ps (dropWhile is_continuation t) else p = c \<and> sql_like ps t)"
  by pat_completeness auto
termination
  by (relation "measure (\<lambda>(p, s). length p + length s)") (auto simp: less_Suc_eq_le le_SucI length_dropWhile_le)

text \<open>A bound that does not parse is null, and a comparison with null is not true.\<close>

definition ts_compare :: "db_env \<Rightarrow> (int \<Rightarrow> int \<Rightarrow> bool) \<Rightarrow> string option \<Rightarrow> string option \<Rightarrow> bool" where
  "ts_compare env ok column bound =
     (case bound of
        None \<Rightarrow> True
      | Some b \<Rightarrow> (case (Option.bind column (de_timestamp env), de_timestamp env b) of
                     (Some x, Some y) \<Rightarrow> ok x y | _ \<Rightarrow> False))"

definition dir_matches :: "string option \<Rightarrow> string option \<Rightarrow> bool" where
  "dir_matches column dir =
     (case dir of None \<Rightarrow> True
      | Some d \<Rightarrow> (case column of None \<Rightarrow> False | Some wd \<Rightarrow> wd = d \<or> sql_like (d @ ''/%'') wd))"

definition event_matches :: "db_env \<Rightarrow> TimelineFilter \<Rightarrow> log_row \<Rightarrow> bool" where
  "event_matches env f r =
     (sql_eq (tf_agent f) (lr_agent r) \<and> sql_eq (tf_action f) (lr_action r) \<and> sql_eq (tf_decision f) (lr_decision r) \<and>
      sql_eq (tf_session f) (lr_session r) \<and> sql_eq (tf_trace_id f) (lr_trace_id r) \<and>
      ts_compare env (\<ge>) (lr_timestamp r) (tf_since f) \<and> ts_compare env (\<le>) (lr_timestamp r) (tf_until f) \<and>
      dir_matches (lr_working_dir r) (tf_dir f))"

text \<open>\<open>ORDER BY timestamp DESC\<close> compares the text; nulls come last.\<close>

definition text_newer :: "log_row \<Rightarrow> log_row \<Rightarrow> bool" where
  "text_newer a b =
     (case lr_timestamp b of None \<Rightarrow> True
      | Some y \<Rightarrow> (case lr_timestamp a of None \<Rightarrow> False | Some x \<Rightarrow> x \<ge> y))"

definition row_of_log :: "(string \<Rightarrow> Segment list option) \<Rightarrow> log_row \<Rightarrow> string + TimelineEventRow" where
  "row_of_log parse_segments r =
     (case (lr_id r, lr_timestamp r) of
        (Some rid, Some t) \<Rightarrow>
          Inr \<lparr>tr_id = rid, tr_timestamp = t, tr_agent = lr_agent r, tr_action = unwrap_or (lr_action r) [], tr_detail = lr_detail r,
            tr_decision = lr_decision r,
            tr_coverage_state = sql_expr (unwrap_or (lr_action r) []) (unwrap_or (lr_attribution_method r) []) (unwrap_or (lr_mode r) []),
            tr_working_dir = lr_working_dir r, tr_git_remote_origin = lr_git_remote_origin r, tr_session = lr_session r,
            tr_mode = lr_mode r, tr_rule_kind = lr_rule_kind r, tr_rule_id = lr_rule_id r, tr_resource_class = lr_resource_class r,
            tr_grantable = lr_grantable r, tr_trace_id = lr_trace_id r,
            tr_segments = unwrap_or (Option.bind (lr_segments r) parse_segments) []\<rparr>
      | _ \<Rightarrow> Inl ''Invalid column type Null'')"

fun collect_results :: "('e + 'a) list \<Rightarrow> 'e + 'a list" where
  "collect_results [] = Inr []"
| "collect_results (Inl e # _) = Inl e"
| "collect_results (Inr x # xs) = map_sum id ((#) x) (collect_results xs)"

text \<open>The event log as the operator sees it: the directory's entries and the rows of its files.\<close>

record event_log =
  el_dir :: string
  el_entries :: "string list option"
  el_rows :: "log_row list"
  el_parse_segments :: "string \<Rightarrow> Segment list option"

definition read_event_rows :: "db_env \<Rightarrow> event_log \<Rightarrow> TimelineFilter \<Rightarrow> nat \<Rightarrow> string + TimelineEventRow list" where
  "read_event_rows env elog f limit =
     (case event_log_sources (el_dir elog) (el_entries elog) of
        None \<Rightarrow> Inr []
      | Some _ \<Rightarrow>
          (case de_prepare_error env of
             Some e \<Rightarrow> Inl e
           | None \<Rightarrow> collect_results (map (row_of_log (el_parse_segments elog))
                       (take limit (sort_desc text_newer (filter (event_matches env f) (el_rows elog)))))))"

definition records_filter :: "TimelineFilter \<Rightarrow> nat \<Rightarrow> GatewayRecordFilter" where
  "records_filter f limit =
     \<lparr>f_provider = None, f_model = None, f_status = None, f_session_id = tf_session f, f_trace_id = tf_trace_id f, f_mcp_server = None,
      f_mcp_tool = None, f_since = tf_since f, f_limit = Some (min (max (min (limit * 2) (2 ^ 32 - 1)) limit) 10000)\<rparr>"

definition read_records_for :: "db_env \<Rightarrow> db \<Rightarrow> TimelineFilter \<Rightarrow> nat \<Rightarrow> GatewayRecord list" where
  "read_records_for env d f limit =
     (case query_gateway_records env (records_filter f limit) d of Inl _ \<Rightarrow> [] | Inr rs \<Rightarrow> rs)"

text \<open>The scope of the last sync, from its metadata row.\<close>

definition SyncScope_load :: "db_env \<Rightarrow> (string \<Rightarrow> string list option) \<Rightarrow> db \<Rightarrow> TimelineScope" where
  "SyncScope_load env parse d =
     (case (if de_prepare_error env = None then db_sync_metadata d else None) of
        Some (scope_json, last_synced_at) \<Rightarrow>
          \<lparr>ts_patterns = unwrap_or (parse scope_json) [], ts_last_synced_at = Some last_synced_at\<rparr>
      | None \<Rightarrow> \<lparr>ts_patterns = [], ts_last_synced_at = None\<rparr>)"

text \<open>The whole query; the joining part is \<open>query_timeline\<close>.\<close>

definition timeline_for :: "db_env \<Rightarrow> string option \<Rightarrow> (string \<Rightarrow> string list option) \<Rightarrow> db \<Rightarrow> event_log \<Rightarrow> TimelineFilter \<Rightarrow> TimelineEntry list" where
  "timeline_for env home_var parse_scope d elog f =
     (let scope = SyncScope_load env parse_scope d;
          limit = min (max (tf_limit f) 1) 10000;
          events = (case read_event_rows env elog f limit of Inl _ \<Rightarrow> [] | Inr rows \<Rightarrow> rows);
          records = read_records_for env d f limit
      in query_timeline home_var events records scope (tf_limit f))"

section \<open>Handlers\<close>

record operator_env =
  oe_db :: db_env
  oe_home :: "string option"
  oe_parse_scope :: "string \<Rightarrow> string list option"
  oe_log :: event_log
  oe_rfc3339_ok :: "string \<Rightarrow> bool"
  oe_debug_str :: "string \<Rightarrow> string"
  oe_fl :: "rat \<Rightarrow> rat"

definition validate_rfc3339 :: "operator_env \<Rightarrow> string \<Rightarrow> string option \<Rightarrow> (nat \<times> json) option" where
  "validate_rfc3339 env name val =
     (case val of
        Some v \<Rightarrow>
          if oe_rfc3339_ok env v then None
          else Some (400, JObj [(''error'', JStr (''invalid `'' @ name @ ''`: expected an RFC3339 timestamp, got '' @ oe_debug_str env v))])
      | None \<Rightarrow> None)"

record TimelineQuery =
  tq_filter :: TimelineFilter
  tq_limit :: "nat option"

definition operator_timeline :: "operator_env \<Rightarrow> db \<Rightarrow> TimelineQuery \<Rightarrow> (nat \<times> json) + TimelineEntry list" where
  "operator_timeline env d q =
     (case opt_or (validate_rfc3339 env ''since'' (tf_since (tq_filter q))) (validate_rfc3339 env ''until'' (tf_until (tq_filter q))) of
        Some e \<Rightarrow> Inl e
      | None \<Rightarrow> Inr (timeline_for (oe_db env) (oe_home env) (oe_parse_scope env) d (oe_log env)
                      ((tq_filter q)\<lparr>tf_limit := unwrap_or (tq_limit q) 50\<rparr>)))"

definition operator_stats :: "operator_env \<Rightarrow> db \<Rightarrow> string option \<Rightarrow> string option \<Rightarrow> (nat \<times> json) + TimelineStats" where
  "operator_stats env d since dir =
     (case validate_rfc3339 env ''since'' since of
        Some e \<Rightarrow> Inl e
      | None \<Rightarrow> Inr (compute_stats (oe_fl env) (timeline_for (oe_db env) (oe_home env) (oe_parse_scope env) d (oe_log env)
                      (no_filter\<lparr>tf_since := since, tf_dir := dir, tf_limit := 10000\<rparr>))))"

definition operator_gateway_records :: "operator_env \<Rightarrow> db \<Rightarrow> GatewayRecordFilter \<Rightarrow> (nat \<times> json) + GatewayRecord list" where
  "operator_gateway_records env d q =
     (case validate_rfc3339 env ''since'' (f_since q) of
        Some e \<Rightarrow> Inl e
      | None \<Rightarrow> (case query_gateway_records (oe_db env) q d of
                   Inr records \<Rightarrow> Inr records
                 | Inl err \<Rightarrow> Inl (500, JObj [(''error'', JStr err)])))"

definition operator_session_token :: "operator_env \<Rightarrow> db \<Rightarrow> string \<Rightarrow> (nat \<times> json) + SessionTokenRow" where
  "operator_session_token env d session_id =
     (case query_session_token (oe_db env) session_id d of
        Inr (Some row) \<Rightarrow> Inr row
      | Inr None \<Rightarrow> Inl (404, JObj [(''error'', JStr ''session not found''), (''session_id'', JStr session_id)])
      | Inl err \<Rightarrow> Inl (500, JObj [(''error'', JStr err)]))"

text \<open>The live stream: a subscriber that lags skips the gap; the end of the channel ends the stream.\<close>

datatype recv_result = Received GatewayRecord | Lagged nat | StreamClosed

fun operator_stream :: "(GatewayRecord \<Rightarrow> string option) \<Rightarrow> recv_result list \<Rightarrow> string list" where
  "operator_stream to_json [] = []"
| "operator_stream to_json (Received r # rest) =
     (case to_json r of Some data \<Rightarrow> ''data: '' @ data | None \<Rightarrow> '': record serialize error'') # operator_stream to_json rest"
| "operator_stream to_json (Lagged _ # rest) = operator_stream to_json rest"
| "operator_stream to_json (StreamClosed # rest) = []"

record HealthzResponse =
  hz_ready :: bool
  hz_providers :: nat
  hz_dropped_events :: nat
  hz_db_writable :: bool

definition probe_writable :: "db_env \<Rightarrow> bool" where
  "probe_writable env = (de_write_error env = None)"

definition healthz :: "db_env \<Rightarrow> nat \<Rightarrow> nat \<Rightarrow> nat \<times> HealthzResponse" where
  "healthz env dropped providers =
     (let db_writable = probe_writable env; ready = (dropped = 0 \<and> db_writable)
      in (if ready then 200 else 503,
          \<lparr>hz_ready = ready, hz_providers = providers, hz_dropped_events = dropped, hz_db_writable = db_writable\<rparr>))"

declare sql_like.simps(2) [simp del]

section \<open>Filters\<close>

lemma sql_like_percent [simp]: "sql_like ''%'' s"
  by (induction s) (simp_all add: sql_like.simps(2))

lemma sql_like_literal:
  "CHR ''%'' \<notin> set d \<Longrightarrow> CHR ''_'' \<notin> set d \<Longrightarrow> sql_like (d @ ps) s \<longleftrightarrow> (\<exists>t. s = d @ t \<and> sql_like ps t)"
proof (induction d arbitrary: s)
  case (Cons c d)
  then show ?case by (cases s) (auto simp: sql_like.simps(2))
qed simp

text \<open>
  Filtering the timeline by a directory keeps exactly the events of that directory and of what lies beneath it, as
  long as the directory's name has no percent sign and no underscore.
\<close>

theorem dir_filter_is_subtree:
  assumes "CHR ''%'' \<notin> set d" and "CHR ''_'' \<notin> set d"
  shows "dir_matches column (Some d) \<longleftrightarrow> (\<exists>wd. column = Some wd \<and> (wd = d \<or> prefix (d @ ''/'') wd))"
proof (cases column)
  case (Some wd)
  have "sql_like (d @ ''/%'') wd \<longleftrightarrow> (\<exists>t. wd = (d @ ''/'') @ t)"
    using sql_like_literal[of "d @ ''/''" "''%''" wd] assms by simp
  then show ?thesis using Some by (auto simp: dir_matches_def prefix_def)
qed (simp add: dir_matches_def)

theorem dir_filter_is_subtree_witness:
  "dir_matches (Some ''/w/a/b'') (Some ''/w/a'') \<and> \<not> dir_matches (Some ''/w/ab'') (Some ''/w/a'')"
  using dir_filter_is_subtree[of "''/w/a''" "Some ''/w/a/b''"] dir_filter_is_subtree[of "''/w/a''" "Some ''/w/ab''"]
  by simp

text \<open>With an underscore in it, the name also stands for its neighbours.\<close>

lemma dir_filter_underscore_leaks: "dir_matches (Some ''/w/axb/secret'') (Some ''/w/a_b'')"
  by (simp add: dir_matches_def sql_like.simps(2) is_continuation_def byte_in_def)

text \<open>The records that enrich a timeline are filtered by session, trace and lower bound only: a timeline asked for one
  agent shows the calls of every other agent as records without an event.\<close>

definition foreign_row :: gateway_row where
  "foreign_row = (event_row sample_db_env ''i'' (sample_event ''t'' 1))\<lparr>row_agent := Some ''other''\<rparr>"

definition empty_log :: event_log where
  "empty_log = \<lparr>el_dir = ''/l'', el_entries = None, el_rows = [], el_parse_segments = (\<lambda>_. None)\<rparr>"

lemma agent_filter_shows_other_agents:
  "map te_agent (timeline_for sample_db_env None (\<lambda>_. None) (sample_db\<lparr>db_gateway_records := [foreign_row]\<rparr>) empty_log
     (no_filter\<lparr>tf_agent := Some ''claude-code'', tf_limit := 50\<rparr>)) = [Some ''other'']"
  by (simp add: timeline_for_def read_event_rows_def event_log_sources_def dir_has_suffix_def empty_log_def read_records_for_def
      records_filter_def no_filter_def query_gateway_records_def query_rows_def filter_matches_def sql_eq_def order_by_def sample_db_env_def
      foreign_row_def event_row_def gateway_row_to_record_def query_timeline_def join_timeline_def sort_desc_def
      entry_from_orphan_record_def List.map_filter_def sample_event_def)

text \<open>One row without an id, and no event is shown at all.\<close>

lemma row_without_id_hides_all_events:
  assumes "r \<in> set (take limit (sort_desc text_newer (filter (event_matches env f) (el_rows elog))))" and "lr_id r = None"
  shows "(case read_event_rows env elog f limit of Inl _ \<Rightarrow> [] | Inr rows \<Rightarrow> rows) = []"
proof -
  have "\<exists>e. collect_results (map (row_of_log ps) xs) = Inl e" if "r \<in> set xs" for ps xs
    using that
  proof (induction xs)
    case (Cons x xs)
    show ?case
    proof (cases "row_of_log ps x")
      case (Inr y)
      then have "x \<noteq> r" using assms(2) by (auto simp: row_of_log_def)
      then show ?thesis using Cons Inr by auto
    qed simp
  qed simp
  from this[OF assms(1), of "el_parse_segments elog"] obtain e where
    "collect_results (map (row_of_log (el_parse_segments elog))
       (take limit (sort_desc text_newer (filter (event_matches env f) (el_rows elog))))) = Inl e" by blast
  then show ?thesis by (simp add: read_event_rows_def split: option.split)
qed

section \<open>Handlers\<close>

text \<open>
  A time bound that is no RFC 3339 timestamp is refused with 400 before anything is read, and nothing else is: the
  timeline answers 400 exactly when a bound that was given does not parse.
\<close>

theorem malformed_bounds_are_refused:
  "(\<exists>body. operator_timeline env d q = Inl (400, body)) \<longleftrightarrow>
     (\<exists>v. (tf_since (tq_filter q) = Some v \<or> tf_until (tq_filter q) = Some v) \<and> \<not> oe_rfc3339_ok env v)"
  by (auto simp: operator_timeline_def validate_rfc3339_def opt_or_def split: option.splits)

text \<open>
  When the health check says ready, no event is lost: every event that the stats writer received is stored and sent to
  the subscribers or waits in the batch.
\<close>

theorem ready_daemon_lost_nothing:
  assumes "s = stats_writer cfg evs (writer_start d cb)" and "length (received evs) < 2 ^ 64" and "0 < wc_batch_size cfg"
    and "healthz env (ws_drop_count s) providers = (200, answer)"
  shows "mset (map se_trace_id (received evs)) = mset (map gr_trace_id (ws_stream s)) + mset (map se_trace_id (ws_batch s))"
proof -
  have "stats_accounted d (expired_rows cfg evs (writer_start d cb)) (received evs) s"
    unfolding assms(1) by (rule stats_accounted_start[OF assms(2)])
  moreover have "ws_drop_count s = 0" using assms(4) by (simp add: healthz_def Let_def split: if_splits)
  ultimately show ?thesis by (auto simp: stats_accounted_def)
qed

theorem ready_daemon_lost_nothing_witness:
  "let evs = [(sample_writer_env sample_db_env, Recv (sample_event ''a'' 3))];
       s = stats_writer (sample_config 2) evs (writer_start sample_db [])
   in mset (map se_trace_id (received evs)) = mset (map gr_trace_id (ws_stream s)) + mset (map se_trace_id (ws_batch s))"
proof -
  define evs where "evs = [(sample_writer_env sample_db_env, Recv (sample_event ''a'' 3))]"
  define s where "s = stats_writer (sample_config 2) evs (writer_start sample_db [])"
  have "ws_drop_count s = 0" by (simp add: s_def evs_def stats_writer_def writer_step_def writer_start_def sample_config_def)
  then have h: "healthz sample_db_env (ws_drop_count s) 0 = (200, snd (healthz sample_db_env (ws_drop_count s) 0))"
    by (simp add: healthz_def probe_writable_def sample_db_env_def)
  have "length (received evs) < 2 ^ 64" "0 < wc_batch_size (sample_config 2)" by (simp_all add: evs_def sample_config_def)
  from ready_daemon_lost_nothing[OF s_def this h] show ?thesis by (simp only: Let_def s_def evs_def)
qed

lemma operator_stream_order:
  "StreamClosed \<notin> set xs \<Longrightarrow> length (operator_stream to_json xs) = length (filter (\<lambda>r. case r of Received _ \<Rightarrow> True | _ \<Rightarrow> False) xs)"
  by (induction to_json xs rule: operator_stream.induct) auto

end
