(* ===== verification/Sandbox.thy ===== *)
theory Sandbox
  imports PolicyCompile AgentpactClient
begin

text \<open>
  The session sandbox: the PATH shim of \<^verbatim>\<open>cli/src/agents/shim.rs\<close> through which an agent is started, the launcher
  \<^verbatim>\<open>exec/src/main.rs\<close>, and the profile of \<^verbatim>\<open>exec/src/profile.rs\<close> that decides what a jailed session may write. The
  compiler from a profile to the arguments of the operating system's sandbox and its default protections belong to
  another crate and are arguments, as are the file system and the environment variables.
\<close>

section \<open>Paths\<close>

text \<open>\<open>Path::components\<close>: the root, then the names; empty names and dots in the middle do not count.\<close>

definition path_components :: "string \<Rightarrow> string list" where
  "path_components p =
     (let names = filter (\<lambda>c. c \<noteq> [] \<and> c \<noteq> ''.'') (split_on (CHR ''/'') p)
      in if prefix ''/'' p then ''/'' # names
         else if hd (split_on (CHR ''/'') p) = ''.'' then ''.'' # names else names)"

definition path_has_base :: "string \<Rightarrow> string \<Rightarrow> bool" where
  "path_has_base p base = prefix (path_components base) (path_components p)"

definition path_is_absolute :: "string \<Rightarrow> bool" where
  "path_is_absolute p = prefix ''/'' p"

section \<open>The profile\<close>

record WritableRoot =
  wr_root :: string
  wr_protected_metadata_names :: "string list"

datatype ReadAccess = FullDisk | ReadRoots "string list"

datatype NetworkPolicy = NetFull | NetOff

record SandboxSpec =
  sp_writable_roots :: "WritableRoot list"
  sp_read_access :: ReadAccess
  sp_network :: NetworkPolicy
  sp_allow_unix_sockets :: "string list"

text \<open>What the daemon is told of the jail.\<close>

datatype SandboxReads = ReadsFullDisk | ReadsRoots "string list"
datatype SandboxNetwork = SnFull | SnOff

record SandboxCapability =
  cap_writable_roots :: "string list"
  cap_readable :: SandboxReads
  cap_protected_names :: "string list"
  cap_network :: SandboxNetwork

record exec_env =
  xe_canonicalize :: "string \<Rightarrow> string option"
  xe_is_dir :: "string \<Rightarrow> bool"
  xe_tmpdir :: "string option"
  xe_home_var :: "string option"
  xe_current_dir :: "string + string"
  xe_macos :: bool
  xe_seatbelt_exists :: bool
  xe_exec_error :: "string option"
  xe_default_protections :: "string list"
  xe_read_spec :: "string \<Rightarrow> string + string"
  xe_parse_spec :: "string \<Rightarrow> string + SandboxSpec"
  xe_seatbelt_args :: "SandboxSpec \<Rightarrow> string list \<Rightarrow> string list"
  xe_client :: client_env
  xe_capability_json :: "SandboxCapability \<Rightarrow> json"

definition canonicalize_or_keep :: "exec_env \<Rightarrow> string \<Rightarrow> string" where
  "canonicalize_or_keep env p = unwrap_or (xe_canonicalize env p) p"

definition temp_roots :: "exec_env \<Rightarrow> string list" where
  "temp_roots env =
     (case xe_tmpdir env of Some t \<Rightarrow> if xe_is_dir env t then [t] else [] | None \<Rightarrow> []) @
     (if xe_is_dir env ''/tmp'' then [''/tmp''] else [])"

definition home_dir :: "exec_env \<Rightarrow> string option" where
  "home_dir env = opt_filter (\<lambda>p. p \<noteq> []) (xe_home_var env)"

definition agent_own_dirs :: "string \<Rightarrow> string \<Rightarrow> string list" where
  "agent_own_dirs home agent_id =
     (if agent_id = ''claude-code'' then [path_join home ''.claude'', path_join home ''.claude.json'']
      else if agent_id = ''codex-cli'' then [path_join home ''.codex'']
      else if agent_id = ''gemini-cli'' then [path_join home ''.gemini'']
      else if agent_id = ''cline'' then [path_join home ''.cline'']
      else if agent_id = ''opencode'' then
        [path_join (path_join home ''.config'') ''opencode'',
         path_join (path_join (path_join home ''.local'') ''share'') ''opencode'',
         path_join (path_join (path_join home ''.local'') ''state'') ''opencode'']
      else [])"

definition agent_carveout_dirs :: "exec_env \<Rightarrow> string \<Rightarrow> string list" where
  "agent_carveout_dirs env agent_id =
     (case home_dir env of
        None \<Rightarrow> []
      | Some home \<Rightarrow>
          agent_own_dirs home agent_id @
          [if xe_macos env then path_join (path_join home ''Library'') ''Caches'' else path_join home ''.cache''] @
          [path_join home ''.agentpact''])"

definition build_session_spec :: "exec_env \<Rightarrow> string \<Rightarrow> string \<Rightarrow> SandboxSpec" where
  "build_session_spec env workspace agent_id =
     (let workspace = canonicalize_or_keep env workspace;
          extra = filter (\<lambda>dir. \<not> path_has_base workspace dir)
                    (map (canonicalize_or_keep env) (temp_roots env @ agent_carveout_dirs env agent_id))
      in \<lparr>sp_writable_roots = \<lparr>wr_root = workspace, wr_protected_metadata_names = xe_default_protections env\<rparr> #
              map (\<lambda>dir. \<lparr>wr_root = dir, wr_protected_metadata_names = []\<rparr>) extra,
          sp_read_access = FullDisk, sp_network = NetFull, sp_allow_unix_sockets = []\<rparr>)"

text \<open>\<open>sort\<close> and \<open>dedup\<close>, which removes equal neighbours.\<close>

fun dedup :: "'a list \<Rightarrow> 'a list" where
  "dedup (x # y # zs) = (if x = y then dedup (y # zs) else x # dedup (y # zs))"
| "dedup xs = xs"

definition registration_roots :: "exec_env \<Rightarrow> string \<Rightarrow> string \<Rightarrow> string list" where
  "registration_roots env workspace agent_id =
     (let workspace_canon = canonicalize_or_keep env workspace;
          candidates = [workspace, workspace_canon] @
            concat (map (\<lambda>dir. [dir, canonicalize_or_keep env dir])
              (filter (\<lambda>dir. \<not> path_has_base workspace_canon (canonicalize_or_keep env dir))
                (temp_roots env @ agent_carveout_dirs env agent_id)))
      in dedup (sort_stable str_le (filter path_is_absolute candidates)))"

definition spec_summary :: "SandboxSpec \<Rightarrow> string" where
  "spec_summary spec =
     (let workspace = (case sp_writable_roots spec of [] \<Rightarrow> ''-'' | r # _ \<Rightarrow> wr_root r);
          net = (case sp_network spec of NetOff \<Rightarrow> ''off'' | NetFull \<Rightarrow> ''full'')
      in ''workspace-write '' @ workspace @ ''; '' @ display_nat (length (sp_writable_roots spec)) @ '' writable roots; net='' @ net)"

section \<open>The launcher\<close>

definition EXIT_USAGE :: int where "EXIT_USAGE = 64"
definition EXIT_BAD_SPEC :: int where "EXIT_BAD_SPEC = 65"
definition EXIT_SANDBOX_UNAVAILABLE :: int where "EXIT_SANDBOX_UNAVAILABLE = 69"
definition EXIT_EXEC_FAILED :: int where "EXIT_EXEC_FAILED = 71"

datatype SpecSource = SpecFile string | SpecSession "string option" string

record Invocation =
  iv_source :: SpecSource
  iv_print_policy :: bool
  iv_command :: "string list"

record arg_state =
  as_spec_file :: "string option"
  as_session :: bool
  as_workspace :: "string option"
  as_agent :: "string option"
  as_print_policy :: bool

fun parse_flags :: "string list \<Rightarrow> arg_state \<Rightarrow> string + arg_state \<times> string list" where
  "parse_flags [] st = Inl ''missing -- separator before command''"
| "parse_flags (arg # rest) st =
     (if arg = ''--spec-file'' then
        (case rest of [] \<Rightarrow> Inl ''--spec-file requires a path'' | p # rest' \<Rightarrow> parse_flags rest' (st\<lparr>as_spec_file := Some p\<rparr>))
      else if arg = ''--session'' then parse_flags rest (st\<lparr>as_session := True\<rparr>)
      else if arg = ''--workspace'' then
        (case rest of [] \<Rightarrow> Inl ''--workspace requires a path'' | p # rest' \<Rightarrow> parse_flags rest' (st\<lparr>as_workspace := Some p\<rparr>))
      else if arg = ''--agent'' then
        (case rest of [] \<Rightarrow> Inl ''--agent requires an id'' | a # rest' \<Rightarrow> parse_flags rest' (st\<lparr>as_agent := Some a\<rparr>))
      else if arg = ''--print-policy'' then parse_flags rest (st\<lparr>as_print_policy := True\<rparr>)
      else if arg = ''--'' then Inr (st, rest)
      else Inl (''unknown argument: '' @ arg))"

definition spec_source :: "arg_state \<Rightarrow> string + SpecSource" where
  "spec_source st =
     (case (as_spec_file st, as_session st) of
        (Some _, True) \<Rightarrow> Inl ''--spec-file and --session are mutually exclusive''
      | (Some path, False) \<Rightarrow>
          if as_workspace st \<noteq> None \<or> as_agent st \<noteq> None then Inl ''--workspace/--agent only apply with --session''
          else Inr (SpecFile path)
      | (None, True) \<Rightarrow>
          (case as_agent st of None \<Rightarrow> Inl ''--session requires --agent <id>'' | Some a \<Rightarrow> Inr (SpecSession (as_workspace st) a))
      | (None, False) \<Rightarrow> Inl ''missing --session or --spec-file'')"

definition no_flags :: arg_state where
  "no_flags = \<lparr>as_spec_file = None, as_session = False, as_workspace = None, as_agent = None, as_print_policy = False\<rparr>"

definition parse_args :: "string list \<Rightarrow> string + Invocation" where
  "parse_args args =
     (case parse_flags args no_flags of
        Inl e \<Rightarrow> Inl e
      | Inr (st, command) \<Rightarrow>
          if command = [] then Inl ''missing command after --''
          else map_sum id (\<lambda>source. \<lparr>iv_source = source, iv_print_policy = as_print_policy st, iv_command = command\<rparr>) (spec_source st))"

definition resolve_spec :: "exec_env \<Rightarrow> SpecSource \<Rightarrow> string + SandboxSpec \<times> string list" where
  "resolve_spec env source =
     (case source of
        SpecFile path \<Rightarrow>
          (case xe_read_spec env path of
             Inl err \<Rightarrow> Inl (''cannot read spec file '' @ path @ '': '' @ err)
           | Inr contents \<Rightarrow>
               (case xe_parse_spec env contents of
                  Inl err \<Rightarrow> Inl (''invalid spec in '' @ path @ '': '' @ err)
                | Inr spec \<Rightarrow> Inr (spec, map wr_root (sp_writable_roots spec))))
      | SpecSession workspace agent \<Rightarrow>
          (case (case workspace of Some dir \<Rightarrow> Inr dir | None \<Rightarrow> xe_current_dir env) of
             Inl err \<Rightarrow> Inl (''cannot resolve launch dir: '' @ err)
           | Inr dir \<Rightarrow> Inr (build_session_spec env dir agent, registration_roots env dir agent)))"

definition capability_from_spec :: "SandboxSpec \<Rightarrow> string list \<Rightarrow> SandboxCapability" where
  "capability_from_spec spec roots =
     \<lparr>cap_writable_roots = roots,
      cap_readable = (case sp_read_access spec of FullDisk \<Rightarrow> ReadsFullDisk | ReadRoots ps \<Rightarrow> ReadsRoots ps),
      cap_protected_names = dedup (sort_stable str_le (concat (map wr_protected_metadata_names (sp_writable_roots spec)))),
      cap_network = (case sp_network spec of NetFull \<Rightarrow> SnFull | NetOff \<Rightarrow> SnOff)\<rparr>"

datatype outcome =
  Exited int
| VersionPrinted
| Execed string "string list"

definition seatbelt_path :: string where "seatbelt_path = ''/usr/bin/sandbox-exec''"

text \<open>The run's outcome and whether the session was announced to the daemon.\<close>

definition register_session :: "exec_env \<Rightarrow> SandboxSpec \<Rightarrow> string list \<Rightarrow> bool" where
  "register_session env spec roots = register_jailed_session (xe_client env) (spec_summary spec) (xe_capability_json env (capability_from_spec spec roots))"

definition exec_sandboxed :: "exec_env \<Rightarrow> SandboxSpec \<Rightarrow> string list \<Rightarrow> string list \<Rightarrow> outcome \<times> bool option" where
  "exec_sandboxed env spec roots command =
     (if \<not> xe_macos env \<or> \<not> xe_seatbelt_exists env then (Exited EXIT_SANDBOX_UNAVAILABLE, None)
      else let registered = register_session env spec roots in
        (case xe_exec_error env of
           None \<Rightarrow> Execed seatbelt_path (xe_seatbelt_args env spec command)
         | Some _ \<Rightarrow> Exited EXIT_EXEC_FAILED, Some registered))"

definition exec_main :: "exec_env \<Rightarrow> string list \<Rightarrow> outcome \<times> bool option" where
  "exec_main env args =
     (if ''--version'' \<in> set args \<or> ''-V'' \<in> set args then (VersionPrinted, None)
      else case parse_args args of
        Inl _ \<Rightarrow> (Exited EXIT_USAGE, None)
      | Inr call \<Rightarrow>
          (case resolve_spec env (iv_source call) of
             Inl _ \<Rightarrow> (Exited EXIT_BAD_SPEC, None)
           | Inr (spec, roots) \<Rightarrow> exec_sandboxed env spec roots (iv_command call)))"

section \<open>The shim\<close>

definition binary_name :: "string \<Rightarrow> string option" where
  "binary_name agent_id =
     map_of [(''claude-code'', ''claude''), (''codex-cli'', ''codex''), (''gemini-cli'', ''gemini''), (''cline'', ''cline''),
             (''opencode'', ''opencode'')] agent_id"

text \<open>What the script does when it runs: it rebuilds PATH without its own directory, looks the agent up on it, and
  replaces itself by the launcher or by the agent.\<close>

record shim_env =
  sh_home :: string
  sh_path_dirs :: "string list"
  sh_has_binary :: "string \<Rightarrow> string \<Rightarrow> bool"
  sh_darwin :: bool
  sh_sandbox_exec :: bool

definition strip_shim_dir :: "shim_env \<Rightarrow> string list" where
  "strip_shim_dir env = filter (\<lambda>d. d \<noteq> sh_home env @ ''/.kyris/bin'') (sh_path_dirs env)"

definition command_v :: "shim_env \<Rightarrow> string list \<Rightarrow> string \<Rightarrow> string option" where
  "command_v env dirs binary = map_option (\<lambda>d. d @ ''/'' @ binary) (List.find (\<lambda>d. sh_has_binary env d binary) dirs)"

definition shim_run :: "shim_env \<Rightarrow> string \<Rightarrow> string \<Rightarrow> string list \<Rightarrow> int + string \<times> string list" where
  "shim_run env agent_id binary args =
     (let dirs = strip_shim_dir env in
      case command_v env dirs binary of
        None \<Rightarrow> Inl 127
      | Some real_bin \<Rightarrow>
          if sh_darwin env \<and> sh_sandbox_exec env
          then (case command_v env dirs ''kyris-exec'' of
                  Some launcher \<Rightarrow> Inr (launcher, [''--session'', ''--agent'', agent_id, ''--'', real_bin] @ args)
                | None \<Rightarrow> Inr (real_bin, args))
          else Inr (real_bin, args))"

definition shim_content_delivers_env :: "string \<Rightarrow> string \<Rightarrow> bool" where
  "shim_content_delivers_env contents agent_id = sublist (''.kyris/env/'' @ agent_id @ ''.sh'') contents"

section \<open>The jail\<close>

lemma set_dedup [simp]: "set (dedup xs) = set xs"
  by (induction xs rule: dedup.induct) auto

text \<open>The candidates for further roots, as given.\<close>

definition extra_dirs :: "exec_env \<Rightarrow> string \<Rightarrow> string \<Rightarrow> string list" where
  "extra_dirs env workspace agent_id =
     filter (\<lambda>dir. \<not> path_has_base (canonicalize_or_keep env workspace) (canonicalize_or_keep env dir))
       (temp_roots env @ agent_carveout_dirs env agent_id)"

lemma spec_roots:
  "map wr_root (sp_writable_roots (build_session_spec env workspace agent_id)) =
     canonicalize_or_keep env workspace # map (canonicalize_or_keep env) (extra_dirs env workspace agent_id)"
  by (simp add: build_session_spec_def extra_dirs_def Let_def comp_def filter_map)

lemma registered_roots:
  "set (registration_roots env workspace agent_id) =
     {p. path_is_absolute p \<and> (\<exists>dir \<in> set (workspace # extra_dirs env workspace agent_id). p = dir \<or> p = canonicalize_or_keep env dir)}"
  by (auto simp: registration_roots_def extra_dirs_def Let_def)

text \<open>
  C16. The workspace's protections hold whatever the agent and the launch directory are: the workspace is the one protected
  root, and no other writable root is the workspace or a directory above it. What the policy daemon is told agrees with
  the jail: every absolute root of the jail is registered, and every registered root leads to a root of the jail. (The
  canonical form of a path is its own canonical form, as in a file system that does not change meanwhile.)
\<close>
theorem jail_keeps_workspace_protected:
  assumes idem: "\<And>p q. xe_canonicalize env p = Some q \<Longrightarrow> xe_canonicalize env q = Some q"
    and spec: "spec = build_session_spec env workspace agent_id"
  shows "(\<exists>extra. sp_writable_roots spec =
      \<lparr>wr_root = canonicalize_or_keep env workspace, wr_protected_metadata_names = xe_default_protections env\<rparr> # extra \<and>
      (\<forall>r \<in> set extra. \<not> path_has_base (canonicalize_or_keep env workspace) (wr_root r))) \<and>
    (\<forall>r \<in> set (sp_writable_roots spec). path_is_absolute (wr_root r) \<longrightarrow> wr_root r \<in> set (registration_roots env workspace agent_id)) \<and>
    canonicalize_or_keep env ` set (registration_roots env workspace agent_id) \<subseteq> wr_root ` set (sp_writable_roots spec)"
proof -
  have canon: "canonicalize_or_keep env (canonicalize_or_keep env p) = canonicalize_or_keep env p" for p
    by (cases "xe_canonicalize env p") (auto simp: canonicalize_or_keep_def dest: idem)
  have roots: "wr_root ` set (sp_writable_roots spec) = canonicalize_or_keep env ` set (workspace # extra_dirs env workspace agent_id)"
    using arg_cong[OF spec_roots[of env workspace agent_id], of set] by (simp add: spec)
  have "\<exists>extra. sp_writable_roots spec =
      \<lparr>wr_root = canonicalize_or_keep env workspace, wr_protected_metadata_names = xe_default_protections env\<rparr> # extra \<and>
      (\<forall>r \<in> set extra. \<not> path_has_base (canonicalize_or_keep env workspace) (wr_root r))"
    by (auto simp: spec build_session_spec_def Let_def)
  moreover have "wr_root r \<in> set (registration_roots env workspace agent_id)"
    if "r \<in> set (sp_writable_roots spec)" "path_is_absolute (wr_root r)" for r
    using that roots unfolding registered_roots by blast
  moreover have "canonicalize_or_keep env ` set (registration_roots env workspace agent_id) \<subseteq> wr_root ` set (sp_writable_roots spec)"
    unfolding registered_roots roots by (auto simp: canon)
  ultimately show ?thesis by blast
qed

definition sample_exec_env :: "client_env \<Rightarrow> exec_env" where
  "sample_exec_env client = \<lparr>xe_canonicalize = (\<lambda>p. Some p), xe_is_dir = (\<lambda>p. p = ''/tmp''), xe_tmpdir = None, xe_home_var = Some ''/h'',
     xe_current_dir = Inr ''/tmp/w'', xe_macos = True, xe_seatbelt_exists = True, xe_exec_error = None,
     xe_default_protections = [''.git''], xe_read_spec = (\<lambda>_. Inl ''none''), xe_parse_spec = (\<lambda>_. Inl ''none''),
     xe_seatbelt_args = (\<lambda>_ c. ''-p'' # c), xe_client = client, xe_capability_json = (\<lambda>_. JNull)\<rparr>"

theorem jail_keeps_workspace_protected_witness:
  "\<exists>extra. sp_writable_roots (build_session_spec (sample_exec_env demo_env) ''/tmp/w'' ''cline'') =
      \<lparr>wr_root = ''/tmp/w'', wr_protected_metadata_names = [''.git'']\<rparr> # extra \<and> ''/tmp'' \<notin> wr_root ` set extra"
proof -
  have "path_has_base ''/tmp/w'' ''/tmp''" by (simp add: path_has_base_def path_components_def)
  then show ?thesis
    using jail_keeps_workspace_protected[of "sample_exec_env demo_env", OF _ refl, of "''/tmp/w''" "''cline''"]
    by (auto simp: sample_exec_env_def canonicalize_or_keep_def)
qed

section \<open>From the shim to the jail\<close>

lemma strip_shim_dir_removes: "sh_home env @ ''/.kyris/bin'' \<notin> set (strip_shim_dir env)"
  by (simp add: strip_shim_dir_def)

text \<open>The shim never starts the agent out of its own directory.\<close>

lemma shim_finds_real_binary:
  assumes "command_v env (strip_shim_dir env) binary = Some real_bin"
  shows "\<exists>d. real_bin = d @ ''/'' @ binary \<and> d \<noteq> sh_home env @ ''/.kyris/bin'' \<and> d \<in> set (sh_path_dirs env) \<and> sh_has_binary env d binary"
  using assms by (auto simp: command_v_def strip_shim_dir_def find_Some_iff dest: nth_mem)

lemma shim_args_parse:
  "parse_args ([''--session'', ''--agent'', agent_id, ''--'', real_bin] @ args) =
     Inr \<lparr>iv_source = SpecSession None agent_id, iv_print_policy = False, iv_command = real_bin # args\<rparr>"
  by (simp add: parse_args_def no_flags_def spec_source_def)

text \<open>
  Where the operating system's sandbox and the launcher exist, starting an agent by its name starts it in the jail: the
  shim hands the launcher the real binary (never itself) and the arguments, and the launcher runs exactly that command
  under the profile of the launch directory. It takes that no argument is one that the launcher answers itself.
\<close>

theorem shimmed_launch_is_jailed:
  assumes "sh_darwin sh" "sh_sandbox_exec sh" and "command_v sh (strip_shim_dir sh) ''kyris-exec'' = Some launcher"
    and "command_v sh (strip_shim_dir sh) binary = Some real_bin"
    and "xe_macos env" "xe_seatbelt_exists env" "xe_exec_error env = None" "xe_current_dir env = Inr cwd"
    and "''--version'' \<notin> set (agent_id # real_bin # args)" "''-V'' \<notin> set (agent_id # real_bin # args)"
  shows "\<exists>argv registered. shim_run sh agent_id binary args = Inr (launcher, argv) \<and>
    exec_main env argv = (Execed seatbelt_path (xe_seatbelt_args env (build_session_spec env cwd agent_id) (real_bin # args)), Some registered) \<and>
    (\<exists>d. real_bin = d @ ''/'' @ binary \<and> d \<noteq> sh_home sh @ ''/.kyris/bin'')"
proof -
  have "shim_run sh agent_id binary args = Inr (launcher, [''--session'', ''--agent'', agent_id, ''--'', real_bin] @ args)"
    using assms(1-4) by (simp add: shim_run_def)
  moreover have "exec_main env ([''--session'', ''--agent'', agent_id, ''--'', real_bin] @ args) =
      (Execed seatbelt_path (xe_seatbelt_args env (build_session_spec env cwd agent_id) (real_bin # args)),
       Some (register_session env (build_session_spec env cwd agent_id) (registration_roots env cwd agent_id)))"
    using assms(5-10) shim_args_parse[of agent_id real_bin args]
    by (simp add: exec_main_def resolve_spec_def exec_sandboxed_def Let_def)
  ultimately show ?thesis using shim_finds_real_binary[OF assms(4)] by blast
qed

definition sample_shim_env :: shim_env where
  "sample_shim_env = \<lparr>sh_home = ''/h'', sh_path_dirs = [''/h/.kyris/bin'', ''/usr/bin''], sh_has_binary = (\<lambda>_ _. True), sh_darwin = True,
     sh_sandbox_exec = True\<rparr>"

theorem shimmed_launch_is_jailed_witness:
  "\<exists>argv registered. shim_run sample_shim_env ''cline'' ''cline'' [''chat''] = Inr (''/usr/bin/kyris-exec'', argv) \<and>
     exec_main (sample_exec_env demo_env) argv = (Execed seatbelt_path [''-p'', ''/usr/bin/cline'', ''chat''], Some registered)"
  using shimmed_launch_is_jailed[of sample_shim_env "''/usr/bin/kyris-exec''" "''cline''" "''/usr/bin/cline''"
      "sample_exec_env demo_env" "''/tmp/w''" "''cline''" "[''chat'']"]
  by (simp add: sample_shim_env_def sample_exec_env_def strip_shim_dir_def command_v_def)

text \<open>An agent that is asked for its version is not started: the launcher looks for the flag among the arguments of the
  command too.\<close>

lemma version_flag_of_agent_is_swallowed:
  assumes "sh_darwin sh" "sh_sandbox_exec sh" and "command_v sh (strip_shim_dir sh) ''kyris-exec'' = Some launcher"
    and "command_v sh (strip_shim_dir sh) binary = Some real_bin"
  shows "\<exists>argv. shim_run sh agent_id binary [''--version''] = Inr (launcher, argv) \<and> fst (exec_main env argv) = VersionPrinted"
  using assms by (simp add: shim_run_def exec_main_def)

end
