(* ===== verification/Helper.thy ===== *)
theory Helper
  imports Json
begin

text \<open>
  The shell helper \<^verbatim>\<open>hooks/helper/src/main.rs\<close>, which the preexec hooks of the governed shells call for every
  command, with its ancestor walk \<^verbatim>\<open>hooks/helper/src/ppid_chain.rs\<close> and its own calendar. The policy daemon is what
  answers on the socket; the environment gives it, the clock, the process table and the environment variables. What a
  call does besides its exit code is the list of its effects.
\<close>

section \<open>The calendar\<close>

definition days_to_ymd :: "nat \<Rightarrow> nat \<times> nat \<times> nat" where
  "days_to_ymd day_count =
     (let era = day_count div 146097;
          doe = day_count - era * 146097;
          yoe = (doe - doe div 1460 + doe div 36524 - doe div 146096) div 365;
          y = yoe + era * 400;
          doy = doe - (365 * yoe + yoe div 4 - yoe div 100);
          mp = (5 * doy + 2) div 153;
          d = doy - (153 * mp + 2) div 5 + 1;
          m = (if mp < 10 then mp + 3 else mp - 9);
          y = (if m \<le> 2 then y + 1 else y)
      in (y, m, d))"

definition pad :: "nat \<Rightarrow> nat \<Rightarrow> string" where
  "pad w n = replicate (w - length (display_nat n)) (CHR ''0'') @ display_nat n"

definition format_utc_timestamp :: "nat \<Rightarrow> string" where
  "format_utc_timestamp epoch_secs =
     (let days = epoch_secs div 86400;
          day_secs = epoch_secs mod 86400;
          h = day_secs div 3600;
          m = (day_secs mod 3600) div 60;
          s = day_secs mod 60;
          (year, month, day) = days_to_ymd (days + 719468)
      in pad 4 year @ ''-'' @ pad 2 month @ ''-'' @ pad 2 day @ ''T'' @ pad 2 h @ '':'' @ pad 2 m @ '':'' @ pad 2 s @ ''Z'')"

section \<open>The ancestors\<close>

definition MAX_CHAIN_LEN :: nat where "MAX_CHAIN_LEN = 32"

function chain_loop :: "(nat \<Rightarrow> nat option) \<Rightarrow> nat option \<Rightarrow> nat list \<Rightarrow> nat list" where
  "chain_loop parent_of cur chain =
     (case cur of
        None \<Rightarrow> chain
      | Some pid \<Rightarrow>
          if pid \<le> 1 \<or> length chain \<ge> MAX_CHAIN_LEN then chain
          else if pid \<in> set chain then chain
          else chain_loop parent_of (parent_of pid) (chain @ [pid]))"
  by pat_completeness auto
termination
  by (relation "measure (\<lambda>(_, _, chain). MAX_CHAIN_LEN - length chain)") auto

declare chain_loop.simps [simp del]

definition parse_u32 :: "string \<Rightarrow> nat option" where
  "parse_u32 s = opt_filter (\<lambda>n. n < 2 ^ 32) (parse_usize s)"

fun ppid_of_status :: "string list \<Rightarrow> nat option" where
  "ppid_of_status [] = None"
| "ppid_of_status (line # ls) =
     (case strip_prefix ''PPid:'' line of Some rest \<Rightarrow> parse_u32 (trim rest) | None \<Rightarrow> ppid_of_status ls)"

definition parent_of_via_proc :: "(nat \<Rightarrow> string option) \<Rightarrow> nat \<Rightarrow> nat option" where
  "parent_of_via_proc proc_status pid = Option.bind (proc_status pid) (\<lambda>content. ppid_of_status (lines content))"

text \<open>On Linux the helper's own parent comes from the same file; a number beyond \<open>i32\<close> counts as none.\<close>

definition direct_parent :: "(nat \<Rightarrow> string option) \<Rightarrow> nat \<Rightarrow> nat option" where
  "direct_parent proc_status own =
     (let ppid = (case parent_of_via_proc proc_status own of Some p \<Rightarrow> if p < 2 ^ 31 then p else 0 | None \<Rightarrow> 0)
      in if ppid > 0 then Some ppid else None)"

definition current_chain :: "(nat \<Rightarrow> string option) \<Rightarrow> nat \<Rightarrow> nat list" where
  "current_chain proc_status own = chain_loop (parent_of_via_proc proc_status) (direct_parent proc_status own) []"

section \<open>The socket\<close>

definition trim_socket_message :: "string \<Rightarrow> string" where
  "trim_socket_message bytes = trim_end_matches [nl, cr] bytes"

record helper_env =
  he_exchange :: "string \<Rightarrow> json \<Rightarrow> string + string"
  he_parse :: "string \<Rightarrow> json option"
  he_print :: "json \<Rightarrow> string"
  he_exec_token :: "string option"
  he_proc_status :: "nat \<Rightarrow> string option"
  he_pid :: nat
  he_nanos :: nat
  he_daemon_state :: "string \<Rightarrow> string option"
  he_sock_var :: "string option"
  he_home_var :: "string option"

definition send_request :: "helper_env \<Rightarrow> string \<Rightarrow> json \<Rightarrow> string + json" where
  "send_request env socket_path request =
     (case he_exchange env socket_path request of
        Inl e \<Rightarrow> Inl e
      | Inr bytes \<Rightarrow> (case he_parse env (trim_socket_message bytes) of Some v \<Rightarrow> Inr v | None \<Rightarrow> Inl ''invalid data''))"

definition default_socket :: "helper_env \<Rightarrow> string" where
  "default_socket env =
     (case he_sock_var env of Some s \<Rightarrow> s | None \<Rightarrow> unwrap_or (he_home_var env) [] @ ''/.agentpact/agentpact.sock'')"

definition generate_id :: "helper_env \<Rightarrow> string" where
  "generate_id env = ''kyris-'' @ display_nat (he_nanos env)"

definition PROTOCOL_VERSION :: nat where "PROTOCOL_VERSION = 1"

definition read_daemon_state :: "helper_env \<Rightarrow> string \<Rightarrow> json option" where
  "read_daemon_state env socket_path = Option.bind (he_daemon_state env socket_path) (he_parse env)"

definition check_protocol_version :: "helper_env \<Rightarrow> string \<Rightarrow> string option" where
  "check_protocol_version env socket_path =
     (case Option.bind (read_daemon_state env socket_path) (get_u64 ''protocol_version'') of
        None \<Rightarrow> None
      | Some version \<Rightarrow>
          if version = PROTOCOL_VERSION then None
          else if version > PROTOCOL_VERSION
          then Some (''agentpactd protocol version '' @ display_nat version @ '' is newer than kyris-hook expects ('' @
                     display_nat PROTOCOL_VERSION @ ''). Upgrade kyris: brew upgrade kyris'')
          else Some (''agentpactd protocol version '' @ display_nat version @ '' is older than kyris-hook expects ('' @
                     display_nat PROTOCOL_VERSION @ ''). Upgrade agentpact: brew upgrade agentpact''))"

section \<open>Commands\<close>

datatype effect = Sent string json | LogError string | FailOpenEvent json | Stdout string

datatype CheckResponse =
  CAllow
| CDeny "string option"
| CAsk string string "string option"
| CInvalid string

definition parse_check_response :: "json \<Rightarrow> CheckResponse" where
  "parse_check_response response =
     (case get_str ''code'' response of
        None \<Rightarrow> CInvalid ''invalid response from agentpactd: missing code''
      | Some code \<Rightarrow>
          if code = ''PACT_OK'' then CAllow
          else if code = ''PACT_DENIED'' then CDeny (get_str ''reason'' response)
          else if code = ''PACT_ASK'' then
            (case opt_filter (\<lambda>v. v \<noteq> []) (get_str ''approval_id'' response) of
               None \<Rightarrow> CInvalid ''invalid PACT_ASK response from agentpactd: missing approval_id''
             | Some approval_id \<Rightarrow>
                 (case opt_filter (\<lambda>v. v \<noteq> []) (get_str ''approval_token'' response) of
                    None \<Rightarrow> CInvalid ''invalid PACT_ASK response from agentpactd: missing approval_token''
                  | Some approval_token \<Rightarrow>
                      CAsk approval_id approval_token
                        (map_option display_nat (Option.bind (Option.bind (get ''extensions'' response) (get ''circuit_breaker''))
                           (get_u64 ''count'')))))
          else if code \<in> {''PACT_POLICY_ERROR'', ''PACT_PROTOCOL_ERROR'', ''PACT_CAP_EXCEEDED''} then
            (let err = unwrap_or (get_str ''error'' response) ''unknown error''
             in CDeny (Some (case get_str ''recovery_hint'' response of Some h \<Rightarrow> err @ '' ('' @ h @ '')'' | None \<Rightarrow> err)))
          else CInvalid (''unexpected response code from agentpactd: '' @ code))"

record check_args =
  ca_command :: string
  ca_cwd :: string
  ca_socket :: string

fun check_args_loop :: "string list \<Rightarrow> check_args \<Rightarrow> check_args" where
  "check_args_loop [] st = st"
| "check_args_loop [a] st = (if ca_command st = [] then st\<lparr>ca_command := a\<rparr> else st)"
| "check_args_loop (a # b # rest) st =
     (if a = ''--cwd'' then check_args_loop rest (st\<lparr>ca_cwd := b\<rparr>)
      else if a = ''--socket'' then check_args_loop rest (st\<lparr>ca_socket := b\<rparr>)
      else check_args_loop (b # rest) (if ca_command st = [] then st\<lparr>ca_command := a\<rparr> else st))"

definition parse_check_args :: "helper_env \<Rightarrow> string list \<Rightarrow> check_args" where
  "parse_check_args env args = check_args_loop args \<lparr>ca_command = [], ca_cwd = [], ca_socket = default_socket env\<rparr>"

definition MAX_COMMAND_LENGTH_CEILING :: nat where "MAX_COMMAND_LENGTH_CEILING = 10240"

definition check_request :: "helper_env \<Rightarrow> check_args \<Rightarrow> json" where
  "check_request env a =
     (let chain = current_chain (he_proc_status env) (he_pid env)
      in JObj ([(''id'', JStr (generate_id env)), (''method'', JStr ''permission.request''), (''action'', JStr ''execute''),
                (''detail'', JStr (ca_command a)), (''context'', JObj [(''working_dir'', JStr (ca_cwd a))])] @
               (case opt_filter (\<lambda>t. t \<noteq> []) (he_exec_token env) of Some t \<Rightarrow> [(''exec_token'', JStr t)] | None \<Rightarrow> []) @
               (if chain \<noteq> [] then [(''ppid_chain'', JArr (map (\<lambda>p. JInt (int p)) chain))] else [])))"

definition void_request :: "helper_env \<Rightarrow> string \<Rightarrow> json" where
  "void_request env approval_token =
     JObj [(''id'', JStr (generate_id env)), (''method'', JStr ''permission.respond''), (''approval_token'', JStr approval_token),
           (''response'', JStr ''voided'')]"

definition fail_open_event :: "helper_env \<Rightarrow> string \<Rightarrow> string \<Rightarrow> string \<Rightarrow> json" where
  "fail_open_event env action detail working_dir =
     JObj [(''id'', JStr (''kyris-'' @ display_nat (he_nanos env))),
           (''timestamp'', JStr (format_utc_timestamp (he_nanos env div 1000000000))), (''agent'', JStr ''unknown''),
           (''action'', JStr action), (''detail'', JStr detail), (''decision'', JStr ''auto''), (''working_dir'', JStr working_dir),
           (''attribution_method'', JStr ''unknown''), (''mode'', JStr ''log''), (''event_kind'', JStr ''action''),
           (''coverage_state'', JStr ''unknown''), (''source'', JStr ''fail-open'')]"

definition tab :: char where "tab = CHR 9"

definition cmd_check :: "helper_env \<Rightarrow> string list \<Rightarrow> nat \<times> effect list" where
  "cmd_check env args =
     (let a = parse_check_args env args in
      if length (ca_command a) > MAX_COMMAND_LENGTH_CEILING then (1, [])
      else case check_protocol_version env (ca_socket a) of
        Some msg \<Rightarrow> (10, [LogError msg])
      | None \<Rightarrow>
          let request = check_request env a; sent = [Sent (ca_socket a) request] in
          (case send_request env (ca_socket a) request of
             Inl _ \<Rightarrow> (11, sent @ [FailOpenEvent (fail_open_event env ''execute'' (ca_command a) (ca_cwd a))])
           | Inr response \<Rightarrow>
               let traced_id = unwrap_or (get_str ''id'' response) (generate_id env) in
               (case parse_check_response response of
                  CAllow \<Rightarrow> (0, sent)
                | CDeny reason \<Rightarrow>
                    (1, sent @ [LogError (''denied (agentpactd id='' @ traced_id @ ''): '' @ unwrap_or reason ''no reason'')])
                | CAsk approval_id approval_token breaker_count \<Rightarrow>
                    (case breaker_count of
                       Some n \<Rightarrow> (3, sent @ [Stdout (approval_id @ [tab] @ approval_token @ [tab] @ n)])
                     | None \<Rightarrow> (2, sent @ [Sent (ca_socket a) (void_request env approval_token)]))
                | CInvalid reason \<Rightarrow> (1, sent @ [LogError (''(agentpactd id='' @ traced_id @ ''): '' @ reason)]))))"

record respond_args =
  ra_socket :: string
  ra_req_id :: string
  ra_token :: string
  ra_response :: string

fun respond_args_loop :: "string list \<Rightarrow> respond_args \<Rightarrow> respond_args" where
  "respond_args_loop (a # b # rest) st =
     (if a = ''--socket'' then respond_args_loop rest (st\<lparr>ra_socket := b\<rparr>)
      else if a = ''--req-id'' then respond_args_loop rest (st\<lparr>ra_req_id := b\<rparr>)
      else if a = ''--token'' then respond_args_loop rest (st\<lparr>ra_token := b\<rparr>)
      else if a = ''--response'' then respond_args_loop rest (st\<lparr>ra_response := b\<rparr>)
      else respond_args_loop (b # rest) st)"
| "respond_args_loop _ st = st"

definition respond_request :: "respond_args \<Rightarrow> json" where
  "respond_request a =
     JObj [(''id'', JStr (ra_req_id a)), (''method'', JStr ''permission.respond''), (''approval_token'', JStr (ra_token a)),
           (''response'', JStr (ra_response a))]"

definition cmd_respond :: "helper_env \<Rightarrow> string list \<Rightarrow> nat \<times> effect list" where
  "cmd_respond env args =
     (let a = respond_args_loop args \<lparr>ra_socket = default_socket env, ra_req_id = [], ra_token = [], ra_response = []\<rparr>;
          request = respond_request a
      in (case send_request env (ra_socket a) request of
            Inr resp \<Rightarrow> if as_str (idx resp ''code'') = Some ''PACT_OK'' then 0 else 1
          | Inl _ \<Rightarrow> 10, [Sent (ra_socket a) request]))"

definition cmd_send :: "helper_env \<Rightarrow> string list \<Rightarrow> nat \<times> effect list" where
  "cmd_send env args =
     (case args of
        socket_path # message # _ \<Rightarrow>
          (case he_parse env message of
             None \<Rightarrow> (1, [])
           | Some v \<Rightarrow>
               (case send_request env socket_path v of
                  Inr resp \<Rightarrow> (0, [Sent socket_path v, Stdout (he_print env resp @ [nl])])
                | Inl _ \<Rightarrow> (10, [Sent socket_path v])))
      | _ \<Rightarrow> (1, []))"

definition helper_main :: "helper_env \<Rightarrow> string list \<Rightarrow> nat \<times> effect list" where
  "helper_main env args =
     (case args of
        command # rest \<Rightarrow>
          if command = ''check'' then cmd_check env rest
          else if command = ''respond'' then cmd_respond env rest
          else if command = ''send'' then cmd_send env rest
          else (1, [])
      | [] \<Rightarrow> (1, []))"

section \<open>The calendar is the Gregorian one\<close>

definition is_leap :: "nat \<Rightarrow> bool" where
  "is_leap y \<longleftrightarrow> y mod 4 = 0 \<and> y mod 100 \<noteq> 0 \<or> y mod 400 = 0"

definition month_length :: "nat \<Rightarrow> nat \<Rightarrow> nat" where
  "month_length y m = (if m = 2 then if is_leap y then 29 else 28 else if m \<in> {4, 6, 9, 11} then 30 else 31)"

fun next_date :: "nat \<times> nat \<times> nat \<Rightarrow> nat \<times> nat \<times> nat" where
  "next_date (y, m, d) =
     (if d < month_length y m then (y, m, d + 1) else if m < 12 then (y, m + 1, 1) else (y + 1, 1, 1))"

text \<open>The computation in its parts: the year from March of the day of the era, and the date from the day of that year.\<close>

definition year_of :: "nat \<Rightarrow> nat" where
  "year_of doe = (doe - doe div 1460 + doe div 36524 - doe div 146096) div 365"

definition year_start :: "nat \<Rightarrow> nat" where
  "year_start y = 365 * y + y div 4 - y div 100"

definition date_of :: "nat \<Rightarrow> nat \<Rightarrow> nat \<times> nat \<times> nat" where
  "date_of y doy =
     (let mp = (5 * doy + 2) div 153;
          d = doy - (153 * mp + 2) div 5 + 1;
          m = (if mp < 10 then mp + 3 else mp - 9)
      in (if m \<le> 2 then y + 1 else y, m, d))"

lemma days_to_ymd_parts:
  "days_to_ymd n =
     date_of (year_of (n mod 146097) + (n div 146097) * 400) (n mod 146097 - year_start (year_of (n mod 146097)))"
  unfolding days_to_ymd_def year_of_def year_start_def date_of_def Let_def minus_div_mult_eq_mod ..

text \<open>A day of an era of 400 years: a century, four years in it, a year and a day in that.\<close>

definition era_day :: "nat \<Rightarrow> nat \<Rightarrow> nat \<Rightarrow> nat \<Rightarrow> nat" where
  "era_day c q i doy = 36524 * c + 1461 * q + 365 * i + doy"

definition era_ok :: "nat \<Rightarrow> nat \<Rightarrow> nat \<Rightarrow> nat \<Rightarrow> bool" where
  "era_ok c q i doy \<longleftrightarrow> c \<le> 3 \<and> q \<le> 24 \<and> i \<le> 3 \<and> (doy < 365 \<or> doy = 365 \<and> i = 3 \<and> (q < 24 \<or> c = 3))"

lemma era_day_exists:
  assumes "n < 146097"
  obtains c q i doy where "n = era_day c q i doy" "era_ok c q i doy"
proof -
  define c where "c = min 3 (n div 36524)"
  define r where "r = n - 36524 * c"
  define q where "q = min 24 (r div 1461)"
  define s where "s = r - 1461 * q"
  define i where "i = min 3 (s div 365)"
  define doy where "doy = s - 365 * i"
  have r: "n = 36524 * c + r" "c \<le> 3" "r < 36524 \<or> r = 36524 \<and> c = 3" using assms by (auto simp: c_def r_def min_def)
  have s: "r = 1461 * q + s" "q \<le> 24" "s < 1461" "q = 24 \<Longrightarrow> s < 1460 \<or> c = 3"
    using r(3) by (auto simp: q_def s_def min_def)
  have i: "s = 365 * i + doy" "i \<le> 3" "doy < 365 \<or> doy = 365 \<and> i = 3" using s(3) by (auto simp: i_def doy_def min_def)
  have "era_ok c q i doy" unfolding era_ok_def using r s i by auto
  moreover have "n = era_day c q i doy" using r(1) s(1) i(1) by (simp add: era_day_def)
  ultimately show thesis using that by blast
qed

lemma year_of_era_day:
  assumes "era_ok c q i doy"
  shows "year_of (era_day c q i doy) = 100 * c + 4 * q + i"
proof -
  let ?n = "era_day c q i doy"
  let ?t = "24 * c + q + 365 * i + doy" and ?s = "1461 * q + 365 * i + doy"
  have ok: "c \<le> 3" "q \<le> 24" "i \<le> 3" "doy < 365 \<or> doy = 365 \<and> i = 3 \<and> (q < 24 \<or> c = 3)"
    using assms by (auto simp: era_ok_def)
  have "?n = ?t + 1460 * (25 * c + q)" by (simp add: era_day_def)
  then have a: "?n div 1460 = 25 * c + q + ?t div 1460" by (simp only: div_mult_self2) 
  have "?n = ?s + 36524 * c" by (simp add: era_day_def)
  then have b: "?n div 36524 = c + ?s div 36524" by (simp only: div_mult_self2)
  have t: "?t div 1460 = (if ?t < 1460 then 0 else 1)" using ok by auto
  have s: "?s div 36524 = (if ?s < 36524 then 0 else 1)" using ok by auto
  have e: "?n div 146096 = (if ?s < 36524 then 0 else 1)" using ok by (auto simp: era_day_def)
  have "?n - ?n div 1460 + ?n div 36524 - ?n div 146096 = 365 * (100 * c + 4 * q + i) + (doy - ?t div 1460)"
    unfolding a b e s using ok t by (auto simp: era_day_def)
  moreover have "doy - ?t div 1460 < 365" using ok unfolding t by auto
  ultimately show ?thesis unfolding year_of_def by (simp only: div_mult_self4 div_less add_0_right)
qed

lemma year_start_era:
  assumes "era_ok c q i doy"
  shows "year_start (100 * c + 4 * q + i) = 36524 * c + 1461 * q + 365 * i"
proof -
  have ok: "i < 4" "4 * q + i < 100" using assms by (auto simp: era_ok_def)
  have "(100 * c + 4 * q + i) div 4 = 25 * c + q" "(100 * c + 4 * q + i) div 100 = c" using ok by auto
  then show ?thesis by (simp add: year_start_def)
qed

lemma days_to_ymd_era:
  assumes "era_ok c q i doy"
  shows "days_to_ymd (era * 146097 + era_day c q i doy) = date_of (100 * c + 4 * q + i + era * 400) doy"
proof -
  have "era_day c q i doy < 146097" using assms by (auto simp: era_ok_def era_day_def)
  then show ?thesis using year_of_era_day[OF assms] year_start_era[OF assms] by (simp add: days_to_ymd_parts) (simp add: era_day_def)
qed

text \<open>The year from March of year y has the February of year y + 1.\<close>

lemma leap_of_era:
  assumes "c \<le> 3" "q \<le> 24" "i \<le> 3"
  shows "is_leap (Suc (100 * c + 4 * q + i + era * 400)) \<longleftrightarrow> i = 3 \<and> (q < 24 \<or> c = 3)"
proof -
  let ?k = "Suc (100 * c + 4 * q + i)"
  have k: "?k \<le> 400" using assms by auto
  have m: "Suc (100 * c + 4 * q + i + era * 400) mod d = ?k mod d" if "d dvd 400" for d
  proof -
    have "Suc (100 * c + 4 * q + i + era * 400) = ?k + d * (400 div d * era)" using that by (auto simp: dvd_def)
    then show ?thesis by (simp only: mod_mult_self2)
  qed
  have "?k = (i + 1) + 4 * (25 * c + q)" by simp
  then have "?k mod 4 = (i + 1) mod 4" by (simp only: mod_mult_self2)
  then have "?k mod 4 = 0 \<longleftrightarrow> i = 3" using assms(3) by (cases "i = 3") auto
  moreover have "?k mod 100 = 0 \<longleftrightarrow> i = 3 \<and> q = 24"
  proof -
    have "?k = (4 * q + i + 1) + 100 * c" by simp
    then have "?k mod 100 = (4 * q + i + 1) mod 100" by (simp only: mod_mult_self2)
    moreover have "(4 * q + i + 1) mod 100 = (if 4 * q + i + 1 = 100 then 0 else 4 * q + i + 1)" using assms(2,3) by auto
    ultimately show ?thesis using assms(2,3) by auto
  qed
  moreover have "?k mod 400 = 0 \<longleftrightarrow> i = 3 \<and> q = 24 \<and> c = 3" 
  proof -
    have "c = 3 \<and> q = 24 \<and> i = 3" if "?k = 400" using that assms by (intro conjI) linarith+
    then show ?thesis using k by (cases "?k = 400") auto
  qed
  ultimately show ?thesis using m[of 4] m[of 100] m[of 400] assms(2) by (auto simp: is_leap_def)
qed

text \<open>The month, counted from March, by the day of the year.\<close>

definition month_start :: "nat \<Rightarrow> nat" where
  "month_start k = (153 * k + 2) div 5"

lemma month_of_day: "(5 * doy + 2) div 153 = k \<longleftrightarrow> month_start k \<le> doy \<and> doy < month_start (Suc k)"
proof -
  have "(5 * doy + 2) div 153 = k \<longleftrightarrow> 153 * k \<le> 5 * doy + 2 \<and> 5 * doy + 2 < 153 * Suc k"
    by (auto simp: div_nat_eqI)
  then show ?thesis unfolding month_start_def by auto
qed

lemma date_of_month:
  assumes "k \<le> 11" "j < month_start (Suc k) - month_start k"
  shows "date_of y (month_start k + j) = (if k < 10 then (y, k + 3, j + 1) else (y + 1, k - 9, j + 1))"
proof -
  have "(5 * (month_start k + j) + 2) div 153 = k" unfolding month_of_day using assms(2) by auto
  then show ?thesis using assms(1) by (auto simp: date_of_def Let_def month_start_def)
qed

definition march_year_length :: "nat \<Rightarrow> nat" where
  "march_year_length y = (if is_leap (Suc y) then 366 else 365)"

lemma month_starts:
  "map month_start [0, 1, 2, 3, 4, 5, 6, 7, 8, 9, 10, 11, 12] = [0, 31, 61, 92, 122, 153, 184, 214, 245, 275, 306, 337, 367]"
  by (simp add: month_start_def)


lemma month_lengths:
  assumes "k < 11"
  shows "month_start (Suc k) - month_start k = month_length (if k < 10 then y else y + 1) (if k < 10 then k + 3 else k - 9)"
proof -
  have "k = 0 \<or> k = 1 \<or> k = 2 \<or> k = 3 \<or> k = 4 \<or> k = 5 \<or> k = 6 \<or> k = 7 \<or> k = 8 \<or> k = 9 \<or> k = 10" using assms by presburger
  then show ?thesis by (elim disjE) (simp_all add: month_start_def month_length_def)
qed

lemma month_start_mono: "month_start k < month_start (Suc k)"
  by (simp add: month_start_def)

lemma day_in_month:
  assumes "doy < 367"
  obtains k j where "k \<le> 11" "doy = month_start k + j" "j < month_start (Suc k) - month_start k"
proof -
  define k where "k = (5 * doy + 2) div 153"
  then have k: "month_start k \<le> doy" "doy < month_start (Suc k)" using month_of_day[of doy k] by simp_all
  have "k \<le> 11" using assms unfolding k_def by auto
  then show thesis using that[of k "doy - month_start k"] k by auto
qed

lemma date_step:
  assumes "Suc doy < march_year_length y"
  shows "date_of y (Suc doy) = next_date (date_of y doy)"
proof -
  have "doy < 367" using assms by (simp add: march_year_length_def split: if_splits)
  then obtain k j where kj: "k \<le> 11" "doy = month_start k + j" "j < month_start (Suc k) - month_start k" by (rule day_in_month)
  show ?thesis
  proof (cases "k = 11")
    case True
    then have "j + 1 < month_length (Suc y) 2" using assms kj(2)
      by (auto simp: march_year_length_def month_length_def month_start_def split: if_splits)
    then have "Suc j < month_start (Suc k) - month_start k" using True by (simp add: month_start_def month_length_def split: if_splits)
    then show ?thesis using date_of_month[OF kj(1,3), of y] date_of_month[OF kj(1), of "Suc j" y] kj(2) True \<open>j + 1 < month_length (Suc y) 2\<close>
      by simp
  next
    case False
    then have k: "k < 11" "Suc k \<le> 11" using kj(1) by auto
    note len = month_lengths[OF k(1), of y]
    show ?thesis
    proof (cases "Suc j < month_start (Suc k) - month_start k")
      case True
      then show ?thesis using date_of_month[OF kj(1,3), of y] date_of_month[OF kj(1), of "Suc j" y] kj(2) len by (auto split: if_splits)
    next
      case False
      then have j: "Suc j = month_start (Suc k) - month_start k" using kj(3) by simp
      then have "Suc doy = month_start (Suc k) + 0" using kj(2) month_start_mono[of k] by simp
      moreover have "date_of y (month_start (Suc k) + 0) = (if Suc k < 10 then (y, Suc k + 3, 1) else (y + 1, Suc k - 9, 1))"
        using date_of_month[OF k(2), of 0 y] month_start_mono[of "Suc k"] by simp
      moreover have "\<not> Suc j < month_length (if k < 10 then y else y + 1) (if k < 10 then k + 3 else k - 9)" using j len by simp
      ultimately show ?thesis using date_of_month[OF kj(1,3), of y] kj(2) k by (cases "k = 9") (auto split: if_splits)
    qed
  qed
qed

lemma date_year_end: "next_date (date_of y (march_year_length y - 1)) = date_of (Suc y) 0"
proof -
  have "date_of (Suc y) 0 = (Suc y, 3, 1)" by (simp add: date_of_def)
  moreover have "date_of y (march_year_length y - 1) = (Suc y, 2, month_length (Suc y) 2)"
    by (simp add: date_of_def march_year_length_def month_length_def)
  ultimately show ?thesis by simp
qed

lemma era_ok_iff: "c \<le> 3 \<Longrightarrow> q \<le> 24 \<Longrightarrow> i \<le> 3 \<Longrightarrow> era_ok c q i doy \<longleftrightarrow> doy < march_year_length (100 * c + 4 * q + i + era * 400)"
  using leap_of_era[of c q i era] by (auto simp: era_ok_def march_year_length_def)

lemma days_to_ymd_Suc: "days_to_ymd (Suc n) = next_date (days_to_ymd n)"
proof -
  define era where "era = n div 146097"
  obtain c q i doy where n: "n mod 146097 = era_day c q i doy" and ok: "era_ok c q i doy" by (rule era_day_exists[of "n mod 146097"]) auto
  have nn: "n = era * 146097 + era_day c q i doy" using n by (metis div_mult_mod_eq era_def)
  have r: "c \<le> 3" "q \<le> 24" "i \<le> 3" using ok by (auto simp: era_ok_def)
  let ?y = "100 * c + 4 * q + i + era * 400"
  have d: "days_to_ymd n = date_of ?y doy" unfolding nn by (rule days_to_ymd_era[OF ok])
  show ?thesis
  proof (cases "Suc doy < march_year_length ?y")
    case True
    then have "era_ok c q i (Suc doy)" using era_ok_iff[OF r] by simp
    from days_to_ymd_era[OF this, of era] have "days_to_ymd (Suc n) = date_of ?y (Suc doy)" by (simp add: nn era_day_def)
    then show ?thesis using date_step[OF True] d by simp
  next
    case False
    then have doy: "doy = march_year_length ?y - 1" using ok era_ok_iff[OF r, of doy era] by simp
    have len: "march_year_length ?y = (if i = 3 \<and> (q < 24 \<or> c = 3) then 366 else 365)"
      using leap_of_era[OF r, of era] by (simp add: march_year_length_def)
    consider "i < 3" | "i = 3" "q < 24" | "i = 3" "q = 24" "c < 3" | "i = 3" "q = 24" "c = 3" using r by fastforce
    then have "days_to_ymd (Suc n) = date_of (Suc ?y) 0"
    proof cases
      case 1
      then have "era_ok c q (Suc i) 0" using r by (simp add: era_ok_def)
      moreover have "Suc n = era * 146097 + era_day c q (Suc i) 0" using 1 doy len by (simp add: nn era_day_def)
      ultimately show ?thesis using days_to_ymd_era[of c q "Suc i" 0 era] 1 by simp
    next
      case 2
      then have "era_ok c (Suc q) 0 0" using r by (simp add: era_ok_def)
      moreover have "Suc n = era * 146097 + era_day c (Suc q) 0 0" using 2 doy len by (simp add: nn era_day_def)
      ultimately show ?thesis using days_to_ymd_era[of c "Suc q" 0 0 era] 2 by (simp add: ac_simps)
    next
      case 3
      then have "era_ok (Suc c) 0 0 0" using r by (simp add: era_ok_def)
      moreover have "Suc n = era * 146097 + era_day (Suc c) 0 0 0" using 3 doy len by (simp add: nn era_day_def)
      ultimately show ?thesis using days_to_ymd_era[of "Suc c" 0 0 0 era] 3 by (simp add: ac_simps)
    next
      case 4
      have "era_ok 0 0 0 0" by (simp add: era_ok_def)
      moreover have "Suc n = Suc era * 146097 + era_day 0 0 0 0" using 4 doy len by (simp add: nn era_day_def)
      ultimately show ?thesis using days_to_ymd_era[of 0 0 0 0 "Suc era"] 4 by (simp only:) simp
    qed
    then show ?thesis using date_year_end[of ?y] doy d by simp
  qed
qed

text \<open>
  C31. The helper's calendar is the Gregorian calendar: the date it computes for a number of days after the epoch is what
  counting that many days on from the first of January 1970 gives, with the month lengths and leap years of the
  calendar.
\<close>

theorem calendar_is_gregorian: "days_to_ymd (n + 719468) = (next_date ^^ n) (1970, 1, 1)"
proof (induction n)
  case 0
  have "(719468 :: nat) = 4 * 146097 + era_day 3 17 1 306" "era_ok 3 17 1 306" by (simp_all add: era_day_def era_ok_def)
  then have "days_to_ymd 719468 = date_of 1969 306" using days_to_ymd_era[of 3 17 1 306 4] by simp
  then show ?case by (simp add: date_of_def)
next
  case (Suc n)
  then show ?case by (simp only: add_Suc days_to_ymd_Suc funpow.simps comp_apply)
qed

section \<open>The ancestor walk\<close>

text \<open>Each entry of a chain is the parent of the one before.\<close>

fun linked :: "(nat \<Rightarrow> nat option) \<Rightarrow> nat list \<Rightarrow> bool" where
  "linked parent (a # b # xs) = (parent a = Some b \<and> linked parent (b # xs))"
| "linked parent _ = True"

lemma linked_snoc: "linked parent (xs @ [x]) \<longleftrightarrow> linked parent xs \<and> (xs \<noteq> [] \<longrightarrow> parent (last xs) = Some x)"
  by (induction parent xs rule: linked.induct) auto

lemma chain_loop_ok:
  assumes "distinct chain" "length chain \<le> MAX_CHAIN_LEN" "\<forall>p \<in> set chain. 1 < p" "linked parent chain"
    and "chain \<noteq> [] \<Longrightarrow> cur = parent (last chain)"
  shows "distinct (chain_loop parent cur chain) \<and> length (chain_loop parent cur chain) \<le> MAX_CHAIN_LEN \<and>
    (\<forall>p \<in> set (chain_loop parent cur chain). 1 < p) \<and> linked parent (chain_loop parent cur chain)"
  using assms
proof (induction parent cur chain rule: chain_loop.induct)
  case (1 parent cur chain)
  show ?case
  proof (cases "case cur of None \<Rightarrow> True | Some pid \<Rightarrow> pid \<le> 1 \<or> length chain \<ge> MAX_CHAIN_LEN \<or> pid \<in> set chain")
    case True
    then show ?thesis using "1.prems" by (auto simp: chain_loop.simps[of parent cur chain] split: option.splits)
  next
    case False
    then obtain pid where p: "cur = Some pid" "\<not> (pid \<le> 1 \<or> length chain \<ge> MAX_CHAIN_LEN)" "pid \<notin> set chain"
      by (auto split: option.splits)
    have "linked parent (chain @ [pid])" using "1.prems"(4,5) p(1) by (auto simp: linked_snoc)
    moreover have "chain_loop parent cur chain = chain_loop parent (parent pid) (chain @ [pid])"
      using p by (subst chain_loop.simps) simp
    ultimately show ?thesis using "1.IH"[OF p] "1.prems"(1-3) p by simp
  qed
qed

text \<open>
  C37. The ancestor walk ends, whatever the process table says while it changes: the chain has at most 32 entries, none
  twice, none of them the first process, each the parent of the one before.
\<close>

theorem ancestor_chain_is_bounded:
  "length (current_chain proc own) \<le> 32 \<and> distinct (current_chain proc own) \<and>
   list_all (\<lambda>p. 1 < p) (current_chain proc own) \<and> linked (parent_of_via_proc proc) (current_chain proc own)"
  using chain_loop_ok[of "[]" "parent_of_via_proc proc" "direct_parent proc own"]
  by (simp add: current_chain_def MAX_CHAIN_LEN_def list_all_iff)

section \<open>What an exit code says\<close>

lemma shell_call_args:
  assumes "cmd \<noteq> []" "cmd \<noteq> ''--cwd''" "cmd \<noteq> ''--socket''"
  shows "parse_check_args env [cmd, ''--cwd'', pwd, ''--socket'', sock] = \<lparr>ca_command = cmd, ca_cwd = pwd, ca_socket = sock\<rparr>"
  using assms by (simp add: parse_check_args_def)

lemma parse_check_allow: "parse_check_response r = CAllow \<longleftrightarrow> get_str ''code'' r = Some ''PACT_OK''"
  by (auto simp: parse_check_response_def Let_def split: option.splits)

text \<open>
  C30. For a command that a shell hook passes on, the helper's exit code is what the policy daemon said. It is 0 exactly when
  the daemon answered \<^verbatim>\<open>PACT_OK\<close> to a request for this very command and directory (and the command is no longer than the
  ceiling, and the versions agree); it is 11, on which the shell runs the command, exactly when no answer could be
  read, and then a record of it is spooled; a command over the ceiling is refused without asking.
\<close>

theorem helper_exit_code_is_daemons:
  assumes cmd: "cmd \<noteq> []" "cmd \<noteq> ''--cwd''" "cmd \<noteq> ''--socket''"
    and run: "cmd_check env [cmd, ''--cwd'', pwd, ''--socket'', sock] = (code, effects)"
    and request: "request = check_request env \<lparr>ca_command = cmd, ca_cwd = pwd, ca_socket = sock\<rparr>"
  shows "(code = 0 \<longleftrightarrow> length cmd \<le> 10240 \<and> check_protocol_version env sock = None \<and>
      (\<exists>r. send_request env sock request = Inr r \<and> get_str ''code'' r = Some ''PACT_OK'')) \<and>
    (code = 11 \<longleftrightarrow> length cmd \<le> 10240 \<and> check_protocol_version env sock = None \<and> (\<exists>e. send_request env sock request = Inl e)) \<and>
    (code = 11 \<longrightarrow> FailOpenEvent (fail_open_event env ''execute'' cmd pwd) \<in> set effects) \<and>
    (length cmd > 10240 \<longrightarrow> code = 1 \<and> effects = []) \<and>
    get_str ''detail'' request = Some cmd \<and> code \<in> {0, 1, 2, 3, 10, 11}"
proof -
  have d: "get_str ''detail'' request = Some cmd" by (simp add: request check_request_def Let_def get_str_def)
  have r: "cmd_check env [cmd, ''--cwd'', pwd, ''--socket'', sock] =
      (if length cmd > 10240 then (1, [])
       else case check_protocol_version env sock of Some msg \<Rightarrow> (10, [LogError msg]) | None \<Rightarrow>
         (case send_request env sock request of
            Inl _ \<Rightarrow> (11, [Sent sock request, FailOpenEvent (fail_open_event env ''execute'' cmd pwd)])
          | Inr resp \<Rightarrow> (fst (cmd_check env [cmd, ''--cwd'', pwd, ''--socket'', sock]), snd (cmd_check env [cmd, ''--cwd'', pwd, ''--socket'', sock]))))"
    unfolding cmd_check_def shell_call_args[OF cmd] by (auto simp: Let_def MAX_COMMAND_LENGTH_CEILING_def request split: option.split sum.split)
  have answered: "code = (case parse_check_response resp of CAllow \<Rightarrow> 0 | CAsk _ _ (Some _) \<Rightarrow> 3 | CAsk _ _ None \<Rightarrow> 2 | _ \<Rightarrow> 1)"
    if "length cmd \<le> 10240" "check_protocol_version env sock = None" "send_request env sock request = Inr resp" for resp
    using run that unfolding cmd_check_def shell_call_args[OF cmd]
    by (auto simp: Let_def MAX_COMMAND_LENGTH_CEILING_def request split: CheckResponse.splits option.splits)
  consider "length cmd > 10240" | msg where "length cmd \<le> 10240" "check_protocol_version env sock = Some msg"
    | e where "length cmd \<le> 10240" "check_protocol_version env sock = None" "send_request env sock request = Inl e"
    | resp where "length cmd \<le> 10240" "check_protocol_version env sock = None" "send_request env sock request = Inr resp"
    by (cases "length cmd > 10240"; cases "check_protocol_version env sock"; cases "send_request env sock request") auto
  then show ?thesis
  proof cases
    case 4
    from answered[OF 4] have "code = 0 \<longleftrightarrow> get_str ''code'' resp = Some ''PACT_OK''" "code \<in> {0, 1, 2, 3}"
      unfolding parse_check_allow[symmetric] by (auto split: CheckResponse.splits option.splits)
    then show ?thesis using 4 d by auto
  qed (use run r d in auto)
qed

text \<open>An answer that is no JSON counts as no answer: the command runs.\<close>

lemma malformed_answer_fails_open:
  assumes "he_exchange env sock (check_request env (parse_check_args env args)) = Inr bytes" "he_parse env (trim_socket_message bytes) = None"
    and "ca_socket (parse_check_args env args) = sock" and "length (ca_command (parse_check_args env args)) \<le> 10240"
    and "check_protocol_version env sock = None"
  shows "fst (cmd_check env args) = 11"
  using assms by (simp add: cmd_check_def Let_def MAX_COMMAND_LENGTH_CEILING_def send_request_def)

definition sample_helper_env :: helper_env where
  "sample_helper_env = \<lparr>he_exchange = (\<lambda>_ _. Inr ''ok''), he_parse = (\<lambda>s. if s = ''ok'' then Some (JObj [(''code'', JStr ''PACT_OK'')]) else None),
     he_print = (\<lambda>_. []), he_exec_token = None, he_proc_status = (\<lambda>_. None), he_pid = 7, he_nanos = 0, he_daemon_state = (\<lambda>_. None),
     he_sock_var = None, he_home_var = None\<rparr>"

theorem helper_exit_code_is_daemons_witness:
  "fst (cmd_check sample_helper_env [''ls'', ''--cwd'', ''/w'', ''--socket'', ''/s'']) = 0"
proof -
  obtain code effects where r: "cmd_check sample_helper_env [''ls'', ''--cwd'', ''/w'', ''--socket'', ''/s''] = (code, effects)"
    by (cases "cmd_check sample_helper_env [''ls'', ''--cwd'', ''/w'', ''--socket'', ''/s'']")
  have "check_protocol_version sample_helper_env ''/s'' = None"
    by (simp add: check_protocol_version_def read_daemon_state_def sample_helper_env_def)
  moreover have "send_request sample_helper_env ''/s'' q = Inr (JObj [(''code'', JStr ''PACT_OK'')])" for q
    by (simp add: send_request_def sample_helper_env_def trim_socket_message_def trim_end_matches_def nl_def cr_def)
  ultimately have "code = 0" using helper_exit_code_is_daemons[OF _ _ _ r refl] by (simp add: get_str_def)
  then show ?thesis using r by simp
qed

lemma respond_zero_iff:
  "fst (cmd_respond env args) = 0 \<longleftrightarrow>
     (\<exists>r. send_request env (ra_socket (respond_args_loop args \<lparr>ra_socket = default_socket env, ra_req_id = [], ra_token = [], ra_response = []\<rparr>))
        (respond_request (respond_args_loop args \<lparr>ra_socket = default_socket env, ra_req_id = [], ra_token = [], ra_response = []\<rparr>)) = Inr r \<and>
      as_str (idx r ''code'') = Some ''PACT_OK'')"
  by (auto simp: cmd_respond_def Let_def split: sum.splits)

end
