(* ===== verification/Secrets.thy ===== *)
theory Secrets
  imports Server
begin

text \<open>
  The store of the local keys, \<^verbatim>\<open>core/src/secret.rs\<close>: one file per account, minted on first use. First the
  function of one process on the directory, with the failures of the file system as an environment; then the same
  function as the sequence of its file operations, so that several processes (daemon, CLI, hooks) run it at once,
  the write of the key arrives in pieces and a process can die at any point.
\<close>

section \<open>The directory\<close>

definition ACCOUNT_INBOUND :: string where "ACCOUNT_INBOUND = ''inbound_key''"
definition ACCOUNT_OPERATOR :: string where "ACCOUNT_OPERATOR = ''operator_key''"

record secret_file =
  sf_contents :: string
  sf_mode :: nat

record secret_store =
  ss_dir_mode :: nat
  ss_files :: "string \<rightharpoonup> secret_file"

text \<open>What the file system does: whether the directory can be made, its mode changed and a file in it read; why a new file
  cannot be opened although none is there; after how many bytes a write fails. Modes are the octal 600 (384) and 700 (448).\<close>

record secret_env =
  sx_dir :: string
  sx_mkdir_error :: "string option"
  sx_chmod :: bool
  sx_readable :: "string \<Rightarrow> bool"
  sx_open_error :: "string option"
  sx_write_error :: "(nat \<times> string) option"

datatype open_error = AlreadyExists | OpenFailed string

text \<open>The random bytes are an argument; the code asks the CSPRNG for 32 of them.\<close>

definition generate_secret :: "string \<Rightarrow> string \<Rightarrow> string" where
  "generate_secret rnd pre = pre @ ''-'' @ concat (map hex_byte rnd)"

definition create_secret_file :: "secret_env \<Rightarrow> string \<Rightarrow> secret_store \<Rightarrow> open_error + secret_store" where
  "create_secret_file env account st =
     (if ss_files st account \<noteq> None then Inl AlreadyExists
      else case sx_open_error env of
             Some e \<Rightarrow> Inl (OpenFailed e)
           | None \<Rightarrow> Inr (st\<lparr>ss_files := (ss_files st)(account \<mapsto> \<lparr>sf_contents = [], sf_mode = 384\<rparr>)\<rparr>))"

definition restrict_dir :: "secret_env \<Rightarrow> secret_store \<Rightarrow> secret_store" where
  "restrict_dir env st = (if sx_chmod env then st\<lparr>ss_dir_mode := 448\<rparr> else st)"

definition read_to_string :: "secret_env \<Rightarrow> secret_store \<Rightarrow> string \<Rightarrow> string option" where
  "read_to_string env st account =
     (case ss_files st account of
        Some f \<Rightarrow> if sx_readable env account \<and> valid_utf8 (sf_contents f) then Some (sf_contents f) else None
      | None \<Rightarrow> None)"

definition write_all :: "secret_env \<Rightarrow> string \<Rightarrow> string \<Rightarrow> secret_store \<Rightarrow> string option \<times> secret_store" where
  "write_all env account bytes st =
     (let n = (case sx_write_error env of None \<Rightarrow> length bytes | Some (n, _) \<Rightarrow> n)
      in (map_option snd (sx_write_error env),
          st\<lparr>ss_files := (ss_files st)(account := map_option (sf_contents_update (\<lambda>old. old @ take n bytes)) (ss_files st account))\<rparr>))"

definition get_or_create_in :: "secret_env \<Rightarrow> string \<Rightarrow> string \<Rightarrow> string \<Rightarrow> secret_store \<Rightarrow> (string + string) \<times> secret_store" where
  "get_or_create_in env rnd account pre st =
     (let path = path_join (sx_dir env) account
      in case sx_mkdir_error env of
        Some e \<Rightarrow> (Inl (''create '' @ sx_dir env @ '': '' @ e), st)
      | None \<Rightarrow>
          let st = restrict_dir env st
          in case read_to_string env st account of
               Some existing \<Rightarrow> (Inr (trim_end_matches [nl] existing), st)
             | None \<Rightarrow>
                 let candidate = generate_secret rnd pre
                 in case create_secret_file env account st of
                      Inr st' \<Rightarrow>
                        (case write_all env account candidate st' of
                           (Some e, st'') \<Rightarrow> (Inl (''write '' @ path @ '': '' @ e), st'')
                         | (None, st'') \<Rightarrow> (Inr candidate, st''))
                    | Inl AlreadyExists \<Rightarrow>
                        (case read_to_string env st account of
                           Some s \<Rightarrow> (Inr (trim_end_matches [nl] s), st)
                         | None \<Rightarrow> (Inl (''read '' @ path), st))
                    | Inl (OpenFailed e) \<Rightarrow> (Inl (''create '' @ path @ '': '' @ e), st))"

definition delete_in :: "secret_env \<Rightarrow> string option \<Rightarrow> string \<Rightarrow> secret_store \<Rightarrow> (string + unit) \<times> secret_store" where
  "delete_in env remove_error account st =
     (if ss_files st account = None then (Inr (), st)
      else case remove_error of
             Some e \<Rightarrow> (Inl (''remove '' @ path_join (sx_dir env) account @ '': '' @ e), st)
           | None \<Rightarrow> (Inr (), st\<lparr>ss_files := (ss_files st)(account := None)\<rparr>))"

section \<open>Several processes at once\<close>

text \<open>Where a process stands in \<open>get_or_create\<close> on one account: before its read; after a read that found nothing, with its
  candidate; writing, with the candidate and the bytes still to be written; told that the file exists; returned; dead.\<close>

datatype pc = Idle | Absent string | Writing string string | Adopting | Done string | Crashed

record race =
  rc_file :: "string option"
  rc_pc :: "nat \<Rightarrow> pc"

datatype race_label = DoRead nat | DoOpen nat | DoWrite nat string | DoFinish nat | DoAdopt nat | DoCrash nat

inductive race_step :: "string \<Rightarrow> race \<Rightarrow> race_label \<Rightarrow> race \<Rightarrow> bool" for pre where
  read_hit: "rc_pc s p = Idle \<Longrightarrow> rc_file s = Some k \<Longrightarrow>
     race_step pre s (DoRead p) (s\<lparr>rc_pc := (rc_pc s)(p := Done (trim_end_matches [nl] k))\<rparr>)"
| read_miss: "rc_pc s p = Idle \<Longrightarrow> rc_file s = None \<Longrightarrow>
     race_step pre s (DoRead p) (s\<lparr>rc_pc := (rc_pc s)(p := Absent (generate_secret rnd pre))\<rparr>)"
| open_new: "rc_pc s p = Absent c \<Longrightarrow> rc_file s = None \<Longrightarrow>
     race_step pre s (DoOpen p) (s\<lparr>rc_file := Some [], rc_pc := (rc_pc s)(p := Writing c c)\<rparr>)"
| open_exists: "rc_pc s p = Absent c \<Longrightarrow> rc_file s = Some k \<Longrightarrow>
     race_step pre s (DoOpen p) (s\<lparr>rc_pc := (rc_pc s)(p := Adopting)\<rparr>)"
| write_some: "rc_pc s p = Writing c (a @ b) \<Longrightarrow> rc_file s = Some k \<Longrightarrow>
     race_step pre s (DoWrite p a) (s\<lparr>rc_file := Some (k @ a), rc_pc := (rc_pc s)(p := Writing c b)\<rparr>)"
| finish: "rc_pc s p = Writing c [] \<Longrightarrow>
     race_step pre s (DoFinish p) (s\<lparr>rc_pc := (rc_pc s)(p := Done c)\<rparr>)"
| adopt: "rc_pc s p = Adopting \<Longrightarrow> rc_file s = Some k \<Longrightarrow>
     race_step pre s (DoAdopt p) (s\<lparr>rc_pc := (rc_pc s)(p := Done (trim_end_matches [nl] k))\<rparr>)"
| crash: "race_step pre s (DoCrash p) (s\<lparr>rc_pc := (rc_pc s)(p := Crashed)\<rparr>)"

definition race_init :: "race \<Rightarrow> bool" where
  "race_init s \<longleftrightarrow> rc_file s = None \<and> (\<forall>p. rc_pc s p = Idle)"


section \<open>Candidates\<close>

lemma hex_digit_range: "n < 16 \<Longrightarrow> byte_in 48 102 (hex_digit n)"
  by (simp add: hex_digit_def byte_in_def of_char_of take_bit_eq_mod)

lemma hex_byte_range: "c \<in> set (hex_byte b) \<Longrightarrow> byte_in 48 102 c"
proof -
  have "(of_char b :: nat) < 256" by simp
  then have "(of_char b :: nat) div 16 < 16" by (simp add: div_less_iff_less_mult)
  then show "c \<in> set (hex_byte b) \<Longrightarrow> byte_in 48 102 c"
    by (auto simp: hex_byte_def Let_def hex_digit_range)
qed

lemma byte_in_not_nl: "byte_in 48 102 c \<Longrightarrow> c \<noteq> nl"
  by (auto simp: byte_in_def nl_def)

lemma byte_in_mono: "byte_in a b c \<Longrightarrow> a' \<le> a \<Longrightarrow> b \<le> b' \<Longrightarrow> byte_in a' b' c"
  by (auto simp: byte_in_def Let_def)

lemma valid_utf8_ascii: "list_all (byte_in 0 127) s \<Longrightarrow> valid_utf8 s"
  by (induction s) (simp_all add: valid_utf8_Cons del: valid_utf8.simps(2-))

lemma generated_hex: "c \<in> set (concat (map hex_byte rnd)) \<Longrightarrow> byte_in 48 102 c"
  by (auto dest: hex_byte_range)

lemma generated_ascii: "list_all (byte_in 0 127) (''-'' @ concat (map hex_byte rnd))"
  by (auto simp: list_all_iff byte_in_def Let_def dest!: hex_byte_range)

lemma generate_secret_valid: "valid_utf8 pre \<Longrightarrow> valid_utf8 (generate_secret rnd pre)"
  unfolding generate_secret_def by (intro valid_utf8_append valid_utf8_ascii[OF generated_ascii])

lemma generate_secret_no_nl: "nl \<notin> set pre \<Longrightarrow> nl \<notin> set (generate_secret rnd pre)"
  unfolding generate_secret_def by (auto simp: nl_def dest!: generated_hex hex_byte_range) (simp add: byte_in_def)

lemma hex_byte_last: "hex_byte b \<noteq> [] \<and> last (hex_byte b) \<noteq> nl"
  using hex_byte_range[of "last (hex_byte b)" b] by (auto simp: hex_byte_def Let_def byte_in_not_nl)

lemma generate_secret_last: "generate_secret rnd pre \<noteq> [] \<and> last (generate_secret rnd pre) \<noteq> nl"
proof (cases rnd rule: rev_cases)
  case (snoc bs b)
  then show ?thesis using hex_byte_last[of b] by (simp add: generate_secret_def)
qed (simp add: generate_secret_def nl_def)

lemma trim_nl_id: "s = [] \<or> last s \<noteq> nl \<Longrightarrow> trim_end_matches [nl] s = s"
  by (cases s rule: rev_cases) (auto simp: trim_end_matches_def)

lemma trim_nl_notin: "nl \<notin> set s \<Longrightarrow> trim_end_matches [nl] s = s"
  by (rule trim_nl_id) (metis last_in_set)

lemma trim_nl_idem: "trim_end_matches [nl] (trim_end_matches [nl] s) = trim_end_matches [nl] s"
  by (simp add: trim_end_matches_def)


section \<open>One process\<close>

text \<open>A file that is there is never overwritten, whatever fails, and no other account is touched.\<close>

lemma get_or_create_keeps_files:
  assumes "get_or_create_in env rnd account pre st = (r, st')"
  shows "ss_files st a = Some f \<Longrightarrow> ss_files st' a = Some f"
    and "a \<noteq> account \<Longrightarrow> ss_files st' a = ss_files st a"
  using assms
  by (auto simp: get_or_create_in_def restrict_dir_def create_secret_file_def write_all_def Let_def
        split: option.splits sum.splits open_error.splits prod.splits if_splits)

lemma get_or_create_file:
  assumes "get_or_create_in env rnd account pre st = (Inr key, st')"
  obtains f where "ss_files st' account = Some f" and "key = trim_end_matches [nl] (sf_contents f)"
    and "(ss_files st account = Some f \<and> valid_utf8 (sf_contents f)) \<or>
         (ss_files st account = None \<and> f = \<lparr>sf_contents = generate_secret rnd pre, sf_mode = 384\<rparr>)"
  using assms generate_secret_last[of rnd pre]
  by (fastforce simp: get_or_create_in_def restrict_dir_def create_secret_file_def write_all_def read_to_string_def Let_def trim_nl_id
        split: option.splits sum.splits open_error.splits prod.splits if_splits)

text \<open>
  A key is minted once: after \<^verbatim>\<open>get_or_create\<close> has returned a key, every later call for the account (with other random
  bytes and another prefix, by whichever process can read the file) returns the same key and leaves all files alone.
\<close>

theorem key_is_minted_once:
  assumes "valid_utf8 pre"
    and "get_or_create_in env rnd account pre st = (Inr key, st')"
    and "sx_mkdir_error env' = None" and "sx_readable env' account"
  shows "fst (get_or_create_in env' rnd' account pre' st') = Inr key \<and>
         ss_files (snd (get_or_create_in env' rnd' account pre' st')) = ss_files st'"
proof -
  obtain f where f: "ss_files st' account = Some f" and key: "key = trim_end_matches [nl] (sf_contents f)"
    and "valid_utf8 (sf_contents f)"
    using get_or_create_file[OF assms(2)] generate_secret_valid[OF assms(1)] by (metis secret_file.select_convs(1))
  then have "read_to_string env' (restrict_dir env' st') account = Some (sf_contents f)"
    using assms(4) by (simp add: read_to_string_def restrict_dir_def)
  with assms(3) key show ?thesis by (simp add: get_or_create_in_def restrict_dir_def)
qed

section \<open>All processes\<close>

definition won :: "string \<Rightarrow> string \<Rightarrow> (nat \<Rightarrow> pc) \<Rightarrow> bool" where
  "won c k pcs \<longleftrightarrow> prefix k c \<and>
     (\<forall>p c' r. pcs p = Writing c' r \<longrightarrow> c' = c \<and> k @ r = c) \<and>
     (\<forall>p q c1 r1 c2 r2. pcs p = Writing c1 r1 \<longrightarrow> pcs q = Writing c2 r2 \<longrightarrow> p = q) \<and>
     (\<forall>p k'. pcs p = Done k' \<longrightarrow> prefix k' c)"

lemma won_upd:
  "won c k pcs \<Longrightarrow> (\<And>c' r. x \<noteq> Writing c' r) \<Longrightarrow> (\<And>k'. x = Done k' \<Longrightarrow> prefix k' c) \<Longrightarrow> won c k (pcs(p := x))"
  by (simp add: won_def)

lemma won_write:
  assumes "won c k pcs" and "pcs p = Writing c' (a @ b)"
  shows "won c (k @ a) (pcs(p := Writing c' b))"
proof -
  from assms have c: "c' = c" "k @ a @ b = c" by (auto simp: won_def)
  then have "prefix (k @ a) c" by (auto simp: prefix_def)
  moreover have "q = p" if "pcs q = Writing c1 r1" for q c1 r1
    using assms that unfolding won_def by blast
  ultimately show ?thesis using assms(1) c unfolding won_def by (auto split: if_splits)
qed

definition no_file_yet :: "(nat \<Rightarrow> pc) \<Rightarrow> bool" where
  "no_file_yet pcs \<longleftrightarrow> (\<forall>p. (\<forall>c r. pcs p \<noteq> Writing c r) \<and> pcs p \<noteq> Adopting \<and> (\<forall>k. pcs p \<noteq> Done k))"

definition race_inv :: "string \<Rightarrow> race \<Rightarrow> bool" where
  "race_inv pre s \<longleftrightarrow>
     (\<forall>p c. rc_pc s p = Absent c \<longrightarrow> (\<exists>rnd. c = generate_secret rnd pre)) \<and>
     (case rc_file s of
        None \<Rightarrow> no_file_yet (rc_pc s)
      | Some k \<Rightarrow> \<exists>rnd. won (generate_secret rnd pre) k (rc_pc s))"

lemma won_trim:
  assumes "nl \<notin> set pre" and "won (generate_secret rnd pre) k pcs"
  shows "prefix (trim_end_matches [nl] k) (generate_secret rnd pre)"
proof -
  have k: "prefix k (generate_secret rnd pre)" using assms(2) by (simp add: won_def)
  then have "nl \<notin> set k" using generate_secret_no_nl[OF assms(1)] set_mono_prefix by blast
  with k show ?thesis by (simp add: trim_nl_notin)
qed

lemma won_start: "no_file_yet pcs \<Longrightarrow> won c [] (pcs(p := Writing c c))"
  by (auto simp: won_def no_file_yet_def)

lemma race_inv_step:
  assumes "nl \<notin> set pre" and "race_inv pre s" and "race_step pre s l s'"
  shows "race_inv pre s'"
  using assms(3)
proof (cases rule: race_step.cases)
  case (read_hit p k)
  with assms(1,2) show ?thesis by (auto simp: race_inv_def intro!: won_upd dest: won_trim)
next
  case (read_miss p rnd)
  with assms(2) show ?thesis by (auto simp: race_inv_def no_file_yet_def)
next
  case (open_new p c)
  with assms(2) obtain rnd where "c = generate_secret rnd pre" by (auto simp: race_inv_def)
  with open_new assms(2) show ?thesis by (auto simp: race_inv_def intro: won_start)
next
  case (open_exists p c k)
  with assms(2) show ?thesis by (auto simp: race_inv_def intro!: won_upd)
next
  case (write_some p c a b k)
  with assms(2) show ?thesis by (auto simp: race_inv_def intro: won_write)
next
  case (finish p c)
  with assms(2) obtain k rnd where k: "rc_file s = Some k" and w: "won (generate_secret rnd pre) k (rc_pc s)"
    by (auto simp: race_inv_def no_file_yet_def split: option.splits)
  with finish have "c = generate_secret rnd pre" by (auto simp: won_def)
  with finish k w assms(2) show ?thesis by (auto simp: race_inv_def intro!: won_upd exI[of _ rnd])
next
  case (adopt p k)
  with assms(1,2) show ?thesis by (auto simp: race_inv_def intro!: won_upd dest: won_trim)
next
  case (crash p)
  with assms(2) show ?thesis by (cases "rc_file s") (auto simp: race_inv_def no_file_yet_def intro!: won_upd)
qed

interpretation mint: machine race_init "race_step pre" "\<lambda>s. nl \<notin> set pre \<longrightarrow> race_inv pre s" for pre
proof (unfold_locales, goal_cases)
  case (1 s)
  then show ?case by (simp add: race_init_def race_inv_def no_file_yet_def)
qed (use race_inv_step in blast)

text \<open>Once the whole key is in the file, no run changes the file, and a process that returns from then on returns that key.\<close>

definition minted :: "string \<Rightarrow> race \<Rightarrow> bool" where
  "minted c s \<longleftrightarrow> rc_file s = Some c \<and> (\<forall>p c' r. rc_pc s p = Writing c' r \<longrightarrow> c' = c \<and> r = [])"

lemma minted_step:
  assumes "trim_end_matches [nl] c = c" and "minted c s" and "race_step pre s l s'"
  shows "minted c s' \<and> (rc_pc s' p = Done k \<longrightarrow> rc_pc s p = Done k \<or> k = c)"
  using assms(3)
proof (cases rule: race_step.cases)
  case (write_some q c' a b k')
  with assms(2) have "a = [] \<and> b = []" by (auto simp: minted_def)
  with write_some assms(2) show ?thesis unfolding minted_def by (auto split: if_splits) metis
next
  case (finish q c')
  with assms(2) show ?thesis unfolding minted_def by (auto split: if_splits) metis
qed (use assms(1,2) in \<open>auto simp: minted_def split: if_splits\<close>)

lemma minted_run:
  assumes "run (race_step pre) s ls t" and "trim_end_matches [nl] c = c" and "minted c s"
  shows "minted c t \<and> (rc_pc t p = Done k \<longrightarrow> rc_pc s p = Done k \<or> k = c)"
  using assms by (induction rule: run.induct) (auto dest: minted_step)

text \<open>
  C33. However many processes run \<^verbatim>\<open>get_or_create\<close> at once, and wherever they die, one candidate wins: every key that is returned is a
  prefix of it, so is what the file holds, and from the moment the file holds all of it the file never changes
  and every process that returns returns exactly that key.
\<close>

theorem concurrent_mints_converge:
  assumes "nl \<notin> set pre" and "race_init s0" and "run (race_step pre) s0 ls s" and "rc_file s = Some k"
  shows "\<exists>rnd. prefix k (generate_secret rnd pre) \<and>
           (\<forall>p k'. rc_pc s p = Done k' \<longrightarrow> prefix k' (generate_secret rnd pre)) \<and>
           (k = generate_secret rnd pre \<longrightarrow>
              (\<forall>ms t. run (race_step pre) s ms t \<longrightarrow>
                 rc_file t = Some k \<and> (\<forall>p k'. rc_pc t p = Done k' \<longrightarrow> rc_pc s p = Done k' \<or> k' = k)))"
proof -
  have "race_inv pre s" using mint.inv_reach[OF assms(2,3)] assms(1) by blast
  with assms(4) obtain rnd where rnd: "won (generate_secret rnd pre) k (rc_pc s)"
    by (auto simp: race_inv_def)
  have trim: "trim_end_matches [nl] (generate_secret rnd pre) = generate_secret rnd pre"
    using generate_secret_last by (simp add: trim_nl_id)
  have "minted k s" if "k = generate_secret rnd pre"
    using that rnd assms(4) unfolding won_def minted_def by (metis append_self_conv)
  then have "rc_file t = Some k \<and> (\<forall>p k'. rc_pc t p = Done k' \<longrightarrow> rc_pc s p = Done k' \<or> k' = k)"
    if "k = generate_secret rnd pre" "run (race_step pre) s ms t" for ms t
    using minted_run[OF that(2)] trim that(1) by (metis minted_def)
  with rnd show ?thesis unfolding won_def by blast
qed

text \<open>The doc comment of \<^verbatim>\<open>get_or_create\<close> calls this race-safe. It is not while the winner has opened the file and not yet written:
  the loser reads an empty file and returns the empty key, and if the winner dies there the empty key is final.\<close>

lemma loser_adopts_empty_key:
  "\<exists>s0 s. race_init s0 \<and> run (race_step pre) s0 [DoRead 0, DoRead 1, DoOpen 0, DoOpen 1, DoAdopt 1] s \<and> rc_pc s 1 = Done []"
proof -
  define s0 where "s0 = \<lparr>rc_file = None, rc_pc = (\<lambda>_. Idle)\<rparr>"
  define s1 where "s1 = s0\<lparr>rc_pc := (rc_pc s0)(0 := Absent (generate_secret [] pre))\<rparr>"
  define s2 where "s2 = s1\<lparr>rc_pc := (rc_pc s1)(1 := Absent (generate_secret [] pre))\<rparr>"
  define s3 where "s3 = s2\<lparr>rc_file := Some [], rc_pc := (rc_pc s2)(0 := Writing (generate_secret [] pre) (generate_secret [] pre))\<rparr>"
  define s4 where "s4 = s3\<lparr>rc_pc := (rc_pc s3)(1 := Adopting)\<rparr>"
  define s5 where "s5 = s4\<lparr>rc_pc := (rc_pc s4)(1 := Done (trim_end_matches [nl] []))\<rparr>"
  have "race_step pre s0 (DoRead 0) s1" unfolding s1_def by (rule read_miss) (simp_all add: s0_def)
  moreover have "race_step pre s1 (DoRead 1) s2" unfolding s2_def by (rule read_miss) (simp_all add: s0_def s1_def)
  moreover have "race_step pre s2 (DoOpen 0) s3" unfolding s3_def by (rule open_new) (simp_all add: s0_def s1_def s2_def)
  moreover have "race_step pre s3 (DoOpen 1) s4" unfolding s4_def by (rule open_exists) (simp_all add: s0_def s1_def s2_def s3_def)
  moreover have "race_step pre s4 (DoAdopt 1) s5" unfolding s5_def by (rule adopt) (simp_all add: s3_def s4_def)
  ultimately have "run (race_step pre) s0 [DoRead 0, DoRead 1, DoOpen 0, DoOpen 1, DoAdopt 1] s5"
    by (auto simp: run_Cons_iff)
  moreover have "rc_pc s5 1 = Done []" by (simp add: s5_def trim_end_matches_def)
  moreover have "race_init s0" by (simp add: race_init_def s0_def)
  ultimately show ?thesis by blast
qed

text \<open>A daemon that adopted the empty key refuses every request as misconfigured.\<close>

lemma empty_key_locks_everyone_out: "validate_key hs [] = AuthMisconfigured" "validate_inbound_key hs [] = AuthMisconfigured"
  by (simp_all add: validate_key_def validate_inbound_key_def)


text \<open>The processes' steps are those of the function: a process that is not interfered with, on a file system without failures,
  takes steps that leave it with the function's result and the file as the function leaves it.\<close>

lemma alone_run_is_get_or_create:
  assumes "sx_mkdir_error env = None" "sx_open_error env = None" "sx_write_error env = None" "sx_readable env account"
    and "\<And>f. ss_files st account = Some f \<Longrightarrow> valid_utf8 (sf_contents f)"
    and "rc_file s = map_option sf_contents (ss_files st account)" "rc_pc s p = Idle"
  shows "\<exists>ls t k. run (race_step pre) s ls t \<and> fst (get_or_create_in env rnd account pre st) = Inr k \<and> rc_pc t p = Done k \<and>
           rc_file t = map_option sf_contents (ss_files (snd (get_or_create_in env rnd account pre st)) account)"
proof (cases "ss_files st account")
  case (Some f)
  define t where "t = s\<lparr>rc_pc := (rc_pc s)(p := Done (trim_end_matches [nl] (sf_contents f)))\<rparr>"
  have "race_step pre s (DoRead p) t" unfolding t_def using assms(6,7) Some by (intro read_hit) auto
  then have "run (race_step pre) s [DoRead p] t" by (simp add: run_Cons_iff)
  with Some assms show ?thesis
    by (intro exI[of _ "[DoRead p]"] exI[of _ t]) (auto simp: t_def get_or_create_in_def restrict_dir_def read_to_string_def)
next
  case None
  define c where "c = generate_secret rnd pre"
  define s1 where "s1 = s\<lparr>rc_pc := (rc_pc s)(p := Absent c)\<rparr>"
  define s2 where "s2 = s1\<lparr>rc_file := Some [], rc_pc := (rc_pc s1)(p := Writing c c)\<rparr>"
  define s3 where "s3 = s2\<lparr>rc_file := Some ([] @ c), rc_pc := (rc_pc s2)(p := Writing c [])\<rparr>"
  define t where "t = s3\<lparr>rc_pc := (rc_pc s3)(p := Done c)\<rparr>"
  have "race_step pre s (DoRead p) s1" unfolding s1_def c_def using assms(6,7) None by (intro read_miss) auto
  moreover have "race_step pre s1 (DoOpen p) s2" unfolding s2_def using assms(6) None by (intro open_new) (auto simp: s1_def)
  moreover have "race_step pre s2 (DoWrite p c) s3" unfolding s3_def by (intro write_some) (auto simp: s2_def)
  moreover have "race_step pre s3 (DoFinish p) t" unfolding t_def by (intro finish) (auto simp: s3_def)
  ultimately have "run (race_step pre) s [DoRead p, DoOpen p, DoWrite p c, DoFinish p] t" by (auto simp: run_Cons_iff)
  with None assms show ?thesis
    by (intro exI[of _ "[DoRead p, DoOpen p, DoWrite p c, DoFinish p]"] exI[of _ t])
       (auto simp: t_def s3_def c_def get_or_create_in_def restrict_dir_def read_to_string_def create_secret_file_def write_all_def Let_def)
qed

section \<open>Witnesses\<close>

definition plain_fs :: secret_env where
  "plain_fs = \<lparr>sx_dir = ''/s'', sx_mkdir_error = None, sx_chmod = True, sx_readable = (\<lambda>_. True), sx_open_error = None,
     sx_write_error = None\<rparr>"

definition empty_store :: secret_store where
  "empty_store = \<lparr>ss_dir_mode = 493, ss_files = Map.empty\<rparr>"

lemma plain_fs_simps [simp]:
  "sx_mkdir_error plain_fs = None" "sx_readable plain_fs a" "sx_open_error plain_fs = None" "sx_write_error plain_fs = None"
  by (simp_all add: plain_fs_def)

lemma mint_in_empty_store:
  "get_or_create_in plain_fs [CHR 0xA7] ''operator_key'' ''sk'' empty_store =
     (Inr ''sk-a7'', \<lparr>ss_dir_mode = 448, ss_files = [''operator_key'' \<mapsto> \<lparr>sf_contents = ''sk-a7'', sf_mode = 384\<rparr>]\<rparr>)"
proof -
  have "generate_secret [CHR 0xA7] ''sk'' = ''sk-a7''" by code_simp
  then show ?thesis
    by (simp add: get_or_create_in_def restrict_dir_def read_to_string_def create_secret_file_def write_all_def empty_store_def
        plain_fs_def Let_def)
qed

theorem key_is_minted_once_witness:
  "fst (get_or_create_in plain_fs [CHR 0xFF] ''operator_key'' ''ops''
     \<lparr>ss_dir_mode = 448, ss_files = [''operator_key'' \<mapsto> \<lparr>sf_contents = ''sk-a7'', sf_mode = 384\<rparr>]\<rparr>) = Inr ''sk-a7''"
  using key_is_minted_once[OF _ mint_in_empty_store, of plain_fs "[CHR 0xFF]" "''ops''"] by (simp add: valid_utf8_ascii byte_in_def)

theorem concurrent_mints_converge_witness: "\<exists>rnd. prefix ''sk-'' (generate_secret rnd ''sk'')"
proof -
  define s0 where "s0 = \<lparr>rc_file = None, rc_pc = (\<lambda>_. Idle)\<rparr>"
  define s1 where "s1 = s0\<lparr>rc_pc := (rc_pc s0)(0 := Absent (generate_secret [CHR 7] ''sk''))\<rparr>"
  define s2 where "s2 = s1\<lparr>rc_file := Some [], rc_pc := (rc_pc s1)(0 := Writing (generate_secret [CHR 7] ''sk'') (''sk-'' @ ''07''))\<rparr>"
  define s3 where "s3 = s2\<lparr>rc_file := Some ([] @ ''sk-''), rc_pc := (rc_pc s2)(0 := Writing (generate_secret [CHR 7] ''sk'') ''07'')\<rparr>"
  have c: "generate_secret [CHR 7] ''sk'' = ''sk-'' @ ''07''" by code_simp
  have "race_step ''sk'' s0 (DoRead 0) s1" unfolding s1_def by (rule read_miss) (simp_all add: s0_def)
  moreover have "race_step ''sk'' s1 (DoOpen 0) s2" unfolding s2_def c[symmetric] by (rule open_new) (simp_all add: s0_def s1_def)
  moreover have "race_step ''sk'' s2 (DoWrite 0 ''sk-'') s3" unfolding s3_def by (rule write_some) (simp_all add: s2_def)
  ultimately have "run (race_step ''sk'') s0 [DoRead 0, DoOpen 0, DoWrite 0 ''sk-''] s3" by (auto simp: run_Cons_iff)
  from concurrent_mints_converge[OF _ _ this, of "''sk-''"] show ?thesis
    by (auto simp: race_init_def s0_def s3_def nl_def)
qed

end
