(* ===== verification/DaemonConfig.thy ===== *)
theory DaemonConfig
  imports Secrets Storage McpRouting
begin

text \<open>
  The configuration of kyrisd: its types and defaults (\<^verbatim>\<open>types/src/config.rs\<close>), the places on disk (\<^verbatim>\<open>core/src/paths.rs\<close>), the
  overrides from the environment and the connection that hooks and CLI use (\<^verbatim>\<open>core/src/config.rs\<close>), loading at start
  and on SIGHUP (\<^verbatim>\<open>daemon/src/config.rs\<close>, the reload part of \<^verbatim>\<open>daemon/src/server.rs\<close>) and the enrolment artifact
  (\<^verbatim>\<open>core/src/enrollment.rs\<close>). The YAML and JSON parsers and the shipped \<^verbatim>\<open>default.yaml\<close> are parameters. Of the YAML
  parser only one thing is used, which the attribute \<^verbatim>\<open>serde(skip)\<close> documents: a parsed configuration has no keys.
\<close>

section \<open>Where things are\<close>

type_synonym env_vars = "string \<Rightarrow> string option"

definition home :: "env_vars \<Rightarrow> string" where
  "home var = unwrap_or (var ''HOME'') ''/''"

definition runtime_dir :: "env_vars \<Rightarrow> string" where
  "runtime_dir var = (case var ''KYRIS_HOME'' of Some explicit \<Rightarrow> explicit | None \<Rightarrow> path_join (home var) ''.kyris'')"

definition config_dir :: "env_vars \<Rightarrow> string" where
  "config_dir var = path_join (unwrap_or (var ''XDG_CONFIG_HOME'') (path_join (home var) ''.config'')) ''kyris''"

definition data_dir :: "env_vars \<Rightarrow> string" where
  "data_dir var = path_join (unwrap_or (var ''XDG_DATA_HOME'') (path_join (path_join (home var) ''.local'') ''share'')) ''kyris''"

definition state_dir :: "env_vars \<Rightarrow> string" where
  "state_dir var = path_join (unwrap_or (var ''XDG_STATE_HOME'') (path_join (path_join (home var) ''.local'') ''state'')) ''kyris''"

definition manifest_path :: "env_vars \<Rightarrow> string" where "manifest_path var = path_join (runtime_dir var) ''manifest.json''"
definition hooks_dir :: "env_vars \<Rightarrow> string" where "hooks_dir var = path_join (runtime_dir var) ''hooks''"
definition agents_dir :: "env_vars \<Rightarrow> string" where "agents_dir var = path_join (runtime_dir var) ''agents''"
definition backups_dir :: "env_vars \<Rightarrow> string" where "backups_dir var = path_join (runtime_dir var) ''backups''"
definition env_shim_path :: "env_vars \<Rightarrow> string" where "env_shim_path var = path_join (runtime_dir var) ''env''"
definition pid_path :: "env_vars \<Rightarrow> string" where "pid_path var = path_join (runtime_dir var) ''kyrisd.pid''"
definition config_path :: "env_vars \<Rightarrow> string" where "config_path var = path_join (config_dir var) ''kyrisd.yaml''"
definition storage_path :: "env_vars \<Rightarrow> string" where "storage_path var = path_join (data_dir var) ''kyrisd.duckdb''"
definition credentials_path :: "env_vars \<Rightarrow> string" where "credentials_path var = path_join (data_dir var) ''credentials.json''"
definition secret_dir :: "env_vars \<Rightarrow> string" where "secret_dir var = path_join (data_dir var) ''secret''"
definition pricing_cache_path :: "env_vars \<Rightarrow> string" where "pricing_cache_path var = path_join (data_dir var) ''pricing.json''"
definition log_dir :: "env_vars \<Rightarrow> string" where "log_dir var = path_join (state_dir var) ''log''"
definition log_path :: "env_vars \<Rightarrow> string" where "log_path var = path_join (log_dir var) ''kyris.log''"
definition launchd_log_path :: "env_vars \<Rightarrow> string" where "launchd_log_path var = path_join (log_dir var) ''kyrisd.log''"
definition crash_dir :: "env_vars \<Rightarrow> string" where "crash_dir var = path_join (state_dir var) ''crash''"
definition diagnostics_dir :: "env_vars \<Rightarrow> string" where "diagnostics_dir var = path_join (state_dir var) ''diagnostics''"
definition fail_open_path :: "env_vars \<Rightarrow> string" where "fail_open_path var = path_join (state_dir var) ''fail-open.jsonl''"
definition approvals_log_path :: "env_vars \<Rightarrow> string" where "approvals_log_path var = path_join (state_dir var) ''approvals.jsonl''"
definition prompts_log_path :: "env_vars \<Rightarrow> string" where "prompts_log_path var = path_join (state_dir var) ''prompts.jsonl''"

section \<open>The configuration and its defaults\<close>

record ServerConfig =
  sv_listen :: string
  sv_inbound_key :: string
  sv_operator_key :: string
  sv_max_request_body_bytes :: nat
  sv_drain_timeout_seconds :: nat

definition ServerConfig_default :: ServerConfig where
  "ServerConfig_default = \<lparr>sv_listen = ''127.0.0.1:4710'', sv_inbound_key = [], sv_operator_key = [],
     sv_max_request_body_bytes = 10485760, sv_drain_timeout_seconds = 30\<rparr>"

record TlsConfig =
  tls_enabled :: bool
  tls_cert_path :: string
  tls_key_path :: string

definition TlsConfig_validate :: "(string \<Rightarrow> bool) \<Rightarrow> TlsConfig \<Rightarrow> string + unit" where
  "TlsConfig_validate exists t =
     (if \<not> tls_enabled t then Inr ()
      else if tls_cert_path t = [] then Inl ''tls.enabled is true but tls.cert_path is empty''
      else if tls_key_path t = [] then Inl ''tls.enabled is true but tls.key_path is empty''
      else if \<not> exists (tls_cert_path t) then Inl (''tls.cert_path does not exist: '' @ tls_cert_path t)
      else if \<not> exists (tls_key_path t) then Inl (''tls.key_path does not exist: '' @ tls_key_path t)
      else Inr ())"

record McpConfig =
  mc_enabled :: bool
  mc_pending_timeout_seconds :: nat
  mc_socket_timeout_ms :: nat
  mc_servers :: "McpServerConfig list"

definition McpConfig_default :: McpConfig where
  "McpConfig_default = \<lparr>mc_enabled = False, mc_pending_timeout_seconds = 900, mc_socket_timeout_ms = 50, mc_servers = []\<rparr>"

record CircuitBreakerConfig =
  cb_enabled :: bool
  cb_max_tokens :: nat
  cb_session_idle_minutes :: nat
  cb_decision_timeout_seconds :: nat

definition CircuitBreakerConfig_default :: CircuitBreakerConfig where
  "CircuitBreakerConfig_default = \<lparr>cb_enabled = True, cb_max_tokens = 200000, cb_session_idle_minutes = 30,
     cb_decision_timeout_seconds = 604800\<rparr>"

record StatsConfig =
  st_retention_days :: nat
  st_flush_interval_ms :: nat
  st_flush_batch_size :: nat
  st_channel_capacity :: nat

definition StatsConfig_default :: StatsConfig where
  "StatsConfig_default = \<lparr>st_retention_days = 7, st_flush_interval_ms = 1000, st_flush_batch_size = 100,
     st_channel_capacity = 10000\<rparr>"

record LogConfig =
  lg_filter :: string
  lg_verbose_filter :: string

definition LogConfig_default :: LogConfig where
  "LogConfig_default = \<lparr>lg_filter = ''kyrisd=info'', lg_verbose_filter = ''kyrisd::adapter=trace,kyrisd::auth=debug,kyrisd=debug''\<rparr>"

definition SpendConfig_default :: SpendConfig where
  "SpendConfig_default = \<lparr>warn_thresholds_usd = [], window_hours = 24\<rparr>"

text \<open>The configurations with one field (relay, GitHub, sync, pricing, agents) are that field.\<close>

record KyrisdConfig =
  kc_api_version :: "string option"
  kc_server :: ServerConfig
  kc_tls :: TlsConfig
  kc_providers :: "ProviderConfig list"
  kc_mcp :: McpConfig
  kc_circuit_breaker :: CircuitBreakerConfig
  kc_relay_url :: string
  kc_github_client_id :: string
  kc_sync_scope :: "string list"
  kc_fetch_interval_hours :: nat
  kc_stats :: StatsConfig
  kc_reconcile_interval_minutes :: nat
  kc_spend :: SpendConfig
  kc_log :: LogConfig

text \<open>What an empty document gives: every section has a default.\<close>

definition KyrisdConfig_empty :: KyrisdConfig where
  "KyrisdConfig_empty = \<lparr>kc_api_version = None, kc_server = ServerConfig_default,
     kc_tls = \<lparr>tls_enabled = False, tls_cert_path = [], tls_key_path = []\<rparr>, kc_providers = [], kc_mcp = McpConfig_default,
     kc_circuit_breaker = CircuitBreakerConfig_default, kc_relay_url = [], kc_github_client_id = [], kc_sync_scope = [],
     kc_fetch_interval_hours = 6, kc_stats = StatsConfig_default, kc_reconcile_interval_minutes = 15,
     kc_spend = SpendConfig_default, kc_log = LogConfig_default\<rparr>"

definition EXPECTED_API_VERSION :: string where "EXPECTED_API_VERSION = ''kyris/v1''"

definition quoted :: "string \<Rightarrow> string" where
  "quoted s = [CHR 39] @ s @ [CHR 39]"

definition validate_api_version :: "KyrisdConfig \<Rightarrow> string + unit" where
  "validate_api_version c =
     (case kc_api_version c of
        Some v \<Rightarrow> if v = EXPECTED_API_VERSION then Inr ()
                  else Inl (''unsupported config apiVersion '' @ quoted v @ '' (expected '' @ quoted EXPECTED_API_VERSION @ '')'')
      | None \<Rightarrow> Inl (''config is missing required '' @ quoted (''apiVersion: '' @ EXPECTED_API_VERSION)))"

definition base_url :: "KyrisdConfig \<Rightarrow> string" where
  "base_url c = (if tls_enabled (kc_tls c) then ''https'' else ''http'') @ ''://'' @ sv_listen (kc_server c)"

section \<open>Overrides\<close>

definition env_num :: "env_vars \<Rightarrow> string \<Rightarrow> nat option" where
  "env_num var key = Option.bind (var key) parse_usize"

definition env_flag :: "string \<Rightarrow> bool" where
  "env_flag v = (v = ''true'' \<or> v = ''1'')"

definition override_server :: "env_vars \<Rightarrow> ServerConfig \<Rightarrow> ServerConfig" where
  "override_server var s =
     s\<lparr>sv_listen := unwrap_or (var ''KYRIS_SERVER_LISTEN'') (sv_listen s),
       sv_max_request_body_bytes := unwrap_or (env_num var ''KYRIS_SERVER_MAX_REQUEST_BODY_BYTES'') (sv_max_request_body_bytes s),
       sv_drain_timeout_seconds := unwrap_or (env_num var ''KYRIS_SERVER_DRAIN_TIMEOUT_SECONDS'') (sv_drain_timeout_seconds s)\<rparr>"

definition override_breaker :: "env_vars \<Rightarrow> CircuitBreakerConfig \<Rightarrow> CircuitBreakerConfig" where
  "override_breaker var b =
     b\<lparr>cb_enabled := (case var ''KYRIS_CIRCUIT_BREAKER_ENABLED'' of Some v \<Rightarrow> env_flag v | None \<Rightarrow> cb_enabled b),
       cb_max_tokens := unwrap_or (env_num var ''KYRIS_CIRCUIT_BREAKER_MAX_TOKENS'') (cb_max_tokens b),
       cb_session_idle_minutes := unwrap_or (env_num var ''KYRIS_CIRCUIT_BREAKER_SESSION_IDLE_MINUTES'') (cb_session_idle_minutes b)\<rparr>"

definition override_mcp :: "env_vars \<Rightarrow> McpConfig \<Rightarrow> McpConfig" where
  "override_mcp var m =
     m\<lparr>mc_enabled := (case var ''KYRIS_MCP_ENABLED'' of Some v \<Rightarrow> env_flag v | None \<Rightarrow> mc_enabled m),
       mc_pending_timeout_seconds := unwrap_or (env_num var ''KYRIS_MCP_PENDING_TIMEOUT_SECONDS'') (mc_pending_timeout_seconds m),
       mc_socket_timeout_ms := unwrap_or (env_num var ''KYRIS_MCP_SOCKET_TIMEOUT_MS'') (mc_socket_timeout_ms m)\<rparr>"

definition override_stats :: "env_vars \<Rightarrow> StatsConfig \<Rightarrow> StatsConfig" where
  "override_stats var s =
     s\<lparr>st_retention_days := unwrap_or (env_num var ''KYRIS_STATS_RETENTION_DAYS'') (st_retention_days s),
       st_channel_capacity := unwrap_or (env_num var ''KYRIS_STATS_CHANNEL_CAPACITY'') (st_channel_capacity s)\<rparr>"

definition apply_overrides_from :: "env_vars \<Rightarrow> KyrisdConfig \<Rightarrow> KyrisdConfig" where
  "apply_overrides_from var c =
     c\<lparr>kc_server := override_server var (kc_server c),
       kc_circuit_breaker := override_breaker var (kc_circuit_breaker c),
       kc_fetch_interval_hours := unwrap_or (env_num var ''KYRIS_PRICING_FETCH_INTERVAL_HOURS'') (kc_fetch_interval_hours c),
       kc_stats := override_stats var (kc_stats c),
       kc_mcp := override_mcp var (kc_mcp c)\<rparr>"

section \<open>Loading\<close>

record load_env =
  lx_vars :: env_vars
  lx_from_str :: "string \<Rightarrow> string + KyrisdConfig"
  lx_default_yaml :: string
  lx_mkdir_error :: "string option"
  lx_write_error :: "string option"
  lx_new_file_mode :: nat
  lx_chmod :: bool
  lx_read_error :: "string option"
  lx_secret :: secret_env
  lx_random :: "string \<times> string"

record disk =
  dk_config :: "(string \<times> nat) option"
  dk_secrets :: secret_store

datatype 'a startup = ProcessExit nat | Started 'a

text \<open>\<^verbatim>\<open>stat\<close> on a missing file fails; otherwise the mode's bit for reading by others decides.\<close>

definition display_octal :: "nat \<Rightarrow> string" where
  "display_octal n = dropWhile (\<lambda>c. c = CHR ''0'') [char_of (48 + n div 64 mod 8), char_of (48 + n div 8 mod 8)] @ [char_of (48 + n mod 8)]"

definition validate_permissions :: "load_env \<Rightarrow> disk \<Rightarrow> string + unit" where
  "validate_permissions env d =
     (let path = config_path (lx_vars env)
      in case dk_config d of
        None \<Rightarrow> Inl (''failed to stat config file '' @ path)
      | Some (_, mode) \<Rightarrow>
          if odd (mode div 4)
          then Inl (''kyrisd.yaml is world-readable (mode '' @ display_octal (mode mod 512) @
                    ''). Set permissions to 0600: chmod 600 '' @ path)
          else Inr ())"

definition populate_keys :: "load_env \<Rightarrow> KyrisdConfig \<Rightarrow> secret_store \<Rightarrow> (string + KyrisdConfig) \<times> secret_store" where
  "populate_keys env c st =
     (case get_or_create_in (lx_secret env) (fst (lx_random env)) ACCOUNT_INBOUND ''sk-kyris'' st of
        (Inl e, st) \<Rightarrow> (Inl e, st)
      | (Inr inbound, st) \<Rightarrow>
          (case get_or_create_in (lx_secret env) (snd (lx_random env)) ACCOUNT_OPERATOR ''sk-kyris-ops'' st of
             (Inl e, st) \<Rightarrow> (Inl e, st)
           | (Inr operator, st) \<Rightarrow>
               (Inr (c\<lparr>kc_server := (kc_server c)\<lparr>sv_inbound_key := inbound, sv_operator_key := operator\<rparr>\<rparr>), st)))"

definition try_load_config :: "load_env \<Rightarrow> disk \<Rightarrow> (string + KyrisdConfig) \<times> disk" where
  "try_load_config env d =
     (case dk_config d of
        None \<Rightarrow> (Inl (''config not found: '' @ config_path (lx_vars env)), d)
      | Some (contents, _) \<Rightarrow>
          case lx_read_error env of Some e \<Rightarrow> (Inl (''failed to read config: '' @ e), d) | None \<Rightarrow>
          case lx_from_str env contents of Inl e \<Rightarrow> (Inl (''failed to parse config: '' @ e), d) | Inr config \<Rightarrow>
          case validate_api_version config of Inl e \<Rightarrow> (Inl e, d) | Inr _ \<Rightarrow>
          case validate_permissions env d of Inl e \<Rightarrow> (Inl e, d) | Inr _ \<Rightarrow>
          case populate_keys env config (dk_secrets d) of
            (Inl e, st) \<Rightarrow> (Inl e, d\<lparr>dk_secrets := st\<rparr>)
          | (Inr config, st) \<Rightarrow> (Inr (apply_overrides_from (lx_vars env) config), d\<lparr>dk_secrets := st\<rparr>))"

definition create_default_config :: "load_env \<Rightarrow> disk \<Rightarrow> disk startup" where
  "create_default_config env d =
     (if lx_mkdir_error env \<noteq> None \<or> lx_write_error env \<noteq> None then ProcessExit 1
      else Started (d\<lparr>dk_config := Some (lx_default_yaml env, if lx_chmod env then 384 else lx_new_file_mode env)\<rparr>))"

definition load_config_from :: "load_env \<Rightarrow> disk \<Rightarrow> KyrisdConfig startup \<times> disk" where
  "load_config_from env d =
     (case (if dk_config d = None then create_default_config env d else Started d) of
        ProcessExit n \<Rightarrow> (ProcessExit n, d)
      | Started d \<Rightarrow>
          case validate_permissions env d of Inl _ \<Rightarrow> (ProcessExit 1, d) | Inr _ \<Rightarrow>
          case lx_read_error env of Some _ \<Rightarrow> (ProcessExit 1, d) | None \<Rightarrow>
          case lx_from_str env (fst (the (dk_config d))) of Inl _ \<Rightarrow> (ProcessExit 1, d) | Inr config \<Rightarrow>
          case validate_api_version config of Inl _ \<Rightarrow> (ProcessExit 1, d) | Inr _ \<Rightarrow>
          case populate_keys env config (dk_secrets d) of
            (Inl _, st) \<Rightarrow> (ProcessExit 1, d\<lparr>dk_secrets := st\<rparr>)
          | (Inr config, st) \<Rightarrow> (Started (apply_overrides_from (lx_vars env) config), d\<lparr>dk_secrets := st\<rparr>))"

section \<open>The clients' side\<close>

text \<open>The configuration files and the secret stores of a host, by their paths. Which of them a process uses its own
  environment says, so that a client whose \<^verbatim>\<open>XDG_CONFIG_HOME\<close>, \<^verbatim>\<open>XDG_DATA_HOME\<close> or \<^verbatim>\<open>HOME\<close> differs from the daemon's
  reads, and mints, other ones.\<close>

record host_files =
  hf_configs :: "string \<Rightarrow> (string \<times> nat) option"
  hf_secrets :: "string \<Rightarrow> secret_store"

definition disk_of :: "env_vars \<Rightarrow> host_files \<Rightarrow> disk" where
  "disk_of var h = \<lparr>dk_config = hf_configs h (config_path var), dk_secrets = hf_secrets h (secret_dir var)\<rparr>"

definition put_disk :: "env_vars \<Rightarrow> disk \<Rightarrow> host_files \<Rightarrow> host_files" where
  "put_disk var d h =
     \<lparr>hf_configs = (hf_configs h)(config_path var := dk_config d), hf_secrets = (hf_secrets h)(secret_dir var := dk_secrets d)\<rparr>"

definition load_mcp_config :: "load_env \<Rightarrow> host_files \<Rightarrow> McpConfig" where
  "load_mcp_config env h =
     (case hf_configs h (config_path (lx_vars env)) of
        Some (contents, _) \<Rightarrow>
          if lx_read_error env = None
          then (case lx_from_str env contents of Inr c \<Rightarrow> kc_mcp c | Inl _ \<Rightarrow> McpConfig_default)
          else McpConfig_default
      | None \<Rightarrow> McpConfig_default)"

record KyrisdConnection =
  kn_base_url :: string
  kn_operator_key :: string

definition rewrite_wildcard_to_loopback :: "string \<Rightarrow> string" where
  "rewrite_wildcard_to_loopback listen =
     (case strip_prefix ''0.0.0.0'' listen of
        Some port \<Rightarrow> ''127.0.0.1'' @ port
      | None \<Rightarrow>
          case strip_prefix ''[::]:'' listen of
            Some port \<Rightarrow> ''127.0.0.1:'' @ port
          | None \<Rightarrow>
              case strip_prefix ''[::]'' listen of
                Some port \<Rightarrow> ''127.0.0.1'' @ port
              | None \<Rightarrow> listen)"

definition load_kyrisd_connection :: "load_env \<Rightarrow> host_files \<Rightarrow> KyrisdConnection option \<times> host_files" where
  "load_kyrisd_connection env h =
     (let store = secret_dir (lx_vars env)
      in case hf_configs h (config_path (lx_vars env)) of
        None \<Rightarrow> (None, h)
      | Some (contents, _) \<Rightarrow>
          case lx_read_error env of Some _ \<Rightarrow> (None, h) | None \<Rightarrow>
          case lx_from_str env contents of Inl _ \<Rightarrow> (None, h) | Inr config \<Rightarrow>
          case get_or_create_in (lx_secret env) (snd (lx_random env)) ACCOUNT_OPERATOR ''sk-kyris-ops'' (hf_secrets h store) of
            (Inl _, st) \<Rightarrow> (None, h\<lparr>hf_secrets := (hf_secrets h)(store := st)\<rparr>)
          | (Inr operator, st) \<Rightarrow>
              (Some \<lparr>kn_base_url = ''http://'' @ rewrite_wildcard_to_loopback (sv_listen (kc_server config)), kn_operator_key = operator\<rparr>,
               h\<lparr>hf_secrets := (hf_secrets h)(store := st)\<rparr>))"

lemma disk_of_put [simp]: "disk_of var (put_disk var d h) = d"
  by (simp add: disk_of_def put_disk_def)

record Credentials =
  cr_machine_id :: string
  cr_machine_token :: string

definition credentials_load_from :: "(string \<Rightarrow> Credentials option) \<Rightarrow> string option \<Rightarrow> Credentials option" where
  "credentials_load_from from_str contents =
     opt_filter (\<lambda>creds. trim (cr_machine_id creds) \<noteq> [] \<and> trim (cr_machine_token creds) \<noteq> []) (Option.bind contents from_str)"

definition credentials_load :: "env_vars \<Rightarrow> (string \<Rightarrow> Credentials option) \<Rightarrow> (string \<Rightarrow> string option) \<Rightarrow> Credentials option" where
  "credentials_load var from_str read =
     credentials_load_from from_str (read (case var ''KYRIS_CREDENTIALS_PATH'' of Some p \<Rightarrow> p | None \<Rightarrow> credentials_path var))"

section \<open>Reloading\<close>

text \<open>A client of an upstream is its connection pool, known by a number; building one takes the next number.\<close>

type_synonym clients = "(string, nat) hashmap"

record app_config =
  ac_config :: KyrisdConfig
  ac_clients :: clients
  ac_next :: nat

definition provider_configs_match :: "ProviderConfig \<Rightarrow> ProviderConfig \<Rightarrow> bool" where
  "provider_configs_match old new \<longleftrightarrow>
     pc_name old = pc_name new \<and> pc_format old = pc_format new \<and> pc_upstream old = pc_upstream new \<and>
     pc_models old = pc_models new \<and> pc_timeout_seconds old = pc_timeout_seconds new \<and>
     pc_streaming_timeout_seconds old = pc_streaming_timeout_seconds new"

fun build_provider_clients :: "ProviderConfig list \<Rightarrow> nat \<Rightarrow> clients \<Rightarrow> clients \<times> nat" where
  "build_provider_clients [] n acc = (acc, n)"
| "build_provider_clients (p # ps) n acc = build_provider_clients ps (n + 1) (AList.update (pc_name p) n acc)"

definition kept_client :: "ProviderConfig list \<Rightarrow> clients \<Rightarrow> ProviderConfig \<Rightarrow> nat option" where
  "kept_client current clients p =
     Option.bind (List.find (\<lambda>existing. provider_configs_match existing p) current) (\<lambda>existing. map_of clients (pc_name existing))"

fun rebuild_provider_clients_preserving_unchanged ::
    "ProviderConfig list \<Rightarrow> clients \<Rightarrow> ProviderConfig list \<Rightarrow> nat \<Rightarrow> clients \<Rightarrow> clients \<times> nat" where
  "rebuild_provider_clients_preserving_unchanged current clients [] n acc = (acc, n)"
| "rebuild_provider_clients_preserving_unchanged current clients (p # ps) n acc =
     (case kept_client current clients p of
        Some c \<Rightarrow> rebuild_provider_clients_preserving_unchanged current clients ps n (AList.update (pc_name p) c acc)
      | None \<Rightarrow> rebuild_provider_clients_preserving_unchanged current clients ps (n + 1) (AList.update (pc_name p) n acc))"

definition apply_reloaded_config :: "KyrisdConfig \<Rightarrow> app_config \<Rightarrow> app_config" where
  "apply_reloaded_config new_config s =
     (let (cs, n) = rebuild_provider_clients_preserving_unchanged (kc_providers (ac_config s)) (ac_clients s)
                      (kc_providers new_config) (ac_next s) []
      in \<lparr>ac_config = new_config, ac_clients = cs, ac_next = n\<rparr>)"

fun reload_loop :: "(string + KyrisdConfig) list \<Rightarrow> app_config \<Rightarrow> app_config" where
  "reload_loop [] s = s"
| "reload_loop (Inr new_config # events) s = reload_loop events (apply_reloaded_config new_config s)"
| "reload_loop (Inl e # events) s = reload_loop events s"

definition app_start :: "KyrisdConfig \<Rightarrow> app_config" where
  "app_start config = (let (cs, n) = build_provider_clients (kc_providers config) 0 []
                       in \<lparr>ac_config = config, ac_clients = cs, ac_next = n\<rparr>)"


section \<open>What a loaded configuration is\<close>

lemma overrides_keep [simp]:
  "kc_api_version (apply_overrides_from var c) = kc_api_version c"
  "kc_providers (apply_overrides_from var c) = kc_providers c"
  "kc_tls (apply_overrides_from var c) = kc_tls c"
  "sv_inbound_key (kc_server (apply_overrides_from var c)) = sv_inbound_key (kc_server c)"
  "sv_operator_key (kc_server (apply_overrides_from var c)) = sv_operator_key (kc_server c)"
  "sv_listen (kc_server (apply_overrides_from var c)) = unwrap_or (var ''KYRIS_SERVER_LISTEN'') (sv_listen (kc_server c))"
  by (simp_all add: apply_overrides_from_def override_server_def)

text \<open>The key that the store holds for an account.\<close>

definition stored_key :: "secret_store \<Rightarrow> string \<Rightarrow> string option" where
  "stored_key st account = map_option (\<lambda>f. trim_end_matches [nl] (sf_contents f)) (ss_files st account)"

lemma get_or_create_stored:
  "get_or_create_in env rnd account pre st = (Inr key, st') \<Longrightarrow> stored_key st' account = Some key"
  by (erule get_or_create_file) (simp add: stored_key_def)

lemma get_or_create_stored_other:
  "get_or_create_in env rnd account pre st = (r, st') \<Longrightarrow> a \<noteq> account \<Longrightarrow> stored_key st' a = stored_key st a"
  by (simp add: stored_key_def get_or_create_keeps_files(2))

lemma accounts_differ [simp]: "ACCOUNT_INBOUND \<noteq> ACCOUNT_OPERATOR" "ACCOUNT_OPERATOR \<noteq> ACCOUNT_INBOUND"
  by (simp_all add: ACCOUNT_INBOUND_def ACCOUNT_OPERATOR_def)

lemma populate_keys_stored:
  assumes "populate_keys env c st = (Inr c', st')"
  shows "stored_key st' ACCOUNT_INBOUND = Some (sv_inbound_key (kc_server c'))"
    and "stored_key st' ACCOUNT_OPERATOR = Some (sv_operator_key (kc_server c'))"
    and "kc_api_version c' = kc_api_version c" and "kc_providers c' = kc_providers c" and "kc_tls c' = kc_tls c"
    and "sv_listen (kc_server c') = sv_listen (kc_server c)"
  using assms
  by (auto simp: populate_keys_def get_or_create_stored_other split: prod.splits sum.splits dest!: get_or_create_stored)

lemma validate_api_version_ok: "validate_api_version c = Inr u \<longleftrightarrow> kc_api_version c = Some EXPECTED_API_VERSION"
  by (auto simp: validate_api_version_def split: option.splits)

lemma validate_permissions_ok:
  "validate_permissions env d = Inr u \<longleftrightarrow> (\<exists>contents mode. dk_config d = Some (contents, mode) \<and> even (mode div 4))"
  by (auto simp: validate_permissions_def Let_def split: option.splits)

lemma create_default_started: "create_default_config env d = Started d' \<Longrightarrow> dk_secrets d' = dk_secrets d \<and> dk_config d' \<noteq> None"
  by (auto simp: create_default_config_def split: if_splits)

lemma load_config_from_started:
  assumes "load_config_from env d = (Started c, d')"
  obtains contents mode c0 c1 where
    "dk_config d' = Some (contents, mode)" "even (mode div 4)" "lx_from_str env contents = Inr c0"
    "kc_api_version c0 = Some EXPECTED_API_VERSION"
    "populate_keys env c0 (dk_secrets d) = (Inr c1, dk_secrets d')" "c = apply_overrides_from (lx_vars env) c1"
proof -
  obtain d1 where d1: "(if dk_config d = None then create_default_config env d else Started d) = Started d1"
    using assms by (auto simp: load_config_from_def split: startup.splits)
  then have "dk_secrets d1 = dk_secrets d" by (auto split: if_splits dest: create_default_started)
  with assms d1 that show thesis
    by (auto simp: load_config_from_def validate_api_version_ok validate_permissions_ok
          split: sum.splits option.splits prod.splits)
qed

text \<open>
  The daemon only starts on a configuration that declares the supported version and that other users cannot read; it
  runs with the parsed providers and with exactly the two keys that the secret store then holds, whatever the
  environment says.
\<close>

theorem started_config_is_sound:
  assumes "load_config_from env d = (Started c, d')"
  shows "\<exists>contents mode c0. dk_config d' = Some (contents, mode) \<and> even (mode div 4) \<and> lx_from_str env contents = Inr c0 \<and>
           kc_api_version c = Some EXPECTED_API_VERSION \<and> kc_providers c = kc_providers c0 \<and> kc_tls c = kc_tls c0 \<and>
           stored_key (dk_secrets d') ACCOUNT_INBOUND = Some (sv_inbound_key (kc_server c)) \<and>
           stored_key (dk_secrets d') ACCOUNT_OPERATOR = Some (sv_operator_key (kc_server c))"
  by (rule load_config_from_started[OF assms]) (use populate_keys_stored in fastforce)

text \<open>A reload obeys the same conditions, and one that fails leaves the configuration file alone.\<close>

lemma reloaded_config_is_sound:
  assumes "try_load_config env d = (Inr c, d')"
  shows "kc_api_version c = Some EXPECTED_API_VERSION \<and>
         stored_key (dk_secrets d') ACCOUNT_INBOUND = Some (sv_inbound_key (kc_server c)) \<and>
         stored_key (dk_secrets d') ACCOUNT_OPERATOR = Some (sv_operator_key (kc_server c))"
  using assms populate_keys_stored
  by (fastforce simp: try_load_config_def validate_api_version_ok split: option.splits sum.splits prod.splits)

section \<open>Hooks and daemon agree on the key\<close>

definition good_key :: "string \<Rightarrow> bool" where
  "good_key k \<longleftrightarrow> k \<noteq> [] \<and> list_all is_visible_ascii k"

definition keys_ok :: "secret_store \<Rightarrow> bool" where
  "keys_ok st \<longleftrightarrow> (\<forall>a f. ss_files st a = Some f \<longrightarrow>
     valid_utf8 (sf_contents f) \<and> good_key (trim_end_matches [nl] (sf_contents f)))"

lemma generate_secret_good: "list_all is_visible_ascii pre \<Longrightarrow> good_key (generate_secret rnd pre)"
  by (auto simp: good_key_def generate_secret_def list_all_iff is_visible_ascii_def byte_in_def Let_def dest!: hex_byte_range)

lemma visible_valid: "list_all is_visible_ascii s \<Longrightarrow> valid_utf8 s"
  by (rule valid_utf8_ascii) (auto simp: list_all_iff is_visible_ascii_def byte_in_def Let_def)

lemma get_or_create_keys_ok:
  assumes "get_or_create_in env rnd account pre st = (Inr key, st')" "list_all is_visible_ascii pre" "keys_ok st"
  shows "keys_ok st'"
proof -
  have "valid_utf8 (sf_contents f) \<and> good_key (trim_end_matches [nl] (sf_contents f))" if "ss_files st' a = Some f" for a f
  proof (cases "a = account")
    case True
    with get_or_create_file[OF assms(1)] that assms(2,3) show ?thesis
      using generate_secret_valid[OF visible_valid[OF assms(2)]] generate_secret_good[OF assms(2)] generate_secret_last
      by (fastforce simp: keys_ok_def trim_nl_id)
  next
    case False
    with get_or_create_keeps_files(2)[OF assms(1)] that assms(3) show ?thesis by (simp add: keys_ok_def)
  qed
  then show ?thesis by (simp add: keys_ok_def)
qed

lemma account_prefixes: "list_all is_visible_ascii ''sk-kyris''" "list_all is_visible_ascii ''sk-kyris-ops''"
  by code_simp+

lemma populate_keys_ok: "populate_keys env c st = (Inr c', st') \<Longrightarrow> keys_ok st \<Longrightarrow> keys_ok st'"
  using get_or_create_keys_ok account_prefixes
  by (auto simp: populate_keys_def split: prod.splits sum.splits)

lemma read_stored_key:
  assumes "keys_ok st" "stored_key st account = Some key" "sx_mkdir_error env = None" "sx_readable env account"
  shows "\<exists>st'. get_or_create_in env rnd account pre st = (Inr key, st')"
  using assms by (auto simp: keys_ok_def stored_key_def get_or_create_in_def read_to_string_def restrict_dir_def)

text \<open>
  C32. Hooks and daemon agree on the key. When the daemon has started on a store whose keys, if it has any, are non-empty visible ASCII
  (a key file that a crash left empty is not: \<open>Secrets.loser_adopts_empty_key\<close>), every hook or CLI process whose environment leads to the
  same configuration file and the same secret directory, and that can read both, gets a connection whose operator key the daemon
  accepts, with any random bytes of its own.
\<close>
theorem hooks_are_authenticated:
  assumes "keys_ok (hf_secrets h (secret_dir (lx_vars env)))"
    and "load_config_from env (disk_of (lx_vars env) h) = (Started c, d')"
    and "config_path (lx_vars env') = config_path (lx_vars env)" "secret_dir (lx_vars env') = secret_dir (lx_vars env)"
    and "lx_from_str env' = lx_from_str env" "lx_read_error env' = None"
    and "sx_mkdir_error (lx_secret env') = None" "sx_readable (lx_secret env') ACCOUNT_OPERATOR"
  shows "\<exists>conn. fst (load_kyrisd_connection env' (put_disk (lx_vars env) d' h)) = Some conn \<and>
           validate_key [(''authorization'', ''Bearer '' @ kn_operator_key conn)] (sv_operator_key (kc_server c)) = AuthOk"
proof (rule load_config_from_started[OF assms(2)])
  fix contents mode c0 c1
  assume f: "dk_config d' = Some (contents, mode)" "lx_from_str env contents = Inr c0"
    and p: "populate_keys env c0 (dk_secrets (disk_of (lx_vars env) h)) = (Inr c1, dk_secrets d')"
    and c: "c = apply_overrides_from (lx_vars env) c1"
  have ok: "keys_ok (dk_secrets d')" using populate_keys_ok[OF p] assms(1) by (simp add: disk_of_def)
  have key: "stored_key (dk_secrets d') ACCOUNT_OPERATOR = Some (sv_operator_key (kc_server c))"
    using populate_keys_stored(2)[OF p] c by simp
  obtain st where get: "get_or_create_in (lx_secret env') (snd (lx_random env')) ACCOUNT_OPERATOR ''sk-kyris-ops'' (dk_secrets d') =
      (Inr (sv_operator_key (kc_server c)), st)"
    using read_stored_key[OF ok key assms(7,8)] by blast
  have "good_key (sv_operator_key (kc_server c))" using ok key by (fastforce simp: keys_ok_def stored_key_def)
  then have "validate_key [(''authorization'', ''Bearer '' @ sv_operator_key (kc_server c))] (sv_operator_key (kc_server c)) = AuthOk"
    by (simp add: good_key_def bearer_key_accepted)
  with f get assms(3-6) show ?thesis by (simp add: load_kyrisd_connection_def put_disk_def Let_def)
qed

text \<open>The address, unlike the key, can drift: the override of the listen address is seen by the daemon only, and the clients speak
  plain HTTP to a daemon that is configured for TLS.\<close>

lemma listen_override_is_daemon_only:
  assumes "load_config_from env d = (Started c, d')" "lx_vars env ''KYRIS_SERVER_LISTEN'' = Some a"
    and "load_kyrisd_connection env (put_disk (lx_vars env) d' h) = (Some conn, h')"
  shows "sv_listen (kc_server c) = a \<and>
    (\<exists>contents mode c0. dk_config d' = Some (contents, mode) \<and> lx_from_str env contents = Inr c0 \<and>
       kn_base_url conn = ''http://'' @ rewrite_wildcard_to_loopback (sv_listen (kc_server c0)))"
  by (rule load_config_from_started[OF assms(1)])
     (use assms(2,3) in \<open>auto simp: load_kyrisd_connection_def put_disk_def Let_def split: option.splits sum.splits prod.splits\<close>)


section \<open>Reloads\<close>

lemma match_is_eq: "provider_configs_match old new \<longleftrightarrow> old = (new :: ProviderConfig)"
  by (cases old; cases new) (auto simp: provider_configs_match_def)

lemma kept_client_eq: "kept_client current clients p = (if p \<in> set current then map_of clients (pc_name p) else None)"
proof (cases "p \<in> set current")
  case True
  then have "List.find (\<lambda>existing. existing = p) current = Some p"
    by (induction current) auto
  with True show ?thesis by (simp add: kept_client_def match_is_eq)
next
  case False
  then have "List.find (\<lambda>existing. existing = p) current = None" by (auto simp: find_None_iff)
  with False show ?thesis by (simp add: kept_client_def match_is_eq)
qed

lemma rebuild_spec:
  assumes "rebuild_provider_clients_preserving_unchanged cur cl ps n acc = (cs, n')" and "distinct (map pc_name ps)"
  shows "n \<le> n' \<and> (\<forall>k. k \<notin> pc_name ` set ps \<longrightarrow> map_of cs k = map_of acc k) \<and>
    (\<forall>p \<in> set ps. case kept_client cur cl p of
        Some c \<Rightarrow> map_of cs (pc_name p) = Some c
      | None \<Rightarrow> \<exists>m. map_of cs (pc_name p) = Some m \<and> n \<le> m \<and> m < n')"
  using assms
proof (induction ps arbitrary: n acc)
  case (Cons p ps)
  show ?case
  proof (cases "kept_client cur cl p")
    case None
    with Cons.IH[of "n + 1" "AList.update (pc_name p) n acc"] Cons.prems show ?thesis
      by (fastforce simp: update_conv' split: option.splits)
  next
    case (Some c)
    with Cons.IH[of n "AList.update (pc_name p) c acc"] Cons.prems show ?thesis
      by (fastforce simp: update_conv' split: option.splits)
  qed
qed simp

lemma build_is_rebuild:
  "build_provider_clients ps n acc = rebuild_provider_clients_preserving_unchanged [] [] ps n acc"
  by (induction ps n acc rule: build_provider_clients.induct) (simp_all add: kept_client_def)

text \<open>Every provider of the current configuration has a client, and nobody else has.\<close>

definition app_ok :: "app_config \<Rightarrow> bool" where
  "app_ok s \<longleftrightarrow> (\<forall>k. map_of (ac_clients s) k \<noteq> None \<longleftrightarrow> k \<in> pc_name ` set (kc_providers (ac_config s))) \<and>
     (\<forall>k c. map_of (ac_clients s) k = Some c \<longrightarrow> c < ac_next s)"

definition names_distinct :: "KyrisdConfig \<Rightarrow> bool" where
  "names_distinct c \<longleftrightarrow> distinct (map pc_name (kc_providers c))"

lemma rebuild_ok:
  assumes "rebuild_provider_clients_preserving_unchanged cur cl ps n [] = (cs, n')" and "distinct (map pc_name ps)"
    and "\<And>k c. map_of cl k = Some c \<Longrightarrow> c < n"
  shows "(map_of cs k \<noteq> None \<longleftrightarrow> k \<in> pc_name ` set ps) \<and> (map_of cs k = Some c \<longrightarrow> c < n')"
proof (cases "k \<in> pc_name ` set ps")
  case True
  then obtain p where p: "p \<in> set ps" "k = pc_name p" by blast
  with rebuild_spec[OF assms(1,2)] have n: "n \<le> n'" and
    s: "case kept_client cur cl p of Some c \<Rightarrow> map_of cs (pc_name p) = Some c
        | None \<Rightarrow> \<exists>m. map_of cs (pc_name p) = Some m \<and> n \<le> m \<and> m < n'" by blast+
  show ?thesis
  proof (cases "kept_client cur cl p")
    case None
    with s p show ?thesis by auto
  next
    case (Some c')
    then have "c' < n" using assms(3) by (auto simp: kept_client_eq split: if_splits)
    with Some s p n show ?thesis by auto
  qed
qed (use rebuild_spec[OF assms(1,2)] in auto)

lemma apply_reloaded_ok: "app_ok s \<Longrightarrow> names_distinct c \<Longrightarrow> app_ok (apply_reloaded_config c s)"
  using rebuild_ok[of "kc_providers (ac_config s)" "ac_clients s" "kc_providers c" "ac_next s"]
  by (auto simp: app_ok_def names_distinct_def apply_reloaded_config_def split: prod.splits)

lemma app_start_ok: "names_distinct c \<Longrightarrow> app_ok (app_start c)"
  using rebuild_ok[of "[]" "[]" "kc_providers c" 0]
  by (auto simp: app_ok_def names_distinct_def app_start_def build_is_rebuild split: prod.splits)

lemma reload_loop_ok: "app_ok s \<Longrightarrow> (\<And>c. Inr c \<in> set events \<Longrightarrow> names_distinct c) \<Longrightarrow> app_ok (reload_loop events s)"
  by (induction events s rule: reload_loop.induct) (auto intro: apply_reloaded_ok)

lemma reload_loop_snoc: "reload_loop (events @ [Inr c]) s = apply_reloaded_config c (reload_loop events s)"
  by (induction events s rule: reload_loop.induct) simp_all

text \<open>
  After any sequence of reloads, failed ones included, one more successful reload puts the new configuration in force and leaves exactly
  the configured providers with a client: a provider whose entry did not change keeps its connections, every other one gets
  a client that no provider had before.
\<close>

theorem reload_keeps_unchanged_connections:
  assumes "names_distinct c0" and "\<And>c'. Inr c' \<in> set events \<Longrightarrow> names_distinct c'" and "names_distinct c"
    and "s = reload_loop events (app_start c0)" and "s' = reload_loop (events @ [Inr c]) (app_start c0)"
  shows "ac_config s' = c \<and>
    (\<forall>k. map_of (ac_clients s') k \<noteq> None \<longleftrightarrow> k \<in> pc_name ` set (kc_providers c)) \<and>
    (\<forall>p \<in> set (kc_providers c).
       if p \<in> set (kc_providers (ac_config s)) then map_of (ac_clients s') (pc_name p) = map_of (ac_clients s) (pc_name p)
       else \<exists>m. map_of (ac_clients s') (pc_name p) = Some m \<and> m \<notin> ran (map_of (ac_clients s)))"
proof -
  have ok: "app_ok s" unfolding assms(4) by (rule reload_loop_ok[OF app_start_ok[OF assms(1)]]) (rule assms(2))
  have s': "s' = apply_reloaded_config c s" using assms(4,5) by (simp add: reload_loop_snoc)
  obtain cs n' where cs: "rebuild_provider_clients_preserving_unchanged (kc_providers (ac_config s)) (ac_clients s) (kc_providers c) (ac_next s) [] = (cs, n')"
    by fastforce
  then have eq: "ac_clients s' = cs" "ac_config s' = c" using s' by (simp_all add: apply_reloaded_config_def)
  have "app_ok s'" using apply_reloaded_ok[OF ok assms(3)] s' by simp
  moreover have "if p \<in> set (kc_providers (ac_config s)) then map_of cs (pc_name p) = map_of (ac_clients s) (pc_name p)
      else \<exists>m. map_of cs (pc_name p) = Some m \<and> m \<notin> ran (map_of (ac_clients s))" if p: "p \<in> set (kc_providers c)" for p
  proof -
    have "case kept_client (kc_providers (ac_config s)) (ac_clients s) p of Some c \<Rightarrow> map_of cs (pc_name p) = Some c
        | None \<Rightarrow> \<exists>m. map_of cs (pc_name p) = Some m \<and> ac_next s \<le> m \<and> m < n'"
      using rebuild_spec[OF cs] assms(3) p by (simp add: names_distinct_def)
    moreover have "p \<in> set (kc_providers (ac_config s)) \<Longrightarrow> map_of (ac_clients s) (pc_name p) \<noteq> None"
      using ok by (auto simp: app_ok_def)
    moreover have "m \<notin> ran (map_of (ac_clients s))" if "ac_next s \<le> m" for m
      using ok that by (fastforce simp: app_ok_def ran_def)
    ultimately show ?thesis by (auto simp: kept_client_eq split: option.splits if_splits)
  qed
  ultimately show ?thesis using eq by (simp add: app_ok_def)
qed

section \<open>Witnesses\<close>

definition sample_kyrisd :: KyrisdConfig where
  "sample_kyrisd = KyrisdConfig_empty\<lparr>kc_api_version := Some ''kyris/v1'', kc_providers := [default_for Anthropic]\<rparr>"

definition sample_load_env :: load_env where
  "sample_load_env = \<lparr>lx_vars = (\<lambda>_. None), lx_from_str = (\<lambda>s. if s = ''yaml'' then Inr sample_kyrisd else Inl ''bad''),
     lx_default_yaml = ''yaml'', lx_mkdir_error = None, lx_write_error = None, lx_new_file_mode = 420, lx_chmod = True,
     lx_read_error = None, lx_secret = plain_fs, lx_random = (''a'', ''b'')\<rparr>"

definition sample_disk :: disk where
  "sample_disk = \<lparr>dk_config = None, dk_secrets = empty_store\<rparr>"

definition sample_store :: secret_store where
  "sample_store = \<lparr>ss_dir_mode = 448, ss_files =
     [''inbound_key'' \<mapsto> \<lparr>sf_contents = ''sk-kyris-61'', sf_mode = 384\<rparr>,
      ''operator_key'' \<mapsto> \<lparr>sf_contents = ''sk-kyris-ops-62'', sf_mode = 384\<rparr>]\<rparr>"

lemma sample_secrets: "generate_secret ''a'' ''sk-kyris'' = ''sk-kyris-61''" "generate_secret ''b'' ''sk-kyris-ops'' = ''sk-kyris-ops-62''"
  by code_simp+

lemma sample_populate:
  "populate_keys sample_load_env c empty_store =
     (Inr (c\<lparr>kc_server := (kc_server c)\<lparr>sv_inbound_key := ''sk-kyris-61'', sv_operator_key := ''sk-kyris-ops-62''\<rparr>\<rparr>), sample_store)"
  by (simp add: populate_keys_def sample_load_env_def get_or_create_in_def restrict_dir_def read_to_string_def create_secret_file_def
      write_all_def Let_def empty_store_def sample_secrets ACCOUNT_INBOUND_def ACCOUNT_OPERATOR_def sample_store_def plain_fs_def)

lemma sample_load:
  "load_config_from sample_load_env sample_disk =
     (Started (apply_overrides_from (\<lambda>_. None)
        (sample_kyrisd\<lparr>kc_server := ServerConfig_default\<lparr>sv_inbound_key := ''sk-kyris-61'', sv_operator_key := ''sk-kyris-ops-62''\<rparr>\<rparr>)),
      \<lparr>dk_config = Some (''yaml'', 384), dk_secrets = sample_store\<rparr>)"
  using sample_populate[of sample_kyrisd]
  by (simp add: load_config_from_def sample_disk_def create_default_config_def sample_load_env_def validate_permissions_def
      validate_api_version_def EXPECTED_API_VERSION_def sample_kyrisd_def KyrisdConfig_empty_def)

theorem started_config_is_sound_witness:
  "stored_key sample_store ACCOUNT_OPERATOR = Some ''sk-kyris-ops-62''"
  using started_config_is_sound[OF sample_load] by auto

definition sample_host :: host_files where
  "sample_host = \<lparr>hf_configs = (\<lambda>_. None), hf_secrets = (\<lambda>_. empty_store)\<rparr>"

text \<open>A client that has \<^verbatim>\<open>XDG_STATE_HOME\<close> and \<^verbatim>\<open>KYRIS_HOME\<close> set finds the daemon's store all the same.\<close>

definition sample_client_env :: load_env where
  "sample_client_env = sample_load_env\<lparr>lx_vars := [''XDG_STATE_HOME'' \<mapsto> ''/s'', ''KYRIS_HOME'' \<mapsto> ''/k''], lx_random := (''c'', ''d'')\<rparr>"

theorem hooks_are_authenticated_witness:
  "\<exists>conn. fst (load_kyrisd_connection sample_client_env
       (put_disk (\<lambda>_. None) \<lparr>dk_config = Some (''yaml'', 384), dk_secrets = sample_store\<rparr> sample_host)) = Some conn \<and>
     validate_key [(''authorization'', ''Bearer '' @ kn_operator_key conn)] ''sk-kyris-ops-62'' = AuthOk"
proof -
  have vars: "lx_vars sample_load_env = (\<lambda>_. None)" by (simp add: sample_load_env_def)
  have d: "disk_of (\<lambda>_. None) sample_host = sample_disk" by (simp add: disk_of_def sample_host_def sample_disk_def)
  have k: "keys_ok (hf_secrets sample_host (secret_dir (\<lambda>_. None)))" by (simp add: keys_ok_def sample_host_def empty_store_def)
  have e: "config_path (lx_vars sample_client_env) = config_path (\<lambda>_. None)" "secret_dir (lx_vars sample_client_env) = secret_dir (\<lambda>_. None)"
    "lx_from_str sample_client_env = lx_from_str sample_load_env" "lx_read_error sample_client_env = None"
    "sx_mkdir_error (lx_secret sample_client_env) = None" "sx_readable (lx_secret sample_client_env) ACCOUNT_OPERATOR"
    by (simp_all add: sample_client_env_def sample_load_env_def config_path_def config_dir_def secret_dir_def data_dir_def home_def plain_fs_def)
  show ?thesis
    using hooks_are_authenticated[of sample_host sample_load_env, unfolded vars d, OF k sample_load e] by simp
qed

theorem reload_keeps_unchanged_connections_witness:
  "map_of (ac_clients (reload_loop ([Inl ''bad yaml''] @ [Inr sample_kyrisd]) (app_start sample_kyrisd))) ''anthropic'' = Some 0"
proof -
  have d: "names_distinct sample_kyrisd" by (simp add: names_distinct_def sample_kyrisd_def)
  show ?thesis
    using reload_keeps_unchanged_connections[OF d _ d refl refl, of "[Inl ''bad yaml'']"]
    by (simp add: app_start_def sample_kyrisd_def KyrisdConfig_empty_def default_for_def)
qed

end
