(* ===== verification/ModeToggle.thy ===== *)
theory ModeToggle
  imports Prelude
begin

text \<open>
  The switches \<^verbatim>\<open>kyris disable\<close> and \<^verbatim>\<open>kyris enable\<close>, \<^verbatim>\<open>cli/src/lifecycle/run_state.rs\<close>: they rewrite the line with the key
  \<^verbatim>\<open>mode:\<close> in the user's policy file, line by line and without a YAML parser. The policy file is an optional text; the
  environment says whether the policy daemon answers and which system calls fail.
\<close>

section \<open>Rewriting\<close>

definition MODE_LOG :: string where "MODE_LOG = ''log''"
definition MODE_ENFORCE :: string where "MODE_ENFORCE = ''enforce''"

text \<open>The value and the comment after \<^verbatim>\<open>mode:\<close>.\<close>

definition split_comment :: "string \<Rightarrow> string \<times> string" where
  "split_comment rest = (takeWhile (\<lambda>c. c \<noteq> CHR ''#'') rest, dropWhile (\<lambda>c. c \<noteq> CHR ''#'') rest)"

definition rewritten_line :: "string \<Rightarrow> string \<Rightarrow> string \<Rightarrow> string" where
  "rewritten_line target_mode raw_line rest =
     (let trimmed = trim_start raw_line;
          comment_part = snd (split_comment rest);
          indent = take (length raw_line - length trimmed) raw_line;
          comment_suffix = (if comment_part = [] then [] else ''  '' @ comment_part)
      in indent @ ''mode: '' @ target_mode @ comment_suffix)"

fun rewrite_loop :: "string \<Rightarrow> string list \<Rightarrow> bool \<Rightarrow> bool \<Rightarrow> string \<Rightarrow> bool \<times> bool \<times> string" where
  "rewrite_loop target_mode [] found changed output = (found, changed, output)"
| "rewrite_loop target_mode (raw_line # ls) found changed output =
     (let trimmed = trim_start raw_line
      in if found then rewrite_loop target_mode ls found changed (output @ raw_line @ [nl])
         else if prefix ''#'' trimmed \<or> trimmed = [] then rewrite_loop target_mode ls found changed (output @ raw_line @ [nl])
         else case strip_prefix ''mode:'' trimmed of
                Some rest \<Rightarrow>
                  let current_value = trim (fst (split_comment rest))
                  in rewrite_loop target_mode ls True (changed \<or> current_value \<noteq> target_mode)
                       (output @ rewritten_line target_mode raw_line rest @ [nl])
              | None \<Rightarrow> rewrite_loop target_mode ls found changed (output @ raw_line @ [nl]))"

definition rewrite_mode_line :: "string \<Rightarrow> string \<Rightarrow> string + string \<times> bool" where
  "rewrite_mode_line contents target_mode =
     (let (found, changed, output) = rewrite_loop target_mode (lines contents) False False []
      in if \<not> found
         then Inl (''no uncommented `mode:` key found. Add `  mode: '' @ target_mode @
                   ''` under `spec:` or delete the file to have `kyris install` re-seed it.'')
         else Inr (if \<not> suffix [nl] contents \<and> suffix [nl] output then butlast output else output, changed))"

definition fresh_pact_yaml :: "string \<Rightarrow> string" where
  "fresh_pact_yaml target_mode = text_of
     [''# SPDX-License-Identifier: Apache-2.0'',
      ''# User policy. Toggle enforcement with `kyris disable` (log)'',
      ''# or `kyris enable` (enforce). Add `commands:` rules under'',
      ''# `spec:` for per-pattern decisions.'',
      ''apiVersion: agentpact/v1'',
      ''kind: Pact'',
      ''metadata:'',
      ''  name: user-default'',
      ''spec:'',
      ''  mode: '' @ target_mode]"

section \<open>The commands\<close>

datatype WriteOutcome = Created | Updated | Unchanged

record toggle_env =
  te_mkdir_error :: "string option"
  te_read_error :: "string option"
  te_write_error :: "(nat option \<times> string) option"
  te_reachable :: bool
  te_xdg_config_home :: "string option"
  te_home_var :: "string option"

definition pact_yaml_path :: "toggle_env \<Rightarrow> string" where
  "pact_yaml_path env =
     path_join (unwrap_or (te_xdg_config_home env) (unwrap_or (te_home_var env) [] @ ''/.config'')) ''agentpact/policy/pact.yaml''"

text \<open>\<^verbatim>\<open>std::fs::write\<close> fails on opening the file, or after it has truncated it and written some bytes.\<close>

definition fs_write :: "toggle_env \<Rightarrow> string \<Rightarrow> string option \<Rightarrow> string option \<times> string option" where
  "fs_write env new file =
     (case te_write_error env of
        None \<Rightarrow> (None, Some new)
      | Some (None, e) \<Rightarrow> (Some e, file)
      | Some (Some n, e) \<Rightarrow> (Some e, Some (take n new)))"

definition write_mode_in_place :: "toggle_env \<Rightarrow> string \<Rightarrow> string option \<Rightarrow> (string + WriteOutcome) \<times> string option" where
  "write_mode_in_place env target_mode file =
     (case file of
        None \<Rightarrow>
          (case te_mkdir_error env of
             Some e \<Rightarrow> (Inl (''create dir: '' @ e), file)
           | None \<Rightarrow>
               case fs_write env (fresh_pact_yaml target_mode) file of
                 (Some e, file) \<Rightarrow> (Inl (''write: '' @ e), file)
               | (None, file) \<Rightarrow> (Inr Created, file))
      | Some contents \<Rightarrow>
          case te_read_error env of
            Some e \<Rightarrow> (Inl (''read: '' @ e), file)
          | None \<Rightarrow>
              if \<not> valid_utf8 contents then (Inl ''read: stream did not contain valid UTF-8'', file)
              else case rewrite_mode_line contents target_mode of
                     Inl e \<Rightarrow> (Inl e, file)
                   | Inr (new_contents, changed) \<Rightarrow>
                       if \<not> changed then (Inr Unchanged, file)
                       else case fs_write env new_contents file of
                              (Some e, file) \<Rightarrow> (Inl (''write: '' @ e), file)
                            | (None, file) \<Rightarrow> (Inr Updated, file))"

datatype toggle_result = ToggleExit nat string | ToggleOk WriteOutcome

definition run_toggle :: "toggle_env \<Rightarrow> string \<Rightarrow> string option \<Rightarrow> toggle_result \<times> string option" where
  "run_toggle env target_mode file =
     (if \<not> te_reachable env then (ToggleExit 1 ''agentpactd is not reachable'', file)
      else case write_mode_in_place env target_mode file of
             (Inl e, file) \<Rightarrow> (ToggleExit 1 (''could not update '' @ pact_yaml_path env @ '': '' @ e), file)
           | (Inr outcome, file) \<Rightarrow> (ToggleOk outcome, file))"

definition run_disable :: "toggle_env \<Rightarrow> string option \<Rightarrow> toggle_result \<times> string option" where
  "run_disable env file = run_toggle env MODE_LOG file"

definition run_enable :: "toggle_env \<Rightarrow> string option \<Rightarrow> toggle_result \<times> string option" where
  "run_enable env file = run_toggle env MODE_ENFORCE file"

section \<open>The mode that a text has\<close>

definition mode_rest :: "string \<Rightarrow> string option" where
  "mode_rest raw_line = (if prefix ''#'' (trim_start raw_line) then None else strip_prefix ''mode:'' (trim_start raw_line))"

text \<open>The value of the first line with the key, as the loop reads it.\<close>

fun first_mode :: "string list \<Rightarrow> string option" where
  "first_mode [] = None"
| "first_mode (l # ls) = (case mode_rest l of Some rest \<Rightarrow> Some (trim (fst (split_comment rest))) | None \<Rightarrow> first_mode ls)"


section \<open>What the loop does\<close>

lemma mode_rest_Some: "mode_rest l = Some rest \<longleftrightarrow> trim_start l = ''mode:'' @ rest"
  by (auto simp: mode_rest_def)

lemma rewrite_loop_found: "rewrite_loop m ls True ch out = (True, ch, out @ text_of ls)"
  by (induction ls arbitrary: out) (simp_all add: Let_def)

lemma rewrite_loop_none: "first_mode ls = None \<Longrightarrow> rewrite_loop m ls False ch out = (False, ch, out @ text_of ls)"
  by (induction ls arbitrary: out)
     (auto simp: Let_def mode_rest_def split: option.splits if_splits)

lemma rewrite_loop_some:
  assumes "first_mode pre = None" and "mode_rest l = Some rest"
  shows "rewrite_loop m (pre @ l # post) False ch out =
    (True, ch \<or> trim (fst (split_comment rest)) \<noteq> m, out @ text_of (pre @ rewritten_line m l rest # post))"
  using assms(1)
proof (induction pre arbitrary: out)
  case Nil
  from assms(2) show ?case by (simp add: mode_rest_Some rewrite_loop_found Let_def strip_prefix_def)
next
  case (Cons x pre)
  then show ?case by (auto simp: Let_def mode_rest_def split: option.splits if_splits)
qed

lemma first_mode_split:
  assumes "first_mode ls = Some v"
  obtains pre l rest post where "ls = pre @ l # post" "first_mode pre = None" "mode_rest l = Some rest"
    "v = trim (fst (split_comment rest))"
  using assms
proof (induction ls arbitrary: thesis)
  case (Cons x ls)
  show ?case
  proof (cases "mode_rest x")
    case None
    with Cons.prems(2) have "first_mode ls = Some v" by simp
    then obtain pre l rest post where "ls = pre @ l # post" "first_mode pre = None" "mode_rest l = Some rest"
      "v = trim (fst (split_comment rest))"
      using Cons.IH by metis
    with None show ?thesis by (intro Cons.prems(1)[of "x # pre" l post rest]) simp_all
  next
    case (Some rest)
    with Cons.prems show ?thesis by (intro Cons.prems(1)[of "[]" x ls rest]) simp_all
  qed
qed simp

lemma first_mode_append: "first_mode pre = None \<Longrightarrow> first_mode (pre @ ls) = first_mode ls"
  by (induction pre) (auto split: option.splits)

section \<open>White space around the key\<close>

lemma white_space_prefix_free:
  "list_all (\<lambda>v. list_all (\<lambda>w. v = w \<or> \<not> prefix v w) white_space) white_space"
  by (simp add: white_space_bytes)

lemma white_space_prefix_unique:
  assumes "v \<in> set white_space" "w \<in> set white_space" "prefix v (w @ t)"
  shows "v = w"
proof -
  have "prefix v w \<or> prefix w v" using assms(3) prefix_same_cases[of v "w @ t" w] by simp
  then show ?thesis using white_space_prefix_free assms(1,2) by (auto simp: list_all_iff)
qed

lemma trim_start_white: "w \<in> set white_space \<Longrightarrow> trim_start (w @ t) = trim_start t"
proof -
  assume w: "w \<in> set white_space"
  then have "List.find (\<lambda>v. prefix v (w @ t)) white_space \<noteq> None" by (auto simp: find_None_iff)
  then obtain v where v: "List.find (\<lambda>v. prefix v (w @ t)) white_space = Some v" by blast
  then have "v \<in> set white_space" "prefix v (w @ t)" by (auto simp: find_Some_iff)
  with w have "v = w" using white_space_prefix_unique by blast
  with v show ?thesis by (simp add: trim_start.simps[of "w @ t"])
qed

lemma trim_start_graph: "t \<noteq> [] \<Longrightarrow> byte_in 0x21 0x7E (hd t) \<Longrightarrow> trim_start t = t"
proof -
  assume "t \<noteq> []" "byte_in 0x21 0x7E (hd t)"
  then have "\<not> prefix w t" if "w \<in> set white_space" for w
    using white_space_not_graph[OF that] by (auto simp: prefix_def)
  then have "List.find (\<lambda>w. prefix w t) white_space = None" by (auto simp: find_None_iff)
  then show ?thesis by (simp add: trim_start.simps[of t])
qed

text \<open>What is trimmed can be put before any other text and is trimmed again.\<close>

lemma trim_start_indent:
  "\<exists>ws. s = ws @ trim_start s \<and> (\<forall>t. trim_start (ws @ t) = trim_start t)"
proof (induction s rule: trim_start.induct)
  case (1 s)
  show ?case
  proof (cases "List.find (\<lambda>w. prefix w s) white_space")
    case None
    then have "trim_start s = s" by (simp add: trim_start.simps[of s])
    then show ?thesis by (intro exI[of _ "[]"]) simp
  next
    case (Some w)
    then obtain ws where ws: "drop (length w) s = ws @ trim_start (drop (length w) s)" "\<forall>t. trim_start (ws @ t) = trim_start t"
      using 1 by blast
    from Some have w: "w \<in> set white_space" "prefix w s" by (auto simp: find_Some_iff)
    then have "s = w @ drop (length w) s" by (auto simp: prefix_def)
    moreover have "trim_start s = trim_start (drop (length w) s)" using Some by (simp add: trim_start.simps[of s])
    ultimately have "s = (w @ ws) @ trim_start s" using ws(1) by simp
    moreover have "trim_start ((w @ ws) @ t) = trim_start t" for t using trim_start_white[OF w(1)] ws(2) by simp
    ultimately show ?thesis by blast
  qed
qed

lemma trim_end_space: "trim_end (t @ '' '') = trim_end t"
proof -
  have "list_all (\<lambda>w. last w = CHR '' '' \<longrightarrow> w = '' '') white_space" by (simp add: white_space_bytes)
  then have only: "suffix w (t @ '' '') \<longleftrightarrow> w = '' ''" if "w \<in> set white_space" for w
    using that white_space_nonempty[OF that] by (auto simp: list_all_iff suffix_def) (metis last_append last_snoc)
  obtain w where w: "List.find (\<lambda>w. suffix w (t @ '' '')) white_space = Some w"
    using only space_white by (cases "List.find (\<lambda>w. suffix w (t @ '' '')) white_space") (auto simp: find_None_iff)
  then have "w \<in> set white_space \<and> suffix w (t @ '' '')" by (metis (mono_tags, lifting) find_Some_iff nth_mem)
  then have "w = '' ''" using only by blast
  with w show ?thesis by (simp add: trim_end.simps[of "t @ '' ''"])
qed


text \<open>The two modes are words: no white space at their ends and no comment sign in them.\<close>

definition word_mode :: "string \<Rightarrow> bool" where
  "word_mode m \<longleftrightarrow> m \<noteq> [] \<and> byte_in 0x21 0x7E (hd m) \<and> byte_in 0x21 0x7E (last m) \<and> list_all (\<lambda>c. c \<noteq> CHR ''#'' \<and> c \<noteq> nl \<and> c \<noteq> cr) m"

lemma modes_are_words: "word_mode MODE_LOG" "word_mode MODE_ENFORCE"
  by code_simp+

lemma trim_word: "word_mode m \<Longrightarrow> trim ('' '' @ m) = m \<and> trim ('' '' @ m @ ''  '') = m"
proof -
  assume m: "word_mode m"
  note sp = space_white
  have ts: "trim_start ('' '' @ m @ x) = m @ x" for x
    using trim_start_white[OF sp, of "m @ x"] trim_start_graph[of "m @ x"] m by (simp add: word_mode_def)
  have "trim_end m = m" using trim_graph[of m] trim_start_graph[of m] m by (simp add: word_mode_def trim_def)
  moreover from this have "trim_end (m @ ''  '') = m" using trim_end_space[of "m @ '' ''"] trim_end_space[of m] by simp
  ultimately show ?thesis using ts[of "[]"] ts[of "''  ''"] by (simp add: trim_def)
qed

lemma split_comment_comment: "snd (split_comment rest) = [] \<or> hd (snd (split_comment rest)) = CHR ''#''"
  using hd_dropWhile[of "\<lambda>c. c \<noteq> CHR ''#''" rest] by (auto simp: split_comment_def)

lemma takeWhile_until: "list_all P xs \<Longrightarrow> ys = [] \<or> \<not> P (hd ys) \<Longrightarrow> takeWhile P (xs @ ys) = xs"
  by (induction xs) (cases ys; auto)+

lemma rewritten_line_eq:
  assumes "mode_rest l = Some rest"
  obtains ws c where "l = ws @ ''mode:'' @ rest" "rewritten_line m l rest = ws @ ''mode: '' @ m @ c"
    "c = [] \<or> c = ''  '' @ snd (split_comment rest) \<and> snd (split_comment rest) \<noteq> []" "\<And>t. trim_start (ws @ t) = trim_start t"
proof -
  obtain ws where ws: "l = ws @ trim_start l" "\<And>t. trim_start (ws @ t) = trim_start t"
    using trim_start_indent[of l] by blast
  have t: "trim_start l = ''mode:'' @ rest" using assms by (simp add: mode_rest_Some)
  then have "take (length l - length (trim_start l)) l = ws" using ws(1)
    by (metis append_eq_conv_conj diff_add_inverse2 length_append)
  with ws t that show thesis by (auto simp: rewritten_line_def Let_def)
qed

lemma rewritten_line_mode:
  assumes "mode_rest l = Some rest" "word_mode m"
  shows "\<exists>rest'. mode_rest (rewritten_line m l rest) = Some rest' \<and> trim (fst (split_comment rest')) = m"
proof (rule rewritten_line_eq[OF assms(1), of m])
  fix ws c
  assume r: "rewritten_line m l rest = ws @ ''mode: '' @ m @ c" and ws: "\<And>t. trim_start (ws @ t) = trim_start t"
    and c: "c = [] \<or> c = ''  '' @ snd (split_comment rest) \<and> snd (split_comment rest) \<noteq> []"
  have "trim_start (''mode: '' @ m @ c) = ''mode: '' @ m @ c" by (rule trim_start_graph) (simp_all add: byte_in_def)
  then have "mode_rest (rewritten_line m l rest) = Some ('' '' @ m @ c)" using r ws by (simp add: mode_rest_Some)
  moreover have "trim (fst (split_comment ('' '' @ m @ c))) = m"
  proof (cases "c = []")
    case True
    have "takeWhile (\<lambda>c. c \<noteq> CHR ''#'') m = m"
      using assms(2) by (simp add: word_mode_def list_all_iff takeWhile_eq_all_conv)
    with True have "fst (split_comment ('' '' @ m @ c)) = '' '' @ m" by (simp add: split_comment_def del: takeWhile_eq_all_conv)
    with trim_word[OF assms(2)] show ?thesis by simp
  next
    case False
    with c have c: "c = ''  '' @ snd (split_comment rest)" "hd (snd (split_comment rest)) = CHR ''#''"
      using split_comment_comment[of rest] by auto
    have "takeWhile (\<lambda>c. c \<noteq> CHR ''#'') (('' '' @ m @ ''  '') @ snd (split_comment rest)) = '' '' @ m @ ''  ''"
      by (rule takeWhile_until) (use assms(2) c(2) in \<open>auto simp: word_mode_def list_all_iff\<close>)
    with c trim_word[OF assms(2)] show ?thesis by (simp add: split_comment_def)
  qed
  ultimately show ?thesis by blast
qed


section \<open>Lines of the result\<close>

lemma lines_aux_chars: "l \<in> set (lines_aux acc s) \<Longrightarrow> nl \<notin> set acc \<Longrightarrow> nl \<notin> set l \<and> set l \<subseteq> set acc \<union> set s"
proof (induction acc s arbitrary: l rule: lines_aux.induct)
  case (1 acc)
  then show ?case by (auto split: if_splits)
next
  case (2 acc x xs)
  have "set (chomp_cr (rev acc)) \<subseteq> set acc" by (auto simp: chomp_cr_def dest: in_set_butlastD list.set_sel(2)[rotated])
  with 2 show ?case by (fastforce split: if_splits)
qed

lemma lines_chars: "l \<in> set (lines s) \<Longrightarrow> nl \<notin> set l \<and> set l \<subseteq> set s"
  using lines_aux_chars[of l "[]" s] by (simp add: lines_def)

lemma text_of_lines_aux:
  "cr \<notin> set s \<Longrightarrow> cr \<notin> set acc \<Longrightarrow> text_of (lines_aux acc s) = (if rev acc @ s = [] \<or> suffix [nl] s then rev acc @ s else rev acc @ s @ [nl])"
proof (induction acc s rule: lines_aux.induct)
  case (2 acc x xs)
  have "chomp_cr (rev acc) = rev acc" using "2.prems" by (metis chomp_cr_def last_in_set set_rev)
  with 2 show ?case by (cases "xs = []") (auto simp: suffix_Cons)
qed simp

lemma text_of_lines: "cr \<notin> set s \<Longrightarrow> text_of (lines s) = (if s = [] \<or> suffix [nl] s then s else s @ [nl])"
  using text_of_lines_aux[of s "[]"] by (simp add: lines_def)

lemma lines_unfinished: "z \<noteq> [] \<Longrightarrow> nl \<notin> set z \<Longrightarrow> lines z = [z]"
proof -
  have "nl \<notin> set z \<Longrightarrow> lines_aux acc z = (if rev acc @ z = [] then [] else [rev acc @ z])" for acc
    by (induction z arbitrary: acc) auto
  then show "z \<noteq> [] \<Longrightarrow> nl \<notin> set z \<Longrightarrow> lines z = [z]" by (simp add: lines_def)
qed

definition unix_line :: "string \<Rightarrow> bool" where
  "unix_line l \<longleftrightarrow> nl \<notin> set l \<and> cr \<notin> set l"

lemma lines_text_of_append: "list_all unix_line ls \<Longrightarrow> lines (text_of ls @ z) = ls @ lines z"
proof (induction ls)
  case (Cons l ls)
  then show ?case using lines_append_nl[of l "text_of ls @ z"] lines_one[of l] by (simp add: unix_line_def)
qed simp

lemma lines_rebuilt:
  assumes "list_all unix_line ls" "ls \<noteq> []" "t = text_of ls \<or> last ls \<noteq> [] \<and> t = butlast (text_of ls)"
  shows "lines t = ls"
  using assms(3)
proof
  assume "t = text_of ls"
  then show ?thesis using lines_text_of_append[OF assms(1), of "[]"] by simp
next
  assume t: "last ls \<noteq> [] \<and> t = butlast (text_of ls)"
  from assms(2) obtain xs z where ls: "ls = xs @ [z]" by (metis rev_exhaust)
  with t have "t = text_of xs @ z" "z \<noteq> []" by (simp_all add: butlast_append)
  then show ?thesis using lines_text_of_append[of xs z] lines_unfinished[of z] assms(1) ls by (simp add: unix_line_def)
qed

lemma rewritten_line_unix:
  assumes "mode_rest l = Some rest" "word_mode m" "unix_line l"
  shows "unix_line (rewritten_line m l rest) \<and> rewritten_line m l rest \<noteq> []"
proof (rule rewritten_line_eq[OF assms(1), of m])
  fix ws c
  assume l: "l = ws @ ''mode:'' @ rest" and r: "rewritten_line m l rest = ws @ ''mode: '' @ m @ c"
    and c: "c = [] \<or> c = ''  '' @ snd (split_comment rest) \<and> snd (split_comment rest) \<noteq> []"
  have "set (snd (split_comment rest)) \<subseteq> set rest" by (auto simp: split_comment_def dest: set_dropWhileD)
  then have "set c \<subseteq> set rest \<union> set '' ''" using c by auto
  moreover have "nl \<notin> set ''mode: ''" "cr \<notin> set ''mode: ''" "nl \<notin> set '' ''" "cr \<notin> set '' ''" by (simp_all add: nl_def cr_def)
  moreover have "nl \<notin> set m" "cr \<notin> set m" using assms(2) by (auto simp: word_mode_def list_all_iff)
  ultimately show ?thesis using assms(3) l r unfolding unix_line_def by auto
qed

lemma rewrite_mode_line_ok:
  assumes "rewrite_mode_line s m = Inr (out, ch)"
  obtains pre l rest post where "lines s = pre @ l # post" "first_mode pre = None" "mode_rest l = Some rest"
    "ch \<longleftrightarrow> trim (fst (split_comment rest)) \<noteq> m"
    "out = (if suffix [nl] s then text_of (pre @ rewritten_line m l rest # post)
            else butlast (text_of (pre @ rewritten_line m l rest # post)))"
proof -
  have "first_mode (lines s) \<noteq> None"
  proof
    assume "first_mode (lines s) = None"
    from rewrite_loop_none[OF this, of m False "[]"] assms show False by (simp add: rewrite_mode_line_def)
  qed
  then obtain v where "first_mode (lines s) = Some v" by blast
  then obtain pre l rest post where s: "lines s = pre @ l # post" "first_mode pre = None" "mode_rest l = Some rest"
    by (rule first_mode_split)
  let ?t = "text_of (pre @ rewritten_line m l rest # post)"
  have "suffix [nl] ?t" using last_text_of[of "pre @ rewritten_line m l rest # post"]
    by (metis append_butlast_last_id append_is_Nil_conv list.discI suffix_def text_of_simps(4))
  with assms s rewrite_loop_some[OF s(2,3), of m post False "[]"] have "out = (if suffix [nl] s then ?t else butlast ?t)"
    "ch \<longleftrightarrow> trim (fst (split_comment rest)) \<noteq> m"
    by (auto simp: rewrite_mode_line_def split: if_splits)
  with s that show thesis by blast
qed

text \<open>
  Switching the mode changes exactly one line of the policy file: the first line with an uncommented key \<^verbatim>\<open>mode:\<close> has the new
  mode afterwards, all lines before and after it are the same, a final line feed is kept or stays absent, and the file
  is written only if the mode was another.
\<close>

theorem mode_switch_changes_one_line:
  assumes "cr \<notin> set s" and "word_mode m" and "rewrite_mode_line s m = Inr (out, ch)"
  shows "\<exists>pre l l' post. lines s = pre @ l # post \<and> lines out = pre @ l' # post \<and> first_mode pre = None \<and>
           first_mode [l'] = Some m \<and> (ch \<longleftrightarrow> first_mode (lines s) \<noteq> Some m) \<and> (suffix [nl] out \<longleftrightarrow> suffix [nl] s)"
proof (rule rewrite_mode_line_ok[OF assms(3)])
  fix pre l rest post
  let ?l = "rewritten_line m l rest" and ?ls = "pre @ rewritten_line m l rest # post"
  assume s: "lines s = pre @ l # post" "first_mode pre = None" "mode_rest l = Some rest"
    and ch: "ch \<longleftrightarrow> trim (fst (split_comment rest)) \<noteq> m"
    and out: "out = (if suffix [nl] s then text_of ?ls else butlast (text_of ?ls))"
  have ux: "unix_line x" if "x \<in> set (lines s)" for x
    using lines_chars[OF that] assms(1) by (auto simp: unix_line_def)
  then have l: "unix_line ?l \<and> ?l \<noteq> []" using rewritten_line_unix[OF s(3) assms(2)] s(1) by simp
  with ux s(1) have all: "list_all unix_line ?ls" by (simp add: list_all_iff)
  have ends: "last ?ls \<noteq> []" if "\<not> suffix [nl] s"
  proof (cases "post = []")
    case False
    have "text_of (lines s) = s @ [nl]" using text_of_lines[OF assms(1)] that s(1) by (auto split: if_splits)
    moreover obtain xs z where z: "post = xs @ [z]" using False by (metis rev_exhaust)
    ultimately have "s = text_of (pre @ l # xs) @ z" using s(1) by simp
    then have "z \<noteq> []" using that last_text_of[of "pre @ l # xs"]
      by (metis append_Nil2 append_butlast_last_id append_is_Nil_conv list.discI suffix_def text_of_simps(4))
    with z show ?thesis by simp
  qed (use l in simp)
  have "lines out = ?ls" by (rule lines_rebuilt[OF all]) (use out ends in auto)
  moreover have "suffix [nl] out \<longleftrightarrow> suffix [nl] s"
  proof (cases "suffix [nl] s")
    case True
    with out show ?thesis using last_text_of[of ?ls]
      by (metis append_butlast_last_id append_is_Nil_conv list.discI suffix_def text_of_simps(4))
  next
    case False
    obtain xs z where z: "?ls = xs @ [z]" by (metis rev_exhaust append_is_Nil_conv list.discI)
    with ends[OF False] all have "z \<noteq> []" "nl \<notin> set z" by (simp_all add: unix_line_def)
    moreover have "out = text_of xs @ z" using out False z by (simp add: butlast_append)
    ultimately have "last out \<noteq> nl" by (metis last_appendR last_in_set)
    then show ?thesis using False by (auto simp: suffix_def)
  qed
  moreover have "first_mode [?l] = Some m" using rewritten_line_mode[OF s(3) assms(2)] by auto
  moreover have "first_mode (lines s) = Some (trim (fst (split_comment rest)))"
    using s first_mode_append[OF s(2), of "l # post"] by simp
  ultimately show ?thesis using s ch by (intro exI[of _ pre] exI[of _ l] exI[of _ ?l] exI[of _ post]) simp
qed


lemma first_mode_single: "first_mode pre = None \<Longrightarrow> first_mode [l'] = Some m \<Longrightarrow> first_mode (pre @ l' # post) = Some m"
  by (simp add: first_mode_append split: option.splits)

lemma trim_start_eval:
  "trim_start (CHR '' '' # t) = trim_start t"
  "byte_in 0x21 0x7E c \<Longrightarrow> trim_start (c # t) = c # t"
  using trim_start_white[OF space_white, of t] trim_start_graph[of "c # t"] by simp_all

lemmas mode_eval = trim_start_eval mode_rest_def strip_prefix_def byte_in_def

lemma fresh_pact_yaml_mode: "word_mode m \<Longrightarrow> first_mode (lines (fresh_pact_yaml m)) = Some m"
proof -
  assume m: "word_mode m"
  define hd_lines where "hd_lines =
     [''# SPDX-License-Identifier: Apache-2.0'',
      ''# User policy. Toggle enforcement with `kyris disable` (log)'',
      ''# or `kyris enable` (enforce). Add `commands:` rules under'',
      ''# `spec:` for per-pattern decisions.'',
      ''apiVersion: agentpact/v1'', ''kind: Pact'', ''metadata:'', ''  name: user-default'', ''spec:'']"
  have h: "first_mode hd_lines = None" by (simp add: hd_lines_def mode_eval)
  have u: "list_all unix_line hd_lines" unfolding hd_lines_def by code_simp
  have "unix_line (''  mode: '' @ m)"
    using m by (auto simp: unix_line_def word_mode_def list_all_iff nl_def cr_def)
  with u have "list_all unix_line (hd_lines @ [''  mode: '' @ m])" by simp
  moreover have "fresh_pact_yaml m = text_of (hd_lines @ [''  mode: '' @ m])"
    by (simp add: fresh_pact_yaml_def hd_lines_def)
  ultimately have l: "lines (fresh_pact_yaml m) = hd_lines @ [''  mode: '' @ m]" by (intro lines_rebuilt) auto
  have "mode_rest ''  mode:'' = Some []" by (simp add: mode_eval)
  then have "\<exists>rest'. mode_rest (rewritten_line m ''  mode:'' []) = Some rest' \<and> trim (fst (split_comment rest')) = m"
    using rewritten_line_mode m by blast
  moreover have "rewritten_line m ''  mode:'' [] = ''  mode: '' @ m"
  proof -
    have "trim_start ''  mode:'' = ''mode:''" by (simp add: mode_eval)
    then show ?thesis by (simp add: rewritten_line_def split_comment_def)
  qed
  ultimately show ?thesis using l h by (auto intro: first_mode_single)
qed

text \<open>
  A switch that succeeds leaves a policy file in the asked mode (a new one if there was none); a switch that fails before
  writing, because the policy daemon does not answer or no line has the key, leaves the file as it was; and the file is
  not written at all when it already has the mode.
\<close>

theorem toggle_sets_mode:
  assumes "word_mode m" and "run_toggle env m file = (r, file')" and "\<And>s. file = Some s \<Longrightarrow> cr \<notin> set s"
  shows "case r of
      ToggleOk outcome \<Rightarrow> te_reachable env \<and> (\<exists>s'. file' = Some s' \<and> first_mode (lines s') = Some m) \<and>
        (outcome = Created \<longleftrightarrow> file = None) \<and> (outcome = Unchanged \<longrightarrow> file' = file)
    | ToggleExit n msg \<Rightarrow> n = 1 \<and> (te_write_error env = None \<longrightarrow> file' = file)"
proof (cases "file")
  case None
  with assms(2) show ?thesis
    by (auto simp: run_toggle_def write_mode_in_place_def fs_write_def fresh_pact_yaml_mode[OF assms(1)]
          split: if_splits option.splits prod.splits)
next
  case (Some s)
  have good: "first_mode (lines out) = Some m \<and> (\<not> ch \<longrightarrow> first_mode (lines s) = Some m)"
    if "rewrite_mode_line s m = Inr (out, ch)" for out ch
    using mode_switch_changes_one_line[OF assms(3)[OF Some] assms(1) that] first_mode_single by auto
  from Some assms(2) good show ?thesis
    by (auto simp: run_toggle_def write_mode_in_place_def fs_write_def split: if_splits option.splits prod.splits sum.splits)
qed

section \<open>What it does not keep\<close>

text \<open>A file with CRLF line ends loses all of them, not only that of the changed line.\<close>

lemma trim_samples: "trim '' log'' = ''log''" "trim '' log '' = ''log''" "trim '' team'' = ''team''"
proof -
  have "trim '' team'' = ''team''" using trim_word[of "''team''"] by (simp add: word_mode_def byte_in_def nl_def cr_def)
  moreover have "trim '' log'' = ''log''" using trim_word[of "''log''"] by (simp add: word_mode_def byte_in_def nl_def cr_def)
  moreover from this have "trim '' log '' = ''log''"
    using trim_end_space[of "''log''"] by (simp add: trim_def trim_start_eval byte_in_def)
  ultimately show "trim '' log'' = ''log''" "trim '' log '' = ''log''" "trim '' team'' = ''team''" by simp_all
qed

lemmas rewrite_eval = rewrite_mode_line_def mode_eval rewritten_line_def split_comment_def trim_samples Let_def text_of_def
  suffix_def nl_def cr_def

lemma lines_crlf: "lines (''a: 1'' @ [cr, nl] @ ''mode: log'' @ [cr, nl]) = [''a: 1'', ''mode: log'']"
  by code_simp

lemma carriage_returns_are_lost:
  "rewrite_mode_line (''a: 1'' @ [cr, nl] @ ''mode: log'' @ [cr, nl]) ''enforce'' = Inr (''a: 1'' @ [nl] @ ''mode: enforce'' @ [nl], True)"
  using lines_crlf by (simp add: rewrite_eval)

text \<open>The first key of that name is changed wherever it stands: here the mode of the policy, further down, stays as it was.\<close>

lemma lines_two_modes: "lines (text_of [''metadata:'', ''  mode: team'', ''spec:'', ''  mode: enforce'']) =
    [''metadata:'', ''  mode: team'', ''spec:'', ''  mode: enforce'']"
  by code_simp

lemma another_mode_key_is_rewritten:
  "rewrite_mode_line (text_of [''metadata:'', ''  mode: team'', ''spec:'', ''  mode: enforce'']) ''log'' =
     Inr (text_of [''metadata:'', ''  mode: log'', ''spec:'', ''  mode: enforce''], True)"
  using lines_two_modes by (simp add: rewrite_eval)

section \<open>Witnesses\<close>

lemma lines_sample: "lines (text_of [''spec:'', ''  mode: log # why'', ''x: 1'']) = [''spec:'', ''  mode: log # why'', ''x: 1'']"
  by code_simp

lemma sample_rewrite:
  "rewrite_mode_line (text_of [''spec:'', ''  mode: log # why'', ''x: 1'']) ''enforce'' =
     Inr (text_of [''spec:'', ''  mode: enforce  # why'', ''x: 1''], True)"
  using lines_sample by (simp add: rewrite_eval)

theorem mode_switch_changes_one_line_witness:
  "\<exists>pre l l' post. lines (text_of [''spec:'', ''  mode: log # why'', ''x: 1'']) = pre @ l # post \<and>
     lines (text_of [''spec:'', ''  mode: enforce  # why'', ''x: 1'']) = pre @ l' # post \<and> first_mode [l'] = Some ''enforce''"
proof -
  have c: "cr \<notin> set (text_of [''spec:'', ''  mode: log # why'', ''x: 1''])" by code_simp
  have m: "word_mode ''enforce''" by code_simp
  show ?thesis using mode_switch_changes_one_line[OF c m sample_rewrite] by blast
qed

definition sample_toggle_env :: toggle_env where
  "sample_toggle_env = \<lparr>te_mkdir_error = None, te_read_error = None, te_write_error = None, te_reachable = True,
     te_xdg_config_home = None, te_home_var = Some ''/h''\<rparr>"

theorem toggle_sets_mode_witness:
  "\<exists>s'. run_toggle sample_toggle_env ''log'' None = (ToggleOk Created, Some s') \<and> first_mode (lines s') = Some ''log''"
proof -
  have m: "word_mode ''log''" by code_simp
  have r: "run_toggle sample_toggle_env ''log'' None = (ToggleOk Created, Some (fresh_pact_yaml ''log''))"
    by (simp add: run_toggle_def write_mode_in_place_def fs_write_def sample_toggle_env_def)
  from toggle_sets_mode[OF m r] r show ?thesis by simp
qed

end
