(* ===== verification/Updates.thy ===== *)
theory Updates
  imports ManagedFiles
begin

text \<open>
  The self-update, \<^verbatim>\<open>cli/src/lifecycle/update.rs\<close> with \<^verbatim>\<open>cli/src/lifecycle/release.rs\<close>: the releases of two repositories are
  probed, and in apply mode the archive of a newer release is downloaded, checked against the release's \<^verbatim>\<open>SHA256SUMS\<close>,
  unpacked, and its binaries replace the installed ones. The environment holds what lies outside: Homebrew, the
  installed binaries' versions, the releases interface and the downloads, SHA-256, \<^verbatim>\<open>tar\<close>, the search path and the
  service manager. The state is the managed files, what is printed, what is restarted and the cached check.
\<close>

section \<open>Releases\<close>

record GitHubAsset =
  ga_name :: string
  ga_browser_download_url :: string

record GitHubRelease =
  gr_tag_name :: string
  gr_assets :: "GitHubAsset list"

datatype ServiceKind = Kyrisd | Agentpactd

record update_env =
  ux_os :: string
  ux_arch :: string
  ux_brew_formula_installed :: "string \<Rightarrow> bool"
  ux_installed_version :: "string \<Rightarrow> string option"
  ux_latest_at_probe :: "string \<Rightarrow> string \<Rightarrow> string + GitHubRelease"
  ux_latest_at_apply :: "string \<Rightarrow> string \<Rightarrow> string + GitHubRelease"
  ux_download :: "GitHubAsset \<Rightarrow> string + string"
  ux_sha256 :: "string \<Rightarrow> string"
  ux_extract :: "string \<Rightarrow> string \<Rightarrow> string + (string \<Rightarrow> (string + string) option)"
  ux_which_path :: "string \<Rightarrow> string option"
  ux_from_utf8_lossy :: "string \<Rightarrow> string"
  ux_now :: string
  ux_service_running :: "ServiceKind \<Rightarrow> bool"
  ux_restart_error :: "ServiceKind \<Rightarrow> string option"

definition release_target :: "update_env \<Rightarrow> string + string" where
  "release_target env =
     (if ux_os env = ''macos'' \<and> (ux_arch env = ''aarch64'' \<or> ux_arch env = ''arm64'') then Inr ''darwin-aarch64''
      else if ux_os env = ''macos'' \<and> ux_arch env = ''x86_64'' then Inr ''darwin-x86_64''
      else if ux_os env = ''linux'' \<and> ux_arch env = ''x86_64'' then Inr ''linux-x86_64''
      else if ux_os env = ''linux'' \<and> ux_arch env = ''aarch64'' then Inr ''linux-aarch64''
      else Inl (''Unsupported target: '' @ ux_os env @ ''/'' @ ux_arch env))"

definition sha256_hex :: "update_env \<Rightarrow> string \<Rightarrow> string" where
  "sha256_hex env data = concat (map hex_byte (ux_sha256 env data))"

text \<open>\<^verbatim>\<open>split_once(char::is_whitespace)\<close> and \<^verbatim>\<open>trim_start_matches("./")\<close>.\<close>

fun split_once_white :: "string \<Rightarrow> (string \<times> string) option" where
  "split_once_white s =
     (case List.find (\<lambda>w. prefix w s) white_space of
        Some w \<Rightarrow> Some ([], drop (length w) s)
      | None \<Rightarrow> (case s of [] \<Rightarrow> None | c # t \<Rightarrow> map_option (\<lambda>(a, b). (c # a, b)) (split_once_white t)))"

declare split_once_white.simps [simp del]

fun trim_dot_slash :: "string \<Rightarrow> string" where
  "trim_dot_slash (CHR ''.'' # CHR ''/'' # t) = trim_dot_slash t"
| "trim_dot_slash t = t"

text \<open>\<^verbatim>\<open>to_lowercase\<close> of the listed digest agrees with the ASCII function on what can equal a hexadecimal text: no character
  outside ASCII has a hexadecimal digit as its lower case.\<close>

fun checksum_lines :: "string \<Rightarrow> string list \<Rightarrow> string option" where
  "checksum_lines filename [] = None"
| "checksum_lines filename (raw # ls) =
     (let line = trim raw
      in if line = [] \<or> prefix ''#'' line then checksum_lines filename ls
         else case split_once_white line of
                Some (hash, name) \<Rightarrow>
                  let name = trim name
                  in if name = filename \<or> trim_dot_slash name = filename then Some (to_ascii_lowercase hash)
                     else checksum_lines filename ls
              | None \<Rightarrow> checksum_lines filename ls)"

definition parse_checksums :: "string \<Rightarrow> string \<Rightarrow> string option" where
  "parse_checksums contents filename = checksum_lines filename (lines contents)"

definition download_and_verify :: "update_env \<Rightarrow> GitHubRelease \<Rightarrow> GitHubAsset \<Rightarrow> string + string" where
  "download_and_verify env release asset =
     (case ux_download env asset of
        Inl e \<Rightarrow> Inl e
      | Inr tarball_bytes \<Rightarrow>
          case List.find (\<lambda>a. ga_name a = ''SHA256SUMS'') (gr_assets release) of
            None \<Rightarrow> Inl (''Release is missing SHA256SUMS file '' @ [CHR 0xE2, CHR 0x80, CHR 0x94] @ '' cannot verify '' @ ga_name asset)
          | Some checksums_asset \<Rightarrow>
              case ux_download env checksums_asset of
                Inl e \<Rightarrow> Inl e
              | Inr checksums_bytes \<Rightarrow>
                  if \<not> valid_utf8 checksums_bytes then Inl ''SHA256SUMS is not valid UTF-8''
                  else case parse_checksums checksums_bytes (ga_name asset) of
                         None \<Rightarrow> Inl (''SHA256SUMS does not contain an entry for '' @ ga_name asset)
                       | Some expected_hash \<Rightarrow>
                           if sha256_hex env tarball_bytes \<noteq> expected_hash
                           then Inl (''Checksum mismatch for '' @ ga_name asset @ '': expected '' @ expected_hash @ '', got '' @
                                     sha256_hex env tarball_bytes)
                           else Inr tarball_bytes)"

section \<open>Versions\<close>

definition normalize_version :: "string \<Rightarrow> string" where
  "normalize_version version = trim_start_matches [CHR ''v''] (trim version)"

definition version_piece :: "string \<Rightarrow> nat" where
  "version_piece piece = unwrap_or (parse_usize (takeWhile (\<lambda>c. c \<noteq> CHR ''-'') piece)) 0"

definition version_parts :: "string \<Rightarrow> nat list" where
  "version_parts version =
     (let ps = map version_piece (take 3 (split_on (CHR ''.'') version)) in ps @ replicate (3 - length ps) 0)"

fun compare_parts :: "nat list \<Rightarrow> nat list \<Rightarrow> int" where
  "compare_parts (c # cs) (l # ls) = (if c < l then -1 else if c > l then 1 else compare_parts cs ls)"
| "compare_parts _ _ = 0"

definition compare_versions :: "string \<Rightarrow> string \<Rightarrow> int" where
  "compare_versions current latest = compare_parts (version_parts current) (version_parts latest)"

section \<open>Checking and applying\<close>

datatype UpdateMode = Apply | Check | Background

record RepoUpdate =
  ru_owner :: string
  ru_repo :: string
  ru_formula :: string
  ru_primary_binary :: string
  ru_binaries :: "string list"
  ru_service :: "ServiceKind option"

record RepoUpdateStatus =
  rs_repo :: string
  rs_current :: "string option"
  rs_latest :: "string option"
  rs_channel :: string

definition has_script_update :: "RepoUpdateStatus \<Rightarrow> bool" where
  "has_script_update st =
     (if rs_channel st \<noteq> ''script'' then False
      else case (rs_current st, rs_latest st) of (Some c, Some l) \<Rightarrow> compare_versions c l < 0 | _ \<Rightarrow> False)"

text \<open>Whole hours, as \<^verbatim>\<open>num_hours\<close> gives them, from seconds; an unreadable time is stale.\<close>

definition is_stale :: "(string \<Rightarrow> int option) \<Rightarrow> int \<Rightarrow> string \<Rightarrow> int \<Rightarrow> bool" where
  "is_stale parse_rfc3339 now_secs checked_at max_age_hours =
     (case parse_rfc3339 checked_at of
        None \<Rightarrow> True
      | Some checked \<Rightarrow>
          let age = now_secs - checked;
              hours = (if age \<ge> 0 then age div 3600 else - ((- age) div 3600))
          in hours \<ge> max_age_hours)"

definition update_repos :: "RepoUpdate list" where
  "update_repos =
     [\<lparr>ru_owner = ''kyr-is'', ru_repo = ''kyris'', ru_formula = ''kyris'', ru_primary_binary = ''kyris'',
       ru_binaries = [''kyris'', ''kyrisd'', ''kyris-mcp'', ''kyris-hook''], ru_service = Some Kyrisd\<rparr>,
      \<lparr>ru_owner = ''kyr-is'', ru_repo = ''agentpact'', ru_formula = ''agentpact'', ru_primary_binary = ''agentpactd'',
       ru_binaries = [''agentpactd''], ru_service = Some Agentpactd\<rparr>]"

definition probe_repo :: "update_env \<Rightarrow> RepoUpdate \<Rightarrow> RepoUpdateStatus" where
  "probe_repo env repo =
     (if ux_brew_formula_installed env (ru_formula repo)
      then \<lparr>rs_repo = ru_repo repo, rs_current = ux_installed_version env (ru_primary_binary repo), rs_latest = None,
            rs_channel = ''brew''\<rparr>
      else case ux_installed_version env (ru_primary_binary repo) of
             None \<Rightarrow> \<lparr>rs_repo = ru_repo repo, rs_current = None, rs_latest = None, rs_channel = ''missing''\<rparr>
           | Some current_version \<Rightarrow>
               \<lparr>rs_repo = ru_repo repo, rs_current = Some current_version,
                rs_latest = (case ux_latest_at_probe env (ru_owner repo) (ru_repo repo) of
                               Inr release \<Rightarrow> Some (normalize_version (gr_tag_name release)) | Inl _ \<Rightarrow> None),
                rs_channel = ''script''\<rparr>)"

datatype update_error = UpdateFailed string | StateFailed state_error

record update_world =
  uw_store :: store
  uw_out :: "string list"
  uw_restarted :: "ServiceKind list"
  uw_cache :: "RepoUpdateStatus list option"

definition say :: "string \<Rightarrow> update_world \<Rightarrow> update_world" where
  "say line w = w\<lparr>uw_out := uw_out w @ [line]\<rparr>"

datatype ApplyOutcome = UpdateAvailable bool | Noop

fun replace_binaries ::
    "update_env \<Rightarrow> (string \<Rightarrow> (string + string) option) \<Rightarrow> string list \<Rightarrow> bool \<Rightarrow> update_world \<Rightarrow> (update_error + bool) \<times> update_world" where
  "replace_binaries env extracted [] replaced_any w = (Inr replaced_any, w)"
| "replace_binaries env extracted (binary # bs) replaced_any w =
     (case ux_which_path env binary of
        None \<Rightarrow> replace_binaries env extracted bs replaced_any w
      | Some path \<Rightarrow>
          case extracted binary of
            None \<Rightarrow> replace_binaries env extracted bs replaced_any w
          | Some (Inl e) \<Rightarrow> (Inl (UpdateFailed (''Cannot read extracted '' @ binary @ '': '' @ e)), w)
          | Some (Inr contents) \<Rightarrow>
              case write_managed_bytes (ux_from_utf8_lossy env) True (\<lambda>_. Inr ()) (ux_now env) path contents ''update'' (uw_store w) of
                (Inl e, s) \<Rightarrow> (Inl (StateFailed e), w\<lparr>uw_store := s\<rparr>)
              | (Inr True, s) \<Rightarrow> replace_binaries env extracted bs True (say (''  replaced '' @ path) (w\<lparr>uw_store := s\<rparr>))
              | (Inr False, s) \<Rightarrow> replace_binaries env extracted bs replaced_any (w\<lparr>uw_store := s\<rparr>))"

definition restart_if_running :: "update_env \<Rightarrow> bool \<Rightarrow> ServiceKind option \<Rightarrow> update_world \<Rightarrow> (update_error + unit) \<times> update_world" where
  "restart_if_running env replaced_any service w =
     (case service of
        Some kind \<Rightarrow>
          if replaced_any \<and> ux_service_running env kind
          then (case ux_restart_error env kind of
                  Some e \<Rightarrow> (Inl (UpdateFailed e), w)
                | None \<Rightarrow> (Inr (), w\<lparr>uw_restarted := uw_restarted w @ [kind]\<rparr>))
          else (Inr (), w)
      | None \<Rightarrow> (Inr (), w))"

definition apply_release :: "update_env \<Rightarrow> RepoUpdate \<Rightarrow> string \<Rightarrow> update_world \<Rightarrow> (update_error + ApplyOutcome) \<times> update_world" where
  "apply_release env repo target w =
     (case ux_latest_at_apply env (ru_owner repo) (ru_repo repo) of
        Inl e \<Rightarrow> (Inl (UpdateFailed e), w)
      | Inr fetched_release \<Rightarrow>
          let asset_name = ru_repo repo @ ''-'' @ target @ ''.tar.gz''
          in case List.find (\<lambda>a. ga_name a = asset_name) (gr_assets fetched_release) of
               None \<Rightarrow> (Inl (UpdateFailed (''Missing release asset '' @ asset_name @ '' for '' @ ru_repo repo)), w)
             | Some asset \<Rightarrow>
                 case download_and_verify env fetched_release asset of
                   Inl e \<Rightarrow> (Inl (UpdateFailed e), w)
                 | Inr verified_bytes \<Rightarrow>
                     case ux_extract env verified_bytes asset_name of
                       Inl e \<Rightarrow> (Inl (UpdateFailed e), w)
                     | Inr extracted \<Rightarrow>
                         case replace_binaries env extracted (ru_binaries repo) False w of
                           (Inl e, w) \<Rightarrow> (Inl e, w)
                         | (Inr replaced_any, w) \<Rightarrow>
                             case restart_if_running env replaced_any (ru_service repo) w of
                               (Inl e, w) \<Rightarrow> (Inl e, w)
                             | (Inr _, w) \<Rightarrow> (Inr (UpdateAvailable replaced_any), w))"

definition apply_or_report ::
    "update_env \<Rightarrow> RepoUpdate \<Rightarrow> RepoUpdateStatus \<Rightarrow> UpdateMode \<Rightarrow> string \<Rightarrow> update_world \<Rightarrow> (update_error + ApplyOutcome) \<times> update_world" where
  "apply_or_report env repo status mode target w =
     (if rs_channel status = ''brew''
      then (Inr Noop, say (ru_repo repo @ '': Homebrew-managed install detected, use `brew upgrade '' @ ru_formula repo @ ''`.'') w)
      else if rs_channel status = ''missing'' then (Inr Noop, say (ru_repo repo @ '': not installed, skipping.'') w)
      else case (rs_current status, rs_latest status) of
             (Some current_version, Some latest_version) \<Rightarrow>
               if compare_versions current_version latest_version \<ge> 0
               then (Inr Noop, say (ru_repo repo @ '': up to date ('' @ current_version @ '').'') w)
               else let w = say (ru_repo repo @ '': update available '' @ current_version @ '' -> '' @ latest_version @ ''.'') w
                    in if mode = Check then (Inr (UpdateAvailable False), w)
                       else apply_release env repo target w
           | _ \<Rightarrow> (Inr Noop, say (ru_repo repo @ '': could not determine version.'') w))"

fun update_loop ::
    "update_env \<Rightarrow> UpdateMode \<Rightarrow> string \<Rightarrow> (RepoUpdate \<times> RepoUpdateStatus) list \<Rightarrow> nat \<times> nat \<Rightarrow> update_world \<Rightarrow>
       (update_error + nat \<times> nat) \<times> update_world" where
  "update_loop env mode target [] counts w = (Inr counts, w)"
| "update_loop env mode target ((repo, status) # rest) counts w =
     (case apply_or_report env repo status mode target w of
        (Inl e, w) \<Rightarrow> (Inl e, w)
      | (Inr (UpdateAvailable applied), w) \<Rightarrow>
          update_loop env mode target rest (fst counts + 1, snd counts + (if applied then 1 else 0)) w
      | (Inr Noop, w) \<Rightarrow> update_loop env mode target rest counts w)"

definition run_update :: "update_env \<Rightarrow> UpdateMode \<Rightarrow> update_world \<Rightarrow> (update_error + unit) \<times> update_world" where
  "run_update env mode w =
     (case release_target env of
        Inl e \<Rightarrow> (Inl (UpdateFailed e), w)
      | Inr target \<Rightarrow>
          let statuses = map (probe_repo env) update_repos;
              w = w\<lparr>uw_cache := Some statuses\<rparr>
          in if mode = Background then (Inr (), w)
             else case update_loop env mode target (zip update_repos statuses) (0, 0) w of
                    (Inl e, w) \<Rightarrow> (Inl e, w)
                  | (Inr (available, applied), w) \<Rightarrow>
                      (Inr (),
                       if mode = Check \<and> available = 0 then say ''No updates available.'' w
                       else if mode = Apply \<and> applied = 0 then say ''No installed binaries required replacement.'' w
                       else w))"

text \<open>The exit code of the command: a failure in the background is silent.\<close>

definition run_exit_code :: "update_env \<Rightarrow> bool \<Rightarrow> bool \<Rightarrow> update_world \<Rightarrow> nat \<times> update_world" where
  "run_exit_code env background check w =
     (let mode = (if background then Background else if check then Check else Apply)
      in case run_update env mode w of
           (Inl _, w) \<Rightarrow> (if mode = Background then 0 else 1, w)
         | (Inr _, w) \<Rightarrow> (0, w))"


section \<open>Only verified bytes are installed\<close>

lemma download_and_verify_ok:
  assumes "download_and_verify env release asset = Inr bytes"
  shows "\<exists>sums_asset listing. ux_download env asset = Inr bytes \<and> sums_asset \<in> set (gr_assets release) \<and>
    ga_name sums_asset = ''SHA256SUMS'' \<and> ux_download env sums_asset = Inr listing \<and>
    parse_checksums listing (ga_name asset) = Some (sha256_hex env bytes)"
proof -
  obtain tb where tb: "ux_download env asset = Inr tb" using assms by (auto simp: download_and_verify_def split: sum.splits)
  obtain sa where sa: "List.find (\<lambda>a. ga_name a = ''SHA256SUMS'') (gr_assets release) = Some sa"
    using assms tb by (auto simp: download_and_verify_def split: option.splits)
  then have "sa \<in> set (gr_assets release) \<and> ga_name sa = ''SHA256SUMS''" by (auto simp: find_Some_iff)
  with assms tb sa show ?thesis
    by (auto simp: download_and_verify_def split: sum.splits option.splits if_splits)
qed

text \<open>How the files of a state may differ from an earlier one: a path holds the bytes that \<open>src\<close> allows for it.\<close>

definition only_from :: "(string \<Rightarrow> string \<Rightarrow> bool) \<Rightarrow> update_world \<Rightarrow> update_world \<Rightarrow> bool" where
  "only_from src w w' \<longleftrightarrow>
     (\<forall>path. files (uw_store w') path = files (uw_store w) path \<or>
             (\<exists>c. files (uw_store w') path = Some c \<and> src path c))"

lemma only_from_refl [simp]: "only_from src w w"
  by (simp add: only_from_def)

lemma only_from_trans: "only_from src u v \<Longrightarrow> only_from src v w \<Longrightarrow> only_from src u w"
  unfolding only_from_def by metis

lemma only_from_mono: "only_from src u v \<Longrightarrow> (\<And>p c. src p c \<Longrightarrow> src' p c) \<Longrightarrow> only_from src' u v"
  unfolding only_from_def by blast

lemma only_from_say [simp]:
  "only_from src (say l w) w' = only_from src w w'" "only_from src w (say l w') = only_from src w w'"
  by (simp_all add: only_from_def say_def)

lemma write_managed_bytes_files:
  "write_managed_bytes lossy True v now path c component s = (r, s') \<Longrightarrow> files s' = (files s)(path \<mapsto> c)"
  by (auto simp: write_managed_bytes_def record_manifest_if_absent_def write_file_def split: if_splits)

definition binary_from :: "update_env \<Rightarrow> (string \<Rightarrow> (string + string) option) \<Rightarrow> string list \<Rightarrow> string \<Rightarrow> string \<Rightarrow> bool" where
  "binary_from env extracted bs path c \<longleftrightarrow> (\<exists>b \<in> set bs. ux_which_path env b = Some path \<and> extracted b = Some (Inr c))"

lemma only_from_write:
  "files (uw_store w') = (files (uw_store w))(path \<mapsto> c) \<Longrightarrow> src path c \<Longrightarrow> only_from src w w'"
  by (simp add: only_from_def)

lemma replace_binaries_from:
  assumes "replace_binaries env extracted bs any w = (r, w')" and "set bs \<subseteq> set all"
  shows "only_from (binary_from env extracted all) w w'"
  using assms
proof (induction env extracted bs any w rule: replace_binaries.induct)
  case (2 env extracted binary bs any w)
  show ?case
  proof (cases "ux_which_path env binary")
    case None
    with 2 show ?thesis by simp
  next
    case (Some path)
    note path = this
    show ?thesis
    proof (cases "extracted binary")
      case None
      with 2 path show ?thesis by simp
    next
      case (Some f)
      show ?thesis
      proof (cases f)
        case (Inl e)
        with "2.prems"(1) path Some show ?thesis by auto
      next
        case (Inr c)
        obtain q s where wr: "write_managed_bytes (ux_from_utf8_lossy env) True (\<lambda>_. Inr ()) (ux_now env) path c ''update'' (uw_store w) = (q, s)"
          by fastforce
        have "binary_from env extracted all path c"
          using "2.prems"(2) path Some Inr by (auto simp: binary_from_def)
        with write_managed_bytes_files[OF wr] have step: "only_from (binary_from env extracted all) w (w\<lparr>uw_store := s\<rparr>)"
          by (simp add: only_from_write)
        show ?thesis
        proof (cases q)
          case (Inl e)
          with "2.prems"(1) path Some \<open>f = Inr c\<close> wr step show ?thesis by simp
        next
          case (Inr b)
          with 2 path Some \<open>f = Inr c\<close> wr step show ?thesis
            by (cases b) (auto intro: only_from_trans[OF step])
        qed
      qed
    qed
  qed
qed simp


text \<open>Where the bytes of a replaced binary come from: the archive of a repository's release whose digest the release lists,
  when the installed version is older than the probed one.\<close>

definition verified_source :: "update_env \<Rightarrow> string \<Rightarrow> RepoUpdate \<Rightarrow> string \<Rightarrow> string \<Rightarrow> bool" where
  "verified_source env target repo path c \<longleftrightarrow>
     (\<exists>release asset bytes sums_asset listing extracted.
        ux_latest_at_apply env (ru_owner repo) (ru_repo repo) = Inr release \<and>
        asset \<in> set (gr_assets release) \<and> ga_name asset = ru_repo repo @ ''-'' @ target @ ''.tar.gz'' \<and>
        ux_download env asset = Inr bytes \<and>
        sums_asset \<in> set (gr_assets release) \<and> ga_name sums_asset = ''SHA256SUMS'' \<and> ux_download env sums_asset = Inr listing \<and>
        parse_checksums listing (ga_name asset) = Some (sha256_hex env bytes) \<and>
        ux_extract env bytes (ga_name asset) = Inr extracted \<and>
        binary_from env extracted (ru_binaries repo) path c)"

lemma restart_files: "restart_if_running env a s w = (r, w') \<Longrightarrow> uw_store w' = uw_store w"
  by (auto simp: restart_if_running_def split: option.splits if_splits)

lemma only_from_store: "uw_store w' = uw_store v \<Longrightarrow> only_from src w w' = only_from src w v"
  by (simp add: only_from_def)

lemma find_in_set: "List.find P xs = Some x \<Longrightarrow> x \<in> set xs \<and> P x"
  by (auto simp: find_Some_iff)

lemma apply_release_from:
  assumes "apply_release env repo target w = (r, w')"
  shows "only_from (verified_source env target repo) w w'"
proof -
  let ?name = "ru_repo repo @ ''-'' @ target @ ''.tar.gz''"
  consider "w' = w" | release asset bytes extracted q v where
      "ux_latest_at_apply env (ru_owner repo) (ru_repo repo) = Inr release"
      "List.find (\<lambda>a. ga_name a = ?name) (gr_assets release) = Some asset"
      "download_and_verify env release asset = Inr bytes" "ux_extract env bytes ?name = Inr extracted"
      "replace_binaries env extracted (ru_binaries repo) False w = (q, v)" "uw_store w' = uw_store v"
  proof (cases "ux_latest_at_apply env (ru_owner repo) (ru_repo repo)")
    case (Inl e)
    with assms that(1) show thesis by (simp add: apply_release_def)
  next
    case (Inr release)
    note rel = this
    show thesis
    proof (cases "List.find (\<lambda>a. ga_name a = ?name) (gr_assets release)")
      case None
      with assms rel that(1) show thesis by (simp add: apply_release_def)
    next
      case (Some asset)
      note asset = this
      show thesis
      proof (cases "download_and_verify env release asset")
        case (Inl e)
        with assms rel asset that(1) show thesis by (simp add: apply_release_def)
      next
        case (Inr bytes)
        note bytes = this
        show thesis
        proof (cases "ux_extract env bytes ?name")
          case (Inl e)
          with assms rel asset bytes that(1) show thesis by (simp add: apply_release_def)
        next
          case (Inr extracted)
          obtain q v where "replace_binaries env extracted (ru_binaries repo) False w = (q, v)" by fastforce
          with assms rel asset bytes Inr that(2) show thesis
            by (auto simp: apply_release_def split: sum.splits prod.splits dest: restart_files)
        qed
      qed
    qed
  qed
  then show ?thesis
  proof cases
    case (2 release asset bytes extracted q v)
    have "only_from (binary_from env extracted (ru_binaries repo)) w w'"
      using replace_binaries_from[OF 2(5)] only_from_store[OF 2(6)] by simp
    moreover have "verified_source env target repo p c" if "binary_from env extracted (ru_binaries repo) p c" for p c
    proof -
      obtain sums_asset listing where "ux_download env asset = Inr bytes" "sums_asset \<in> set (gr_assets release)"
        "ga_name sums_asset = ''SHA256SUMS''" "ux_download env sums_asset = Inr listing"
        "parse_checksums listing (ga_name asset) = Some (sha256_hex env bytes)"
        using download_and_verify_ok[OF 2(3)] by blast
      with 2(1,4) find_in_set[OF 2(2)] that show ?thesis
        unfolding verified_source_def
        by (intro exI[of _ release] exI[of _ asset] exI[of _ bytes] exI[of _ sums_asset] exI[of _ listing] exI[of _ extracted]) simp
    qed
    ultimately show ?thesis by (rule only_from_mono)
  qed simp
qed

definition older :: "RepoUpdateStatus \<Rightarrow> bool" where
  "older status \<longleftrightarrow> rs_channel status \<noteq> ''brew'' \<and> rs_channel status \<noteq> ''missing'' \<and>
     (\<exists>c l. rs_current status = Some c \<and> rs_latest status = Some l \<and> compare_versions c l < 0)"

lemma apply_or_report_from:
  assumes "apply_or_report env repo status mode target w = (r, w')"
  shows "only_from (\<lambda>p c. mode \<noteq> Check \<and> older status \<and> verified_source env target repo p c) w w'"
proof (cases "older status \<and> mode \<noteq> Check")
  case True
  with assms have "\<exists>l. apply_release env repo target (say l w) = (r, w')"
    by (auto simp: apply_or_report_def older_def Let_def)
  then obtain l where "apply_release env repo target (say l w) = (r, w')" by blast
  from apply_release_from[OF this] True show ?thesis by simp
next
  case False
  with assms have "uw_store w' = uw_store w"
    by (auto simp: apply_or_report_def older_def say_def Let_def split: if_splits option.splits)
  then show ?thesis using only_from_store[of w' w] by simp
qed

lemma update_loop_from:
  assumes "update_loop env mode target rs counts w = (r, w')"
  shows "only_from (\<lambda>p c. mode \<noteq> Check \<and> (\<exists>(repo, status) \<in> set rs. older status \<and> verified_source env target repo p c)) w w'"
  using assms
proof (induction env mode target rs counts w rule: update_loop.induct)
  case (2 env mode target repo status rest counts w)
  let ?src = "\<lambda>p c. mode \<noteq> Check \<and> (\<exists>(repo, status) \<in> set ((repo, status) # rest). older status \<and> verified_source env target repo p c)"
  obtain q v where q: "apply_or_report env repo status mode target w = (q, v)" by fastforce
  have one: "only_from ?src w v" by (rule only_from_mono[OF apply_or_report_from[OF q]]) auto
  show ?case
  proof (cases q)
    case (Inl e)
    with 2(3) q one show ?thesis by simp
  next
    case (Inr a)
    then have "only_from (\<lambda>p c. mode \<noteq> Check \<and> (\<exists>(repo, status) \<in> set rest. older status \<and> verified_source env target repo p c)) v w'"
      using 2(1)[OF q[symmetric]] 2(2)[OF q[symmetric]] 2(3) q by (cases a) auto
    then have "only_from ?src v w'" by (rule only_from_mono) auto
    with one show ?thesis by (rule only_from_trans)
  qed
qed simp

text \<open>
  C20. The update replaces a file only in apply mode, only for a repository whose installed version is older than its latest release,
  and only with a binary unpacked from that repository's archive for this target, whose SHA-256 is the one that the
  release's \<^verbatim>\<open>SHA256SUMS\<close> lists for it. Every other file is left alone, also when the update fails half way.
\<close>

theorem only_verified_binaries_are_installed:
  assumes "run_update env mode w = (r, w')" and "files (uw_store w') path \<noteq> files (uw_store w) path"
  shows "mode = Apply \<and> (\<exists>target repo c. release_target env = Inr target \<and> repo \<in> set update_repos \<and>
           older (probe_repo env repo) \<and> files (uw_store w') path = Some c \<and> verified_source env target repo path c)"
proof -
  from assms obtain target where t: "release_target env = Inr target"
    by (auto simp: run_update_def split: sum.splits)
  define w1 where "w1 = w\<lparr>uw_cache := Some (map (probe_repo env) update_repos)\<rparr>"
  from assms t have bg: "mode \<noteq> Background" by (auto simp: run_update_def)
  obtain q v where q: "update_loop env mode target (zip update_repos (map (probe_repo env) update_repos)) (0, 0) w1 = (q, v)"
    by fastforce
  have "uw_store w' = uw_store v" using assms(1) t bg q
    by (auto simp: run_update_def w1_def say_def split: sum.splits prod.splits if_splits)
  moreover have "uw_store w1 = uw_store w" by (simp add: w1_def)
  ultimately obtain c where c: "files (uw_store w') path = Some c" and m: "mode \<noteq> Check"
    and s: "\<exists>(repo, status) \<in> set (zip update_repos (map (probe_repo env) update_repos)). older status \<and> verified_source env target repo path c"
    using update_loop_from[OF q] assms(2) unfolding only_from_def by metis
  from s obtain repo where "repo \<in> set update_repos" "older (probe_repo env repo)" "verified_source env target repo path c"
    by (auto simp: set_zip intro: that[OF nth_mem])
  with t c m bg show ?thesis by (cases mode) auto
qed


section \<open>The order of versions\<close>

lemma version_parts_length: "length (version_parts v) = 3"
  by (simp add: version_parts_def Let_def)

lemma version_parts_three: obtains a b c where "version_parts v = [a, b, c]"
  using version_parts_length[of v] by (auto simp: length_Suc_conv numeral_3_eq_3)

text \<open>
  The comparison of versions is the lexicographic order of their three numbers.
\<close>

theorem compare_versions_is_lexicographic:
  "compare_versions u v =
     (if (version_parts u, version_parts v) \<in> lexord less_than then -1
      else if (version_parts v, version_parts u) \<in> lexord less_than then 1
      else 0)"
proof -
  obtain a b c where u: "version_parts u = [a, b, c]" by (rule version_parts_three)
  obtain a' b' c' where v: "version_parts v = [a', b', c']" by (rule version_parts_three)
  show ?thesis by (auto simp: compare_versions_def u v)
qed

text \<open>A pre-release counts as its release, so it is never offered the release; build metadata after the patch number makes the
  patch number 0, so the same version is offered again.\<close>

lemma version_samples: "version_parts ''1.2.3'' = [1, 2, 3]" "version_parts ''1.2.3-rc1'' = [1, 2, 3]" "version_parts ''1.2.3+local'' = [1, 2, 0]"
proof -
  have "split_on (CHR ''.'') ''1.2.3'' = [''1'', ''2'', ''3'']" "split_on (CHR ''.'') ''1.2.3-rc1'' = [''1'', ''2'', ''3-rc1'']"
    "split_on (CHR ''.'') ''1.2.3+local'' = [''1'', ''2'', ''3+local'']"
    by code_simp+
  then show "version_parts ''1.2.3'' = [1, 2, 3]" "version_parts ''1.2.3-rc1'' = [1, 2, 3]" "version_parts ''1.2.3+local'' = [1, 2, 0]"
    by (simp_all add: version_parts_def version_piece_def parse_usize_def digits_val_def is_ascii_digit_def)
qed

lemma prerelease_counts_as_release: "compare_versions ''1.2.3-rc1'' ''1.2.3'' = 0"
  by (simp add: compare_versions_def version_samples)

lemma build_metadata_hides_patch: "compare_versions ''1.2.3+local'' ''1.2.3'' = -1"
  by (simp add: compare_versions_def version_samples)

text \<open>The launcher of the sandbox, which the installer puts beside the other binaries, is not among the binaries the update replaces.\<close>

lemma sandbox_launcher_is_not_updated: "''kyris-exec'' \<notin> (\<Union>repo \<in> set update_repos. set (ru_binaries repo))"
  by (simp add: update_repos_def)


section \<open>Witnesses\<close>

definition sample_archive :: GitHubAsset where
  "sample_archive = \<lparr>ga_name = ''agentpact-linux-x86_64.tar.gz'', ga_browser_download_url = ''u1''\<rparr>"

definition sample_release :: GitHubRelease where
  "sample_release = \<lparr>gr_tag_name = ''1.2.3'', gr_assets = [sample_archive, \<lparr>ga_name = ''SHA256SUMS'', ga_browser_download_url = ''u2''\<rparr>]\<rparr>"

definition sample_update_env :: update_env where
  "sample_update_env = \<lparr>ux_os = ''linux'', ux_arch = ''x86_64'', ux_brew_formula_installed = (\<lambda>_. False),
     ux_installed_version = (\<lambda>b. if b = ''agentpactd'' then Some ''1.2.3+local'' else None),
     ux_latest_at_probe = (\<lambda>_ _. Inr sample_release), ux_latest_at_apply = (\<lambda>_ _. Inr sample_release),
     ux_download = (\<lambda>a. if a = sample_archive then Inr ''tar'' else Inr ''ab agentpact-linux-x86_64.tar.gz''),
     ux_sha256 = (\<lambda>_. [CHR 0xAB]), ux_extract = (\<lambda>_ _. Inr (\<lambda>b. Some (Inr ''new''))),
     ux_which_path = (\<lambda>b. Some (''/bin/'' @ b)), ux_from_utf8_lossy = (\<lambda>x. x), ux_now = ''t'',
     ux_service_running = (\<lambda>_. True), ux_restart_error = (\<lambda>_. None)\<rparr>"

definition sample_world :: update_world where
  "sample_world = \<lparr>uw_store = \<lparr>files = [''/bin/agentpactd'' \<mapsto> ''old''], manifest = []\<rparr>, uw_out = [], uw_restarted = [], uw_cache = None\<rparr>"

lemma sample_probe:
  "probe_repo sample_update_env \<lparr>ru_owner = ''kyr-is'', ru_repo = ''agentpact'', ru_formula = ''agentpact'', ru_primary_binary = ''agentpactd'',
       ru_binaries = [''agentpactd''], ru_service = Some Agentpactd\<rparr> =
   \<lparr>rs_repo = ''agentpact'', rs_current = Some ''1.2.3+local'', rs_latest = Some ''1.2.3'', rs_channel = ''script''\<rparr>"
  "rs_channel (probe_repo sample_update_env \<lparr>ru_owner = ''kyr-is'', ru_repo = ''kyris'', ru_formula = ''kyris'', ru_primary_binary = ''kyris'',
       ru_binaries = [''kyris'', ''kyrisd'', ''kyris-mcp'', ''kyris-hook''], ru_service = Some Kyrisd\<rparr>) = ''missing''"
proof -
  have "trim ''1.2.3'' = ''1.2.3''" by (rule trim_graph) (simp_all add: byte_in_def)
  then show "probe_repo sample_update_env \<lparr>ru_owner = ''kyr-is'', ru_repo = ''agentpact'', ru_formula = ''agentpact'', ru_primary_binary = ''agentpactd'',
       ru_binaries = [''agentpactd''], ru_service = Some Agentpactd\<rparr> =
   \<lparr>rs_repo = ''agentpact'', rs_current = Some ''1.2.3+local'', rs_latest = Some ''1.2.3'', rs_channel = ''script''\<rparr>"
    by (simp add: probe_repo_def sample_update_env_def sample_release_def normalize_version_def trim_start_matches_def)
qed (simp add: probe_repo_def sample_update_env_def)


lemma sample_verified: "download_and_verify sample_update_env sample_release sample_archive = Inr ''tar''"
proof -
  have l: "lines ''ab agentpact-linux-x86_64.tar.gz'' = [''ab agentpact-linux-x86_64.tar.gz'']" by code_simp
  have t: "trim ''ab agentpact-linux-x86_64.tar.gz'' = ''ab agentpact-linux-x86_64.tar.gz''"
    "trim ''agentpact-linux-x86_64.tar.gz'' = ''agentpact-linux-x86_64.tar.gz''"
    by (rule trim_graph; simp add: byte_in_def)+
  have s: "split_once_white ''ab agentpact-linux-x86_64.tar.gz'' = Some (''ab'', ''agentpact-linux-x86_64.tar.gz'')"
    by (simp add: split_once_white.simps white_space_bytes)
  have "parse_checksums ''ab agentpact-linux-x86_64.tar.gz'' ''agentpact-linux-x86_64.tar.gz'' = Some ''ab''"
    by (simp add: parse_checksums_def l t s to_ascii_lowercase_def to_ascii_lower_char_def)
  moreover have "sha256_hex sample_update_env x = ''ab''" for x
    by (simp add: sha256_hex_def sample_update_env_def hex_byte_def hex_digit_def char_of_eq_iff)
  moreover have "valid_utf8 ''ab agentpact-linux-x86_64.tar.gz''" by code_simp
  ultimately show ?thesis
    by (simp add: download_and_verify_def sample_update_env_def sample_release_def sample_archive_def)
qed

lemma sample_update:
  "\<exists>r w'. run_update sample_update_env Apply sample_world = (r, w') \<and> files (uw_store w') ''/bin/agentpactd'' = Some ''new''"
proof -
  let ?repo = "\<lparr>ru_owner = ''kyr-is'', ru_repo = ''agentpact'', ru_formula = ''agentpact'', ru_primary_binary = ''agentpactd'',
       ru_binaries = [''agentpactd''], ru_service = Some Agentpactd\<rparr>"
  have a: "\<exists>v. apply_release sample_update_env ?repo ''linux-x86_64'' w = (Inr (UpdateAvailable True), v) \<and> files (uw_store v) ''/bin/agentpactd'' = Some ''new''"
    if "uw_store w = uw_store sample_world" for w
    using sample_verified that
    by (simp add: apply_release_def sample_update_env_def sample_release_def sample_archive_def restart_if_running_def write_managed_bytes_def
        record_manifest_if_absent_def write_file_def say_def sample_world_def)
  have t: "release_target sample_update_env = Inr ''linux-x86_64''" by (simp add: release_target_def sample_update_env_def)
  let ?w = "sample_world\<lparr>uw_cache := Some (map (probe_repo sample_update_env) update_repos)\<rparr>"
  obtain w1 where w1: "apply_or_report sample_update_env (hd update_repos) (probe_repo sample_update_env (hd update_repos)) Apply ''linux-x86_64'' ?w =
      (Inr Noop, w1)" "uw_store w1 = uw_store sample_world"
    using sample_probe(2) by (simp add: apply_or_report_def update_repos_def say_def)
  obtain w2 where w2: "apply_or_report sample_update_env ?repo (probe_repo sample_update_env ?repo) Apply ''linux-x86_64'' w1 =
      (Inr (UpdateAvailable True), w2)" "files (uw_store w2) ''/bin/agentpactd'' = Some ''new''"
    using a[of "say (''agentpact'' @ '': update available '' @ ''1.2.3+local'' @ '' -> '' @ ''1.2.3'' @ ''.'') w1"] w1(2)
    by (auto simp: apply_or_report_def sample_probe(1) build_metadata_hides_patch say_def Let_def)
  have "zip update_repos (map (probe_repo sample_update_env) update_repos) =
      [(hd update_repos, probe_repo sample_update_env (hd update_repos)), (?repo, probe_repo sample_update_env ?repo)]"
    by (simp add: update_repos_def)
  then have "run_update sample_update_env Apply sample_world = (Inr (), w2)"
    using t w1(1) w2(1) by (simp add: run_update_def)
  with w2(2) show ?thesis by blast
qed

theorem only_verified_binaries_are_installed_witness:
  "\<exists>repo c. repo \<in> set update_repos \<and> older (probe_repo sample_update_env repo) \<and>
     verified_source sample_update_env ''linux-x86_64'' repo ''/bin/agentpactd'' c"
proof -
  obtain r w' where r: "run_update sample_update_env Apply sample_world = (r, w')" "files (uw_store w') ''/bin/agentpactd'' = Some ''new''"
    using sample_update by blast
  have "files (uw_store w') ''/bin/agentpactd'' \<noteq> files (uw_store sample_world) ''/bin/agentpactd''" using r(2) by (simp add: sample_world_def)
  from only_verified_binaries_are_installed[OF r(1) this] show ?thesis
    by (auto simp: release_target_def sample_update_env_def)
qed

end
