(* ===== verification/Reconcile.thy ===== *)
theory Reconcile
  imports Prelude
begin

text \<open>
  The lifecycle of an agent's integration: what an agent declares (\<^verbatim>\<open>cli/src/agents/registry.rs\<close>, \<^verbatim>\<open>capabilities.rs\<close>, \<^verbatim>\<open>manifest.rs\<close>),
  the profile kept for it (\<^verbatim>\<open>profile.rs\<close>), the environment file it is launched with (\<^verbatim>\<open>prestage.rs\<close>), setting it up
  (\<^verbatim>\<open>configure.rs\<close>, \<^verbatim>\<open>configure/daemons.rs\<close>, \<^verbatim>\<open>mod.rs\<close>), repairing and promoting it (\<^verbatim>\<open>reconcile.rs\<close>) and disconnecting it
  (\<^verbatim>\<open>undo.rs\<close>). An agent is the record of the methods of the trait \<^verbatim>\<open>AgentDescriptor\<close>; what its surfaces do to the agent's own
  files is hidden in a type \<open>'w\<close> that only those methods read and change, except for the compilation gaps that configuring a surface
  stores in the agent's profile. Every call of such a method is traced.
\<close>

section \<open>Plans\<close>

datatype CapLevel = LevelNone | Adapted | Native

datatype CoverageCeiling = Compiled | Observed

datatype ExecutionMechanism = LiveHookAdapter | ShellHook | CompiledPolicy
datatype ToolMechanism = ToolLiveHookAdapter | McpWrapping
datatype BurnControlMechanism = AgentPactUsageReport | KyrisdModelProvider | EnvVarProxy | ConfigRewrite

datatype AttributionMechanism =
  AttributionNative | KyrisPathShim | ShellEnvironmentPolicy | NativeHookPayload | ProcessLineage | PeerProcessObserved | UnknownAttribution

datatype 'm SurfaceIntegration = PlanNone | AgentPactNative | PlanAdapted "'m list" "CoverageCeiling option"

fun si_is_none :: "'m SurfaceIntegration \<Rightarrow> bool" where
  "si_is_none PlanNone = True"
| "si_is_none _ = False"

fun si_is_adapted :: "'m SurfaceIntegration \<Rightarrow> bool" where
  "si_is_adapted (PlanAdapted _ _) = True"
| "si_is_adapted _ = False"

fun si_ceiling :: "'m SurfaceIntegration \<Rightarrow> CoverageCeiling option" where
  "si_ceiling (PlanAdapted _ c) = c"
| "si_ceiling _ = None"

record AgentIntegrationPlan =
  ip_execution :: "ExecutionMechanism SurfaceIntegration"
  ip_tool :: "ToolMechanism SurfaceIntegration"
  ip_burn_control :: "BurnControlMechanism SurfaceIntegration"
  ip_attribution :: "AttributionMechanism list"
  ip_agentpact_native_attribution :: bool

datatype surface = Execution | Tool | BurnControl

fun plan_expects :: "AgentIntegrationPlan \<Rightarrow> surface \<Rightarrow> bool" where
  "plan_expects p Execution = (\<not> si_is_none (ip_execution p))"
| "plan_expects p Tool = (\<not> si_is_none (ip_tool p))"
| "plan_expects p BurnControl = (\<not> si_is_none (ip_burn_control p))"

fun plan_adapts :: "AgentIntegrationPlan \<Rightarrow> surface \<Rightarrow> bool" where
  "plan_adapts p Execution = si_is_adapted (ip_execution p)"
| "plan_adapts p Tool = si_is_adapted (ip_tool p)"
| "plan_adapts p BurnControl = si_is_adapted (ip_burn_control p)"

definition requires_path_shim :: "AgentIntegrationPlan \<Rightarrow> bool" where
  "requires_path_shim p \<longleftrightarrow> \<not> ip_agentpact_native_attribution p \<and> KyrisPathShim \<in> set (ip_attribution p)"

record NativeCapabilityDeclaration =
  nc_execution :: bool
  nc_tool :: bool
  nc_burn_control :: bool
  nc_attribution :: bool

definition with_native_capabilities :: "NativeCapabilityDeclaration \<Rightarrow> AgentIntegrationPlan \<Rightarrow> AgentIntegrationPlan" where
  "with_native_capabilities c p =
     p\<lparr>ip_execution := (if nc_execution c then AgentPactNative else ip_execution p),
       ip_tool := (if nc_tool c then AgentPactNative else ip_tool p),
       ip_burn_control := (if nc_burn_control c then AgentPactNative else ip_burn_control p),
       ip_agentpact_native_attribution := (if nc_attribution c then True else ip_agentpact_native_attribution p)\<rparr>"

text \<open>The gate for a capability document, in-code or live; \<^verbatim>\<open>serde_json\<close> is an argument.\<close>

record AgentManifest =
  am_api_version :: string
  am_kind :: string
  am_protocol_version :: nat
  am_agent :: string
  am_native :: NativeCapabilityDeclaration

definition SUPPORTED_PROTOCOL_VERSION :: nat where "SUPPORTED_PROTOCOL_VERSION = 1"

definition parse_and_validate :: "(string \<Rightarrow> string + AgentManifest) \<Rightarrow> string \<Rightarrow> string \<Rightarrow> string + AgentManifest" where
  "parse_and_validate from_str doc expected_agent =
     (case from_str doc of
        Inl e \<Rightarrow> Inl (''invalid AgentCapabilities JSON: '' @ e)
      | Inr m \<Rightarrow>
          if am_api_version m \<noteq> ''agentpact/v1'' then Inl (''unsupported apiVersion: '' @ am_api_version m)
          else if am_kind m \<noteq> ''AgentCapabilities'' then Inl (''unsupported kind: '' @ am_kind m)
          else if am_protocol_version m > SUPPORTED_PROTOCOL_VERSION
          then Inl (''unsupported protocol_version '' @ display_nat (am_protocol_version m) @ '' (this build supports up to '' @
                    display_nat SUPPORTED_PROTOCOL_VERSION @ '')'')
          else if am_agent m \<noteq> expected_agent
          then Inl (''capabilities agent '' @ am_agent m @ '' does not match '' @ expected_agent)
          else Inr m)"

definition canonical_agent_id :: "string \<Rightarrow> string" where
  "canonical_agent_id i =
     (if i = ''claude-code'' then ''anthropic/claude-code''
      else if i = ''codex-cli'' then ''openai/codex-cli''
      else if i = ''gemini-cli'' then ''google/gemini-cli''
      else if i = ''opencode'' then ''opencode/opencode''
      else if i = ''cline'' then ''cline/cline''
      else i)"

definition AGENT_IDS :: "string list" where
  "AGENT_IDS = [''claude-code'', ''codex-cli'', ''gemini-cli'', ''cline'', ''opencode'']"

section \<open>The environment file\<close>

record ProviderRouting =
  pr_base_url_vars :: "string list"
  pr_auth_skip_flags :: "(string \<times> string) list"
  pr_custom_headers_var :: string
  pr_header_separator :: string

definition env_exports :: "ProviderRouting option \<Rightarrow> string \<Rightarrow> string \<Rightarrow> string \<Rightarrow> (string \<times> string) list" where
  "env_exports routing agent_id base_url inbound_key =
     (case routing of
        None \<Rightarrow> []
      | Some r \<Rightarrow>
          map (\<lambda>var. (var, base_url)) (pr_base_url_vars r) @ pr_auth_skip_flags r @
          [(pr_custom_headers_var r,
            ''x-kyris-inbound: '' @ inbound_key @ pr_header_separator r @ ''x-kyris-agent-id: '' @ canonical_agent_id agent_id)])"

definition shell_single_quote :: "string \<Rightarrow> string" where
  "shell_single_quote val = [CHR 39] @ concat (map (\<lambda>ch. if ch = CHR 39 then [CHR 39, CHR 92, CHR 39, CHR 39] else [ch]) val) @ [CHR 39]"

definition exports_to_shell :: "(string \<times> string) list \<Rightarrow> string" where
  "exports_to_shell exports =
     ''# SPDX-License-Identifier: Apache-2.0'' @ [nl] @
     concat (map (\<lambda>(key, val). ''export '' @ key @ ''='' @ shell_single_quote val @ [nl]) exports)"

definition single_quoted :: "string \<Rightarrow> string" where "single_quoted s = [CHR 39] @ s @ [CHR 39]"

definition long_dash :: string where "long_dash = map char_of [0xE2, 0x80, 0x94 :: nat]"

section \<open>Profiles\<close>

record 'm SurfaceState =
  ss_level :: CapLevel
  ss_mechanism :: "'m option"
  ss_ceiling :: "CoverageCeiling option"
  ss_not_applicable :: bool

definition surface_none :: "'m SurfaceState" where
  "surface_none = \<lparr>ss_level = LevelNone, ss_mechanism = None, ss_ceiling = None, ss_not_applicable = False\<rparr>"

definition surface_not_applicable :: "'m SurfaceState" where
  "surface_not_applicable = \<lparr>ss_level = LevelNone, ss_mechanism = None, ss_ceiling = None, ss_not_applicable = True\<rparr>"

definition surface_native :: "'m SurfaceState" where
  "surface_native = \<lparr>ss_level = Native, ss_mechanism = None, ss_ceiling = None, ss_not_applicable = False\<rparr>"

definition surface_adapted :: "'m \<Rightarrow> 'm SurfaceState" where
  "surface_adapted m = \<lparr>ss_level = Adapted, ss_mechanism = Some m, ss_ceiling = None, ss_not_applicable = False\<rparr>"

definition with_ceiling :: "CoverageCeiling \<Rightarrow> 'm SurfaceState \<Rightarrow> 'm SurfaceState" where
  "with_ceiling ceiling s = s\<lparr>ss_ceiling := Some ceiling\<rparr>"

definition is_compiled_only :: "'m SurfaceState \<Rightarrow> bool" where
  "is_compiled_only s \<longleftrightarrow> ss_ceiling s = Some Compiled"

record SurfaceEvidence =
  ev_execution :: "nat option"
  ev_tool :: "nat option"
  ev_burn_control :: "nat option"

definition no_evidence :: SurfaceEvidence where
  "no_evidence = \<lparr>ev_execution = None, ev_tool = None, ev_burn_control = None\<rparr>"

fun evidence_of :: "SurfaceEvidence \<Rightarrow> surface \<Rightarrow> nat option" where
  "evidence_of e Execution = ev_execution e"
| "evidence_of e Tool = ev_tool e"
| "evidence_of e BurnControl = ev_burn_control e"

record fingerprint =
  fp_path :: string
  fp_content_hash :: string

type_synonym settings = "(string, string) hashmap"

record AgentProfile =
  ap_agent_id :: string
  ap_detected :: bool
  ap_execution :: "ExecutionMechanism SurfaceState"
  ap_tool :: "ToolMechanism SurfaceState"
  ap_burn_control :: "BurnControlMechanism SurfaceState"
  ap_managed_files :: "fingerprint list"
  ap_last_reconciled :: "nat option"
  ap_last_native_seen :: "nat option"
  ap_native_evidence :: SurfaceEvidence
  ap_live_evidence :: SurfaceEvidence
  ap_agent_specific :: settings
  ap_compilation_gaps :: "string list"
  ap_disconnected :: bool
  ap_version :: nat

definition new_empty :: "string \<Rightarrow> AgentProfile" where
  "new_empty agent_id = \<lparr>ap_agent_id = agent_id, ap_detected = False, ap_execution = surface_none, ap_tool = surface_none,
     ap_burn_control = surface_none, ap_managed_files = [], ap_last_reconciled = None, ap_last_native_seen = None,
     ap_native_evidence = no_evidence, ap_live_evidence = no_evidence, ap_agent_specific = [],
     ap_compilation_gaps = [], ap_disconnected = False, ap_version = 1\<rparr>"

fun level_of :: "AgentProfile \<Rightarrow> surface \<Rightarrow> CapLevel" where
  "level_of p Execution = ss_level (ap_execution p)"
| "level_of p Tool = ss_level (ap_tool p)"
| "level_of p BurnControl = ss_level (ap_burn_control p)"

definition migrate_native_evidence :: "AgentProfile \<Rightarrow> AgentProfile" where
  "migrate_native_evidence p =
     (if ap_last_native_seen p \<noteq> None \<and> ev_burn_control (ap_native_evidence p) = None
      then p\<lparr>ap_native_evidence := (ap_native_evidence p)\<lparr>ev_burn_control := ap_last_native_seen p\<rparr>\<rparr>
      else p)"

definition merge_missing_from :: "SurfaceEvidence \<Rightarrow> SurfaceEvidence \<Rightarrow> SurfaceEvidence" where
  "merge_missing_from other e =
     \<lparr>ev_execution = opt_or (ev_execution e) (ev_execution other), ev_tool = opt_or (ev_tool e) (ev_tool other),
      ev_burn_control = opt_or (ev_burn_control e) (ev_burn_control other)\<rparr>"

record ProbeResult =
  pb_detected :: bool
  pb_execution :: "ExecutionMechanism SurfaceState"
  pb_tool :: "ToolMechanism SurfaceState"
  pb_burn_control :: "BurnControlMechanism SurfaceState"
  pb_managed_files :: "fingerprint list"

section \<open>Agents and the world\<close>

record 'w agent =
  ag_id :: string
  ag_integration_plan :: AgentIntegrationPlan
  ag_is_installed :: "'w \<Rightarrow> bool"
  ag_probe :: "'w \<Rightarrow> ProbeResult"
  ag_native_evidence :: "'w \<Rightarrow> SurfaceEvidence"
  ag_kyris_content_markers :: "string list"
  ag_provider_routing :: "ProviderRouting option"
  ag_supported_settings :: "(string \<times> string) list"
  ag_unwrapped_mcp_server_names :: "'w \<Rightarrow> string list"
  ag_configure_surface :: "surface \<Rightarrow> string \<Rightarrow> string \<Rightarrow> settings \<Rightarrow> 'w \<Rightarrow> (string + string list) \<times> 'w"
  ag_compilation_gaps :: "surface \<Rightarrow> 'w \<Rightarrow> string list"
  ag_undo_surface :: "surface \<Rightarrow> 'w \<Rightarrow> (string + unit) \<times> 'w"
  ag_install_shim :: "'w \<Rightarrow> (string + string list) \<times> 'w"
  ag_uninstall_shim :: "'w \<Rightarrow> (string + bool) \<times> 'w"
  ag_scrub_residue :: "'w \<Rightarrow> (string + string list) \<times> 'w"

record 'w agents_env =
  ax_config :: "string + string \<times> string"
  ax_load_error :: "string \<Rightarrow> string option"
  ax_save_error :: "string option"
  ax_env_file_error :: "string option"
  ax_now :: nat
  ax_native_seen :: "string \<Rightarrow> nat option"
  ax_live_seen :: "string \<Rightarrow> SurfaceEvidence"
  ax_read_file :: "'w \<Rightarrow> string \<Rightarrow> string option"
  ax_sha256_hex :: "string \<Rightarrow> string"
  ax_kyrisd_problem :: "string option"
  ax_agentpactd_reachable :: bool

datatype action = Configured surface | Undone surface | ShimInstalled | ShimRemoved | Scrubbed

record 'w agents_world =
  aw_agents :: 'w
  aw_profiles :: "string \<rightharpoonup> AgentProfile"
  aw_env_files :: "string \<rightharpoonup> string"
  aw_last_reconcile :: "nat option"
  aw_trace :: "(string \<times> action) list"

type_synonym ('w, 'a) run = "'w agents_world \<Rightarrow> (string + 'a) \<times> 'w agents_world"

definition andThen :: "('w, 'a) run \<Rightarrow> ('a \<Rightarrow> ('w, 'b) run) \<Rightarrow> ('w, 'b) run" where
  "andThen m k w = (case m w of (Inl e, w') \<Rightarrow> (Inl e, w') | (Inr x, w') \<Rightarrow> k x w')"

text \<open>One method of the agent is called; what it did is traced, and its failure is the result.\<close>

definition call :: "string \<Rightarrow> action \<Rightarrow> ('w \<Rightarrow> (string + 'a) \<times> 'w) \<Rightarrow> ('w, 'a) run" where
  "call i act f w = (case f (aw_agents w) of (r, a') \<Rightarrow> (r, w\<lparr>aw_agents := a', aw_trace := aw_trace w @ [(i, act)]\<rparr>))"

definition when_run :: "bool \<Rightarrow> ('w, string list) run \<Rightarrow> ('w, string list) run" where
  "when_run b m w = (if b then m w else (Inr [], w))"

definition load_agent_profile :: "'w agents_env \<Rightarrow> string \<Rightarrow> ('w, AgentProfile option) run" where
  "load_agent_profile env i w = (case ax_load_error env i of Some e \<Rightarrow> (Inl e, w) | None \<Rightarrow> (Inr (aw_profiles w i), w))"

definition save_agent_profile :: "'w agents_env \<Rightarrow> AgentProfile \<Rightarrow> ('w, unit) run" where
  "save_agent_profile env p w =
     (case ax_save_error env of Some e \<Rightarrow> (Inl e, w) | None \<Rightarrow> (Inr (), w\<lparr>aw_profiles := (aw_profiles w)(ap_agent_id p \<mapsto> p)\<rparr>))"

definition load_or_new :: "'w agents_env \<Rightarrow> string \<Rightarrow> ('w, AgentProfile) run" where
  "load_or_new env i = andThen (load_agent_profile env i) (\<lambda>p w. (Inr (unwrap_or p (new_empty i)), w))"


section \<open>Setting up\<close>

definition prestage_agent_inner :: "'w agents_env \<Rightarrow> 'w agent \<Rightarrow> string \<Rightarrow> string \<Rightarrow> ('w, string list) run" where
  "prestage_agent_inner env a base_url inbound_key w =
     (let exports = env_exports (ag_provider_routing a) (ag_id a) base_url inbound_key;
          contents = exports_to_shell exports
      in if exports = [] then (Inr [], w)
         else if aw_env_files w (ag_id a) = Some contents then (Inr [], w)
         else case ax_env_file_error env of
                Some e \<Rightarrow> (Inl e, w)
              | None \<Rightarrow> (Inr [''wrote '' @ ag_id a @ ''.sh''], w\<lparr>aw_env_files := (aw_env_files w)(ag_id a \<mapsto> contents)\<rparr>))"

fun prestage_each :: "'w agents_env \<Rightarrow> string \<Rightarrow> string \<Rightarrow> 'w agent list \<Rightarrow> ('w, unit) run" where
  "prestage_each env base_url inbound_key [] = (\<lambda>w. (Inr (), w))"
| "prestage_each env base_url inbound_key (a # as) =
     andThen (prestage_agent_inner env a base_url inbound_key) (\<lambda>_. prestage_each env base_url inbound_key as)"

definition prestage_all :: "'w agents_env \<Rightarrow> 'w agent list \<Rightarrow> ('w, unit) run" where
  "prestage_all env as w =
     (case ax_config env of Inl e \<Rightarrow> (Inl e, w) | Inr (base_url, inbound_key) \<Rightarrow> prestage_each env base_url inbound_key as w)"

definition prestage_agent :: "'w agents_env \<Rightarrow> 'w agent \<Rightarrow> ('w, string list) run" where
  "prestage_agent env a w =
     (case ax_config env of Inl e \<Rightarrow> (Inl e, w) | Inr (base_url, inbound_key) \<Rightarrow> prestage_agent_inner env a base_url inbound_key w)"

text \<open>Configuring a surface; when the policy could not be compiled without loss, the gaps go into the stored profile
  (\<^verbatim>\<open>configure_execution_surface\<close> of \<^verbatim>\<open>codex_cli.rs\<close>).\<close>

definition record_compilation_gaps :: "'w agents_env \<Rightarrow> string \<Rightarrow> string list \<Rightarrow> ('w, unit) run" where
  "record_compilation_gaps env i gaps =
     (if gaps = [] then (\<lambda>w. (Inr (), w))
      else andThen (load_or_new env i) (\<lambda>profile. save_agent_profile env (profile\<lparr>ap_compilation_gaps := gaps\<rparr>)))"

definition configure_one ::
    "'w agents_env \<Rightarrow> 'w agent \<Rightarrow> string \<times> string \<Rightarrow> settings \<Rightarrow> (surface \<Rightarrow> bool) \<Rightarrow> surface \<Rightarrow> ('w, string list) run" where
  "configure_one env a conf agent_specific skip s =
     when_run (\<not> skip s \<and> plan_adapts (ag_integration_plan a) s)
       (andThen (call (ag_id a) (Configured s) (ag_configure_surface a s (fst conf) (snd conf) agent_specific)) (\<lambda>changes w.
          andThen (record_compilation_gaps env (ag_id a) (ag_compilation_gaps a s (aw_agents w))) (\<lambda>_ w. (Inr changes, w)) w))"

definition configure_agent_surfaces :: "'w agents_env \<Rightarrow> 'w agent \<Rightarrow> settings \<Rightarrow> (surface \<Rightarrow> bool) \<Rightarrow> ('w, unit) run" where
  "configure_agent_surfaces env a agent_specific skip w =
     (if \<not> ag_is_installed a (aw_agents w) then (Inl (ag_id a @ '' is not installed.''), w)
      else case ax_config env of
             Inl e \<Rightarrow> (Inl e, w)
           | Inr conf \<Rightarrow>
               andThen (when_run (requires_path_shim (ag_integration_plan a)) (call (ag_id a) ShimInstalled (ag_install_shim a))) (\<lambda>_.
               andThen (configure_one env a conf agent_specific skip Execution) (\<lambda>_.
               andThen (configure_one env a conf agent_specific skip Tool) (\<lambda>_.
               andThen (configure_one env a conf agent_specific skip BurnControl) (\<lambda>_ w.
                 if \<not> skip BurnControl \<and> plan_adapts (ag_integration_plan a) BurnControl
                 then (case ax_kyrisd_problem env of
                         Some problem \<Rightarrow> (Inl (''kyrisd unreachable ('' @ problem @ ''). Bring kyrisd up (try `launchctl kickstart gui/$UID/is.kyr.kyrisd` or '' @
                            ''reinstall), then re-run `kyris agent setup '' @ ag_id a @ ''`.''), w)
                       | None \<Rightarrow> (Inr (), w))
                 else (Inr (), w))))) w)"

definition governance_daemons_error :: "string \<Rightarrow> string option \<Rightarrow> bool \<Rightarrow> string option" where
  "governance_daemons_error agent_id kyrisd_problem agentpactd_down =
     (let down = (case kyrisd_problem of
                    Some problem \<Rightarrow> [''kyrisd unreachable ('' @ problem @ '') '' @ long_dash @ '' model routing / burn-control will not work '' @
                                     ''(try `launchctl kickstart gui/$UID/is.kyr.kyrisd` or reinstall)'']
                  | None \<Rightarrow> []) @
                 (if agentpactd_down
                  then [''agentpactd unreachable '' @ long_dash @ '' command & MCP governance will not enforce; the agent '' @
                        ''would run UNGOVERNED (start agentpactd or reinstall)'']
                  else [])
      in if down = [] then None
         else Some (agent_id @ '' configured, but governance is NOT active:'' @ [nl] @ ''  - '' @ join ([nl] @ ''  - '') down @ [nl] @
                    ''The configuration is in place '' @ long_dash @ '' re-run `kyris agent setup '' @ agent_id @ ''` once the daemon(s) are up.''))"

definition verify_governance_daemons :: "'w agents_env \<Rightarrow> string \<Rightarrow> bool \<Rightarrow> ('w, unit) run" where
  "verify_governance_daemons env agent_id check_agentpactd w =
     (case governance_daemons_error agent_id (ax_kyrisd_problem env) (check_agentpactd \<and> \<not> ax_agentpactd_reachable env) of
        Some msg \<Rightarrow> (Inl msg, w)
      | None \<Rightarrow> (Inr (), w))"

definition settings_detail :: "'w agent \<Rightarrow> string" where
  "settings_detail a =
     (if ag_supported_settings a = [] then ag_id a @ '' accepts no --set settings.''
      else ''Valid --set keys for '' @ ag_id a @ '':'' @ [nl] @
           join [nl] (map (\<lambda>(k, d). ''  '' @ k @ '' '' @ long_dash @ '' '' @ d) (ag_supported_settings a)))"

definition validate_agent_settings :: "'w agent \<Rightarrow> settings \<Rightarrow> string + unit" where
  "validate_agent_settings a agent_specific =
     (case List.find (\<lambda>(key, _). key \<notin> fst ` set (ag_supported_settings a)) agent_specific of
        Some (key, _) \<Rightarrow> Inl (''Unknown --set key '' @ single_quoted key @ '' for '' @ ag_id a @ ''. '' @ settings_detail a)
      | None \<Rightarrow> Inr ())"

definition extend_settings :: "settings \<Rightarrow> settings \<Rightarrow> settings" where
  "extend_settings old new = fold (\<lambda>(k, v). AList.update k v) new old"

definition clear_disconnected_flag :: "'w agents_env \<Rightarrow> string \<Rightarrow> ('w, unit) run" where
  "clear_disconnected_flag env i =
     andThen (load_agent_profile env i) (\<lambda>p w.
       case p of
         Some profile \<Rightarrow> if ap_disconnected profile then save_agent_profile env (profile\<lparr>ap_disconnected := False\<rparr>) w else (Inr (), w)
       | None \<Rightarrow> (Inr (), w))"

definition save_agent_specific :: "'w agents_env \<Rightarrow> string \<Rightarrow> settings \<Rightarrow> ('w, unit) run" where
  "save_agent_specific env i new =
     andThen (load_or_new env i) (\<lambda>profile.
       save_agent_profile env (profile\<lparr>ap_agent_specific := extend_settings (ap_agent_specific profile) new\<rparr>))"

definition setup_installed :: "'w agents_env \<Rightarrow> 'w agent \<Rightarrow> string \<times> string \<Rightarrow> settings \<Rightarrow> ('w, unit) run" where
  "setup_installed env a conf effective =
     (let plan = ag_integration_plan a in
      andThen (when_run (requires_path_shim plan) (call (ag_id a) ShimInstalled (ag_install_shim a))) (\<lambda>_.
      andThen (configure_one env a conf effective (\<lambda>_. False) Execution) (\<lambda>_.
      andThen (configure_one env a conf effective (\<lambda>_. False) Tool) (\<lambda>_.
      andThen (configure_one env a conf effective (\<lambda>_. False) BurnControl) (\<lambda>_.
        verify_governance_daemons env (ag_id a) (plan_adapts plan Execution \<or> plan_adapts plan Tool))))))"

definition setup_agent :: "'w agents_env \<Rightarrow> 'w agent \<Rightarrow> settings \<Rightarrow> ('w, unit) run" where
  "setup_agent env a agent_specific w =
     (case validate_agent_settings a agent_specific of
        Inl e \<Rightarrow> (Inl e, w)
      | Inr _ \<Rightarrow>
          case ax_config env of
            Inl e \<Rightarrow> (Inl e, w)
          | Inr conf \<Rightarrow>
              andThen (load_agent_profile env (ag_id a)) (\<lambda>p.
              let effective = extend_settings (case p of Some q \<Rightarrow> ap_agent_specific q | None \<Rightarrow> []) agent_specific in
              andThen (prestage_agent env a) (\<lambda>_.
              andThen (\<lambda>w. if ag_is_installed a (aw_agents w) then setup_installed env a conf effective w
                           else verify_governance_daemons env (ag_id a) False w) (\<lambda>_.
              andThen (clear_disconnected_flag env (ag_id a)) (\<lambda>_ w.
                if agent_specific = [] then (Inr (), w) else save_agent_specific env (ag_id a) agent_specific w)))) w)"

section \<open>Reconciling\<close>

definition was_configured :: "'w agents_env \<Rightarrow> string \<Rightarrow> 'w agents_world \<Rightarrow> bool" where
  "was_configured env i w =
     (case fst (load_agent_profile env i w) of
        Inr (Some p) \<Rightarrow> level_of p Execution \<noteq> LevelNone \<or> level_of p Tool \<noteq> LevelNone \<or> level_of p BurnControl \<noteq> LevelNone
      | _ \<Rightarrow> False)"

definition DEBOUNCE_SECONDS :: nat where "DEBOUNCE_SECONDS = 300"

text \<open>A file from the future counts as just written (\<^verbatim>\<open>duration_since\<close> fails and the default is zero).\<close>

definition should_skip_debounce :: "nat \<Rightarrow> nat option \<Rightarrow> bool" where
  "should_skip_debounce now modified = (case modified of None \<Rightarrow> False | Some m \<Rightarrow> now - m < DEBOUNCE_SECONDS)"

definition touch_last_reconcile :: "'w agents_env \<Rightarrow> 'w agents_world \<Rightarrow> 'w agents_world" where
  "touch_last_reconcile env w = w\<lparr>aw_last_reconcile := Some (ax_now env)\<rparr>"

definition collect_native_evidence :: "'w agents_env \<Rightarrow> 'w agent \<Rightarrow> 'w agents_world \<Rightarrow> SurfaceEvidence" where
  "collect_native_evidence env a w =
     (let evidence = ag_native_evidence a (aw_agents w)
      in if ev_burn_control evidence = None then evidence\<lparr>ev_burn_control := ax_native_seen env (ag_id a)\<rparr> else evidence)"

definition file_contains_marker :: "string option \<Rightarrow> string list \<Rightarrow> bool" where
  "file_contains_marker contents markers =
     (markers \<noteq> [] \<and> (case contents of None \<Rightarrow> False | Some c \<Rightarrow> list_ex (\<lambda>m. sublist m c) markers))"

text \<open>A managed file needs repair when it is gone, or has changed and carries none of the agent's markers.\<close>

definition drifted :: "'w agents_env \<Rightarrow> 'w agent \<Rightarrow> 'w agents_world \<Rightarrow> fingerprint \<Rightarrow> bool" where
  "drifted env a w fp =
     (case ax_read_file env (aw_agents w) (fp_path fp) of
        None \<Rightarrow> True
      | Some c \<Rightarrow> ax_sha256_hex env c \<noteq> fp_content_hash fp \<and>
                 \<not> file_contains_marker (if valid_utf8 c then Some c else None) (ag_kyris_content_markers a))"

definition take_surfaces :: "ProbeResult \<Rightarrow> AgentProfile \<Rightarrow> AgentProfile" where
  "take_surfaces pb p =
     p\<lparr>ap_execution := (if level_of p Execution \<noteq> Native then pb_execution pb else ap_execution p),
       ap_tool := (if level_of p Tool \<noteq> Native then pb_tool pb else ap_tool p),
       ap_burn_control := (if level_of p BurnControl \<noteq> Native then pb_burn_control pb else ap_burn_control p)\<rparr>"

text \<open>The result of a configure that is only reported: the pass goes on with a fresh probe.\<close>

definition configure_and_reprobe ::
    "'w agents_env \<Rightarrow> 'w agent \<Rightarrow> settings \<Rightarrow> (surface \<Rightarrow> bool) \<Rightarrow> bool \<Rightarrow> ProbeResult \<times> 'w agents_world \<Rightarrow> ProbeResult \<times> 'w agents_world" where
  "configure_and_reprobe env a agent_specific skip needed pw =
     (if needed
      then let w' = snd (configure_agent_surfaces env a agent_specific skip (snd pw));
               updated = ag_probe a (aw_agents w')
           in (updated\<lparr>pb_detected := pb_detected (fst pw)\<rparr>, w')
      else pw)"

definition set_native :: "surface \<Rightarrow> AgentProfile \<Rightarrow> AgentProfile" where
  "set_native s p = (case s of Execution \<Rightarrow> p\<lparr>ap_execution := surface_native\<rparr> | Tool \<Rightarrow> p\<lparr>ap_tool := surface_native\<rparr>
                             | BurnControl \<Rightarrow> p\<lparr>ap_burn_control := surface_native\<rparr>)"

text \<open>\<^verbatim>\<open>promote_surface\<close> with the handling of its error, which is only printed: the surface stays as it is.\<close>

definition promote_surface ::
    "'w agent \<Rightarrow> surface \<Rightarrow> bool \<Rightarrow> AgentProfile \<times> 'w agents_world \<Rightarrow> bool \<times> AgentProfile \<times> 'w agents_world" where
  "promote_surface a s should_promote pw =
     (let (p, w) = pw in
      if \<not> should_promote \<or> level_of p s = Native then (False, p, w)
      else if level_of p s = Adapted
      then (case call (ag_id a) (Undone s) (ag_undo_surface a s) w of
              (Inl e, w') \<Rightarrow> (False, p, w')
            | (Inr _, w') \<Rightarrow> (True, set_native s p, w'))
      else (True, set_native s p, w))"

definition finish_reconcile :: "'w agents_env \<Rightarrow> AgentProfile \<Rightarrow> ('w, AgentProfile) run" where
  "finish_reconcile env p =
     (let p = p\<lparr>ap_last_reconciled := Some (ax_now env)\<rparr> in andThen (save_agent_profile env p) (\<lambda>_ w. (Inr p, w)))"

text \<open>The pass over an agent that is present and not disconnected, up to the saving of its profile.\<close>

definition reconcile_connected ::
    "'w agents_env \<Rightarrow> 'w agent \<Rightarrow> ProbeResult \<Rightarrow> AgentProfile \<Rightarrow> 'w agents_world \<Rightarrow> AgentProfile \<times> 'w agents_world" where
  "reconcile_connected env a probe profile w =
     (let profile = migrate_native_evidence profile;
          profile = profile\<lparr>ap_native_evidence := merge_missing_from (collect_native_evidence env a w) (ap_native_evidence profile)\<rparr>;
          evidence = ap_native_evidence profile;
          native = (\<lambda>s. level_of profile s = Native \<or> evidence_of evidence s \<noteq> None);
          auto_configure = (\<not> was_configured env (ag_id a) w \<and> \<not> ap_disconnected profile);
          (probe, w) = configure_and_reprobe env a (ap_agent_specific profile) native auto_configure (probe, w);
          needs_repair = (list_ex (drifted env a w) (ap_managed_files profile) \<or>
                          (was_configured env (ag_id a) w \<and> ag_unwrapped_mcp_server_names a (aw_agents w) \<noteq> []));
          (probe, w) = configure_and_reprobe env a (ap_agent_specific profile) native needs_repair (probe, w);
          profile = take_surfaces probe profile;
          promote = (\<lambda>s. plan_expects (ag_integration_plan a) s \<and> evidence_of evidence s \<noteq> None);
          (execution_changed, profile, w) = promote_surface a Execution (promote Execution) (profile, w);
          (tool_changed, profile, w) = promote_surface a Tool (promote Tool) (profile, w);
          (burn_changed, profile, w) = promote_surface a BurnControl (promote BurnControl) (profile, w);
          changed_any = (execution_changed \<or> tool_changed \<or> burn_changed);
          (probe, w) = configure_and_reprobe env a (ap_agent_specific profile) promote changed_any (probe, w)
      in (profile\<lparr>ap_managed_files := pb_managed_files probe, ap_live_evidence := ax_live_seen env (ag_id a)\<rparr>, w))"

definition reconcile_agent :: "'w agents_env \<Rightarrow> 'w agent \<Rightarrow> ('w, AgentProfile) run" where
  "reconcile_agent env a =
     andThen (load_or_new env (ag_id a)) (\<lambda>profile w.
       let probe = ag_probe a (aw_agents w)
       in if \<not> pb_detected probe
          then finish_reconcile env (if ap_detected profile then profile\<lparr>ap_detected := False, ap_managed_files := []\<rparr> else profile) w
          else if ap_disconnected profile then finish_reconcile env (profile\<lparr>ap_detected := True\<rparr>) w
          else let (profile, w) = reconcile_connected env a probe (profile\<lparr>ap_detected := True\<rparr>) w
               in finish_reconcile env profile w)"

fun reconcile_each :: "'w agents_env \<Rightarrow> 'w agent list \<Rightarrow> ('w, (string \<times> AgentProfile) list) run" where
  "reconcile_each env [] = (\<lambda>w. (Inr [], w))"
| "reconcile_each env (a # as) =
     andThen (reconcile_agent env a) (\<lambda>p. andThen (reconcile_each env as) (\<lambda>ps w. (Inr ((ag_id a, p) # ps), w)))"

fun load_each :: "'w agents_env \<Rightarrow> 'w agent list \<Rightarrow> ('w, (string \<times> AgentProfile) list) run" where
  "load_each env [] = (\<lambda>w. (Inr [], w))"
| "load_each env (a # as) =
     andThen (load_or_new env (ag_id a)) (\<lambda>p. andThen (load_each env as) (\<lambda>ps w. (Inr ((ag_id a, p) # ps), w)))"

definition reconcile_all :: "'w agents_env \<Rightarrow> 'w agent list \<Rightarrow> bool \<Rightarrow> ('w, (string \<times> AgentProfile) list) run" where
  "reconcile_all env as auto_mode w =
     (if auto_mode \<and> should_skip_debounce (ax_now env) (aw_last_reconcile w) then load_each env as w
      else andThen (reconcile_each env as) (\<lambda>ps w. (Inr ps, touch_last_reconcile env w)) w)"

definition agent_by_id :: "'w agent list \<Rightarrow> string \<Rightarrow> 'w agent option" where
  "agent_by_id as i = List.find (\<lambda>a. ag_id a = i) as"

definition reconcile_one :: "'w agents_env \<Rightarrow> 'w agent list \<Rightarrow> string \<Rightarrow> ('w, AgentProfile) run" where
  "reconcile_one env as i w =
     (case agent_by_id as i of
        None \<Rightarrow> (Inl (''Unknown agent: '' @ i), w)
      | Some a \<Rightarrow> andThen (reconcile_agent env a) (\<lambda>p w. (Inr p, touch_last_reconcile env w)) w)"

definition status_snapshot_agent :: "'w agents_env \<Rightarrow> 'w agent \<Rightarrow> 'w agents_world \<Rightarrow> string + AgentProfile" where
  "status_snapshot_agent env a w =
     (case fst (load_or_new env (ag_id a) w) of
        Inl e \<Rightarrow> Inl e
      | Inr profile \<Rightarrow>
          let probe = ag_probe a (aw_agents w)
          in if \<not> pb_detected probe then Inr (profile\<lparr>ap_detected := False, ap_managed_files := []\<rparr>)
             else Inr ((take_surfaces probe (profile\<lparr>ap_detected := True\<rparr>))\<lparr>ap_managed_files := pb_managed_files probe,
                         ap_live_evidence := ax_live_seen env (ag_id a)\<rparr>))"

section \<open>Disconnecting\<close>

definition undo_one :: "'w agent \<Rightarrow> surface \<Rightarrow> ('w, unit) run" where
  "undo_one a s w = (if plan_adapts (ag_integration_plan a) s then call (ag_id a) (Undone s) (ag_undo_surface a s) w else (Inr (), w))"

definition undo_env_agent :: "'w agents_env \<Rightarrow> string \<Rightarrow> ('w, unit) run" where
  "undo_env_agent env i w =
     (case ax_env_file_error env of
        Some e \<Rightarrow> if aw_env_files w i \<noteq> None then (Inl e, w) else (Inr (), w)
      | None \<Rightarrow> (Inr (), w\<lparr>aw_env_files := (aw_env_files w)(i := None)\<rparr>))"

definition undo_agent :: "'w agents_env \<Rightarrow> 'w agent list \<Rightarrow> string \<Rightarrow> ('w, unit) run" where
  "undo_agent env as i w =
     (case agent_by_id as i of
        None \<Rightarrow> (Inl (''Unknown agent: '' @ i), w)
      | Some a \<Rightarrow>
          andThen (undo_one a Tool) (\<lambda>_.
          andThen (undo_one a Execution) (\<lambda>_.
          andThen (undo_one a BurnControl) (\<lambda>_.
          andThen (\<lambda>w. if requires_path_shim (ag_integration_plan a) then call i ShimRemoved (ag_uninstall_shim a) w else (Inr False, w)) (\<lambda>_.
          andThen (undo_env_agent env i) (\<lambda>_.
          andThen (\<lambda>w. (Inr (), snd (call i Scrubbed (ag_scrub_residue a) w))) (\<lambda>_.
          andThen (load_or_new env i) (\<lambda>profile.
            save_agent_profile env (profile\<lparr>ap_execution := surface_none, ap_tool := surface_none, ap_burn_control := surface_none,
              ap_managed_files := [], ap_disconnected := True\<rparr>)))))))) w)"

section \<open>The commands\<close>

fun parse_settings :: "string list \<Rightarrow> settings \<Rightarrow> string + settings" where
  "parse_settings [] acc = Inr acc"
| "parse_settings (entry # es) acc =
     (if CHR ''='' \<notin> set entry then Inl (''Invalid --set value '' @ single_quoted entry @ '': expected KEY=VALUE'')
      else let k = takeWhile (\<lambda>c. c \<noteq> CHR ''='') entry; v = tl (dropWhile (\<lambda>c. c \<noteq> CHR ''='') entry)
           in if k = [] then Inl (''Invalid --set value '' @ single_quoted entry @ '': empty key'')
              else parse_settings es (AList.update k v acc))"

definition run_setup :: "'w agents_env \<Rightarrow> 'w agent list \<Rightarrow> string option \<Rightarrow> bool \<Rightarrow> string list \<Rightarrow> ('w, unit) run" where
  "run_setup env as agent all_agents raw w =
     (case parse_settings raw [] of
        Inl e \<Rightarrow> (Inl e, w)
      | Inr agent_specific \<Rightarrow>
          if all_agents then
            (if agent_specific \<noteq> [] then (Inl ''--set cannot be used with --all'', w)
             else andThen (prestage_all env as) (\<lambda>_. andThen (reconcile_all env as False) (\<lambda>_ w. (Inr (), w))) w)
          else case agent of
                 Some i \<Rightarrow>
                   (case agent_by_id as i of
                      None \<Rightarrow> (Inl (''Unknown agent: '' @ i), w)
                    | Some a \<Rightarrow> andThen (setup_agent env a agent_specific) (\<lambda>_. andThen (reconcile_one env as i) (\<lambda>_ w. (Inr (), w))) w)
               | None \<Rightarrow> (Inl ''Usage: kyris agent setup <agent> or kyris agent setup --all'', w))"

definition run_disconnect :: "'w agents_env \<Rightarrow> 'w agent list \<Rightarrow> string \<Rightarrow> ('w, unit) run" where
  "run_disconnect env as i = undo_agent env as i"


section \<open>Sourcing the environment file\<close>

text \<open>How a POSIX shell reads a word up to a blank or the end of the line: single quotes protect everything up to the next one, a
  backslash outside them protects one character.\<close>

fun sh_word :: "bool \<Rightarrow> string \<Rightarrow> string \<times> string" where
  "sh_word quoted [] = ([], [])"
| "sh_word True (c # t) = (if c = CHR 39 then sh_word False t else (case sh_word True t of (v, r) \<Rightarrow> (c # v, r)))"
| "sh_word False (c # t) =
     (if c = nl \<or> c = CHR '' '' then ([], c # t)
      else if c = CHR 39 then sh_word True t
      else if c = CHR 92 then (case t of [] \<Rightarrow> ([c], []) | x # t' \<Rightarrow> (case sh_word False t' of (v, r) \<Rightarrow> (x # v, r)))
      else (case sh_word False t of (v, r) \<Rightarrow> (c # v, r)))"

lemma snd_cons_value: "snd (case x of (v, r) \<Rightarrow> (c # v, r)) = snd x"
  by (cases x) simp

lemma sh_word_shorter: "length (snd (sh_word q s)) \<le> length s"
proof (induction q s rule: sh_word.induct)
  case (3 c t)
  consider "c = nl \<or> c = CHR '' ''" | "c \<noteq> nl" "c \<noteq> CHR '' ''" "c = CHR 39"
    | "c \<noteq> nl" "c \<noteq> CHR '' ''" "c \<noteq> CHR 39" "c = CHR 92" | "c \<noteq> nl" "c \<noteq> CHR '' ''" "c \<noteq> CHR 39" "c \<noteq> CHR 92" by blast
  then show ?case
  proof cases
    case 3
    show ?thesis
    proof (cases t)
      case (Cons x t')
      have "length (snd (sh_word False t')) \<le> length t'" using "3.IH"(2) 3 Cons by blast
      then show ?thesis using 3 Cons by (simp add: snd_cons_value)
    qed (use 3 in simp)
  qed (use "3.IH" in \<open>auto simp: snd_cons_value simp del: sh_word.simps simp add: sh_word.simps(3)\<close>)
qed (auto simp: snd_cons_value)

text \<open>What sourcing a file of comments and exports assigns, in order.\<close>

function sh_source :: "string \<Rightarrow> (string \<times> string) list" where
  "sh_source s =
     (if s = [] then []
      else if prefix ''#'' s then sh_source (drop 1 (dropWhile (\<lambda>c. c \<noteq> nl) s))
      else if prefix ''export '' s
      then let r = drop 7 s; key = takeWhile (\<lambda>c. c \<noteq> CHR ''='') r;
               (val, rest) = sh_word False (drop 1 (dropWhile (\<lambda>c. c \<noteq> CHR ''='') r))
           in (key, val) # sh_source (drop 1 rest)
      else [])"
  by pat_completeness auto
termination
proof (relation "measure length", goal_cases)
  case (2 s)
  then show ?case using length_dropWhile_le[of "\<lambda>c. c \<noteq> nl" s] by (cases s) auto
next
  case (3 s r key x val rest)
  have "length rest \<le> length (drop 1 (dropWhile (\<lambda>c. c \<noteq> CHR ''='') (drop 7 s)))"
    using sh_word_shorter[of False "drop 1 (dropWhile (\<lambda>c. c \<noteq> CHR ''='') r)"] 3 by (metis snd_conv)
  also have "\<dots> \<le> length (drop 7 s)" using length_dropWhile_le[of "\<lambda>c. c \<noteq> CHR ''=''" "drop 7 s"] by simp
  finally show ?case using 3 by (cases s) auto
qed simp

declare sh_source.simps [simp del]

lemma nl_quotes: "nl \<noteq> CHR 39" "nl \<noteq> CHR 92" by (simp_all add: nl_def)

lemma sh_word_escaped_quote:
  "sh_word True (CHR 39 # CHR 92 # CHR 39 # CHR 39 # t) = (case sh_word True t of (v, r) \<Rightarrow> (CHR 39 # v, r))"
  by (simp add: nl_quotes nl_quotes[symmetric])

lemma sh_word_quoted:
  "sh_word True (concat (map (\<lambda>ch. if ch = CHR 39 then [CHR 39, CHR 92, CHR 39, CHR 39] else [ch]) val) @ CHR 39 # nl # rest) = (val, nl # rest)"
proof (induction val)
  case (Cons c val)
  then show ?case using sh_word_escaped_quote by (cases "c = CHR 39") (simp_all del: sh_word.simps add: sh_word.simps(2))
qed simp

lemma sh_word_single_quote: "sh_word False (shell_single_quote val @ nl # rest) = (val, nl # rest)"
  using sh_word_quoted[of val rest] by (simp add: shell_single_quote_def nl_quotes nl_quotes[symmetric])

lemma sh_source_export:
  assumes "CHR ''='' \<notin> set key"
  shows "sh_source (''export '' @ key @ ''='' @ shell_single_quote val @ nl # rest) = (key, val) # sh_source rest"
proof -
  have "takeWhile (\<lambda>c. c \<noteq> CHR ''='') (key @ CHR ''='' # t) = key" "dropWhile (\<lambda>c. c \<noteq> CHR ''='') (key @ CHR ''='' # t) = CHR ''='' # t" for t
    using assms by (induction key) auto
  then show ?thesis by (subst sh_source.simps) (simp add: sh_word_single_quote)
qed

text \<open>
  C35. Sourcing the environment file of an agent assigns exactly the exports it was written from, whatever characters their values
  hold (quotes, blanks, line feeds of a header list).
\<close>

theorem env_file_round_trip:
  assumes "list_all (\<lambda>(key, _). CHR ''='' \<notin> set key) exports"
  shows "sh_source (exports_to_shell exports) = exports"
proof -
  have body: "sh_source (concat (map (\<lambda>(key, val). ''export '' @ key @ ''='' @ shell_single_quote val @ [nl]) exports)) = exports"
    using assms
  proof (induction exports)
    case Nil
    then show ?case by (simp add: sh_source.simps)
  next
    case (Cons kv es)
    obtain k v where kv: "kv = (k, v)" by fastforce
    have "sh_source (''export '' @ k @ ''='' @ shell_single_quote v @ nl # concat (map (\<lambda>(key, val). ''export '' @ key @ ''='' @ shell_single_quote val @ [nl]) es)) = (k, v) # es"
      using Cons kv by (subst sh_source_export) auto
    with kv show ?case by simp
  qed
  have skip: "sh_source (''# SPDX-License-Identifier: Apache-2.0'' @ nl # t) = sh_source t" for t
    by (subst sh_source.simps) (simp add: nl_def)
  show ?thesis unfolding exports_to_shell_def using skip body by simp
qed

text \<open>A header value with a quote and the separator line feed of \<^verbatim>\<open>ANTHROPIC_CUSTOM_HEADERS\<close>.\<close>

theorem env_file_round_trip_witness:
  "sh_source (exports_to_shell [(''A'', ''it'' @ [CHR 39] @ ''s a'' @ [nl] @ ''b=c''), (''B'', [])]) =
     [(''A'', ''it'' @ [CHR 39] @ ''s a'' @ [nl] @ ''b=c''), (''B'', [])]"
  by (rule env_file_round_trip) simp

end
