(* ===== verification/AgentLifecycle.thy ===== *)
theory AgentLifecycle
  imports Reconcile
begin

text \<open>
  What the lifecycle of \<^verbatim>\<open>Reconcile\<close> guarantees over whole sequences of commands: an agent the operator has disconnected is left
  alone until it is set up again, a surface with native evidence is never adapted, and a surface is only called native on evidence.
  The proofs rest on a small calculus (\<open>keeps\<close>) for the runs of the model: what a run keeps of the world, and what its result satisfies.
\<close>

section \<open>What a disconnected agent is spared\<close>

text \<open>Every stored profile is the one of the agent it is stored under; agent \<open>i\<close> is disconnected; \<open>t\<close> are the calls it has had so far.\<close>

definition calls_of :: "string \<Rightarrow> 'w agents_world \<Rightarrow> action list" where
  "calls_of i w = map snd (filter (\<lambda>c. fst c = i) (aw_trace w))"

definition profiles_keyed :: "'w agents_world \<Rightarrow> bool" where
  "profiles_keyed w \<longleftrightarrow> (\<forall>j p. aw_profiles w j = Some p \<longrightarrow> ap_agent_id p = j)"

definition is_disconnected :: "string \<Rightarrow> 'w agents_world \<Rightarrow> bool" where
  "is_disconnected i w \<longleftrightarrow> (case aw_profiles w i of Some p \<Rightarrow> ap_disconnected p | None \<Rightarrow> False)"

definition left_alone :: "string \<Rightarrow> action list \<Rightarrow> 'w agents_world \<Rightarrow> bool" where
  "left_alone i t w \<longleftrightarrow> profiles_keyed w \<and> is_disconnected i w \<and> calls_of i w = t"

text \<open>A run keeps a predicate on worlds whatever its outcome, and a result it returns satisfies \<open>Q\<close>.\<close>

definition keeps :: "('w agents_world \<Rightarrow> bool) \<Rightarrow> ('w, 'a) run \<Rightarrow> ('a \<Rightarrow> bool) \<Rightarrow> bool" where
  "keeps I m Q \<longleftrightarrow> (\<forall>w. I w \<longrightarrow> I (snd (m w)) \<and> (\<forall>x. fst (m w) = Inr x \<longrightarrow> Q x))"

named_theorems keeps_rules

lemma keepsD: "keeps I m Q \<Longrightarrow> I w \<Longrightarrow> I (snd (m w))"
  by (simp add: keeps_def)

lemma keeps_andThen:
  "keeps I m Q \<Longrightarrow> (\<And>x. Q x \<Longrightarrow> keeps I (k x) R) \<Longrightarrow> keeps I (andThen m k) R"
  unfolding keeps_def andThen_def by (simp split: prod.splits sum.splits) (metis fst_conv snd_conv)

lemmas keeps_seq [keeps_rules] = keeps_andThen[where Q = "\<lambda>_. True"]

lemma keeps_return [keeps_rules]: "Q (the_result) \<Longrightarrow> keeps I (\<lambda>w. (Inr the_result, w)) Q"
  by (simp add: keeps_def)

lemma keeps_fail [keeps_rules]: "keeps I (\<lambda>w. (Inl e, w)) Q"
  by (simp add: keeps_def)

lemma keeps_weaken: "keeps I m Q \<Longrightarrow> (\<And>x. Q x \<Longrightarrow> R x) \<Longrightarrow> keeps I m R"
  by (auto simp: keeps_def)

lemma keeps_any: "keeps I m (\<lambda>_. True) \<longleftrightarrow> (\<forall>w. I w \<longrightarrow> I (snd (m w)))"
  by (simp add: keeps_def)

lemma keeps_when [keeps_rules]: "keeps I m (\<lambda>_. True) \<Longrightarrow> keeps I (when_run b m) (\<lambda>_. True)"
  by (simp add: keeps_def when_run_def)


subsection \<open>The primitive runs\<close>

lemma left_alone_frame:
  "aw_profiles w' = aw_profiles w \<Longrightarrow> aw_trace w' = aw_trace w \<Longrightarrow> left_alone i t w' = left_alone i t w"
  by (simp add: left_alone_def profiles_keyed_def is_disconnected_def calls_of_def)

lemma keeps_call [keeps_rules]: "j \<noteq> i \<Longrightarrow> keeps (left_alone i t) (call j act f) (\<lambda>_. True)"
  by (auto simp: keeps_def call_def left_alone_def profiles_keyed_def is_disconnected_def calls_of_def split: prod.splits)

lemma keeps_load [keeps_rules]:
  "keeps (left_alone i t) (load_or_new env j) (\<lambda>p. ap_agent_id p = j \<and> (j = i \<longrightarrow> ap_disconnected p))"
  by (auto simp: keeps_def load_or_new_def load_agent_profile_def andThen_def left_alone_def profiles_keyed_def is_disconnected_def
      unwrap_or_def new_empty_def split: option.splits)

lemma keeps_load_profile:
  "keeps (left_alone i t) (load_agent_profile env j) (\<lambda>p. \<forall>q. p = Some q \<longrightarrow> ap_agent_id q = j)"
  by (auto simp: keeps_def load_agent_profile_def left_alone_def profiles_keyed_def split: option.splits)

lemma keeps_save [keeps_rules]:
  "(ap_agent_id p = i \<Longrightarrow> ap_disconnected p) \<Longrightarrow> keeps (left_alone i t) (save_agent_profile env p) (\<lambda>_. True)"
  by (auto simp: keeps_def save_agent_profile_def left_alone_def profiles_keyed_def is_disconnected_def calls_of_def split: option.splits)

lemma keeps_env_files:
  "(\<And>w. aw_profiles (snd (m w)) = aw_profiles w \<and> aw_trace (snd (m w)) = aw_trace w) \<Longrightarrow> keeps (left_alone i t) m (\<lambda>_. True)"
  unfolding keeps_def using left_alone_frame by blast

lemma keeps_prestage [keeps_rules]:
  "keeps (left_alone i t) (prestage_agent_inner env a base_url inbound_key) (\<lambda>_. True)"
  "keeps (left_alone i t) (prestage_agent env a) (\<lambda>_. True)"
  by (rule keeps_env_files; auto simp: prestage_agent_inner_def prestage_agent_def Let_def split: option.splits sum.splits)+

lemma keeps_prestage_each: "keeps (left_alone i t) (prestage_each env base_url inbound_key as) (\<lambda>_. True)"
  by (induction as) (auto intro!: keeps_rules)

lemma keeps_prestage_all [keeps_rules]: "keeps (left_alone i t) (prestage_all env as) (\<lambda>_. True)"
  using keeps_prestage_each by (fastforce simp: keeps_def prestage_all_def split: sum.splits)

lemma keeps_undo_env [keeps_rules]: "keeps (left_alone i t) (undo_env_agent env j) (\<lambda>_. True)"
  by (rule keeps_env_files) (auto simp: undo_env_agent_def split: option.splits)

lemma keeps_verify [keeps_rules]: "keeps (left_alone i t) (verify_governance_daemons env j b) (\<lambda>_. True)"
  by (rule keeps_env_files) (simp add: verify_governance_daemons_def split: option.split)

lemma left_alone_touch [simp]: "left_alone i t (touch_last_reconcile env w) = left_alone i t w"
  by (rule left_alone_frame) (simp_all add: touch_last_reconcile_def)

lemma keeps_touch [keeps_rules]: "Q x \<Longrightarrow> keeps (left_alone i t) (\<lambda>w. (Inr x, touch_last_reconcile env w)) Q"
  by (simp add: keeps_def)

lemma keeps_record_gaps: "j \<noteq> i \<Longrightarrow> keeps (left_alone i t) (record_compilation_gaps env j gaps) (\<lambda>_. True)"
  unfolding record_compilation_gaps_def by (cases "gaps = []") (auto intro!: keeps_rules keeps_andThen[OF keeps_load])

lemma keeps_gaps_step:
  assumes "\<And>gaps. keeps I (record_compilation_gaps env j gaps) (\<lambda>_. True)"
  shows "keeps I (\<lambda>w. andThen (record_compilation_gaps env j (g w)) (\<lambda>_ w. (Inr changes, w)) w) (\<lambda>_. True)"
proof -
  have "keeps I (andThen (record_compilation_gaps env j gaps) (\<lambda>_ w. (Inr changes, w))) (\<lambda>_. True)" for gaps
    using assms by (intro keeps_seq keeps_return) simp_all
  then show ?thesis by (simp add: keeps_def)
qed

lemma keeps_configure_one [keeps_rules]:
  "ag_id a \<noteq> i \<Longrightarrow> keeps (left_alone i t) (configure_one env a conf agent_specific skip s) (\<lambda>_. True)"
  unfolding configure_one_def
  by (intro keeps_when keeps_seq keeps_call keeps_gaps_step keeps_record_gaps)

lemma keeps_configure:
  assumes "ag_id a \<noteq> i"
  shows "keeps (left_alone i t) (configure_agent_surfaces env a agent_specific skip) (\<lambda>_. True)"
proof -
  have finish: "keeps (left_alone i t) (\<lambda>w. if b then (case problem of Some p \<Rightarrow> (Inl (e p), w) | None \<Rightarrow> (Inr (), w)) else (Inr (), w)) (\<lambda>_. True)"
    for b and problem :: "string option" and e
    by (simp add: keeps_def split: option.splits)
  have "keeps (left_alone i t) (andThen (when_run b (call (ag_id a) ShimInstalled (ag_install_shim a))) (\<lambda>_.
               andThen (configure_one env a conf agent_specific skip Execution) (\<lambda>_.
               andThen (configure_one env a conf agent_specific skip Tool) (\<lambda>_.
               andThen (configure_one env a conf agent_specific skip BurnControl) (\<lambda>_ w.
                 if b' then (case problem of Some p \<Rightarrow> (Inl (e p), w) | None \<Rightarrow> (Inr (), w)) else (Inr (), w)))))) (\<lambda>_. True)"
    for b b' conf and problem :: "string option" and e
    using assms by (intro keeps_rules finish)
  from keepsD[OF this] show ?thesis unfolding keeps_any configure_agent_surfaces_def by (simp split: sum.split)
qed

lemma configure_and_reprobe_keeps:
  "ag_id a \<noteq> i \<Longrightarrow> left_alone i t (snd pw) \<Longrightarrow> left_alone i t (snd (configure_and_reprobe env a agent_specific skip needed pw))"
  by (simp add: configure_and_reprobe_def Let_def keepsD[OF keeps_configure])

lemma promote_surface_keeps:
  assumes "ag_id a \<noteq> i" "left_alone i t (snd pw)"
  shows "left_alone i t (snd (snd (promote_surface a s b pw)))"
proof -
  have "left_alone i t (snd (call (ag_id a) (Undone s) (ag_undo_surface a s) (snd pw)))"
    using keepsD[OF keeps_call[OF assms(1)]] assms(2) .
  then show ?thesis using assms(2)
    by (auto simp: promote_surface_def Let_def split: prod.splits sum.splits)
qed

lemma promote_surface_id [simp]: "ap_agent_id (fst (snd (promote_surface a s b pw))) = ap_agent_id (fst pw)"
  by (auto simp: promote_surface_def set_native_def Let_def split: prod.splits sum.splits surface.splits)

lemma migrate_id [simp]: "ap_agent_id (migrate_native_evidence p) = ap_agent_id p"
  by (simp add: migrate_native_evidence_def)

lemma reconcile_connected_id: "ap_agent_id (fst (reconcile_connected env a probe profile w)) = ap_agent_id profile"
  by (simp add: reconcile_connected_def Let_def case_prod_beta take_surfaces_def)

lemma reconcile_connected_keeps:
  "ag_id a \<noteq> i \<Longrightarrow> left_alone i t w \<Longrightarrow> left_alone i t (snd (reconcile_connected env a probe profile w))"
  unfolding reconcile_connected_def Let_def case_prod_beta snd_conv
  by (intro configure_and_reprobe_keeps promote_surface_keeps | simp add: configure_and_reprobe_keeps promote_surface_keeps)+

subsection \<open>The commands\<close>

lemma keeps_finish:
  "(ap_agent_id p = i \<Longrightarrow> ap_disconnected p) \<Longrightarrow> keeps (left_alone i t) (finish_reconcile env p) (\<lambda>_. True)"
  unfolding finish_reconcile_def Let_def by (intro keeps_rules) auto

lemma keeps_reconcile_agent [keeps_rules]:
  fixes a :: "'a agent"
  shows "keeps (left_alone i t) (reconcile_agent env a) (\<lambda>_. True)"
  unfolding reconcile_agent_def
proof (rule keeps_andThen[OF keeps_load], goal_cases)
  case (1 p)
  show ?case
    unfolding keeps_any
  proof (intro allI impI)
    fix w :: "'a agents_world" assume w: "left_alone i t w"
    have finish: "left_alone i t (snd (finish_reconcile env q w'))"
      if "left_alone i t (w' :: 'a agents_world)" "ap_agent_id q = ag_id a" "ag_id a = i \<Longrightarrow> ap_disconnected q" for q w'
      using keepsD[OF keeps_finish that(1)] that by simp
    show "left_alone i t (snd (let probe = ag_probe a (aw_agents w) in
      if \<not> pb_detected probe then finish_reconcile env (if ap_detected p then p\<lparr>ap_detected := False, ap_managed_files := []\<rparr> else p) w
      else if ap_disconnected p then finish_reconcile env (p\<lparr>ap_detected := True\<rparr>) w
      else let (profile, w) = reconcile_connected env a probe (p\<lparr>ap_detected := True\<rparr>) w in finish_reconcile env profile w))"
      using w 1 by (auto simp: Let_def case_prod_beta reconcile_connected_id reconcile_connected_keeps intro!: finish)
  qed
qed

lemma keeps_reconcile_each: "keeps (left_alone i t) (reconcile_each env as) (\<lambda>_. True)"
  by (induction as) (simp_all, (intro keeps_rules; simp)+)

lemma keeps_load_each: "keeps (left_alone i t) (load_each env as) (\<lambda>_. True)"
  by (induction as) (simp_all, (intro keeps_rules keeps_weaken[OF keeps_load]; simp)+)

lemma keeps_reconcile_all: "keeps (left_alone i t) (reconcile_all env as auto_mode) (\<lambda>_. True)"
proof -
  have "keeps (left_alone i t) (andThen (reconcile_each env as) (\<lambda>ps w. (Inr ps, touch_last_reconcile env w))) (\<lambda>_. True)"
    by (intro keeps_rules keeps_reconcile_each) simp
  from keepsD[OF this] show ?thesis
    unfolding keeps_any reconcile_all_def by (simp add: keepsD[OF keeps_load_each])
qed

lemma keeps_if [keeps_rules]:
  "(b \<Longrightarrow> keeps I m Q) \<Longrightarrow> (\<not> b \<Longrightarrow> keeps I m' Q) \<Longrightarrow> keeps I (\<lambda>w. if b then m w else m' w) Q"
  by (simp add: keeps_def)

lemma keeps_ignored [keeps_rules]: "keeps I m (\<lambda>_. True) \<Longrightarrow> keeps I (\<lambda>w. (Inr (), snd (m w))) (\<lambda>_. True)"
  by (simp add: keeps_def)

lemma keeps_clear_flag:
  assumes "j \<noteq> i"
  shows "keeps (left_alone i t) (clear_disconnected_flag env j) (\<lambda>_. True)"
  unfolding clear_disconnected_flag_def
proof (rule keeps_andThen[OF keeps_load_profile], goal_cases)
  case (1 p)
  show ?case
  proof (cases p)
    case (Some q)
    with 1 assms show ?thesis by (auto intro!: keeps_rules)
  qed (auto intro!: keeps_rules)
qed

lemma keeps_save_specific: "j \<noteq> i \<Longrightarrow> keeps (left_alone i t) (save_agent_specific env j new) (\<lambda>_. True)"
  unfolding save_agent_specific_def by (rule keeps_andThen[OF keeps_load]) (auto intro!: keeps_rules)

lemma keeps_setup_installed:
  "ag_id a \<noteq> i \<Longrightarrow> keeps (left_alone i t) (setup_installed env a conf effective) (\<lambda>_. True)"
  unfolding setup_installed_def Let_def by (intro keeps_rules)

lemma keeps_setup_agent:
  assumes "ag_id a \<noteq> i"
  shows "keeps (left_alone i t) (setup_agent env a agent_specific) (\<lambda>_. True)"
proof -
  have install: "keeps (left_alone i t) (\<lambda>w. if ag_is_installed a (aw_agents w) then setup_installed env a conf effective w
                           else verify_governance_daemons env (ag_id a) False w) (\<lambda>_. True)" for conf effective
    using keeps_setup_installed[OF assms] keeps_verify[of i t env "ag_id a" False] by (simp add: keeps_def)
  have "keeps (left_alone i t) (andThen (load_agent_profile env (ag_id a)) (\<lambda>p.
              let effective = extend_settings (case p of Some q \<Rightarrow> ap_agent_specific q | None \<Rightarrow> []) agent_specific in
              andThen (prestage_agent env a) (\<lambda>_.
              andThen (\<lambda>w. if ag_is_installed a (aw_agents w) then setup_installed env a conf effective w
                           else verify_governance_daemons env (ag_id a) False w) (\<lambda>_.
              andThen (clear_disconnected_flag env (ag_id a)) (\<lambda>_ w.
                if agent_specific = [] then (Inr (), w) else save_agent_specific env (ag_id a) agent_specific w))))) (\<lambda>_. True)" for conf
    unfolding Let_def
    by (rule keeps_andThen[OF keeps_load_profile], intro keeps_rules install keeps_clear_flag keeps_save_specific assms) simp
  from keepsD[OF this] show ?thesis unfolding keeps_any setup_agent_def by (simp split: sum.split)
qed

lemma agent_by_id_SomeD: "agent_by_id as j = Some a \<Longrightarrow> ag_id a = j"
  by (auto simp: agent_by_id_def find_Some_iff)

lemma keeps_undo_one: "ag_id a \<noteq> i \<Longrightarrow> keeps (left_alone i t) (undo_one a s) (\<lambda>_. True)"
  using keeps_call[of "ag_id a" i t "Undone s" "ag_undo_surface a s"] by (simp add: keeps_def undo_one_def)

lemma keeps_undo_agent:
  assumes "j \<noteq> i"
  shows "keeps (left_alone i t) (undo_agent env as j) (\<lambda>_. True)"
proof (cases "agent_by_id as j")
  case None
  then show ?thesis by (simp add: keeps_def undo_agent_def)
next
  case (Some a)
  note a = agent_by_id_SomeD[OF Some]
  show ?thesis
    unfolding undo_agent_def Some option.case using assms a
    by (intro keeps_rules keeps_undo_one) (auto intro: keeps_weaken[OF keeps_load])
qed

lemma keeps_reconcile_one: "keeps (left_alone i t) (reconcile_one env as j) (\<lambda>_. True)"
proof (cases "agent_by_id as j")
  case (Some a)
  have "keeps (left_alone i t) (andThen (reconcile_agent env a) (\<lambda>p w. (Inr p, touch_last_reconcile env w))) (\<lambda>_. True)"
    by (intro keeps_rules) simp
  from keepsD[OF this] Some show ?thesis unfolding keeps_any reconcile_one_def by simp
qed (simp add: keeps_def reconcile_one_def)

lemma keeps_run_setup:
  assumes "all_agents \<or> agent \<noteq> Some i"
  shows "keeps (left_alone i t) (run_setup env as agent all_agents raw) (\<lambda>_. True)"
proof -
  have every: "keeps (left_alone i t) (andThen (prestage_all env as) (\<lambda>_. andThen (reconcile_all env as False) (\<lambda>_ w. (Inr (), w)))) (\<lambda>_. True)"
    by (intro keeps_rules keeps_reconcile_all) simp
  have one: "keeps (left_alone i t) (andThen (setup_agent env a agent_specific) (\<lambda>_. andThen (reconcile_one env as (ag_id a)) (\<lambda>_ w. (Inr (), w)))) (\<lambda>_. True)"
    if "ag_id a \<noteq> i" for a agent_specific
    using that by (intro keeps_rules keeps_setup_agent keeps_reconcile_one) simp
  show ?thesis
    unfolding keeps_any run_setup_def using assms
    by (auto simp: keepsD[OF every] keepsD[OF one] dest: agent_by_id_SomeD split: sum.split option.split)
qed

section \<open>Sequences of commands\<close>

text \<open>What the operator or the watcher runs: setting up one agent or all of them, disconnecting one, reconciling.\<close>

datatype command = CmdSetup "string option" bool "string list" | CmdDisconnect string | CmdReconcileAll bool | CmdReconcileOne string

fun addressed_to :: "string \<Rightarrow> command \<Rightarrow> bool" where
  "addressed_to i (CmdSetup agent all_agents raw) = (\<not> all_agents \<and> agent = Some i)"
| "addressed_to i (CmdDisconnect j) = (j = i)"
| "addressed_to i (CmdReconcileAll auto_mode) = False"
| "addressed_to i (CmdReconcileOne j) = False"

fun run_command :: "'w agents_env \<Rightarrow> 'w agent list \<Rightarrow> command \<Rightarrow> 'w agents_world \<Rightarrow> 'w agents_world" where
  "run_command env as (CmdSetup agent all_agents raw) w = snd (run_setup env as agent all_agents raw w)"
| "run_command env as (CmdDisconnect j) w = snd (run_disconnect env as j w)"
| "run_command env as (CmdReconcileAll auto_mode) w = snd (reconcile_all env as auto_mode w)"
| "run_command env as (CmdReconcileOne j) w = snd (reconcile_one env as j w)"

fun run_commands :: "'w agent list \<Rightarrow> ('w agents_env \<times> command) list \<Rightarrow> 'w agents_world \<Rightarrow> 'w agents_world" where
  "run_commands as [] w = w"
| "run_commands as ((env, c) # cs) w = run_commands as cs (run_command env as c w)"

lemma run_command_leaves_alone: "\<not> addressed_to i c \<Longrightarrow> left_alone i t w \<Longrightarrow> left_alone i t (run_command env as c w)"
  by (cases c) (auto simp: run_disconnect_def intro: keepsD[OF keeps_run_setup] keepsD[OF keeps_undo_agent]
      keepsD[OF keeps_reconcile_all] keepsD[OF keeps_reconcile_one])

lemma run_commands_leave_alone:
  "list_all (\<lambda>(_, c). \<not> addressed_to i c) cmds \<Longrightarrow> left_alone i t w \<Longrightarrow> left_alone i t (run_commands as cmds w)"
  by (induction as cmds w rule: run_commands.induct) (auto intro: run_command_leaves_alone)

lemma andThen_InrE:
  assumes "andThen m k w = (Inr x, w')"
  obtains y w1 where "m w = (Inr y, w1)" "k y w1 = (Inr x, w')"
  using assms by (auto simp: andThen_def split: prod.splits sum.splits)

lemma profiles_of_undo_steps:
  "aw_profiles (snd (call j act f w)) = aw_profiles w"
  "aw_profiles (snd (undo_one a s w)) = aw_profiles w"
  "aw_profiles (snd (undo_env_agent env j w)) = aw_profiles w"
  by (auto simp: call_def undo_one_def undo_env_agent_def split: prod.splits option.splits)

lemma keeps_profiles_undo [keeps_rules]:
  "keeps (\<lambda>w. aw_profiles w = ps) (call j act f) (\<lambda>_. True)"
  "keeps (\<lambda>w. aw_profiles w = ps) (undo_one a s) (\<lambda>_. True)"
  "keeps (\<lambda>w. aw_profiles w = ps) (undo_env_agent env j) (\<lambda>_. True)"
  by (simp_all add: keeps_any profiles_of_undo_steps)

lemma undo_agent_profiles:
  assumes "undo_agent env as i w = (Inr (), w')" "profiles_keyed w"
  obtains p where "aw_profiles w' = (aw_profiles w)(i \<mapsto> p)" "ap_agent_id p = i" "ap_disconnected p"
proof -
  define last :: "('a, unit) run" where "last = andThen (load_or_new env i) (\<lambda>profile.
          save_agent_profile env (profile\<lparr>ap_execution := surface_none, ap_tool := surface_none, ap_burn_control := surface_none,
            ap_managed_files := [], ap_disconnected := True\<rparr>))"
  obtain a where a: "agent_by_id as i = Some a" using assms(1) by (cases "agent_by_id as i") (auto simp: undo_agent_def)
  define steps :: "('a, unit) run" where "steps =
     andThen (undo_one a Tool) (\<lambda>_. andThen (undo_one a Execution) (\<lambda>_. andThen (undo_one a BurnControl) (\<lambda>_.
     andThen (\<lambda>w. if requires_path_shim (ag_integration_plan a) then call i ShimRemoved (ag_uninstall_shim a) w else (Inr False, w)) (\<lambda>_.
     andThen (undo_env_agent env i) (\<lambda>_. (\<lambda>w. (Inr (), snd (call i Scrubbed (ag_scrub_residue a) w))))))))"
  have "undo_agent env as i w = andThen steps (\<lambda>_. last) w"
    unfolding undo_agent_def a option.case steps_def last_def
    by (simp add: andThen_def split: prod.splits sum.splits)
  with assms(1) obtain w1 where s: "steps w = (Inr (), w1)" and l: "last w1 = (Inr (), w')"
    by (metis (full_types) andThen_InrE old.unit.exhaust)
  have "keeps (\<lambda>v. aw_profiles v = aw_profiles w) steps (\<lambda>_. True)"
    unfolding steps_def by (intro keeps_rules) auto
  from keepsD[OF this, of w] s have same: "aw_profiles w1 = aw_profiles w" by simp
  show ?thesis
    using l assms(2) unfolding last_def load_or_new_def load_agent_profile_def save_agent_profile_def andThen_def
    by (cases "aw_profiles w i") (auto simp: same profiles_keyed_def unwrap_or_def new_empty_def split: option.splits intro!: that)
qed

text \<open>A sample installation: every method of the agents succeeds and counts its calls.\<close>

definition sample_plan :: AgentIntegrationPlan where
  "sample_plan = \<lparr>ip_execution = PlanAdapted [ShellHook] None, ip_tool = PlanAdapted [McpWrapping] None,
     ip_burn_control = PlanAdapted [EnvVarProxy] None, ip_attribution = [KyrisPathShim], ip_agentpact_native_attribution = False\<rparr>"

definition sample_probe :: ProbeResult where
  "sample_probe = \<lparr>pb_detected = True, pb_execution = surface_adapted ShellHook, pb_tool = surface_adapted McpWrapping,
     pb_burn_control = surface_adapted EnvVarProxy, pb_managed_files = []\<rparr>"

definition sample_agent :: "string \<Rightarrow> SurfaceEvidence \<Rightarrow> nat agent" where
  "sample_agent i evidence = \<lparr>ag_id = i, ag_integration_plan = sample_plan, ag_is_installed = (\<lambda>_. True), ag_probe = (\<lambda>_. sample_probe),
     ag_native_evidence = (\<lambda>_. evidence), ag_kyris_content_markers = [], ag_provider_routing = None, ag_supported_settings = [],
     ag_unwrapped_mcp_server_names = (\<lambda>_. []), ag_configure_surface = (\<lambda>s url key set n. (Inr [], Suc n)),
     ag_compilation_gaps = (\<lambda>_ _. []), ag_undo_surface = (\<lambda>s n. (Inr (), Suc n)), ag_install_shim = (\<lambda>n. (Inr [], Suc n)), ag_uninstall_shim = (\<lambda>n. (Inr True, Suc n)),
     ag_scrub_residue = (\<lambda>n. (Inr [], Suc n))\<rparr>"

definition sample_env :: "nat agents_env" where
  "sample_env = \<lparr>ax_config = Inr (''http://127.0.0.1:8080'', ''key''), ax_load_error = (\<lambda>_. None), ax_save_error = None, ax_env_file_error = None,
     ax_now = 1000, ax_native_seen = (\<lambda>_. None), ax_live_seen = (\<lambda>_. no_evidence), ax_read_file = (\<lambda>_ _. None), ax_sha256_hex = (\<lambda>c. c),
     ax_kyrisd_problem = None, ax_agentpactd_reachable = True\<rparr>"

definition fresh_world :: "nat agents_world" where
  "fresh_world = \<lparr>aw_agents = 0, aw_profiles = (\<lambda>_. None), aw_env_files = (\<lambda>_. None), aw_last_reconcile = None, aw_trace = []\<rparr>"

abbreviation sample_agents :: "nat agent list" where
  "sample_agents \<equiv> [sample_agent ''cline'' no_evidence, sample_agent ''opencode'' no_evidence]"

lemmas sample_defs = sample_plan_def sample_probe_def sample_agent_def sample_env_def fresh_world_def no_evidence_def

text \<open>
  C19. Disconnecting is a stable opt-out: once an agent has been disconnected, no sequence of commands that is not addressed to it -
  setting up all agents or another one, bulk or single reconciliations, disconnecting others, in any order and whatever fails on the
  way - calls any method that changes the agent (configuring or undoing a surface, installing or removing the shim, scrubbing), and its
  profile stays disconnected. Reading methods are called: a reconciliation probes a disconnected agent, and the prestaging asks it for
  its environment and rewrites its environment file (\<open>prestage_ignores_disconnect\<close>).
\<close>
theorem disconnect_is_stable:
  assumes "profiles_keyed w" "run_disconnect env as i w = (Inr (), w1)" "list_all (\<lambda>(_, c). \<not> addressed_to i c) cmds"
  shows "calls_of i (run_commands as cmds w1) = calls_of i w1 \<and> is_disconnected i (run_commands as cmds w1)"
proof -
  obtain p where "aw_profiles w1 = (aw_profiles w)(i \<mapsto> p)" "ap_agent_id p = i" "ap_disconnected p"
    using undo_agent_profiles assms(1,2) unfolding run_disconnect_def by metis
  with assms(1) have "left_alone i (calls_of i w1) w1" by (auto simp: left_alone_def profiles_keyed_def is_disconnected_def)
  from run_commands_leave_alone[OF assms(3) this] show ?thesis by (simp add: left_alone_def)
qed

text \<open>One of two agents is disconnected; everything is then set up and reconciled.\<close>

definition disconnected_world :: "nat agents_world" where
  "disconnected_world = snd (run_disconnect sample_env sample_agents ''cline'' fresh_world)"

lemma disconnected_world_run: "run_disconnect sample_env sample_agents ''cline'' fresh_world = (Inr (), disconnected_world)"
  by (simp add: prod_eq_iff disconnected_world_def) code_simp

theorem disconnect_is_stable_witness:
  "calls_of ''cline'' (run_commands sample_agents [(sample_env, CmdSetup None True []), (sample_env, CmdReconcileOne ''cline'')] disconnected_world) =
     [Undone Tool, Undone Execution, Undone BurnControl, ShimRemoved, Scrubbed] \<and>
   is_disconnected ''cline'' (run_commands sample_agents [(sample_env, CmdSetup None True []), (sample_env, CmdReconcileOne ''cline'')] disconnected_world)"
proof -
  have "calls_of ''cline'' disconnected_world = [Undone Tool, Undone Execution, Undone BurnControl, ShimRemoved, Scrubbed]" by code_simp
  then show ?thesis
    using disconnect_is_stable[OF _ disconnected_world_run, of "[(sample_env, CmdSetup None True []), (sample_env, CmdReconcileOne ''cline'')]"]
    by (simp add: fresh_world_def profiles_keyed_def)
qed

section \<open>Native evidence\<close>

text \<open>How often a surface of an agent has been configured.\<close>

definition configures :: "string \<Rightarrow> surface \<Rightarrow> 'w agents_world \<Rightarrow> nat" where
  "configures i s w = length (filter (\<lambda>act. act = Configured s) (calls_of i w))"

lemma configures_frame [simp]:
  "configures i s (w\<lparr>aw_profiles := ps\<rparr>) = configures i s w"
  "configures i s (touch_last_reconcile env w) = configures i s w"
  by (simp_all add: configures_def calls_of_def touch_last_reconcile_def)

lemma configures_call: "act \<noteq> Configured s \<Longrightarrow> configures i s (snd (call j act f w)) = configures i s w"
  by (simp add: configures_def calls_of_def call_def split: prod.split)

lemma keeps_configures_call [keeps_rules]:
  "act \<noteq> Configured s \<Longrightarrow> keeps (\<lambda>w. configures i s w = n) (call j act f) (\<lambda>_. True)"
  by (simp add: keeps_any configures_call)

lemma adapts_expects: "plan_adapts p s \<Longrightarrow> plan_expects p s"
  by (cases s) (cases "ip_execution p"; cases "ip_tool p"; cases "ip_burn_control p"; simp)+

lemma keeps_configures_gaps: "keeps (\<lambda>w. configures i s w = n) (record_compilation_gaps env j gaps) (\<lambda>_. True)"
  by (auto simp: keeps_any record_compilation_gaps_def load_or_new_def load_agent_profile_def save_agent_profile_def andThen_def
      split: option.splits)

lemma keeps_configures_one:
  assumes "skip s \<or> \<not> plan_adapts (ag_integration_plan a) s"
  shows "keeps (\<lambda>w. configures i s w = n) (configure_one env a conf agent_specific skip s') (\<lambda>_. True)"
proof (cases "s' = s")
  case True
  with assms show ?thesis by (auto simp: configure_one_def keeps_any when_run_def)
next
  case False
  then show ?thesis unfolding configure_one_def
    by (intro keeps_when keeps_seq keeps_configures_call keeps_gaps_step keeps_configures_gaps) auto
qed

lemma configure_agent_surfaces_skips:
  assumes "skip s \<or> \<not> plan_adapts (ag_integration_plan a) s"
  shows "configures i s (snd (configure_agent_surfaces env a agent_specific skip w)) = configures i s w"
proof -
  have finish: "keeps (\<lambda>w. configures i s w = n) (\<lambda>w. if b then (case problem of Some p \<Rightarrow> (Inl (e p), w) | None \<Rightarrow> (Inr (), w)) else (Inr (), w)) (\<lambda>_. True)"
    for b and problem :: "string option" and e n
    by (simp add: keeps_def split: option.splits)
  have "keeps (\<lambda>w. configures i s w = n) (andThen (when_run b (call (ag_id a) ShimInstalled (ag_install_shim a))) (\<lambda>_.
               andThen (configure_one env a conf agent_specific skip Execution) (\<lambda>_.
               andThen (configure_one env a conf agent_specific skip Tool) (\<lambda>_.
               andThen (configure_one env a conf agent_specific skip BurnControl) (\<lambda>_ w.
                 if b' then (case problem of Some p \<Rightarrow> (Inl (e p), w) | None \<Rightarrow> (Inr (), w)) else (Inr (), w)))))) (\<lambda>_. True)"
    for b b' conf n and problem :: "string option" and e
    by (intro keeps_rules finish keeps_configures_one assms) simp
  from keepsD[OF this] show ?thesis unfolding configure_agent_surfaces_def by (simp split: sum.split)
qed

lemma configure_and_reprobe_skips:
  "skip s \<or> \<not> plan_adapts (ag_integration_plan a) s \<Longrightarrow>
   configures i s (snd (configure_and_reprobe env a agent_specific skip needed pw)) = configures i s (snd pw)"
  by (simp add: configure_and_reprobe_def Let_def configure_agent_surfaces_skips)

lemma promote_surface_configures [simp]: "configures i s (snd (snd (promote_surface a s' b pw))) = configures i s (snd pw)"
proof -
  have "configures i s (snd (call (ag_id a) (Undone s') (ag_undo_surface a s') (snd pw))) = configures i s (snd pw)"
    by (simp add: configures_call)
  then show ?thesis by (auto simp: promote_surface_def Let_def split: prod.splits sum.splits)
qed

text \<open>The evidence a pass decides on: what the profile remembers, completed by what the agent shows now.\<close>

definition pass_evidence :: "'w agents_env \<Rightarrow> 'w agent \<Rightarrow> 'w agents_world \<Rightarrow> AgentProfile \<Rightarrow> SurfaceEvidence" where
  "pass_evidence env a w p = merge_missing_from (collect_native_evidence env a w) (ap_native_evidence (migrate_native_evidence p))"

lemma evidence_of_merge: "evidence_of (merge_missing_from other e) s = opt_or (evidence_of e s) (evidence_of other s)"
  by (cases s) (simp_all add: merge_missing_from_def)

lemma evidence_of_collect: "evidence_of (ag_native_evidence a (aw_agents w)) s \<noteq> None \<Longrightarrow> evidence_of (collect_native_evidence env a w) s \<noteq> None"
  by (cases s) (auto simp: collect_native_evidence_def Let_def)

lemma evidence_of_migrate: "evidence_of (ap_native_evidence p) s \<noteq> None \<Longrightarrow> evidence_of (ap_native_evidence (migrate_native_evidence p)) s \<noteq> None"
  by (cases s) (auto simp: migrate_native_evidence_def)

lemma pass_evidence_some:
  "evidence_of (ap_native_evidence p) s \<noteq> None \<or> evidence_of (ag_native_evidence a (aw_agents w)) s \<noteq> None \<Longrightarrow>
   evidence_of (pass_evidence env a w p) s \<noteq> None"
  using evidence_of_migrate[of p s] evidence_of_collect[of a w s env]
  by (auto simp: pass_evidence_def evidence_of_merge opt_or_def split: option.splits)

lemma reconcile_connected_skips:
  assumes "evidence_of (pass_evidence env a w profile) s \<noteq> None"
  shows "configures i s (snd (reconcile_connected env a probe profile w)) = configures i s w"
proof -
  have "evidence_of (pass_evidence env a w profile) s \<noteq> None \<and> plan_expects (ag_integration_plan a) s \<or> \<not> plan_adapts (ag_integration_plan a) s"
    using assms adapts_expects by blast
  then show ?thesis
    unfolding reconcile_connected_def Let_def case_prod_beta snd_conv pass_evidence_def
    using assms unfolding pass_evidence_def by (simp add: configure_and_reprobe_skips)
qed

text \<open>
  A surface the agent governs natively is never adapted: when the profile remembers native evidence for a surface, or the agent
  shows some now, no reconciliation configures that surface - neither the automatic configuration, nor the repair of drifted files,
  nor the pass after another surface has been promoted.
\<close>

theorem native_surfaces_are_not_adapted:
  assumes "fst (load_or_new env (ag_id a) w) = Inr profile"
    and "evidence_of (ap_native_evidence profile) s \<noteq> None \<or> evidence_of (ag_native_evidence a (aw_agents w)) s \<noteq> None"
  shows "configures (ag_id a) s (snd (reconcile_agent env a w)) = configures (ag_id a) s w"
proof -
  have w: "load_or_new env (ag_id a) w = (Inr profile, w)"
    using assms(1) by (auto simp: load_or_new_def load_agent_profile_def andThen_def split: option.splits)
  have finish: "configures (ag_id a) s (snd (finish_reconcile env q v)) = configures (ag_id a) s v" for q v
    by (simp add: finish_reconcile_def Let_def andThen_def save_agent_profile_def split: option.split)
  have "evidence_of (pass_evidence env a w (profile\<lparr>ap_detected := True\<rparr>)) s \<noteq> None"
    using assms(2) by (intro pass_evidence_some) simp
  from reconcile_connected_skips[OF this] show ?thesis
    by (simp add: reconcile_agent_def andThen_def w Let_def case_prod_beta finish)
qed

text \<open>An agent that reports its tool calls natively: the other two surfaces are configured, the tool surface is not.\<close>

abbreviation native_tool_agent :: "nat agent" where
  "native_tool_agent \<equiv> sample_agent ''cline'' (no_evidence\<lparr>ev_tool := Some 900\<rparr>)"

theorem native_surfaces_are_not_adapted_witness:
  "configures ''cline'' Tool (snd (reconcile_agent sample_env native_tool_agent fresh_world)) = 0 \<and>
   configures ''cline'' Execution (snd (reconcile_agent sample_env native_tool_agent fresh_world)) > 0"
proof -
  have "fst (load_or_new sample_env (ag_id native_tool_agent) fresh_world) = Inr (new_empty ''cline'')" by code_simp
  from native_surfaces_are_not_adapted[OF this, of Tool]
  have "configures ''cline'' Tool (snd (reconcile_agent sample_env native_tool_agent fresh_world)) = 0"
    by (simp add: sample_defs configures_def calls_of_def)
  moreover have "configures ''cline'' Execution (snd (reconcile_agent sample_env native_tool_agent fresh_world)) > 0" by code_simp
  ultimately show ?thesis by blast
qed

text \<open>Every surface a profile calls native is one the plan expects and for which the profile keeps evidence.\<close>

definition native_backed :: "AgentIntegrationPlan \<Rightarrow> AgentProfile \<Rightarrow> bool" where
  "native_backed plan p \<longleftrightarrow> list_all (\<lambda>s. level_of p s = Native \<longrightarrow> plan_expects plan s \<and> evidence_of (ap_native_evidence p) s \<noteq> None)
     [Execution, Tool, BurnControl]"

lemma native_backed_all:
  "native_backed plan p \<longleftrightarrow> (\<forall>s. level_of p s = Native \<longrightarrow> plan_expects plan s \<and> evidence_of (ap_native_evidence p) s \<noteq> None)"
proof
  show "native_backed plan p \<Longrightarrow> \<forall>s. level_of p s = Native \<longrightarrow> plan_expects plan s \<and> evidence_of (ap_native_evidence p) s \<noteq> None"
    unfolding native_backed_def by (rule allI, rename_tac s, case_tac s) auto
qed (simp add: native_backed_def)

definition probe_level :: "ProbeResult \<Rightarrow> surface \<Rightarrow> CapLevel" where
  "probe_level pb s = (case s of Execution \<Rightarrow> ss_level (pb_execution pb) | Tool \<Rightarrow> ss_level (pb_tool pb) | BurnControl \<Rightarrow> ss_level (pb_burn_control pb))"

lemma level_of_take: "level_of (take_surfaces pb p) s = (if level_of p s = Native then Native else probe_level pb s)"
  by (cases s) (auto simp: take_surfaces_def probe_level_def)

lemma level_of_set_native: "level_of (set_native s p) s' = (if s' = s then Native else level_of p s')"
  by (cases s; cases s') (auto simp: set_native_def surface_native_def)

lemma evidence_set_native [simp]: "ap_native_evidence (set_native s p) = ap_native_evidence p"
  by (cases s) (simp_all add: set_native_def)

lemma promote_surface_evidence [simp]: "ap_native_evidence (fst (snd (promote_surface a s b pw))) = ap_native_evidence (fst pw)"
  by (auto simp: promote_surface_def Let_def split: prod.splits sum.splits)

lemma promote_surface_backed:
  assumes "native_backed plan p" "b \<Longrightarrow> plan_expects plan s \<and> evidence_of (ap_native_evidence p) s \<noteq> None"
  shows "native_backed plan (fst (snd (promote_surface a s b (p, w))))"
  using assms unfolding native_backed_all promote_surface_def Let_def
  by (auto simp: level_of_set_native split: prod.splits sum.splits)

lemma native_backed_cong:
  "ap_native_evidence p' = ap_native_evidence p \<Longrightarrow> level_of p' = level_of p \<Longrightarrow> native_backed plan p' = native_backed plan p"
  by (simp add: native_backed_all)

lemma level_of_frame [simp]:
  "level_of (p\<lparr>ap_native_evidence := e\<rparr>) = level_of p" "level_of (p\<lparr>ap_detected := d\<rparr>) = level_of p"
  "level_of (p\<lparr>ap_managed_files := f\<rparr>) = level_of p" "level_of (p\<lparr>ap_live_evidence := l\<rparr>) = level_of p"
  "level_of (p\<lparr>ap_last_reconciled := r\<rparr>) = level_of p" "level_of (migrate_native_evidence p) = level_of p"
  by (rule ext, rename_tac s, case_tac s; simp add: migrate_native_evidence_def)+

lemma native_backed_frame [simp]:
  "native_backed plan (p\<lparr>ap_detected := d\<rparr>) = native_backed plan p" "native_backed plan (p\<lparr>ap_managed_files := f\<rparr>) = native_backed plan p"
  "native_backed plan (p\<lparr>ap_live_evidence := l\<rparr>) = native_backed plan p" "native_backed plan (p\<lparr>ap_last_reconciled := r\<rparr>) = native_backed plan p"
  by (rule native_backed_cong; simp)+

lemma native_backed_pass:
  assumes "native_backed plan p"
  shows "native_backed plan ((migrate_native_evidence p)\<lparr>ap_native_evidence := pass_evidence env a w p\<rparr>)"
  unfolding native_backed_all
proof (intro allI impI)
  fix s assume "level_of ((migrate_native_evidence p)\<lparr>ap_native_evidence := pass_evidence env a w p\<rparr>) s = Native"
  then have "level_of p s = Native" by simp
  with assms have "plan_expects plan s" "evidence_of (ap_native_evidence p) s \<noteq> None" unfolding native_backed_all by blast+
  then show "plan_expects plan s \<and> evidence_of (ap_native_evidence ((migrate_native_evidence p)\<lparr>ap_native_evidence := pass_evidence env a w p\<rparr>)) s \<noteq> None"
    using pass_evidence_some[of p s a w env] by simp
qed

lemma take_surfaces_evidence [simp]: "ap_native_evidence (take_surfaces pb p) = ap_native_evidence p"
  by (simp add: take_surfaces_def)

lemma take_surfaces_backed:
  "native_backed plan p \<Longrightarrow> (\<And>s. probe_level pb s \<noteq> Native) \<Longrightarrow> native_backed plan (take_surfaces pb p)"
  by (simp add: native_backed_all level_of_take)

lemma reprobe_level:
  assumes "\<And>v s. probe_level (ag_probe a v) s \<noteq> Native" "\<And>s. probe_level pb s \<noteq> Native"
  shows "probe_level (fst (configure_and_reprobe env a agent_specific skip needed (pb, w))) s \<noteq> Native"
proof -
  have "probe_level (pb\<lparr>pb_detected := d\<rparr>) s = probe_level pb s" for pb d by (cases s) (simp_all add: probe_level_def)
  with assms show ?thesis by (simp add: configure_and_reprobe_def Let_def)
qed

lemma reconcile_connected_backed:
  assumes probe: "\<And>v s. probe_level (ag_probe a v) s \<noteq> Native" "\<And>s. probe_level probe s \<noteq> Native"
    and "native_backed (ag_integration_plan a) profile"
  shows "native_backed (ag_integration_plan a) (fst (reconcile_connected env a probe profile w))"
  unfolding reconcile_connected_def Let_def case_prod_beta fst_conv native_backed_frame
  using native_backed_pass[OF assms(3), of env a w] unfolding pass_evidence_def
  by (intro promote_surface_backed take_surfaces_backed reprobe_level) (auto simp: probe)

text \<open>
  C38. A surface is called native only on evidence: if every surface a stored profile calls native is one the agent's plan expects and
  has evidence recorded, then so is every surface of the profile a reconciliation returns. No probe result, drift repair or failed
  reversal makes a surface native without evidence.
\<close>

theorem native_is_backed_by_evidence:
  assumes "\<forall>v s. probe_level (ag_probe a v) s \<noteq> Native"
    and "fst (load_or_new env (ag_id a) w) = Inr profile" "native_backed (ag_integration_plan a) profile"
    and "fst (reconcile_agent env a w) = Inr p"
  shows "native_backed (ag_integration_plan a) p"
proof -
  have w: "load_or_new env (ag_id a) w = (Inr profile, w)"
    using assms(2) by (auto simp: load_or_new_def load_agent_profile_def andThen_def split: option.splits)
  have finish: "fst (finish_reconcile env q v) = Inr p \<Longrightarrow> p = q\<lparr>ap_last_reconciled := Some (ax_now env)\<rparr>" for q v
    by (auto simp: finish_reconcile_def Let_def andThen_def save_agent_profile_def split: option.splits)
  have connected: "native_backed (ag_integration_plan a)
      (fst (reconcile_connected env a (ag_probe a (aw_agents w)) (profile\<lparr>ap_detected := True\<rparr>) w))"
    using assms(1,3) by (intro reconcile_connected_backed) auto
  show ?thesis using assms(3,4) connected
    by (auto simp: reconcile_agent_def andThen_def w Let_def case_prod_beta dest!: finish split: if_splits)
qed

text \<open>The tool surface of the sample agent is promoted on its evidence.\<close>

definition promoted_profile :: AgentProfile where
  "promoted_profile = projr (fst (reconcile_agent sample_env native_tool_agent fresh_world))"

theorem native_is_backed_by_evidence_witness:
  "native_backed sample_plan promoted_profile \<and> level_of promoted_profile Tool = Native \<and> level_of promoted_profile Execution = Adapted"
proof -
  have "probe_level (ag_probe native_tool_agent v) s \<noteq> Native" for v s
    by (cases s) (simp_all add: probe_level_def sample_defs surface_adapted_def)
  moreover have "fst (load_or_new sample_env (ag_id native_tool_agent) fresh_world) = Inr (new_empty ''cline'')" by code_simp
  moreover have "native_backed (ag_integration_plan native_tool_agent) (new_empty ''cline'')" by code_simp
  moreover have "fst (reconcile_agent sample_env native_tool_agent fresh_world) = Inr promoted_profile" by code_simp
  ultimately have "native_backed (ag_integration_plan native_tool_agent) promoted_profile" using native_is_backed_by_evidence by blast
  moreover have "level_of promoted_profile Tool = Native" "level_of promoted_profile Execution = Adapted" by code_simp+
  ultimately show ?thesis by (simp add: sample_agent_def)
qed

section \<open>Where the code departs from its documentation\<close>

text \<open>Setting up a disconnected agent while a daemon is down configures its surfaces, but the error is returned before the flag is
  cleared and the settings are saved: the agent stays disconnected, and no reconciliation will look at it.\<close>

lemma setup_with_daemon_down_stays_disconnected:
  "let env = sample_env\<lparr>ax_kyrisd_problem := Some ''refused''\<rparr>;
       w = snd (run_setup env sample_agents (Some ''cline'') False [] disconnected_world)
   in configures ''cline'' Execution w = 1 \<and> is_disconnected ''cline'' w"
  by code_simp

text \<open>The gaps that configuring stores in the profile do not survive the pass that configured: it saves the copy it loaded before.\<close>

lemma reconcile_drops_compilation_gaps:
  "let a = (sample_agent ''codex-cli'' no_evidence)\<lparr>ag_compilation_gaps := (\<lambda>s _. if s = Execution then [''gap''] else [])\<rparr>
   in aw_profiles (snd (configure_agent_surfaces sample_env a [] (\<lambda>_. False) fresh_world)) ''codex-cli'' =
        Some ((new_empty ''codex-cli'')\<lparr>ap_compilation_gaps := [''gap'']\<rparr>) \<and>
      map_option ap_compilation_gaps (aw_profiles (snd (reconcile_agent sample_env a fresh_world)) ''codex-cli'') = Some []"
  by code_simp

text \<open>Setting up every agent writes the environment file of a disconnected one again.\<close>

lemma prestage_ignores_disconnect:
  "let routing = \<lparr>pr_base_url_vars = [''URL''], pr_auth_skip_flags = [], pr_custom_headers_var = ''H'', pr_header_separator = '',''\<rparr>;
       as = [(sample_agent ''cline'' no_evidence)\<lparr>ag_provider_routing := Some routing\<rparr>];
       w = snd (run_disconnect sample_env as ''cline'' fresh_world);
       w' = snd (run_setup sample_env as None True [] w)
   in aw_env_files w ''cline'' = None \<and> aw_env_files w' ''cline'' \<noteq> None \<and> is_disconnected ''cline'' w'"
  by code_simp

text \<open>A marker file dated in the future suppresses automatic reconciliation for longer than the debounce interval.\<close>

lemma future_marker_suppresses: "now \<le> m \<Longrightarrow> should_skip_debounce now (Some m)"
  by (simp add: should_skip_debounce_def DEBOUNCE_SECONDS_def)

end
