(* ===== verification/AgentStatus.thy ===== *)
theory AgentStatus
  imports AgentLifecycle PolicyCompile
begin

text \<open>
  What \<^verbatim>\<open>kyris agent status\<close> says: the labels of plans and mechanisms (\<^verbatim>\<open>cli/src/agents/registry.rs\<close>), the summary table and the detail view
  (\<^verbatim>\<open>cli/src/agents/display.rs\<close>) and the command itself (\<^verbatim>\<open>run_status\<close> of \<^verbatim>\<open>mod.rs\<close>). Output is the list of the lines printed; the
  printer of a time stamp is an argument. The theorems show that the status word is not better than the profile it is read from, and
  that the command changes nothing.
\<close>

section \<open>Labels\<close>

fun execution_short :: "ExecutionMechanism \<Rightarrow> string" where
  "execution_short LiveHookAdapter = ''hook''"
| "execution_short ShellHook = ''shell''"
| "execution_short CompiledPolicy = ''policy''"

fun execution_detail :: "ExecutionMechanism \<Rightarrow> string" where
  "execution_detail LiveHookAdapter = ''hook''"
| "execution_detail ShellHook = ''shell hook''"
| "execution_detail CompiledPolicy = ''compiled policy''"

fun execution_in_band :: "ExecutionMechanism \<Rightarrow> bool" where
  "execution_in_band LiveHookAdapter = True"
| "execution_in_band ShellHook = True"
| "execution_in_band CompiledPolicy = False"

fun tool_short :: "ToolMechanism \<Rightarrow> string" where
  "tool_short ToolLiveHookAdapter = ''hook''"
| "tool_short McpWrapping = ''mcp''"

fun tool_detail :: "ToolMechanism \<Rightarrow> string" where
  "tool_detail ToolLiveHookAdapter = ''hook''"
| "tool_detail McpWrapping = ''mcp wrapper''"

fun tool_in_band :: "ToolMechanism \<Rightarrow> bool" where
  "tool_in_band ToolLiveHookAdapter = True"
| "tool_in_band McpWrapping = True"

fun burn_short :: "BurnControlMechanism \<Rightarrow> string" where
  "burn_short AgentPactUsageReport = ''usage''"
| "burn_short KyrisdModelProvider = ''provider''"
| "burn_short EnvVarProxy = ''proxy''"
| "burn_short ConfigRewrite = ''config''"

fun burn_detail :: "BurnControlMechanism \<Rightarrow> string" where
  "burn_detail AgentPactUsageReport = ''usage report''"
| "burn_detail KyrisdModelProvider = ''kyrisd model provider''"
| "burn_detail EnvVarProxy = ''env shim''"
| "burn_detail ConfigRewrite = ''config rewrite''"

fun burn_in_band :: "BurnControlMechanism \<Rightarrow> bool" where
  "burn_in_band AgentPactUsageReport = True"
| "burn_in_band KyrisdModelProvider = False"
| "burn_in_band EnvVarProxy = True"
| "burn_in_band ConfigRewrite = False"

fun plan_label :: "('m \<Rightarrow> string) \<Rightarrow> 'm SurfaceIntegration \<Rightarrow> string" where
  "plan_label short PlanNone = ''none''"
| "plan_label short AgentPactNative = ''native''"
| "plan_label short (PlanAdapted mechanisms _) = join ''+'' (map short mechanisms)"

fun design_ceiling :: "AgentIntegrationPlan \<Rightarrow> surface \<Rightarrow> CoverageCeiling option" where
  "design_ceiling p Execution = si_ceiling (ip_execution p)"
| "design_ceiling p Tool = si_ceiling (ip_tool p)"
| "design_ceiling p BurnControl = si_ceiling (ip_burn_control p)"

section \<open>The summary\<close>

definition STALE_THRESHOLD_MINUTES :: int where "STALE_THRESHOLD_MINUTES = 30"

definition age_minutes :: "nat \<Rightarrow> nat \<Rightarrow> int" where
  "age_minutes now ts = (if ts \<le> now then (int now - int ts) div 60 else - ((int ts - int now) div 60))"

definition format_surface_short :: "('m \<Rightarrow> string) \<Rightarrow> 'm SurfaceState \<Rightarrow> string" where
  "format_surface_short short state =
     (if ss_not_applicable state then ''n/a''
      else case ss_level state of
             LevelNone \<Rightarrow> ''-''
           | Native \<Rightarrow> ''native''
           | Adapted \<Rightarrow> (case ss_mechanism state of Some mech \<Rightarrow> short mech | None \<Rightarrow> ''adapted''))"

definition format_surface_with_plan :: "('m \<Rightarrow> string) \<Rightarrow> 'm SurfaceState \<Rightarrow> 'm SurfaceIntegration \<Rightarrow> string" where
  "format_surface_with_plan short state plan = format_surface_short short state @ ''/'' @ plan_label short plan"

definition is_compiled_degradation :: "'m SurfaceState \<Rightarrow> CoverageCeiling option \<Rightarrow> bool" where
  "is_compiled_degradation state design \<longleftrightarrow> is_compiled_only state \<and> design \<noteq> Some Compiled"

definition sorted_settings :: "AgentProfile \<Rightarrow> (string \<times> string) list" where
  "sorted_settings profile = sort_stable (\<lambda>a b. str_le (fst a) (fst b)) (ap_agent_specific profile)"

definition format_agent_specific :: "AgentProfile \<Rightarrow> string" where
  "format_agent_specific profile =
     (if ap_agent_specific profile = [] then [] else join '', '' (map (\<lambda>(k, v). k @ ''='' @ v) (sorted_settings profile)))"

definition surface_met :: "bool \<Rightarrow> 'm SurfaceState \<Rightarrow> bool" where
  "surface_met needed state \<longleftrightarrow> \<not> needed \<or> ss_level state \<noteq> LevelNone \<or> ss_not_applicable state"

definition all_met :: "AgentIntegrationPlan \<Rightarrow> AgentProfile \<Rightarrow> bool" where
  "all_met plan profile \<longleftrightarrow>
     surface_met (plan_expects plan Execution) (ap_execution profile) \<and> surface_met (plan_expects plan Tool) (ap_tool profile) \<and>
     surface_met (plan_expects plan BurnControl) (ap_burn_control profile)"

definition has_compiled_only :: "AgentIntegrationPlan \<Rightarrow> AgentProfile \<Rightarrow> bool" where
  "has_compiled_only plan profile \<longleftrightarrow>
     is_compiled_degradation (ap_execution profile) (design_ceiling plan Execution) \<or>
     is_compiled_degradation (ap_tool profile) (design_ceiling plan Tool) \<or>
     is_compiled_degradation (ap_burn_control profile) (design_ceiling plan BurnControl)"

definition profile_is_stale :: "nat \<Rightarrow> AgentProfile \<Rightarrow> bool" where
  "profile_is_stale now profile = (case ap_last_reconciled profile of None \<Rightarrow> False | Some ts \<Rightarrow> age_minutes now ts > STALE_THRESHOLD_MINUTES)"

definition summary_status :: "nat \<Rightarrow> AgentIntegrationPlan \<Rightarrow> AgentProfile \<Rightarrow> string" where
  "summary_status now plan profile =
     (if all_met plan profile \<and> \<not> has_compiled_only plan profile
      then (if profile_is_stale now profile then ''ok (stale)'' else ''ok'')
      else if all_met plan profile \<and> has_compiled_only plan profile
      then (if profile_is_stale now profile then ''compiled-only (stale)'' else ''compiled-only'')
      else if level_of profile Execution = LevelNone \<and> level_of profile Tool = LevelNone \<and> level_of profile BurnControl = LevelNone
      then ''detected, not configured''
      else ''incomplete'')"

text \<open>\<^verbatim>\<open>{:<n}\<close> pads to a number of characters, which are the bytes that do not continue one.\<close>

definition pad_to :: "nat \<Rightarrow> string \<Rightarrow> string" where
  "pad_to n s = s @ replicate (n - length (filter (\<lambda>c. \<not> byte_in 0x80 0xBF c) s)) CHR '' ''"

definition summary_header :: string where
  "summary_header = '' '' @ join '' '' [pad_to 14 ''Agent'', pad_to 16 ''Command obs/plan'', pad_to 16 ''MCP obs/plan'', pad_to 16 ''Burn obs/plan'',
     pad_to 30 ''Agent-Specific'', ''Status'']"

definition summary_line :: "nat \<Rightarrow> 'w agent \<times> AgentProfile \<Rightarrow> string" where
  "summary_line now ap =
     (let (a, profile) = ap; plan = ag_integration_plan a
      in if \<not> ap_detected profile then '' '' @ pad_to 14 (ag_id a) @ '' not found''
         else '' '' @ join '' '' [pad_to 14 (ag_id a),
                pad_to 16 (format_surface_with_plan execution_short (ap_execution profile) (ip_execution plan)),
                pad_to 16 (format_surface_with_plan tool_short (ap_tool profile) (ip_tool plan)),
                pad_to 16 (format_surface_with_plan burn_short (ap_burn_control profile) (ip_burn_control plan)),
                pad_to 30 (format_agent_specific profile), summary_status now plan profile])"

definition print_summary :: "nat \<Rightarrow> ('w agent \<times> AgentProfile) list \<Rightarrow> string list" where
  "print_summary now agents = summary_header # map (summary_line now) agents"

section \<open>The detail view\<close>

definition format_age :: "nat \<Rightarrow> nat \<Rightarrow> string" where
  "format_age now ts =
     (let mins = nat (max 0 (age_minutes now ts))
      in if mins < 60 then display_nat mins @ ''m ago''
         else if mins < 48 * 60 then display_nat (mins div 60) @ ''h ago''
         else display_nat (mins div (24 * 60)) @ ''d ago'')"

definition format_control_line ::
    "nat \<Rightarrow> ('m \<Rightarrow> string) \<Rightarrow> ('m \<Rightarrow> string) \<Rightarrow> 'm SurfaceState \<Rightarrow> 'm SurfaceIntegration \<Rightarrow> nat option \<Rightarrow> string" where
  "format_control_line now short detail state plan live =
     (let planned = plan_label short plan
      in if ss_not_applicable state then ''n/a (nothing to mediate; plan: '' @ planned @ '')''
         else let observed =
                (case ss_level state of
                   LevelNone \<Rightarrow> ''-''
                 | Native \<Rightarrow> ''active (native)''
                 | Adapted \<Rightarrow>
                     let via = (case ss_mechanism state of Some mech \<Rightarrow> ''active via '' @ detail mech | None \<Rightarrow> ''active'');
                         via = (if is_compiled_only state then via @ '' (compiled-only, no in-band mediation)'' else via)
                     in case live of Some ts \<Rightarrow> via @ '', live '' @ format_age now ts | None \<Rightarrow> via @ '', not yet observed live'')
              in observed @ '' (plan: '' @ planned @ '')'')"

fun surface_is_native :: "'m SurfaceIntegration \<Rightarrow> bool" where
  "surface_is_native AgentPactNative = True"
| "surface_is_native _ = False"

definition native_support_line :: "AgentIntegrationPlan \<Rightarrow> AgentProfile \<Rightarrow> string" where
  "native_support_line plan profile =
     (if level_of profile Execution = Native \<or> level_of profile Tool = Native \<or> level_of profile BurnControl = Native
      then ''  native support:    active''
      else if surface_is_native (ip_execution plan) \<or> surface_is_native (ip_tool plan) \<or> surface_is_native (ip_burn_control plan)
      then ''  native support:    expected, not observed''
      else ''  native support:    - (adapted integration)'')"

definition reconciled_lines :: "(nat \<Rightarrow> string) \<Rightarrow> nat \<Rightarrow> AgentProfile \<Rightarrow> string list" where
  "reconciled_lines show_time now profile =
     (case ap_last_reconciled profile of
        None \<Rightarrow> []
      | Some ts \<Rightarrow>
          let age_mins = age_minutes now ts
          in if age_mins > STALE_THRESHOLD_MINUTES
             then [''  Reconciled:  '' @ show_time ts @ '' (stale '' @ long_dash @ '' '' @ display_nat (nat age_mins) @
                   ''m ago, daemon may not be running)'']
             else [''  Reconciled:  '' @ show_time ts])"

definition print_detail :: "(nat \<Rightarrow> string) \<Rightarrow> nat \<Rightarrow> 'w agent \<Rightarrow> AgentProfile \<Rightarrow> string list" where
  "print_detail show_time now a profile =
     ag_id a #
     (if \<not> ap_detected profile then [''  Status: not found'']
      else let plan = ag_integration_plan a; live = ap_live_evidence profile
           in [native_support_line plan profile,
               ''  command control:   '' @ format_control_line now execution_short execution_detail (ap_execution profile) (ip_execution plan) (ev_execution live),
               ''  mcp control:       '' @ format_control_line now tool_short tool_detail (ap_tool profile) (ip_tool plan) (ev_tool live),
               ''  burn control:      '' @ format_control_line now burn_short burn_detail (ap_burn_control profile) (ip_burn_control plan) (ev_burn_control live)] @
              map (\<lambda>(k, v). ''  '' @ k @ '':  '' @ v) (sorted_settings profile) @
              reconciled_lines show_time now profile @
              (if ap_compilation_gaps profile = [] then []
               else ''  Compilation gaps:'' # map (\<lambda>gap. ''    - '' @ gap) (ap_compilation_gaps profile)) @
              (if ap_managed_files profile = [] then []
               else ''  Managed files:'' # map (\<lambda>fp. ''    '' @ fp_path fp) (ap_managed_files profile)))"

section \<open>The command\<close>

fun status_snapshot_all :: "'w agents_env \<Rightarrow> 'w agent list \<Rightarrow> 'w agents_world \<Rightarrow> string + ('w agent \<times> AgentProfile) list" where
  "status_snapshot_all env [] w = Inr []"
| "status_snapshot_all env (a # as) w =
     (case status_snapshot_agent env a w of
        Inl e \<Rightarrow> Inl e
      | Inr p \<Rightarrow> (case status_snapshot_all env as w of Inl e \<Rightarrow> Inl e | Inr ps \<Rightarrow> Inr ((a, p) # ps)))"

definition run_status :: "(nat \<Rightarrow> string) \<Rightarrow> 'w agents_env \<Rightarrow> 'w agent list \<Rightarrow> string option \<Rightarrow> 'w agents_world \<Rightarrow> string + string list" where
  "run_status show_time env as agent w =
     (case status_snapshot_all env as w of
        Inl e \<Rightarrow> Inl e
      | Inr results \<Rightarrow>
          (case agent of
             Some agent_id \<Rightarrow>
               (case List.find (\<lambda>(d, _). ag_id d = agent_id) results of
                  None \<Rightarrow> Inl (''Unknown agent: '' @ agent_id)
                | Some (d, profile) \<Rightarrow> Inr (print_detail show_time (ax_now env) d profile))
           | None \<Rightarrow> Inr (print_summary (ax_now env) results)))"

section \<open>What the status may be trusted for\<close>

text \<open>
  The summary never shows an agent as fine when it is not: its status word starts with \<open>ok\<close> exactly when every surface the plan
  expects is governed (or has nothing to govern) and none has fallen back to a compiled policy that its design does not foresee, and it
  is one of six words.
\<close>

theorem ok_means_governed:
  "(prefix ''ok'' (summary_status now plan p) \<longleftrightarrow> all_met plan p \<and> \<not> has_compiled_only plan p) \<and>
   summary_status now plan p \<in> {''ok'', ''ok (stale)'', ''compiled-only'', ''compiled-only (stale)'', ''detected, not configured'', ''incomplete''}"
  by (simp add: summary_status_def)

lemma migrate_same:
  "(migrate_native_evidence p)\<lparr>ap_native_evidence := ap_native_evidence p\<rparr> = p"
  by (simp add: migrate_native_evidence_def)

lemma promote_surface_none: "\<not> b \<or> level_of (fst pw) s = Native \<Longrightarrow> promote_surface a s b pw = (False, pw)"
  by (cases pw) (auto simp: promote_surface_def)

lemma reconcile_connected_quiet:
  assumes "pass_evidence env a w p = ap_native_evidence p" "was_configured env (ag_id a) w"
    and "\<not> list_ex (drifted env a w) (ap_managed_files p)" "ag_unwrapped_mcp_server_names a (aw_agents w) = []"
    and promoted: "\<And>s. plan_expects (ag_integration_plan a) s \<and> evidence_of (ap_native_evidence p) s \<noteq> None \<longrightarrow> level_of p s = Native"
  shows "reconcile_connected env a probe p w =
    ((take_surfaces probe p)\<lparr>ap_managed_files := pb_managed_files probe, ap_live_evidence := ax_live_seen env (ag_id a)\<rparr>, w)"
proof -
  have migrated: "(migrate_native_evidence p)\<lparr>ap_native_evidence :=
      merge_missing_from (collect_native_evidence env a w) (ap_native_evidence (migrate_native_evidence p))\<rparr> = p"
    using assms(1) migrate_same[of p] by (simp add: pass_evidence_def)
  have none: "promote_surface a s (plan_expects (ag_integration_plan a) s \<and> evidence_of (ap_native_evidence p) s \<noteq> None) (take_surfaces probe p, w)
      = (False, take_surfaces probe p, w)" for s
    using promoted[of s] by (intro promote_surface_none) (auto simp: level_of_take)
  show ?thesis
    unfolding reconcile_connected_def Let_def migrated configure_and_reprobe_def
    using assms(2-4) by (simp add: none del: plan_expects.simps evidence_of.simps not_None_eq)
qed

text \<open>
  C34. A reconciliation that finds nothing to do is the read-only status plus a time stamp: for a configured, connected agent without
  drift, without an unwrapped tool server and without new native evidence, the pass calls no method that changes anything, stores
  exactly the profile the status command shows, stamped with the current time, and leaves the rest of the world as it was.
\<close>

theorem quiet_reconcile_is_status:
  assumes "ax_load_error env (ag_id a) = None" "ax_save_error env = None" "aw_profiles w (ag_id a) = Some p" "\<not> ap_disconnected p"
    and "pb_detected (ag_probe a (aw_agents w))" "was_configured env (ag_id a) w"
    and "\<not> list_ex (drifted env a w) (ap_managed_files p)" "ag_unwrapped_mcp_server_names a (aw_agents w) = []"
    and "pass_evidence env a w p = ap_native_evidence p"
    and "\<forall>s. plan_expects (ag_integration_plan a) s \<and> evidence_of (ap_native_evidence p) s \<noteq> None \<longrightarrow> level_of p s = Native"
  shows "\<exists>q. status_snapshot_agent env a w = Inr q \<and>
    (let q' = q\<lparr>ap_last_reconciled := Some (ax_now env)\<rparr> in
     reconcile_agent env a w = (Inr q', w\<lparr>aw_profiles := (aw_profiles w)(ap_agent_id p \<mapsto> q')\<rparr>))"
proof -
  let ?p = "p\<lparr>ap_detected := True\<rparr>"
  have load: "load_or_new env (ag_id a) w = (Inr p, w)"
    using assms(1,3) by (simp add: load_or_new_def load_agent_profile_def andThen_def unwrap_or_def)
  have "pass_evidence env a w ?p = pass_evidence env a w p" by (simp add: pass_evidence_def migrate_native_evidence_def)
  then have quiet: "reconcile_connected env a (ag_probe a (aw_agents w)) ?p w =
      ((take_surfaces (ag_probe a (aw_agents w)) ?p)\<lparr>ap_managed_files := pb_managed_files (ag_probe a (aw_agents w)),
         ap_live_evidence := ax_live_seen env (ag_id a)\<rparr>, w)"
    using assms(6-10) by (intro reconcile_connected_quiet) (auto simp del: plan_expects.simps evidence_of.simps)
  show ?thesis
    using assms(2,4,5)
    by (simp add: reconcile_agent_def status_snapshot_agent_def load andThen_def quiet Let_def finish_reconcile_def save_agent_profile_def
        take_surfaces_def)
qed

text \<open>The second pass over the sample agent, five minutes after the first.\<close>

definition configured_world :: "nat agents_world" where
  "configured_world = snd (reconcile_agent sample_env native_tool_agent fresh_world)"

theorem quiet_reconcile_is_status_witness:
  "\<exists>q. status_snapshot_agent (sample_env\<lparr>ax_now := 1300\<rparr>) native_tool_agent configured_world = Inr q \<and>
    (let q' = q\<lparr>ap_last_reconciled := Some 1300\<rparr> in
     reconcile_agent (sample_env\<lparr>ax_now := 1300\<rparr>) native_tool_agent configured_world =
       (Inr q', configured_world\<lparr>aw_profiles := (aw_profiles configured_world)(''cline'' \<mapsto> q')\<rparr>))"
proof -
  let ?env = "sample_env\<lparr>ax_now := 1300\<rparr>"
  have p: "aw_profiles configured_world (ag_id native_tool_agent) = Some promoted_profile" by code_simp
  have "\<forall>s. plan_expects (ag_integration_plan native_tool_agent) s \<and> evidence_of (ap_native_evidence promoted_profile) s \<noteq> None \<longrightarrow>
      level_of promoted_profile s = Native"
  proof
    fix s
    show "plan_expects (ag_integration_plan native_tool_agent) s \<and> evidence_of (ap_native_evidence promoted_profile) s \<noteq> None \<longrightarrow>
      level_of promoted_profile s = Native"
      by (cases s; hypsubst; code_simp)
  qed
  moreover have "ax_load_error ?env (ag_id native_tool_agent) = None" "ax_save_error ?env = None" by code_simp+
  moreover have "\<not> ap_disconnected promoted_profile" "pb_detected (ag_probe native_tool_agent (aw_agents configured_world))"
    "was_configured ?env (ag_id native_tool_agent) configured_world" by code_simp+
  moreover have "\<not> list_ex (drifted ?env native_tool_agent configured_world) (ap_managed_files promoted_profile)"
    "ag_unwrapped_mcp_server_names native_tool_agent (aw_agents configured_world) = []" by code_simp+
  moreover have "pass_evidence ?env native_tool_agent configured_world promoted_profile = ap_native_evidence promoted_profile" by code_simp
  ultimately obtain q where q: "status_snapshot_agent ?env native_tool_agent configured_world = Inr q"
    "let q' = q\<lparr>ap_last_reconciled := Some (ax_now ?env)\<rparr> in
     reconcile_agent ?env native_tool_agent configured_world =
       (Inr q', configured_world\<lparr>aw_profiles := (aw_profiles configured_world)(ap_agent_id promoted_profile \<mapsto> q')\<rparr>)"
    using quiet_reconcile_is_status[OF _ _ p] by blast
  have "ap_agent_id promoted_profile = ''cline''" by code_simp
  with q show ?thesis by simp
qed

end
