(* ===== verification/McpWrap.thy ===== *)
theory McpWrap
  imports Reconcile Sandbox DaemonConfig
begin

text \<open>
  Routing an agent's tool servers through Kyris, \<^verbatim>\<open>cli/src/agents/configure/mcp.rs\<close>: a stdio server is started through \<^verbatim>\<open>kyris-mcp wrap\<close>, an
  HTTP server is addressed at kyrisd, which knows the original address from its configuration; and the command line of the wrapper
  (\<^verbatim>\<open>mcp/src/main.rs\<close>), which undoes the first. The JSON and TOML variants share their pieces, with reading and making a string scalar as
  arguments. The theorems: after a pass no server is left unrouted, a second pass changes nothing, and what the wrapper starts is
  the command the entry had before.
\<close>

section \<open>Locations and entries\<close>

datatype McpConfigFormat = JsonServers "string list" | TomlServers string

record McpConfigLocation =
  ml_path :: string
  ml_format :: McpConfigFormat

text \<open>The parsed configuration files and kyrisd.yaml; a missing JSON or TOML file reads as an empty one.\<close>

record mcp_world =
  mw_json :: "string \<Rightarrow> string + json_value"
  mw_toml :: "string \<Rightarrow> string + toml_value"
  mw_config :: "(string + KyrisdConfig) option"

definition json_mcp_fields :: "json_value \<Rightarrow> json_value" where
  "json_mcp_fields server = (case vget ''transport'' server of Some (VObj t) \<Rightarrow> VObj t | _ \<Rightarrow> server)"

definition json_mcp_server_unwrapped :: "json_value \<Rightarrow> bool" where
  "json_mcp_server_unwrapped server =
     (case vget ''command'' (json_mcp_fields server) of
        Some (VLeaf (SStr cmd)) \<Rightarrow> cmd \<noteq> ''kyris-mcp''
      | Some (VArr cmd) \<Rightarrow> (case cmd of [] \<Rightarrow> True | c # _ \<Rightarrow> j_str c \<noteq> Some ''kyris-mcp'')
      | _ \<Rightarrow> False)"

definition toml_mcp_server_unwrapped :: "toml_value \<Rightarrow> bool" where
  "toml_mcp_server_unwrapped server =
     (case Option.bind (vget ''command'' server) t_str of Some cmd \<Rightarrow> cmd \<noteq> ''kyris-mcp'' | None \<Rightarrow> False)"

definition mcp_server_names_at :: "mcp_world \<Rightarrow> (json_value \<Rightarrow> bool) \<Rightarrow> (toml_value \<Rightarrow> bool) \<Rightarrow> McpConfigLocation \<Rightarrow> string list" where
  "mcp_server_names_at w json_keep toml_keep location =
     (case ml_format location of
        JsonServers servers_path \<Rightarrow>
          (case mw_json w (ml_path location) of
             Inl _ \<Rightarrow> []
           | Inr v \<Rightarrow>
               (case Option.bind (at_path servers_path v) as_obj of
                  None \<Rightarrow> [] | Some m \<Rightarrow> map fst (filter (\<lambda>(_, server). json_keep server) m)))
      | TomlServers servers_key \<Rightarrow>
          (case mw_toml w (ml_path location) of
             Inl _ \<Rightarrow> []
           | Inr v \<Rightarrow>
               (case Option.bind (vget servers_key v) as_obj of
                  None \<Rightarrow> [] | Some t \<Rightarrow> map fst (filter (\<lambda>(_, server). toml_keep server) t))))"

definition mcp_server_names_matching ::
    "mcp_world \<Rightarrow> McpConfigLocation list \<Rightarrow> (json_value \<Rightarrow> bool) \<Rightarrow> (toml_value \<Rightarrow> bool) \<Rightarrow> string list" where
  "mcp_server_names_matching w locations json_keep toml_keep =
     dedup (sort_stable str_le (concat (map (mcp_server_names_at w json_keep toml_keep) locations)))"

definition mcp_server_names_from_agent :: "mcp_world \<Rightarrow> McpConfigLocation list \<Rightarrow> string list" where
  "mcp_server_names_from_agent w locations = mcp_server_names_matching w locations (\<lambda>_. True) (\<lambda>_. True)"

definition load_config :: "mcp_world \<Rightarrow> string + KyrisdConfig" where
  "load_config w = (case mw_config w of None \<Rightarrow> Inl ''Cannot read kyrisd.yaml'' | Some r \<Rightarrow> r)"

definition url_is_routed :: "string option \<Rightarrow> string option \<Rightarrow> bool" where
  "url_is_routed kyrisd_mcp_prefix url = (case (url, kyrisd_mcp_prefix) of (Some u, Some p) \<Rightarrow> prefix p u | _ \<Rightarrow> False)"

definition kyris_routed_mcp_server_names :: "mcp_world \<Rightarrow> McpConfigLocation list \<Rightarrow> string list" where
  "kyris_routed_mcp_server_names w locations =
     (let kyrisd_mcp_prefix = (case load_config w of Inl _ \<Rightarrow> None | Inr c \<Rightarrow> Some (base_url c @ ''/mcp/''))
      in mcp_server_names_matching w locations
           (\<lambda>server. let fields = json_mcp_fields server in
              \<not> json_mcp_server_unwrapped server \<and>
              (vget ''command'' fields \<noteq> None \<or> url_is_routed kyrisd_mcp_prefix (Option.bind (vget ''url'' fields) j_str)))
           (\<lambda>server. \<not> toml_mcp_server_unwrapped server \<and>
              (vget ''command'' server \<noteq> None \<or> url_is_routed kyrisd_mcp_prefix (Option.bind (vget ''url'' server) t_str))))"

definition unwrapped_mcp_server_names :: "mcp_world \<Rightarrow> McpConfigLocation list \<Rightarrow> string list" where
  "unwrapped_mcp_server_names w locations =
     mcp_server_names_matching w locations json_mcp_server_unwrapped toml_mcp_server_unwrapped"

section \<open>Rewriting an entry\<close>

text \<open>The owning agent's flag, among the flags that lead the list: nothing when it is there, the list with it inserted otherwise.\<close>

fun insert_agent_flag :: "('v \<Rightarrow> string option) \<Rightarrow> (string \<Rightarrow> 'v) \<Rightarrow> string \<Rightarrow> 'v list \<Rightarrow> 'v list option" where
  "insert_agent_flag to_str from_str agent_id [] = Some [from_str ''--agent'', from_str agent_id]"
| "insert_agent_flag to_str from_str agent_id (x # xs) =
     (if to_str x = Some ''--agent'' then None
      else if to_str x = Some ''--server''
      then (case xs of
              [] \<Rightarrow> Some [x, from_str ''--agent'', from_str agent_id]
            | y # ys \<Rightarrow> map_option (\<lambda>r. x # y # r) (insert_agent_flag to_str from_str agent_id ys))
      else Some (from_str ''--agent'' # from_str agent_id # x # xs))"

definition ensure_wrap_agent_flag :: "('v \<Rightarrow> string option) \<Rightarrow> (string \<Rightarrow> 'v) \<Rightarrow> string \<Rightarrow> 'v list \<Rightarrow> bool \<times> 'v list" where
  "ensure_wrap_agent_flag to_str from_str agent_id args =
     (let inserted =
        (case args of
           x # xs \<Rightarrow> if to_str x = Some ''wrap'' then map_option ((#) x) (insert_agent_flag to_str from_str agent_id xs)
                     else insert_agent_flag to_str from_str agent_id args
         | [] \<Rightarrow> insert_agent_flag to_str from_str agent_id args)
      in case inserted of None \<Rightarrow> (False, args) | Some args' \<Rightarrow> (True, args'))"

definition wrapped_args :: "(string \<Rightarrow> 'v) \<Rightarrow> string \<Rightarrow> string \<Rightarrow> 'v list" where
  "wrapped_args from_str name agent_id =
     [from_str ''wrap'', from_str ''--server'', from_str name, from_str ''--agent'', from_str agent_id]"

type_synonym 's fields = "(string \<times> 's vtree) list"
type_synonym 's rewrite = "bool \<times> (string \<times> string) list \<times> 's fields"

definition wrap_command ::
    "('s vtree \<Rightarrow> string option) \<Rightarrow> (string \<Rightarrow> 's vtree) \<Rightarrow> string \<Rightarrow> string \<Rightarrow> string \<Rightarrow> 's fields \<Rightarrow> 's rewrite" where
  "wrap_command to_str from_str agent_id name command server =
     (if command = ''kyris-mcp''
      then (case Option.bind (map_of server ''args'') as_arr of
              Some args \<Rightarrow>
                let (c, args') = ensure_wrap_agent_flag to_str from_str agent_id args
                in if c then (True, [], AList.update ''args'' (VArr args') server) else (False, [], server)
            | None \<Rightarrow> (False, [], server))
      else let original_args = unwrap_or (Option.bind (map_of server ''args'') as_arr) []
           in (True, [], AList.update ''args'' (VArr (wrapped_args from_str name agent_id @ from_str command # original_args))
                          (AList.update ''command'' (from_str ''kyris-mcp'') server)))"

definition wrap_command_array ::
    "('s vtree \<Rightarrow> string option) \<Rightarrow> (string \<Rightarrow> 's vtree) \<Rightarrow> string \<Rightarrow> string \<Rightarrow> 's vtree list \<Rightarrow> 's fields \<Rightarrow> 's rewrite" where
  "wrap_command_array to_str from_str agent_id name cmd_array server =
     (if cmd_array \<noteq> [] \<and> to_str (hd cmd_array) = Some ''kyris-mcp''
      then let (c, tail) = ensure_wrap_agent_flag to_str from_str agent_id (tl cmd_array)
           in if c then (True, [], AList.update ''command'' (VArr (hd cmd_array # tail)) server) else (False, [], server)
      else (True, [], AList.update ''command'' (VArr (from_str ''kyris-mcp'' # wrapped_args from_str name agent_id @ cmd_array)) server))"

definition routed_url :: "string \<Rightarrow> string \<Rightarrow> string" where
  "routed_url base name = base @ ''/mcp/'' @ name @ ''/''"

definition route_url ::
    "('s vtree \<Rightarrow> string option) \<Rightarrow> (string \<Rightarrow> 's vtree) \<Rightarrow> string \<Rightarrow> string \<Rightarrow> string \<Rightarrow> string \<Rightarrow> string \<Rightarrow> string \<Rightarrow> 's fields \<Rightarrow> 's rewrite" where
  "route_url to_str from_str headers_key base key agent_id name url server =
     (let differs = (url \<noteq> routed_url base name);
          server = (if differs then AList.update ''url'' (from_str (routed_url base name)) server else server);
          headers = (case map_of server headers_key of Some (VObj h) \<Rightarrow> h | _ \<Rightarrow> []);
          auth_value = ''Bearer '' @ key;
          (c1, headers) = put (\<lambda>v. to_str v = Some auth_value) ''Authorization'' (from_str auth_value) headers;
          (c2, headers) = put (\<lambda>v. to_str v = Some agent_id) ''x-kyris-agent-id'' (from_str agent_id) headers
      in (differs \<or> c1 \<or> c2, (if differs then [(name, url)] else []), AList.update headers_key (VObj headers) server))"

abbreviation from_json_str :: "string \<Rightarrow> json_value" where "from_json_str s \<equiv> VLeaf (SStr s)"
abbreviation from_toml_str :: "string \<Rightarrow> toml_value" where "from_toml_str s \<equiv> VLeaf (TStr s)"

definition rewrite_json_fields :: "string \<Rightarrow> string \<Rightarrow> string \<Rightarrow> string \<Rightarrow> json_scalar fields \<Rightarrow> json_scalar rewrite" where
  "rewrite_json_fields base key agent_id name server =
     (case Option.bind (map_of server ''command'') j_str of
        Some command \<Rightarrow> wrap_command j_str from_json_str agent_id name command server
      | None \<Rightarrow>
          (case Option.bind (map_of server ''command'') as_arr of
             Some cmd_array \<Rightarrow> wrap_command_array j_str from_json_str agent_id name cmd_array server
           | None \<Rightarrow>
               (case Option.bind (map_of server ''url'') j_str of
                  Some url \<Rightarrow> route_url j_str from_json_str ''headers'' base key agent_id name url server
                | None \<Rightarrow> (False, [], server))))"

definition rewrite_json_server :: "string \<Rightarrow> string \<Rightarrow> string \<Rightarrow> string \<Rightarrow> json_value \<Rightarrow> bool \<times> (string \<times> string) list \<times> json_value" where
  "rewrite_json_server base key agent_id name v =
     (case v of
        VObj server \<Rightarrow>
          (case map_of server ''transport'' of
             Some (VObj t) \<Rightarrow>
               (let (c, rw, t') = rewrite_json_fields base key agent_id name t
                in (c, rw, VObj (AList.update ''transport'' (VObj t') server)))
           | _ \<Rightarrow> (let (c, rw, server') = rewrite_json_fields base key agent_id name server in (c, rw, VObj server')))
      | _ \<Rightarrow> (False, [], v))"

definition rewrite_toml_server :: "string \<Rightarrow> string \<Rightarrow> string \<Rightarrow> string \<Rightarrow> toml_value \<Rightarrow> bool \<times> (string \<times> string) list \<times> toml_value" where
  "rewrite_toml_server base key agent_id name v =
     (case v of
        VObj server \<Rightarrow>
          (let (c, rw, server') =
             (case Option.bind (map_of server ''command'') t_str of
                Some command \<Rightarrow> wrap_command t_str from_toml_str agent_id name command server
              | None \<Rightarrow>
                  (case Option.bind (map_of server ''url'') t_str of
                     Some url \<Rightarrow> route_url t_str from_toml_str ''http_headers'' base key agent_id name url server
                   | None \<Rightarrow> (False, [], server)))
           in (c, rw, VObj server'))
      | _ \<Rightarrow> (False, [], v))"

section \<open>Rewriting a configuration\<close>

record McpRewriteResult =
  rw_changed :: bool
  rw_http_rewrites :: "(string \<times> string) list"

definition rewrite_each ::
    "(string \<Rightarrow> 's vtree \<Rightarrow> bool \<times> (string \<times> string) list \<times> 's vtree) \<Rightarrow> 's fields \<Rightarrow> McpRewriteResult \<times> 's fields" where
  "rewrite_each f servers =
     (\<lparr>rw_changed = list_ex (\<lambda>(name, v). fst (f name v)) servers, rw_http_rewrites = concat (map (\<lambda>(name, v). fst (snd (f name v))) servers)\<rparr>,
      map (\<lambda>(name, v). (name, snd (snd (f name v)))) servers)"

text \<open>The cursor needs an object at every step; without one nothing is changed.\<close>

fun rewrite_at :: "('s fields \<Rightarrow> McpRewriteResult \<times> 's fields) \<Rightarrow> string list \<Rightarrow> 's vtree \<Rightarrow> McpRewriteResult \<times> 's vtree" where
  "rewrite_at f [] v = (case v of VObj m \<Rightarrow> (let (r, m') = f m in (r, VObj m')) | _ \<Rightarrow> (\<lparr>rw_changed = False, rw_http_rewrites = []\<rparr>, v))"
| "rewrite_at f (k # path) v =
     (case v of
        VObj m \<Rightarrow>
          (case map_of m k of
             Some child \<Rightarrow> (let (r, child') = rewrite_at f path child in (r, VObj (AList.update k child' m)))
           | None \<Rightarrow> (\<lparr>rw_changed = False, rw_http_rewrites = []\<rparr>, v))
      | _ \<Rightarrow> (\<lparr>rw_changed = False, rw_http_rewrites = []\<rparr>, v))"

definition rewrite_json_mcp_servers :: "json_value \<Rightarrow> string list \<Rightarrow> string \<Rightarrow> string \<Rightarrow> string \<Rightarrow> McpRewriteResult \<times> json_value" where
  "rewrite_json_mcp_servers config servers_path base key agent_id =
     rewrite_at (rewrite_each (rewrite_json_server base key agent_id)) servers_path config"

definition rewrite_codex_mcp_servers :: "toml_value \<Rightarrow> string \<Rightarrow> string \<Rightarrow> string \<Rightarrow> McpRewriteResult \<times> toml_value" where
  "rewrite_codex_mcp_servers config base key agent_id =
     rewrite_at (rewrite_each (rewrite_toml_server base key agent_id)) [''mcp_servers''] config"

section \<open>The daemon's list of upstreams\<close>

text \<open>What the code below calls: the template and the secret store behind \<^verbatim>\<open>load_or_init_config\<close>, failing writes, the manifest's restore of
  a component (\<^verbatim>\<open>cli/src/state.rs\<close>) and the agent's own filter.\<close>

record mcp_env =
  mx_default :: "string + KyrisdConfig"
  mx_secrets :: "string + string \<times> string"
  mx_save_error :: "string option"
  mx_write_error :: "string \<Rightarrow> string option"
  mx_restore_component :: "string \<Rightarrow> mcp_world \<Rightarrow> (string + unit) \<times> mcp_world"
  mx_extra_tool_filters :: "json_value \<Rightarrow> bool \<times> json_value"

text \<open>The keys are not serialised.\<close>

definition save_config :: "mcp_env \<Rightarrow> KyrisdConfig \<Rightarrow> mcp_world \<Rightarrow> (string + unit) \<times> mcp_world" where
  "save_config env c w =
     (case mx_save_error env of
        Some e \<Rightarrow> (Inl e, w)
      | None \<Rightarrow> (Inr (), w\<lparr>mw_config := Some (Inr (c\<lparr>kc_server := (kc_server c)\<lparr>sv_inbound_key := [], sv_operator_key := []\<rparr>\<rparr>))\<rparr>))"

definition load_or_init_config :: "mcp_env \<Rightarrow> mcp_world \<Rightarrow> (string + KyrisdConfig) \<times> mcp_world" where
  "load_or_init_config env w =
     (let (r, w) =
        (case mw_config w of
           Some r \<Rightarrow> (r, w)
         | None \<Rightarrow>
             (case mx_default env of
                Inl e \<Rightarrow> (Inl (''Cannot create default config: '' @ e), w)
              | Inr c \<Rightarrow> (case save_config env c w of (Inl e, w) \<Rightarrow> (Inl e, w) | (Inr _, w) \<Rightarrow> (Inr c, w))))
      in case r of
           Inl e \<Rightarrow> (Inl e, w)
         | Inr c \<Rightarrow>
             (case mx_secrets env of
                Inl e \<Rightarrow> (Inl e, w)
              | Inr (inbound, operator) \<Rightarrow>
                  (Inr (c\<lparr>kc_server := (kc_server c)\<lparr>sv_inbound_key := inbound, sv_operator_key := operator\<rparr>\<rparr>), w)))"

fun upsert_server :: "string \<Rightarrow> string \<Rightarrow> McpServerConfig list \<Rightarrow> bool \<times> McpServerConfig list" where
  "upsert_server name upstream [] = (True, [\<lparr>sc_name = name, sc_upstream = upstream, sc_working_dir = None\<rparr>])"
| "upsert_server name upstream (s # ss) =
     (if sc_name s = name then (if sc_upstream s \<noteq> upstream then (True, s\<lparr>sc_upstream := upstream\<rparr> # ss) else (False, s # ss))
      else let (c, ss') = upsert_server name upstream ss in (c, s # ss'))"

fun upsert_servers :: "(string \<times> string) list \<Rightarrow> McpServerConfig list \<Rightarrow> bool \<times> McpServerConfig list" where
  "upsert_servers [] ss = (False, ss)"
| "upsert_servers ((name, upstream) # rs) ss =
     (let (c, ss) = upsert_server name upstream ss; (c', ss) = upsert_servers rs ss in (c \<or> c', ss))"

definition upsert_mcp_upstreams :: "mcp_env \<Rightarrow> (string \<times> string) list \<Rightarrow> mcp_world \<Rightarrow> (string + bool) \<times> mcp_world" where
  "upsert_mcp_upstreams env rewrites w =
     (if rewrites = [] then (Inr False, w)
      else case load_or_init_config env w of
             (Inl e, w) \<Rightarrow> (Inl e, w)
           | (Inr c, w) \<Rightarrow>
               (let (changed_any, ss) = upsert_servers rewrites (mc_servers (kc_mcp c))
                in if changed_any
                   then (case save_config env (c\<lparr>kc_mcp := (kc_mcp c)\<lparr>mc_servers := ss, mc_enabled := True\<rparr>\<rparr>) w of
                           (Inl e, w) \<Rightarrow> (Inl e, w)
                         | (Inr _, w) \<Rightarrow> (Inr True, w))
                   else (Inr False, w)))"

definition remove_mcp_upstreams :: "mcp_env \<Rightarrow> string list \<Rightarrow> mcp_world \<Rightarrow> (string + unit) \<times> mcp_world" where
  "remove_mcp_upstreams env names w =
     (if names = [] then (Inr (), w)
      else case load_config w of
             Inl _ \<Rightarrow> (Inr (), w)
           | Inr c \<Rightarrow>
               (let servers = mc_servers (kc_mcp c); kept = filter (\<lambda>s. sc_name s \<notin> set names) servers
                in if length kept = length servers then (Inr (), w)
                   else save_config env
                          (c\<lparr>kc_mcp := (kc_mcp c)\<lparr>mc_servers := kept, mc_enabled := (kept \<noteq> [] \<and> mc_enabled (kc_mcp c))\<rparr>\<rparr>) w))"

section \<open>The tool surface\<close>

fun group_file :: "string \<Rightarrow> string list \<Rightarrow> (string \<times> string list list) list \<Rightarrow> (string \<times> string list list) list" where
  "group_file path servers_path [] = [(path, [servers_path])]"
| "group_file path servers_path ((p, paths) # files) =
     (if p = path then (p, paths @ [servers_path]) # files else (p, paths) # group_file path servers_path files)"

definition group_files :: "McpConfigLocation list \<Rightarrow> (string \<times> string list list) list" where
  "group_files locations =
     fold (\<lambda>location files. case ml_format location of JsonServers sp \<Rightarrow> group_file (ml_path location) sp files | TomlServers _ \<Rightarrow> files)
       locations []"

text \<open>The HTTP servers of all scopes that are not yet routed, in the order of the files.\<close>

definition unrouted_at :: "string \<Rightarrow> json_value \<Rightarrow> string list \<Rightarrow> (string \<times> string) list" where
  "unrouted_at base v servers_path =
     (case Option.bind (at_path servers_path v) as_obj of
        None \<Rightarrow> []
      | Some servers \<Rightarrow>
          concat (map (\<lambda>(name, server).
            case Option.bind (vget ''url'' (json_mcp_fields server)) j_str of
              Some url \<Rightarrow> if prefix (base @ ''/mcp/'') url then [] else [(name, url)]
            | None \<Rightarrow> []) servers))"

definition unrouted_upstreams :: "mcp_world \<Rightarrow> (string \<times> string list list) list \<Rightarrow> string \<Rightarrow> (string \<times> string) list" where
  "unrouted_upstreams w files base =
     concat (map (\<lambda>(path, server_paths).
       case mw_json w path of Inl _ \<Rightarrow> [] | Inr v \<Rightarrow> concat (map (unrouted_at base v) server_paths)) files)"

fun first_conflict :: "string \<Rightarrow> (string \<times> string) list \<Rightarrow> (string \<times> string) list \<Rightarrow> string + unit" where
  "first_conflict agent_id upstreams [] = Inr ()"
| "first_conflict agent_id upstreams ((name, url) # es) =
     (case map_of upstreams name of
        Some existing \<Rightarrow>
          if existing \<noteq> url
          then Inl (''MCP server '' @ single_quoted name @ '' appears in multiple '' @ agent_id @ '' config scopes with different upstream URLs ('' @
                    existing @ '' vs '' @ url @ ''); kyrisd routes by server name, so one scope would silently reach the other's upstream. '' @
                    ''Rename one of the servers, then re-run `kyris agent setup '' @ agent_id @ ''`.'')
          else first_conflict agent_id upstreams es
      | None \<Rightarrow> first_conflict agent_id (AList.update name url upstreams) es)"

definition reject_conflicting_http_upstreams :: "string \<Rightarrow> mcp_world \<Rightarrow> (string \<times> string list list) list \<Rightarrow> string \<Rightarrow> string + unit" where
  "reject_conflicting_http_upstreams agent_id w files base = first_conflict agent_id [] (unrouted_upstreams w files base)"

fun rewrite_paths :: "string \<Rightarrow> string \<Rightarrow> string \<Rightarrow> string list list \<Rightarrow> json_value \<Rightarrow> McpRewriteResult \<times> json_value" where
  "rewrite_paths base key canonical_id [] settings = (\<lparr>rw_changed = False, rw_http_rewrites = []\<rparr>, settings)"
| "rewrite_paths base key canonical_id (sp # sps) settings =
     (let (r, settings) = rewrite_json_mcp_servers settings sp base key canonical_id;
          (rs, settings) = rewrite_paths base key canonical_id sps settings
      in (\<lparr>rw_changed = rw_changed r \<or> rw_changed rs, rw_http_rewrites = rw_http_rewrites r @ rw_http_rewrites rs\<rparr>, settings))"

definition configure_file ::
    "mcp_env \<Rightarrow> string \<Rightarrow> string \<Rightarrow> string \<Rightarrow> string \<times> string list list \<Rightarrow> mcp_world \<Rightarrow> (string + string list \<times> (string \<times> string) list) \<times> mcp_world" where
  "configure_file env base key canonical_id file w =
     (let (path, server_paths) = file in
      case mw_json w path of
        Inl e \<Rightarrow> (Inl e, w)
      | Inr settings \<Rightarrow>
          (let (r, settings) = rewrite_paths base key canonical_id server_paths settings;
               (extra_changed, settings) = mx_extra_tool_filters env settings
           in if rw_changed r \<or> extra_changed
              then (case mx_write_error env path of
                      Some e \<Rightarrow> (Inl e, w)
                    | None \<Rightarrow>
                        (Inr ((if rw_changed r then [''rewrote MCP servers in '' @ path] else []) @
                              (if extra_changed then [''applied MCP tool policy in '' @ path] else []), rw_http_rewrites r),
                         w\<lparr>mw_json := (mw_json w)(path := Inr settings)\<rparr>))
              else (Inr ([], rw_http_rewrites r), w)))"

fun configure_files ::
    "mcp_env \<Rightarrow> string \<Rightarrow> string \<Rightarrow> string \<Rightarrow> (string \<times> string list list) list \<Rightarrow> mcp_world \<Rightarrow>
     (string + string list \<times> (string \<times> string) list) \<times> mcp_world" where
  "configure_files env base key canonical_id [] w = (Inr ([], []), w)"
| "configure_files env base key canonical_id (f # fs) w =
     (case configure_file env base key canonical_id f w of
        (Inl e, w) \<Rightarrow> (Inl e, w)
      | (Inr (changes, rw), w) \<Rightarrow>
          (case configure_files env base key canonical_id fs w of
             (Inl e, w) \<Rightarrow> (Inl e, w)
           | (Inr (changes', rw'), w) \<Rightarrow> (Inr (changes @ changes', rw @ rw'), w)))"

definition configure_json_mcp_tool_surface ::
    "mcp_env \<Rightarrow> string \<Rightarrow> McpConfigLocation list \<Rightarrow> string \<Rightarrow> string \<Rightarrow> mcp_world \<Rightarrow> (string + string list) \<times> mcp_world" where
  "configure_json_mcp_tool_surface env agent_id locations base key w =
     (let files = group_files locations in
      case reject_conflicting_http_upstreams agent_id w files base of
        Inl e \<Rightarrow> (Inl e, w)
      | Inr _ \<Rightarrow>
          (case configure_files env base key (canonical_agent_id agent_id) files w of
             (Inl e, w) \<Rightarrow> (Inl e, w)
           | (Inr (changes, all_http_rewrites), w) \<Rightarrow>
               if all_http_rewrites = [] then (Inr changes, w)
               else (case upsert_mcp_upstreams env all_http_rewrites w of
                       (Inl e, w) \<Rightarrow> (Inl e, w)
                     | (Inr _, w) \<Rightarrow> (Inr (changes @ [''registered MCP upstream(s) in kyrisd.yaml'']), w))))"

definition undo_json_mcp_tool_surface :: "mcp_env \<Rightarrow> string \<Rightarrow> McpConfigLocation list \<Rightarrow> mcp_world \<Rightarrow> (string + unit) \<times> mcp_world" where
  "undo_json_mcp_tool_surface env agent_id locations w =
     (case remove_mcp_upstreams env (mcp_server_names_from_agent w locations) w of
        (Inl e, w) \<Rightarrow> (Inl e, w)
      | (Inr _, w) \<Rightarrow> mx_restore_component env (agent_id @ '':tool'') w)"

section \<open>The wrapper's command line\<close>

record wrapper_args =
  wa_server :: string
  wa_agent :: "string option"
  wa_cmd :: string
  wa_cmd_args :: "string list"

fun leading_flags :: "string option \<Rightarrow> string option \<Rightarrow> string list \<Rightarrow> string option \<times> string option \<times> string list" where
  "leading_flags server agent (f # v # rest) =
     (if f = ''--server'' then leading_flags (Some v) agent rest
      else if f = ''--agent'' then leading_flags server (Some v) rest
      else (server, agent, f # v # rest))"
| "leading_flags server agent args = (server, agent, args)"

text \<open>\<^verbatim>\<open>main\<close> up to the start of the relay; no result is the usage message and exit code 1.\<close>

definition wrapper_main :: "string list \<Rightarrow> wrapper_args option" where
  "wrapper_main args =
     (if length args < 4 \<or> args ! 1 \<noteq> ''wrap'' then None
      else let (server, agent, rest) = leading_flags None None (drop 2 args)
           in case rest of
                [] \<Rightarrow> None
              | cmd # cmd_args \<Rightarrow> Some \<lparr>wa_server = unwrap_or server ''unknown'', wa_agent = agent, wa_cmd = cmd, wa_cmd_args = cmd_args\<rparr>)"

section \<open>Well-formed wraps\<close>

text \<open>No \<^verbatim>\<open>--server\<close> at the end of the leading flags without its value.\<close>

fun flags_complete :: "('v \<Rightarrow> string option) \<Rightarrow> 'v list \<Rightarrow> bool" where
  "flags_complete to_str [] = True"
| "flags_complete to_str (x # xs) =
     (if to_str x = Some ''--server'' then (case xs of [] \<Rightarrow> False | y # ys \<Rightarrow> flags_complete to_str ys) else True)"

definition wrap_complete :: "('v \<Rightarrow> string option) \<Rightarrow> 'v list \<Rightarrow> bool" where
  "wrap_complete to_str args =
     (case args of x # xs \<Rightarrow> if to_str x = Some ''wrap'' then flags_complete to_str xs else flags_complete to_str args | [] \<Rightarrow> True)"

section \<open>String scalars\<close>

lemma put_settles: "put same k v m = (c, m') \<Longrightarrow> same v \<Longrightarrow> put same k v m' = (False, m')"
  by (auto simp: put_def AList.update_conv split: option.splits if_splits)

lemma put_found: "put same k v m = (c, m') \<Longrightarrow> same v \<Longrightarrow> \<exists>x. map_of m' k = Some x \<and> same x"
  by (auto simp: put_def AList.update_conv split: option.splits if_splits)

lemma put_other: "put same k v m = (c, m') \<Longrightarrow> k \<noteq> k' \<Longrightarrow> map_of m' k' = map_of m k'"
  by (auto simp: put_def AList.update_conv split: option.splits if_splits)

lemma put_kept: "put same k v m = (False, m') \<Longrightarrow> m' = m"
  by (auto simp: put_def split: option.splits if_splits)

text \<open>What the two formats share: a string can be put into a value and read back.\<close>

locale string_scalar =
  fixes to_str :: "'s vtree \<Rightarrow> string option" and from_str :: "string \<Rightarrow> 's vtree"
  assumes to_from: "to_str (from_str s) = Some s"
begin

lemma agent_flag_settles:
  "flags_complete to_str args \<Longrightarrow> insert_agent_flag to_str from_str agent_id args = Some args' \<Longrightarrow>
   insert_agent_flag to_str from_str agent_id' args' = None"
  by (induction args arbitrary: args' rule: induct_list012) (auto simp: to_from split: if_splits)

lemma wrap_flag_settles:
  assumes "wrap_complete to_str args" "ensure_wrap_agent_flag to_str from_str agent_id args = (c, args')"
  shows "ensure_wrap_agent_flag to_str from_str agent_id args' = (False, args')"
proof (cases args)
  case Nil
  then show ?thesis using assms(2) by (auto simp: ensure_wrap_agent_flag_def to_from)
next
  case (Cons x xs)
  show ?thesis
  proof (cases "to_str x = Some ''wrap''")
    case True
    then show ?thesis using assms Cons agent_flag_settles[of xs agent_id]
      by (cases "insert_agent_flag to_str from_str agent_id xs") (auto simp: ensure_wrap_agent_flag_def wrap_complete_def)
  next
    case False
    show ?thesis
    proof (cases "insert_agent_flag to_str from_str agent_id args")
      case None
      then show ?thesis using assms False Cons by (auto simp: ensure_wrap_agent_flag_def)
    next
      case (Some r)
      have same: "args' = r" using assms False Cons Some by (auto simp: ensure_wrap_agent_flag_def)
      have "insert_agent_flag to_str from_str agent_id r = None"
        using agent_flag_settles[OF _ Some] assms(1) False Cons by (simp add: wrap_complete_def)
      moreover have "to_str (hd r) \<noteq> Some ''wrap'' \<and> r \<noteq> []"
        using Some False Cons by (auto simp: to_from split: if_splits list.splits)
      ultimately show ?thesis by (cases r) (auto simp: ensure_wrap_agent_flag_def same)
    qed
  qed
qed

lemma wrapped_args_settled: "ensure_wrap_agent_flag to_str from_str agent_id' (wrapped_args from_str name agent_id @ rest) = (False, wrapped_args from_str name agent_id @ rest)"
  by (simp add: wrapped_args_def ensure_wrap_agent_flag_def to_from)

lemma wrap_command_settles:
  assumes "\<And>args. command = ''kyris-mcp'' \<Longrightarrow> Option.bind (map_of server ''args'') as_arr = Some args \<Longrightarrow> wrap_complete to_str args"
    and "wrap_command to_str from_str agent_id name command server = (c, rw, server')"
  shows "wrap_command to_str from_str agent_id name ''kyris-mcp'' server' = (False, [], server')"
proof (cases "command = ''kyris-mcp''")
  case False
  then show ?thesis using assms(2) wrapped_args_settled[of agent_id name agent_id]
    by (auto simp: wrap_command_def AList.update_conv)
next
  case True
  show ?thesis
  proof (cases "Option.bind (map_of server ''args'') as_arr")
    case None
    then show ?thesis using assms(2) True by (simp add: wrap_command_def)
  next
    case (Some args)
    obtain d args' where e: "ensure_wrap_agent_flag to_str from_str agent_id args = (d, args')" by fastforce
    from wrap_flag_settles[OF assms(1)[OF True Some] e] show ?thesis
      using assms(2) True Some e by (cases d) (auto simp: wrap_command_def AList.update_conv)
  qed
qed

lemma wrap_command_array_settles:
  assumes "cmd_array \<noteq> [] \<and> to_str (hd cmd_array) = Some ''kyris-mcp'' \<Longrightarrow> wrap_complete to_str (tl cmd_array)"
    and "map_of server ''command'' = Some (VArr cmd_array)"
    and "wrap_command_array to_str from_str agent_id name cmd_array server = (c, rw, server')"
  shows "\<exists>cmd'. map_of server' ''command'' = Some (VArr cmd') \<and> cmd' \<noteq> [] \<and> to_str (hd cmd') = Some ''kyris-mcp'' \<and>
    wrap_command_array to_str from_str agent_id name cmd' server' = (False, [], server')"
proof (cases "cmd_array \<noteq> [] \<and> to_str (hd cmd_array) = Some ''kyris-mcp''")
  case True
  obtain d tail where e: "ensure_wrap_agent_flag to_str from_str agent_id (tl cmd_array) = (d, tail)" by fastforce
  note settled = wrap_flag_settles[OF assms(1)[OF True] e]
  show ?thesis
  proof (cases d)
    case False
    with e have "tail = tl cmd_array" by (auto simp: ensure_wrap_agent_flag_def split: option.splits)
    with False show ?thesis using assms(2,3) True e settled by (intro exI[of _ cmd_array]) (simp add: wrap_command_array_def)
  next
    case d: True
    with e True assms(3) have "server' = AList.update ''command'' (VArr (hd cmd_array # tail)) server" by (simp add: wrap_command_array_def)
    then show ?thesis using True settled by (intro exI[of _ "hd cmd_array # tail"]) (simp add: wrap_command_array_def AList.update_conv)
  qed
next
  case False
  let ?cmd = "from_str ''kyris-mcp'' # wrapped_args from_str name agent_id @ cmd_array"
  from False assms(3) have "server' = AList.update ''command'' (VArr ?cmd) server" unfolding wrap_command_array_def by (simp only: if_False prod.inject)
  then show ?thesis by (intro exI[of _ ?cmd]) (simp add: wrap_command_array_def AList.update_conv to_from wrapped_args_settled)
qed

lemma route_url_settles:
  assumes "route_url to_str from_str hk base key agent_id name url server = (c, rw, server')" "map_of server ''url'' = Some u" "to_str u = Some url"
    and "hk \<noteq> ''url''"
  shows "\<exists>u'. map_of server' ''url'' = Some u' \<and> to_str u' = Some (routed_url base name) \<and>
    route_url to_str from_str hk base key agent_id name (routed_url base name) server' = (False, [], server')"
    and "\<exists>h a b. map_of server' hk = Some (VObj h) \<and> map_of h ''Authorization'' = Some a \<and> to_str a = Some (''Bearer '' @ key) \<and>
      map_of h ''x-kyris-agent-id'' = Some b \<and> to_str b = Some agent_id"
proof -
  define s1 where "s1 = (if url \<noteq> routed_url base name then AList.update ''url'' (from_str (routed_url base name)) server else server)"
  define h0 where "h0 = (case map_of s1 hk of Some (VObj h) \<Rightarrow> h | _ \<Rightarrow> [])"
  obtain c1 h1 where h1: "put (\<lambda>v. to_str v = Some (''Bearer '' @ key)) ''Authorization'' (from_str (''Bearer '' @ key)) h0 = (c1, h1)" by fastforce
  obtain c2 h2 where h2: "put (\<lambda>v. to_str v = Some agent_id) ''x-kyris-agent-id'' (from_str agent_id) h1 = (c2, h2)" by fastforce
  have s': "server' = AList.update hk (VObj h2) s1"
    using assms(1) h1 h2 by (auto simp: route_url_def Let_def s1_def[symmetric] h0_def[symmetric] split: prod.splits)
  have u: "\<exists>u'. map_of s1 ''url'' = Some u' \<and> to_str u' = Some (routed_url base name)"
    using assms(2,3) by (auto simp: s1_def AList.update_conv to_from)
  have a: "\<exists>x. map_of h2 ''Authorization'' = Some x \<and> to_str x = Some (''Bearer '' @ key)"
    using put_found[OF h1] put_other[OF h2, of "''Authorization''"] by (simp add: to_from)
  have b: "\<exists>x. map_of h2 ''x-kyris-agent-id'' = Some x \<and> to_str x = Some agent_id"
    using put_found[OF h2] by (simp add: to_from)
  have settled: "put (\<lambda>v. to_str v = Some (''Bearer '' @ key)) ''Authorization'' (from_str (''Bearer '' @ key)) h2 = (False, h2)"
    "put (\<lambda>v. to_str v = Some agent_id) ''x-kyris-agent-id'' (from_str agent_id) h2 = (False, h2)"
    using a b by (auto simp: put_def)
  show "\<exists>u'. map_of server' ''url'' = Some u' \<and> to_str u' = Some (routed_url base name) \<and>
    route_url to_str from_str hk base key agent_id name (routed_url base name) server' = (False, [], server')"
    using u assms(4) by (auto simp: s' AList.update_conv route_url_def settled update_same Let_def simp del: append.simps)
  show "\<exists>h a b. map_of server' hk = Some (VObj h) \<and> map_of h ''Authorization'' = Some a \<and> to_str a = Some (''Bearer '' @ key) \<and>
      map_of h ''x-kyris-agent-id'' = Some b \<and> to_str b = Some agent_id"
    using a b by (auto simp: s' AList.update_conv)
qed

end

interpretation json_str: string_scalar j_str from_json_str
  by unfold_locales simp

interpretation toml_str: string_scalar t_str from_toml_str
  by unfold_locales simp

section \<open>Every server is routed\<close>

text \<open>What an entry names, as the rewrite reads it: a command (a string or a list), or else an address.\<close>

definition names_command :: "json_scalar fields \<Rightarrow> bool" where
  "names_command m = (case map_of m ''command'' of Some (VLeaf (SStr _)) \<Rightarrow> True | Some (VArr _) \<Rightarrow> True | _ \<Rightarrow> False)"

definition names_url :: "json_scalar fields \<Rightarrow> bool" where
  "names_url m \<longleftrightarrow> Option.bind (map_of m ''url'') j_str \<noteq> None"

text \<open>An entry goes through Kyris: it starts the wrapper, or its address is kyrisd's for its name, with the inbound key and the agent's name
  in the headers.\<close>

definition starts_wrapper :: "json_scalar fields \<Rightarrow> bool" where
  "starts_wrapper m =
     (case map_of m ''command'' of
        Some (VLeaf (SStr cmd)) \<Rightarrow> cmd = ''kyris-mcp''
      | Some (VArr cmd) \<Rightarrow> cmd \<noteq> [] \<and> j_str (hd cmd) = Some ''kyris-mcp''
      | _ \<Rightarrow> False)"

definition addressed_at_kyrisd :: "string \<Rightarrow> string \<Rightarrow> string \<Rightarrow> string \<Rightarrow> json_scalar fields \<Rightarrow> bool" where
  "addressed_at_kyrisd base key agent_id name m \<longleftrightarrow>
     Option.bind (map_of m ''url'') j_str = Some (routed_url base name) \<and>
     (case map_of m ''headers'' of
        Some (VObj h) \<Rightarrow> Option.bind (map_of h ''Authorization'') j_str = Some (''Bearer '' @ key) \<and>
                        Option.bind (map_of h ''x-kyris-agent-id'') j_str = Some agent_id
      | _ \<Rightarrow> False)"

text \<open>What becomes of the fields of an entry.\<close>

definition fields_routed ::
    "string \<Rightarrow> string \<Rightarrow> string \<Rightarrow> string \<Rightarrow> json_scalar fields \<Rightarrow> json_scalar fields \<Rightarrow> bool" where
  "fields_routed base key agent_id name m m' \<longleftrightarrow>
     (if names_command m then starts_wrapper m'
      else if names_url m then addressed_at_kyrisd base key agent_id name m' \<and> \<not> names_command m'
      else m' = m)"

text \<open>A wrap the entry already has is complete.\<close>

definition fields_complete :: "json_scalar fields \<Rightarrow> bool" where
  "fields_complete m =
     (case map_of m ''command'' of
        Some (VLeaf (SStr cmd)) \<Rightarrow> cmd = ''kyris-mcp'' \<longrightarrow> (case map_of m ''args'' of Some (VArr args) \<Rightarrow> wrap_complete j_str args | _ \<Rightarrow> True)
      | Some (VArr cmd) \<Rightarrow> cmd \<noteq> [] \<and> j_str (hd cmd) = Some ''kyris-mcp'' \<longrightarrow> wrap_complete j_str (tl cmd)
      | _ \<Rightarrow> True)"

definition server_complete :: "json_value \<Rightarrow> bool" where
  "server_complete v = (case json_mcp_fields v of VObj m \<Rightarrow> fields_complete m | _ \<Rightarrow> True)"

lemma j_str_SomeD: "j_str v = Some s \<Longrightarrow> v = VLeaf (SStr s)"
  by (cases v rule: j_str.cases) auto

lemma as_arr_SomeD: "as_arr v = Some xs \<Longrightarrow> v = VArr xs"
  by (cases v) auto

lemma json_entry_cases:
  obtains (command) cmd where "map_of m ''command'' = Some (VLeaf (SStr cmd))"
  | (array) cmd where "map_of m ''command'' = Some (VArr cmd)"
  | (url) url where "Option.bind (map_of m ''command'') j_str = None" "Option.bind (map_of m ''command'') as_arr = None"
      "map_of m ''url'' = Some (VLeaf (SStr url))"
  | (other) "Option.bind (map_of m ''command'') j_str = None" "Option.bind (map_of m ''command'') as_arr = None"
      "Option.bind (map_of m ''url'') j_str = None"
  by (cases "Option.bind (map_of m ''command'') j_str"; cases "Option.bind (map_of m ''command'') as_arr"; cases "Option.bind (map_of m ''url'') j_str")
    (auto simp: bind_eq_Some_conv dest!: j_str_SomeD as_arr_SomeD)

lemma names_command_iff:
  "names_command m \<longleftrightarrow> Option.bind (map_of m ''command'') j_str \<noteq> None \<or> Option.bind (map_of m ''command'') as_arr \<noteq> None"
  by (auto simp: names_command_def split: option.split vtree.split json_scalar.split)

lemma wrap_command_command:
  "wrap_command j_str from_json_str agent_id name command server = (c, rw, server') \<Longrightarrow> map_of server ''command'' = Some (VLeaf (SStr command)) \<Longrightarrow>
   map_of server' ''command'' = Some (VLeaf (SStr ''kyris-mcp''))"
  by (auto simp: wrap_command_def AList.update_conv split: if_splits option.splits prod.splits)

lemma route_url_command:
  "route_url to_str from_str hk base key agent_id name url server = (c, rw, server') \<Longrightarrow> k \<noteq> ''url'' \<Longrightarrow> k \<noteq> hk \<Longrightarrow> map_of server' k = map_of server k"
  by (auto simp: route_url_def AList.update_conv Let_def split: if_splits prod.splits)

text \<open>One pass routes the entry, and the next leaves it as it is.\<close>

lemma rewrite_json_fields_settles:
  assumes "rewrite_json_fields base key agent_id name m = (c, rw, m')"
  shows "fields_routed base key agent_id name m m' \<and> (fields_complete m \<longrightarrow> rewrite_json_fields base key agent_id name m' = (False, [], m'))"
proof (cases m rule: json_entry_cases)
  case (command cmd)
  then have w: "wrap_command j_str from_json_str agent_id name cmd m = (c, rw, m')" using assms by (simp add: rewrite_json_fields_def)
  note k = wrap_command_command[OF w command]
  have "wrap_command j_str from_json_str agent_id name ''kyris-mcp'' m' = (False, [], m')" if "fields_complete m"
  proof (rule json_str.wrap_command_settles[OF _ w])
    fix args assume "cmd = ''kyris-mcp''" "Option.bind (map_of m ''args'') as_arr = Some args"
    then show "wrap_complete j_str args"
      using that command by (auto simp: fields_complete_def bind_eq_Some_conv dest!: as_arr_SomeD)
  qed
  with k command show ?thesis by (simp add: fields_routed_def starts_wrapper_def names_command_def rewrite_json_fields_def)
next
  case (array cmd)
  then have w: "wrap_command_array j_str from_json_str agent_id name cmd m = (c, rw, m')" using assms by (simp add: rewrite_json_fields_def)
  have "\<exists>cmd'. map_of m' ''command'' = Some (VArr cmd') \<and> cmd' \<noteq> [] \<and> j_str (hd cmd') = Some ''kyris-mcp''"
    using w array by (auto simp: wrap_command_array_def AList.update_conv split: if_splits prod.splits)
  moreover have "\<exists>cmd'. map_of m' ''command'' = Some (VArr cmd') \<and> cmd' \<noteq> [] \<and> j_str (hd cmd') = Some ''kyris-mcp'' \<and>
      wrap_command_array j_str from_json_str agent_id name cmd' m' = (False, [], m')" if "fields_complete m"
    using json_str.wrap_command_array_settles[OF _ array w] that array by (auto simp: fields_complete_def)
  ultimately show ?thesis using array
    by (auto simp: fields_routed_def starts_wrapper_def names_command_def rewrite_json_fields_def)
next
  case (url url)
  then have w: "route_url j_str from_json_str ''headers'' base key agent_id name url m = (c, rw, m')" using assms by (simp add: rewrite_json_fields_def)
  note settles = json_str.route_url_settles[OF w url(3)]
  have "map_of m' ''command'' = map_of m ''command''" using route_url_command[OF w, of "''command''"] by simp
  then have nocmd: "Option.bind (map_of m' ''command'') j_str = None" "Option.bind (map_of m' ''command'') as_arr = None" using url by simp_all
  obtain u' where u': "map_of m' ''url'' = Some u'" "j_str u' = Some (routed_url base name)"
    "route_url j_str from_json_str ''headers'' base key agent_id name (routed_url base name) m' = (False, [], m')"
    using settles(1) by auto
  moreover obtain h a b where "map_of m' ''headers'' = Some (VObj h)" "map_of h ''Authorization'' = Some a" "j_str a = Some (''Bearer '' @ key)"
      "map_of h ''x-kyris-agent-id'' = Some b" "j_str b = Some agent_id"
    using settles(2) by auto
  ultimately show ?thesis using url nocmd
    by (simp add: fields_routed_def addressed_at_kyrisd_def names_command_iff names_url_def rewrite_json_fields_def)
next
  case other
  then show ?thesis using assms by (auto simp: rewrite_json_fields_def fields_routed_def names_command_iff names_url_def)
qed

lemma routed_not_unwrapped:
  assumes "json_mcp_fields v = VObj m'" and "fields_routed base key agent_id name m m'"
  shows "\<not> json_mcp_server_unwrapped v"
proof -
  have "starts_wrapper m' \<or> \<not> names_command m'"
    using assms(2) by (auto simp: fields_routed_def split: if_splits)
  then show ?thesis
    using assms(1)
    by (auto simp: json_mcp_server_unwrapped_def starts_wrapper_def names_command_def
        split: option.splits vtree.splits json_scalar.splits list.splits)
qed

lemma rewrite_json_fields_keeps:
  assumes "rewrite_json_fields base key agent_id name m = (c, rw, m')" "k \<notin> {''command'', ''args'', ''url'', ''headers''}"
  shows "map_of m' k = map_of m k"
proof (cases m rule: json_entry_cases)
  case (command cmd)
  then show ?thesis using assms
    by (auto simp: rewrite_json_fields_def wrap_command_def AList.update_conv split: if_splits option.splits prod.splits)
next
  case (array cmd)
  then show ?thesis using assms
    by (auto simp: rewrite_json_fields_def wrap_command_array_def AList.update_conv split: if_splits prod.splits)
next
  case (url url)
  then show ?thesis using assms route_url_command by (auto simp: rewrite_json_fields_def)
next
  case other
  then show ?thesis using assms by (simp add: rewrite_json_fields_def)
qed

lemma rewrite_json_server_settles:
  assumes "rewrite_json_server base key agent_id name v = (c, rw, v')"
  shows "(case json_mcp_fields v of
      VObj m \<Rightarrow> \<exists>m'. json_mcp_fields v' = VObj m' \<and> fields_routed base key agent_id name m m' \<and> (m' = m \<longrightarrow> v' = v)
    | _ \<Rightarrow> v' = v) \<and> (server_complete v \<longrightarrow> rewrite_json_server base key agent_id name v' = (False, [], v'))"
proof (cases v)
  case (VObj server)
  obtain c1 rw1 m1 where r1: "rewrite_json_fields base key agent_id name server = (c1, rw1, m1)" using prod_cases3 by blast
  have same: "map_of m1 ''transport'' = map_of server ''transport''" using rewrite_json_fields_keeps[OF r1] by simp
  show ?thesis
  proof (cases "\<exists>t. map_of server ''transport'' = Some (VObj t)")
    case True
    then obtain t where t: "map_of server ''transport'' = Some (VObj t)" by blast
    obtain c2 rw2 t2 where r2: "rewrite_json_fields base key agent_id name t = (c2, rw2, t2)" using prod_cases3 by blast
    with assms VObj t have "v' = VObj (AList.update ''transport'' (VObj t2) server)" by (simp add: rewrite_json_server_def)
    then show ?thesis using rewrite_json_fields_settles[OF r2] VObj t
      by (auto simp: server_complete_def json_mcp_fields_def AList.update_conv rewrite_json_server_def update_same)
  next
    case False
    with assms VObj r1 have "v' = VObj m1"
      by (auto simp: rewrite_json_server_def split: option.splits vtree.splits)
    then show ?thesis using rewrite_json_fields_settles[OF r1] VObj False same
      by (auto simp: server_complete_def json_mcp_fields_def rewrite_json_server_def split: option.splits vtree.splits)
  qed
qed (use assms in \<open>auto simp: rewrite_json_server_def json_mcp_fields_def\<close>)

lemma at_path_rewrite_at:
  "at_path path v = Some (VObj m) \<Longrightarrow> at_path path (snd (rewrite_at f path v)) = Some (VObj (snd (f m)))"
  by (induction path arbitrary: v)
    (auto simp: bind_eq_Some_conv AList.update_conv case_prod_beta split: vtree.splits option.splits elim!: vget.elims)

lemma rewrite_at_absent:
  "(\<And>m. at_path path v \<noteq> Some (VObj m)) \<Longrightarrow> rw_changed (fst (rewrite_at f path v)) = False \<and> rw_http_rewrites (fst (rewrite_at f path v)) = []"
  by (induction path arbitrary: v) (auto simp: case_prod_beta split: vtree.splits option.splits)

lemma at_path_rewriteD:
  assumes "at_path path (snd (rewrite_at f path v)) = Some (VObj m')"
  obtains m where "at_path path v = Some (VObj m)" "m' = snd (f m)"
proof -
  have "\<exists>m. at_path path v = Some (VObj m) \<and> m' = snd (f m)"
    using assms
    by (induction path arbitrary: v)
      (auto simp: bind_eq_Some_conv AList.update_conv case_prod_beta split: vtree.splits option.splits elim!: vget.elims)
  then show ?thesis using that by blast
qed

text \<open>
  C18. Every server that a JSON configuration starts or addresses is routed through Kyris. The rewrite keeps the entries, their names and
  their order. Of an entry the fields that count are those of its \<open>transport\<close> object if it has one, else its own. If they name a command, as
  a string or as a list, the rewritten entry starts the wrapper; else, if they have an address, it is kyrisd's for the server's name, with
  the inbound key and the agent's name in the headers; an entry that names neither, or is no object, is left exactly as it was. The drift
  detector finds no rewritten entry unwrapped. (A command beside a \<open>transport\<close> object is not looked at: see
  \<open>command_beside_transport_is_untouched\<close>.)
\<close>
theorem every_server_is_routed:
  assumes "at_path servers_path config = Some (VObj servers)" and "i < length servers" and "servers ! i = (name, v)"
  shows "\<exists>servers' v'.
    at_path servers_path (snd (rewrite_json_mcp_servers config servers_path base key agent_id)) = Some (VObj servers') \<and>
    length servers' = length servers \<and> servers' ! i = (name, v') \<and>
    (case json_mcp_fields v of
       VObj m \<Rightarrow>
         (\<exists>m'. json_mcp_fields v' = VObj m' \<and>
            (if names_command m then starts_wrapper m'
             else if names_url m then addressed_at_kyrisd base key agent_id name m'
             else v' = v)) \<and> \<not> json_mcp_server_unwrapped v'
     | _ \<Rightarrow> v' = v)"
proof -
  let ?f = "rewrite_json_server base key agent_id"
  let ?v' = "snd (snd (?f name v))"
  have at: "at_path servers_path (snd (rewrite_json_mcp_servers config servers_path base key agent_id)) = Some (VObj (snd (rewrite_each ?f servers)))"
    unfolding rewrite_json_mcp_servers_def by (rule at_path_rewrite_at[OF assms(1)])
  have entry: "length (snd (rewrite_each ?f servers)) = length servers" "snd (rewrite_each ?f servers) ! i = (name, ?v')"
    using assms(2,3) by (simp_all add: rewrite_each_def)
  have settles: "(case json_mcp_fields v of
      VObj m \<Rightarrow> \<exists>m'. json_mcp_fields ?v' = VObj m' \<and> fields_routed base key agent_id name m m' \<and> (m' = m \<longrightarrow> ?v' = v)
    | _ \<Rightarrow> ?v' = v)"
    using rewrite_json_server_settles[of base key agent_id name v "fst (?f name v)" "fst (snd (?f name v))" ?v'] by simp
  show ?thesis
  proof (intro exI conjI)
    show "case json_mcp_fields v of
       VObj m \<Rightarrow>
         (\<exists>m'. json_mcp_fields ?v' = VObj m' \<and>
            (if names_command m then starts_wrapper m'
             else if names_url m then addressed_at_kyrisd base key agent_id name m'
             else ?v' = v)) \<and> \<not> json_mcp_server_unwrapped ?v'
     | _ \<Rightarrow> ?v' = v"
    proof (cases "json_mcp_fields v")
      case (VObj m)
      with settles obtain m' where m': "json_mcp_fields ?v' = VObj m'" "fields_routed base key agent_id name m m'" "m' = m \<longrightarrow> ?v' = v"
        by auto
      with VObj routed_not_unwrapped[OF m'(1,2)] show ?thesis
        by (auto simp: fields_routed_def split: if_splits)
    qed (use settles in auto)
  qed (use at entry in auto)
qed

text \<open>A nested stdio server, a server with its command in a list, and an HTTP server that had a header of its own.\<close>

definition sample_servers :: "json_value" where
  "sample_servers = VObj [(''mcpServers'', VObj [
     (''fs'', VObj [(''transport'', VObj [(''type'', VLeaf (SStr ''stdio'')), (''command'', VLeaf (SStr ''npx'')), (''args'', VArr [VLeaf (SStr ''fs'')])])]),
     (''git'', VObj [(''command'', VArr [VLeaf (SStr ''uvx''), VLeaf (SStr ''git'')])]),
     (''web'', VObj [(''url'', VLeaf (SStr ''https://x.y/mcp'')), (''headers'', VObj [(''X'', VLeaf (SStr ''1''))])])])]"

theorem every_server_is_routed_witness:
  "\<exists>servers' v'. at_path [''mcpServers''] (snd (rewrite_json_mcp_servers sample_servers [''mcpServers''] ''http://k'' ''sk'' ''a/b'')) = Some (VObj servers') \<and>
     length servers' = 3 \<and> servers' ! 1 = (''git'', v') \<and> \<not> json_mcp_server_unwrapped v' \<and>
     (\<exists>m'. json_mcp_fields v' = VObj m' \<and> starts_wrapper m')"
proof -
  let ?servers = "[(''fs'', VObj [(''transport'', VObj [(''type'', VLeaf (SStr ''stdio'')), (''command'', VLeaf (SStr ''npx'')), (''args'', VArr [VLeaf (SStr ''fs'')])])]),
     (''git'', VObj [(''command'', VArr [VLeaf (SStr ''uvx''), VLeaf (SStr ''git'')])]),
     (''web'', VObj [(''url'', VLeaf (SStr ''https://x.y/mcp'')), (''headers'', VObj [(''X'', VLeaf (SStr ''1''))])])]"
  let ?m = "[(''command'', VArr [VLeaf (SStr ''uvx''), VLeaf (SStr ''git'')])]"
  have at: "at_path [''mcpServers''] sample_servers = Some (VObj ?servers)" by (simp add: sample_servers_def)
  have f: "json_mcp_fields (VObj ?m) = VObj ?m" "names_command ?m" by (simp_all add: json_mcp_fields_def names_command_def)
  have "1 < length ?servers" "?servers ! 1 = (''git'', VObj ?m)" "length ?servers = 3" by simp_all
  from every_server_is_routed[OF at this(1,2), of "''http://k''" "''sk''" "''a/b''", unfolded this(3)]
  show ?thesis by (simp only: f vtree.case if_True) blast
qed

text \<open>An entry with a \<open>transport\<close> object that names no server keeps a command of its own, which an agent that reads flat entries starts
  without the wrapper; and the drift detector, which looks at the same fields, does not report it.\<close>

lemma command_beside_transport_is_untouched:
  "let v = VObj [(''transport'', VObj []), (''command'', VLeaf (SStr ''npx''))]
   in rewrite_json_server base key agent_id name v = (False, [], v) \<and> \<not> json_mcp_server_unwrapped v"
  by (simp add: rewrite_json_server_def rewrite_json_fields_def json_mcp_server_unwrapped_def json_mcp_fields_def)

section \<open>A second pass changes nothing\<close>

lemma rewrite_each_settles:
  assumes "list_all (\<lambda>(name, v). f name (snd (snd (f name v))) = (False, [], snd (snd (f name v)))) servers"
  shows "rewrite_each f (snd (rewrite_each f servers)) = (\<lparr>rw_changed = False, rw_http_rewrites = []\<rparr>, snd (rewrite_each f servers))"
  using assms by (induction servers) (auto simp: rewrite_each_def)

lemma rewrite_at_settles:
  assumes "\<And>m. at_path path v = Some (VObj m) \<Longrightarrow> f (snd (f m)) = (\<lparr>rw_changed = False, rw_http_rewrites = []\<rparr>, snd (f m))"
  shows "rewrite_at f path (snd (rewrite_at f path v)) = (\<lparr>rw_changed = False, rw_http_rewrites = []\<rparr>, snd (rewrite_at f path v))"
  using assms
proof (induction path arbitrary: v)
  case Nil
  then show ?case by (cases v) (simp_all add: case_prod_beta)
next
  case (Cons k path)
  show ?case
  proof (cases v)
    case (VObj m)
    show ?thesis
    proof (cases "map_of m k")
      case (Some child)
      with Cons.IH[of child] Cons.prems VObj show ?thesis by (simp add: case_prod_beta AList.update_conv update_same)
    qed (simp add: VObj)
  qed simp_all
qed

text \<open>
  Rewriting settles: when the wraps a configuration already has are complete, a second rewrite finds nothing to change, registers no
  further upstream and leaves the configuration as the first one left it.
\<close>

theorem rewriting_settles:
  assumes "\<forall>servers. at_path servers_path config = Some (VObj servers) \<longrightarrow> list_all (\<lambda>(_, v). server_complete v) servers"
  shows "let config' = snd (rewrite_json_mcp_servers config servers_path base key agent_id)
    in rewrite_json_mcp_servers config' servers_path base key agent_id = (\<lparr>rw_changed = False, rw_http_rewrites = []\<rparr>, config')"
proof -
  have "rewrite_json_server base key agent_id name (snd (snd (rewrite_json_server base key agent_id name v))) =
      (False, [], snd (snd (rewrite_json_server base key agent_id name v)))" if "server_complete v" for name v
    using rewrite_json_server_settles[of base key agent_id name v] that by (metis prod.collapse)
  then have "list_all (\<lambda>(name, v). rewrite_json_server base key agent_id name (snd (snd (rewrite_json_server base key agent_id name v))) =
      (False, [], snd (snd (rewrite_json_server base key agent_id name v)))) m" if "at_path servers_path config = Some (VObj m)" for m
    using assms that by (auto simp: list_all_iff)
  then show ?thesis unfolding rewrite_json_mcp_servers_def Let_def by (intro rewrite_at_settles rewrite_each_settles)
qed

theorem rewriting_settles_witness:
  "let config' = snd (rewrite_json_mcp_servers sample_servers [''mcpServers''] ''http://k'' ''sk'' ''a/b'')
   in rewrite_json_mcp_servers config' [''mcpServers''] ''http://k'' ''sk'' ''a/b'' = (\<lparr>rw_changed = False, rw_http_rewrites = []\<rparr>, config')"
proof (rule rewriting_settles, intro allI impI)
  fix servers assume "at_path [''mcpServers''] sample_servers = Some (VObj servers)"
  moreover have "(case at_path [''mcpServers''] sample_servers of Some (VObj m) \<Rightarrow> list_all (\<lambda>(_, v). server_complete v) m | _ \<Rightarrow> False)" by code_simp
  ultimately show "list_all (\<lambda>(_, v). server_complete v) servers" by simp
qed

section \<open>What the wrapper starts\<close>

text \<open>The words an entry is started with.\<close>

definition json_argv :: "json_scalar fields \<Rightarrow> string list option" where
  "json_argv m =
     (case map_of m ''command'' of
        Some (VLeaf (SStr cmd)) \<Rightarrow>
          map_option ((#) cmd) (those (map j_str (unwrap_or (Option.bind (map_of m ''args'') as_arr) [])))
      | Some (VArr cmd) \<Rightarrow> those (map j_str cmd)
      | _ \<Rightarrow> None)"

definition server_argv :: "json_value \<Rightarrow> string list option" where
  "server_argv v = (case json_mcp_fields v of VObj m \<Rightarrow> json_argv m | _ \<Rightarrow> None)"

lemma leading_flags_stop: "c \<notin> {''--server'', ''--agent''} \<Longrightarrow> leading_flags s a (c # cs) = (s, a, c # cs)"
  by (cases cs) auto

lemma wrapper_main_wrapped:
  assumes "c \<notin> {''--server'', ''--agent''}"
  shows "wrapper_main ([''kyris-mcp'', ''wrap'', ''--server'', name, ''--agent'', agent_id, c] @ cs) =
    Some \<lparr>wa_server = name, wa_agent = Some agent_id, wa_cmd = c, wa_cmd_args = cs\<rparr>"
  using assms by (simp add: wrapper_main_def leading_flags_stop unwrap_or_def)

lemma rewrite_json_fields_argv:
  assumes "json_argv m = Some (c # cs)" "c \<noteq> ''kyris-mcp''"
  shows "json_argv (snd (snd (rewrite_json_fields base key agent_id name m))) =
    Some ([''kyris-mcp'', ''wrap'', ''--server'', name, ''--agent'', agent_id, c] @ cs)"
proof (cases m rule: json_entry_cases)
  case (command cmd)
  with assms have "cmd = c" "those (map j_str (unwrap_or (Option.bind (map_of m ''args'') as_arr) [])) = Some cs"
    by (auto simp: json_argv_def)
  then show ?thesis using command assms(2)
    by (simp add: rewrite_json_fields_def wrap_command_def json_argv_def AList.update_conv wrapped_args_def Let_def)
next
  case (array cmd)
  with assms have t: "those (map j_str cmd) = Some (c # cs)" by (simp add: json_argv_def)
  then obtain v vs where "cmd = v # vs" "j_str v = Some c" by (cases cmd) (auto split: option.splits)
  then show ?thesis using array assms(2) t
    by (simp add: rewrite_json_fields_def wrap_command_array_def json_argv_def AList.update_conv wrapped_args_def)
qed (use assms in \<open>auto simp: json_argv_def split: option.splits vtree.splits json_scalar.splits\<close>)

text \<open>
  C40. Wrapping is transparent: what a rewritten stdio entry starts is the wrapper, and the wrapper's own reading of its command line
  gives back the server's name, the owning agent, and exactly the command and arguments the entry had before - for flat and
  nested entries, and for commands given as a string or as a list.
\<close>

theorem wrapper_starts_original_command:
  assumes "server_argv v = Some (c # cs)" "c \<notin> {''kyris-mcp'', ''--server'', ''--agent''}"
  shows "Option.bind (server_argv (snd (snd (rewrite_json_server base key agent_id name v)))) wrapper_main =
    Some \<lparr>wa_server = name, wa_agent = Some agent_id, wa_cmd = c, wa_cmd_args = cs\<rparr>"
proof -
  from assms(1) obtain server where v: "v = VObj server"
    by (cases v) (auto simp: server_argv_def json_mcp_fields_def split: option.splits)
  have main: "Option.bind (json_argv (snd (snd (rewrite_json_fields base key agent_id name m)))) wrapper_main =
      Some \<lparr>wa_server = name, wa_agent = Some agent_id, wa_cmd = c, wa_cmd_args = cs\<rparr>" if "json_argv m = Some (c # cs)" for m
    using rewrite_json_fields_argv[OF that] wrapper_main_wrapped assms(2) by auto
  show ?thesis
  proof (cases "\<exists>t. map_of server ''transport'' = Some (VObj t)")
    case True
    then obtain t where t: "map_of server ''transport'' = Some (VObj t)" by blast
    then show ?thesis using main[of t] assms(1) v
      by (simp add: server_argv_def json_mcp_fields_def rewrite_json_server_def case_prod_beta AList.update_conv)
  next
    case False
    have keep: "map_of (snd (snd (rewrite_json_fields base key agent_id name server))) ''transport'' = map_of server ''transport''"
      by (rule rewrite_json_fields_keeps[where c = "fst (rewrite_json_fields base key agent_id name server)" and rw = "fst (snd (rewrite_json_fields base key agent_id name server))"]) simp_all
    from False have "json_mcp_fields (VObj m) = VObj m" if "map_of m ''transport'' = map_of server ''transport''" for m
      using that by (auto simp: json_mcp_fields_def split: option.splits vtree.splits)
    moreover from False have "snd (snd (rewrite_json_server base key agent_id name v)) = VObj (snd (snd (rewrite_json_fields base key agent_id name server)))"
      by (auto simp: v rewrite_json_server_def case_prod_beta split: option.splits vtree.splits)
    ultimately show ?thesis using main[of server] assms(1) v keep by (simp add: server_argv_def)
  qed
qed

theorem wrapper_starts_original_command_witness:
  "Option.bind (server_argv (snd (snd (rewrite_json_server ''http://k'' ''sk'' ''a/b'' ''git'' (VObj [(''command'', VArr [VLeaf (SStr ''uvx''), VLeaf (SStr ''git'')])])))))
     wrapper_main = Some \<lparr>wa_server = ''git'', wa_agent = Some ''a/b'', wa_cmd = ''uvx'', wa_cmd_args = [''git'']\<rparr>"
  by (rule wrapper_starts_original_command) (simp_all add: server_argv_def json_mcp_fields_def json_argv_def)

section \<open>The upstream list\<close>

definition upstream_of :: "McpServerConfig list \<Rightarrow> string \<Rightarrow> string option" where
  "upstream_of ss name = map_option sc_upstream (List.find (\<lambda>s. sc_name s = name) ss)"

lemma upstream_of_Cons: "upstream_of (s # ss) name = (if sc_name s = name then Some (sc_upstream s) else upstream_of ss name)"
  by (simp add: upstream_of_def)

lemma upstream_of_upsert: "upstream_of (snd (upsert_server n u ss)) name = (if name = n then Some u else upstream_of ss name)"
  by (induction ss) (auto simp: upstream_of_Cons upstream_of_def[of "[]"] case_prod_beta)

lemma upsert_servers_last: "upstream_of (snd (upsert_servers rs ss)) name = opt_or (map_of (rev rs) name) (upstream_of ss name)"
  by (induction rs arbitrary: ss) (auto simp: case_prod_beta upstream_of_upsert opt_or_def map_add_def split: option.splits)

lemma upsert_unchanged: "\<not> fst (upsert_servers rs ss) \<Longrightarrow> snd (upsert_servers rs ss) = ss"
proof (induction rs arbitrary: ss)
  case (Cons r rs)
  have "\<not> fst (upsert_server (fst r) (snd r) ss) \<Longrightarrow> snd (upsert_server (fst r) (snd r) ss) = ss"
    by (induction ss) (auto simp: case_prod_beta split: if_splits)
  with Cons show ?case by (cases r) (auto simp: case_prod_beta)
qed simp

text \<open>
  Every rewritten HTTP server can be reached: when registering succeeds, kyrisd's configuration has for each rewritten name the
  address it was rewritten from (the last one, for a name that occurs twice), keeps the upstream of every other name, and its keys are
  not on disk.
\<close>

theorem rewritten_servers_have_upstreams:
  assumes "rewrites \<noteq> []" "mw_config w = Some (Inr c)" "upsert_mcp_upstreams env rewrites w = (Inr b, w')"
    and "sv_inbound_key (kc_server c) = [] \<and> sv_operator_key (kc_server c) = []"
  shows "\<exists>c'. mw_config w' = Some (Inr c') \<and> sv_inbound_key (kc_server c') = [] \<and> sv_operator_key (kc_server c') = [] \<and>
    upstream_of (mc_servers (kc_mcp c')) name = opt_or (map_of (rev rewrites) name) (upstream_of (mc_servers (kc_mcp c)) name)"
proof -
  obtain i k where s: "mx_secrets env = Inr (i, k)"
    using assms by (cases "mx_secrets env") (auto simp: upsert_mcp_upstreams_def load_or_init_config_def)
  obtain d ss where u: "upsert_servers rewrites (mc_servers (kc_mcp c)) = (d, ss)" by fastforce
  have ss: "upstream_of ss name = opt_or (map_of (rev rewrites) name) (upstream_of (mc_servers (kc_mcp c)) name)"
    using upsert_servers_last[of "rewrites" "mc_servers (kc_mcp c)" name] u by simp
  show ?thesis
  proof (cases d)
    case True
    then show ?thesis using assms s u ss
      by (auto simp: upsert_mcp_upstreams_def load_or_init_config_def save_config_def split: option.splits)
  next
    case False
    then have "ss = mc_servers (kc_mcp c)" using upsert_unchanged[of "rewrites" "mc_servers (kc_mcp c)"] u by simp
    then show ?thesis using assms s u ss False by (auto simp: upsert_mcp_upstreams_def load_or_init_config_def)
  qed
qed

definition sample_mcp_env :: mcp_env where
  "sample_mcp_env = \<lparr>mx_default = Inr KyrisdConfig_empty, mx_secrets = Inr (''sk'', ''ops''), mx_save_error = None, mx_write_error = (\<lambda>_. None),
     mx_restore_component = (\<lambda>_ w. (Inr (), w)), mx_extra_tool_filters = (\<lambda>v. (False, v))\<rparr>"

definition sample_mcp_world :: mcp_world where
  "sample_mcp_world = \<lparr>mw_json = (\<lambda>_. Inr sample_servers), mw_toml = (\<lambda>_. Inr (VObj [])), mw_config = Some (Inr KyrisdConfig_empty)\<rparr>"

theorem rewritten_servers_have_upstreams_witness:
  "\<exists>c'. mw_config (snd (upsert_mcp_upstreams sample_mcp_env [(''web'', ''https://x.y/mcp'')] sample_mcp_world)) = Some (Inr c') \<and>
     sv_inbound_key (kc_server c') = [] \<and> sv_operator_key (kc_server c') = [] \<and>
     upstream_of (mc_servers (kc_mcp c')) ''web'' = Some ''https://x.y/mcp''"
proof -
  have "upsert_mcp_upstreams sample_mcp_env [(''web'', ''https://x.y/mcp'')] sample_mcp_world =
      (Inr True, snd (upsert_mcp_upstreams sample_mcp_env [(''web'', ''https://x.y/mcp'')] sample_mcp_world))"
    by (simp add: upsert_mcp_upstreams_def load_or_init_config_def save_config_def sample_mcp_env_def sample_mcp_world_def KyrisdConfig_empty_def McpConfig_default_def)
  from rewritten_servers_have_upstreams[OF _ _ this, of KyrisdConfig_empty "''web''"] show ?thesis
    by (auto simp: sample_mcp_world_def KyrisdConfig_empty_def ServerConfig_default_def McpConfig_default_def opt_or_def)
qed

section \<open>Where routing by name goes wrong\<close>

text \<open>After kyrisd's address has changed, the entry's own routed address is taken for an upstream: the original one is overwritten, and
  kyrisd forwards the server's calls to itself.\<close>

lemma moved_daemon_becomes_its_own_upstream:
  "let web = (\<lambda>config. case at_path [''mcpServers''] config of Some (VObj m) \<Rightarrow> map_of m ''web'' | _ \<Rightarrow> None);
       first = rewrite_json_mcp_servers sample_servers [''mcpServers''] ''http://a'' ''sk'' ''a/b'';
       second = rewrite_json_mcp_servers (snd first) [''mcpServers''] ''http://b'' ''sk'' ''a/b'';
       servers = snd (upsert_servers (rw_http_rewrites (fst second)) (snd (upsert_servers (rw_http_rewrites (fst first)) [])))
   in upstream_of servers ''web'' = Some ''http://a/mcp/web/''"
  by code_simp

text \<open>The list is shared by all agents and keyed by the bare name: two agents with different servers of the same name are not
  refused, and the second takes over the upstream of the first.\<close>

lemma agents_share_upstreams:
  "upstream_of (snd (upsert_servers [(''web'', ''https://second/mcp'')] (snd (upsert_servers [(''web'', ''https://first/mcp'')] [])))) ''web'' =
     Some ''https://second/mcp''"
  by code_simp

text \<open>Disconnecting one agent removes the upstreams of every name in its configuration, also those another agent is routed by - even a
  stdio server's name.\<close>

lemma disconnect_removes_shared_upstream:
  "let w = snd (upsert_mcp_upstreams sample_mcp_env [(''git'', ''https://other/mcp'')] sample_mcp_world);
       w' = snd (undo_json_mcp_tool_surface sample_mcp_env ''cline'' [\<lparr>ml_path = ''f'', ml_format = JsonServers [''mcpServers'']\<rparr>] w)
   in map_option (\<lambda>r. mc_servers (kc_mcp (projr r))) (mw_config w') = Some []"
  by (simp add: upsert_mcp_upstreams_def load_or_init_config_def save_config_def sample_mcp_env_def sample_mcp_world_def KyrisdConfig_empty_def
      McpConfig_default_def undo_json_mcp_tool_surface_def remove_mcp_upstreams_def mcp_server_names_from_agent_def mcp_server_names_matching_def
      mcp_server_names_at_def sample_servers_def load_config_def sort_stable_def Let_def)

text \<open>A Codex entry whose command is not a string counts as routed, although nothing has wrapped it.\<close>

lemma toml_list_command_counts_as_routed:
  "let w = sample_mcp_world\<lparr>mw_toml := (\<lambda>_. Inr (VObj [(''mcp_servers'', VObj [(''x'', VObj [(''command'', VArr [VLeaf (TStr ''npx'')])])])]))\<rparr>
   in kyris_routed_mcp_server_names w [\<lparr>ml_path = ''f'', ml_format = TomlServers ''mcp_servers''\<rparr>] = [''x'']"
  by (simp add: kyris_routed_mcp_server_names_def mcp_server_names_matching_def mcp_server_names_at_def toml_mcp_server_unwrapped_def
      sort_stable_def Let_def)

end
