(* ===== verification/Spec2Isabelle.thy ===== *)
theory Spec2Isabelle
  imports Adapters McpRouting Relay HookCheck EventSync ManagedFiles Scrub PolicyCompile Operator Sandbox Helper DaemonConfig ModeToggle Updates AgentStatus McpWrap
begin

text \<open>
  A verification development of Kyris, the local runtime that governs AI coding agents.

  \<^bold>\<open>The program.\<close> An agent (Claude Code, Codex, Gemini CLI, Cline, OpenCode) acts through four channels, and Kyris stands in each of them.
  Shell commands go through the agent's hook to \<^verbatim>\<open>kyris hook check\<close> (\<^verbatim>\<open>cli/src/hook_cmd\<close>) or through a governed shell to \<^verbatim>\<open>kyris-hook\<close>
  (\<^verbatim>\<open>hooks/helper\<close>); MCP tool calls go through the stdio wrapper \<^verbatim>\<open>kyris-mcp\<close> (\<^verbatim>\<open>mcp/src\<close>) or the daemon's HTTP route
  (\<^verbatim>\<open>daemon/src/mcp_routing\<close>); model traffic goes through the daemon's gateway (\<^verbatim>\<open>daemon/src/adapter\<close>), which meters it and stops runaway
  sessions; the agent's process itself is started in a sandbox by \<^verbatim>\<open>kyris-exec\<close> (\<^verbatim>\<open>exec/src\<close>). Verdicts come from the policy daemon
  agentpactd over a socket (\<^verbatim>\<open>agentpact-client\<close>); a question to the human waits in the daemon's pending store (\<^verbatim>\<open>daemon/src/pending.rs\<close>). The
  daemon \<^verbatim>\<open>kyrisd\<close> stores records of what happened, serves them to the operator and, when enrolled, ships them to a relay
  (\<^verbatim>\<open>daemon/src/sync\<close>). The command line \<^verbatim>\<open>kyris\<close> (\<^verbatim>\<open>cli/src\<close>) compiles the policy into the agents' own permission files, edits their
  configurations so that every edit can be undone, keeps the integrations in repair and updates the binaries.

  \<^bold>\<open>Conventions.\<close> Strings are byte strings (a HOL \<open>char\<close> is one byte of UTF-8), Rust's unsigned integers are \<open>nat\<close> where the code
  saturates or cannot overflow, and wrap-around is written out where it can (\<open>wrap_i64\<close> in \<^verbatim>\<open>Prelude\<close>, used by the runaway counters). A struct
  is a record, an enum a datatype with the source's constructors, \<open>Result\<close> is a sum with the error on the left, \<open>HashMap\<close> an association list
  or a map. Code that is not part of the repository - the agentpact crates, serde, the HTTP client, the database engine, SHA-256, the
  sandbox compiler, operating system calls - and the clock are arguments of the definitions that use them; what is relied on is a named hypothesis of
  the theorem. Tasks that run concurrently are step relations over a shared state with one label per await-free piece of code, and
  the theorems hold for all interleavings (\<open>run\<close>, \<open>hist\<close> and the locale \<open>machine\<close> of \<^verbatim>\<open>Prelude\<close>). Loops are structural recursions
  or functions with a termination proof; the one loop that may run for ever, polling for an approval, is a partial function into \<open>option\<close>;
  that it returns when every HTTP exchange of it ends is a theorem of its own (\<open>hold_poll_resolve_returns\<close>), and that it does not otherwise is
  shown beside it (\<open>unanswered_status_request_hangs\<close>). No fuel is used anywhere.

  \<^bold>\<open>Foundations.\<close>
  \<^item> \<^verbatim>\<open>Prelude\<close>: string functions of the Rust library with their evaluation rules, association lists, the state-machine locale.
  \<^item> \<^verbatim>\<open>Json\<close>: \<open>serde_json::Value\<close>, look-up, printing. \<^verbatim>\<open>Http\<close>: headers, requests, responses. \<^verbatim>\<open>Records\<close>: events and gateway
    records (\<^verbatim>\<open>types/src/event.rs\<close>, \<^verbatim>\<open>record.rs\<close>).

  \<^bold>\<open>Approvals.\<close>
  \<^item> \<^verbatim>\<open>Pending\<close> (\<^verbatim>\<open>daemon/src/pending.rs\<close>): the store with its linear resolver channels. In every interleaving of holders, claimers, timers
    and pruning, a waiting request has exactly one owner, a decision is final for the waiter and in the entry, and "approved" is said only
    by the owner of a claim. That a sender is used once is not assumed: it follows from the ownership invariant.
  \<^item> \<^verbatim>\<open>AgentpactClient\<close> (\<^verbatim>\<open>agentpact-client/src/lib.rs\<close>): requests, the retry loop, and that a response that is not a clear permission
    is a denial. \<^verbatim>\<open>PendingRoutes\<close> (\<^verbatim>\<open>server/pending_routes.rs\<close>, \<^verbatim>\<open>core/src/pending.rs\<close>): the routes, the dialog and the polling client; an approval reaches
    the waiter only after the policy daemon has accepted it.

  \<^bold>\<open>Enforcement.\<close>
  \<^item> \<^verbatim>\<open>McpPolicy\<close> (\<^verbatim>\<open>mcp/src/policy.rs\<close>) states what every gate of a tool call promises as the locale \<open>tool_gate\<close>, interpreted for the stdio
    wrapper there and for the HTTP route in \<^verbatim>\<open>McpRouting\<close> (\<^verbatim>\<open>daemon/src/mcp_routing\<close>): a call passes only if the daemon allowed it, a human approved it, or
    the spooled fail-open path was taken. \<^verbatim>\<open>Relay\<close> (\<^verbatim>\<open>mcp/src/relay.rs\<close>, \<^verbatim>\<open>framing.rs\<close>): framing and the four relay tasks; no tool call
    reaches the server ungoverned in any interleaving.
  \<^item> \<^verbatim>\<open>HookSegments\<close> and \<^verbatim>\<open>HookCheck\<close> (\<^verbatim>\<open>cli/src/hook_cmd\<close>): the segment walk, batching, popups and response shapes, with the locale
    \<open>segment_gate\<close> for the agent hook and the shell gate: exit code zero is justified segment by segment, or by a daemon's outage at a segment. \<^verbatim>\<open>Helper\<close>: every command of \<^verbatim>\<open>kyris-hook\<close>,
    its calendar arithmetic and the bounded walk over ancestors.
  \<^item> \<^verbatim>\<open>Sandbox\<close> (\<^verbatim>\<open>exec/src\<close>, \<^verbatim>\<open>cli/src/agents/shim.rs\<close>): a launch through the shim runs the real binary in the jail of
    the launch directory, and no writable root of a jail undoes the protection of the workspace.
  \<^item> \<^verbatim>\<open>PolicyCompile\<close> (\<^verbatim>\<open>cli/src/compile_policy\<close>): the merged policy is that of the nearest level; the permission files of four agents, each
    an interpretation of the locale \<open>policy_target\<close>, list every command as the policy decides it (what an agent's prefix rules match beyond that
    is not modelled); the files written are loadable, and denied tools are on the servers' denylists.

  \<^bold>\<open>Gateway.\<close>
  \<^item> \<^verbatim>\<open>Streaming\<close>, \<^verbatim>\<open>Gateway\<close>, \<^verbatim>\<open>Adapters\<close> (\<^verbatim>\<open>daemon/src/streaming.rs\<close>, \<^verbatim>\<open>metering.rs\<close>, \<^verbatim>\<open>adapter\<close>): stream parsing independent of how the bytes
    are cut (locale \<open>line_relay\<close>), metering exactly once, the forwarded request. \<^verbatim>\<open>Breaker\<close> and \<^verbatim>\<open>Gate\<close>: the runaway counters as a refinement of a
    specification over the history (locale \<open>session_meter\<close>), and the continue-or-stop gate: only a human releases a request of a tripped session, and an
    answer releases every waiter (a stop or a time-out resets the counter for the next request). \<^verbatim>\<open>Pricing\<close>: the price table and the cost formula with the rounding of floats as a parameter.

  \<^bold>\<open>Daemon.\<close>
  \<^item> \<^verbatim>\<open>Server\<close> (\<^verbatim>\<open>auth.rs\<close>, \<^verbatim>\<open>server.rs\<close>, \<^verbatim>\<open>middleware.rs\<close>): no route but the public ones answers without its key. \<^verbatim>\<open>Secrets\<close>
    (\<^verbatim>\<open>core/src/secret.rs\<close>): processes that mint a key at once agree on it. \<^verbatim>\<open>DaemonConfig\<close>: loading, validation, overrides, reload.
  \<^item> \<^verbatim>\<open>Storage\<close> (\<^verbatim>\<open>storage.rs\<close>): the SQL statements by their meaning on tables, the batching task; what it streams is what it stores, and nothing is lost without a count. \<^verbatim>\<open>Timeline\<close> and
    \<^verbatim>\<open>Operator\<close>: joins, filters, statistics and the handlers that serve them. \<^verbatim>\<open>SyncScope\<close> and \<^verbatim>\<open>EventSync\<close>: what may leave the machine, each log line
    read once, and nothing acknowledged before it was accepted as long as the log is not rotated.

  \<^bold>\<open>Command line.\<close>
  \<^item> \<^verbatim>\<open>ConfigPatch\<close>, \<^verbatim>\<open>ConfigEdit\<close>, \<^verbatim>\<open>ManagedFiles\<close>, \<^verbatim>\<open>Scrub\<close>: structural diff and its inverse, editing primitives, the install manifest (locale
    \<open>patch_kind\<close> for JSON and TOML) and residue removal; edits that change something are undone and the user's own later edits kept.
  \<^item> \<^verbatim>\<open>Reconcile\<close>, \<^verbatim>\<open>AgentLifecycle\<close>, \<^verbatim>\<open>AgentStatus\<close> (\<^verbatim>\<open>cli/src/agents\<close>): set-up, repair, promotion to native governance and disconnecting over an agent given by its
    methods; a disconnected agent is not changed (only read), native means evidence, a quiet pass equals the read-only status.
  \<^item> \<^verbatim>\<open>McpWrap\<close> (\<^verbatim>\<open>cli/src/agents/configure/mcp.rs\<close>, \<^verbatim>\<open>mcp/src/main.rs\<close>): routing of tool servers through the wrapper or kyrisd, over JSON and TOML by the locale
    \<open>string_scalar\<close>; every entry that names a command or an address where the rewrite looks is routed, the others are unchanged, a second pass changes nothing, and the wrapper starts the original command.
  \<^item> \<^verbatim>\<open>ModeToggle\<close>, \<^verbatim>\<open>Updates\<close> (\<^verbatim>\<open>cli/src/lifecycle\<close>): the mode switch rewrites one line, only verified binaries are installed.

  \<^bold>\<open>Divergences.\<close> Where the code does not do what its comments say, the behaviour is modelled as it is and a lemma shows it (for
  instance \<open>http_batch_is_forwarded_ungoverned\<close>, \<open>relay_invalid_message_smuggles_call\<close>, \<open>rotated_tail_is_skipped\<close>,
  \<open>setup_with_daemon_down_stays_disconnected\<close>).

  \<^bold>\<open>Not modelled.\<close> The interpreter of the agents' capability documents and the Codex handler (\<^verbatim>\<open>agents/engine.rs\<close>, \<^verbatim>\<open>generic.rs\<close>,
  \<^verbatim>\<open>codex_cli.rs\<close>): their effect on files goes through components that are modelled, and the lifecycle takes them as arguments. Installation,
  enrolment and uninstallation scripts, the service manager, file watching, log files, crash reports and signals: sequences of
  operating system calls. Notifications, tray, terminal output and reports: user interface. The Windows variants of files and secrets.
  The database engine and the wire schemas' snapshots: third-party or generated.
\<close>

end
